(* ===== verification/Prelude.thy ===== *)
theory Prelude
  imports Main "HOL-Library.AList" "HOL-Library.Sublist"
begin

text \<open>
  The shared vocabulary of the development: Rust strings as their UTF-8 bytes, hash maps as
  association lists, hash sets as lists, and the pieces of the Rust standard library that the
  sources use on strings and integers (\<^verbatim>\<open>strip_prefix\<close>, \<^verbatim>\<open>contains\<close>, \<^verbatim>\<open>join\<close>,
  \<^verbatim>\<open>format!("{n}")\<close>, \<^verbatim>\<open>str::parse::<u64>\<close>), with the lemmas every component uses.
  The collection \<open>rust_simps\<close> holds the rewrite rules that unfold these helpers.
\<close>

named_theorems rust_simps \<open>rewrite rules for the modelled parts of the Rust standard library\<close>
named_theorems trace_intros \<open>composition rules for properties of handler traces\<close>

section \<open>Strings, maps and sets\<close>

text \<open>
  A Rust \<^verbatim>\<open>String\<close> is a sequence of UTF-8 bytes; an Isabelle \<open>char\<close> is one byte. Hence
  \<open>length\<close> is \<^verbatim>\<open>str::len\<close>. A \<^verbatim>\<open>HashMap<String, T>\<close> is an association list: its
  iteration order, which Rust leaves unspecified, is the order of the list.
\<close>

type_synonym 'a hmap = "(string \<times> 'a) list"
type_synonym hset = "string list"

abbreviation hget :: "'a hmap \<Rightarrow> string \<Rightarrow> 'a option" where
  "hget m k \<equiv> map_of m k"

abbreviation hput :: "string \<Rightarrow> 'a \<Rightarrow> 'a hmap \<Rightarrow> 'a hmap" where
  "hput k v m \<equiv> AList.update k v m"

abbreviation hdel :: "string \<Rightarrow> 'a hmap \<Rightarrow> 'a hmap" where
  "hdel k m \<equiv> AList.delete k m"

abbreviation hhas :: "'a hmap \<Rightarrow> string \<Rightarrow> bool" where
  "hhas m k \<equiv> map_of m k \<noteq> None"

abbreviation ord :: "char \<Rightarrow> nat" where
  "ord c \<equiv> of_char c"

lemma hget_hput [simp]: "hget (hput k v m) k' = (if k' = k then Some v else hget m k')"
  by (simp add: update_conv')

lemma hget_hdel [simp]: "hget (hdel k m) k' = (if k' = k then None else hget m k')"
  by (simp add: delete_conv')

lemma dom_hput: "fst ` set (hput k v m) = insert k (fst ` set m)"
  by (simp add: dom_update)

lemma ord_bound: "ord c < 256"
  by simp

lemma ord_eq_iff: "ord c = ord d \<longleftrightarrow> c = d"
  by simp

section \<open>String operations of the Rust standard library\<close>

definition starts_with :: "string \<Rightarrow> string \<Rightarrow> bool" where
  "starts_with s p \<longleftrightarrow> prefix p s"

definition ends_with :: "string \<Rightarrow> string \<Rightarrow> bool" where
  "ends_with s p \<longleftrightarrow> suffix p s"

definition strip_prefix :: "string \<Rightarrow> string \<Rightarrow> string option" where
  "strip_prefix s p = (if prefix p s then Some (drop (length p) s) else None)"

fun contains :: "string \<Rightarrow> string \<Rightarrow> bool" where
  "contains [] p = (p = [])"
| "contains (c # cs) p = (prefix p (c # cs) \<or> contains cs p)"

text \<open>\<^verbatim>\<open>str::split_once\<close>: the text before and after the first occurrence of the pattern.\<close>

fun split_once :: "string \<Rightarrow> string \<Rightarrow> (string \<times> string) option" where
  "split_once [] p = (if p = [] then Some ([], []) else None)"
| "split_once (c # cs) p =
     (if prefix p (c # cs) then Some ([], drop (length p) (c # cs))
      else map_option (\<lambda>(a, b). (c # a, b)) (split_once cs p))"

fun join :: "string \<Rightarrow> string list \<Rightarrow> string" where
  "join sep [] = []"
| "join sep [x] = x"
| "join sep (x # y # zs) = x @ sep @ join sep (y # zs)"

definition ascii_lower :: "char \<Rightarrow> char" where
  "ascii_lower c = (if 65 \<le> ord c \<and> ord c \<le> 90 then char_of (ord c + 32) else c)"

definition to_ascii_lowercase :: "string \<Rightarrow> string" where
  "to_ascii_lowercase s = map ascii_lower s"

text \<open>\<^verbatim>\<open>Option::filter(|s| !s.is_empty())\<close>.\<close>

definition nonempty :: "'a list option \<Rightarrow> 'a list option" where
  "nonempty x = (case x of Some s \<Rightarrow> if s = [] then None else Some s | None \<Rightarrow> None)"

text \<open>\<^verbatim>\<open>Option::or_else\<close>, \<^verbatim>\<open>unwrap_or\<close> and \<^verbatim>\<open>bool::then_some\<close>.\<close>

definition or_else :: "'a option \<Rightarrow> 'a option \<Rightarrow> 'a option" where
  "or_else x y = (case x of Some a \<Rightarrow> Some a | None \<Rightarrow> y)"

definition unwrap_or :: "'a option \<Rightarrow> 'a \<Rightarrow> 'a" where
  "unwrap_or x d = (case x of Some a \<Rightarrow> a | None \<Rightarrow> d)"

definition then_some :: "bool \<Rightarrow> 'a \<Rightarrow> 'a option" where
  "then_some b x = (if b then Some x else None)"

lemmas option_rules [rust_simps, simp] =
  nonempty_def or_else_def unwrap_or_def then_some_def

lemma nonempty_Some_iff: "nonempty x = Some s \<longleftrightarrow> x = Some s \<and> s \<noteq> []"
  by (auto split: option.splits if_splits)

lemma join_Cons: "join sep (x # xs) = (if xs = [] then x else x @ sep @ join sep xs)"
  by (cases xs) auto

lemma join_eq_Nil: "join sep xs = [] \<Longrightarrow> x \<in> set xs \<Longrightarrow> x = []"
  by (induction sep xs rule: join.induct) auto

lemma set_join: "set (join sep xs) \<subseteq> set sep \<union> (\<Union>x\<in>set xs. set x)"
  by (induction sep xs rule: join.induct) auto

lemma join_append:
  "xs \<noteq> [] \<Longrightarrow> ys \<noteq> [] \<Longrightarrow> join sep (xs @ ys) = join sep xs @ sep @ join sep ys"
  by (induction sep xs rule: join.induct) (auto simp: join_Cons)

section \<open>Decimal numbers\<close>

text \<open>
  \<^verbatim>\<open>format!("{n}")\<close> on unsigned integers, and \<^verbatim>\<open>str::parse::<u64>\<close>: an optional plus sign,
  then at least one ASCII digit, and no value of \<open>2 ^ 64\<close> or more.
\<close>

abbreviation digit :: "nat \<Rightarrow> char" where
  "digit n \<equiv> char_of (48 + n)"

fun show_nat :: "nat \<Rightarrow> string" where
  "show_nat n = (if n < 10 then [digit n] else show_nat (n div 10) @ [digit (n mod 10)])"

declare show_nat.simps [simp del]

definition is_digit :: "char \<Rightarrow> bool" where
  "is_digit c \<longleftrightarrow> 48 \<le> ord c \<and> ord c \<le> 57"

definition dec_value :: "string \<Rightarrow> nat" where
  "dec_value s = foldl (\<lambda>a c. 10 * a + (ord c - 48)) 0 s"

definition parse_u64 :: "string \<Rightarrow> nat option" where
  "parse_u64 s =
     (let d = unwrap_or (strip_prefix s ''+'') s in
      if d \<noteq> [] \<and> list_all is_digit d \<and> dec_value d < 2 ^ 64 then Some (dec_value d) else None)"

lemma dec_value_Nil [simp]: "dec_value [] = 0"
  by (simp add: dec_value_def)

lemma dec_value_snoc [simp]: "dec_value (s @ [c]) = 10 * dec_value s + (ord c - 48)"
  by (simp add: dec_value_def)

lemma ord_digit [simp]: "n < 10 \<Longrightarrow> ord (digit n) = 48 + n"
  by (simp add: of_char_of)

lemma is_digit_digit [simp]: "n < 10 \<Longrightarrow> is_digit (digit n)"
  by (simp add: is_digit_def)

lemma show_nat_ne [simp]: "show_nat n \<noteq> []"
  by (subst show_nat.simps) simp

lemma show_nat_digits: "list_all is_digit (show_nat n)"
proof (induction n rule: show_nat.induct)
  case (1 n)
  then show ?case by (subst show_nat.simps) (auto simp: list_all_append)
qed

lemma dec_value_show_nat [simp]: "dec_value (show_nat n) = n"
proof (induction n rule: show_nat.induct)
  case (1 n)
  show ?case
  proof (cases "n < 10")
    case True
    have "dec_value ([] @ [digit n]) = n" using True by (simp only: dec_value_snoc) simp
    with True show ?thesis by (subst show_nat.simps) simp
  next
    case False
    with 1 show ?thesis by (subst show_nat.simps) simp
  qed
qed

lemma show_nat_inject [simp]: "show_nat m = show_nat n \<longleftrightarrow> m = n"
  using dec_value_show_nat by metis

lemma digit_0: "digit 0 = CHR ''0''"
proof -
  have "ord (digit 0) = ord (CHR ''0'')" by (simp add: of_char_of)
  then show ?thesis by (simp only: of_char_eq_iff)
qed

lemma digit_1: "digit 1 = CHR ''1''"
proof -
  have "ord (digit 1) = ord (CHR ''1'')" by (simp add: of_char_of)
  then show ?thesis by (simp only: of_char_eq_iff)
qed

lemma show_nat_no_leading_zero: "show_nat n = ''0'' \<or> ord (hd (show_nat n)) \<in> {49..57}"
proof (induction n rule: show_nat.induct)
  case (1 n)
  show ?case
  proof (cases "n < 10")
    case True
    then show ?thesis by (cases "n = 0") (simp_all add: show_nat.simps [of n] show_nat.simps [of 0] digit_0 [simplified])
  next
    case False
    with 1 have IH: "show_nat (n div 10) = ''0'' \<or> ord (hd (show_nat (n div 10))) \<in> {49..57}"
      by simp
    have "show_nat (n div 10) \<noteq> ''0''"
      using False dec_value_show_nat [of "n div 10"] by (auto simp: dec_value_def)
    with IH False show ?thesis by (simp add: show_nat.simps [of n])
  qed
qed

text \<open>Reading back a printed number.\<close>

lemma parse_u64_show_nat: "n < 2 ^ 64 \<Longrightarrow> parse_u64 (show_nat n) = Some n"
proof -
  assume n: "n < 2 ^ 64"
  have "\<not> prefix ''+'' (show_nat n)"
    using show_nat_digits [of n] by (cases "show_nat n") (auto simp: is_digit_def)
  with n show ?thesis
    by (simp add: parse_u64_def strip_prefix_def show_nat_digits Let_def)
qed

lemma parse_u64_bound: "parse_u64 s = Some n \<Longrightarrow> n < 2 ^ 64"
  by (auto simp: parse_u64_def Let_def split: if_splits)

end
