(* ===== verification/Utf8.thy ===== *)
theory Utf8
  imports Prelude
begin

text \<open>
  UTF-8, as \<^verbatim>\<open>str::chars\<close>, \<^verbatim>\<open>String::push\<close> and \<^verbatim>\<open>str::from_utf8\<close> use it: Unicode scalar
  values, their encoding, a decoder that accepts exactly the well-formed sequences, and the
  character classes of the standard library that the sources test. A codec interface
  (locale \<open>codec\<close>) states what an encoder and its decoder promise; it is interpreted here for
  UTF-8 text and later for Base64 and JSON.
\<close>

section \<open>The codec interface\<close>

locale codec =
  fixes enc :: "'a \<Rightarrow> 'b" and dec :: "'b \<Rightarrow> 'a option" and good :: "'a \<Rightarrow> bool"
  assumes dec_enc: "good x \<Longrightarrow> dec (enc x) = Some x"
begin

lemma enc_inject: "good x \<Longrightarrow> good y \<Longrightarrow> enc x = enc y \<longleftrightarrow> x = y"
  using dec_enc by (metis option.inject)

lemma dec_total: "good x \<Longrightarrow> \<exists>y. dec (enc x) = Some y"
  using dec_enc by blast

end

text \<open>A codec whose decoder accepts nothing but encodings of good values.\<close>

locale strict_codec = codec +
  assumes dec_good: "dec y = Some x \<Longrightarrow> good x"
    and enc_dec: "dec y = Some x \<Longrightarrow> enc x = y"
begin

lemma dec_iff: "dec y = Some x \<longleftrightarrow> good x \<and> enc x = y"
  using dec_enc dec_good enc_dec by blast

lemma dec_None_iff: "dec y = None \<longleftrightarrow> (\<forall>x. good x \<longrightarrow> enc x \<noteq> y)"
  using dec_iff by (metis not_Some_eq)

end

section \<open>Scalar values and their encoding\<close>

type_synonym scalar = nat

definition is_scalar :: "scalar \<Rightarrow> bool" where
  "is_scalar c \<longleftrightarrow> c < 0xD800 \<or> (0xE000 \<le> c \<and> c < 0x110000)"

definition utf8_encode :: "scalar \<Rightarrow> string" where
  "utf8_encode c =
     (if c < 0x80 then [char_of c]
      else if c < 0x800 then [char_of (0xC0 + c div 64), char_of (0x80 + c mod 64)]
      else if c < 0x10000 then
        [char_of (0xE0 + c div 4096), char_of (0x80 + c div 64 mod 64), char_of (0x80 + c mod 64)]
      else
        [char_of (0xF0 + c div 262144), char_of (0x80 + c div 4096 mod 64),
         char_of (0x80 + c div 64 mod 64), char_of (0x80 + c mod 64)])"

definition is_cont :: "char \<Rightarrow> bool" where
  "is_cont c \<longleftrightarrow> 0x80 \<le> ord c \<and> ord c < 0xC0"

text \<open>The next scalar of a byte sequence and the bytes after it; \<open>None\<close> when the sequence is
  empty or does not start with a well-formed encoding.\<close>

fun utf8_next :: "string \<Rightarrow> (scalar \<times> string) option" where
  "utf8_next [] = None"
| "utf8_next (a # s) =
     (if ord a < 0x80 then Some (ord a, s)
      else if 0xC0 \<le> ord a \<and> ord a < 0xE0 then
        (case s of
           b # r \<Rightarrow>
             (let v = (ord a - 0xC0) * 64 + (ord b - 0x80) in
              if is_cont b \<and> 0x80 \<le> v then Some (v, r) else None)
         | _ \<Rightarrow> None)
      else if 0xE0 \<le> ord a \<and> ord a < 0xF0 then
        (case s of
           b # c # r \<Rightarrow>
             (let v = (ord a - 0xE0) * 4096 + (ord b - 0x80) * 64 + (ord c - 0x80) in
              if is_cont b \<and> is_cont c \<and> 0x800 \<le> v \<and> is_scalar v then Some (v, r) else None)
         | _ \<Rightarrow> None)
      else if 0xF0 \<le> ord a then
        (case s of
           b # c # d # r \<Rightarrow>
             (let v = (ord a - 0xF0) * 262144 + (ord b - 0x80) * 4096 + (ord c - 0x80) * 64
                      + (ord d - 0x80) in
              if is_cont b \<and> is_cont c \<and> is_cont d \<and> 0x10000 \<le> v \<and> is_scalar v
              then Some (v, r) else None)
         | _ \<Rightarrow> None)
      else None)"

lemma utf8_next_shorter: "utf8_next s = Some (c, r) \<Longrightarrow> length r < length s"
  by (cases s) (auto simp: Let_def split: if_splits list.splits)

function utf8_decode :: "string \<Rightarrow> scalar list option" where
  "utf8_decode s =
     (if s = [] then Some []
      else case utf8_next s of
             None \<Rightarrow> None
           | Some (c, r) \<Rightarrow> map_option ((#) c) (utf8_decode r))"
  by pat_completeness auto
termination
  by (relation "measure length") (auto dest: utf8_next_shorter)

declare utf8_decode.simps [simp del]

lemma utf8_decode_Nil [simp]: "utf8_decode [] = Some []"
  by (simp add: utf8_decode.simps)

text \<open>\<^verbatim>\<open>str::from_utf8(..).is_ok()\<close>, \<^verbatim>\<open>str::chars\<close> and collecting characters into a string.
  A Rust string is always valid, so the value of \<open>chars\<close> on invalid bytes is never used.\<close>

definition utf8 :: "string \<Rightarrow> bool" where
  "utf8 s \<longleftrightarrow> utf8_decode s \<noteq> None"

definition chars :: "string \<Rightarrow> scalar list" where
  "chars s = (case utf8_decode s of Some cs \<Rightarrow> cs | None \<Rightarrow> [])"

definition of_chars :: "scalar list \<Rightarrow> string" where
  "of_chars cs = concat (map utf8_encode cs)"

section \<open>Round trips\<close>

lemma utf8_encode_ne [simp]: "utf8_encode c \<noteq> []"
  by (simp add: utf8_encode_def)

lemma split3: "c div 4096 * 4096 + c div 64 mod 64 * 64 + c mod 64 = (c::nat)"
proof -
  have "c div 4096 = c div 64 div 64" using div_mult2_eq [of c 64 64] by simp
  then show ?thesis
    using div_mult_mod_eq [of c 64] div_mult_mod_eq [of "c div 64" 64] by linarith
qed

lemma split4:
  "c div 262144 * 262144 + c div 4096 mod 64 * 4096 + c div 64 mod 64 * 64 + c mod 64 = (c::nat)"
proof -
  have "c div 262144 = c div 4096 div 64" using div_mult2_eq [of c 4096 64] by simp
  then show ?thesis
    using split3 [of c] div_mult_mod_eq [of "c div 4096" 64] by linarith
qed

lemma merge3:
  assumes "q < 64" "u < 64" "c = p * 4096 + q * 64 + u"
  shows "c div 4096 = p" "c div 64 mod 64 = q" "c mod 64 = (u::nat)"
proof -
  define m where "m = p * 64 + q"
  have c: "c = m * 64 + u" using assms(3) by (simp add: m_def)
  then show "c mod 64 = u" using assms(2) by simp
  from c assms(2) have d: "c div 64 = m" by simp
  then show "c div 64 mod 64 = q" using assms(1) by (simp add: m_def)
  have "c div 4096 = c div 64 div 64" using div_mult2_eq [of c 64 64] by simp
  then show "c div 4096 = p" using d assms(1) by (simp add: m_def)
qed

lemma utf8_next_encode:
  assumes "is_scalar c"
  shows "utf8_next (utf8_encode c @ r) = Some (c, r)"
proof -
  consider "c < 0x80" | "0x80 \<le> c" "c < 0x800" | "0x800 \<le> c" "c < 0x10000"
    | "0x10000 \<le> c" "c < 0x110000"
    using assms unfolding is_scalar_def by linarith
  then show ?thesis
  proof cases
    case 1
    then show ?thesis by (simp add: utf8_encode_def of_char_of)
  next
    case 2
    then have "c div 64 < 32" by simp
    with 2 show ?thesis
      by (simp add: utf8_encode_def of_char_of is_cont_def Let_def)
  next
    case 3
    define x y z where "x = c div 4096" and "y = c div 64 mod 64" and "z = c mod 64"
    note d = x_def y_def z_def
    have e: "utf8_encode c = [char_of (0xE0 + x), char_of (0x80 + y), char_of (0x80 + z)]"
      using 3 by (simp add: utf8_encode_def d)
    have c: "x * 4096 + y * 64 + z = c" unfolding d by (rule split3)
    have "x < 16" "y < 64" "z < 64" using 3 unfolding d by auto
    with 3(1) assms show ?thesis by (simp add: e of_char_of is_cont_def Let_def c)
  next
    case 4
    define x y z w where "x = c div 262144" and "y = c div 4096 mod 64" and "z = c div 64 mod 64"
      and "w = c mod 64"
    note d = x_def y_def z_def w_def
    have e: "utf8_encode c =
        [char_of (0xF0 + x), char_of (0x80 + y), char_of (0x80 + z), char_of (0x80 + w)]"
      using 4 by (simp add: utf8_encode_def d)
    have c: "x * 262144 + y * 4096 + z * 64 + w = c" unfolding d by (rule split4)
    have "x < 5" "y < 64" "z < 64" "w < 64" using 4 unfolding d by auto
    with 4(1) assms show ?thesis by (simp add: e of_char_of is_cont_def Let_def c)
  qed
qed

lemma is_cont_char: "is_cont b \<Longrightarrow> \<exists>q::nat. q < 64 \<and> b = char_of (0x80 + q)"
  by (rule exI [of _ "ord b - 0x80"]) (auto simp: is_cont_def)

lemma char_offset: "n \<le> ord a \<Longrightarrow> ord a < n + k \<Longrightarrow> \<exists>p::nat. p < k \<and> a = char_of (n + p)"
  by (rule exI [of _ "ord a - n"]) auto

lemma utf8_next_sound:
  assumes "utf8_next s = Some (c, r)"
  shows "is_scalar c \<and> s = utf8_encode c @ r"
proof -
  obtain a t where s: "s = a # t" using assms by (cases s) auto
  consider "ord a < 0x80" | "0xC0 \<le> ord a" "ord a < 0xC0 + 32" | "0xE0 \<le> ord a" "ord a < 0xE0 + 16"
    | "0xF0 \<le> ord a" "ord a < 0xF0 + 16"
    using assms s ord_bound [of a] by (auto split: if_splits)
  then show ?thesis
  proof cases
    case 1
    with assms s show ?thesis by (auto simp: utf8_encode_def is_scalar_def)
  next
    case 2
    from char_offset [OF 2] obtain p where p: "p < (32::nat)" "a = char_of (0xC0 + p)" by blast
    with assms s obtain b where t: "t = b # r" and b: "is_cont b"
      by (auto simp: Let_def of_char_of split: list.splits if_splits)
    from is_cont_char [OF b] obtain q where q: "q < (64::nat)" "b = char_of (0x80 + q)" by blast
    from assms s t p q have "c = p * 64 + q" "0x80 \<le> c"
      by (auto simp: Let_def of_char_of split: if_splits)
    with p q s t show ?thesis by (simp add: utf8_encode_def is_scalar_def)
  next
    case 3
    from char_offset [OF 3] obtain p where p: "p < (16::nat)" "a = char_of (0xE0 + p)" by blast
    with assms s obtain b d where t: "t = b # d # r" and b: "is_cont b" "is_cont d"
      by (auto simp: Let_def of_char_of split: list.splits if_splits)
    from is_cont_char [OF b(1)] obtain q where q: "q < (64::nat)" "b = char_of (0x80 + q)" by blast
    from is_cont_char [OF b(2)] obtain u where u: "u < (64::nat)" "d = char_of (0x80 + u)" by blast
    from assms s t p q u have c: "c = p * 4096 + q * 64 + u" and "0x800 \<le> c" "is_scalar c"
      by (auto simp: Let_def of_char_of split: if_splits)
    moreover from p q u c have "c < 0x10000" by simp
    moreover note merge3 [OF q(1) u(1) c]
    ultimately show ?thesis using p q u s t by (simp add: utf8_encode_def)
  next
    case 4
    from char_offset [OF 4] obtain p where p: "p < (16::nat)" "a = char_of (0xF0 + p)" by blast
    with assms s obtain b d e where t: "t = b # d # e # r"
      and b: "is_cont b" "is_cont d" "is_cont e"
      by (auto simp: Let_def of_char_of split: list.splits if_splits)
    from is_cont_char [OF b(1)] obtain q where q: "q < (64::nat)" "b = char_of (0x80 + q)" by blast
    from is_cont_char [OF b(2)] obtain u where u: "u < (64::nat)" "d = char_of (0x80 + u)" by blast
    from is_cont_char [OF b(3)] obtain v where v: "v < (64::nat)" "e = char_of (0x80 + v)" by blast
    from assms s t p q u v have c: "c = p * 262144 + q * 4096 + u * 64 + v"
      and "0x10000 \<le> c" "is_scalar c"
      by (auto simp: Let_def of_char_of split: if_splits)
    moreover from c have "c = (p * 64 + q) * 4096 + u * 64 + v" by simp
    note m = merge3 [OF u(1) v(1) this]
    moreover have "c div 262144 = p" using div_mult2_eq [of c 4096 64] m(1) q(1) by simp
    ultimately show ?thesis using p q u v s t by (simp add: utf8_encode_def)
  qed
qed

lemma utf8_decode_encode:
  "is_scalar c \<Longrightarrow> utf8_decode (utf8_encode c @ s) = map_option ((#) c) (utf8_decode s)"
  by (subst utf8_decode.simps) (simp add: utf8_next_encode)

lemma utf8_decode_of_chars: "list_all is_scalar cs \<Longrightarrow> utf8_decode (of_chars cs) = Some cs"
  by (induction cs) (simp_all add: of_chars_def utf8_decode_encode)

lemma of_chars_utf8_decode:
  "utf8_decode s = Some cs \<Longrightarrow> list_all is_scalar cs \<and> of_chars cs = s"
proof (induction s arbitrary: cs rule: utf8_decode.induct)
  case (1 s)
  show ?case
  proof (cases "s = []")
    case True
    with 1 show ?thesis by (simp add: of_chars_def)
  next
    case False
    with "1.prems" obtain c r cs' where n: "utf8_next s = Some (c, r)"
      and r: "utf8_decode r = Some cs'" and cs: "cs = c # cs'"
      by (subst (asm) utf8_decode.simps) (auto split: option.splits)
    from "1.IH" [OF False n refl r] utf8_next_sound [OF n] cs show ?thesis
      by (simp add: of_chars_def)
  qed
qed

interpretation utf8: strict_codec of_chars utf8_decode "list_all is_scalar"
  by unfold_locales (simp_all add: utf8_decode_of_chars of_chars_utf8_decode)

section \<open>Valid strings\<close>

lemma utf8_Nil [simp]: "utf8 []"
  by (simp add: utf8_def)

lemma utf8_iff: "utf8 s \<longleftrightarrow> (\<exists>cs. list_all is_scalar cs \<and> s = of_chars cs)"
  unfolding utf8_def using utf8.dec_iff by (metis not_Some_eq)

lemma utf8_of_chars [simp]: "list_all is_scalar cs \<Longrightarrow> utf8 (of_chars cs)"
  by (simp add: utf8_def utf8_decode_of_chars)

lemma chars_of_chars [simp]: "list_all is_scalar cs \<Longrightarrow> chars (of_chars cs) = cs"
  by (simp add: chars_def utf8_decode_of_chars)

lemma of_chars_chars [simp]: "utf8 s \<Longrightarrow> of_chars (chars s) = s"
  by (auto simp: utf8_def chars_def of_chars_utf8_decode)

lemma chars_scalar [simp]: "list_all is_scalar (chars s)"
  using of_chars_utf8_decode by (auto simp: chars_def split: option.splits)

lemma of_chars_append [simp]: "of_chars (xs @ ys) = of_chars xs @ of_chars ys"
  by (simp add: of_chars_def)

lemma of_chars_Nil [simp]: "of_chars [] = []"
  by (simp add: of_chars_def)

lemma of_chars_Cons: "of_chars (c # cs) = utf8_encode c @ of_chars cs"
  by (simp add: of_chars_def)

lemma chars_Nil [simp]: "chars [] = []"
  by (simp add: chars_def)

lemma utf8_append [simp]: "utf8 s \<Longrightarrow> utf8 t \<Longrightarrow> utf8 (s @ t)"
  by (metis utf8_iff of_chars_append list_all_append)

lemma chars_append: "utf8 s \<Longrightarrow> utf8 t \<Longrightarrow> chars (s @ t) = chars s @ chars t"
  by (metis chars_of_chars of_chars_append of_chars_chars chars_scalar list_all_append)

lemma utf8_append_cancel: "utf8 s \<Longrightarrow> utf8 (s @ t) \<longleftrightarrow> utf8 t"
proof (induction "chars s" arbitrary: s)
  case Nil
  then have "s = []" by (metis of_chars_chars of_chars_Nil)
  then show ?case by simp
next
  case (Cons c cs)
  have sc: "list_all is_scalar (c # cs)" using Cons.hyps(2) chars_scalar [of s] by metis
  then have cs: "chars (of_chars cs) = cs" by simp
  have s: "s = utf8_encode c @ of_chars cs"
    using Cons.hyps(2) Cons.prems of_chars_chars [of s] of_chars_Cons [of c cs] by simp
  have "utf8 (of_chars cs @ t) \<longleftrightarrow> utf8 t"
    using Cons.hyps(1) [of "of_chars cs"] sc cs by simp
  then show ?case using sc by (simp add: s utf8_def utf8_decode_encode)
qed

lemma utf8_ascii_Cons: "ord a < 128 \<Longrightarrow> utf8 (a # s) \<longleftrightarrow> utf8 s"
  by (simp add: utf8_def utf8_decode.simps [of "a # s"])

lemma utf8_ascii: "list_all (\<lambda>a. ord a < 128) s \<Longrightarrow> utf8 s"
  by (induction s) (simp_all add: utf8_ascii_Cons)

text \<open>
  An ASCII byte never lies inside a multi-byte encoding: cutting a valid string right before
  one leaves two valid strings.
\<close>

lemma encode_no_ascii:
  "is_scalar c \<Longrightarrow> a \<in> set (utf8_encode c) \<Longrightarrow> ord a < 128 \<Longrightarrow> utf8_encode c = [a]"
  by (auto simp: utf8_encode_def of_char_of is_scalar_def split: if_splits)

lemma utf8_cut_ascii:
  "utf8 (s @ a # t) \<Longrightarrow> ord a < 128 \<Longrightarrow> utf8 s \<and> utf8 t"
proof (induction "length s" arbitrary: s rule: less_induct)
  case less
  show ?case
  proof (cases "s = []")
    case True
    with less.prems show ?thesis by (simp add: utf8_ascii_Cons)
  next
    case False
    from less.prems(1) obtain ds where ds: "list_all is_scalar ds" "s @ a # t = of_chars ds"
      by (auto simp: utf8_iff)
    then obtain c cs where "ds = c # cs" by (cases ds) auto
    with ds have sc: "is_scalar c" "list_all is_scalar cs"
      and eq: "s @ a # t = utf8_encode c @ of_chars cs"
      by (simp_all add: of_chars_Cons)
    show ?thesis
    proof (cases "length (utf8_encode c) \<le> length s")
      case True
      with eq obtain u where u: "s = utf8_encode c @ u" "u @ a # t = of_chars cs"
        by (metis append_eq_append_conv_if append_take_drop_id)
      have "length u < length s" using u by simp
      moreover have "utf8 (u @ a # t)" using u sc by simp
      ultimately have "utf8 u \<and> utf8 t" using less.hyps less.prems(2) by blast
      with u sc show ?thesis by (simp add: utf8_def utf8_decode_encode)
    next
      case False
      then have "length s < length (utf8_encode c)" by simp
      moreover from eq have "(utf8_encode c @ of_chars cs) ! length s = a"
        by (metis nth_append_length)
      ultimately have "a \<in> set (utf8_encode c)"
        by (metis nth_append nth_mem)
      then have "utf8_encode c = [a]" using sc(1) less.prems(2) encode_no_ascii by blast
      with eq False \<open>s \<noteq> []\<close> show ?thesis by (cases s) auto
    qed
  qed
qed

end
