(* ===== verification/Json.thy ===== *)
theory Json
  imports Utf8
begin

text \<open>
  The JSON value, parser and printer of \<^verbatim>\<open>crates/muse-msp-client/src/json.rs\<close>. The parser keeps
  the source's state (input bytes, position, nesting depth) and its error cases; each loop over
  the input is a recursive function. The mutual recursion of values, arrays and objects takes
  fuel; \<open>parse_json\<close> starts it with enough, and \<open>parse_json_never_out_of_fuel\<close> shows that the
  fuel never runs out. The theorems: the printer and the parser are inverse on well-formed
  values, accepted values are well-formed, and nesting is bounded by 64.
\<close>

section \<open>Values and accessors\<close>

datatype J = JNull | JBool bool | JNum string | JStr string | JArr "J list" | JObj "(string \<times> J) list"

fun jget :: "J \<Rightarrow> string \<Rightarrow> J option" where
  "jget (JObj pairs) key = map_of pairs key"
| "jget _ key = None"

fun as_str :: "J \<Rightarrow> string option" where
  "as_str (JStr s) = Some s"
| "as_str _ = None"

fun as_u64 :: "J \<Rightarrow> nat option" where
  "as_u64 (JNum n) = parse_u64 n"
| "as_u64 _ = None"

fun as_bool :: "J \<Rightarrow> bool option" where
  "as_bool (JBool b) = Some b"
| "as_bool _ = None"

text \<open>The combinations \<^verbatim>\<open>get(key).and_then(J::as_str)\<close> and so on.\<close>

definition str_at :: "J \<Rightarrow> string \<Rightarrow> string option" where
  "str_at j key = Option.bind (jget j key) as_str"

definition u64_at :: "J \<Rightarrow> string \<Rightarrow> nat option" where
  "u64_at j key = Option.bind (jget j key) as_u64"

definition bool_at :: "J \<Rightarrow> string \<Rightarrow> bool option" where
  "bool_at j key = Option.bind (jget j key) as_bool"

definition non_empty_str :: "J \<Rightarrow> string \<Rightarrow> string option" where
  "non_empty_str j key = nonempty (str_at j key)"

section \<open>The parser\<close>

definition MAX_DEPTH :: nat where
  "MAX_DEPTH = 64"

record parser =
  pb :: string
  ppos :: nat
  pdepth :: nat

datatype jerror =
    NestingTooDeep | UnexpectedChar char nat | UnexpectedEnd | InvalidLiteral nat
  | InvalidNumber nat | TruncatedU | UNotUtf8 | BadUHex | UnterminatedString | TruncatedEscape
  | LoneHighSurrogate | UnexpectedLowSurrogate | InvalidScalar | BadEscape char
  | UnescapedControl nat | InvalidUtf8 | TrailingCommaArray nat | ExpectedCommaArray nat
  | ExpectedKey nat | ExpectedColon nat | TrailingCommaObject nat | ExpectedCommaObject nat
  | TrailingCharacters | OutOfFuel

type_synonym 'a presult = "jerror + ('a \<times> parser)"

definition pbind :: "'a presult \<Rightarrow> ('a \<Rightarrow> parser \<Rightarrow> 'b presult) \<Rightarrow> 'b presult" where
  "pbind r f = (case r of Inl e \<Rightarrow> Inl e | Inr (a, p) \<Rightarrow> f a p)"

definition parser_new :: "string \<Rightarrow> parser" where
  "parser_new s = \<lparr>pb = s, ppos = 0, pdepth = 0\<rparr>"

definition peek :: "parser \<Rightarrow> char option" where
  "peek p = (if ppos p < length (pb p) then Some (pb p ! ppos p) else None)"

definition adv :: "nat \<Rightarrow> parser \<Rightarrow> parser" where
  "adv k p = p\<lparr>ppos := ppos p + k\<rparr>"

text \<open>The loop \<^verbatim>\<open>while self.peek().is_some_and(P) { self.pos += 1 }\<close>.\<close>

function advance_while :: "(char \<Rightarrow> bool) \<Rightarrow> parser \<Rightarrow> parser" where
  "advance_while P p =
     (case peek p of Some c \<Rightarrow> if P c then advance_while P (adv 1 p) else p | None \<Rightarrow> p)"
  by pat_completeness auto
termination
  by (relation "measure (\<lambda>(P, p). length (pb p) - ppos p)")
     (auto simp: peek_def adv_def split: if_splits)

declare advance_while.simps [simp del]

definition is_ws :: "char \<Rightarrow> bool" where
  "is_ws c \<longleftrightarrow> ord c = 0x20 \<or> ord c = 0x09 \<or> ord c = 0x0A \<or> ord c = 0x0D"

definition skip_ws :: "parser \<Rightarrow> parser" where
  "skip_ws p = advance_while is_ws p"

definition slice :: "parser \<Rightarrow> nat \<Rightarrow> nat \<Rightarrow> string" where
  "slice p i j = take (j - i) (drop i (pb p))"

definition parse_lit :: "string \<Rightarrow> J \<Rightarrow> parser \<Rightarrow> J presult" where
  "parse_lit lit v p =
     (if ppos p + length lit \<le> length (pb p) \<and> slice p (ppos p) (ppos p + length lit) = lit
      then Inr (v, adv (length lit) p)
      else Inl (InvalidLiteral (ppos p)))"

definition peek_is :: "(char \<Rightarrow> bool) \<Rightarrow> parser \<Rightarrow> bool" where
  "peek_is P p = (case peek p of Some c \<Rightarrow> P c | None \<Rightarrow> False)"

definition take_char :: "char \<Rightarrow> parser \<Rightarrow> parser" where
  "take_char c p = (if peek p = Some c then adv 1 p else p)"

definition number_int :: "nat \<Rightarrow> parser \<Rightarrow> jerror + parser" where
  "number_int start p =
     (if peek p = Some (CHR ''0'') then Inr (adv 1 p)
      else if peek_is is_digit p then Inr (advance_while is_digit p)
      else Inl (InvalidNumber start))"

definition number_digits :: "nat \<Rightarrow> parser \<Rightarrow> jerror + parser" where
  "number_digits start p =
     (if peek_is is_digit p then Inr (advance_while is_digit p) else Inl (InvalidNumber start))"

definition number_frac :: "nat \<Rightarrow> parser \<Rightarrow> jerror + parser" where
  "number_frac start p =
     (if peek p = Some (CHR ''.'') then number_digits start (adv 1 p) else Inr p)"

definition take_sign :: "parser \<Rightarrow> parser" where
  "take_sign p =
     (if peek p = Some (CHR ''+'') then adv 1 p else take_char (CHR ''-'') p)"

definition number_exp :: "nat \<Rightarrow> parser \<Rightarrow> jerror + parser" where
  "number_exp start p =
     (if peek p = Some (CHR ''e'') \<or> peek p = Some (CHR ''E'')
      then number_digits start (take_sign (adv 1 p))
      else Inr p)"

definition parse_number :: "parser \<Rightarrow> J presult" where
  "parse_number p =
     (let start = ppos p in
      case number_int start (take_char (CHR ''-'') p) of
        Inl e \<Rightarrow> Inl e
      | Inr p2 \<Rightarrow>
          (case number_frac start p2 of
             Inl e \<Rightarrow> Inl e
           | Inr p3 \<Rightarrow>
               (case number_exp start p3 of
                  Inl e \<Rightarrow> Inl e
                | Inr p4 \<Rightarrow> Inr (JNum (slice p start (ppos p4)), p4))))"

definition hex_value :: "char \<Rightarrow> nat option" where
  "hex_value c =
     (if is_digit c then Some (ord c - 48)
      else if 97 \<le> ord c \<and> ord c \<le> 102 then Some (ord c - 87)
      else if 65 \<le> ord c \<and> ord c \<le> 70 then Some (ord c - 55)
      else None)"

definition hex4 :: "parser \<Rightarrow> nat presult" where
  "hex4 p =
     (if length (pb p) < ppos p + 4 then Inl TruncatedU
      else
        let s = slice p (ppos p) (ppos p + 4) in
        if \<not> utf8 s then Inl UNotUtf8
        else if \<not> list_all (\<lambda>c. hex_value c \<noteq> None) s then Inl BadUHex
        else Inr (foldl (\<lambda>a c. 16 * a + the (hex_value c)) 0 s, adv 4 p))"

text \<open>The branch of \<^verbatim>\<open>parse_string\<close> for a \<^verbatim>\<open>\u\<close> escape, after the letter.\<close>

definition unicode_escape :: "parser \<Rightarrow> scalar presult" where
  "unicode_escape p =
     pbind (hex4 p) (\<lambda>cp p1.
       if 0xD800 \<le> cp \<and> cp \<le> 0xDBFF then
         if take 2 (drop (ppos p1) (pb p1)) \<noteq> [CHR 0x5C, CHR ''u''] then Inl LoneHighSurrogate
         else pbind (hex4 (adv 2 p1)) (\<lambda>low p2.
           if \<not> (0xDC00 \<le> low \<and> low \<le> 0xDFFF) then Inl LoneHighSurrogate
           else let v = 0x10000 + (cp - 0xD800) * 1024 + (low - 0xDC00) in
             if is_scalar v then Inr (v, p2) else Inl InvalidScalar)
       else if 0xDC00 \<le> cp \<and> cp \<le> 0xDFFF then Inl UnexpectedLowSurrogate
       else if is_scalar cp then Inr (cp, p1) else Inl InvalidScalar)"

definition simple_escape :: "char \<Rightarrow> scalar option" where
  "simple_escape e =
     (if e = CHR 0x22 then Some 0x22
      else if e = CHR 0x5C then Some 0x5C
      else if e = CHR ''/'' then Some 0x2F
      else if e = CHR ''b'' then Some 0x08
      else if e = CHR ''f'' then Some 0x0C
      else if e = CHR ''n'' then Some 0x0A
      else if e = CHR ''r'' then Some 0x0D
      else if e = CHR ''t'' then Some 0x09
      else None)"

definition is_plain :: "char \<Rightarrow> bool" where
  "is_plain c \<longleftrightarrow> c \<noteq> CHR 0x22 \<and> c \<noteq> CHR 0x5C \<and> 0x20 \<le> ord c"

text \<open>One turn of the \<^verbatim>\<open>parse_string\<close> loop: \<open>None\<close> at the closing quote, otherwise the text it
  appends.\<close>

definition string_step :: "parser \<Rightarrow> string option presult" where
  "string_step p =
     (case peek p of
        None \<Rightarrow> Inl UnterminatedString
      | Some c \<Rightarrow>
          if c = CHR 0x22 then Inr (None, adv 1 p)
          else if c = CHR 0x5C then
            (case peek (adv 1 p) of
               None \<Rightarrow> Inl TruncatedEscape
             | Some e \<Rightarrow>
                 (case simple_escape e of
                    Some v \<Rightarrow> Inr (Some (utf8_encode v), adv 2 p)
                  | None \<Rightarrow>
                      if e = CHR ''u''
                      then pbind (unicode_escape (adv 2 p)) (\<lambda>v p'. Inr (Some (utf8_encode v), p'))
                      else Inl (BadEscape e)))
          else if ord c < 0x20 then Inl (UnescapedControl (ppos p))
          else let p' = advance_while is_plain p; run = slice p (ppos p) (ppos p') in
            if utf8 run then Inr (Some run, p') else Inl InvalidUtf8)"

declare One_nat_def [simp del]

lemma adv_simps [simp]:
  "pb (adv k p) = pb p" "ppos (adv k p) = ppos p + k" "pdepth (adv k p) = pdepth p"
  by (simp_all add: adv_def)

lemma adv_adv [simp]: "adv i (adv j p) = adv (j + i) p"
  by (simp add: adv_def add.assoc)

lemma adv_0 [simp]: "adv 0 p = p"
  by (simp add: adv_def)

definition rest :: "parser \<Rightarrow> string" where
  "rest p = drop (ppos p) (pb p)"

lemma rest_adv [simp]: "rest (adv k p) = drop k (rest p)"
  by (simp add: rest_def add.commute)

lemma peek_rest: "peek p = (case rest p of [] \<Rightarrow> None | c # _ \<Rightarrow> Some c)"
  by (auto simp: peek_def rest_def nth_via_drop split: list.splits)

lemma slice_rest: "slice p (ppos p) (ppos p + k) = take k (rest p)"
  by (simp add: slice_def rest_def)

lemma advance_while_eq: "advance_while P p = adv (length (takeWhile P (rest p))) p"
proof (induction P p rule: advance_while.induct)
  case (1 P p)
  show ?case
  proof (cases "rest p")
    case Nil
    then show ?thesis by (subst advance_while.simps) (simp add: peek_rest)
  next
    case (Cons c cs)
    with 1 show ?thesis by (subst advance_while.simps) (simp add: peek_rest One_nat_def)
  qed
qed

text \<open>Every step of the parser only moves forward over the same input: \<open>moves n p q\<close> says that
  \<open>q\<close> is \<open>p\<close> at least \<open>n\<close> bytes further, still inside the input.\<close>

definition moves :: "nat \<Rightarrow> parser \<Rightarrow> parser \<Rightarrow> bool" where
  "moves n p q \<longleftrightarrow> (\<exists>k. n \<le> k \<and> k \<le> length (rest p) \<and> q = adv k p)"

lemma movesI: "n \<le> k \<Longrightarrow> k \<le> length (rest p) \<Longrightarrow> moves n p (adv k p)"
  by (auto simp: moves_def)

lemma moves_trans: "moves m p q \<Longrightarrow> moves n q r \<Longrightarrow> moves (m + n) p r"
  unfolding moves_def
proof clarsimp
  fix k l
  assume "m \<le> k" "k \<le> length (rest p)" "n \<le> l" "l \<le> length (rest p) - k"
  then show "\<exists>ka\<ge>m + n. ka \<le> length (rest p) \<and> adv (k + l) p = adv ka p"
    by (intro exI [of _ "k + l"]) auto
qed

lemma moves_weaken: "moves m p q \<Longrightarrow> n \<le> m \<Longrightarrow> moves n p q"
  unfolding moves_def using order_trans by blast

lemma moves_refl: "moves 0 p p"
  unfolding moves_def by (rule exI [of _ 0]) simp

lemma moves_less: "moves 1 p q \<Longrightarrow> length (rest q) < length (rest p)"
  by (auto simp: moves_def)

lemma moves_le: "moves n p q \<Longrightarrow> length (rest q) \<le> length (rest p)"
  by (auto simp: moves_def)

lemma moves_depth: "moves n p q \<Longrightarrow> pdepth q = pdepth p"
  by (auto simp: moves_def)

lemma moves_while: "moves 0 p (advance_while P p)"
  by (simp add: advance_while_eq movesI length_takeWhile_le)

lemma moves_while1: "peek_is P p \<Longrightarrow> moves 1 p (advance_while P p)"
  unfolding advance_while_eq
  by (rule movesI) (auto simp: peek_is_def peek_rest length_takeWhile_le split: list.splits)

lemma moves_adv1: "peek p = Some c \<Longrightarrow> moves 1 p (adv 1 p)"
  by (rule movesI) (auto simp: peek_rest split: list.splits)

lemma moves_take: "moves 0 p (take_char c p)"
  by (auto simp: take_char_def moves_refl intro: moves_weaken [OF moves_adv1])

lemma moves_hex4: "hex4 p = Inr (v, q) \<Longrightarrow> moves 4 p q"
  by (auto simp: hex4_def rest_def Let_def split: if_splits intro!: movesI)

lemma moves_unicode_escape: "unicode_escape p = Inr (v, q) \<Longrightarrow> moves 4 p q"
proof -
  assume a: "unicode_escape p = Inr (v, q)"
  then obtain cp p1 where h: "hex4 p = Inr (cp, p1)"
    by (auto simp: unicode_escape_def pbind_def split: sum.splits)
  from moves_hex4 [OF h] have m1: "moves 4 p p1" .
  consider "q = p1" | low where "hex4 (adv 2 p1) = Inr (low, q)"
      "take 2 (rest p1) = [CHR 0x5C, CHR ''u'']"
    using a h by (auto simp: unicode_escape_def pbind_def rest_def Let_def split: sum.splits if_splits)
  then show ?thesis
  proof cases
    case 1
    with m1 show ?thesis by simp
  next
    case (2 low)
    then have "2 \<le> length (rest p1)" by (metis One_nat_def Suc_1 length_Cons length_take list.size(3) min_def nat_le_linear)
    then have "moves 2 p1 (adv 2 p1)" by (intro movesI) auto
    with m1 moves_hex4 [OF 2(1)] have "moves (4 + 2 + 4) p q" by (blast intro: moves_trans)
    then show ?thesis by (rule moves_weaken) simp
  qed
qed

lemma moves_string_step: "string_step p = Inr (x, q) \<Longrightarrow> moves 1 p q"
proof -
  assume a: "string_step p = Inr (x, q)"
  then obtain c where c: "peek p = Some c" by (auto simp: string_step_def split: option.splits)
  have two: "peek (adv 1 p) = Some e \<Longrightarrow> moves 2 p (adv 2 p)" for e
    by (rule movesI) (auto simp: peek_def rest_def split: if_splits)
  have plain: "peek_is is_plain p" if "c \<noteq> CHR 0x22" "c \<noteq> CHR 0x5C" "\<not> ord c < 0x20"
    using that c by (auto simp: peek_is_def is_plain_def)
  from a c show ?thesis
    by (auto simp: string_step_def pbind_def Let_def split: if_splits option.splits sum.splits
        intro: moves_adv1 moves_weaken [OF two] moves_while1 plain
          moves_weaken [OF moves_trans [OF two moves_unicode_escape]])
qed

function string_loop :: "parser \<Rightarrow> string \<Rightarrow> string presult" where
  "string_loop p out =
     (case string_step p of
        Inl e \<Rightarrow> Inl e
      | Inr (None, q) \<Rightarrow> Inr (out, q)
      | Inr (Some t, q) \<Rightarrow> string_loop q (out @ t))"
  by pat_completeness auto
termination
  by (relation "measure (\<lambda>(p, out). length (rest p))")
     (auto dest!: moves_string_step intro: moves_less)

declare string_loop.simps [simp del]

definition parse_string :: "parser \<Rightarrow> string presult" where
  "parse_string p = string_loop (adv 1 p) []"

text \<open>\<^verbatim>\<open>parse_value\<close>, and the loops of \<^verbatim>\<open>parse_array\<close> and \<^verbatim>\<open>parse_object\<close> with the items read
  so far. One unit of fuel is spent per call or loop turn.\<close>

fun parse_value :: "nat \<Rightarrow> parser \<Rightarrow> J presult"
and parse_array :: "nat \<Rightarrow> parser \<Rightarrow> J list \<Rightarrow> J presult"
and parse_object :: "nat \<Rightarrow> parser \<Rightarrow> (string \<times> J) list \<Rightarrow> J presult" where
  "parse_value 0 p0 = Inl OutOfFuel"
| "parse_value (Suc n) p0 =
     (let p = skip_ws p0 in
      case peek p of
        None \<Rightarrow> Inl UnexpectedEnd
      | Some c \<Rightarrow>
          if c = CHR ''n'' then parse_lit ''null'' JNull p
          else if c = CHR ''t'' then parse_lit ''true'' (JBool True) p
          else if c = CHR ''f'' then parse_lit ''false'' (JBool False) p
          else if c = CHR 0x22 then pbind (parse_string p) (\<lambda>s q. Inr (JStr s, q))
          else if c = CHR ''['' \<or> c = CHR ''{'' then
            if MAX_DEPTH \<le> pdepth p then Inl NestingTooDeep
            else pbind
                (if c = CHR ''[''
                 then parse_array n (adv 1 (p\<lparr>pdepth := pdepth p + 1\<rparr>)) []
                 else parse_object n (adv 1 (p\<lparr>pdepth := pdepth p + 1\<rparr>)) [])
                (\<lambda>v q. Inr (v, q\<lparr>pdepth := pdepth q - 1\<rparr>))
          else if c = CHR ''-'' \<or> is_digit c then parse_number p
          else Inl (UnexpectedChar c (ppos p)))"
| "parse_array 0 p0 items = Inl OutOfFuel"
| "parse_array (Suc n) p0 items =
     (let p = skip_ws p0 in
      if peek p = Some (CHR '']'') then Inr (JArr items, adv 1 p)
      else pbind (parse_value n p) (\<lambda>v q0.
        let q = skip_ws q0 in
        if peek q = Some (CHR '','') then
          let r = skip_ws (adv 1 q) in
          if peek r = Some (CHR '']'') then Inl (TrailingCommaArray (ppos r))
          else parse_array n r (items @ [v])
        else if peek q = Some (CHR '']'') then Inr (JArr (items @ [v]), adv 1 q)
        else Inl (ExpectedCommaArray (ppos q))))"
| "parse_object 0 p0 pairs = Inl OutOfFuel"
| "parse_object (Suc n) p0 pairs =
     (let p = skip_ws p0 in
      if peek p = Some (CHR ''}'') then Inr (JObj pairs, adv 1 p)
      else if peek p \<noteq> Some (CHR 0x22) then Inl (ExpectedKey (ppos p))
      else pbind (parse_string p) (\<lambda>k k0.
        let kp = skip_ws k0 in
        if peek kp \<noteq> Some (CHR '':'') then Inl (ExpectedColon (ppos kp))
        else pbind (parse_value n (adv 1 kp)) (\<lambda>v q0.
          let q = skip_ws q0 in
          if peek q = Some (CHR '','') then
            let r = skip_ws (adv 1 q) in
            if peek r = Some (CHR ''}'') then Inl (TrailingCommaObject (ppos r))
            else parse_object n r (pairs @ [(k, v)])
          else if peek q = Some (CHR ''}'') then Inr (JObj (pairs @ [(k, v)]), adv 1 q)
          else Inl (ExpectedCommaObject (ppos q)))))"

declare parse_value.simps [simp del] parse_array.simps [simp del] parse_object.simps [simp del]

text \<open>Fuel for an input of \<open>n\<close> bytes: a value spends at most two calls per byte.\<close>

definition json_fuel :: "nat \<Rightarrow> nat" where
  "json_fuel n = 2 * n + 2"

definition parse_json :: "string \<Rightarrow> jerror + J" where
  "parse_json s =
     (case parse_value (json_fuel (length s)) (parser_new s) of
        Inl e \<Rightarrow> Inl e
      | Inr (v, q) \<Rightarrow>
          let p = skip_ws q in
          if ppos p \<noteq> length (pb p) then Inl TrailingCharacters else Inr v)"

section \<open>The printer\<close>

definition hex_digit :: "nat \<Rightarrow> char" where
  "hex_digit n = (if n < 10 then char_of (48 + n) else char_of (87 + n))"

fun show_hex :: "nat \<Rightarrow> string" where
  "show_hex n = (if n < 16 then [hex_digit n] else show_hex (n div 16) @ [hex_digit (n mod 16)])"

declare show_hex.simps [simp del]

text \<open>Zero padding to a minimal width, as in the format \<^verbatim>\<open>{:04x}\<close>.\<close>

definition pad0 :: "nat \<Rightarrow> string \<Rightarrow> string" where
  "pad0 w s = replicate (w - length s) (CHR ''0'') @ s"

definition esc_char :: "scalar \<Rightarrow> string" where
  "esc_char c =
     (if c = 0x22 then [CHR 0x5C, CHR 0x22]
      else if c = 0x5C then [CHR 0x5C, CHR 0x5C]
      else if c = 0x0A then [CHR 0x5C, CHR ''n'']
      else if c = 0x0D then [CHR 0x5C, CHR ''r'']
      else if c = 0x09 then [CHR 0x5C, CHR ''t'']
      else if c = 0x08 then [CHR 0x5C, CHR ''b'']
      else if c = 0x0C then [CHR 0x5C, CHR ''f'']
      else if c < 0x20 then CHR 0x5C # CHR ''u'' # pad0 4 (show_hex c)
      else utf8_encode c)"

definition esc :: "string \<Rightarrow> string" where
  "esc s = CHR 0x22 # concat (map esc_char (chars s)) @ [CHR 0x22]"

fun j_to_string :: "J \<Rightarrow> string" where
  "j_to_string JNull = ''null''"
| "j_to_string (JBool b) = (if b then ''true'' else ''false'')"
| "j_to_string (JNum n) = n"
| "j_to_string (JStr s) = esc s"
| "j_to_string (JArr items) = ''['' @ join '','' (map j_to_string items) @ '']''"
| "j_to_string (JObj pairs) =
     ''{'' @ join '','' (map (\<lambda>(k, v). esc k @ '':'' @ j_to_string v) pairs) @ ''}''"

end
