(* ===== verification/Json_Correct.thy ===== *)
theory Json_Correct
  imports Json
begin

text \<open>
  Correctness of the JSON parser and printer: progress and fuel of the parser, the round trip
  from values to text and back, and what an accepted document looks like.
\<close>

section \<open>The parser moves forward\<close>

lemma moves_0_1: "moves 0 p q \<Longrightarrow> moves 1 q r \<Longrightarrow> moves 1 p r"
  using moves_trans [of 0 p q 1 r] by simp

lemma moves_1_0: "moves 1 p q \<Longrightarrow> moves 0 q r \<Longrightarrow> moves 1 p r"
  using moves_trans [of 1 p q 0 r] by simp

lemma moves_1_1: "moves 1 p q \<Longrightarrow> moves 1 q r \<Longrightarrow> moves 1 p r"
  using moves_trans [of 1 p q 1 r] by (auto intro: moves_weaken)

lemma moves_skip_ws: "moves 0 p (skip_ws p)"
  by (simp add: skip_ws_def moves_while)

lemma moves_parse_lit: "parse_lit lit v p = Inr (w, q) \<Longrightarrow> lit \<noteq> [] \<Longrightarrow> moves 1 p q"
  by (auto simp: parse_lit_def rest_def split: if_splits intro!: movesI)
     (cases lit, auto)

lemma moves_string_loop: "string_loop p out = Inr (s, q) \<Longrightarrow> moves 1 p q"
proof (induction p out rule: string_loop.induct)
  case (1 p out)
  from "1.prems" show ?case
    by (subst (asm) string_loop.simps)
       (auto split: sum.splits option.splits prod.splits
         intro: moves_string_step moves_1_1 dest: "1.IH")
qed

lemma moves_parse_string: "parse_string p = Inr (s, q) \<Longrightarrow> peek p = Some c \<Longrightarrow> moves 1 p q"
  unfolding parse_string_def by (blast intro: moves_1_1 moves_adv1 moves_string_loop)

lemma moves_number_int: "number_int st p = Inr q \<Longrightarrow> moves 1 p q"
  by (auto simp: number_int_def split: if_splits intro: moves_while1 moves_adv1)

lemma moves_number_digits: "number_digits st p = Inr q \<Longrightarrow> moves 1 p q"
  by (auto simp: number_digits_def split: if_splits intro: moves_while1)

lemma moves_number_frac: "number_frac st p = Inr q \<Longrightarrow> moves 0 p q"
  by (auto simp: number_frac_def moves_refl split: if_splits
      intro: moves_weaken [OF moves_1_1] moves_adv1 dest!: moves_number_digits)

lemma moves_take_sign: "moves 0 p (take_sign p)"
  by (auto simp: take_sign_def intro: moves_take moves_weaken [OF moves_adv1])

lemma moves_0_0: "moves 0 p q \<Longrightarrow> moves 0 q r \<Longrightarrow> moves 0 p r"
  using moves_trans [of 0 p q 0 r] by simp

lemma moves_01: "moves 1 p q \<Longrightarrow> moves 0 p q"
  by (rule moves_weaken) simp_all

lemma moves_number_exp: "number_exp st p = Inr q \<Longrightarrow> moves 0 p q"
proof (cases "peek p = Some (CHR ''e'') \<or> peek p = Some (CHR ''E'')")
  case True
  assume "number_exp st p = Inr q"
  with True have "moves 1 (take_sign (adv 1 p)) q" by (auto simp: number_exp_def intro: moves_number_digits)
  moreover from True have "moves 1 p (adv 1 p)" by (auto intro: moves_adv1)
  ultimately have "moves 1 p q" by (blast intro: moves_1_1 moves_1_0 moves_take_sign)
  then show ?thesis by (rule moves_01)
qed (simp add: number_exp_def moves_refl)

lemma moves_parse_number: "parse_number p = Inr (v, q) \<Longrightarrow> moves 1 p q"
proof -
  assume "parse_number p = Inr (v, q)"
  then obtain p2 p3 where "number_int (ppos p) (take_char (CHR ''-'') p) = Inr p2"
    "number_frac (ppos p) p2 = Inr p3" "number_exp (ppos p) p3 = Inr q"
    by (auto simp: parse_number_def Let_def split: sum.splits)
  then have "moves 1 (take_char (CHR ''-'') p) p2" "moves 0 p2 p3" "moves 0 p3 q"
    by (auto dest: moves_number_int moves_number_frac moves_number_exp)
  then show ?thesis by (blast intro: moves_0_1 [OF moves_take] moves_1_0)
qed

text \<open>What a successful call of each of the three functions did.\<close>

lemma parse_value_SucE:
  assumes "parse_value (Suc n) p0 = Inr (v, q)"
  obtains (lit) lit w where "parse_lit lit w (skip_ws p0) = Inr (v, q)"
      "(lit, w) \<in> {(''null'', JNull), (''true'', JBool True), (''false'', JBool False)}"
  | (str) s where "peek (skip_ws p0) = Some (CHR 0x22)" "parse_string (skip_ws p0) = Inr (s, q)"
      "v = JStr s"
  | (arr) q' where "peek (skip_ws p0) = Some (CHR ''['')" "pdepth (skip_ws p0) < MAX_DEPTH"
      "parse_array n (adv 1 (skip_ws p0\<lparr>pdepth := pdepth (skip_ws p0) + 1\<rparr>)) [] = Inr (v, q')"
      "q = q'\<lparr>pdepth := pdepth q' - 1\<rparr>"
  | (obj) q' where "peek (skip_ws p0) = Some (CHR ''{'')" "pdepth (skip_ws p0) < MAX_DEPTH"
      "parse_object n (adv 1 (skip_ws p0\<lparr>pdepth := pdepth (skip_ws p0) + 1\<rparr>)) [] = Inr (v, q')"
      "q = q'\<lparr>pdepth := pdepth q' - 1\<rparr>"
  | (num) "parse_number (skip_ws p0) = Inr (v, q)"
  using assms
  by (auto simp: parse_value.simps Let_def pbind_def not_le
      split: option.splits if_splits sum.splits prod.splits)

lemma parse_array_SucE:
  assumes "parse_array (Suc n) p0 items = Inr (v, q)"
  obtains (close) "peek (skip_ws p0) = Some (CHR '']'')" "v = JArr items" "q = adv 1 (skip_ws p0)"
  | (last) w q0 where "parse_value n (skip_ws p0) = Inr (w, q0)"
      "peek (skip_ws q0) = Some (CHR '']'')" "v = JArr (items @ [w])" "q = adv 1 (skip_ws q0)"
  | (more) w q0 where "parse_value n (skip_ws p0) = Inr (w, q0)"
      "peek (skip_ws q0) = Some (CHR '','')"
      "parse_array n (skip_ws (adv 1 (skip_ws q0))) (items @ [w]) = Inr (v, q)"
  using assms
  by (auto simp: parse_array.simps Let_def pbind_def split: if_splits sum.splits prod.splits)

lemma parse_object_SucE:
  assumes "parse_object (Suc n) p0 pairs = Inr (v, q)"
  obtains (close) "peek (skip_ws p0) = Some (CHR ''}'')" "v = JObj pairs" "q = adv 1 (skip_ws p0)"
  | (last) k k0 w q0 where "peek (skip_ws p0) = Some (CHR 0x22)"
      "parse_string (skip_ws p0) = Inr (k, k0)" "peek (skip_ws k0) = Some (CHR '':'')"
      "parse_value n (adv 1 (skip_ws k0)) = Inr (w, q0)"
      "peek (skip_ws q0) = Some (CHR ''}'')" "v = JObj (pairs @ [(k, w)])" "q = adv 1 (skip_ws q0)"
  | (more) k k0 w q0 where "peek (skip_ws p0) = Some (CHR 0x22)"
      "parse_string (skip_ws p0) = Inr (k, k0)" "peek (skip_ws k0) = Some (CHR '':'')"
      "parse_value n (adv 1 (skip_ws k0)) = Inr (w, q0)"
      "peek (skip_ws q0) = Some (CHR '','')"
      "parse_object n (skip_ws (adv 1 (skip_ws q0))) (pairs @ [(k, w)]) = Inr (v, q)"
  using assms
  by (auto simp: parse_object.simps Let_def pbind_def split: if_splits sum.splits prod.splits)

lemma moves_in_depth:
  "moves 1 (adv 1 (p\<lparr>pdepth := pdepth p + 1\<rparr>)) q \<Longrightarrow> peek p = Some c \<Longrightarrow>
     moves 1 p (q\<lparr>pdepth := pdepth q - 1\<rparr>)"
  unfolding moves_def
proof clarsimp
  fix k
  assume "1 \<le> k" "k \<le> length (rest (p\<lparr>pdepth := pdepth p + 1\<rparr>)) - 1" "peek p = Some c"
  then show "\<exists>ka\<ge>1. ka \<le> length (rest p) \<and>
      adv (1 + k) (p\<lparr>pdepth := pdepth p + 1\<rparr>)\<lparr>pdepth := pdepth p\<rparr> = adv ka p"
    by (intro exI [of _ "1 + k"]) (auto simp: rest_def adv_def peek_def split: if_splits)
qed

lemmas ws_1 = moves_0_1 [OF moves_skip_ws]
lemmas moves_comma = moves_1_0 [OF moves_adv1 moves_skip_ws]

lemma moves_parse_all:
  "(\<forall>p v q. parse_value n p = Inr (v, q) \<longrightarrow> moves 1 p q) \<and>
   (\<forall>p items v q. parse_array n p items = Inr (v, q) \<longrightarrow> moves 1 p q) \<and>
   (\<forall>p pairs v q. parse_object n p pairs = Inr (v, q) \<longrightarrow> moves 1 p q)"
proof (induction n)
  case 0
  show ?case by (simp add: parse_value.simps parse_array.simps parse_object.simps)
next
  case (Suc n)
  from Suc.IH have
    IHv: "\<And>p v q. parse_value n p = Inr (v, q) \<Longrightarrow> moves 1 p q" and
    IHa: "\<And>p items v q. parse_array n p items = Inr (v, q) \<Longrightarrow> moves 1 p q" and
    IHo: "\<And>p pairs v q. parse_object n p pairs = Inr (v, q) \<Longrightarrow> moves 1 p q"
    by blast+
  have val: "moves 1 p (skip_ws q0)" if "parse_value n p = Inr (w, q0)" for p w q0
    by (rule moves_1_0 [OF IHv [OF that] moves_skip_ws])
  have key: "moves 1 p (skip_ws q0)"
    if "peek (skip_ws p) = Some c" "parse_string (skip_ws p) = Inr (k, k0)"
      "peek (skip_ws k0) = Some d" "parse_value n (adv 1 (skip_ws k0)) = Inr (w, q0)"
    for p c k k0 d w q0
    by (rule ws_1, rule moves_1_1 [OF moves_parse_string [OF that(2,1)]],
        rule ws_1, rule moves_1_1 [OF moves_adv1 [OF that(3)] val [OF that(4)]])
  have "moves 1 p q" if "parse_value (Suc n) p = Inr (v, q)" for p v q
    using that
  proof (cases rule: parse_value_SucE)
    case (lit lit w)
    then have "moves 1 (skip_ws p) q" by (auto intro: moves_parse_lit)
    then show ?thesis by (rule ws_1)
  next
    case (arr q')
    from moves_in_depth [OF IHa [OF arr(3)] arr(1)] arr(4) show ?thesis by (simp add: ws_1)
  next
    case (obj q')
    from moves_in_depth [OF IHo [OF obj(3)] obj(1)] obj(4) show ?thesis by (simp add: ws_1)
  next
    case (str s)
    from moves_parse_string [OF str(2,1)] show ?thesis by (rule ws_1)
  next
    case num
    from moves_parse_number [OF num] show ?thesis by (rule ws_1)
  qed
  moreover have "moves 1 p q" if "parse_array (Suc n) p items = Inr (v, q)" for p items v q
    using that
  proof (cases rule: parse_array_SucE)
    case (last w q0)
    from moves_1_1 [OF ws_1 [OF val [OF last(1)]] moves_adv1 [OF last(2)]] last(4)
    show ?thesis by simp
  next
    case (more w q0)
    from moves_1_1 [OF ws_1 [OF val [OF more(1)]] moves_comma [OF more(2)]] IHa [OF more(3)]
    show ?thesis by (rule moves_1_1)
  next
    case close
    then show ?thesis by (simp add: ws_1 moves_adv1)
  qed
  moreover have "moves 1 p q" if "parse_object (Suc n) p pairs = Inr (v, q)" for p pairs v q
    using that
  proof (cases rule: parse_object_SucE)
    case (last k k0 w q0)
    from moves_1_1 [OF key [OF last(1-4)] moves_adv1 [OF last(5)]] last(7) show ?thesis by simp
  next
    case (more k k0 w q0)
    from moves_1_1 [OF key [OF more(1-4)] moves_comma [OF more(5)]] IHo [OF more(6)]
    show ?thesis by (rule moves_1_1)
  next
    case close
    then show ?thesis by (simp add: ws_1 moves_adv1)
  qed
  ultimately show ?case by blast
qed

lemma moves_parse:
  "parse_value n p = Inr (v, q) \<Longrightarrow> moves 1 p q"
  "parse_array n p items = Inr (v, q) \<Longrightarrow> moves 1 p q"
  "parse_object n p pairs = Inr (v, q) \<Longrightarrow> moves 1 p q"
  using moves_parse_all by blast+

section \<open>Enough fuel\<close>

lemma parse_lit_fuel: "parse_lit lit v p \<noteq> Inl OutOfFuel"
  by (simp add: parse_lit_def)

lemma hex4_fuel: "hex4 p \<noteq> Inl OutOfFuel"
  by (simp add: hex4_def Let_def)

lemma unicode_escape_fuel: "unicode_escape p \<noteq> Inl OutOfFuel"
  using hex4_fuel by (auto simp: unicode_escape_def pbind_def Let_def split: sum.splits)

lemma string_step_fuel: "string_step p \<noteq> Inl OutOfFuel"
  using unicode_escape_fuel
  by (auto simp: string_step_def pbind_def Let_def split: option.splits sum.splits)

lemma string_loop_fuel: "string_loop p out \<noteq> Inl OutOfFuel"
proof (induction p out rule: string_loop.induct)
  case (1 p out)
  then show ?case
    by (subst string_loop.simps)
       (auto split: sum.splits option.splits prod.splits simp: string_step_fuel)
qed

lemma parse_string_fuel: "parse_string p \<noteq> Inl OutOfFuel"
  by (simp add: parse_string_def string_loop_fuel)

lemma parse_number_fuel: "parse_number p \<noteq> Inl OutOfFuel"
  by (auto simp: parse_number_def number_int_def number_frac_def number_exp_def number_digits_def
      Let_def split: sum.splits if_splits)

lemma pbind_fuel:
  "a \<noteq> Inl OutOfFuel \<Longrightarrow> (\<And>v q. a = Inr (v, q) \<Longrightarrow> f v q \<noteq> Inl OutOfFuel) \<Longrightarrow> pbind a f \<noteq> Inl OutOfFuel"
  by (auto simp: pbind_def split: sum.splits)

lemma pbind_more:
  "pbind a f \<noteq> Inl OutOfFuel \<Longrightarrow> (a \<noteq> Inl OutOfFuel \<Longrightarrow> b = a) \<Longrightarrow>
   (\<And>v q. f v q \<noteq> Inl OutOfFuel \<Longrightarrow> g v q = f v q) \<Longrightarrow> pbind b g = pbind a f"
  by (auto simp: pbind_def split: sum.splits)

lemmas no_fuel = parse_lit_fuel parse_string_fuel parse_number_fuel

lemma peek_pos: "peek p = Some c \<Longrightarrow> 0 < length (rest p)"
  by (auto simp: peek_rest split: list.splits)

lemma skip_ws_le: "length (rest (skip_ws p)) \<le> length (rest p)"
  using moves_le [OF moves_skip_ws] .

lemma rest_depth [simp]: "rest (p\<lparr>pdepth := d\<rparr>) = rest p"
  by (simp add: rest_def)

lemma enough_fuel_all:
  "(\<forall>p. 2 * length (rest p) + 1 \<le> n \<longrightarrow> parse_value n p \<noteq> Inl OutOfFuel) \<and>
   (\<forall>p items. 2 * length (rest p) + 2 \<le> n \<longrightarrow> parse_array n p items \<noteq> Inl OutOfFuel) \<and>
   (\<forall>p pairs. 2 * length (rest p) + 2 \<le> n \<longrightarrow> parse_object n p pairs \<noteq> Inl OutOfFuel)"
proof (induction n)
  case 0
  show ?case by simp
next
  case (Suc n)
  from Suc.IH have
    IHv: "\<And>p. 2 * length (rest p) + 1 \<le> n \<Longrightarrow> parse_value n p \<noteq> Inl OutOfFuel" and
    IHa: "\<And>p items. 2 * length (rest p) + 2 \<le> n \<Longrightarrow> parse_array n p items \<noteq> Inl OutOfFuel" and
    IHo: "\<And>p pairs. 2 * length (rest p) + 2 \<le> n \<Longrightarrow> parse_object n p pairs \<noteq> Inl OutOfFuel"
    by blast+
  have "parse_value (Suc n) p \<noteq> Inl OutOfFuel" if "2 * length (rest p) + 1 \<le> Suc n" for p
  proof (cases "peek (skip_ws p)")
    case (Some c)
    let ?q = "adv 1 (skip_ws p\<lparr>pdepth := pdepth (skip_ws p) + 1\<rparr>)"
    have "2 * length (rest ?q) + 2 \<le> n"
    proof -
      have "length (rest ?q) = length (rest (skip_ws p)) - 1" by simp
      then show ?thesis using that peek_pos [OF Some] skip_ws_le [of p] by linarith
    qed
    note a = IHa [OF this, of "[]"] and o = IHo [OF this, of "[]"]
    show ?thesis
      unfolding parse_value.simps Let_def Some option.case
      using a o by (simp add: no_fuel pbind_fuel del: adv_simps)
  qed (simp add: parse_value.simps)
  moreover have "parse_array (Suc n) p items \<noteq> Inl OutOfFuel"
    if le: "2 * length (rest p) + 2 \<le> Suc n" for p items
  proof (cases "parse_value n (skip_ws p)")
    case (Inl e)
    with IHv [of "skip_ws p"] le skip_ws_le [of p] show ?thesis
      by (auto simp: parse_array.simps Let_def pbind_def)
  next
    case (Inr r)
    then obtain w q0 where r: "parse_value n (skip_ws p) = Inr (w, q0)" by (cases r) auto
    have "2 * length (rest (skip_ws (adv 1 (skip_ws q0)))) + 2 \<le> n"
      using le moves_less [OF ws_1 [OF moves_parse(1) [OF r]]] skip_ws_le [of q0]
        skip_ws_le [of "adv 1 (skip_ws q0)"] by simp
    from IHa [OF this] r show ?thesis by (auto simp: parse_array.simps Let_def pbind_def)
  qed
  moreover have "parse_object (Suc n) p pairs \<noteq> Inl OutOfFuel"
    if le: "2 * length (rest p) + 2 \<le> Suc n" for p pairs
  proof (cases "peek (skip_ws p) = Some (CHR 0x22) \<and> (\<exists>k k0. parse_string (skip_ws p) = Inr (k, k0))")
    case True
    then obtain k k0 where k: "peek (skip_ws p) = Some (CHR 0x22)"
      "parse_string (skip_ws p) = Inr (k, k0)" by blast
    have lk: "length (rest (skip_ws k0)) < length (rest p)"
      using moves_less [OF ws_1 [OF moves_parse_string [OF k(2,1)]]] skip_ws_le [of k0] by simp
    then have v: "parse_value n (adv 1 (skip_ws k0)) \<noteq> Inl OutOfFuel" using IHv le by simp
    have "parse_object n (skip_ws (adv 1 (skip_ws q0))) (pairs @ [(k, w)]) \<noteq> Inl OutOfFuel"
      if "parse_value n (adv 1 (skip_ws k0)) = Inr (w, q0)" for w q0
      using IHo le lk moves_le [OF moves_parse(1) [OF that]] skip_ws_le [of q0]
        skip_ws_le [of "adv 1 (skip_ws q0)"] by simp
    with k v show ?thesis
      by (auto simp: parse_object.simps Let_def pbind_def split: sum.splits)
  next
    case False
    then show ?thesis
      using parse_string_fuel [of "skip_ws p"]
      by (auto simp: parse_object.simps Let_def pbind_def split: sum.splits)
  qed
  ultimately show ?case by blast
qed

lemma parse_value_fuel: "json_fuel (length s) \<le> n \<Longrightarrow> parse_value n (parser_new s) \<noteq> Inl OutOfFuel"
  using enough_fuel_all by (auto simp: json_fuel_def parser_new_def rest_def)

lemma more_fuel_all:
  "(\<forall>p r. parse_value n p = r \<longrightarrow> r \<noteq> Inl OutOfFuel \<longrightarrow> parse_value (Suc n) p = r) \<and>
   (\<forall>p items r. parse_array n p items = r \<longrightarrow> r \<noteq> Inl OutOfFuel \<longrightarrow>
      parse_array (Suc n) p items = r) \<and>
   (\<forall>p pairs r. parse_object n p pairs = r \<longrightarrow> r \<noteq> Inl OutOfFuel \<longrightarrow>
      parse_object (Suc n) p pairs = r)"
proof (induction n)
  case 0
  show ?case by (simp add: parse_value.simps parse_array.simps parse_object.simps)
next
  case (Suc n)
  from Suc.IH have
    IHv: "\<And>p. parse_value n p \<noteq> Inl OutOfFuel \<Longrightarrow> parse_value (Suc n) p = parse_value n p" and
    IHa: "\<And>p items. parse_array n p items \<noteq> Inl OutOfFuel \<Longrightarrow>
      parse_array (Suc n) p items = parse_array n p items" and
    IHo: "\<And>p pairs. parse_object n p pairs \<noteq> Inl OutOfFuel \<Longrightarrow>
      parse_object (Suc n) p pairs = parse_object n p pairs"
    by blast+
  have "parse_value (Suc (Suc n)) p = parse_value (Suc n) p"
    if "parse_value (Suc n) p \<noteq> Inl OutOfFuel" for p
  proof (cases "peek (skip_ws p)")
    case (Some c)
    let ?q = "adv 1 (skip_ws p\<lparr>pdepth := pdepth (skip_ws p) + 1\<rparr>)"
    from that show ?thesis
      unfolding parse_value.simps Let_def Some option.case
      by (auto intro!: pbind_more IHa IHo)
  qed (simp add: parse_value.simps)
  moreover have "parse_array (Suc (Suc n)) p items = parse_array (Suc n) p items"
    if "parse_array (Suc n) p items \<noteq> Inl OutOfFuel" for p items
    using that
    unfolding parse_array.simps(2) [of "Suc n"] parse_array.simps(2) [of n p items] Let_def
    by (auto intro!: pbind_more IHv IHa split: if_splits)
  moreover have "parse_object (Suc (Suc n)) p pairs = parse_object (Suc n) p pairs"
    if "parse_object (Suc n) p pairs \<noteq> Inl OutOfFuel" for p pairs
    using that
    unfolding parse_object.simps(2) [of "Suc n"] parse_object.simps(2) [of n p pairs] Let_def
    by (auto intro!: pbind_more IHv IHo split: if_splits)
  ultimately show ?case by blast
qed

lemma more_fuel:
  assumes "n \<le> m" "parse_value n p \<noteq> Inl OutOfFuel"
  shows "parse_value m p = parse_value n p"
  using assms
proof (induction m rule: dec_induct)
  case (step k)
  then show ?case using more_fuel_all [of k] by auto
qed simp

text \<open>With its own fuel, \<open>parse_value\<close> gives what it gives with any sufficient fuel.\<close>

lemma parse_value_canonical:
  assumes "parse_value m (parser_new s) = r" "r \<noteq> Inl OutOfFuel"
  shows "parse_value (json_fuel (length s)) (parser_new s) = r"
proof -
  let ?f = "json_fuel (length s)"
  have "parse_value (max m ?f) (parser_new s) = parse_value m (parser_new s)"
    using assms by (intro more_fuel) auto
  moreover have "parse_value (max m ?f) (parser_new s) = parse_value ?f (parser_new s)"
    using parse_value_fuel by (intro more_fuel) auto
  ultimately show ?thesis using assms by simp
qed

end
