(* ===== verification/Json_Roundtrip.thy ===== *)
theory Json_Roundtrip
  imports Json_Correct
begin

text \<open>
  Printing and parsing are inverse: every well-formed value that nests at most 64 levels parses
  back from its printed text, and every accepted document yields a well-formed value within
  that bound. Well-formed means that strings are valid UTF-8 and that a number is a lexeme of
  the RFC 8259 grammar the source names.
\<close>

section \<open>Well-formed values\<close>

definition digits :: "string \<Rightarrow> bool" where
  "digits s \<longleftrightarrow> s \<noteq> [] \<and> list_all is_digit s"

definition json_number :: "string \<Rightarrow> bool" where
  "json_number s \<longleftrightarrow> (\<exists>sign ipart frac expo.
     s = sign @ ipart @ frac @ expo \<and>
     (sign = [] \<or> sign = ''-'') \<and>
     (ipart = ''0'' \<or> digits ipart \<and> hd ipart \<noteq> CHR ''0'') \<and>
     (frac = [] \<or> (\<exists>ds. digits ds \<and> frac = CHR ''.'' # ds)) \<and>
     (expo = [] \<or> (\<exists>e sg ds. (e = CHR ''e'' \<or> e = CHR ''E'') \<and> (sg = [] \<or> sg = ''+'' \<or> sg = ''-'') \<and>
        digits ds \<and> expo = e # sg @ ds)))"

fun jwf :: "J \<Rightarrow> bool" where
  "jwf (JNum n) = json_number n"
| "jwf (JStr s) = utf8 s"
| "jwf (JArr items) = list_all jwf items"
| "jwf (JObj pairs) = list_all (\<lambda>(k, v). utf8 k \<and> jwf v) pairs"
| "jwf _ = True"

fun jdepth :: "J \<Rightarrow> nat" where
  "jdepth (JArr items) = Suc (foldr max (map jdepth items) 0)"
| "jdepth (JObj pairs) = Suc (foldr max (map (\<lambda>(k, v). jdepth v) pairs) 0)"
| "jdepth _ = 0"

lemma foldr_max_ge: "x \<in> set xs \<Longrightarrow> x \<le> foldr max xs (0::nat)"
  by (induction xs) auto

lemma foldr_max_le: "(\<And>x. x \<in> set xs \<Longrightarrow> x \<le> n) \<Longrightarrow> foldr max xs (0::nat) \<le> n"
  by (induction xs) auto

lemma json_number_show_nat: "json_number (show_nat n)"
  unfolding json_number_def
  using show_nat_no_leading_zero [of n] show_nat_digits [of n]
  by (intro exI [of _ "[]"] exI [of _ "show_nat n"]) (auto simp: digits_def)

section \<open>Strings\<close>

lemma takeWhile_all_then: "list_all P xs \<Longrightarrow> (ys = [] \<or> \<not> P (hd ys)) \<Longrightarrow> takeWhile P (xs @ ys) = xs"
  by (induction xs) (auto, cases ys, auto)

lemma rest_take: "rest p = xs @ ys \<Longrightarrow> slice p (ppos p) (ppos p + length xs) = xs"
  by (simp add: slice_rest)

lemma encode_bytes: "is_scalar c \<Longrightarrow> 0x80 \<le> c \<Longrightarrow> list_all (\<lambda>b. 0x80 \<le> ord b) (utf8_encode c)"
  by (auto simp: utf8_encode_def of_char_of is_scalar_def)

abbreviation plain_scalar :: "scalar \<Rightarrow> bool" where
  "plain_scalar c \<equiv> 0x20 \<le> c \<and> c \<noteq> 0x22 \<and> c \<noteq> 0x5C"

lemma esc_plain: "plain_scalar c \<Longrightarrow> esc_char c = utf8_encode c"
  by (simp add: esc_char_def)

lemma char_ord_eq: "c = d \<longleftrightarrow> ord c = ord d"
  by simp

lemma encode_plain: "is_scalar c \<Longrightarrow> plain_scalar c \<Longrightarrow> list_all is_plain (utf8_encode c)"
proof (cases "c < 0x80")
  case True
  moreover assume "plain_scalar c"
  moreover have "utf8_encode c = [char_of c]" using True by (simp add: utf8_encode_def)
  moreover have "ord (char_of c) = c" using True by (simp add: of_char_of)
  ultimately show ?thesis by (auto simp: is_plain_def char_ord_eq simp del: of_char_eq_iff)
next
  case False
  moreover assume "is_scalar c"
  ultimately have "list_all (\<lambda>b. 0x80 \<le> ord b) (utf8_encode c)" by (simp add: encode_bytes)
  moreover have "0x80 \<le> ord b \<Longrightarrow> is_plain b" for b
    by (auto simp: is_plain_def)
  ultimately show ?thesis by (auto simp: list_all_iff)
qed

lemma hex_value_digit: "n < 16 \<Longrightarrow> hex_value (hex_digit n) = Some n"
  by (auto simp: hex_value_def hex_digit_def is_digit_def of_char_of)

lemma replicate_small: "replicate 2 a = [a, a]" "replicate 3 a = [a, a, a]"
  by (simp_all add: numeral_eq_Suc)

lemma take4: "take 4 (a # b # c # d # r) = [a, b, c, d]"
  by (simp add: numeral_eq_Suc)

lemma take2: "take 2 (a # b # r) = [a, b]"
  by (simp add: numeral_eq_Suc)

lemma drop2: "drop 2 (a # b # r) = r"
  by (simp add: numeral_eq_Suc)

lemma show_hex_byte:
  "c < 256 \<Longrightarrow> pad0 4 (show_hex c) =
     [CHR ''0'', CHR ''0'', hex_digit (c div 16), hex_digit (c mod 16)]"
proof (cases "c < 16")
  case True
  then have "hex_digit (c div 16) = CHR ''0''" using digit_0 by (simp add: hex_digit_def)
  with True show ?thesis by (simp add: show_hex.simps [of c] pad0_def replicate_small)
next
  case False
  assume "c < 256"
  then have "c div 16 < 16" by simp
  with False show ?thesis
    by (simp add: show_hex.simps [of c] show_hex.simps [of "c div 16"] pad0_def replicate_small)
qed

lemma hex_digit_ascii: "n < 16 \<Longrightarrow> ord (hex_digit n) < 128"
  by (simp add: hex_digit_def of_char_of)

lemma hex4_byte:
  assumes "c < 256" "rest p = pad0 4 (show_hex c) @ r"
  shows "hex4 p = Inr (c, adv 4 p)"
proof -
  let ?s = "[CHR ''0'', CHR ''0'', hex_digit (c div 16), hex_digit (c mod 16)]"
  have r: "rest p = ?s @ r" using assms by (simp add: show_hex_byte)
  have sl: "slice p (ppos p) (ppos p + 4) = ?s" by (simp add: slice_rest r take4)
  have "4 \<le> length (rest p)" by (simp add: r)
  then have len: "\<not> length (pb p) < ppos p + 4" by (simp add: rest_def)
  have h: "hex_value (hex_digit (c div 16)) = Some (c div 16)"
    "hex_value (hex_digit (c mod 16)) = Some (c mod 16)" using assms(1)
    by (simp_all add: hex_value_digit)
  have "utf8 ?s" using assms(1) by (intro utf8_ascii) (simp add: hex_digit_ascii)
  moreover have "hex_value (CHR ''0'') = Some 0" by (simp add: hex_value_def is_digit_def)
  ultimately show ?thesis using len h by (simp add: hex4_def sl Let_def)
qed

lemma rest_nth: "rest p = xs @ ys \<Longrightarrow> i < length xs \<Longrightarrow> peek (adv i p) = Some (xs ! i)"
  by (auto simp: peek_rest Cons_nth_drop_Suc [symmetric] split: list.splits)


lemma string_step_plain:
  assumes "rest p = run @ r" "run \<noteq> []" "list_all is_plain run" "utf8 run"
    "r \<noteq> []" "\<not> is_plain (hd r)"
  shows "string_step p = Inr (Some run, adv (length run) p)"
proof -
  obtain c cs where run: "run = c # cs" using assms(2) by (cases run) auto
  have c: "c \<noteq> CHR 0x22" "c \<noteq> CHR 0x5C" "\<not> ord c < 0x20" using assms(3) run by (auto simp: is_plain_def)
  have tw: "takeWhile is_plain (rest p) = run"
    using assms by (simp add: takeWhile_all_then)
  have "peek p = Some c" using assms(1) run by (simp add: peek_rest)
  then show ?thesis
    using c assms(4) rest_take [OF assms(1)]
    by (simp add: string_step_def advance_while_eq tw Let_def)
qed

lemma string_step_escape:
  assumes "is_scalar c" "\<not> plain_scalar c" "rest p = esc_char c @ r"
  shows "string_step p = Inr (Some (utf8_encode c), adv (length (esc_char c)) p)"
proof (cases "c \<in> {0x22, 0x5C, 0x0A, 0x0D, 0x09, 0x08, 0x0C}")
  case True
  then obtain e where e: "esc_char c = [CHR 0x5C, e]" "simple_escape e = Some c"
    by (auto simp: esc_char_def simple_escape_def)
  then have "peek p = Some (CHR 0x5C)" "peek (adv 1 p) = Some e"
    using assms(3) rest_nth [OF assms(3), of 0] rest_nth [OF assms(3), of 1] by simp_all
  with e show ?thesis by (simp add: string_step_def numeral_eq_Suc One_nat_def)
next
  case False
  then have c: "c < 0x20" using assms(2) by auto
  let ?h = "pad0 4 (show_hex c)"
  have e: "esc_char c = [CHR 0x5C, CHR ''u''] @ ?h" using False c by (simp add: esc_char_def)
  then have pk: "peek p = Some (CHR 0x5C)" "peek (adv 1 p) = Some (CHR ''u'')"
    using assms(3) rest_nth [OF assms(3), of 0] rest_nth [OF assms(3), of 1] by simp_all
  have "rest (adv 2 p) = ?h @ r" using assms(3) e by (simp add: drop2)
  then have "hex4 (adv 2 p) = Inr (c, adv 6 p)" using hex4_byte [of c "adv 2 p" r] c by simp
  then have "unicode_escape (adv 2 p) = Inr (c, adv 6 p)"
    using c assms(1) by (simp add: unicode_escape_def pbind_def)
  moreover have "length ?h = 4" using c by (simp add: show_hex_byte)
  moreover have "simple_escape (CHR ''u'') = None" by (simp add: simple_escape_def)
  ultimately show ?thesis using pk e by (simp add: string_step_def pbind_def)
qed

lemma esc_char_head_plain:
  "\<not> plain_scalar c \<Longrightarrow> esc_char c \<noteq> [] \<and> \<not> is_plain (hd (esc_char c))"
  by (auto simp: esc_char_def is_plain_def)

lemma string_loop_esc:
  assumes "list_all is_scalar cs" "rest p = concat (map esc_char cs) @ CHR 0x22 # r"
  shows "string_loop p out = Inr (out @ of_chars cs, adv (length (concat (map esc_char cs)) + 1) p)"
  using assms
proof (induction "length cs" arbitrary: cs p out rule: less_induct)
  case less
  show ?case
  proof (cases cs)
    case Nil
    with less.prems have "peek p = Some (CHR 0x22)" by (simp add: peek_rest)
    then have "string_step p = Inr (None, adv 1 p)" by (simp add: string_step_def)
    with Nil show ?thesis by (subst string_loop.simps) simp
  next
    case (Cons c cs')
    show ?thesis
    proof (cases "plain_scalar c")
      case False
      let ?q = "adv (length (esc_char c)) p"
      have st: "string_step p = Inr (Some (utf8_encode c), ?q)"
        using string_step_escape [of c p "concat (map esc_char cs') @ CHR 0x22 # r"] False Cons
          less.prems by simp
      have "rest ?q = concat (map esc_char cs') @ CHR 0x22 # r" using less.prems Cons by simp
      with less.hyps [of cs' ?q "out @ utf8_encode c"] less.prems Cons
      have "string_loop ?q (out @ utf8_encode c) = Inr ((out @ utf8_encode c) @ of_chars cs',
          adv (length (concat (map esc_char cs')) + 1) ?q)" by simp
      with st Cons show ?thesis
        by (subst string_loop.simps) (simp add: of_chars_Cons add.assoc)
    next
      case True
      define xs ys where "xs = takeWhile plain_scalar cs" and "ys = dropWhile plain_scalar cs"
      have cs: "cs = xs @ ys" by (simp add: xs_def ys_def)
      have xs: "list_all plain_scalar xs" "xs \<noteq> []"
        using True Cons by (auto simp: xs_def list_all_iff dest: set_takeWhileD)
      have sc: "list_all is_scalar xs" "list_all is_scalar ys" using less.prems(1) cs by simp_all
      have exs: "concat (map esc_char xs) = of_chars xs"
        using xs(1) by (auto simp: of_chars_def list_all_iff esc_plain intro!: arg_cong [where f = concat])
      let ?r = "concat (map esc_char ys) @ CHR 0x22 # r"
      have r: "rest p = of_chars xs @ ?r" using less.prems(2) cs exs by simp
      have pl: "list_all is_plain (of_chars xs)"
        using xs(1) sc(1) encode_plain by (auto simp: of_chars_def list_all_iff)
      have hd: "\<not> is_plain (hd ?r)"
      proof (cases ys)
        case (Cons y ys')
        then have "\<not> plain_scalar y" using hd_dropWhile [of plain_scalar cs] ys_def by auto
        then show ?thesis using Cons esc_char_head_plain by (metis concat.simps(2) hd_append2 append_is_Nil_conv list.simps(9))
      qed (simp add: is_plain_def)
      have ne: "of_chars xs \<noteq> []" using xs(2) by (cases xs) (simp_all add: of_chars_Cons)
      let ?q = "adv (length (of_chars xs)) p"
      have st: "string_step p = Inr (Some (of_chars xs), ?q)"
        using string_step_plain [OF r ne pl] hd sc(1) by simp
      have "length ys < length cs" using xs(2) cs by simp
      moreover have "rest ?q = ?r" using r by simp
      ultimately have "string_loop ?q (out @ of_chars xs) = Inr ((out @ of_chars xs) @ of_chars ys,
          adv (length (concat (map esc_char ys)) + 1) ?q)" using less.hyps sc(2) by blast
      with st show ?thesis
        by (subst string_loop.simps) (simp add: cs exs add.assoc)
    qed
  qed
qed

lemma parse_string_esc:
  "utf8 s \<Longrightarrow> rest p = esc s @ r \<Longrightarrow> parse_string p = Inr (s, adv (length (esc s)) p)"
  using string_loop_esc [of "chars s" "adv 1 p" r "[]"]
  by (simp add: parse_string_def esc_def One_nat_def)

section \<open>Numbers\<close>

text \<open>What may follow a number: nothing that would continue its lexeme.\<close>

definition stops :: "string \<Rightarrow> bool" where
  "stops r \<longleftrightarrow> r = [] \<or> (\<not> is_digit (hd r) \<and> hd r \<notin> set ''.eE'')"

lemma while_digits:
  assumes "rest p = ds @ r" "digits ds" "r = [] \<or> \<not> is_digit (hd r)"
  shows "advance_while is_digit p = adv (length ds) p" "peek_is is_digit p"
proof -
  show "advance_while is_digit p = adv (length ds) p"
    using assms by (simp add: advance_while_eq takeWhile_all_then digits_def)
  show "peek_is is_digit p"
    using assms by (cases ds) (simp_all add: digits_def peek_is_def peek_rest)
qed

lemma number_digits_ok:
  "rest p = ds @ r \<Longrightarrow> digits ds \<Longrightarrow> r = [] \<or> \<not> is_digit (hd r) \<Longrightarrow>
   number_digits st p = Inr (adv (length ds) p)"
  using while_digits by (simp add: number_digits_def)

lemma peek_hd: "rest p = c # r \<Longrightarrow> peek p = Some c"
  by (simp add: peek_rest)

lemma digits_hd: "digits ds \<Longrightarrow> is_digit (hd ds)"
  by (cases ds) (simp_all add: digits_def)

lemma take_char_no: "rest p = [] \<or> hd (rest p) \<noteq> c \<Longrightarrow> take_char c p = p"
  by (auto simp: take_char_def peek_rest split: list.splits)

lemma number_int_ok:
  assumes "rest p = ipart @ r" "ipart = ''0'' \<or> digits ipart \<and> hd ipart \<noteq> CHR ''0''"
    "r = [] \<or> \<not> is_digit (hd r)"
  shows "number_int st p = Inr (adv (length ipart) p)"
proof (cases "ipart = ''0''")
  case True
  with assms show ?thesis by (simp add: number_int_def peek_rest One_nat_def)
next
  case False
  with assms(2) have d: "digits ipart" "hd ipart \<noteq> CHR ''0''" by auto
  then have "peek p \<noteq> Some (CHR ''0'')"
    using assms(1) by (cases ipart) (auto simp: peek_rest digits_def)
  with while_digits [OF assms(1) d(1) assms(3)] show ?thesis by (simp add: number_int_def)
qed

lemma number_frac_ok:
  assumes "rest p = frac @ r" "frac = [] \<or> (\<exists>ds. digits ds \<and> frac = CHR ''.'' # ds)"
    "r = [] \<or> \<not> is_digit (hd r) \<and> hd r \<noteq> CHR ''.''"
  shows "number_frac st p = Inr (adv (length frac) p)"
proof (cases "frac = []")
  case True
  with assms have "peek p \<noteq> Some (CHR ''.'')" by (auto simp: peek_rest split: list.splits)
  with True show ?thesis by (simp add: number_frac_def)
next
  case False
  with assms obtain ds where ds: "digits ds" "frac = CHR ''.'' # ds" by blast
  have "number_digits st (adv 1 p) = Inr (adv (length ds) (adv 1 p))"
    using assms ds by (intro number_digits_ok) (auto simp: One_nat_def)
  with ds assms(1) show ?thesis by (simp add: number_frac_def peek_rest One_nat_def)
qed

lemma sign_not_digit: "\<not> is_digit (CHR ''+'')" "\<not> is_digit (CHR ''-'')" "\<not> is_digit (CHR ''.'')"
  "\<not> is_digit (CHR ''e'')" "\<not> is_digit (CHR ''E'')"
  by (simp_all add: is_digit_def)

lemma take_sign_ok:
  assumes "rest p = sg @ ds @ r" "sg = [] \<or> sg = ''+'' \<or> sg = ''-''" "digits ds"
  shows "take_sign p = adv (length sg) p"
proof -
  obtain d ds' where d: "ds = d # ds'" "is_digit d" using assms(3) by (cases ds) (auto simp: digits_def)
  then have "d \<noteq> CHR ''+''" "d \<noteq> CHR ''-''" using sign_not_digit by auto
  with assms d show ?thesis
    by (auto simp: take_sign_def take_char_def peek_rest One_nat_def)
qed

lemma number_exp_ok:
  assumes "rest p = expo @ r"
    "expo = [] \<or> (\<exists>e sg ds. (e = CHR ''e'' \<or> e = CHR ''E'') \<and> (sg = [] \<or> sg = ''+'' \<or> sg = ''-'') \<and>
        digits ds \<and> expo = e # sg @ ds)" "stops r"
  shows "number_exp st p = Inr (adv (length expo) p)"
proof (cases "expo = []")
  case True
  with assms(1,3) have "peek p \<noteq> Some (CHR ''e'')" "peek p \<noteq> Some (CHR ''E'')"
    by (auto simp: stops_def peek_rest split: list.splits)
  with True show ?thesis by (simp add: number_exp_def)
next
  case False
  with assms(2) obtain e sg ds where e: "e = CHR ''e'' \<or> e = CHR ''E''"
    and sg: "sg = [] \<or> sg = ''+'' \<or> sg = ''-''" and ds: "digits ds" "expo = e # sg @ ds" by blast
  have r1: "rest (adv 1 p) = sg @ ds @ r" using assms(1) ds by (simp add: One_nat_def)
  have t: "take_sign (adv 1 p) = adv (1 + length sg) p" using take_sign_ok [OF r1 sg ds(1)] by simp
  have "number_digits st (adv (1 + length sg) p) = Inr (adv (length ds) (adv (1 + length sg) p))"
    using r1 ds assms(3) by (intro number_digits_ok) (auto simp: stops_def assms(1) One_nat_def)
  moreover have "peek p = Some e" using assms(1) ds by (simp add: peek_rest)
  ultimately show ?thesis using e ds t by (simp add: number_exp_def One_nat_def)
qed

lemma parse_number_ok:
  assumes "rest p = n @ r" "json_number n" "stops r"
  shows "parse_number p = Inr (JNum n, adv (length n) p)"
proof -
  from assms(2) obtain sign ipart frac expo where n: "n = sign @ ipart @ frac @ expo"
    and sign: "sign = [] \<or> sign = ''-''" and ipart: "ipart = ''0'' \<or> digits ipart \<and> hd ipart \<noteq> CHR ''0''"
    and frac: "frac = [] \<or> (\<exists>ds. digits ds \<and> frac = CHR ''.'' # ds)"
    and expo: "expo = [] \<or> (\<exists>e sg ds. (e = CHR ''e'' \<or> e = CHR ''E'') \<and>
        (sg = [] \<or> sg = ''+'' \<or> sg = ''-'') \<and> digits ds \<and> expo = e # sg @ ds)"
    unfolding json_number_def by blast
  let ?p1 = "adv (length sign) p" and ?p2 = "adv (length (sign @ ipart)) p"
  let ?p3 = "adv (length (sign @ ipart @ frac)) p"
  have hdint: "ipart \<noteq> [] \<and> hd ipart \<noteq> CHR ''-''"
    using ipart digits_hd [of ipart] sign_not_digit by (auto simp: digits_def)
  then have 1: "take_char (CHR ''-'') p = ?p1"
    using sign assms(1) n by (auto simp: take_char_def peek_rest One_nat_def neq_Nil_conv)
  have 2: "number_int (ppos p) ?p1 = Inr ?p2"
    using number_int_ok [of ?p1 ipart "frac @ expo @ r" "ppos p"] assms(1,3) n ipart frac expo
    by (auto simp: stops_def sign_not_digit)
  have 3: "number_frac (ppos p) ?p2 = Inr ?p3"
    using number_frac_ok [of ?p2 frac "expo @ r" "ppos p"] assms(1,3) n frac expo
    by (auto simp: stops_def sign_not_digit add.assoc)
  have 4: "number_exp (ppos p) ?p3 = Inr (adv (length n) p)"
    using number_exp_ok [of ?p3 expo r "ppos p"] assms(1,3) n expo
    by (auto simp: add.assoc)
  show ?thesis
    using 1 2 3 4 rest_take [OF assms(1)] by (simp add: parse_number_def Let_def)
qed

section \<open>Values\<close>

lemma skip_ws_id: "rest p = [] \<or> \<not> is_ws (hd (rest p)) \<Longrightarrow> skip_ws p = p"
  by (cases "rest p") (simp_all add: skip_ws_def advance_while_eq)

lemma json_number_hd:
  assumes "json_number n"
  shows "\<exists>c cs. n = c # cs \<and> (c = CHR ''-'' \<or> is_digit c)"
proof -
  from assms obtain sign ipart frac expo where n: "n = sign @ ipart @ frac @ expo"
    and sign: "sign = [] \<or> sign = ''-''" and i: "ipart = ''0'' \<or> digits ipart \<and> hd ipart \<noteq> CHR ''0''"
    and "frac = [] \<or> (\<exists>ds. digits ds \<and> frac = CHR ''.'' # ds)"
    and "expo = [] \<or> (\<exists>e sg ds. (e = CHR ''e'' \<or> e = CHR ''E'') \<and>
        (sg = [] \<or> sg = ''+'' \<or> sg = ''-'') \<and> digits ds \<and> expo = e # sg @ ds)"
    unfolding json_number_def by blast
  from i obtain c cs where "ipart = c # cs" "is_digit c"
    by (cases ipart) (auto simp: digits_def is_digit_def)
  with n have "n = sign @ c # cs @ frac @ expo" by simp
  with sign \<open>is_digit c\<close> show ?thesis by auto
qed

text \<open>The first byte of a printed value.\<close>

lemma j_to_string_hd:
  "jwf v \<Longrightarrow> \<exists>c cs. j_to_string v = c # cs \<and> \<not> is_ws c \<and> c \<noteq> CHR '']'' \<and> c \<noteq> CHR ''}''"
proof (cases v)
  case (JNum n)
  assume "jwf v"
  with JNum have "json_number n" by simp
  from json_number_hd [OF this] obtain c cs where "n = c # cs" "c = CHR ''-'' \<or> is_digit c" by blast
  with JNum show ?thesis by (auto simp: is_digit_def is_ws_def)
qed (auto simp: esc_def is_ws_def)

text \<open>A parser call that succeeds with all large enough fuel.\<close>

definition parses :: "(nat \<Rightarrow> J presult) \<Rightarrow> J \<Rightarrow> parser \<Rightarrow> bool" where
  "parses f v q \<longleftrightarrow> (\<exists>n. \<forall>m \<ge> n. f m = Inr (v, q))"

lemma parses_SucI:
  assumes "\<And>m. n \<le> m \<Longrightarrow> f (Suc m) = Inr (v, q)"
  shows "parses f v q"
proof -
  have "f m = Inr (v, q)" if "Suc n \<le> m" for m
    using that assms [of "m - 1"] by (cases m) auto
  then show ?thesis unfolding parses_def by blast
qed

text \<open>A parser standing at a byte that is not whitespace.\<close>

lemma at_byte: "rest p = c # r \<Longrightarrow> \<not> is_ws c \<Longrightarrow> skip_ws p = p \<and> peek p = Some c"
  by (simp add: skip_ws_id peek_rest)

lemma no_ws: "\<not> is_ws (CHR '','')" "\<not> is_ws (CHR '']'')" "\<not> is_ws (CHR ''}'')" "\<not> is_ws (CHR '':'')"
  "\<not> is_ws (CHR 0x22)" "\<not> is_ws (CHR ''['')" "\<not> is_ws (CHR ''{'')"
  by (simp_all add: is_ws_def)

lemma rest_step: "rest p = c # r \<Longrightarrow> rest (adv 1 p) = r"
  by (simp add: One_nat_def)

lemma rest_drop: "rest p = s @ t \<Longrightarrow> rest (adv (length s) p) = t"
  by simp

lemma array_close:
  assumes "rest p = CHR '']'' # r"
  shows "parses (\<lambda>n. parse_array n p xs) (JArr xs) (adv 1 p)"
  by (rule parses_SucI [of 0]) (use at_byte [OF assms] in \<open>simp add: parse_array.simps no_ws\<close>)

lemma array_last:
  assumes "rest p = c # r" "\<not> is_ws c" "c \<noteq> CHR '']''" "parses (\<lambda>n. parse_value n p) y q"
    "rest q = CHR '']'' # t"
  shows "parses (\<lambda>n. parse_array n p xs) (JArr (xs @ [y])) (adv 1 q)"
proof -
  from assms(4) obtain n where n: "\<forall>m \<ge> n. parse_value m p = Inr (y, q)" by (auto simp: parses_def)
  show ?thesis
    by (rule parses_SucI [of n])
       (use at_byte [OF assms(1,2)] at_byte [OF assms(5)] n assms(3) in
         \<open>simp add: parse_array.simps no_ws pbind_def Let_def\<close>)
qed

lemma array_more:
  assumes "rest p = c # r" "\<not> is_ws c" "c \<noteq> CHR '']''" "parses (\<lambda>n. parse_value n p) y q"
    "rest q = CHR '','' # d # t" "\<not> is_ws d" "d \<noteq> CHR '']''"
    "parses (\<lambda>n. parse_array n (adv 1 q) (xs @ [y])) v z"
  shows "parses (\<lambda>n. parse_array n p xs) v z"
proof -
  from assms(4,8) obtain n k where n: "\<forall>m \<ge> n. parse_value m p = Inr (y, q)"
    and k: "\<forall>m \<ge> k. parse_array m (adv 1 q) (xs @ [y]) = Inr (v, z)" by (auto simp: parses_def)
  have "rest (adv 1 q) = d # t" using assms(5) by (simp add: One_nat_def)
  from at_byte [OF this assms(6)] show ?thesis
    by (intro parses_SucI [of "max n k"])
       (use at_byte [OF assms(1,2)] at_byte [OF assms(5)] n k assms(3,7) in
         \<open>simp add: parse_array.simps no_ws pbind_def Let_def\<close>)
qed

lemma object_close:
  assumes "rest p = CHR ''}'' # r"
  shows "parses (\<lambda>n. parse_object n p xs) (JObj xs) (adv 1 p)"
  by (rule parses_SucI [of 0]) (use at_byte [OF assms] in \<open>simp add: parse_object.simps no_ws\<close>)

lemma object_last:
  assumes "rest p = CHR 0x22 # r" "parse_string p = Inr (k, kp)" "rest kp = CHR '':'' # u"
    "parses (\<lambda>n. parse_value n (adv 1 kp)) y q" "rest q = CHR ''}'' # t"
  shows "parses (\<lambda>n. parse_object n p xs) (JObj (xs @ [(k, y)])) (adv 1 q)"
proof -
  from assms(4) obtain n where n: "\<forall>m \<ge> n. parse_value m (adv 1 kp) = Inr (y, q)"
    by (auto simp: parses_def)
  show ?thesis
    by (rule parses_SucI [of n])
       (use at_byte [OF assms(1)] at_byte [OF assms(3)] at_byte [OF assms(5)] n assms(2) in
         \<open>simp add: parse_object.simps no_ws pbind_def Let_def\<close>)
qed

lemma object_more:
  assumes "rest p = CHR 0x22 # r" "parse_string p = Inr (k, kp)" "rest kp = CHR '':'' # u"
    "parses (\<lambda>n. parse_value n (adv 1 kp)) y q" "rest q = CHR '','' # CHR 0x22 # t"
    "parses (\<lambda>n. parse_object n (adv 1 q) (xs @ [(k, y)])) v z"
  shows "parses (\<lambda>n. parse_object n p xs) v z"
proof -
  from assms(4,6) obtain n l where n: "\<forall>m \<ge> n. parse_value m (adv 1 kp) = Inr (y, q)"
    and l: "\<forall>m \<ge> l. parse_object m (adv 1 q) (xs @ [(k, y)]) = Inr (v, z)" by (auto simp: parses_def)
  have "rest (adv 1 q) = CHR 0x22 # t" using assms(5) by (simp add: One_nat_def)
  from at_byte [OF this] show ?thesis
    by (intro parses_SucI [of "max n l"])
       (use at_byte [OF assms(1)] at_byte [OF assms(3)] at_byte [OF assms(5)] n l assms(2) in
         \<open>simp add: parse_object.simps no_ws pbind_def Let_def\<close>)
qed

definition parsable :: "J \<Rightarrow> bool" where
  "parsable v \<longleftrightarrow> (\<forall>p r. rest p = j_to_string v @ r \<longrightarrow> stops r \<longrightarrow> pdepth p + jdepth v \<le> MAX_DEPTH \<longrightarrow>
     parses (\<lambda>n. parse_value n p) v (adv (length (j_to_string v)) p))"

lemma parsableD:
  "parsable v \<Longrightarrow> rest p = j_to_string v @ r \<Longrightarrow> stops r \<Longrightarrow> pdepth p + jdepth v \<le> MAX_DEPTH \<Longrightarrow>
   parses (\<lambda>n. parse_value n p) v (adv (length (j_to_string v)) p)"
  by (simp add: parsable_def)

lemma stops_comma: "stops (CHR '','' # r)" "stops (CHR '']'' # r)" "stops (CHR ''}'' # r)"
  by (simp_all add: stops_def is_digit_def)

lemma parse_array_ok:
  assumes "ys \<noteq> []" "list_all parsable ys" "list_all jwf ys"
    "\<And>y. y \<in> set ys \<Longrightarrow> pdepth p + jdepth y \<le> MAX_DEPTH"
    "rest p = join '','' (map j_to_string ys) @ CHR '']'' # r"
  shows "parses (\<lambda>n. parse_array n p xs) (JArr (xs @ ys))
    (adv (length (join '','' (map j_to_string ys)) + 1) p)"
  using assms
proof (induction ys arbitrary: p xs)
  case (Cons y ys)
  let ?q = "adv (length (j_to_string y)) p"
  obtain c cs where s: "j_to_string y = c # cs" "\<not> is_ws c" "c \<noteq> CHR '']''"
    using j_to_string_hd [of y] Cons.prems(3) by auto
  show ?case
  proof (cases "ys = []")
    case True
    then have r: "rest p = j_to_string y @ CHR '']'' # r" using Cons.prems(5) by simp
    have v: "parses (\<lambda>n. parse_value n p) y ?q"
      by (rule parsableD [OF _ r stops_comma(2)]) (use Cons.prems in auto)
    have "rest ?q = CHR '']'' # r" using r by simp
    from array_last [OF _ s(2,3) v this, of "cs @ CHR '']'' # r" xs] True r s(1)
    show ?thesis by simp
  next
    case False
    let ?js = "join '','' (map j_to_string ys)"
    have r: "rest p = j_to_string y @ CHR '','' # ?js @ CHR '']'' # r"
      using Cons.prems(5) False by (simp add: join_Cons)
    have v: "parses (\<lambda>n. parse_value n p) y ?q"
      by (rule parsableD [OF _ r stops_comma(1)]) (use Cons.prems in auto)
    have rq: "rest ?q = CHR '','' # ?js @ CHR '']'' # r" using r by simp
    obtain z zs where ys: "ys = z # zs" using False by (cases ys) auto
    obtain d ds where d: "j_to_string z = d # ds" "\<not> is_ws d" "d \<noteq> CHR '']''"
      using j_to_string_hd [of z] Cons.prems(3) ys by auto
    obtain t where t: "rest ?q = CHR '','' # d # t" using rq ys d(1) by (cases "zs = []") (auto simp: join_Cons)
    have "parses (\<lambda>n. parse_array n (adv 1 ?q) (xs @ [y])) (JArr ((xs @ [y]) @ ys))
        (adv (length ?js + 1) (adv 1 ?q))"
      by (rule Cons.IH [OF False _ _ _ rest_step [OF rq]]) (use Cons.prems in auto)
    from array_more [OF _ s(2,3) v t d(2,3) this, of "cs @ CHR '','' # ?js @ CHR '']'' # r"] r s(1) False
    show ?thesis by (simp add: join_Cons add.assoc add.commute add.left_commute One_nat_def)
  qed
qed simp

lemma parse_object_ok:
  assumes "ys \<noteq> []" "\<And>k y. (k, y) \<in> set ys \<Longrightarrow> utf8 k \<and> parsable y \<and> pdepth p + jdepth y \<le> MAX_DEPTH"
    "rest p = join '','' (map (\<lambda>(k, v). esc k @ '':'' @ j_to_string v) ys) @ CHR ''}'' # r"
  shows "parses (\<lambda>n. parse_object n p xs) (JObj (xs @ ys))
    (adv (length (join '','' (map (\<lambda>(k, v). esc k @ '':'' @ j_to_string v) ys)) + 1) p)"
  using assms
proof (induction ys arbitrary: p xs)
  case (Cons ky ys)
  obtain k y where ky: "ky = (k, y)" by (cases ky)
  let ?m = "\<lambda>(k, v). esc k @ '':'' @ j_to_string v"
  let ?js = "join '','' (map ?m ys)"
  let ?t = "if ys = [] then CHR ''}'' # r else CHR '','' # ?js @ CHR ''}'' # r"
  let ?kp = "adv (length (esc k)) p" 
  let ?q = "adv (length (j_to_string y)) (adv 1 ?kp)"
  have wf: "utf8 k" "parsable y" "pdepth p + jdepth y \<le> MAX_DEPTH" using Cons.prems(2) ky by auto
  have r: "rest p = esc k @ CHR '':'' # j_to_string y @ ?t" using Cons.prems(3) ky by (simp add: join_Cons)
  have ps: "parse_string p = Inr (k, ?kp)" by (rule parse_string_esc [OF wf(1) r])
  have rk: "rest ?kp = CHR '':'' # j_to_string y @ ?t" using r by simp
  obtain u where p0: "rest p = CHR 0x22 # u" using r by (simp add: esc_def)
  have rk1: "rest (adv 1 ?kp) = j_to_string y @ ?t" by (rule rest_step [OF rk])
  have st: "stops ?t" by (simp add: stops_comma)
  have v: "parses (\<lambda>n. parse_value n (adv 1 ?kp)) y ?q"
    by (rule parsableD [OF wf(2) rk1 st]) (use wf(3) in simp)
  have rq: "rest ?q = ?t" by (rule rest_drop [OF rk1])
  show ?case
  proof (cases "ys = []")
    case True
    then have "rest ?q = CHR ''}'' # r" using rq by simp
    from object_last [OF p0 ps rk v this, of xs] True ky show ?thesis
      by (simp add: One_nat_def add.assoc)
  next
    case False
    then obtain z zs where ys: "ys = z # zs" by (cases ys) auto
    have js: "rest ?q = CHR '','' # ?js @ CHR ''}'' # r" using rq False by simp
    note rest1 = rest_step [OF js]
    obtain u where "?js = CHR 0x22 # u"
      using ys by (cases z, cases "zs = []") (simp_all add: join_Cons esc_def)
    with js have t: "rest ?q = CHR '','' # CHR 0x22 # u @ CHR ''}'' # r" by simp
    have "parses (\<lambda>n. parse_object n (adv 1 ?q) (xs @ [(k, y)])) (JObj ((xs @ [(k, y)]) @ ys))
        (adv (length ?js + 1) (adv 1 ?q))"
      by (rule Cons.IH [OF False _ rest1]) (use Cons.prems(2) in auto)
    from object_more [OF p0 ps rk v t this] False ky show ?thesis
      by (simp add: join_Cons add.assoc add.commute add.left_commute One_nat_def)
  qed
qed simp

lemma parse_value_lit:
  assumes "rest p = lit @ r"
    "(lit, v) \<in> {(''null'', JNull), (''true'', JBool True), (''false'', JBool False)}"
  shows "parses (\<lambda>n. parse_value n p) v (adv (length lit) p)"
proof -
  have "lit \<noteq> [] \<and> \<not> is_ws (hd lit)" using assms(2) by (elim insertE) (simp_all add: is_ws_def)
  then obtain c cs where lit: "lit = c # cs" "\<not> is_ws c" by (cases lit) auto
  have at: "skip_ws p = p" "peek p = Some c" using at_byte [of p c "cs @ r"] lit assms(1) by auto
  have "length lit \<le> length (rest p)" by (simp add: assms(1))
  then have len: "ppos p + length lit \<le> length (pb p)" using lit(1) by (simp add: rest_def)
  have "parse_lit lit v p = Inr (v, adv (length lit) p)"
    using len rest_take [OF assms(1)] by (simp add: parse_lit_def)
  then have "parse_value (Suc n) p = Inr (v, adv (length lit) p)" for n
    using assms(2) at lit(1) by (auto simp: parse_value.simps Let_def)
  then show ?thesis by (rule parses_SucI)
qed

lemma parses_nest:
  assumes "rest p = c # r" "c = CHR ''['' \<or> c = CHR ''{''" "pdepth p < MAX_DEPTH"
    "c = CHR ''['' \<Longrightarrow> parses (\<lambda>n. parse_array n (adv 1 (p\<lparr>pdepth := pdepth p + 1\<rparr>)) []) v
       (adv k (p\<lparr>pdepth := pdepth p + 1\<rparr>))"
    "c = CHR ''{'' \<Longrightarrow> parses (\<lambda>n. parse_object n (adv 1 (p\<lparr>pdepth := pdepth p + 1\<rparr>)) []) v
       (adv k (p\<lparr>pdepth := pdepth p + 1\<rparr>))"
  shows "parses (\<lambda>n. parse_value n p) v (adv k p)"
proof -
  let ?p' = "p\<lparr>pdepth := pdepth p + 1\<rparr>"
  have at: "skip_ws p = p" "peek p = Some c" using at_byte [OF assms(1)] assms(2) no_ws by auto
  have undo: "(adv k ?p')\<lparr>pdepth := pdepth (adv k ?p') - 1\<rparr> = adv k p" by (simp add: adv_def)
  have d: "\<not> MAX_DEPTH \<le> pdepth p" using assms(3) by simp
  from assms(2) show ?thesis
  proof
    assume c: "c = CHR ''[''"
    from assms(4) [OF c] obtain n where n: "\<forall>m \<ge> n. parse_array m (adv 1 ?p') [] = Inr (v, adv k ?p')"
      by (auto simp: parses_def)
    show ?thesis
      by (rule parses_SucI [of n]) (use at c d n undo in \<open>simp add: parse_value.simps pbind_def Let_def\<close>)
  next
    assume c: "c = CHR ''{''"
    from assms(5) [OF c] obtain n where n: "\<forall>m \<ge> n. parse_object m (adv 1 ?p') [] = Inr (v, adv k ?p')"
      by (auto simp: parses_def)
    show ?thesis
      by (rule parses_SucI [of n]) (use at c d n undo in \<open>simp add: parse_value.simps pbind_def Let_def\<close>)
  qed
qed

lemma number_start:
  assumes "c = CHR ''-'' \<or> is_digit c"
  shows "c \<noteq> CHR ''n''" "c \<noteq> CHR ''t''" "c \<noteq> CHR ''f''" "c \<noteq> CHR 0x22" "c \<noteq> CHR ''[''"
    "c \<noteq> CHR ''{''" "\<not> is_ws c"
  using assms by (auto simp: is_digit_def is_ws_def)

lemma parsable_all: "jwf v \<Longrightarrow> parsable v"
proof (induction v rule: jwf.induct)
  case (1 n)
  show ?case unfolding parsable_def
  proof (intro allI impI)
    fix p r assume r: "rest p = j_to_string (JNum n) @ r" and st: "stops r"
    from 1 have jn: "json_number n" by simp
    from json_number_hd [OF jn] obtain c cs where c: "n = c # cs" "c = CHR ''-'' \<or> is_digit c" by blast
    then have at: "skip_ws p = p" "peek p = Some c"
      using at_byte [of p c "cs @ r"] r number_start [OF c(2)] by simp_all
    have "parse_number p = Inr (JNum n, adv (length n) p)" using r jn st by (simp add: parse_number_ok)
    then have "parse_value (Suc m) p = Inr (JNum n, adv (length n) p)" for m
      using at c(2) number_start [OF c(2)] by (simp add: parse_value.simps Let_def)
    then have "parses (\<lambda>n. parse_value n p) (JNum n) (adv (length n) p)" by (rule parses_SucI)
    then show "parses (\<lambda>n. parse_value n p) (JNum n) (adv (length (j_to_string (JNum n))) p)" by simp
  qed
next
  case (2 s)
  show ?case unfolding parsable_def
  proof (intro allI impI)
    fix p r assume r: "rest p = j_to_string (JStr s) @ r"
    then obtain u where "rest p = CHR 0x22 # u" by (simp add: esc_def)
    from at_byte [OF this] have at: "skip_ws p = p" "peek p = Some (CHR 0x22)" by (simp_all add: no_ws)
    have "parse_string p = Inr (s, adv (length (esc s)) p)" using r 2 by (simp add: parse_string_esc)
    then have "parse_value (Suc m) p = Inr (JStr s, adv (length (esc s)) p)" for m
      using at by (simp add: parse_value.simps Let_def pbind_def)
    then have "parses (\<lambda>n. parse_value n p) (JStr s) (adv (length (esc s)) p)" by (rule parses_SucI)
    then show "parses (\<lambda>n. parse_value n p) (JStr s) (adv (length (j_to_string (JStr s))) p)" by simp
  qed
next
  case (3 items)
  show ?case unfolding parsable_def
  proof (intro allI impI)
    fix p r assume r: "rest p = j_to_string (JArr items) @ r"
      and d: "pdepth p + jdepth (JArr items) \<le> MAX_DEPTH"
    let ?p' = "p\<lparr>pdepth := pdepth p + 1\<rparr>" and ?js = "join '','' (map j_to_string items)"
    have rp: "rest p = CHR ''['' # ?js @ CHR '']'' # r" using r by simp
    then have "rest ?p' = CHR ''['' # ?js @ CHR '']'' # r" by simp
    note r' = rest_step [OF this]
    have "parses (\<lambda>n. parse_array n (adv 1 ?p') []) (JArr items) (adv (length ?js + 1) (adv 1 ?p'))"
    proof (cases "items = []")
      case True
      then show ?thesis using array_close [of "adv 1 ?p'" r "[]"] r' by simp
    next
      case False
      have "jdepth y \<le> foldr max (map jdepth items) 0" if "y \<in> set items" for y
        using that by (intro foldr_max_ge) simp
      with d have "pdepth (adv 1 ?p') + jdepth y \<le> MAX_DEPTH" if "y \<in> set items" for y
        using that by (fastforce simp: One_nat_def)
      then show ?thesis using parse_array_ok [OF False _ _ _ r', of "[]"] 3 by (simp add: list_all_iff)
    qed
    then have "parses (\<lambda>n. parse_value n p) (JArr items) (adv (length ?js + 2) p)"
      using d by (intro parses_nest [OF rp]) (simp_all add: numeral_eq_Suc One_nat_def)
    then show "parses (\<lambda>n. parse_value n p) (JArr items) (adv (length (j_to_string (JArr items))) p)"
      by simp
  qed
next
  case (4 pairs)
  show ?case unfolding parsable_def
  proof (intro allI impI)
    fix p r assume r: "rest p = j_to_string (JObj pairs) @ r"
      and d: "pdepth p + jdepth (JObj pairs) \<le> MAX_DEPTH"
    let ?p' = "p\<lparr>pdepth := pdepth p + 1\<rparr>"
    let ?js = "join '','' (map (\<lambda>(k, v). esc k @ '':'' @ j_to_string v) pairs)"
    have rp: "rest p = CHR ''{'' # ?js @ CHR ''}'' # r" using r by simp
    then have "rest ?p' = CHR ''{'' # ?js @ CHR ''}'' # r" by simp
    note r' = rest_step [OF this]
    have "parses (\<lambda>n. parse_object n (adv 1 ?p') []) (JObj pairs) (adv (length ?js + 1) (adv 1 ?p'))"
    proof (cases "pairs = []")
      case True
      then show ?thesis using object_close [of "adv 1 ?p'" r "[]"] r' by simp
    next
      case False
      have "utf8 k \<and> parsable y \<and> pdepth (adv 1 ?p') + jdepth y \<le> MAX_DEPTH"
        if ky: "(k, y) \<in> set pairs" for k y
      proof -
        have "jdepth y \<in> set (map (\<lambda>(k, v). jdepth v) pairs)" using ky by force
        from foldr_max_ge [OF this] d have "pdepth (adv 1 ?p') + jdepth y \<le> MAX_DEPTH" by simp
        moreover have "utf8 k \<and> jwf y" using 4 ky by (auto simp: list_all_iff)
        moreover have "parsable y" using "4.IH" [OF ky] ky calculation by auto
        ultimately show ?thesis by blast
      qed
      from parse_object_ok [OF False this r', of "[]"] show ?thesis by simp
    qed
    then have "parses (\<lambda>n. parse_value n p) (JObj pairs) (adv (length ?js + 2) p)"
      using d by (intro parses_nest [OF rp]) (simp_all add: numeral_eq_Suc One_nat_def)
    then show "parses (\<lambda>n. parse_value n p) (JObj pairs) (adv (length (j_to_string (JObj pairs))) p)"
      by simp
  qed
next
  case "5_1"
  show ?case using parse_value_lit [where lit = "''null''" and v = JNull] by (auto simp: parsable_def)
next
  case "5_2"
  show ?case
    using parse_value_lit [where lit = "''true''" and v = "JBool True"]
      parse_value_lit [where lit = "''false''" and v = "JBool False"]
    by (auto simp: parsable_def split: bool.split)
qed

text \<open>A printed value, followed by any whitespace, parses to the value.\<close>

lemma parse_json_print_ws:
  assumes "jwf v" "jdepth v \<le> MAX_DEPTH" "list_all is_ws w"
  shows "parse_json (j_to_string v @ w) = Inr v"
proof -
  let ?s = "j_to_string v" and ?p = "parser_new (j_to_string v @ w)"
  have "rest ?p = ?s @ w" by (simp add: rest_def parser_new_def)
  moreover have "stops w" using assms(3) by (cases w) (auto simp: stops_def is_ws_def is_digit_def)
  ultimately obtain n where "parse_value n ?p = Inr (v, adv (length ?s) ?p)"
    using parsableD [OF parsable_all [OF assms(1)]] assms(2)
    by (fastforce simp: parses_def parser_new_def)
  from parse_value_canonical [OF this]
  have "parse_value (json_fuel (length (?s @ w))) ?p = Inr (v, adv (length ?s) ?p)" by simp
  moreover have "length (takeWhile is_ws w) = length w" using assms(3) by (induction w) simp_all
  then have "skip_ws (adv (length ?s) ?p) = adv (length (?s @ w)) ?p"
    by (simp add: skip_ws_def advance_while_eq rest_def parser_new_def)
  ultimately show ?thesis by (simp add: parse_json_def Let_def) (simp add: parser_new_def)
qed

lemma parse_json_j_to_string:
  "jwf v \<Longrightarrow> jdepth v \<le> MAX_DEPTH \<Longrightarrow> parse_json (j_to_string v) = Inr v"
  using parse_json_print_ws [of v "[]"] by simp

end
