(* ===== verification/Json_Sound.thy ===== *)
theory Json_Sound
  imports Json_Roundtrip
begin

text \<open>
  What an accepted document looks like: on valid UTF-8 input (which a Rust \<^verbatim>\<open>&str\<close> always is)
  every value the parser returns is well-formed and nests at most 64 levels, and the error case
  for invalid UTF-8 inside a string never occurs.
\<close>

section \<open>Consuming text\<close>

text \<open>\<open>eats s p q\<close>: the parser went from \<open>p\<close> to \<open>q\<close> by consuming exactly the text \<open>s\<close>.\<close>

definition eats :: "string \<Rightarrow> parser \<Rightarrow> parser \<Rightarrow> bool" where
  "eats s p q \<longleftrightarrow> prefix s (rest p) \<and> q = adv (length s) p"

lemma eatsE: "eats s p q \<Longrightarrow> (\<And>r. rest p = s @ r \<Longrightarrow> rest q = r \<Longrightarrow> q = adv (length s) p \<Longrightarrow> T) \<Longrightarrow> T"
  by (auto simp: eats_def prefix_def)

lemma eatsI: "rest p = s @ r \<Longrightarrow> q = adv (length s) p \<Longrightarrow> eats s p q"
  by (auto simp: eats_def)

lemma eats_Nil: "eats [] p p"
  by (simp add: eats_def)

lemma eats_append: "eats s p q \<Longrightarrow> eats t q r \<Longrightarrow> eats (s @ t) p r"
  by (elim eatsE) (auto intro!: eatsI)

lemma eats_take: "k \<le> length (rest p) \<Longrightarrow> eats (take k (rest p)) p (adv k p)"
  by (rule eatsI [of _ _ "drop k (rest p)"]) simp_all

lemma eats1: "peek p = Some c \<Longrightarrow> eats [c] p (adv 1 p)"
  by (cases "rest p") (auto simp: peek_rest One_nat_def intro!: eatsI)

lemma eats_while: "eats (takeWhile P (rest p)) p (advance_while P p)"
  by (rule eatsI [of _ _ "dropWhile P (rest p)"]) (simp_all add: advance_while_eq)

lemma eats_slice: "eats s p q \<Longrightarrow> slice p (ppos p) (ppos q) = s"
  by (elim eatsE) (simp add: slice_rest)

lemma eats_utf8: "eats s p q \<Longrightarrow> list_all (\<lambda>a. ord a < 128) s \<Longrightarrow> utf8 (rest p) \<Longrightarrow> utf8 (rest q)"
  by (elim eatsE) (simp add: utf8_append_cancel utf8_ascii)

lemma eats_digits:
  assumes "peek_is is_digit p"
  shows "\<exists>ds. digits ds \<and> eats ds p (advance_while is_digit p)"
proof -
  have "takeWhile is_digit (rest p) \<noteq> []"
    using assms by (cases "rest p") (auto simp: peek_is_def peek_rest)
  moreover have "list_all is_digit (takeWhile is_digit (rest p))"
    by (auto simp: list_all_iff dest: set_takeWhileD)
  ultimately show ?thesis using eats_while by (auto simp: digits_def)
qed

section \<open>Numbers\<close>

lemma number_digits_sound: "number_digits st p = Inr q \<Longrightarrow> \<exists>ds. digits ds \<and> eats ds p q"
  by (auto simp: number_digits_def dest: eats_digits split: if_splits)

lemma number_int_sound:
  assumes "number_int st p = Inr q"
  shows "\<exists>s. (s = ''0'' \<or> digits s \<and> hd s \<noteq> CHR ''0'') \<and> eats s p q"
proof (cases "peek p = Some (CHR ''0'')")
  case True
  with assms eats1 [OF True] show ?thesis by (intro exI [of _ "''0''"]) (simp add: number_int_def)
next
  case False
  with assms have pd: "peek_is is_digit p" and q: "q = advance_while is_digit p"
    by (auto simp: number_int_def split: if_splits)
  from eats_digits [OF pd] obtain ds where ds: "digits ds" "eats ds p q" using q by blast
  then have "peek p = Some (hd ds)" by (elim eatsE) (cases ds, simp_all add: digits_def peek_rest)
  with False ds show ?thesis by fastforce
qed

lemma number_frac_sound:
  "number_frac st p = Inr q \<Longrightarrow>
   \<exists>s. (s = [] \<or> (\<exists>ds. digits ds \<and> s = CHR ''.'' # ds)) \<and> eats s p q"
proof (cases "peek p = Some (CHR ''.'')")
  case True
  assume "number_frac st p = Inr q"
  with True obtain ds where "digits ds" "eats ds (adv 1 p) q"
    by (auto simp: number_frac_def dest: number_digits_sound)
  then show ?thesis using eats_append [OF eats1 [OF True], of ds q]
    by (intro exI [of _ "CHR ''.'' # ds"]) simp
qed (auto simp: number_frac_def intro: exI [of _ "[]"] eats_Nil)

lemma take_sign_sound: "\<exists>sg. (sg = [] \<or> sg = ''+'' \<or> sg = ''-'') \<and> eats sg p (take_sign p)"
proof -
  consider "peek p = Some (CHR ''+'')" | "peek p = Some (CHR ''-'')"
    | "peek p \<noteq> Some (CHR ''+'')" "peek p \<noteq> Some (CHR ''-'')" by blast
  then show ?thesis
  proof cases
    case 1
    from eats1 [OF 1] 1 show ?thesis by (auto simp: take_sign_def)
  next
    case 2
    from eats1 [OF 2] 2 show ?thesis by (auto simp: take_sign_def take_char_def)
  next
    case 3
    with eats_Nil show ?thesis by (auto simp: take_sign_def take_char_def)
  qed
qed

lemma number_exp_sound:
  "number_exp st p = Inr q \<Longrightarrow>
   \<exists>s. (s = [] \<or> (\<exists>e sg ds. (e = CHR ''e'' \<or> e = CHR ''E'') \<and> (sg = [] \<or> sg = ''+'' \<or> sg = ''-'') \<and>
        digits ds \<and> s = e # sg @ ds)) \<and> eats s p q"
proof (cases "peek p = Some (CHR ''e'') \<or> peek p = Some (CHR ''E'')")
  case True
  then obtain e where e: "e = CHR ''e'' \<or> e = CHR ''E''" "peek p = Some e" by blast
  assume "number_exp st p = Inr q"
  with True have "number_digits st (take_sign (adv 1 p)) = Inr q" by (simp add: number_exp_def)
  then obtain ds where ds: "digits ds" "eats ds (take_sign (adv 1 p)) q"
    by (auto dest: number_digits_sound)
  obtain sg where sg: "sg = [] \<or> sg = ''+'' \<or> sg = ''-''" "eats sg (adv 1 p) (take_sign (adv 1 p))"
    using take_sign_sound by blast
  have "eats ([e] @ sg @ ds) p q"
    using eats_append [OF eats1 [OF e(2)] eats_append [OF sg(2) ds(2)]] by simp
  moreover have "\<exists>e' sg' ds'. (e' = CHR ''e'' \<or> e' = CHR ''E'') \<and> (sg' = [] \<or> sg' = ''+'' \<or> sg' = ''-'') \<and>
        digits ds' \<and> [e] @ sg @ ds = e' # sg' @ ds'"
    using e(1) sg(1) ds(1) by (intro exI [of _ e] exI [of _ sg] exI [of _ ds]) simp
  ultimately show ?thesis by blast
qed (auto simp: number_exp_def intro: exI [of _ "[]"] eats_Nil)

lemma parse_number_sound:
  assumes "parse_number p = Inr (v, q)"
  shows "\<exists>n. v = JNum n \<and> json_number n \<and> eats n p q"
proof -
  from assms obtain p2 p3 where
    1: "number_int (ppos p) (take_char (CHR ''-'') p) = Inr p2" and
    2: "number_frac (ppos p) p2 = Inr p3" and 3: "number_exp (ppos p) p3 = Inr q" and
    v: "v = JNum (slice p (ppos p) (ppos q))"
    by (auto simp: parse_number_def Let_def split: sum.splits)
  have "\<exists>s0. (s0 = [] \<or> s0 = ''-'') \<and> eats s0 p (take_char (CHR ''-'') p)"
    using eats1 [of p "CHR ''-''"] eats_Nil by (cases "peek p = Some (CHR ''-'')") (auto simp: take_char_def)
  then obtain s0 where s0: "s0 = [] \<or> s0 = ''-''" "eats s0 p (take_char (CHR ''-'') p)" by blast
  from number_int_sound [OF 1] obtain s1 where
    s1: "s1 = ''0'' \<or> digits s1 \<and> hd s1 \<noteq> CHR ''0''" "eats s1 (take_char (CHR ''-'') p) p2" by blast
  from number_frac_sound [OF 2] obtain s2 where
    s2: "s2 = [] \<or> (\<exists>ds. digits ds \<and> s2 = CHR ''.'' # ds)" "eats s2 p2 p3" by blast
  from number_exp_sound [OF 3] obtain s3 where
    s3: "s3 = [] \<or> (\<exists>e sg ds. (e = CHR ''e'' \<or> e = CHR ''E'') \<and> (sg = [] \<or> sg = ''+'' \<or> sg = ''-'') \<and>
        digits ds \<and> s3 = e # sg @ ds)" "eats s3 p3 q" by blast
  have e: "eats (s0 @ s1 @ s2 @ s3) p q"
    by (rule eats_append [OF s0(2) eats_append [OF s1(2) eats_append [OF s2(2) s3(2)]]])
  have "json_number (s0 @ s1 @ s2 @ s3)"
    unfolding json_number_def using s0(1) s1(1) s2(1) s3(1) by blast
  with v e eats_slice [OF e] show ?thesis by blast
qed

lemma digits_ascii: "digits ds \<Longrightarrow> list_all (\<lambda>a. ord a < 128) ds"
  by (auto simp: digits_def is_digit_def list_all_iff)

lemma json_number_ascii: "json_number n \<Longrightarrow> list_all (\<lambda>a. ord a < 128) n"
  unfolding json_number_def by (elim exE conjE disjE) (auto dest!: digits_ascii)

section \<open>Strings\<close>

lemma hex4_sound: "hex4 p = Inr (v, q) \<Longrightarrow> \<exists>s. list_all (\<lambda>a. ord a < 128) s \<and> eats s p q"
proof -
  assume h: "hex4 p = Inr (v, q)"
  let ?s = "take 4 (rest p)"
  have ascii: "hex_value c \<noteq> None \<Longrightarrow> ord c < 128" for c
    by (auto simp: hex_value_def is_digit_def split: if_splits)
  from h have "list_all (\<lambda>c. hex_value c \<noteq> None) ?s" "q = adv 4 p" "4 \<le> length (rest p)"
    by (auto simp: hex4_def slice_rest Let_def rest_def split: if_splits)
  then show ?thesis using eats_take [of 4 p] ascii by (auto simp: list_all_iff)
qed

lemma unicode_escape_sound:
  assumes "unicode_escape p = Inr (v, q)" "utf8 (rest p)"
  shows "is_scalar v \<and> utf8 (rest q)"
proof -
  from assms(1) obtain cp p1 where h: "hex4 p = Inr (cp, p1)"
    by (auto simp: unicode_escape_def pbind_def split: sum.splits)
  from hex4_sound [OF h] assms(2) have u1: "utf8 (rest p1)" by (blast intro: eats_utf8)
  consider "q = p1" "is_scalar v"
    | low where "hex4 (adv 2 p1) = Inr (low, q)" "is_scalar v" "take 2 (rest p1) = [CHR 0x5C, CHR ''u'']"
    using assms(1) h
    by (auto simp: unicode_escape_def pbind_def rest_def Let_def split: sum.splits if_splits)
  then show ?thesis
  proof cases
    case (2 low)
    from 2(3) have l: "2 \<le> length (rest p1)"
      by (cases "rest p1"; cases "tl (rest p1)") auto
    have "utf8 (rest (adv 2 p1))"
      by (rule eats_utf8 [OF eats_take [OF l] _ u1]) (use 2(3) in simp)
    with hex4_sound [OF 2(1)] 2(2) show ?thesis by (blast intro: eats_utf8)
  qed (use u1 in simp)
qed

lemma plain_run_utf8:
  assumes "utf8 s"
  shows "utf8 (takeWhile is_plain s) \<and> utf8 (dropWhile is_plain s)"
proof (cases "dropWhile is_plain s")
  case Nil
  then have "takeWhile is_plain s = s" by (metis append_Nil2 takeWhile_dropWhile_id)
  with assms Nil show ?thesis by (metis utf8_Nil)
next
  case (Cons c t)
  then have "\<not> is_plain c" by (metis dropWhile_eq_Cons_conv)
  then have c: "ord c < 128" by (auto simp: is_plain_def)
  have "s = takeWhile is_plain s @ c # t" by (metis Cons takeWhile_dropWhile_id)
  with assms c have "utf8 (takeWhile is_plain s) \<and> utf8 t" by (metis utf8_cut_ascii)
  with Cons c show ?thesis by (simp add: utf8_ascii_Cons)
qed

lemma rest_advance: "rest (advance_while P p) = dropWhile P (rest p)"
  by (metis advance_while_eq rest_adv dropWhile_eq_drop)

lemma slice_advance: "slice p (ppos p) (ppos (advance_while P p)) = takeWhile P (rest p)"
  by (rule eats_slice [OF eats_while])

lemma utf8_adv: "utf8 (rest p) \<Longrightarrow> peek p = Some c \<Longrightarrow> ord c < 128 \<Longrightarrow> utf8 (rest (adv 1 p))"
  using eats_utf8 [OF eats1] by simp

lemma simple_escape_ascii: "simple_escape e = Some v \<Longrightarrow> ord e < 128 \<and> is_scalar v"
  by (auto simp: simple_escape_def is_scalar_def split: if_splits)

lemma utf8_encode_utf8: "is_scalar v \<Longrightarrow> utf8 (utf8_encode v)"
  using utf8_of_chars [of "[v]"] by (simp add: of_chars_Cons)

lemma string_step_sound:
  assumes "utf8 (rest p)"
  shows "string_step p \<noteq> Inl InvalidUtf8"
    and "string_step p = Inr (x, q) \<Longrightarrow> utf8 (rest q) \<and> (\<forall>t. x = Some t \<longrightarrow> utf8 t)"
proof -
  have esc: "utf8 (rest (adv 2 p))"
    if "peek p = Some (CHR 0x5C)" "peek (adv 1 p) = Some e" "ord e < 128" for e
    using utf8_adv [OF utf8_adv [OF assms that(1)] that(2,3)] by simp
  have no8: "hex4 r \<noteq> Inl InvalidUtf8" for r by (simp add: hex4_def Let_def)
  have "unicode_escape r \<noteq> Inl InvalidUtf8" for r
    using no8 by (auto simp: unicode_escape_def pbind_def Let_def split: sum.splits)
  then show "string_step p \<noteq> Inl InvalidUtf8"
    using plain_run_utf8 [OF assms]
    by (auto simp: string_step_def pbind_def Let_def slice_advance split: option.splits sum.splits)
  show "utf8 (rest q) \<and> (\<forall>t. x = Some t \<longrightarrow> utf8 t)" if "string_step p = Inr (x, q)"
  proof -
    from that obtain c where c: "peek p = Some c" by (auto simp: string_step_def split: option.splits)
    consider "c = CHR 0x22" | "c = CHR 0x5C" | "c \<noteq> CHR 0x22" "c \<noteq> CHR 0x5C" by blast
    then show ?thesis
    proof cases
      case 1
      with that c utf8_adv [OF assms c] show ?thesis by (auto simp: string_step_def)
    next
      case 2
      with that c obtain e where e: "peek (adv 1 p) = Some e"
        by (auto simp: string_step_def split: option.splits)
      show ?thesis
      proof (cases "simple_escape e")
        case (Some v)
        with that c 2 e have "x = Some (utf8_encode v)" "q = adv 2 p" by (auto simp: string_step_def)
        with esc [OF _ e] c 2 simple_escape_ascii [OF Some] show ?thesis by (auto simp: utf8_encode_utf8)
      next
        case None
        with that c 2 e obtain v where v: "unicode_escape (adv 2 p) = Inr (v, q)" "x = Some (utf8_encode v)"
          "e = CHR ''u''"
          by (auto simp: string_step_def pbind_def split: if_splits sum.splits)
        with unicode_escape_sound [OF v(1) esc [OF _ e]] c 2 show ?thesis by (auto simp: utf8_encode_utf8)
      qed
    next
      case 3
      with that c plain_run_utf8 [OF assms] show ?thesis
        by (auto simp: string_step_def Let_def slice_advance rest_advance split: if_splits)
    qed
  qed
qed

lemma string_loop_sound:
  "utf8 (rest p) \<Longrightarrow> utf8 out \<Longrightarrow> string_loop p out \<noteq> Inl InvalidUtf8 \<and>
   (\<forall>s q. string_loop p out = Inr (s, q) \<longrightarrow> utf8 s \<and> utf8 (rest q))"
proof (induction p out rule: string_loop.induct)
  case (1 p out)
  show ?case
  proof (cases "string_step p")
    case (Inl e)
    with string_step_sound(1) [OF "1.prems"(1)] show ?thesis by (subst (1 2) string_loop.simps) auto
  next
    case (Inr r)
    then obtain x q where st: "string_step p = Inr (x, q)" by (cases r) auto
    note sound = string_step_sound(2) [OF "1.prems"(1) st]
    show ?thesis
    proof (cases x)
      case None
      with st sound "1.prems" show ?thesis by (subst (1 2) string_loop.simps) auto
    next
      case (Some t)
      with sound "1.prems" have "utf8 (rest q)" "utf8 (out @ t)" by auto
      from "1.IH" [OF st refl Some this] st Some show ?thesis by (subst (1 2) string_loop.simps) simp
    qed
  qed
qed

lemma parse_string_sound:
  assumes "utf8 (rest p)" "peek p = Some (CHR 0x22)"
  shows "parse_string p \<noteq> Inl InvalidUtf8"
    and "parse_string p = Inr (s, q) \<Longrightarrow> utf8 s \<and> utf8 (rest q)"
  using string_loop_sound [OF utf8_adv [OF assms], of "[]"] by (auto simp: parse_string_def)

section \<open>Values\<close>

lemma utf8_skip_ws: "utf8 (rest p) \<Longrightarrow> utf8 (rest (skip_ws p))"
  unfolding skip_ws_def
proof (rule eats_utf8 [OF eats_while])
  have "is_ws a \<Longrightarrow> ord a < 128" for a by (auto simp: is_ws_def)
  then show "list_all (\<lambda>a. ord a < 128) (takeWhile is_ws (rest p))"
    by (auto simp: list_all_iff dest!: set_takeWhileD)
qed

lemma parse_lit_sound: "parse_lit lit v p = Inr (w, q) \<Longrightarrow> w = v \<and> eats lit p q"
proof -
  assume a: "parse_lit lit v p = Inr (w, q)"
  then have s: "take (length lit) (rest p) = lit" and q: "w = v" "q = adv (length lit) p"
    by (auto simp: parse_lit_def slice_rest split: if_splits)
  have "rest p = lit @ drop (length lit) (rest p)"
    using append_take_drop_id [of "length lit" "rest p"] s by simp
  from eatsI [OF this q(2)] q(1) show ?thesis by simp
qed

lemma depth_skip_ws [simp]: "pdepth (skip_ws p) = pdepth p"
  by (rule moves_depth [OF moves_skip_ws])

lemma utf8_after: "utf8 (rest p) \<Longrightarrow> peek p = Some c \<Longrightarrow> ord c < 128 \<Longrightarrow>
    utf8 (rest (skip_ws (adv 1 p)))"
  by (intro utf8_skip_ws utf8_adv)

text \<open>The invariant of a successful call: what is left is valid and the value is well-formed
  within the remaining nesting budget.\<close>

definition good_value :: "nat \<Rightarrow> J \<Rightarrow> parser \<Rightarrow> bool" where
  "good_value d v q \<longleftrightarrow> jwf v \<and> d + jdepth v \<le> MAX_DEPTH \<and> utf8 (rest q)"

definition good_items :: "nat \<Rightarrow> J list \<Rightarrow> bool" where
  "good_items d items \<longleftrightarrow> (\<forall>v \<in> set items. jwf v \<and> d + jdepth v \<le> MAX_DEPTH)"

definition good_pairs :: "nat \<Rightarrow> (string \<times> J) list \<Rightarrow> bool" where
  "good_pairs d pairs \<longleftrightarrow> (\<forall>(k, v) \<in> set pairs. utf8 k \<and> jwf v \<and> d + jdepth v \<le> MAX_DEPTH)"

lemma good_arr: "0 < d \<Longrightarrow> d \<le> MAX_DEPTH \<Longrightarrow> good_items d items \<Longrightarrow> utf8 (rest q) \<Longrightarrow>
    good_value (d - 1) (JArr items) q"
proof -
  assume d: "0 < d" "d \<le> MAX_DEPTH" and i: "good_items d items" and u: "utf8 (rest q)"
  have "foldr max (map jdepth items) 0 \<le> MAX_DEPTH - d"
    using i by (intro foldr_max_le) (auto simp: good_items_def)
  with d i u show ?thesis by (auto simp: good_value_def good_items_def list_all_iff)
qed

lemma good_obj: "0 < d \<Longrightarrow> d \<le> MAX_DEPTH \<Longrightarrow> good_pairs d pairs \<Longrightarrow> utf8 (rest q) \<Longrightarrow>
    good_value (d - 1) (JObj pairs) q"
proof -
  assume d: "0 < d" "d \<le> MAX_DEPTH" and i: "good_pairs d pairs" and u: "utf8 (rest q)"
  have "foldr max (map (\<lambda>(k, v). jdepth v) pairs) 0 \<le> MAX_DEPTH - d"
    using i by (intro foldr_max_le) (auto simp: good_pairs_def)
  with d i u show ?thesis by (auto simp: good_value_def good_pairs_def list_all_iff)
qed

lemma good_depth [simp]: "good_value d v (q\<lparr>pdepth := e\<rparr>) = good_value d v q"
  by (simp add: good_value_def)

lemma parse_sound_all:
  "(\<forall>p v q. parse_value n p = Inr (v, q) \<longrightarrow> utf8 (rest p) \<longrightarrow> pdepth p \<le> MAX_DEPTH \<longrightarrow>
      good_value (pdepth p) v q) \<and>
   (\<forall>p items v q. parse_array n p items = Inr (v, q) \<longrightarrow> utf8 (rest p) \<longrightarrow>
      0 < pdepth p \<longrightarrow> pdepth p \<le> MAX_DEPTH \<longrightarrow> good_items (pdepth p) items \<longrightarrow>
      good_value (pdepth p - 1) v q) \<and>
   (\<forall>p pairs v q. parse_object n p pairs = Inr (v, q) \<longrightarrow> utf8 (rest p) \<longrightarrow>
      0 < pdepth p \<longrightarrow> pdepth p \<le> MAX_DEPTH \<longrightarrow> good_pairs (pdepth p) pairs \<longrightarrow>
      good_value (pdepth p - 1) v q)"
proof (induction n)
  case 0
  show ?case by (simp add: parse_value.simps parse_array.simps parse_object.simps)
next
  case (Suc n)
  note IHv = Suc.IH [THEN conjunct1, rule_format]
    and IHa = Suc.IH [THEN conjunct2, THEN conjunct1, rule_format]
    and IHo = Suc.IH [THEN conjunct2, THEN conjunct2, rule_format]
  have "good_value (pdepth p) v q"
    if a: "parse_value (Suc n) p = Inr (v, q)" and u: "utf8 (rest p)" and d: "pdepth p \<le> MAX_DEPTH"
    for p v q
    using a
  proof (cases rule: parse_value_SucE)
    case (lit lit w)
    then have "v = w" "eats lit (skip_ws p) q" using parse_lit_sound by blast+
    moreover from lit have "list_all (\<lambda>a. ord a < 128) lit" "jwf w" "jdepth w = 0" by auto
    ultimately show ?thesis using eats_utf8 utf8_skip_ws [OF u] d by (auto simp: good_value_def)
  next
    case (str s)
    with parse_string_sound(2) [OF utf8_skip_ws [OF u]] d show ?thesis by (auto simp: good_value_def)
  next
    case (arr q')
    from utf8_adv [OF utf8_skip_ws [OF u] arr(1)]
    have "utf8 (rest (adv 1 (skip_ws p\<lparr>pdepth := pdepth (skip_ws p) + 1\<rparr>)))" by simp
    from IHa [OF arr(3) this] arr(2,4) show ?thesis by (simp add: good_items_def)
  next
    case (obj q')
    from utf8_adv [OF utf8_skip_ws [OF u] obj(1)]
    have "utf8 (rest (adv 1 (skip_ws p\<lparr>pdepth := pdepth (skip_ws p) + 1\<rparr>)))" by simp
    from IHo [OF obj(3) this] obj(2,4) show ?thesis by (simp add: good_pairs_def)
  next
    case num
    from parse_number_sound [OF num] obtain m where "v = JNum m" "json_number m" "eats m (skip_ws p) q"
      by blast
    then show ?thesis using eats_utf8 json_number_ascii utf8_skip_ws [OF u] d
      by (auto simp: good_value_def)
  qed
  moreover have "good_value (pdepth p - 1) v q"
    if a: "parse_array (Suc n) p items = Inr (v, q)" and u: "utf8 (rest p)" and d: "0 < pdepth p"
      "pdepth p \<le> MAX_DEPTH" and i: "good_items (pdepth p) items" for p items v q
    using a
  proof (cases rule: parse_array_SucE)
    case close
    with good_arr [OF d i utf8_adv [OF utf8_skip_ws [OF u] close(1)]] show ?thesis by simp
  next
    case (last w q0)
    from IHv [OF last(1) utf8_skip_ws [OF u]] d have g: "good_value (pdepth p) w q0" by simp
    then have "utf8 (rest (adv 1 (skip_ws q0)))"
      using utf8_adv [OF utf8_skip_ws last(2)] by (simp add: good_value_def)
    moreover have "good_items (pdepth p) (items @ [w])" using g i by (auto simp: good_items_def good_value_def)
    ultimately show ?thesis using last good_arr [OF d] by simp
  next
    case (more w q0)
    from IHv [OF more(1) utf8_skip_ws [OF u]] d have g: "good_value (pdepth p) w q0" by simp
    then have u': "utf8 (rest (skip_ws (adv 1 (skip_ws q0))))"
      using utf8_after [OF utf8_skip_ws more(2)] by (simp add: good_value_def)
    have "pdepth q0 = pdepth p" using moves_depth [OF moves_parse(1) [OF more(1)]] by simp
    moreover have "good_items (pdepth p) (items @ [w])" using g i by (auto simp: good_items_def good_value_def)
    ultimately show ?thesis using IHa [OF more(3) u'] d by simp
  qed
  moreover have "good_value (pdepth p - 1) v q"
    if a: "parse_object (Suc n) p pairs = Inr (v, q)" and u: "utf8 (rest p)" and d: "0 < pdepth p"
      "pdepth p \<le> MAX_DEPTH" and i: "good_pairs (pdepth p) pairs" for p pairs v q
  proof -
    have key: "good_value (pdepth p) w q0 \<and> utf8 k \<and> pdepth q0 = pdepth p"
      if h: "peek (skip_ws p) = Some (CHR 0x22)" "parse_string (skip_ws p) = Inr (k, k0)"
        "peek (skip_ws k0) = Some (CHR '':'')" "parse_value n (adv 1 (skip_ws k0)) = Inr (w, q0)"
      for k k0 w q0
    proof -
      have k: "utf8 k" "utf8 (rest k0)" using parse_string_sound(2) [OF utf8_skip_ws [OF u] h(1,2)] by auto
      have dk: "pdepth k0 = pdepth p" using moves_depth [OF moves_parse_string [OF h(2,1)]] by simp
      have "utf8 (rest (adv 1 (skip_ws k0)))" using utf8_adv [OF utf8_skip_ws [OF k(2)] h(3)] by simp
      from IHv [OF h(4) this] d dk have "good_value (pdepth p) w q0" by simp
      moreover have "pdepth q0 = pdepth p" using moves_depth [OF moves_parse(1) [OF h(4)]] dk by simp
      ultimately show ?thesis using k by simp
    qed
    from a show ?thesis
    proof (cases rule: parse_object_SucE)
      case close
      with good_obj [OF d i utf8_adv [OF utf8_skip_ws [OF u] close(1)]] show ?thesis by simp
    next
      case (last k k0 w q0)
      note g = key [OF last(1-4)]
      then have "utf8 (rest (adv 1 (skip_ws q0)))"
        using utf8_adv [OF utf8_skip_ws last(5)] by (simp add: good_value_def)
      moreover have "good_pairs (pdepth p) (pairs @ [(k, w)])"
        using g i by (auto simp: good_pairs_def good_value_def)
      ultimately show ?thesis using last good_obj [OF d] by simp
    next
      case (more k k0 w q0)
      note g = key [OF more(1-4)]
      then have u': "utf8 (rest (skip_ws (adv 1 (skip_ws q0))))"
        using utf8_after [OF utf8_skip_ws more(5)] by (simp add: good_value_def)
      moreover have "good_pairs (pdepth p) (pairs @ [(k, w)])"
        using g i by (auto simp: good_pairs_def good_value_def)
      ultimately show ?thesis using IHo [OF more(6) u'] d g by simp
    qed
  qed
  ultimately show ?case by blast
qed

lemma parse_json_good:
  assumes "utf8 s" "parse_json s = Inr v"
  shows "jwf v \<and> jdepth v \<le> MAX_DEPTH"
proof -
  from assms(2) obtain q where q: "parse_value (json_fuel (length s)) (parser_new s) = Inr (v, q)"
    by (auto simp: parse_json_def Let_def split: sum.splits if_splits)
  have "utf8 (rest (parser_new s))" using assms(1) by (simp add: parser_new_def rest_def)
  with parse_sound_all q have "good_value (pdepth (parser_new s)) v q" by (metis le0 parser.select_convs(3) parser_new_def)
  then show ?thesis by (simp add: good_value_def parser_new_def)
qed

text \<open>Printed text is valid UTF-8.\<close>

lemma utf8_concat: "(\<And>x. x \<in> set xs \<Longrightarrow> utf8 x) \<Longrightarrow> utf8 (concat xs)"
  by (induction xs) auto

lemma utf8_join: "utf8 sep \<Longrightarrow> (\<And>x. x \<in> set xs \<Longrightarrow> utf8 x) \<Longrightarrow> utf8 (join sep xs)"
  by (induction sep xs rule: join.induct) auto

lemma utf8_esc_char: "is_scalar c \<Longrightarrow> utf8 (esc_char c)"
proof (cases "0x20 \<le> c")
  case True
  assume "is_scalar c"
  with True show ?thesis by (auto simp: esc_char_def utf8_encode_utf8 intro: utf8_ascii)
next
  case False
  then have "c < 256" "c < 32" by auto
  moreover have "c div 16 < 16" using False by auto
  ultimately show ?thesis
    by (auto simp: esc_char_def show_hex_byte hex_digit_ascii intro!: utf8_ascii)
qed

lemma utf8_esc: "utf8 (esc s)"
proof -
  have "utf8 (concat (map esc_char (chars s)))"
    using chars_scalar [of s] by (auto simp: list_all_iff intro!: utf8_concat utf8_esc_char)
  then have "utf8 (concat (map esc_char (chars s)) @ [CHR 0x22])" by (simp add: utf8_ascii_Cons)
  then show ?thesis unfolding esc_def by (subst utf8_ascii_Cons) simp_all
qed

lemma utf8_j_to_string: "jwf v \<Longrightarrow> utf8 (j_to_string v)"
proof (induction v rule: j_to_string.induct)
  case (3 n)
  then show ?case by (simp add: json_number_ascii utf8_ascii)
next
  case (5 items)
  then have "utf8 (join '','' (map j_to_string items))"
    by (intro utf8_join) (auto simp: list_all_iff utf8_ascii)
  then show ?case by (simp add: utf8_ascii_Cons)
next
  case (6 pairs)
  have "utf8 (esc k @ '':'' @ j_to_string v)" if "(k, v) \<in> set pairs" for k v
    using 6 that by (auto simp: list_all_iff utf8_esc utf8_ascii_Cons)
  then have "utf8 (join '','' (map (\<lambda>(k, v). esc k @ '':'' @ j_to_string v) pairs))"
    by (intro utf8_join) (auto simp: utf8_ascii)
  then show ?case by (simp add: utf8_ascii_Cons)
qed (simp_all add: utf8_ascii utf8_esc)

section \<open>The parser and printer as a codec\<close>

definition json_dec :: "string \<Rightarrow> J option" where
  "json_dec s = (case parse_json s of Inr v \<Rightarrow> Some v | Inl e \<Rightarrow> None)"

interpretation json: codec j_to_string json_dec "\<lambda>v. jwf v \<and> jdepth v \<le> MAX_DEPTH"
  by unfold_locales (simp add: json_dec_def parse_json_j_to_string)

section \<open>Properties\<close>

text \<open>C21: parsing terminates with an answer on every byte sequence: the fuel that stands for the
  recursion of \<^verbatim>\<open>parse_value\<close> never runs out.\<close>

theorem parse_json_terminates: "parse_json s \<noteq> Inl OutOfFuel"
  using parse_value_fuel [of s]
  by (auto simp: parse_json_def Let_def split: sum.splits)

text \<open>C22: printing a well-formed value that nests at most \<^verbatim>\<open>MAX_DEPTH\<close> levels and parsing the
  text gives the same value back; so two such values never print the same text.\<close>

theorem json_print_parse:
  assumes "jwf v" "jdepth v \<le> MAX_DEPTH"
  shows "parse_json (j_to_string v) = Inr v \<and>
    (\<forall>w. jwf w \<and> jdepth w \<le> MAX_DEPTH \<and> j_to_string w = j_to_string v \<longrightarrow> w = v)"
  using assms parse_json_j_to_string json.enc_inject by auto

theorem json_print_parse_witness:
  "parse_json (j_to_string (JObj [(''a'', JArr [JNum ''1'', JStr [CHR 0x22, CHR 0x0A]]), (''b'', JNull)])) =
     Inr (JObj [(''a'', JArr [JNum ''1'', JStr [CHR 0x22, CHR 0x0A]]), (''b'', JNull)])"
proof -
  have "json_number ''1''"
    using json_number_show_nat [of 1] by (simp add: show_nat.simps [of 1] digit_1 [simplified])
  then show ?thesis
    using json_print_parse
      [of "JObj [(''a'', JArr [JNum ''1'', JStr [CHR 0x22, CHR 0x0A]]), (''b'', JNull)]", THEN conjunct1]
    by (simp add: MAX_DEPTH_def utf8_ascii)
qed

text \<open>C23: whatever the parser accepts from valid UTF-8 is well-formed (strict number syntax,
  valid UTF-8 strings) and nests at most 64 levels, and printing it gives a text that parses to
  the same value.\<close>

theorem parse_json_well_formed:
  assumes "utf8 s" "parse_json s = Inr v"
  shows "jwf v \<and> jdepth v \<le> MAX_DEPTH \<and> parse_json (j_to_string v) = Inr v"
  using parse_json_good [OF assms] parse_json_j_to_string by simp

theorem parse_json_well_formed_witness:
  "jwf (JArr [JBool True]) \<and> jdepth (JArr [JBool True]) \<le> MAX_DEPTH \<and>
   parse_json (j_to_string (JArr [JBool True])) = Inr (JArr [JBool True])"
proof -
  have "parse_json ''[true ]'' = Inr (JArr [JBool True])" by code_simp
  moreover have "utf8 ''[true ]''" by (simp add: utf8_ascii)
  ultimately show ?thesis using parse_json_well_formed [of "''[true ]''" "JArr [JBool True]"] by simp
qed

end
