(* ===== verification/Stores.thy ===== *)
theory Stores
  imports Json_Sound
begin

text \<open>
  The two small stores the adapter keeps between processes: the mode of each Muse session
  (\<^verbatim>\<open>src/modes.rs\<close>) and the last reasoning tier of each model (\<^verbatim>\<open>src/efforts.rs\<close>), with the
  mode and tier names of \<^verbatim>\<open>src/acp.rs\<close> they check against. Both keep one JSON object in a file
  of the state directory. The system the stores run on is a record: environment variables,
  readable files and whether writing succeeds; a lock serialises the operations, so each is one
  step. The locale \<open>kv_store\<close> states what a client relies on, and both stores interpret it: over
  any sequence of saves and removals a load answers like a finite map.
\<close>

section \<open>The system\<close>

record sys =
  sys_var :: "string \<Rightarrow> string option"
  sys_files :: "string \<Rightarrow> string option"
  sys_writable :: bool
  sys_windows :: bool

definition path_join :: "bool \<Rightarrow> string \<Rightarrow> string \<Rightarrow> string" where
  "path_join win a b =
     (let sep = (if win then CHR 0x5C else CHR ''/'') in
      if a = [] \<or> last a = sep \<or> last a = CHR ''/'' then a @ b else a @ [sep] @ b)"

definition store_path :: "string \<Rightarrow> sys \<Rightarrow> string option" where
  "store_path name w =
     map_option
       (\<lambda>state. path_join (sys_windows w) (path_join (sys_windows w) state ''muse-acp'') name)
       (or_else (nonempty (sys_var w ''XDG_STATE_HOME''))
          (if sys_windows w then sys_var w ''LOCALAPPDATA''
           else map_option (\<lambda>home. path_join False home ''.local/state'') (sys_var w ''HOME'')))"

text \<open>The fields of the stored object; an unreadable store has none. \<^verbatim>\<open>read_to_string\<close> fails on
  text that is not UTF-8.\<close>

definition read_fields :: "string \<Rightarrow> sys \<Rightarrow> (string \<times> J) list" where
  "read_fields name w =
     (case store_path name w of
        None \<Rightarrow> []
      | Some path \<Rightarrow>
          (case sys_files w path of
             None \<Rightarrow> []
           | Some text \<Rightarrow>
               if \<not> utf8 text then []
               else (case parse_json text of Inr (JObj fs) \<Rightarrow> fs | _ \<Rightarrow> [])))"

definition store_body :: "(string \<times> string) list \<Rightarrow> string" where
  "store_body entries =
     ''{'' @ join '','' (map (\<lambda>(k, v). esc k @ '':'' @ esc v) entries) @ ''}'' @ [CHR 0x0A]"

text \<open>Writing stages a file of its own and renames it into place: it happens as a whole or,
  when an I/O step fails, not at all (the failure is logged).\<close>

definition write_store :: "string \<Rightarrow> (string \<times> string) list \<Rightarrow> sys \<Rightarrow> sys" where
  "write_store name entries w =
     (case store_path name w of
        None \<Rightarrow> w
      | Some path \<Rightarrow>
          if sys_writable w then w\<lparr>sys_files := (sys_files w)(path \<mapsto> store_body entries)\<rparr> else w)"

section \<open>Session modes\<close>

definition SESSION_MODES :: "string list" where
  "SESSION_MODES = [''default'', ''readOnly'', ''plan'']"

definition resolve_session_mode :: "string \<Rightarrow> string option" where
  "resolve_session_mode value = find (\<lambda>m. m = value) SESSION_MODES"

definition is_read_only_mode :: "string \<Rightarrow> bool" where
  "is_read_only_mode mode \<longleftrightarrow> mode = ''readOnly'' \<or> mode = ''plan''"

definition modes_file :: string where
  "modes_file = ''session-modes.json''"

definition modes_entry :: "string \<times> J \<Rightarrow> (string \<times> string) option" where
  "modes_entry kv =
     (case as_str (snd kv) of
        None \<Rightarrow> None
      | Some m \<Rightarrow>
          (case resolve_session_mode m of
             None \<Rightarrow> None
           | Some mode \<Rightarrow> if is_read_only_mode mode then Some (fst kv, mode) else None))"

definition modes_read_all :: "sys \<Rightarrow> (string \<times> string) list" where
  "modes_read_all w = List.map_filter modes_entry (read_fields modes_file w)"

definition modes_load :: "sys \<Rightarrow> string \<Rightarrow> string" where
  "modes_load w sid =
     unwrap_or
       (Option.bind (find (\<lambda>e. fst e = sid) (modes_read_all w)) (\<lambda>e. resolve_session_mode (snd e)))
       ''default''"

definition modes_save :: "string \<Rightarrow> string \<Rightarrow> sys \<Rightarrow> sys" where
  "modes_save sid mode w =
     (let entries = filter (\<lambda>e. fst e \<noteq> sid) (modes_read_all w) in
      write_store modes_file (if is_read_only_mode mode then entries @ [(sid, mode)] else entries) w)"

definition modes_forget :: "string \<Rightarrow> sys \<Rightarrow> sys" where
  "modes_forget sid w = write_store modes_file (filter (\<lambda>e. fst e \<noteq> sid) (modes_read_all w)) w"

section \<open>Reasoning tiers\<close>

definition is_reasoning_effort :: "string \<Rightarrow> bool" where
  "is_reasoning_effort v \<longleftrightarrow>
     v \<in> {''none'', ''minimal'', ''low'', ''medium'', ''high'', ''xhigh'', ''max'', ''ultra''}"

definition efforts_file :: string where
  "efforts_file = ''reasoning-efforts.json''"

definition efforts_entry :: "string \<times> J \<Rightarrow> (string \<times> string) option" where
  "efforts_entry kv =
     (case as_str (snd kv) of
        None \<Rightarrow> None
      | Some e \<Rightarrow> if is_reasoning_effort e then Some (fst kv, e) else None)"

definition efforts_read_all :: "sys \<Rightarrow> (string \<times> string) list" where
  "efforts_read_all w = List.map_filter efforts_entry (read_fields efforts_file w)"

definition efforts_load :: "sys \<Rightarrow> string \<Rightarrow> string option" where
  "efforts_load w model =
     (if model = [] then None
      else map_option snd (find (\<lambda>e. fst e = model) (efforts_read_all w)))"

definition efforts_save :: "string \<Rightarrow> string \<Rightarrow> sys \<Rightarrow> sys" where
  "efforts_save model effort w =
     (if model = [] \<or> \<not> is_reasoning_effort effort then w
      else write_store efforts_file
             (filter (\<lambda>e. fst e \<noteq> model) (efforts_read_all w) @ [(model, effort)]) w)"

definition efforts_clear :: "string \<Rightarrow> sys \<Rightarrow> sys" where
  "efforts_clear model w =
     (if model = [] then w
      else write_store efforts_file (filter (\<lambda>e. fst e \<noteq> model) (efforts_read_all w)) w)"

section \<open>The interface of a store\<close>

datatype 'a kv_op = Put string 'a | Del string

fun kv_run :: "(string \<Rightarrow> 'a \<Rightarrow> 'w \<Rightarrow> 'w) \<Rightarrow> (string \<Rightarrow> 'w \<Rightarrow> 'w) \<Rightarrow> 'a kv_op list \<Rightarrow> 'w \<Rightarrow> 'w" where
  "kv_run put del [] w = w"
| "kv_run put del (Put k a # ops) w = kv_run put del ops (put k a w)"
| "kv_run put del (Del k # ops) w = kv_run put del ops (del k w)"

text \<open>What the operations do to the abstract map from keys to loaded values.\<close>

fun kv_spec :: "('a \<Rightarrow> 'v) \<Rightarrow> 'v \<Rightarrow> 'a kv_op list \<Rightarrow> (string \<Rightarrow> 'v) \<Rightarrow> string \<Rightarrow> 'v" where
  "kv_spec shown dflt [] m = m"
| "kv_spec shown dflt (Put k a # ops) m = kv_spec shown dflt ops (m(k := shown a))"
| "kv_spec shown dflt (Del k # ops) m = kv_spec shown dflt ops (m(k := dflt))"

fun kv_ok :: "(string \<Rightarrow> bool) \<Rightarrow> ('a \<Rightarrow> bool) \<Rightarrow> 'a kv_op \<Rightarrow> bool" where
  "kv_ok ok_key ok_val (Put k a) = (ok_key k \<and> ok_val a)"
| "kv_ok ok_key ok_val (Del k) = ok_key k"

locale kv_store =
  fixes get :: "'w \<Rightarrow> string \<Rightarrow> 'v"
    and put :: "string \<Rightarrow> 'a \<Rightarrow> 'w \<Rightarrow> 'w"
    and del :: "string \<Rightarrow> 'w \<Rightarrow> 'w"
    and inv :: "'w \<Rightarrow> bool"
    and ok_key :: "string \<Rightarrow> bool"
    and ok_val :: "'a \<Rightarrow> bool"
    and shown :: "'a \<Rightarrow> 'v"
    and dflt :: 'v
  assumes inv_put: "inv w \<Longrightarrow> ok_key k \<Longrightarrow> ok_val a \<Longrightarrow> inv (put k a w)"
    and inv_del: "inv w \<Longrightarrow> ok_key k \<Longrightarrow> inv (del k w)"
    and get_put: "inv w \<Longrightarrow> ok_key k \<Longrightarrow> ok_val a \<Longrightarrow> get (put k a w) = (get w)(k := shown a)"
    and get_del: "inv w \<Longrightarrow> ok_key k \<Longrightarrow> get (del k w) = (get w)(k := dflt)"
begin

lemma run_refines:
  "inv w \<Longrightarrow> list_all (kv_ok ok_key ok_val) ops \<Longrightarrow>
   inv (kv_run put del ops w) \<and> get (kv_run put del ops w) = kv_spec shown dflt ops (get w)"
proof (induction ops arbitrary: w)
  case (Cons p ops)
  then show ?case by (cases p) (simp_all add: inv_put inv_del get_put get_del)
qed simp

end

section \<open>Reading back what was written\<close>

definition store_ok :: "string \<Rightarrow> sys \<Rightarrow> bool" where
  "store_ok name w \<longleftrightarrow> store_path name w \<noteq> None \<and> sys_writable w"

definition texts :: "(string \<times> string) list \<Rightarrow> bool" where
  "texts entries \<longleftrightarrow> list_all (\<lambda>(k, v). utf8 k \<and> utf8 v) entries"

lemma store_body_json:
  "store_body entries = j_to_string (JObj (map (\<lambda>(k, v). (k, JStr v)) entries)) @ [CHR 0x0A]"
  by (simp add: store_body_def split_def comp_def)

lemma store_path_write [simp]: "store_path n (write_store name entries w) = store_path n w"
  by (auto simp: store_path_def write_store_def split: option.splits)

lemma store_ok_write: "store_ok n (write_store name entries w) = store_ok n w"
proof -
  have "sys_writable (write_store name entries w) = sys_writable w"
    by (simp add: write_store_def split: option.split)
  then show ?thesis by (simp add: store_ok_def)
qed

lemma fields_after_write:
  assumes "store_ok name w" "texts entries"
  shows "read_fields name (write_store name entries w) = map (\<lambda>(k, v). (k, JStr v)) entries"
proof -
  let ?v = "JObj (map (\<lambda>(k, v). (k, JStr v)) entries)"
  from assms obtain path where p: "store_path name w = Some path" "sys_writable w"
    by (auto simp: store_ok_def)
  have depth: "foldr max (map (\<lambda>(k, v). jdepth v) (map (\<lambda>(k, v). (k, JStr v)) entries)) 0 \<le> 0"
    by (rule foldr_max_le) auto
  have "jwf ?v" "jdepth ?v \<le> MAX_DEPTH"
    using assms(2) depth by (auto simp: texts_def list_all_iff MAX_DEPTH_def)
  from parse_json_print_ws [OF this, of "[CHR 0x0A]"]
  have "parse_json (store_body entries) = Inr ?v" by (simp only: store_body_json) (simp add: is_ws_def)
  moreover have "utf8 (store_body entries)"
    unfolding store_body_json
    by (rule utf8_append [OF utf8_j_to_string [OF \<open>jwf ?v\<close>]]) (simp add: utf8_ascii)
  moreover have "sys_files (write_store name entries w) path = Some (store_body entries)"
    using p by (simp add: write_store_def)
  ultimately show ?thesis using p by (simp add: read_fields_def)
qed

lemma read_fields_utf8:
  assumes "(k, v) \<in> set (read_fields name w)"
  shows "utf8 k"
proof -
  from assms obtain body fs where "utf8 body" "parse_json body = Inr (JObj fs)" "(k, v) \<in> set fs"
    by (auto simp: read_fields_def split: option.splits if_splits sum.splits J.splits) metis
  with parse_json_good [of body "JObj fs"] show ?thesis by (auto simp: list_all_iff)
qed

text \<open>Both stores keep the entries a validation function lets through; writing entries that it
  accepts and reading them back changes nothing.\<close>

lemma map_filter_written:
  assumes "\<And>k v. (k, v) \<in> set es \<Longrightarrow> f (k, JStr v) = Some (k, v)"
  shows "List.map_filter f (map (\<lambda>(k, v). (k, JStr v)) es) = es"
  using assms by (induction es) (auto simp: List.map_filter_def)

lemma find_filter_append:
  "find (\<lambda>e. fst e = k') (filter (\<lambda>e. fst e \<noteq> k) es @ [(k, v)]) =
     (if k' = k then Some (k, v) else find (\<lambda>e. fst e = k') es)"
  by (induction es) auto

lemma find_filter_neq:
  "find (\<lambda>e. fst e = k') (filter (\<lambda>e. fst e \<noteq> k) es) =
     (if k' = k then None else find (\<lambda>e. fst e = k') es)"
  by (induction es) auto

lemma set_map_filterD: "x \<in> set (List.map_filter f xs) \<Longrightarrow> \<exists>y \<in> set xs. f y = Some x"
  by (auto simp: List.map_filter_def)

section \<open>The mode store\<close>

lemmas mode_names = resolve_session_mode_def SESSION_MODES_def is_read_only_mode_def

definition modes_good :: "(string \<times> string) list \<Rightarrow> bool" where
  "modes_good es \<longleftrightarrow> (\<forall>(k, v) \<in> set es. utf8 k \<and> is_read_only_mode v)"

lemma modes_read_good: "modes_good (modes_read_all w)"
  by (auto simp: modes_good_def modes_read_all_def modes_entry_def dest!: set_map_filterD
      read_fields_utf8 split: option.splits if_splits)

lemma mode_utf8: "is_read_only_mode v \<Longrightarrow> utf8 v"
  by (auto simp: is_read_only_mode_def utf8_ascii)

lemma modes_read_write:
  assumes "store_ok modes_file w" "modes_good es"
  shows "modes_read_all (write_store modes_file es w) = es"
proof -
  have "texts es" using assms(2) by (auto simp: texts_def modes_good_def list_all_iff mode_utf8)
  moreover have "modes_entry (k, JStr v) = Some (k, v)" if "(k, v) \<in> set es" for k v
    using assms(2) that by (auto simp: modes_good_def modes_entry_def mode_names)
  ultimately show ?thesis
    by (simp add: modes_read_all_def fields_after_write [OF assms(1)] map_filter_written)
qed

lemma modes_good_filter: "modes_good es \<Longrightarrow> modes_good (filter P es)"
  by (auto simp: modes_good_def)

lemma modes_good_snoc: "modes_good es \<Longrightarrow> utf8 k \<Longrightarrow> is_read_only_mode m \<Longrightarrow> modes_good (es @ [(k, m)])"
  by (auto simp: modes_good_def)

interpretation modes: kv_store modes_load modes_save modes_forget "store_ok modes_file" utf8
  "\<lambda>m. resolve_session_mode m \<noteq> None" "\<lambda>m. m" "''default''"
proof unfold_locales
  fix w :: sys and k m
  assume w: "store_ok modes_file w" and k: "utf8 k" and m: "resolve_session_mode m \<noteq> None"
  note g = modes_good_filter [OF modes_read_good [of w], of "\<lambda>e. fst e \<noteq> k"]
  show "store_ok modes_file (modes_save k m w)" using w by (simp add: modes_save_def Let_def store_ok_write)
  show "modes_load (modes_save k m w) = (modes_load w)(k := m)"
  proof (cases "is_read_only_mode m")
    case True
    with modes_read_write [OF w modes_good_snoc [OF g k True]] show ?thesis
      by (auto simp: fun_eq_iff modes_load_def modes_save_def find_filter_append mode_names)
  next
    case False
    with m have "m = ''default''" by (auto simp: mode_names split: if_splits)
    with False modes_read_write [OF w g] show ?thesis
      by (auto simp: fun_eq_iff modes_load_def modes_save_def find_filter_neq)
  qed
next
  fix w :: sys and k
  assume w: "store_ok modes_file w"
  note g = modes_good_filter [OF modes_read_good [of w], of "\<lambda>e. fst e \<noteq> k"]
  show "store_ok modes_file (modes_forget k w)" using w by (simp add: modes_forget_def store_ok_write)
  show "modes_load (modes_forget k w) = (modes_load w)(k := ''default'')"
    using modes_read_write [OF w g]
    by (auto simp: fun_eq_iff modes_load_def modes_forget_def find_filter_neq)
qed

section \<open>The tier store\<close>

definition efforts_good :: "(string \<times> string) list \<Rightarrow> bool" where
  "efforts_good es \<longleftrightarrow> (\<forall>(k, v) \<in> set es. utf8 k \<and> is_reasoning_effort v)"

lemma efforts_read_good: "efforts_good (efforts_read_all w)"
  by (auto simp: efforts_good_def efforts_read_all_def efforts_entry_def dest!: set_map_filterD
      read_fields_utf8 split: option.splits if_splits)

lemma effort_utf8: "is_reasoning_effort v \<Longrightarrow> utf8 v"
  by (auto simp: is_reasoning_effort_def utf8_ascii)

lemma efforts_read_write:
  assumes "store_ok efforts_file w" "efforts_good es"
  shows "efforts_read_all (write_store efforts_file es w) = es"
proof -
  have "texts es" using assms(2) by (auto simp: texts_def efforts_good_def list_all_iff effort_utf8)
  moreover have "efforts_entry (k, JStr v) = Some (k, v)" if "(k, v) \<in> set es" for k v
    using assms(2) that by (auto simp: efforts_good_def efforts_entry_def)
  ultimately show ?thesis
    by (simp add: efforts_read_all_def fields_after_write [OF assms(1)] map_filter_written)
qed

lemma efforts_good_filter: "efforts_good es \<Longrightarrow> efforts_good (filter P es)"
  by (auto simp: efforts_good_def)

interpretation efforts: kv_store efforts_load efforts_save efforts_clear "store_ok efforts_file"
  "\<lambda>k. utf8 k \<and> k \<noteq> []" is_reasoning_effort Some None
proof unfold_locales
  fix w :: sys and k m
  assume w: "store_ok efforts_file w" and k: "utf8 k \<and> k \<noteq> []" and m: "is_reasoning_effort m"
  note g = efforts_good_filter [OF efforts_read_good [of w], of "\<lambda>e. fst e \<noteq> k"]
  have "efforts_good (filter (\<lambda>e. fst e \<noteq> k) (efforts_read_all w) @ [(k, m)])"
    using g k m by (auto simp: efforts_good_def)
  with efforts_read_write [OF w this] k m show "efforts_load (efforts_save k m w) = (efforts_load w)(k := Some m)"
    by (auto simp: fun_eq_iff efforts_load_def efforts_save_def find_filter_append)
  show "store_ok efforts_file (efforts_save k m w)" using w by (simp add: efforts_save_def store_ok_write)
next
  fix w :: sys and k
  assume w: "store_ok efforts_file w" and k: "utf8 k \<and> k \<noteq> []"
  note g = efforts_good_filter [OF efforts_read_good [of w], of "\<lambda>e. fst e \<noteq> k"]
  show "efforts_load (efforts_clear k w) = (efforts_load w)(k := None)"
    using efforts_read_write [OF w g] k
    by (auto simp: fun_eq_iff efforts_load_def efforts_clear_def find_filter_neq)
  show "store_ok efforts_file (efforts_clear k w)" using w by (simp add: efforts_clear_def store_ok_write)
qed

section \<open>Properties\<close>

text \<open>C25: while the store can be written, the mode a session is loaded with is the one last saved
  for it over any sequence of saves and removals, whatever the file held before and whatever was
  saved for other sessions; a session that was forgotten loads as \<^verbatim>\<open>default\<close>.\<close>

theorem modes_store_refines_map:
  assumes "store_path modes_file w \<noteq> None" "sys_writable w"
    and "list_all (kv_ok utf8 (\<lambda>m. m \<in> {''default'', ''readOnly'', ''plan''})) ops"
  shows "modes_load (kv_run modes_save modes_forget ops w) =
    kv_spec (\<lambda>m. m) ''default'' ops (modes_load w)"
proof -
  have "(\<lambda>m. m \<in> {''default'', ''readOnly'', ''plan''}) = (\<lambda>m. resolve_session_mode m \<noteq> None)"
    by (auto simp: fun_eq_iff mode_names)
  with assms modes.run_refines [of w ops] show ?thesis by (simp add: store_ok_def)
qed

definition demo_sys :: sys where
  "demo_sys = \<lparr>sys_var = (\<lambda>v. if v = ''HOME'' then Some ''/home/u'' else None), sys_files = (\<lambda>p. None),
     sys_writable = True, sys_windows = False\<rparr>"

lemma demo_paths: "store_path name demo_sys \<noteq> None" "sys_writable demo_sys"
  by (simp_all add: demo_sys_def store_path_def)

lemma demo_loads: "modes_load demo_sys = (\<lambda>k. ''default'')" "efforts_load demo_sys = (\<lambda>k. None)"
  by (simp_all add: fun_eq_iff modes_load_def modes_read_all_def efforts_load_def efforts_read_all_def
      read_fields_def demo_sys_def List.map_filter_def split: option.split)

theorem modes_store_refines_map_witness:
  "modes_load (modes_forget ''s2'' (modes_save ''s2'' ''readOnly'' (modes_save ''s1'' ''plan'' demo_sys))) =
     (\<lambda>k. if k = ''s1'' then ''plan'' else ''default'')"
  using modes_store_refines_map
    [OF demo_paths, where ops = "[Put ''s1'' ''plan'', Put ''s2'' ''readOnly'', Del ''s2'']"]
  by (simp add: utf8_ascii demo_loads fun_eq_iff)

text \<open>the tier store answers like a map too: a load gives the tier last saved for that model,
  and none after a clear; other models and the former content of the file do not matter.\<close>

theorem efforts_store_refines_map:
  assumes "store_path efforts_file w \<noteq> None" "sys_writable w"
    and "list_all (kv_ok (\<lambda>k. utf8 k \<and> k \<noteq> []) is_reasoning_effort) ops"
  shows "efforts_load (kv_run efforts_save efforts_clear ops w) =
    kv_spec Some None ops (efforts_load w)"
  using assms efforts.run_refines [of w ops] by (simp add: store_ok_def)

theorem efforts_store_refines_map_witness:
  "efforts_load (efforts_save ''m1'' ''max'' (efforts_clear ''m1'' (efforts_save ''m1'' ''low'' demo_sys))) ''m1'' =
     Some ''max''"
  using efforts_store_refines_map
    [OF demo_paths, where ops = "[Put ''m1'' ''low'', Del ''m1'', Put ''m1'' ''max'']"]
  by (simp add: utf8_ascii is_reasoning_effort_def)

end
