(* ===== verification/Codec.thy ===== *)
theory Codec
  imports Json_Sound
begin

unbundle bit_operations_syntax

text \<open>
  The helpers of \<^verbatim>\<open>src/json.rs\<close>: Base64 (\<^verbatim>\<open>b64\<close>), minted ids (\<^verbatim>\<open>mint_id\<close>) and the conversion of
  an untyped SDK value (\<^verbatim>\<open>from_value\<close>). The Base64 encoder is checked against a decoder written
  from RFC 4648; the pair interprets the codec interface.
\<close>

section \<open>Base64\<close>

definition b64_table :: string where
  "b64_table = ''ABCDEFGHIJKLMNOPQRSTUVWXYZabcdefghijklmnopqrstuvwxyz0123456789+/''"

text \<open>The 24-bit group of one chunk; a missing byte counts as 0.\<close>

definition b64_group :: "nat \<Rightarrow> nat \<Rightarrow> nat \<Rightarrow> nat" where
  "b64_group x y z = (push_bit 16 x OR push_bit 8 y) OR z"

definition b64_sym :: "nat \<Rightarrow> nat \<Rightarrow> char" where
  "b64_sym shift n = b64_table ! (drop_bit shift n AND 63)"

fun b64 :: "string \<Rightarrow> string" where
  "b64 [] = []"
| "b64 [x] =
     (let n = b64_group (ord x) 0 0 in [b64_sym 18 n, b64_sym 12 n, CHR ''='', CHR ''=''])"
| "b64 [x, y] =
     (let n = b64_group (ord x) (ord y) 0 in [b64_sym 18 n, b64_sym 12 n, b64_sym 6 n, CHR ''=''])"
| "b64 (x # y # z # s) =
     (let n = b64_group (ord x) (ord y) (ord z) in
      [b64_sym 18 n, b64_sym 12 n, b64_sym 6 n, b64_sym 0 n] @ b64 s)"

text \<open>The decoder of RFC 4648, section 4: four symbols give three bytes; only the last quantum is
  padded.\<close>

fun index_of :: "char \<Rightarrow> string \<Rightarrow> nat option" where
  "index_of c [] = None"
| "index_of c (d # s) = (if c = d then Some 0 else map_option Suc (index_of c s))"

definition b64_val :: "char \<Rightarrow> nat option" where
  "b64_val c = index_of c b64_table"

fun b64_dec :: "string \<Rightarrow> string option" where
  "b64_dec [] = Some []"
| "b64_dec (a # b # c # d # s) =
     (case (b64_val a, b64_val b, b64_val c, b64_val d) of
        (Some w, Some x, Some y, Some z) \<Rightarrow>
          map_option ((@) [char_of (w * 4 + x div 16), char_of (x mod 16 * 16 + y div 4),
            char_of (y mod 4 * 64 + z)]) (b64_dec s)
      | (Some w, Some x, Some y, None) \<Rightarrow>
          if d = CHR ''='' \<and> s = [] \<and> y mod 4 = 0
          then Some [char_of (w * 4 + x div 16), char_of (x mod 16 * 16 + y div 4)] else None
      | (Some w, Some x, None, None) \<Rightarrow>
          if c = CHR ''='' \<and> d = CHR ''='' \<and> s = [] \<and> x mod 16 = 0
          then Some [char_of (w * 4 + x div 16)] else None
      | _ \<Rightarrow> None)"
| "b64_dec _ = None"

lemma or_shift: "y < 2 ^ k \<Longrightarrow> push_bit k x OR y = x * 2 ^ k + (y::nat)"
proof -
  assume "y < 2 ^ k"
  then have "take_bit k y = y" by (simp add: take_bit_nat_eq_self)
  moreover have "push_bit k x AND take_bit k y = 0"
    by (rule bit_eqI) (auto simp: bit_simps)
  ultimately have "push_bit k x OR y = push_bit k x + y"
    by (metis disjunctive_add_eq_or)
  then show ?thesis by (simp add: push_bit_eq_mult)
qed

lemma b64_group_eq: "y < 256 \<Longrightarrow> z < 256 \<Longrightarrow> b64_group x y z = x * 65536 + y * 256 + z"
proof -
  assume y: "y < 256" and z: "z < 256"
  have "push_bit 16 x OR push_bit 8 y = push_bit 8 (push_bit 8 x OR y)"
    by (simp add: push_bit_or)
  then have "push_bit 16 x OR push_bit 8 y = push_bit 8 (x * 256 + y)"
    using or_shift [of y 8 x] y by simp
  then show ?thesis using or_shift [of z 8 "x * 256 + y"] z by (simp add: b64_group_def algebra_simps)
qed

lemma b64_sym_eq: "b64_sym k n = b64_table ! (n div 2 ^ k mod 64)"
proof -
  have "drop_bit k n AND 63 = take_bit 6 (drop_bit k n)"
    by (simp add: take_bit_eq_mask mask_eq_exp_minus_1)
  then show ?thesis by (simp add: b64_sym_def take_bit_eq_mod drop_bit_eq_div)
qed

lemma index_of_nth: "distinct xs \<Longrightarrow> i < length xs \<Longrightarrow> index_of (xs ! i) xs = Some i"
  by (induction xs arbitrary: i) (auto simp: nth_Cons split: nat.split)

lemma b64_table_facts: "distinct b64_table" "length b64_table = 64"
  by (simp_all add: b64_table_def)

lemma b64_val_table: "i < 64 \<Longrightarrow> b64_val (b64_table ! i) = Some i"
  by (simp add: b64_val_def index_of_nth b64_table_facts)

lemma b64_val_pad: "b64_val (CHR ''='') = None"
  by (simp add: b64_val_def b64_table_def)

lemma sym_bytes:
  assumes "x < 256" "y < 256" "z < (256::nat)" "n = x * 65536 + y * 256 + z"
  shows "n div 262144 mod 64 = x div 4" "n div 4096 mod 64 = x mod 4 * 16 + y div 16"
    "n div 64 mod 64 = y mod 16 * 4 + z div 64" "n mod 64 = z mod 64"
proof -
  define x1 x0 y1 y0 z1 z0 where d: "x1 = x div 4" "x0 = x mod 4" "y1 = y div 16" "y0 = y mod 16"
    "z1 = z div 64" "z0 = z mod 64"
  have "x = x1 * 4 + x0" "y = y1 * 16 + y0" "z = z1 * 64 + z0" unfolding d by simp_all
  then have n: "n = x1 * 262144 + (x0 * 16 + y1) * 4096 + (y0 * 4 + z1) * 64 + z0"
    using assms(4) by simp
  have b: "x1 < 64" "x0 < 4" "y1 < 16" "y0 < 16" "z1 < 4" "z0 < 64" using assms unfolding d by auto
  have "n = (x1 * 64 + (x0 * 16 + y1)) * 4096 + (y0 * 4 + z1) * 64 + z0" using n by simp
  note m = merge3 [OF _ _ this]
  show "n mod 64 = z mod 64" "n div 64 mod 64 = y mod 16 * 4 + z div 64"
    unfolding d [symmetric] using m(2,3) b by simp_all
  have q: "n div 4096 = x1 * 64 + (x0 * 16 + y1)" using m(1) b by simp
  then show "n div 4096 mod 64 = x mod 4 * 16 + y div 16" unfolding d [symmetric] using b by simp
  have "n div 262144 = n div 4096 div 64" using div_mult2_eq [of n 4096 64] by simp
  then show "n div 262144 mod 64 = x div 4" unfolding d [symmetric] q using b by simp
qed

lemma b64_vals:
  assumes "x < 256" "y < 256" "z < 256"
  shows "b64_val (b64_sym 18 (b64_group x y z)) = Some (x div 4)"
    "b64_val (b64_sym 12 (b64_group x y z)) = Some (x mod 4 * 16 + y div 16)"
    "b64_val (b64_sym 6 (b64_group x y z)) = Some (y mod 16 * 4 + z div 64)"
    "b64_val (b64_sym 0 (b64_group x y z)) = Some (z mod 64)"
proof -
  note s = sym_bytes [OF assms b64_group_eq [OF assms(2,3)]]
  have sym: "b64_val (b64_sym k n) = Some (n div 2 ^ k mod 64)" for k n
    by (simp add: b64_sym_eq b64_val_table)
  show "b64_val (b64_sym 18 (b64_group x y z)) = Some (x div 4)"
    "b64_val (b64_sym 12 (b64_group x y z)) = Some (x mod 4 * 16 + y div 16)"
    "b64_val (b64_sym 6 (b64_group x y z)) = Some (y mod 16 * 4 + z div 64)"
    "b64_val (b64_sym 0 (b64_group x y z)) = Some (z mod 64)"
    using s by (simp_all add: sym)
qed

lemma b64_bytes:
  assumes "y < 256" "z < (256::nat)"
  shows "x div 4 * 4 + (x mod 4 * 16 + y div 16) div 16 = x"
    "(x mod 4 * 16 + y div 16) mod 16 * 16 + (y mod 16 * 4 + z div 64) div 4 = y"
    "(y mod 16 * 4 + z div 64) mod 4 * 64 + z mod 64 = z"
proof -
  have "y div 16 < 16" "z div 64 < 4" using assms by auto
  then show "x div 4 * 4 + (x mod 4 * 16 + y div 16) div 16 = x"
    "(x mod 4 * 16 + y div 16) mod 16 * 16 + (y mod 16 * 4 + z div 64) div 4 = y"
    "(y mod 16 * 4 + z div 64) mod 4 * 64 + z mod 64 = z"
    by simp_all
qed

lemma b64_dec_b64: "b64_dec (b64 s) = Some s"
proof (induction s rule: b64.induct)
  case (2 x)
  note v = b64_vals [of "ord x" 0 0, OF ord_bound] and b = b64_bytes(1) [of 0 0 "ord x"]
  from v(1,2) b show ?case by (simp add: b64_val_pad Let_def)
next
  case (3 x y)
  note v = b64_vals [of "ord x" "ord y" 0, OF ord_bound ord_bound]
    and b = b64_bytes(1,2) [of "ord y" 0 "ord x", OF ord_bound]
  from v(1-3) b show ?case by (simp add: b64_val_pad Let_def)
next
  case (4 x y z s)
  note v = b64_vals [of "ord x" "ord y" "ord z", OF ord_bound ord_bound ord_bound]
    and b = b64_bytes(1,2) [of "ord y" "ord z" "ord x", OF ord_bound ord_bound]
      b64_bytes(3) [of "ord y" "ord z", OF ord_bound ord_bound]
  show ?case
    unfolding b64.simps Let_def append.simps b64_dec.simps v b prod.case option.case
    using 4 by simp
qed simp

interpretation b64: codec b64 b64_dec "\<lambda>s. True"
  by unfold_locales (simp add: b64_dec_b64)

lemma b64_length: "length (b64 s) = 4 * ((length s + 2) div 3)"
proof (induction s rule: b64.induct)
  case (4 x y z s)
  have "(length (x # y # z # s) + 2) div 3 = Suc ((length s + 2) div 3)" by simp
  with 4 show ?case by (simp add: Let_def)
qed (simp_all add: Let_def)

section \<open>Minted ids\<close>

definition hex_byte :: "char \<Rightarrow> string" where
  "hex_byte c = pad0 2 (show_hex (ord c))"

text \<open>The counter is a \<^verbatim>\<open>u64\<close> that \<^verbatim>\<open>fetch_add\<close> wraps; \<open>tail\<close> is what was read from the system's
  random source (eight zero bytes when that fails).\<close>

definition mint_id :: "string \<Rightarrow> nat \<Rightarrow> string \<Rightarrow> string \<times> nat" where
  "mint_id pre counter tail =
     (pre @ show_nat counter @ ''-'' @ concat (map hex_byte tail), (counter + 1) mod 2 ^ 64)"

lemma digits_dash_inject:
  assumes "list_all is_digit a" "list_all is_digit b" "a @ CHR ''-'' # r = b @ CHR ''-'' # t"
  shows "a = b"
proof -
  have "takeWhile is_digit (xs @ CHR ''-'' # ys) = xs" if "list_all is_digit xs" for xs ys
    using that by (induction xs) (auto simp: is_digit_def)
  with assms show ?thesis by metis
qed

section \<open>SDK values\<close>

text \<open>A \<^verbatim>\<open>serde_json\<close> value as the SDK hands it over; a number is given by the text it prints.\<close>

datatype jvalue = VNull | VBool bool | VNumber string | VString string | VArray "jvalue list"
  | VObject "(string \<times> jvalue) list"

fun from_value :: "jvalue \<Rightarrow> J" where
  "from_value VNull = JNull"
| "from_value (VBool b) = JBool b"
| "from_value (VNumber n) = JNum n"
| "from_value (VString s) = JStr s"
| "from_value (VArray items) = JArr (map from_value items)"
| "from_value (VObject fs) = JObj (map (\<lambda>(k, v). (k, from_value v)) fs)"

section \<open>Properties\<close>

text \<open>the Base64 text the adapter puts into image blocks decodes, by RFC 4648, to exactly the
  encoded bytes, and has the padded length.\<close>

theorem b64_roundtrip: "b64_dec (b64 s) = Some s \<and> length (b64 s) = 4 * ((length s + 2) div 3)"
  using b64.dec_enc b64_length by simp

text \<open>ids minted with one prefix at different counter values differ, whatever the random tails
  are, so an id is not repeated before the 64-bit counter wraps.\<close>

theorem mint_id_unique:
  assumes "m \<noteq> n"
  shows "fst (mint_id pre m t) \<noteq> fst (mint_id pre n u)"
  using assms digits_dash_inject [OF show_nat_digits [of m] show_nat_digits [of n]]
  by (auto simp: mint_id_def)

theorem mint_id_unique_witness:
  "fst (mint_id ''term'' 7 (replicate 8 (CHR 0x00))) \<noteq> fst (mint_id ''term'' 8 (replicate 8 (CHR 0x00)))"
  by (rule mint_id_unique) simp

end
