(* ===== verification/Sha256.thy ===== *)
theory Sha256
  imports Codec "HOL-Library.Word"
begin

text \<open>
  SHA-256 as \<^verbatim>\<open>src/sha256.rs\<close> computes it, on 32-bit words with wrap-around: one message schedule
  array reused for every block and updated in place, eight rotating registers, and the padding
  loop. The reference is the functional definition of FIPS 180-4 (schedule and padding by their
  recurrences); the theorem is that the code computes that function and its length.
\<close>

type_synonym u32 = "32 word"

definition sha_K :: "u32 list" where
  "sha_K =
    [0x428A2F98, 0x71374491, 0xB5C0FBCF, 0xE9B5DBA5, 0x3956C25B, 0x59F111F1, 0x923F82A4, 0xAB1C5ED5,
     0xD807AA98, 0x12835B01, 0x243185BE, 0x550C7DC3, 0x72BE5D74, 0x80DEB1FE, 0x9BDC06A7, 0xC19BF174,
     0xE49B69C1, 0xEFBE4786, 0x0FC19DC6, 0x240CA1CC, 0x2DE92C6F, 0x4A7484AA, 0x5CB0A9DC, 0x76F988DA,
     0x983E5152, 0xA831C66D, 0xB00327C8, 0xBF597FC7, 0xC6E00BF3, 0xD5A79147, 0x06CA6351, 0x14292967,
     0x27B70A85, 0x2E1B2138, 0x4D2C6DFC, 0x53380D13, 0x650A7354, 0x766A0ABB, 0x81C2C92E, 0x92722C85,
     0xA2BFE8A1, 0xA81A664B, 0xC24B8B70, 0xC76C51A3, 0xD192E819, 0xD6990624, 0xF40E3585, 0x106AA070,
     0x19A4C116, 0x1E376C08, 0x2748774C, 0x34B0BCB5, 0x391C0CB3, 0x4ED8AA4A, 0x5B9CCA4F, 0x682E6FF3,
     0x748F82EE, 0x78A5636F, 0x84C87814, 0x8CC70208, 0x90BEFFFA, 0xA4506CEB, 0xBEF9A3F7, 0xC67178F2]"

definition sha_H0 :: "u32 list" where
  "sha_H0 = [0x6A09E667, 0xBB67AE85, 0x3C6EF372, 0xA54FF53A, 0x510E527F, 0x9B05688C, 0x1F83D9AB, 0x5BE0CD19]"

text \<open>\<^verbatim>\<open>u32::from_be_bytes\<close>, \<^verbatim>\<open>u32::to_be_bytes\<close> and \<^verbatim>\<open>u64::to_be_bytes\<close>.\<close>

definition from_be_bytes :: "char \<Rightarrow> char \<Rightarrow> char \<Rightarrow> char \<Rightarrow> u32" where
  "from_be_bytes a b c d = of_nat (((ord a * 256 + ord b) * 256 + ord c) * 256 + ord d)"

fun be_bytes :: "nat \<Rightarrow> nat \<Rightarrow> string" where
  "be_bytes 0 n = []"
| "be_bytes (Suc k) n = be_bytes k (n div 256) @ [char_of (n mod 256)]"

section \<open>The code\<close>

text \<open>The loop \<^verbatim>\<open>while msg.len() % 64 != 56 { msg.push(0) }\<close>; \<open>pad_left\<close> counts its turns.\<close>

definition pad_left :: "nat \<Rightarrow> nat" where
  "pad_left n = (let r = n mod 64 in if r \<le> 56 then 56 - r else 120 - r)"

lemma pad_left_Suc: "n mod 64 \<noteq> 56 \<Longrightarrow> pad_left n = Suc (pad_left (Suc n))"
  by (auto simp: pad_left_def Let_def mod_Suc split: if_splits)

function pad_zeros :: "string \<Rightarrow> string" where
  "pad_zeros msg = (if length msg mod 64 \<noteq> 56 then pad_zeros (msg @ [CHR 0x00]) else msg)"
  by pat_completeness auto
termination
  by (relation "measure (\<lambda>msg. pad_left (length msg))") (simp_all add: pad_left_Suc)

declare pad_zeros.simps [simp del]

definition sha_pad :: "string \<Rightarrow> string" where
  "sha_pad data = pad_zeros (data @ [CHR 0x80]) @ be_bytes 8 (length data * 8 mod 2 ^ 64)"

definition load_block :: "string \<Rightarrow> u32 list \<Rightarrow> u32 list" where
  "load_block block w =
     foldl (\<lambda>w i. w[i := from_be_bytes (block ! (i * 4)) (block ! (i * 4 + 1))
       (block ! (i * 4 + 2)) (block ! (i * 4 + 3))]) w [0..<16]"

definition extend_step :: "u32 list \<Rightarrow> nat \<Rightarrow> u32 list" where
  "extend_step w i =
     (let s0 = word_rotr 7 (w ! (i - 15)) XOR word_rotr 18 (w ! (i - 15)) XOR drop_bit 3 (w ! (i - 15));
          s1 = word_rotr 17 (w ! (i - 2)) XOR word_rotr 19 (w ! (i - 2)) XOR drop_bit 10 (w ! (i - 2))
      in w[i := w ! (i - 16) + s0 + w ! (i - 7) + s1])"

definition extend_schedule :: "u32 list \<Rightarrow> u32 list" where
  "extend_schedule w = foldl extend_step w [16..<64]"

type_synonym regs = "u32 \<times> u32 \<times> u32 \<times> u32 \<times> u32 \<times> u32 \<times> u32 \<times> u32"

fun sha_round :: "u32 list \<Rightarrow> regs \<Rightarrow> nat \<Rightarrow> regs" where
  "sha_round w (a, b, c, d, e, f, g, hh) i =
     (let s1 = word_rotr 6 e XOR word_rotr 11 e XOR word_rotr 25 e;
          ch = (e AND f) XOR ((NOT e) AND g);
          temp1 = hh + s1 + ch + sha_K ! i + w ! i;
          s0 = word_rotr 2 a XOR word_rotr 13 a XOR word_rotr 22 a;
          maj = (a AND b) XOR (a AND c) XOR (b AND c);
          temp2 = s0 + maj
      in (temp1 + temp2, a, b, c, d + temp1, e, f, g))"

fun regs_list :: "regs \<Rightarrow> u32 list" where
  "regs_list (a, b, c, d, e, f, g, hh) = [a, b, c, d, e, f, g, hh]"

definition list_regs :: "u32 list \<Rightarrow> regs" where
  "list_regs h = (h ! 0, h ! 1, h ! 2, h ! 3, h ! 4, h ! 5, h ! 6, h ! 7)"

text \<open>One turn of the loop over the blocks: the state is the hash value and the schedule array.\<close>

fun sha_block :: "u32 list \<times> u32 list \<Rightarrow> string \<Rightarrow> u32 list \<times> u32 list" where
  "sha_block (h, w0) block =
     (let w = extend_schedule (load_block block w0);
          r = foldl (sha_round w) (list_regs h) [0..<64]
      in (map2 (+) h (regs_list r), w))"

text \<open>\<^verbatim>\<open>as_chunks::<64>().0\<close>: the full blocks.\<close>

function blocks :: "string \<Rightarrow> string list" where
  "blocks s = (if length s < 64 then [] else take 64 s # blocks (drop 64 s))"
  by pat_completeness auto
termination
  by (relation "measure length") auto

declare blocks.simps [simp del]

definition digest :: "string \<Rightarrow> string" where
  "digest data =
     concat (map (\<lambda>x. be_bytes 4 (unat x))
       (fst (foldl sha_block (sha_H0, replicate 64 0) (blocks (sha_pad data)))))"

definition sha_hex :: "string \<Rightarrow> string" where
  "sha_hex data = concat (map hex_byte (digest data))"

definition air_fingerprint :: "string \<Rightarrow> string" where
  "air_fingerprint s = ''sha256:'' @ sha_hex s"

section \<open>FIPS 180-4\<close>

definition fips_Ch :: "u32 \<Rightarrow> u32 \<Rightarrow> u32 \<Rightarrow> u32" where
  "fips_Ch x y z = (x AND y) XOR (NOT x AND z)"

definition fips_Maj :: "u32 \<Rightarrow> u32 \<Rightarrow> u32 \<Rightarrow> u32" where
  "fips_Maj x y z = (x AND y) XOR (x AND z) XOR (y AND z)"

definition fips_S0 :: "u32 \<Rightarrow> u32" where
  "fips_S0 x = word_rotr 2 x XOR word_rotr 13 x XOR word_rotr 22 x"

definition fips_S1 :: "u32 \<Rightarrow> u32" where
  "fips_S1 x = word_rotr 6 x XOR word_rotr 11 x XOR word_rotr 25 x"

definition fips_s0 :: "u32 \<Rightarrow> u32" where
  "fips_s0 x = word_rotr 7 x XOR word_rotr 18 x XOR drop_bit 3 x"

definition fips_s1 :: "u32 \<Rightarrow> u32" where
  "fips_s1 x = word_rotr 17 x XOR word_rotr 19 x XOR drop_bit 10 x"

definition fips_M :: "string \<Rightarrow> nat \<Rightarrow> u32" where
  "fips_M block t = from_be_bytes (block ! (4 * t)) (block ! (4 * t + 1)) (block ! (4 * t + 2)) (block ! (4 * t + 3))"

fun fips_W :: "string \<Rightarrow> nat \<Rightarrow> u32" where
  "fips_W block t =
     (if t < 16 then fips_M block t
      else fips_s1 (fips_W block (t - 2)) + fips_W block (t - 7) + fips_s0 (fips_W block (t - 15))
           + fips_W block (t - 16))"

declare fips_W.simps [simp del]

fun fips_rounds :: "string \<Rightarrow> nat \<Rightarrow> regs \<Rightarrow> regs" where
  "fips_rounds block 0 r = r"
| "fips_rounds block (Suc t) r =
     (case fips_rounds block t r of
        (a, b, c, d, e, f, g, h) \<Rightarrow>
          let T1 = h + fips_S1 e + fips_Ch e f g + sha_K ! t + fips_W block t;
              T2 = fips_S0 a + fips_Maj a b c
          in (T1 + T2, a, b, c, d + T1, e, f, g))"

definition fips_compress :: "u32 list \<Rightarrow> string \<Rightarrow> u32 list" where
  "fips_compress h block = map2 (+) h (regs_list (fips_rounds block 64 (list_regs h)))"

text \<open>The message, the bit 1, as few zero bits as give 448 modulo 512, and the 64-bit length.\<close>

definition fips_pad :: "string \<Rightarrow> string" where
  "fips_pad data =
     data @ [CHR 0x80] @ replicate ((119 - length data mod 64) mod 64) (CHR 0x00)
       @ be_bytes 8 (8 * length data)"

definition fips_digest :: "string \<Rightarrow> string" where
  "fips_digest data =
     concat (map (\<lambda>x. be_bytes 4 (unat x)) (foldl fips_compress sha_H0 (blocks (fips_pad data))))"

section \<open>The code computes the standard's function\<close>

lemma pad_zeros_eq: "pad_zeros msg = msg @ replicate (pad_left (length msg)) (CHR 0x00)"
proof (induction msg rule: pad_zeros.induct)
  case (1 msg)
  show ?case
  proof (cases "length msg mod 64 = 56")
    case True
    then show ?thesis by (simp add: pad_zeros.simps pad_left_def)
  next
    case False
    with 1 have "pad_zeros msg = (msg @ [CHR 0x00]) @ replicate (pad_left (Suc (length msg))) (CHR 0x00)"
      by (subst pad_zeros.simps) simp
    then show ?thesis using pad_left_Suc [OF False] by simp
  qed
qed

lemma pad_left_fips: "pad_left (Suc n) = (119 - n mod 64) mod 64"
proof -
  define r where "r = n mod 64"
  have r: "r < 64" "Suc n mod 64 = (if r = 63 then 0 else Suc r)" by (simp_all add: r_def mod_Suc)
  show ?thesis
  proof (cases "r \<le> 55")
    case True
    then have "119 - r = 64 + (55 - r)" by simp
    then have "(119 - r) mod 64 = 55 - r" using True by (simp only: mod_add_self1) simp
    with True r(2) show ?thesis by (simp add: pad_left_def r_def [symmetric])
  next
    case False
    with r show ?thesis by (auto simp: pad_left_def r_def [symmetric])
  qed
qed

lemma sha_pad_fips: "length data * 8 < 2 ^ 64 \<Longrightarrow> sha_pad data = fips_pad data"
  by (simp add: sha_pad_def fips_pad_def pad_zeros_eq pad_left_fips mult.commute)

lemma foldl_update_nth:
  "i < length w \<Longrightarrow>
   foldl (\<lambda>w i. w[i := f i]) w [0..<n] ! i = (if i < n then f i else w ! i)"
proof (induction n)
  case (Suc n)
  have "length (foldl (\<lambda>w i. w[i := f i]) w [0..<n]) = length w" for n
    by (induction n) simp_all
  with Suc show ?case by (auto simp: nth_list_update less_Suc_eq)
qed simp

lemma foldl_update_length: "length (foldl (\<lambda>w i. w[i := f i]) w xs) = length w"
  by (induction xs arbitrary: w) simp_all

lemma extend_length: "length (foldl extend_step w xs) = length w"
  by (induction xs arbitrary: w) (simp_all add: extend_step_def Let_def)

lemma load_block_nth: "length w = 64 \<Longrightarrow> i < 16 \<Longrightarrow> load_block block w ! i = fips_M block i"
  by (simp add: load_block_def foldl_update_nth fips_M_def mult.commute)

lemma fips_W_ge: "16 \<le> t \<Longrightarrow> fips_W block t =
    fips_W block (t - 16) + fips_s0 (fips_W block (t - 15)) + fips_W block (t - 7) + fips_s1 (fips_W block (t - 2))"
  by (subst fips_W.simps) (simp add: add_ac)

lemma extend_prefix:
  assumes "length w = 64" "\<forall>i < 16. w ! i = fips_M block i" "n \<le> 48"
  shows "\<forall>i < 16 + n. foldl extend_step w [16..<16 + n] ! i = fips_W block i"
  using assms(3)
proof (induction n)
  case 0
  with assms(2) show ?case by (simp add: fips_W.simps)
next
  case (Suc n)
  let ?w = "foldl extend_step w [16..<16 + n]"
  from Suc have IH: "\<And>i. i < 16 + n \<Longrightarrow> ?w ! i = fips_W block i" by simp
  have len: "length ?w = 64" using assms(1) by (simp add: extend_length)
  have "extend_step ?w (16 + n) = ?w[16 + n := fips_W block (16 + n)]"
    using IH fips_W_ge [of "16 + n" block]
    by (simp add: extend_step_def Let_def fips_s0_def fips_s1_def)
  moreover have "[16..<16 + Suc n] = [16..<16 + n] @ [16 + n]"
    using upt_Suc_append [of 16 "16 + n"] by (simp only: add_Suc_right le_add1)
  ultimately have "foldl extend_step w [16..<16 + Suc n] = ?w[16 + n := fips_W block (16 + n)]"
    by (simp only: foldl_append foldl_Cons foldl_Nil)
  with len Suc.prems IH show ?case by (simp add: nth_list_update less_Suc_eq)
qed

lemma extend_schedule_length [simp]: "length (extend_schedule w) = length w"
  unfolding extend_schedule_def by (rule extend_length)

lemma load_block_length [simp]: "length (load_block block w) = length w"
  unfolding load_block_def by (rule foldl_update_length)

lemma schedule_nth:
  assumes "length w = 64" "i < 64"
  shows "extend_schedule (load_block block w) ! i = fips_W block i"
proof -
  have "\<forall>i < 16 + 48. foldl extend_step (load_block block w) [16..<16 + 48] ! i = fips_W block i"
    by (rule extend_prefix) (use assms(1) in \<open>simp_all add: load_block_nth\<close>)
  moreover have "16 + 48 = (64::nat)" by simp
  ultimately show ?thesis using assms(2) unfolding extend_schedule_def by metis
qed

lemma rounds_eq:
  assumes "length w = 64" "n \<le> 64"
  shows "foldl (sha_round (extend_schedule (load_block block w))) r [0..<n] = fips_rounds block n r"
  using assms(2)
proof (induction n)
  case (Suc n)
  then show ?case
    by (simp add: schedule_nth assms(1) fips_S0_def fips_S1_def fips_Ch_def fips_Maj_def Let_def split: prod.split)
qed simp

lemma sha_block_fips:
  "length w = 64 \<Longrightarrow> fst (sha_block (h, w) block) = fips_compress h block \<and>
   length (snd (sha_block (h, w) block)) = 64"
  using rounds_eq [of w 64 block "list_regs h"] by (simp add: fips_compress_def Let_def del: upt_rec_numeral)

lemma sha_blocks_fips:
  "length w = 64 \<Longrightarrow> fst (foldl sha_block (h, w) bs) = foldl fips_compress h bs"
proof (induction bs arbitrary: h w)
  case (Cons block bs)
  obtain h' w' where "sha_block (h, w) block = (h', w')" by fastforce
  with sha_block_fips [OF Cons.prems, of h block] Cons.IH show ?case by auto
qed simp

section \<open>Lengths\<close>

lemma regs_list_length [simp]: "length (regs_list r) = 8"
  by (cases r rule: regs_list.cases) simp

lemma compress_length: "length h = 8 \<Longrightarrow> length (foldl fips_compress h bs) = 8"
  by (induction bs arbitrary: h) (simp_all add: fips_compress_def)

lemma be_bytes_length [simp]: "length (be_bytes k n) = k"
  by (induction k n rule: be_bytes.induct) simp_all

lemma concat_length: "(\<And>x. length (f x) = k) \<Longrightarrow> length (concat (map f xs)) = k * length xs"
  by (induction xs) auto

lemma digest_length: "length (digest data) = 32"
  by (simp add: digest_def concat_length [of _ 4] sha_blocks_fips compress_length sha_H0_def)

lemma hex_byte_length: "length (hex_byte c) = 2"
proof -
  have "length (show_hex (ord c)) \<le> 2"
    using less_mult_imp_div_less [of "ord c" 16 16] ord_bound [of c]
    by (simp add: show_hex.simps [of "ord c"] show_hex.simps [of "ord c div 16"])
  then show ?thesis by (simp add: hex_byte_def pad0_def)
qed

section \<open>Properties\<close>

text \<open>C24: for every message shorter than 2^64 bits the code's digest is the SHA-256 of FIPS 180-4,
  although it reuses one schedule array for all blocks.\<close>

theorem digest_is_sha256:
  assumes "length data * 8 < 2 ^ 64"
  shows "digest data = fips_digest data"
  using sha_pad_fips [OF assms] by (simp add: digest_def fips_digest_def sha_blocks_fips)

theorem digest_is_sha256_witness: "digest ''abc'' = fips_digest ''abc''"
  by (rule digest_is_sha256) simp

text \<open>a digest always has 32 bytes and an AIR fingerprint is \<^verbatim>\<open>sha256:\<close> followed by 64
  hexadecimal digits.\<close>

theorem air_fingerprint_shape:
  "length (digest (s)) = 32 \<and> starts_with (air_fingerprint s) ''sha256:'' \<and> length (air_fingerprint s) = 71"
  by (simp add: air_fingerprint_def sha_hex_def digest_length concat_length [of _ 2] hex_byte_length starts_with_def)

end
