(* ===== verification/Diff.thy ===== *)
theory Diff
  imports Json_Sound
begin

text \<open>
  ACP v2 diff content from a stored tool patch (\<^verbatim>\<open>src/diff.rs\<close>): the validation of a hunk, git's
  quoting of a path, the range of a hunk header and the assembly of the patch text. The path
  quoting is checked against a reader of git's C-style quotes.
\<close>

definition WHOLE_FILE_WRITERS :: "string list" where
  "WHOLE_FILE_WRITERS = [''write_file'', ''create_file'']"

record hunk_t =
  old_start :: nat
  old_lines :: nat
  new_start :: nat
  new_lines :: nat
  hunk_lines :: "string list"

definition newline :: char where
  "newline = CHR 0x0A"

definition hunk_line :: "J \<Rightarrow> string option" where
  "hunk_line j =
     (case as_str j of
        None \<Rightarrow> None
      | Some line \<Rightarrow>
          if line = [] \<or> hd line \<notin> {CHR '' '', CHR ''+'', CHR ''-''} \<or> newline \<in> set line
          then None else Some line)"

text \<open>Mapping a partial function over a list: \<^verbatim>\<open>collect::<Option<Vec<_>>>()\<close>.\<close>

fun collect :: "('a \<Rightarrow> 'b option) \<Rightarrow> 'a list \<Rightarrow> 'b list option" where
  "collect f [] = Some []"
| "collect f (x # xs) =
     (case f x of None \<Rightarrow> None | Some y \<Rightarrow> map_option ((#) y) (collect f xs))"

definition hunk :: "J \<Rightarrow> hunk_t option" where
  "hunk v =
     (case jget v ''lines'' of
        Some (JArr raw) \<Rightarrow>
          (case collect hunk_line raw of
             None \<Rightarrow> None
           | Some ls \<Rightarrow>
               (case (u64_at v ''oldStart'', u64_at v ''oldLines'', u64_at v ''newStart'', u64_at v ''newLines'') of
                  (Some os, Some ol, Some ns, Some nl) \<Rightarrow>
                    if length (filter (\<lambda>l. \<not> starts_with l ''+'') ls) = ol \<and>
                       length (filter (\<lambda>l. \<not> starts_with l ''-'') ls) = nl
                    then Some \<lparr>old_start = os, old_lines = ol, new_start = ns, new_lines = nl,
                      hunk_lines = ls\<rparr>
                    else None
                | _ \<Rightarrow> None))
      | _ \<Rightarrow> None)"

definition unusual_byte :: "char \<Rightarrow> bool" where
  "unusual_byte b \<longleftrightarrow> ord b < 0x20 \<or> ord b = 0x7F \<or> 0x80 \<le> ord b \<or> b = CHR 0x22 \<or> b = CHR 0x5C"

text \<open>The format \<^verbatim>\<open>{:03o}\<close> of a byte.\<close>

definition octal3 :: "nat \<Rightarrow> string" where
  "octal3 n = [digit (n div 64), digit (n div 8 mod 8), digit (n mod 8)]"

definition git_quote_byte :: "char \<Rightarrow> string" where
  "git_quote_byte b =
     (if b = CHR 0x22 then [CHR 0x5C, CHR 0x22]
      else if b = CHR 0x5C then [CHR 0x5C, CHR 0x5C]
      else if b = CHR 0x09 then [CHR 0x5C, CHR ''t'']
      else if b = CHR 0x0A then [CHR 0x5C, CHR ''n'']
      else if b = CHR 0x0D then [CHR 0x5C, CHR ''r'']
      else if 0x20 \<le> ord b \<and> ord b \<le> 0x7E then [b]
      else CHR 0x5C # octal3 (ord b))"

definition git_path :: "string \<Rightarrow> string" where
  "git_path path =
     (if \<not> list_ex unusual_byte path then path
      else [CHR 0x22] @ concat (map git_quote_byte path) @ [CHR 0x22])"

definition range :: "nat \<Rightarrow> nat \<Rightarrow> string" where
  "range start n = show_nat (if n = 0 then start - 1 else start) @ '','' @ show_nat n"

record diff_t =
  diff_changes :: "(bool \<times> string) list"
  diff_patch :: string

type_synonym file_patch = "bool \<times> string \<times> hunk_t list"

definition hunk_text :: "hunk_t \<Rightarrow> string" where
  "hunk_text h =
     ''@@ -'' @ range (old_start h) (old_lines h) @ '' +'' @ range (new_start h) (new_lines h) @ '' @@'' @ [newline]
       @ concat (map (\<lambda>l. l @ [newline]) (hunk_lines h))"

definition file_text :: "file_patch \<Rightarrow> string" where
  "file_text f =
     (case f of
        (added, path, hunks) \<Rightarrow>
          let shown = git_path path in
          ''diff --git '' @ shown @ '' '' @ shown @ [newline]
            @ (if added then ''--- /dev/null'' @ [newline] @ ''+++ '' @ shown @ [newline]
               else ''--- '' @ shown @ [newline] @ ''+++ '' @ shown @ [newline])
            @ concat (map hunk_text hunks))"

text \<open>The loop over the files of the document: an invalid file ends it with no diff, a file
  without hunks is skipped.\<close>

fun diff_files :: "bool \<Rightarrow> J list \<Rightarrow> (bool \<times> string) list \<Rightarrow> string \<Rightarrow> ((bool \<times> string) list \<times> string) option" where
  "diff_files creates [] changes patch = Some (changes, patch)"
| "diff_files creates (file # files) changes patch =
     (case str_at file ''path'' of
        None \<Rightarrow> None
      | Some path \<Rightarrow>
          if \<not> starts_with path ''/'' \<or> newline \<in> set path then None
          else
            (case jget file ''hunks'' of
               Some (JArr raw) \<Rightarrow>
                 (case collect hunk raw of
                    None \<Rightarrow> None
                  | Some hunks \<Rightarrow>
                      if hunks = [] then diff_files creates files changes patch
                      else
                        let added = creates \<and> list_all (\<lambda>h. old_lines h = 0) hunks in
                        diff_files creates files (changes @ [(added, path)])
                          (patch @ file_text (added, path, hunks)))
             | _ \<Rightarrow> None))"

definition acp_v2_diff :: "string \<Rightarrow> J \<Rightarrow> diff_t option" where
  "acp_v2_diff tool document =
     (case jget document ''files'' of
        Some (JArr files) \<Rightarrow>
          (case diff_files (to_ascii_lowercase tool \<in> set WHOLE_FILE_WRITERS) files [] [] of
             None \<Rightarrow> None
           | Some (changes, patch) \<Rightarrow>
               if changes = [] then None else Some \<lparr>diff_changes = changes, diff_patch = patch\<rparr>)
      | _ \<Rightarrow> None)"

section \<open>Reading a quoted path\<close>

text \<open>A reader of git's path syntax: a name in double quotes with backslash escapes, or a name
  that is not quoted.\<close>

fun git_unescape :: "string \<Rightarrow> string option" where
  "git_unescape [] = None"
| "git_unescape [c] = (if c = CHR 0x22 then Some [] else None)"
| "git_unescape (c # d # s) =
     (if c = CHR 0x22 then None
      else if c \<noteq> CHR 0x5C then map_option ((#) c) (git_unescape (d # s))
      else if d = CHR 0x22 \<or> d = CHR 0x5C then map_option ((#) d) (git_unescape s)
      else if d = CHR ''t'' then map_option ((#) (CHR 0x09)) (git_unescape s)
      else if d = CHR ''n'' then map_option ((#) (CHR 0x0A)) (git_unescape s)
      else if d = CHR ''r'' then map_option ((#) (CHR 0x0D)) (git_unescape s)
      else
        (case s of
           e # f # t \<Rightarrow>
             map_option ((#) (char_of ((ord d - 48) * 64 + (ord e - 48) * 8 + (ord f - 48)))) (git_unescape t)
         | _ \<Rightarrow> None))"

definition git_unquote :: "string \<Rightarrow> string option" where
  "git_unquote s = (case s of c # t \<Rightarrow> if c = CHR 0x22 then git_unescape t else Some s | [] \<Rightarrow> Some [])"

lemma ord_div_64: "ord b div 64 < 4"
  using less_mult_imp_div_less [of "ord b" 4 64] ord_bound [of b] by simp

lemma unescape_byte:
  assumes "t \<noteq> []"
  shows "git_unescape (git_quote_byte b @ t) = map_option ((#) b) (git_unescape t)"
proof -
  obtain u us where t: "t = u # us" using assms by (cases t) auto
  define x y z where d: "x = ord b div 64" "y = ord b div 8 mod 8" "z = ord b mod 8"
  have x: "x < 4" "y < 8" "z < 8" using ord_div_64 [of b] unfolding d by auto
  have o: "ord (digit n) = 48 + n" if "n < 8" for n using that by simp
  have ne: "digit n \<noteq> CHR 0x22" "digit n \<noteq> CHR 0x5C" "digit n \<noteq> CHR ''t''" "digit n \<noteq> CHR ''n''"
    "digit n \<noteq> CHR ''r''" if "n < 8" for n
    using o [OF that] that by (auto dest!: arg_cong [of _ _ ord])
  have "ord b div 64 = ord b div 8 div 8" using div_mult2_eq [of "ord b" 8 8] by simp
  then have "x * 64 + y * 8 + z = ord b"
    unfolding d using div_mult_mod_eq [of "ord b" 8] div_mult_mod_eq [of "ord b div 8" 8] by linarith
  moreover have "x < 8" using x by simp
  ultimately have "git_unescape ((CHR 0x5C # octal3 (ord b)) @ t) = map_option ((#) b) (git_unescape t)"
    unfolding octal3_def d [symmetric] using x o ne by simp
  moreover have "git_unescape (b # t) = map_option ((#) b) (git_unescape t)"
    if "b \<noteq> CHR 0x22" "b \<noteq> CHR 0x5C" using that t by simp
  ultimately show ?thesis by (auto simp: git_quote_byte_def t)
qed

lemma unescape_path: "git_unescape (concat (map git_quote_byte path) @ [CHR 0x22]) = Some path"
  by (induction path) (simp_all add: unescape_byte)

lemma git_unquote_path: "git_unquote (git_path path) = Some path"
proof (cases "list_ex unusual_byte path")
  case True
  then show ?thesis by (simp add: git_path_def git_unquote_def unescape_path)
next
  case False
  then have "path = [] \<or> hd path \<noteq> CHR 0x22" by (cases path) (auto simp: unusual_byte_def)
  with False show ?thesis by (cases path) (auto simp: git_path_def git_unquote_def)
qed

interpretation git_path: codec git_path git_unquote "\<lambda>p. True"
  by unfold_locales (simp add: git_unquote_path)

lemma quote_byte_printable: "c \<in> set (git_quote_byte b) \<Longrightarrow> 0x20 \<le> ord c \<and> ord c \<le> 0x7E"
proof -
  have "ord b div 64 < 10" using ord_div_64 [of b] by simp
  moreover have "ord b div 8 mod 8 < 10" "ord b mod 8 < 10" by (rule less_trans [of _ 8], simp_all)+
  ultimately show "c \<in> set (git_quote_byte b) \<Longrightarrow> ?thesis"
    by (auto simp: git_quote_byte_def octal3_def split: if_splits)
qed

section \<open>What an accepted patch looks like\<close>

definition valid_hunk :: "hunk_t \<Rightarrow> bool" where
  "valid_hunk h \<longleftrightarrow>
     old_lines h = length (filter (\<lambda>l. hd l \<noteq> CHR ''+'') (hunk_lines h)) \<and>
     new_lines h = length (filter (\<lambda>l. hd l \<noteq> CHR ''-'') (hunk_lines h)) \<and>
     (\<forall>l \<in> set (hunk_lines h). l \<noteq> [] \<and> hd l \<in> {CHR '' '', CHR ''+'', CHR ''-''} \<and> newline \<notin> set l)"

definition valid_file :: "bool \<Rightarrow> file_patch \<Rightarrow> bool" where
  "valid_file creates f \<longleftrightarrow>
     (case f of (added, path, hunks) \<Rightarrow>
        starts_with path ''/'' \<and> newline \<notin> set path \<and> hunks \<noteq> [] \<and> (\<forall>h \<in> set hunks. valid_hunk h) \<and>
        (added \<longleftrightarrow> creates \<and> (\<forall>h \<in> set hunks. old_lines h = 0)))"

lemma collect_set: "collect f xs = Some ys \<Longrightarrow> y \<in> set ys \<Longrightarrow> \<exists>x \<in> set xs. f x = Some y"
  by (induction xs arbitrary: ys) (auto split: option.splits)

lemma hunk_valid: "hunk v = Some h \<Longrightarrow> valid_hunk h"
proof -
  assume "hunk v = Some h"
  then obtain raw ls where ls: "collect hunk_line raw = Some ls" "hunk_lines h = ls"
    and n: "length (filter (\<lambda>l. \<not> starts_with l ''+'') ls) = old_lines h"
      "length (filter (\<lambda>l. \<not> starts_with l ''-'') ls) = new_lines h"
    by (auto simp: hunk_def split: option.splits J.splits if_splits)
  have l: "l \<noteq> [] \<and> hd l \<in> {CHR '' '', CHR ''+'', CHR ''-''} \<and> newline \<notin> set l" if "l \<in> set ls" for l
    using collect_set [OF ls(1) that] by (auto simp: hunk_line_def split: option.splits if_splits)
  have "filter (\<lambda>l. \<not> starts_with l [c]) ls = filter (\<lambda>l. hd l \<noteq> c) ls" for c
    by (rule filter_cong [OF refl]) (use l in \<open>force simp: starts_with_def prefix_def neq_Nil_conv\<close>)
  with l n ls(2) show ?thesis by (auto simp: valid_hunk_def)
qed

lemma diff_files_sound:
  "diff_files creates files changes patch = Some (changes', patch') \<Longrightarrow>
   \<exists>fs. (\<forall>f \<in> set fs. valid_file creates f) \<and> changes' = changes @ map (\<lambda>(a, p, h). (a, p)) fs \<and>
     patch' = patch @ concat (map file_text fs)"
proof (induction creates files changes patch rule: diff_files.induct)
  case (1 creates changes patch)
  then show ?case by (auto intro: exI [of _ "[]"])
next
  case (2 creates fl files changes patch)
  from "2.prems" obtain path raw hunks where
    p: "str_at fl ''path'' = Some path" "starts_with path ''/''" "newline \<notin> set path" and
    h: "jget fl ''hunks'' = Some (JArr raw)" "collect hunk raw = Some hunks"
    by (auto split: option.splits J.splits if_splits)
  show ?case
  proof (cases "hunks = []")
    case True
    with "2.prems" "2.IH"(1) [OF p(1) _ h(1) refl h(2) True] p h show ?thesis by auto
  next
    case False
    let ?a = "creates \<and> list_all (\<lambda>h. old_lines h = 0) hunks"
    let ?f = "(?a, path, hunks)"
    have "valid_file creates ?f"
      using False p(2,3) collect_set [OF h(2)] hunk_valid by (fastforce simp: valid_file_def list_all_iff)
    moreover from "2.prems" "2.IH"(2) [OF p(1) _ h(1) refl h(2) False refl] p h False obtain fs where
      "\<forall>f \<in> set fs. valid_file creates f" "changes' = (changes @ [(?a, path)]) @ map (\<lambda>(a, p, h). (a, p)) fs"
      "patch' = (patch @ file_text ?f) @ concat (map file_text fs)"
      by (auto simp: Let_def)
    ultimately show ?thesis by (intro exI [of _ "?f # fs"]) simp
  qed
qed

section \<open>Properties\<close>

text \<open>a diff the adapter shows is the rendering of at least one file, every file has an absolute
  one-line path and hunks whose header counts are exactly the numbers of old and new lines they
  carry, and a file is reported as added only for a whole-file writer and without old lines.\<close>

theorem acp_v2_diff_valid:
  assumes "acp_v2_diff tool document = Some d"
  shows "\<exists>fs. fs \<noteq> [] \<and> diff_changes d = map (\<lambda>(a, p, h). (a, p)) fs \<and>
    diff_patch d = concat (map file_text fs) \<and>
    (\<forall>f \<in> set fs. valid_file (to_ascii_lowercase tool \<in> set WHOLE_FILE_WRITERS) f)"
proof -
  from assms obtain files changes patch where
    "diff_files (to_ascii_lowercase tool \<in> set WHOLE_FILE_WRITERS) files [] [] = Some (changes, patch)"
    "changes \<noteq> []" "d = \<lparr>diff_changes = changes, diff_patch = patch\<rparr>"
    by (auto simp: acp_v2_diff_def split: option.splits J.splits if_splits)
  with diff_files_sound [OF this(1)] show ?thesis by force
qed

definition demo_patch :: J where
  "demo_patch = JObj [(''files'', JArr [JObj [(''path'', JStr ''/a''), (''hunks'', JArr [JObj
     [(''oldStart'', JNum ''1''), (''oldLines'', JNum ''1''), (''newStart'', JNum ''1''),
      (''newLines'', JNum ''1''), (''lines'', JArr [JStr ''-x'', JStr ''+y''])]])]])]"

theorem acp_v2_diff_valid_witness:
  "\<exists>fs. fs \<noteq> [] \<and> [(False, ''/a'')] = map (\<lambda>(a, p, h). (a, p)) fs \<and> (\<forall>f \<in> set fs. valid_file False f)"
proof -
  have tool: "to_ascii_lowercase ''edit'' \<notin> set WHOLE_FILE_WRITERS" by code_simp
  have "map_option diff_changes (acp_v2_diff ''edit'' demo_patch) = Some [(False, ''/a'')]"
    using tool by (simp add: acp_v2_diff_def demo_patch_def str_at_def u64_at_def hunk_def hunk_line_def
      parse_u64_def strip_prefix_def is_digit_def dec_value_def starts_with_def newline_def Let_def)
  then obtain d where d: "acp_v2_diff ''edit'' demo_patch = Some d" "diff_changes d = [(False, ''/a'')]"
    by auto
  with tool acp_v2_diff_valid [OF d(1)] show ?thesis by auto
qed

text \<open>the path written into a patch header reads back, with git's unquoting rules, as the
  path itself, and it contains printable ASCII only, so no path can break a header line.\<close>

theorem git_path_roundtrip:
  "git_unquote (git_path path) = Some path \<and> list_all (\<lambda>c. 0x20 \<le> ord c \<and> ord c \<le> 0x7E) (git_path path)"
proof
  show "git_unquote (git_path path) = Some path" using git_path.dec_enc by simp
  show "list_all (\<lambda>c. 0x20 \<le> ord c \<and> ord c \<le> 0x7E) (git_path path)"
    using quote_byte_printable
    by (auto simp: git_path_def list_all_iff list_ex_iff unusual_byte_def)
qed

end
