(* ===== verification/Out.thy ===== *)
theory Out
  imports Codec Diff
begin

text \<open>
  What the adapter sends the editor (\<^verbatim>\<open>src/out.rs\<close>). The SDK's schema values are data: a \<open>notif\<close> is a
  \<^verbatim>\<open>session/update\<close> of ACP v1 or v2, or an untyped one, and \<open>update\<close> has one constructor per schema
  constructor the code calls, with the fields the code sets. The text of \<^verbatim>\<open>_meta\<close> goes through
  \<^verbatim>\<open>serde_json::from_str\<close>, which is not part of the repository: it is the argument \<open>serde\<close>.
\<close>

section \<open>Extension metadata\<close>

type_synonym meta_t = "(string \<times> jvalue) list"
type_synonym serde_t = "string \<Rightarrow> jvalue option"

definition meta :: "serde_t \<Rightarrow> string \<Rightarrow> meta_t option" where
  "meta serde object =
     (case serde object of
        Some (VObject fs) \<Rightarrow> if fs = [] then None else Some fs
      | _ \<Rightarrow> None)"

definition muse_meta :: "serde_t \<Rightarrow> string \<Rightarrow> meta_t option" where
  "muse_meta serde members =
     (if members = [] then None
      else meta serde (''{'' @ [CHR 0x22] @ ''muse'' @ [CHR 0x22] @ '':{'' @ members @ ''}}''))"

definition json_value :: "serde_t \<Rightarrow> string \<Rightarrow> jvalue" where
  "json_value serde s = unwrap_or (serde s) VNull"

section \<open>Schema values\<close>

datatype tool_kind_t = KRead | KEdit | KDelete | KMove | KSearch | KExecute | KThink | KFetch
  | KSwitchMode | KOther

datatype status_t = SPending | SInProgress | SCompleted | SFailed | SOther string

datatype wire_content = WText string | WTerminal string
  | WFileDiff string "string option" string | WPatch "(bool \<times> string) list" string

record tool_call =
  w_id :: string
  w_name :: "string option"
  w_title :: "string option"
  w_kind :: "tool_kind_t option"
  w_status :: "status_t option"
  w_content :: "wire_content list option"
  w_locations :: "(string \<times> nat option) list option"
  w_raw_input :: "jvalue option"
  w_meta :: "meta_t option"

datatype compaction_status_t = CInProgress | CCompleted | CFailed | CCancelled | COther string

datatype child_state = Running | Completed | Failed | Cancelled | Disconnected

datatype state_update = StRunning | StRequiresAction | StIdle "string option" | StUnknown

text \<open>A field that may be absent, null or set.\<close>

datatype 'a maybe_undefined = Undefined | Null | Value 'a

record subagent_wire =
  sw_id :: string
  sw_title :: "string option"
  sw_description :: "string option"
  sw_state :: "state_update option"
  sw_meta :: "meta_t option"

record command_wire =
  cw_name :: string
  cw_description :: string
  cw_hint :: "string option"
  cw_meta :: "meta_t option"

datatype update =
    AgentMessageChunk string "string option" "meta_t option"
  | AgentThoughtChunk string "string option" "meta_t option"
  | UserMessageChunk string "string option" "meta_t option"
  | UserMessage string "string list" "meta_t option"
  | AgentMessage string "string list" "meta_t option"
  | ToolCall tool_call
  | ToolCallUpdate tool_call
  | ToolCallContentChunk string string
  | CompactionUpdate string compaction_status_t "string option" "meta_t option"
  | SubagentUpdate subagent_wire
  | OtherUpdate string "(string \<times> jvalue) list"
  | SessionInfoUpdate "string maybe_undefined" "string option" "meta_t option"
  | TerminalOpened string string "string option"
  | TerminalExited string string "int option" "meta_t option" "meta_t option"
  | TerminalOutputChunk string string
  | AvailableCommandsUpdate "command_wire list"
  | StateUpdate state_update
  | PlanUpdate "string option" "(string \<times> status_t) list"
  | PlanRemoved string
  | Notice string string string
  | CurrentModeUpdate string

datatype notif = NoteV1 string update | NoteV2 string update | NoteExt string jvalue

fun note_sid :: "notif \<Rightarrow> string" where
  "note_sid (NoteV1 sid u) = sid"
| "note_sid (NoteV2 sid u) = sid"
| "note_sid (NoteExt sid v) = sid"

text \<open>The version-dependent choice of the constructor.\<close>

definition note_ver :: "nat \<Rightarrow> string \<Rightarrow> update \<Rightarrow> notif" where
  "note_ver ver sid u = (if ver = 2 then NoteV2 sid u else NoteV1 sid u)"

section \<open>Message chunks\<close>

datatype chunk_kind = Agent | Thought

definition out_chunk :: "string \<Rightarrow> nat \<Rightarrow> chunk_kind \<Rightarrow> string \<Rightarrow> string \<Rightarrow> meta_t option \<Rightarrow> notif" where
  "out_chunk sid ver which msg_id s m =
     (if ver = 2 then
        NoteV2 sid (case which of
          Agent \<Rightarrow> AgentMessageChunk s (Some msg_id) m
        | Thought \<Rightarrow> AgentThoughtChunk s (Some msg_id) m)
      else
        NoteV1 sid (case which of
          Agent \<Rightarrow> AgentMessageChunk s None m
        | Thought \<Rightarrow> AgentThoughtChunk s None m))"

section \<open>Cards\<close>

datatype card_content = Text string | Terminal string
  | FileDiff string "string option" string | PatchDiff diff_t

record card =
  c_id :: string
  c_name :: "string option"
  c_title :: "string option"
  c_kind :: "string option"
  c_status :: "string option"
  c_content :: "card_content list option"
  c_locations :: "(string \<times> nat option) list option"
  c_raw_input :: "jvalue option"
  c_meta :: "meta_t option"

definition card_new :: "string \<Rightarrow> card" where
  "card_new i = \<lparr>c_id = i, c_name = None, c_title = None, c_kind = None, c_status = None,
     c_content = None, c_locations = None, c_raw_input = None, c_meta = None\<rparr>"

definition kind_wire :: "string \<Rightarrow> tool_kind_t" where
  "kind_wire k =
     (if k = ''read'' then KRead else if k = ''edit'' then KEdit else if k = ''delete'' then KDelete
      else if k = ''move'' then KMove else if k = ''search'' then KSearch
      else if k = ''execute'' then KExecute else if k = ''think'' then KThink
      else if k = ''fetch'' then KFetch else if k = ''switch_mode'' then KSwitchMode else KOther)"

definition status_v1 :: "string \<Rightarrow> status_t" where
  "status_v1 s =
     (if s = ''pending'' then SPending else if s = ''completed'' then SCompleted
      else if s = ''failed'' then SFailed else SInProgress)"

definition status_v2 :: "string \<Rightarrow> status_t" where
  "status_v2 s =
     (if s = ''pending'' then SPending else if s = ''completed'' then SCompleted
      else if s = ''failed'' then SFailed else if s = ''in_progress'' then SInProgress else SOther s)"

fun content_v1 :: "card_content \<Rightarrow> wire_content option" where
  "content_v1 (Text s) = Some (WText s)"
| "content_v1 (Terminal i) = Some (WTerminal i)"
| "content_v1 (FileDiff path old new) = Some (WFileDiff path old new)"
| "content_v1 (PatchDiff d) = None"

fun content_v2 :: "card_content \<Rightarrow> wire_content option" where
  "content_v2 (Text s) = Some (WText s)"
| "content_v2 (Terminal i) = Some (WTerminal i)"
| "content_v2 (FileDiff path old new) = None"
| "content_v2 (PatchDiff d) = Some (WPatch (diff_changes d) (diff_patch d))"

definition update_v1 :: "card \<Rightarrow> tool_call" where
  "update_v1 c = \<lparr>w_id = c_id c, w_name = c_name c, w_title = c_title c,
     w_kind = map_option kind_wire (c_kind c), w_status = map_option status_v1 (c_status c),
     w_content = map_option (List.map_filter content_v1) (c_content c), w_locations = c_locations c,
     w_raw_input = c_raw_input c, w_meta = c_meta c\<rparr>"

definition update_v2 :: "card \<Rightarrow> tool_call" where
  "update_v2 c = \<lparr>w_id = c_id c, w_name = c_name c, w_title = c_title c,
     w_kind = map_option kind_wire (c_kind c), w_status = map_option status_v2 (c_status c),
     w_content = map_option (List.map_filter content_v2) (c_content c), w_locations = c_locations c,
     w_raw_input = c_raw_input c, w_meta = c_meta c\<rparr>"

text \<open>\<^verbatim>\<open>Card::note\<close>. A new ACP v1 card always has a title (empty when none is given).\<close>

definition card_note :: "card \<Rightarrow> string \<Rightarrow> nat \<Rightarrow> bool \<Rightarrow> notif" where
  "card_note c sid ver create =
     (if ver = 2 then NoteV2 sid (ToolCallUpdate (update_v2 c))
      else if \<not> create then NoteV1 sid (ToolCallUpdate (update_v1 c))
      else NoteV1 sid (ToolCall ((update_v1 c)\<lparr>w_title := Some (unwrap_or (c_title c) [])\<rparr>)))"

section \<open>Other updates\<close>

definition compaction_wire :: "string \<Rightarrow> compaction_status_t" where
  "compaction_wire s =
     (if s = ''in_progress'' then CInProgress else if s = ''completed'' then CCompleted
      else if s = ''failed'' then CFailed else if s = ''cancelled'' then CCancelled else COther s)"

definition out_compaction ::
  "string \<Rightarrow> nat \<Rightarrow> string \<Rightarrow> string \<Rightarrow> string option \<Rightarrow> meta_t option \<Rightarrow> notif" where
  "out_compaction sid ver i status err m =
     note_ver ver sid (CompactionUpdate i (compaction_wire status) err m)"

record subagent_t =
  sa_session_id :: string
  sa_title :: "string option"
  sa_description :: "string option"
  sa_state :: "child_state option"
  sa_meta :: "meta_t option"

fun child_state_wire :: "child_state \<Rightarrow> state_update" where
  "child_state_wire Running = StRunning"
| "child_state_wire Completed = StIdle (Some ''end_turn'')"
| "child_state_wire Failed = StIdle (Some ''error'')"
| "child_state_wire Cancelled = StIdle (Some ''cancelled'')"
| "child_state_wire Disconnected = StUnknown"

definition subagent_update :: "string \<Rightarrow> nat \<Rightarrow> subagent_t \<Rightarrow> notif" where
  "subagent_update sid ver s =
     note_ver ver sid (SubagentUpdate \<lparr>sw_id = sa_session_id s, sw_title = sa_title s,
       sw_description = sa_description s, sw_state = map_option child_state_wire (sa_state s),
       sw_meta = sa_meta s\<rparr>)"

fun value_str :: "jvalue \<Rightarrow> string option" where
  "value_str (VString s) = Some s"
| "value_str _ = None"

definition air_kind :: "string \<Rightarrow> string" where
  "air_kind kind =
     (if kind = ''subagent_spawned'' \<or> kind = ''subagent_state_update'' then ''_subagent_update''
      else ''_'' @ kind)"

definition air :: "string \<Rightarrow> nat \<Rightarrow> jvalue \<Rightarrow> notif" where
  "air sid ver upd =
     (case upd of
        VObject fs \<Rightarrow>
          (case Option.bind (map_of fs ''sessionUpdate'') value_str of
             Some kind \<Rightarrow>
               if ver = 2
               then NoteV2 sid (OtherUpdate (air_kind kind) (filter (\<lambda>(k, v). k \<noteq> ''sessionUpdate'') fs))
               else NoteExt sid upd
           | None \<Rightarrow> NoteExt sid upd)
      | _ \<Rightarrow> NoteExt sid upd)"

datatype title_change = Keep | SetTitle string | Clear

fun title_wire :: "title_change \<Rightarrow> string maybe_undefined" where
  "title_wire Keep = Undefined"
| "title_wire (SetTitle t) = Value t"
| "title_wire Clear = Null"

definition session_info ::
  "string \<Rightarrow> nat \<Rightarrow> title_change \<Rightarrow> string option \<Rightarrow> meta_t option \<Rightarrow> notif" where
  "session_info sid ver title updated_at m =
     note_ver ver sid (SessionInfoUpdate (title_wire title) updated_at m)"

definition terminal_opened :: "string \<Rightarrow> string \<Rightarrow> string \<Rightarrow> string option \<Rightarrow> notif" where
  "terminal_opened sid term_id command cwd = NoteV2 sid (TerminalOpened term_id command cwd)"

definition terminal_exited ::
  "string \<Rightarrow> string \<Rightarrow> string \<Rightarrow> int option \<Rightarrow> meta_t option \<Rightarrow> meta_t option \<Rightarrow> notif" where
  "terminal_exited sid term_id data exit_code exit_meta m =
     NoteV2 sid (TerminalExited term_id data exit_code exit_meta m)"

definition terminal_output :: "string \<Rightarrow> string \<Rightarrow> string \<Rightarrow> notif" where
  "terminal_output sid term_id data = NoteV2 sid (TerminalOutputChunk term_id data)"

definition tool_text_chunk :: "string \<Rightarrow> string \<Rightarrow> string \<Rightarrow> notif" where
  "tool_text_chunk sid tc_id s = NoteV2 sid (ToolCallContentChunk tc_id s)"

definition out_message :: "string \<Rightarrow> nat \<Rightarrow> bool \<Rightarrow> string \<Rightarrow> string \<Rightarrow> meta_t option \<Rightarrow> notif" where
  "out_message sid ver user msg_id s m =
     (if ver = 2 then
        NoteV2 sid (if user then UserMessage msg_id [s] m else AgentMessage msg_id [s] m)
      else
        NoteV1 sid (if user then UserMessageChunk s (Some msg_id) m
                    else AgentMessageChunk s (Some msg_id) m))"

record command_t =
  cmd_name :: string
  cmd_description :: string
  cmd_hint :: "string option"
  cmd_title :: "string option"

text \<open>A command's title travels as \<^verbatim>\<open>_meta.muse.title\<close>, through the text \<open>print\<close> gives for the value.\<close>

definition available_commands ::
  "serde_t \<Rightarrow> (jvalue \<Rightarrow> string) \<Rightarrow> string \<Rightarrow> nat \<Rightarrow> command_t list \<Rightarrow> notif" where
  "available_commands serde print sid ver cmds =
     note_ver ver sid (AvailableCommandsUpdate (map (\<lambda>c.
       \<lparr>cw_name = cmd_name c, cw_description = cmd_description c, cw_hint = cmd_hint c,
        cw_meta = Option.bind (cmd_title c)
          (\<lambda>t. meta serde (print (VObject [(''muse'', VObject [(''title'', VString t)])])))\<rparr>) cmds))"

definition out_state :: "string \<Rightarrow> string \<Rightarrow> string option \<Rightarrow> notif" where
  "out_state sid state stop =
     NoteV2 sid (StateUpdate
       (if state = ''running'' then StRunning
        else if state = ''requires_action'' then StRequiresAction else StIdle stop))"

definition plan_status :: "string \<Rightarrow> status_t" where
  "plan_status s =
     (if s = ''in_progress'' then SInProgress else if s = ''completed'' then SCompleted else SPending)"

definition plan :: "string \<Rightarrow> nat \<Rightarrow> string \<Rightarrow> (string \<times> string) list \<Rightarrow> notif" where
  "plan sid ver plan_id entries =
     (let es = map (\<lambda>(content, status). (content, plan_status status)) entries in
      if ver = 2 then
        if entries = [] then NoteV2 sid (PlanRemoved plan_id) else NoteV2 sid (PlanUpdate (Some plan_id) es)
      else NoteV1 sid (PlanUpdate None es))"

definition notice_severity :: "string \<Rightarrow> string" where
  "notice_severity s = (if s = ''warning'' \<or> s = ''error'' then s else ''info'')"

definition notice :: "string \<Rightarrow> nat \<Rightarrow> string \<Rightarrow> string \<Rightarrow> string \<Rightarrow> notif" where
  "notice sid ver severity title description =
     note_ver ver sid (Notice (notice_severity severity) title description)"

definition current_mode :: "string \<Rightarrow> string \<Rightarrow> notif" where
  "current_mode sid mode = NoteV1 sid (CurrentModeUpdate mode)"

text \<open>The echo of a prompt; a content block is its text, or no text for another kind of block.\<close>

datatype echo_block = EV1 "string option" string | EV2 "string option" string

datatype echo = EchoV1 "(string option \<times> string) list" | EchoV2 "(string option \<times> string) list"

fun echo_is_empty :: "echo \<Rightarrow> bool" where
  "echo_is_empty (EchoV1 bs) = (bs = [])"
| "echo_is_empty (EchoV2 bs) = (bs = [])"

fun echo_text :: "echo \<Rightarrow> string" where
  "echo_text (EchoV1 bs) = join [newline] (List.map_filter fst bs)"
| "echo_text (EchoV2 bs) = join [newline] (List.map_filter fst bs)"

fun echo_notes :: "echo \<Rightarrow> string \<Rightarrow> string \<Rightarrow> notif list" where
  "echo_notes (EchoV2 bs) sid msg_id = [NoteV2 sid (UserMessage msg_id (map snd bs) None)]"
| "echo_notes (EchoV1 bs) sid msg_id =
     map (\<lambda>b. NoteV1 sid (UserMessageChunk (snd b) (Some msg_id) None)) bs"

definition from_blocks :: "nat \<Rightarrow> echo_block list \<Rightarrow> echo" where
  "from_blocks ver bs =
     (if ver = 2
      then EchoV2 (List.map_filter (\<lambda>b. case b of EV2 t c \<Rightarrow> Some (t, c) | EV1 t c \<Rightarrow> None) bs)
      else EchoV1 (List.map_filter (\<lambda>b. case b of EV1 t c \<Rightarrow> Some (t, c) | EV2 t c \<Rightarrow> None) bs))"

section \<open>Facts\<close>

fun note_matches :: "nat \<Rightarrow> notif \<Rightarrow> bool" where
  "note_matches ver (NoteV1 sid u) = (ver \<noteq> 2)"
| "note_matches ver (NoteV2 sid u) = (ver = 2)"
| "note_matches ver (NoteExt sid v) = (ver \<noteq> 2)"

fun legal_status :: "status_t \<Rightarrow> bool" where
  "legal_status (SOther s) = False"
| "legal_status _ = True"

fun note_card :: "notif \<Rightarrow> tool_call option" where
  "note_card (NoteV1 sid (ToolCall c)) = Some c"
| "note_card (NoteV1 sid (ToolCallUpdate c)) = Some c"
| "note_card (NoteV2 sid (ToolCallUpdate c)) = Some c"
| "note_card _ = None"

lemma meta_nonempty: "meta serde s = Some m \<Longrightarrow> m \<noteq> []"
  by (auto simp: meta_def split: option.splits jvalue.splits if_splits)

lemma muse_meta_nonempty: "muse_meta serde s = Some m \<Longrightarrow> m \<noteq> []"
  by (auto simp: muse_meta_def meta_nonempty split: if_splits)

lemma card_note_card: "\<exists>c'. note_card (card_note c sid ver create) = Some c' \<and> w_id c' = c_id c"
  by (auto simp: card_note_def update_v1_def update_v2_def)

section \<open>Properties\<close>

text \<open>the version of a connection decides what a card may carry: an ACP v1 card never carries
  the patch form of a diff and an ACP v2 card never the whole-file form; a creation is always
  titled; and everything else a card holds reaches the editor unchanged.\<close>

theorem card_note_versioned:
  "\<exists>w. note_card (card_note c sid ver create) = Some w \<and> note_matches ver (card_note c sid ver create) \<and>
     w_id w = c_id c \<and> w_name w = c_name c \<and> w_locations w = c_locations c \<and>
     w_raw_input w = c_raw_input c \<and> w_meta w = c_meta c \<and>
     (\<forall>x. w_content w = Some x \<longrightarrow>
        (if ver = 2 then (\<forall>p old new. WFileDiff p old new \<notin> set x)
         else (\<forall>ch p. WPatch ch p \<notin> set x))) \<and>
     (if ver \<noteq> 2 \<and> create then w_title w = Some (unwrap_or (c_title c) []) else w_title w = c_title c)"
proof -
  have "WPatch ch p \<noteq> y" if "content_v1 x = Some y" for x y ch p using that by (cases x) auto
  then have 1: "WPatch ch p \<notin> set (List.map_filter content_v1 xs)" for ch p xs
    by (auto simp: List.map_filter_def)
  have "WFileDiff p ot nt \<noteq> y" if "content_v2 x = Some y" for x y p ot nt using that by (cases x) auto
  then have 2: "WFileDiff p ot nt \<notin> set (List.map_filter content_v2 xs)" for p ot nt xs
    by (auto simp: List.map_filter_def)
  show ?thesis
    using 1 2 by (cases "ver = 2"; cases create) (auto simp: card_note_def update_v1_def update_v2_def)
qed

theorem card_note_versioned_witness:
  "\<exists>w. note_card (card_note ((card_new ''t'')\<lparr>c_content := Some [Text ''x'', FileDiff ''/f'' None ''y'']\<rparr>) ''s'' 2 True) = Some w \<and>
     w_id w = ''t'' \<and> (\<forall>x. w_content w = Some x \<longrightarrow> WFileDiff ''/f'' None ''y'' \<notin> set x)"
  using card_note_versioned
    [of "(card_new ''t'')\<lparr>c_content := Some [Text ''x'', FileDiff ''/f'' None ''y'']\<rparr>" "''s''" 2 True]
  by (auto simp: card_new_def)

text \<open>an AIR update names its kind: ACP v2 gets it as an extension update whose tag starts with
  an underscore and whose fields no longer contain the tag, ACP v1 gets the object untouched.\<close>

theorem air_versioned:
  assumes "map_of fs ''sessionUpdate'' = Some (VString kind)"
  shows "air sid 2 (VObject fs) = NoteV2 sid (OtherUpdate (air_kind kind) (filter (\<lambda>(k, v). k \<noteq> ''sessionUpdate'') fs)) \<and>
    starts_with (air_kind kind) ''_'' \<and> air sid 1 (VObject fs) = NoteExt sid (VObject fs)"
  using assms by (auto simp: air_def air_kind_def starts_with_def)

theorem air_versioned_witness:
  "air ''s'' 2 (VObject [(''sessionUpdate'', VString ''subagent_spawned''), (''name'', VString ''n'')]) =
     NoteV2 ''s'' (OtherUpdate ''_subagent_update'' [(''name'', VString ''n'')])"
  using air_versioned [of "[(''sessionUpdate'', VString ''subagent_spawned''), (''name'', VString ''n'')]" "''subagent_spawned''" "''s''"]
  by (simp add: air_kind_def)

end
