(* ===== verification/Fold_Text.thy ===== *)
theory Fold_Text
  imports Out
begin

text \<open>
  The text functions of \<^verbatim>\<open>src/fold.rs\<close> and \<^verbatim>\<open>src/acp.rs\<close> that decide what the editor displays: the
  display budget and truncation, tool kinds and statuses, sanitised one-line titles, absolute tool
  paths and timestamps. What the running process provides is the record \<open>env\<close>: the value of
  \<^verbatim>\<open>MUSE_TOOL_OUTPUT_LIMIT\<close>, \<^verbatim>\<open>serde_json\<close>, the Unicode case tables behind \<^verbatim>\<open>to_lowercase\<close> and
  \<^verbatim>\<open>to_uppercase\<close>, and the random bytes of minted ids. Paths are those of a Unix build.
\<close>

section \<open>The environment and character classes\<close>

record env =
  e_serde :: serde_t
  e_limit :: "string option"
  e_lower :: "string \<Rightarrow> string"
  e_upper :: "scalar \<Rightarrow> string"
  e_rand :: "nat \<Rightarrow> string"

text \<open>\<^verbatim>\<open>char::is_control\<close> (category Cc) and \<^verbatim>\<open>char::is_whitespace\<close> (property White_Space).\<close>

definition is_control :: "scalar \<Rightarrow> bool" where
  "is_control c \<longleftrightarrow> c < 0x20 \<or> (0x7F \<le> c \<and> c < 0xA0)"

definition is_whitespace :: "scalar \<Rightarrow> bool" where
  "is_whitespace c \<longleftrightarrow> (0x09 \<le> c \<and> c \<le> 0x0D) \<or> c = 0x20 \<or> c = 0x85 \<or> c = 0xA0 \<or> c = 0x1680 \<or>
     (0x2000 \<le> c \<and> c \<le> 0x200A) \<or> c = 0x2028 \<or> c = 0x2029 \<or> c = 0x202F \<or> c = 0x205F \<or> c = 0x3000"

definition trim :: "string \<Rightarrow> string" where
  "trim s = of_chars (rev (dropWhile is_whitespace (rev (dropWhile is_whitespace (chars s)))))"

section \<open>JSON members\<close>

definition quoted :: "string \<Rightarrow> string" where
  "quoted s = [CHR 0x22] @ s @ [CHR 0x22]"

text \<open>The format \<^verbatim>\<open>"key":value\<close> and \<^verbatim>\<open>"key":{members}\<close>.\<close>

definition member :: "string \<Rightarrow> string \<Rightarrow> string" where
  "member k v = quoted k @ '':'' @ v"

definition member_obj :: "string \<Rightarrow> string \<Rightarrow> string" where
  "member_obj k ms = member k (''{'' @ ms @ ''}'')"

definition comma_join :: "string list \<Rightarrow> string" where
  "comma_join xs = join '','' xs"

section \<open>The display budget\<close>

definition max_content :: "env \<Rightarrow> nat" where
  "max_content E =
     unwrap_or
       (Option.bind (Option.bind (e_limit E) (\<lambda>v. parse_u64 (trim v)))
          (\<lambda>v. if 200 \<le> v then Some v else None))
       8000"

definition MARKER :: string where
  "MARKER = utf8_encode 0x2026 @ ''[truncated]''"

definition trunc :: "env \<Rightarrow> string \<Rightarrow> string \<times> string option" where
  "trunc E s =
     (let limit = max_content E; cs = chars s; original = length cs in
      if original \<le> limit then (s, None)
      else
        let retained = limit - length (chars MARKER);
            head_chars = (retained + 1) div 2;
            tail_chars = retained div 2
        in (of_chars (take head_chars cs) @ MARKER @ of_chars (drop (original - tail_chars) cs),
            Some (comma_join [member ''source'' (quoted ''adapter''),
              member ''originalChars'' (show_nat original), member ''retainedChars'' (show_nat retained),
              member ''headChars'' (show_nat head_chars), member ''tailChars'' (show_nat tail_chars)])))"

section \<open>Kinds, statuses and titles\<close>

definition tool_kind :: "env \<Rightarrow> string \<Rightarrow> string" where
  "tool_kind E tool =
     (let low = e_lower E tool;
          t = (case Option.bind (strip_prefix low ''mcp__'') (\<lambda>r. split_once r ''__'') of
                 Some (server, name) \<Rightarrow> name | None \<Rightarrow> low);
          has = (\<lambda>p. contains t p)
      in if has ''read'' \<or> has ''list'' \<or> has ''cat'' then ''read''
         else if has ''write'' \<or> has ''edit'' \<or> has ''patch'' \<or> has ''apply'' then ''edit''
         else if has ''bash'' \<or> has ''shell'' \<or> has ''exec'' \<or> has ''run'' then ''execute''
         else if has ''search'' \<or> has ''grep'' \<or> has ''glob'' \<or> has ''find'' then ''search''
         else if has ''fetch'' \<or> has ''web'' \<or> has ''curl'' then ''fetch''
         else if has ''think'' then ''think''
         else ''other'')"

definition msp_status :: "string \<Rightarrow> string" where
  "msp_status s =
     (if s = ''completed'' then ''completed''
      else if s = ''failed'' then ''failed''
      else if s \<in> {''cancelled'', ''rejected'', ''timedOut''} then ''failed''
      else if s \<in> {''in_progress'', ''inProgress'', ''running'', ''started''} then ''in_progress''
      else ''pending'')"

definition is_ascii_uppercase :: "scalar \<Rightarrow> bool" where
  "is_ascii_uppercase c \<longleftrightarrow> 65 \<le> c \<and> c \<le> 90"

fun title_chars :: "env \<Rightarrow> bool \<Rightarrow> scalar list \<Rightarrow> string" where
  "title_chars E first [] = []"
| "title_chars E first (c # cs) =
     (if is_ascii_uppercase c then (if first then [] else '' '') @ utf8_encode (c + 32)
      else if first then e_upper E c else utf8_encode c) @ title_chars E False cs"

definition fallback_card_title :: "env \<Rightarrow> string \<Rightarrow> string" where
  "fallback_card_title E kind =
     (let title = title_chars E True (chars kind) in if title = [] then ''Item'' else title)"

definition unsafe_format :: "scalar \<Rightarrow> bool" where
  "unsafe_format c \<longleftrightarrow> is_control c \<or> c = 0x061C \<or> c = 0x200E \<or> c = 0x200F \<or>
     (0x202A \<le> c \<and> c \<le> 0x202E) \<or> (0x2066 \<le> c \<and> c \<le> 0x2069)"

text \<open>The loop of \<^verbatim>\<open>sanitize_one_line\<close>: the characters written so far and whether a space is
  pending.\<close>

fun sanitize_step :: "scalar list \<times> bool \<Rightarrow> scalar \<Rightarrow> scalar list \<times> bool" where
  "sanitize_step (out, pending) c =
     (if is_whitespace c \<or> unsafe_format c then (out, out \<noteq> [])
      else if pending then (out @ [0x20, c], False)
      else (out @ [c], False))"

definition sanitize_one_line :: "string \<Rightarrow> string" where
  "sanitize_one_line s = of_chars (fst (foldl sanitize_step ([], False) (chars s)))"

definition hidden_format :: "scalar \<Rightarrow> bool" where
  "hidden_format c \<longleftrightarrow> c = 0x00AD \<or> c = 0x034F \<or> c = 0x061C \<or> (0x115F \<le> c \<and> c \<le> 0x1160) \<or>
     (0x17B4 \<le> c \<and> c \<le> 0x17B5) \<or> c = 0x180E \<or> (0x200B \<le> c \<and> c \<le> 0x200F) \<or>
     (0x202A \<le> c \<and> c \<le> 0x202E) \<or> (0x2060 \<le> c \<and> c \<le> 0x206F) \<or> c = 0x3164 \<or>
     (0xFE00 \<le> c \<and> c \<le> 0xFE0F) \<or> c = 0xFEFF \<or> c = 0xFFA0 \<or> (0xE0000 \<le> c \<and> c \<le> 0xE0FFF)"

definition visible_char :: "scalar \<Rightarrow> string" where
  "visible_char c =
     (if c = 0x20 then utf8_encode c
      else if c = 0x0A then [CHR 0x5C, CHR ''n'']
      else if c = 0x0D then [CHR 0x5C, CHR ''r'']
      else if c = 0x09 then [CHR 0x5C, CHR ''t'']
      else if is_control c \<or> is_whitespace c \<or> hidden_format c
      then [CHR 0x5C, CHR ''u'', CHR ''{''] @ pad0 4 (show_hex c) @ ''}''
      else utf8_encode c)"

definition visible_title :: "string \<Rightarrow> string" where
  "visible_title s = concat (map visible_char (chars s))"

definition monitor_description :: "J \<Rightarrow> string" where
  "monitor_description item =
     (let raw = unwrap_or (or_else (non_empty_str item ''monitorDescription'') (str_at item ''fallbackText'')) [] in
      sanitize_one_line (unwrap_or (strip_prefix raw ''Monitor event: '') raw))"

definition stop_reason :: "string \<Rightarrow> string" where
  "stop_reason terminal =
     (if terminal = ''completed'' then ''end_turn''
      else if terminal = ''cancelled'' then ''cancelled'' else ''_failed'')"

section \<open>Paths\<close>

fun split_on :: "char \<Rightarrow> string \<Rightarrow> string list" where
  "split_on d [] = [[]]"
| "split_on d (c # s) =
     (if c = d then [] # split_on d s
      else case split_on d s of x # xs \<Rightarrow> (c # x) # xs | [] \<Rightarrow> [[c]])"

text \<open>The components of an absolute path after its root: empty and \<^verbatim>\<open>.\<close> segments are not
  components. The fold keeps the normal components so far; \<^verbatim>\<open>..\<close> at the root has nothing to pop.\<close>

fun normalize_path :: "string list \<Rightarrow> string list \<Rightarrow> string list option" where
  "normalize_path acc [] = Some acc"
| "normalize_path acc (x # xs) =
     (if x = [] \<or> x = ''.'' then normalize_path acc xs
      else if x = ''..'' then (if acc = [] then None else normalize_path (butlast acc) xs)
      else normalize_path (acc @ [x]) xs)"

definition absolute_tool_path :: "string \<Rightarrow> string \<Rightarrow> string option" where
  "absolute_tool_path root raw =
     (if raw = [] \<or> 4096 < length raw \<or> list_ex is_control (chars raw) then None
      else
        let candidate =
          (if starts_with raw ''/'' then Some raw
           else if \<not> starts_with root ''/'' then None
           else Some (if ends_with root ''/'' then root @ raw else root @ ''/'' @ raw))
        in case candidate of
             None \<Rightarrow> None
           | Some p \<Rightarrow> map_option (\<lambda>xs. ''/'' @ join ''/'' xs) (normalize_path [] (split_on (CHR ''/'') p)))"

section \<open>Timestamps\<close>

text \<open>The civil date of a day count since 1970-01-01; \<^verbatim>\<open>div_euclid\<close> and \<^verbatim>\<open>rem_euclid\<close> by a positive
  divisor are \<open>div\<close> and \<open>mod\<close>, and the other divisions are of non-negative numbers.\<close>

definition civil :: "int \<Rightarrow> int \<times> int \<times> int" where
  "civil days =
     (let z = days + 719468;
          era = z div 146097;
          doe = z mod 146097;
          yoe = (doe - doe div 1460 + doe div 36524 - doe div 146096) div 365;
          doy = doe - (365 * yoe + yoe div 4 - yoe div 100);
          mp = (5 * doy + 2) div 153;
          day = doy - (153 * mp + 2) div 5 + 1;
          month = (if mp < 10 then mp + 3 else mp - 9);
          year = yoe + era * 400 + (if month \<le> 2 then 1 else 0)
      in (year, month, day))"

definition utc_from_epoch_ms :: "nat \<Rightarrow> string" where
  "utc_from_epoch_ms ms =
     (let secs = ms div 1000; days = secs div 86400; rm = secs mod 86400;
          d2 = (\<lambda>n. pad0 2 (show_nat n))
      in case civil (of_nat days) of
           (year, month, day) \<Rightarrow>
             pad0 4 (show_nat (nat year)) @ ''-'' @ d2 (nat month) @ ''-'' @ d2 (nat day) @ ''T'' @
             d2 (rm div 3600) @ '':'' @ d2 (rm mod 3600 div 60) @ '':'' @ d2 (rm mod 60) @ ''Z'')"

section \<open>Facts\<close>

lemma max_content_floor: "200 \<le> max_content E"
  by (auto simp: max_content_def bind_eq_Some_conv split: option.split if_splits)

lemma chars_ascii: "list_all (\<lambda>a. ord a < 128) s \<Longrightarrow> chars s = map (ord :: char \<Rightarrow> nat) s"
proof -
  assume a: "list_all (\<lambda>a. ord a < 128) s"
  then have "of_chars (map (ord :: char \<Rightarrow> nat) s) = s"
    by (induction s) (simp_all add: of_chars_Cons utf8_encode_def)
  moreover have "list_all is_scalar (map (ord :: char \<Rightarrow> nat) s)"
    using a by (auto simp: list_all_iff is_scalar_def)
  ultimately show ?thesis by (metis chars_of_chars)
qed

lemma chars_encode: "is_scalar c \<Longrightarrow> chars (utf8_encode c) = [c]"
  using chars_of_chars [of "[c]"] by (simp add: of_chars_Cons)

lemma utf8_MARKER: "utf8 MARKER"
  and chars_MARKER: "chars MARKER = 0x2026 # map (ord :: char \<Rightarrow> nat) ''[truncated]''"
proof -
  have u: "is_scalar 0x2026" "utf8 (utf8_encode 0x2026)" "utf8 ''[truncated]''"
    by (simp_all add: is_scalar_def utf8_encode_utf8 utf8_ascii)
  then show "utf8 MARKER" by (simp add: MARKER_def)
  show "chars MARKER = 0x2026 # map (ord :: char \<Rightarrow> nat) ''[truncated]''"
    using u by (simp add: MARKER_def chars_append chars_encode chars_ascii)
qed

lemma length_MARKER: "length (chars MARKER) = 12"
  by (simp add: chars_MARKER)

lemma scalar_take_drop: "list_all is_scalar cs \<Longrightarrow> list_all is_scalar (take n cs) \<and> list_all is_scalar (drop n cs)"
  by (auto simp: list_all_iff dest: in_set_takeD in_set_dropD)

lemma trunc_cut:
  assumes "max_content E < length (chars s)"
  defines "r \<equiv> max_content E - 12"
  shows "utf8 (fst (trunc E s))"
    and "chars (fst (trunc E s)) =
      take ((r + 1) div 2) (chars s) @ chars MARKER @ drop (length (chars s) - r div 2) (chars s)"
proof -
  have e: "fst (trunc E s) = of_chars (take ((r + 1) div 2) (chars s)) @ MARKER @
      of_chars (drop (length (chars s) - r div 2) (chars s))"
    using assms by (simp add: trunc_def Let_def length_MARKER)
  note sc = scalar_take_drop [OF chars_scalar [of s]]
  then show "utf8 (fst (trunc E s))" by (simp add: e utf8_MARKER)
  show "chars (fst (trunc E s)) =
      take ((r + 1) div 2) (chars s) @ chars MARKER @ drop (length (chars s) - r div 2) (chars s)"
    using sc by (simp add: e chars_append utf8_MARKER)
qed

lemma trunc_utf8: "utf8 s \<Longrightarrow> utf8 (fst (trunc E s))"
  using trunc_cut(1) [of E s] by (cases "max_content E < length (chars s)") (auto simp: trunc_def Let_def)

lemma trunc_length:
  assumes "utf8 s"
  shows "length (chars (fst (trunc E s))) = min (length (chars s)) (max_content E)"
proof (cases "max_content E < length (chars s)")
  case True
  define r where "r = max_content E - 12"
  have r: "r + 12 = max_content E" using max_content_floor [of E] by (simp add: r_def)
  have "length (take ((r + 1) div 2) (chars s)) = (r + 1) div 2" using True r by simp
  moreover have "length (drop (length (chars s) - r div 2) (chars s)) = r div 2" using True r by simp
  moreover have "(r + 1) div 2 + r div 2 = r" by arith
  ultimately show ?thesis using True r trunc_cut(2) [OF True] by (simp add: r_def [symmetric] length_MARKER)
next
  case False
  then show ?thesis by (simp add: trunc_def Let_def)
qed

text \<open>A sanitised line: printable, single spaces inside only.\<close>

definition blank :: "scalar \<Rightarrow> bool" where
  "blank c \<longleftrightarrow> is_whitespace c \<or> unsafe_format c"

fun one_line :: "scalar list \<Rightarrow> bool" where
  "one_line [] = True"
| "one_line [c] = (\<not> blank c)"
| "one_line (c # d # cs) = (if d = 0x20 then \<not> blank c \<and> cs \<noteq> [] \<and> one_line cs else \<not> blank c \<and> one_line (d # cs))"

lemma blank_space: "blank 0x20"
  by (simp add: blank_def is_whitespace_def)

lemma one_line_snoc: "one_line cs \<Longrightarrow> \<not> blank c \<Longrightarrow> one_line (cs @ [c])"
  by (induction cs rule: one_line.induct) (auto simp: blank_space split: if_splits)

lemma one_line_snoc_space: "one_line cs \<Longrightarrow> cs \<noteq> [] \<Longrightarrow> \<not> blank c \<Longrightarrow> one_line (cs @ [0x20, c])"
proof (induction cs rule: one_line.induct)
  case (3 a d cs)
  then show ?case by (cases cs) (auto simp: blank_space split: if_splits)
qed auto

lemma sanitize_one_line_inv:
  "one_line (fst st) \<Longrightarrow> (snd st \<longrightarrow> fst st \<noteq> []) \<Longrightarrow>
   one_line (fst (foldl sanitize_step st cs)) \<and> (snd (foldl sanitize_step st cs) \<longrightarrow> fst (foldl sanitize_step st cs) \<noteq> [])"
proof (induction cs arbitrary: st)
  case (Cons c cs)
  have "one_line (fst (sanitize_step st c)) \<and> (snd (sanitize_step st c) \<longrightarrow> fst (sanitize_step st c) \<noteq> [])"
    using Cons.prems by (cases st) (auto simp: one_line_snoc one_line_snoc_space blank_def)
  with Cons.IH show ?case by simp
qed simp

lemma sanitize_scalars:
  "list_all is_scalar (fst st) \<Longrightarrow> list_all is_scalar cs \<Longrightarrow> list_all is_scalar (fst (foldl sanitize_step st cs))"
proof (induction cs arbitrary: st)
  case (Cons c cs)
  then show ?case by (cases st) (auto simp: is_scalar_def)
qed simp

lemma chars_sanitize: "chars (sanitize_one_line s) = fst (foldl sanitize_step ([], False) (chars s))"
  unfolding sanitize_one_line_def by (rule chars_of_chars) (rule sanitize_scalars, simp_all)

text \<open>On a line that is already sanitised the loop changes nothing.\<close>

lemma sanitize_id: "one_line cs \<Longrightarrow> fst (foldl sanitize_step (out, False) cs) = out @ cs"
proof (induction cs arbitrary: out rule: one_line.induct)
  case (2 c)
  then show ?case by (simp add: blank_def)
next
  case (3 c d cs)
  show ?case
  proof (cases "d = 0x20")
    case True
    with 3 obtain e es where e: "cs = e # es" "\<not> blank e" "\<not> blank c" "one_line cs"
      by (cases cs) (auto split: if_splits elim: one_line.elims)
    have "foldl sanitize_step (out, False) (c # d # cs) = foldl sanitize_step (out @ [c, 0x20], False) cs"
      using e True blank_space by (simp add: blank_def)
    with "3.IH"(1) True e show ?thesis by simp
  next
    case False
    with 3 show ?thesis by (auto simp: blank_def)
  qed
qed simp

text \<open>Titles.\<close>

definition visible :: "scalar \<Rightarrow> bool" where
  "visible c \<longleftrightarrow> \<not> is_control c \<and> \<not> hidden_format c \<and> (is_whitespace c \<longrightarrow> c = 0x20)"

lemma visible_ascii: "0x20 \<le> c \<Longrightarrow> c < 0x7F \<Longrightarrow> visible c"
  by (auto simp: visible_def is_control_def hidden_format_def is_whitespace_def)

lemma show_hex_printable: "list_all (\<lambda>a. 0x20 \<le> ord a \<and> ord a < 0x7F) (show_hex n)"
proof (induction n rule: show_hex.induct)
  case (1 n)
  have "0x20 \<le> ord (hex_digit k) \<and> ord (hex_digit k) < 0x7F" if "k < 16" for k
    using that by (simp add: hex_digit_def)
  with 1 show ?case by (subst show_hex.simps) (simp add: list_all_append)
qed

lemma visible_chars_ascii:
  "list_all (\<lambda>a. 0x20 \<le> ord a \<and> ord a < 0x7F) s \<Longrightarrow> utf8 s \<and> list_all visible (chars s)"
proof -
  assume a: "list_all (\<lambda>a. 0x20 \<le> ord a \<and> ord a < 0x7F) s"
  then have "list_all (\<lambda>a. ord a < 128) s" by (auto simp: list_all_iff)
  with a show ?thesis by (auto simp: utf8_ascii chars_ascii list_all_iff visible_ascii)
qed

lemma visible_char_visible: "is_scalar c \<Longrightarrow> utf8 (visible_char c) \<and> list_all visible (chars (visible_char c))"
proof -
  assume sc: "is_scalar c"
  have esc: "list_all (\<lambda>a. 0x20 \<le> ord a \<and> ord a < 0x7F) ([CHR 0x5C, CHR ''u'', CHR ''{''] @ pad0 4 (show_hex c) @ ''}'')"
    using show_hex_printable [of c] by (auto simp: pad0_def list_all_iff)
  have own: "utf8 (utf8_encode c) \<and> list_all visible (chars (utf8_encode c))"
    if "c = 0x20 \<or> \<not> (is_control c \<or> is_whitespace c \<or> hidden_format c)"
    using that sc by (auto simp: utf8_encode_utf8 chars_encode visible_def is_control_def hidden_format_def)
  have esc2: "utf8 [CHR 0x5C, a] \<and> list_all visible (chars [CHR 0x5C, a])" if "a \<in> set ''nrt''" for a
    using that by (intro visible_chars_ascii) auto
  consider "c = 0x20" | "c \<in> {0x0A, 0x0D, 0x09}"
    | "c \<notin> {0x20, 0x0A, 0x0D, 0x09}" "is_control c \<or> is_whitespace c \<or> hidden_format c"
    | "c \<notin> {0x20, 0x0A, 0x0D, 0x09}" "\<not> (is_control c \<or> is_whitespace c \<or> hidden_format c)" by blast
  then show ?thesis
  proof cases
    case 2
    then show ?thesis using esc2 by (auto simp: visible_char_def)
  next
    case 3
    then have "visible_char c = [CHR 0x5C, CHR ''u'', CHR ''{''] @ pad0 4 (show_hex c) @ ''}''"
      by (auto simp: visible_char_def)
    then show ?thesis using visible_chars_ascii [OF esc] by (simp only:)
  qed (use own in \<open>auto simp: visible_char_def\<close>)
qed

lemma visible_concat:
  "(\<And>x. x \<in> set xs \<Longrightarrow> utf8 x \<and> list_all visible (chars x)) \<Longrightarrow>
   utf8 (concat xs) \<and> list_all visible (chars (concat xs))"
  by (induction xs) (auto simp: chars_append)

text \<open>Paths.\<close>

definition plain_segment :: "string \<Rightarrow> bool" where
  "plain_segment x \<longleftrightarrow> x \<noteq> [] \<and> x \<noteq> ''.'' \<and> x \<noteq> ''..'' \<and> CHR ''/'' \<notin> set x"

lemma split_on_sep: "x \<in> set (split_on d s) \<Longrightarrow> d \<notin> set x"
  by (induction d s arbitrary: x rule: split_on.induct) (auto split: if_splits list.splits)

lemma normalize_plain:
  "normalize_path acc xs = Some ys \<Longrightarrow> list_all plain_segment acc \<Longrightarrow> (\<And>x. x \<in> set xs \<Longrightarrow> CHR ''/'' \<notin> set x) \<Longrightarrow>
   list_all plain_segment ys"
proof (induction acc xs arbitrary: ys rule: normalize_path.induct)
  case (2 acc x xs)
  have butlast: "list_all plain_segment (butlast acc)"
    using "2.prems"(2) by (auto simp: list_all_iff dest: in_set_butlastD)
  consider "x = [] \<or> x = ''.''" | "x = ''..''" "acc \<noteq> []" | "x \<noteq> []" "x \<noteq> ''.''" "x \<noteq> ''..''"
    using "2.prems"(1) by (auto split: if_splits)
  then show ?case
  proof cases
    case 1
    with 2 show ?thesis by auto
  next
    case 2
    with "2.IH"(2) "2.prems" butlast show ?thesis by auto
  next
    case 3
    then have "plain_segment x" using "2.prems"(3) by (simp add: plain_segment_def)
    then have "list_all plain_segment (acc @ [x])" using "2.prems"(2) by simp
    with 3 "2.IH"(3) "2.prems" show ?thesis by auto
  qed
qed simp

lemma normalize_id: "list_all plain_segment xs \<Longrightarrow> normalize_path acc xs = Some (acc @ xs)"
  by (induction acc xs rule: normalize_path.induct) (auto simp: plain_segment_def)

lemma split_on_append: "d \<notin> set x \<Longrightarrow> split_on d (x @ d # s) = x # split_on d s"
  by (induction x) auto

lemma split_on_none: "d \<notin> set x \<Longrightarrow> split_on d x = [x]"
  by (induction x) auto

lemma split_on_join:
  "xs \<noteq> [] \<Longrightarrow> (\<And>x. x \<in> set xs \<Longrightarrow> d \<notin> set x) \<Longrightarrow> split_on d (join [d] xs) = xs"
  by (induction "[d]" xs rule: join.induct) (simp_all add: split_on_append split_on_none)

lemma normalize_rendered:
  assumes "list_all plain_segment xs"
  shows "normalize_path [] (split_on (CHR ''/'') (''/'' @ join ''/'' xs)) = Some xs"
proof (cases "xs = []")
  case False
  with assms have "split_on (CHR ''/'') (join ''/'' xs) = xs"
    by (intro split_on_join) (auto simp: list_all_iff plain_segment_def)
  with normalize_id [OF assms, of "[]"] show ?thesis by simp
qed simp

section \<open>Properties\<close>

text \<open>a displayed text never exceeds the budget; a text that fits is shown unchanged, and a cut
  one keeps a head and a tail of the original around the marker, split between characters (the
  result is valid UTF-8) and using the whole budget.\<close>

theorem trunc_keeps_budget:
  assumes "utf8 s"
  shows "utf8 (fst (trunc E s)) \<and>
    length (chars (fst (trunc E s))) = min (length (chars s)) (max_content E) \<and>
    (length (chars s) \<le> max_content E \<longrightarrow> trunc E s = (s, None)) \<and>
    (max_content E < length (chars s) \<longrightarrow> (\<exists>h t. 94 \<le> h \<and> 94 \<le> t \<and> h + t + 12 = max_content E \<and>
       chars (fst (trunc E s)) = take h (chars s) @ chars MARKER @ drop (length (chars s) - t) (chars s)))"
proof -
  define r where "r = max_content E - 12"
  have r: "r + 12 = max_content E" "188 \<le> r" using max_content_floor [of E] by (simp_all add: r_def)
  have "\<exists>h t. 94 \<le> h \<and> 94 \<le> t \<and> h + t + 12 = max_content E \<and>
       chars (fst (trunc E s)) = take h (chars s) @ chars MARKER @ drop (length (chars s) - t) (chars s)"
    if "max_content E < length (chars s)"
    by (rule exI [of _ "(r + 1) div 2"], rule exI [of _ "r div 2"])
       (use r trunc_cut(2) [OF that] in \<open>auto simp: r_def\<close>)
  then show ?thesis
    using trunc_utf8 [OF assms] trunc_length [OF assms] by (auto simp: trunc_def Let_def)
qed

theorem trunc_keeps_budget_witness:
  "length (chars (fst (trunc \<lparr>e_serde = (\<lambda>s. None), e_limit = None, e_lower = (\<lambda>s. s),
     e_upper = (\<lambda>c. []), e_rand = (\<lambda>n. [])\<rparr> (replicate 9000 (CHR ''a''))))) = 8000"
proof -
  let ?E = "\<lparr>e_serde = (\<lambda>s. None), e_limit = None, e_lower = (\<lambda>s. s), e_upper = (\<lambda>c. []), e_rand = (\<lambda>n. [])\<rparr>"
  let ?s = "replicate 9000 (CHR ''a'')"
  have u: "utf8 ?s" by (rule utf8_ascii) (simp add: list_all_iff)
  have "length (chars ?s) = 9000" by (subst chars_ascii) (simp_all add: list_all_iff)
  with trunc_keeps_budget [OF u, of ?E] show ?thesis by (simp add: max_content_def)
qed

text \<open>untrusted text becomes one line: the result holds no control, bidirectional-format or
  whitespace character except single inner spaces, and sanitising it again changes nothing.\<close>

theorem sanitize_one_line_clean:
  "one_line (chars (sanitize_one_line s)) \<and> sanitize_one_line (sanitize_one_line s) = sanitize_one_line s"
proof
  have "one_line (fst (foldl sanitize_step ([], False) (chars s)))"
    using sanitize_one_line_inv [of "([], False)" "chars s"] by simp
  then show 1: "one_line (chars (sanitize_one_line s))" by (simp only: chars_sanitize)
  have "utf8 (sanitize_one_line s)"
    unfolding sanitize_one_line_def by (rule utf8_of_chars) (rule sanitize_scalars, simp_all)
  then show "sanitize_one_line (sanitize_one_line s) = sanitize_one_line s"
    using sanitize_id [OF 1, of "[]"] by (subst sanitize_one_line_def) simp
qed

text \<open>a title shows every character: whatever text it is built from, the displayed title has no
  control, zero-width, bidirectional or exotic whitespace character.\<close>

theorem visible_title_visible: "utf8 (visible_title s) \<and> list_all visible (chars (visible_title s))"
  unfolding visible_title_def
proof (rule visible_concat)
  fix x
  assume "x \<in> set (map visible_char (chars s))"
  then obtain c where "c \<in> set (chars s)" "x = visible_char c" by auto
  moreover from this have "is_scalar c" using chars_scalar [of s] by (simp add: list_all_iff)
  ultimately show "utf8 x \<and> list_all visible (chars x)" by (simp only: visible_char_visible)
qed

text \<open>a location sent to the editor is an absolute, lexically normal path: no empty, \<^verbatim>\<open>.\<close> or
  \<^verbatim>\<open>..\<close> segment remains; and a path that is normal already is kept as it is.\<close>

theorem absolute_tool_path_normal:
  assumes "absolute_tool_path root raw = Some p"
  shows "\<exists>xs. p = ''/'' @ join ''/'' xs \<and> list_all plain_segment xs \<and>
    (length p \<le> 4096 \<and> \<not> list_ex is_control (chars p) \<longrightarrow> absolute_tool_path root' p = Some p)"
proof -
  from assms obtain c xs where p: "p = ''/'' @ join ''/'' xs"
    and n: "normalize_path [] (split_on (CHR ''/'') c) = Some xs"
    by (auto simp: absolute_tool_path_def Let_def split: if_splits option.splits)
  have xs: "list_all plain_segment xs" by (rule normalize_plain [OF n]) (auto dest: split_on_sep)
  have "absolute_tool_path root' p = Some p" if "length p \<le> 4096" "\<not> list_ex is_control (chars p)"
    using that normalize_rendered [OF xs] by (simp add: absolute_tool_path_def p starts_with_def)
  with p xs show ?thesis by blast
qed

theorem absolute_tool_path_normal_witness:
  "\<exists>xs. ''/w/b.rs'' = ''/'' @ join ''/'' xs \<and> list_all plain_segment xs"
proof -
  have "absolute_tool_path ''/w'' ''a/.././b.rs'' = Some ''/w/b.rs''"
    by (simp add: absolute_tool_path_def starts_with_def ends_with_def suffix_def chars_ascii is_control_def)
  from absolute_tool_path_normal [OF this] show ?thesis by blast
qed

end
