(* ===== verification/Handler.thy ===== *)
theory Handler
  imports Prelude
begin

text \<open>
  Handlers in state-passing style. A handler of the fold mutates the session's state and appends
  notifications to an output vector; here it is a function from the state to the new state and the
  notifications it appends. The combinators are the control structure of the sources. The locale
  \<open>trace_property\<close> states when a relation between the state before, the notifications and the state
  after is closed under running handlers one after the other; its lemmas push such a relation
  through every combinator, so a handler has the property as soon as its atomic updates do.
\<close>

type_synonym ('s, 'n) step = "'s \<Rightarrow> 's \<times> 'n list"

definition skip :: "('s, 'n) step" where
  "skip s = (s, [])"

definition emit :: "'n \<Rightarrow> ('s, 'n) step" where
  "emit n s = (s, [n])"

definition upd :: "('s \<Rightarrow> 's) \<Rightarrow> ('s, 'n) step" where
  "upd f s = (f s, [])"

definition seq :: "('s, 'n) step \<Rightarrow> ('s, 'n) step \<Rightarrow> ('s, 'n) step" where
  "seq a b s = (case a s of (t, ns) \<Rightarrow> case b t of (u, ms) \<Rightarrow> (u, ns @ ms))"

text \<open>Statements in sequence, a conditional statement, reading the state, a loop.\<close>

primrec do_all :: "('s, 'n) step list \<Rightarrow> ('s, 'n) step" where
  "do_all [] = skip"
| "do_all (a # as) = seq a (do_all as)"

definition only_if :: "bool \<Rightarrow> ('s, 'n) step \<Rightarrow> ('s, 'n) step" where
  "only_if c a = (if c then a else skip)"

definition with_state :: "('s \<Rightarrow> ('s, 'n) step) \<Rightarrow> ('s, 'n) step" where
  "with_state f s = f s s"

definition for_each :: "('a \<Rightarrow> ('s, 'n) step) \<Rightarrow> 'a list \<Rightarrow> ('s, 'n) step" where
  "for_each f xs = do_all (map f xs)"

text \<open>Calling a function that returns a value besides changing the state, and one that also emits.\<close>

definition call :: "('s \<Rightarrow> 'a \<times> 's) \<Rightarrow> ('a \<Rightarrow> ('s, 'n) step) \<Rightarrow> ('s, 'n) step" where
  "call f k s = (case f s of (x, t) \<Rightarrow> k x t)"

definition call_out :: "('s \<Rightarrow> 'a \<times> 's \<times> 'n list) \<Rightarrow> ('a \<Rightarrow> ('s, 'n) step) \<Rightarrow> ('s, 'n) step" where
  "call_out f k s = (case f s of (x, t, ns) \<Rightarrow> case k x t of (u, ms) \<Rightarrow> (u, ns @ ms))"

lemmas handler_defs [rust_simps] = skip_def emit_def upd_def seq_def only_if_def with_state_def call_def call_out_def

lemma for_each_append: "for_each f (xs @ ys) s = seq (for_each f xs) (for_each f ys) s"
  by (induction xs arbitrary: s) (auto simp: for_each_def seq_def skip_def split: prod.split)

lemma fst_seq: "fst (seq a b s) = fst (b (fst (a s)))"
  by (simp add: seq_def split: prod.split)

text \<open>A handler keeps a relation when every run of it is related.\<close>

definition keeps :: "('s \<Rightarrow> 'n list \<Rightarrow> 's \<Rightarrow> bool) \<Rightarrow> ('s, 'n) step \<Rightarrow> bool" where
  "keeps P a \<longleftrightarrow> (\<forall>s. P s (snd (a s)) (fst (a s)))"

definition keeps_call :: "('s \<Rightarrow> 'n list \<Rightarrow> 's \<Rightarrow> bool) \<Rightarrow> ('s \<Rightarrow> 'a \<times> 's) \<Rightarrow> bool" where
  "keeps_call P f \<longleftrightarrow> (\<forall>s. P s [] (snd (f s)))"

definition keeps_out :: "('s \<Rightarrow> 'n list \<Rightarrow> 's \<Rightarrow> bool) \<Rightarrow> ('s \<Rightarrow> 'a \<times> 's \<times> 'n list) \<Rightarrow> bool" where
  "keeps_out P f \<longleftrightarrow> (\<forall>s. P s (snd (snd (f s))) (fst (snd (f s))))"

lemma keepsD: "keeps P a \<Longrightarrow> a s = (t, ns) \<Longrightarrow> P s ns t"
  unfolding keeps_def by (metis fst_conv snd_conv)

locale trace_property =
  fixes P :: "'s \<Rightarrow> 'n list \<Rightarrow> 's \<Rightarrow> bool"
  assumes refl: "P s [] s"
    and trans: "P s ns t \<Longrightarrow> P t ms u \<Longrightarrow> P s (ns @ ms) u"
begin

lemma keeps_skip [trace_intros]: "keeps P skip"
  by (simp add: keeps_def skip_def refl)

lemma keeps_seq [trace_intros]: "keeps P a \<Longrightarrow> keeps P b \<Longrightarrow> keeps P (seq a b)"
  by (auto simp: keeps_def seq_def split: prod.split intro: trans dest: spec)
     (metis fst_conv snd_conv trans)

lemma keeps_do_Nil [trace_intros]: "keeps P (do_all [])"
  by (simp add: keeps_skip)

lemma keeps_do_Cons [trace_intros]: "keeps P a \<Longrightarrow> keeps P (do_all as) \<Longrightarrow> keeps P (do_all (a # as))"
  by (simp add: keeps_seq)

lemma keeps_only_if [trace_intros]: "(c \<Longrightarrow> keeps P a) \<Longrightarrow> keeps P (only_if c a)"
  by (simp add: only_if_def keeps_skip)

lemma keeps_if [trace_intros]:
  "(c \<Longrightarrow> keeps P a) \<Longrightarrow> (\<not> c \<Longrightarrow> keeps P b) \<Longrightarrow> keeps P (if c then a else b)"
  by simp

lemma keeps_option [trace_intros]:
  "(x = None \<Longrightarrow> keeps P a) \<Longrightarrow> (\<And>y. x = Some y \<Longrightarrow> keeps P (f y)) \<Longrightarrow> keeps P (case x of None \<Rightarrow> a | Some y \<Rightarrow> f y)"
  by (cases x) simp_all

lemma keeps_prod [trace_intros]: "(\<And>a b. x = (a, b) \<Longrightarrow> keeps P (f a b)) \<Longrightarrow> keeps P (case x of (a, b) \<Rightarrow> f a b)"
  by (cases x) simp

lemma keeps_let [trace_intros]: "keeps P (f x) \<Longrightarrow> keeps P (let y = x in f y)"
  by simp

lemma keeps_with [trace_intros]: "(\<And>s. keeps P (f s)) \<Longrightarrow> keeps P (with_state f)"
  by (simp add: keeps_def with_state_def)

lemma keeps_each [trace_intros]: "(\<And>x. x \<in> set xs \<Longrightarrow> keeps P (f x)) \<Longrightarrow> keeps P (for_each f xs)"
  unfolding for_each_def by (induction xs) (simp_all add: keeps_skip keeps_seq)

lemma keeps_calling [trace_intros]: "keeps_call P f \<Longrightarrow> (\<And>x. keeps P (k x)) \<Longrightarrow> keeps P (call f k)"
  unfolding keeps_def keeps_call_def call_def
  by (auto split: prod.split) (metis append_Nil fst_conv snd_conv trans)

lemma keeps_calling_out [trace_intros]: "keeps_out P f \<Longrightarrow> (\<And>x. keeps P (k x)) \<Longrightarrow> keeps P (call_out f k)"
  unfolding keeps_def keeps_out_def call_out_def
  by (auto split: prod.split) (metis fst_conv snd_conv trans)

end

end
