(* ===== verification/Fold_State.thy ===== *)
theory Fold_State
  imports Fold_Text Handler "HOL-Library.List_Lexorder" "HOL-Library.Char_ord"
begin

text \<open>
  The state of a session's fold (\<^verbatim>\<open>SessionFold\<close> in \<^verbatim>\<open>src/fold.rs\<close>), field by field, and the parts of
  it that track subagents, workflow runs, hook handlers and editor calls: observation of items and
  the queries the rest of the adapter asks. Hash maps are association lists and hash sets are
  lists; the identifier counter is a number.
\<close>

section \<open>The record\<close>

datatype item_role =
    RMessage string nat
  | RThought string nat nat
  | RTool string bool
  | RMonitor string string "string option" string bool
  | RIgnored

record subagent_obs =
  item_status :: string
  control_status :: string
  child_session :: string

record workflow_child =
  wc_run_id :: string
  wc_child_id :: string
  wc_attempt :: nat
  wc_status :: string
  wc_label :: string

record workflow_obs =
  wo_revision :: nat
  wo_paused :: bool
  wo_children :: "workflow_child list"

record workflow_run =
  wr_run_id :: string
  wr_paused :: bool
  wr_child_count :: nat

record hook_fact =
  handler_kind :: string
  hook_enabled :: bool

record inbox_item =
  ib_task_id :: "string option"
  ib_drained_at :: "string option"
  ib_voided_at :: "string option"

record shell_command =
  sc_tc_id :: string
  sc_command :: string
  sc_cwd :: "string option"

record fold_t =
  f_ver :: nat
  f_items :: "item_role hmap"
  f_subagents :: "subagent_obs hmap"
  f_done :: hset
  f_idc :: nat
  f_native_subagents :: bool
  f_air_subagents :: bool
  f_spawned_subagents :: hset
  f_subagent_states :: "string hmap"
  f_subagent_generations :: "nat hmap"
  f_child_reads :: hset
  f_child_reads_in_flight :: hset
  f_held_child_states :: "notif hmap"
  f_air_async_tasks :: bool
  f_compaction_supported :: bool
  f_announced_tasks :: hset
  f_workflow_tasks :: "string hmap"
  f_workflow_children :: "workflow_obs hmap"
  f_superseded_workflows :: hset
  f_hook_handlers :: "hook_fact hmap"
  f_async_task_msp_ids :: "string hmap"
  f_async_task_states :: "string hmap"
  f_backgrounded_cards :: hset
  f_reminder_cards :: "string hmap"
  f_show_reminders :: bool
  f_replaying :: bool
  f_workspace_root :: string
  f_patch_diffs :: "card_content hmap"
  f_editor_terminals :: "card_content hmap"
  f_editor_calls :: "(string \<times> string \<times> string \<times> J) list"
  f_streamed_output :: "nat hmap"
  f_shell_commands :: "shell_command hmap"
  f_terminals :: "(string \<times> nat) hmap"
  f_monitor_cards :: hset
  f_monitor_inbox :: "inbox_item hmap"
  f_awaiting_anchor :: "(string \<times> J) list"
  f_background_checks :: "(string \<times> string) option"
  f_model_retry :: "string option"
  f_last_message :: "(string \<times> string) option"
  f_cut_off :: hset
  f_held_items :: hset

definition session_fold_new :: fold_t where
  "session_fold_new = \<lparr>f_ver = 1, f_items = [], f_subagents = [], f_done = [], f_idc = 1,
     f_native_subagents = False, f_air_subagents = False, f_spawned_subagents = [],
     f_subagent_states = [], f_subagent_generations = [], f_child_reads = [],
     f_child_reads_in_flight = [], f_held_child_states = [], f_air_async_tasks = False,
     f_compaction_supported = False, f_announced_tasks = [], f_workflow_tasks = [],
     f_workflow_children = [], f_superseded_workflows = [], f_hook_handlers = [],
     f_async_task_msp_ids = [], f_async_task_states = [], f_backgrounded_cards = [],
     f_reminder_cards = [], f_show_reminders = False, f_replaying = False, f_workspace_root = [],
     f_patch_diffs = [], f_editor_terminals = [], f_editor_calls = [], f_streamed_output = [],
     f_shell_commands = [], f_terminals = [], f_monitor_cards = [], f_monitor_inbox = [],
     f_awaiting_anchor = [], f_background_checks = None, f_model_retry = None,
     f_last_message = None, f_cut_off = [], f_held_items = []\<rparr>"

type_synonym handler = "(fold_t, notif) step"

text \<open>Set insertion and removal, and \<^verbatim>\<open>entry(k).or_insert(v)\<close>.\<close>

definition sput :: "string \<Rightarrow> hset \<Rightarrow> hset" where
  "sput x xs = List.insert x xs"

definition sdel :: "string \<Rightarrow> hset \<Rightarrow> hset" where
  "sdel x xs = removeAll x xs"

definition or_insert :: "string \<Rightarrow> 'a \<Rightarrow> 'a hmap \<Rightarrow> 'a hmap" where
  "or_insert k v m = (if hhas m k then m else hput k v m)"

lemma set_sput [simp]: "set (sput x xs) = insert x (set xs)"
  by (simp add: sput_def)

lemma set_sdel [simp]: "set (sdel x xs) = set xs - {x}"
  by (simp add: sdel_def)

lemma hget_or_insert [simp]:
  "hget (or_insert k v m) k' = (if k' = k \<and> hget m k = None then Some v else hget m k')"
  by (auto simp: or_insert_def)

section \<open>Observations\<close>

definition str_or :: "J \<Rightarrow> string \<Rightarrow> string \<Rightarrow> string" where
  "str_or item key dflt = unwrap_or (str_at item key) dflt"

definition is_true :: "J \<Rightarrow> string \<Rightarrow> bool" where
  "is_true item key \<longleftrightarrow> jget item key = Some (JBool True)"

definition observe_subagent :: "J \<Rightarrow> fold_t \<Rightarrow> fold_t" where
  "observe_subagent item s =
     (if str_at item ''kind'' \<noteq> Some ''subagent'' then s
      else case str_at item ''subagentId'' of
             None \<Rightarrow> s
           | Some i \<Rightarrow>
               if i = [] then s
               else s\<lparr>f_subagents := hput i
                 \<lparr>item_status = str_or item ''status'' ''inProgress'',
                  control_status = str_or item ''controlStatus'' [],
                  child_session = str_or item ''childSessionId'' []\<rparr> (f_subagents s)\<rparr>)"

definition parse_workflow_child :: "string \<Rightarrow> J \<Rightarrow> workflow_child option" where
  "parse_workflow_child run_id child =
     (case (str_at child ''childId'', u64_at child ''attempt'') of
        (Some cid, Some attempt) \<Rightarrow>
          if cid \<noteq> [] \<and> 1 \<le> attempt
          then Some \<lparr>wc_run_id = run_id, wc_child_id = cid, wc_attempt = attempt,
            wc_status = str_or child ''status'' ''unknown'', wc_label = str_or child ''label'' ''child''\<rparr>
          else None
      | _ \<Rightarrow> None)"

text \<open>The successor generation named by \<^verbatim>\<open>resumeFromRunId\<close> takes its predecessor out of the live runs
  for good.\<close>

definition supersede :: "string \<Rightarrow> fold_t \<Rightarrow> fold_t" where
  "supersede p s = s\<lparr>f_workflow_children := hdel p (f_workflow_children s),
     f_superseded_workflows := sput p (f_superseded_workflows s)\<rparr>"

definition workflow_stale :: "J \<Rightarrow> string \<Rightarrow> fold_t \<Rightarrow> bool" where
  "workflow_stale item run_id s \<longleftrightarrow>
     non_empty_str item ''resumeFromRunId'' = None \<and>
     (case hget (f_workflow_children s) run_id of
        Some seen \<Rightarrow> unwrap_or (u64_at item ''revision'') 0 < wo_revision seen
      | None \<Rightarrow> False)"

definition workflow_snapshot :: "J \<Rightarrow> string \<Rightarrow> workflow_obs" where
  "workflow_snapshot item run_id =
     \<lparr>wo_revision = unwrap_or (u64_at item ''revision'') 0,
      wo_paused = unwrap_or (bool_at item ''paused'') False,
      wo_children = (case jget item ''children'' of
        Some (JArr cs) \<Rightarrow> List.map_filter (parse_workflow_child run_id) cs | _ \<Rightarrow> [])\<rparr>"

definition observe_workflow :: "J \<Rightarrow> bool \<Rightarrow> fold_t \<Rightarrow> fold_t" where
  "observe_workflow item completed s =
     (if str_at item ''kind'' \<noteq> Some ''workflow'' then s
      else case non_empty_str item ''workflowRunId'' of
             None \<Rightarrow> s
           | Some run_id \<Rightarrow>
               if run_id \<in> set (f_superseded_workflows s) then s
               else if completed \<or> str_or item ''status'' [] \<in> {''completed'', ''failed'', ''cancelled''}
               then s\<lparr>f_workflow_children := hdel run_id (f_workflow_children s)\<rparr>
               else
                 let s1 = (case non_empty_str item ''resumeFromRunId'' of
                             Some p \<Rightarrow> if p \<noteq> run_id then supersede p s else s
                           | None \<Rightarrow> s)
                 in if workflow_stale item run_id s1 then s1
                    else s1\<lparr>f_workflow_children :=
                      hput run_id (workflow_snapshot item run_id) (f_workflow_children s1)\<rparr>)"

text \<open>The listings are ordered by run id; run ids compare as byte strings.\<close>

definition sorted_runs :: "fold_t \<Rightarrow> (string \<times> workflow_obs) list" where
  "sorted_runs s =
     map (\<lambda>k. (k, the (hget (f_workflow_children s) k)))
       (sorted_list_of_set (set (map fst (f_workflow_children s))))"

definition workflow_children :: "fold_t \<Rightarrow> workflow_child list" where
  "workflow_children s = concat (map (\<lambda>(r, seen). wo_children seen) (sorted_runs s))"

definition workflow_runs :: "fold_t \<Rightarrow> workflow_run list" where
  "workflow_runs s = map (\<lambda>(r, seen).
     \<lparr>wr_run_id = r, wr_paused = wo_paused seen, wr_child_count = length (wo_children seen)\<rparr>) (sorted_runs s)"

definition note_hook_inventory :: "J \<Rightarrow> fold_t \<Rightarrow> fold_t" where
  "note_hook_inventory result s =
     s\<lparr>f_hook_handlers :=
       (case jget result ''hooks'' of
          Some (JArr hooks) \<Rightarrow>
            foldl (\<lambda>m hook. case non_empty_str hook ''key'' of
                None \<Rightarrow> m
              | Some key \<Rightarrow> hput key \<lparr>handler_kind = str_or hook ''handlerKind'' [],
                  hook_enabled = is_true hook ''enabled''\<rparr> m) [] hooks
        | _ \<Rightarrow> [])\<rparr>"

section \<open>Queries\<close>

definition subagent :: "fold_t \<Rightarrow> string \<Rightarrow> subagent_obs option" where
  "subagent s i = hget (f_subagents s) i"

definition subagent_id_for_child :: "fold_t \<Rightarrow> string \<Rightarrow> string option" where
  "subagent_id_for_child s child =
     map_option fst (find (\<lambda>(i, ob). child_session ob = child) (f_subagents s))"

definition workflow_run_id_for_task :: "fold_t \<Rightarrow> string \<Rightarrow> string option" where
  "workflow_run_id_for_task s task = (if f_air_async_tasks s then hget (f_workflow_tasks s) task else None)"

definition async_task_id_for :: "fold_t \<Rightarrow> string \<Rightarrow> string \<Rightarrow> string" where
  "async_task_id_for s msp_task_id fallback =
     unwrap_or (map_option fst (find (\<lambda>(air_id, msp). msp = msp_task_id) (f_async_task_msp_ids s))) fallback"

definition async_task_settled :: "fold_t \<Rightarrow> string \<Rightarrow> bool" where
  "async_task_settled s task = hhas (f_async_task_states s) task"

definition msp_task_id :: "fold_t \<Rightarrow> string \<Rightarrow> string option" where
  "msp_task_id s task = hget (f_async_task_msp_ids s) task"

definition has_active_item :: "fold_t \<Rightarrow> string \<Rightarrow> bool" where
  "has_active_item s i = hhas (f_items s) i"

definition editor_card :: "fold_t \<Rightarrow> string option \<Rightarrow> string \<Rightarrow> string \<Rightarrow> string \<Rightarrow> string option" where
  "editor_card s call_id tool key v =
     map_option (\<lambda>(i, tc, name, args). tc)
       (find (\<lambda>(i, tc, name, args).
          case call_id of Some c \<Rightarrow> tc = c | None \<Rightarrow> name = tool \<and> str_at args key = Some v)
        (f_editor_calls s))"

definition tool_call_id :: "fold_t \<Rightarrow> string \<Rightarrow> string option" where
  "tool_call_id s i = (case hget (f_items s) i of Some (RTool tc a) \<Rightarrow> Some tc | _ \<Rightarrow> None)"

fun is_tool :: "item_role \<Rightarrow> bool" where
  "is_tool (RTool tc a) = True"
| "is_tool _ = False"

definition has_running_work :: "fold_t \<Rightarrow> bool" where
  "has_running_work s \<longleftrightarrow>
     list_ex (\<lambda>(i, r). is_tool r) (f_items s) \<or>
     list_ex (\<lambda>(i, ob). item_status ob \<notin> {''completed'', ''failed'', ''rejected'', ''cancelled'', ''timedOut''})
       (f_subagents s) \<or>
     f_workflow_children s \<noteq> []"

definition known :: "fold_t \<Rightarrow> string \<Rightarrow> bool" where
  "known s i \<longleftrightarrow> i \<in> set (f_done s)"

text \<open>\<^verbatim>\<open>mint_id(prefix, &self.idc)\<close>.\<close>

definition fold_mint :: "env \<Rightarrow> string \<Rightarrow> fold_t \<Rightarrow> string \<times> fold_t" where
  "fold_mint E pre s =
     (case mint_id pre (f_idc s) (e_rand E (f_idc s)) of (i, n) \<Rightarrow> (i, s\<lparr>f_idc := n\<rparr>))"

section \<open>Superseded workflow runs\<close>

definition workflow_inv :: "fold_t \<Rightarrow> bool" where
  "workflow_inv s \<longleftrightarrow>
     (\<forall>r \<in> set (f_superseded_workflows s). hget (f_workflow_children s) r = None) \<and>
     (\<forall>r ob. hget (f_workflow_children s) r = Some ob \<longrightarrow> (\<forall>ch \<in> set (wo_children ob). wc_run_id ch = r))"

lemma snapshot_children_run: "ch \<in> set (wo_children (workflow_snapshot item r)) \<Longrightarrow> wc_run_id ch = r"
  by (auto simp: workflow_snapshot_def parse_workflow_child_def map_filter_def split: option.splits J.splits if_splits)

lemma observe_workflow_inv:
  assumes "workflow_inv s"
  shows "workflow_inv (observe_workflow item completed s)"
    and "set (f_superseded_workflows s) \<subseteq> set (f_superseded_workflows (observe_workflow item completed s))"
proof -
  have sup: "workflow_inv (supersede p s)" for p
    using assms by (auto simp: workflow_inv_def supersede_def split: if_splits)
  have put: "workflow_inv (s'\<lparr>f_workflow_children := hput r (workflow_snapshot item r) (f_workflow_children s')\<rparr>)"
    if "workflow_inv s'" "r \<notin> set (f_superseded_workflows s')" for s' r
    using that snapshot_children_run by (auto simp: workflow_inv_def split: if_splits)
  have del: "workflow_inv (s\<lparr>f_workflow_children := hdel r (f_workflow_children s)\<rparr>)" for r
    using assms by (auto simp: workflow_inv_def split: if_splits)
  show "workflow_inv (observe_workflow item completed s)"
    unfolding observe_workflow_def Let_def
    by (auto simp: assms del intro!: put sup split: option.split) (auto simp: supersede_def)
  show "set (f_superseded_workflows s) \<subseteq> set (f_superseded_workflows (observe_workflow item completed s))"
    by (auto simp: observe_workflow_def Let_def supersede_def split: option.split)
qed

lemma listed_not_superseded:
  assumes "workflow_inv s" "r \<in> set (f_superseded_workflows s)"
  shows "r \<notin> wr_run_id ` set (workflow_runs s)" "r \<notin> wc_run_id ` set (workflow_children s)"
proof -
  have none: "r \<notin> fst ` set (f_workflow_children s)"
    using assms by (auto simp: workflow_inv_def map_of_eq_None_iff)
  have run: "wc_run_id ch = q" if "hget (f_workflow_children s) q = Some ob" "ch \<in> set (wo_children ob)" for q ob ch
    using assms(1) that by (auto simp: workflow_inv_def)
  show "r \<notin> wr_run_id ` set (workflow_runs s)"
    using none by (force simp: workflow_runs_def sorted_runs_def)
  show "r \<notin> wc_run_id ` set (workflow_children s)"
  proof
    assume "r \<in> wc_run_id ` set (workflow_children s)"
    then obtain q ch where q: "q \<in> fst ` set (f_workflow_children s)" "wc_run_id ch = r"
        "ch \<in> set (wo_children (the (hget (f_workflow_children s) q)))"
      by (auto simp: workflow_children_def sorted_runs_def)
    then obtain ob where "hget (f_workflow_children s) q = Some ob"
      by (metis map_of_eq_None_iff option.exhaust)
    with run [of q ob ch] q none show False by auto
  qed
qed

end
