(* ===== verification/Fold_Cards.thy ===== *)
theory Fold_Cards
  imports Fold_State
begin

text \<open>
  The cards and lines the fold builds from an item (\<^verbatim>\<open>src/fold.rs\<close>): message metadata, synthetic
  cards of host-side work (one definition per item kind of \<^verbatim>\<open>host_card_parts\<close>), compaction, tool
  cards with their titles, locations and statuses, and the subagent and async-task updates. None of
  them changes the state.
\<close>

section \<open>Message chunks and their metadata\<close>

definition fold_chunk :: "string \<Rightarrow> nat \<Rightarrow> string \<Rightarrow> string \<Rightarrow> notif" where
  "fold_chunk sid ver msg_id s = out_chunk sid ver Agent msg_id s None"

definition thought_chunk :: "string \<Rightarrow> nat \<Rightarrow> string \<Rightarrow> string \<Rightarrow> notif" where
  "thought_chunk sid ver msg_id s = out_chunk sid ver Thought msg_id s None"

definition is_cut_off :: "J \<Rightarrow> bool" where
  "is_cut_off item \<longleftrightarrow> str_at item ''kind'' = Some ''agentMessage'' \<and> is_true item ''cutOff''"

definition message_phase :: "J \<Rightarrow> string" where
  "message_phase item =
     (if str_at item ''kind'' = Some ''agentMessage'' \<and> str_at item ''messagePhase'' = Some ''commentary''
      then ''commentary'' else ''finalAnswer'')"

definition wake_sources :: "J \<Rightarrow> string list" where
  "wake_sources item =
     (if str_at item ''kind'' = Some ''agentMessage'' then
        (case jget item ''wakeSourceDescriptions'' of
           Some (JArr vs) \<Rightarrow>
             if list_ex (\<lambda>v. as_str v \<noteq> None) vs
             then [member ''wakeSourceDescriptions'' (j_to_string (JArr vs))] else []
         | _ \<Rightarrow> [])
      else [])"

definition message_meta :: "env \<Rightarrow> string option \<Rightarrow> string option \<Rightarrow> J \<Rightarrow> meta_t option" where
  "message_meta E phase cut_off item =
     muse_meta (e_serde E) (comma_join
       ((case phase of Some p \<Rightarrow> [member ''messagePhase'' (esc p)] | None \<Rightarrow> []) @
        (case cut_off of Some i \<Rightarrow> [member ''cutOff'' ''true'' @ '','' @ member ''itemId'' (esc i)] | None \<Rightarrow> []) @
        wake_sources item))"

definition marked_chunk :: "string \<Rightarrow> nat \<Rightarrow> string \<Rightarrow> string \<Rightarrow> meta_t option \<Rightarrow> notif" where
  "marked_chunk sid ver msg_id s m = out_chunk sid ver Agent msg_id s m"

section \<open>Cards\<close>

definition host_cut :: string where
  "host_cut = member ''source'' (quoted ''host'')"

definition opt_members :: "string option \<Rightarrow> string list" where
  "opt_members ms = (case ms of Some x \<Rightarrow> if x = [] then [] else [x] | None \<Rightarrow> [])"

definition card_line ::
  "env \<Rightarrow> string \<Rightarrow> nat \<Rightarrow> bool \<Rightarrow> string \<Rightarrow> string \<Rightarrow> string \<Rightarrow> string \<Rightarrow> string option \<Rightarrow>
   string option \<Rightarrow> bool \<Rightarrow> notif" where
  "card_line E sid ver create tc_id title kind status content muse host_truncated =
     (let cut = Option.bind content (\<lambda>t. snd (trunc E t));
          ms = opt_members muse @
            (if host_truncated then [member_obj ''truncated'' host_cut]
             else case cut of Some c \<Rightarrow> [member_obj ''truncated'' c] | None \<Rightarrow> [])
      in card_note
           ((card_new tc_id)\<lparr>c_title := Some (visible_title title), c_kind := Some kind,
              c_status := Some status,
              c_content := map_option (\<lambda>t. [Text (fst (trunc E t))]) content,
              c_meta := muse_meta (e_serde E) (comma_join ms)\<rparr>)
           sid ver create)"

definition not_null :: "J option \<Rightarrow> J option" where
  "not_null v = (case v of Some JNull \<Rightarrow> None | _ \<Rightarrow> v)"

text \<open>Members for the keys that are present and not null, printed as they are.\<close>

definition present_members :: "(string \<times> J option) list \<Rightarrow> string list" where
  "present_members kvs =
     List.map_filter (\<lambda>(k, v). map_option (\<lambda>x. member k (j_to_string x)) (not_null v)) kvs"

definition some_if_nonempty :: "string list \<Rightarrow> string option" where
  "some_if_nonempty parts = (if parts = [] then None else Some (comma_join parts))"

definition item_muse_fields :: "J \<Rightarrow> string option" where
  "item_muse_fields item =
     some_if_nonempty (present_members (map (\<lambda>k. (k, jget item k))
       [''itemId'', ''outputRef'', ''patchRef'', ''patchSummary'', ''workId'', ''replayHint'']))"

definition merge_muse_fields :: "string option \<Rightarrow> string option \<Rightarrow> string option" where
  "merge_muse_fields base item = some_if_nonempty (opt_members item @ opt_members base)"

section \<open>Compaction\<close>

definition compaction_status :: "J \<Rightarrow> string" where
  "compaction_status item =
     (let status = str_or item ''status'' []; outcome = str_or item ''outcome'' [] in
      if status \<in> {''inProgress'', ''in_progress'', ''running'', ''started''} then ''in_progress''
      else if status = ''cancelled'' then ''cancelled''
      else if outcome = ''compacted'' then ''completed''
      else if outcome = ''noop'' then ''_museNoop''
      else if outcome = ''cancelled'' then ''cancelled''
      else if outcome = ''failed'' then ''failed''
      else if status = ''completed'' then ''completed''
      else if status \<in> {''failed'', ''rejected'', ''timedOut''} then ''failed''
      else ''_museUnknown'')"

definition compaction_meta :: "J \<Rightarrow> string" where
  "compaction_meta item =
     comma_join ([member ''version'' ''1''] @
       List.map_filter (\<lambda>k. map_option (\<lambda>v. member k (esc v)) (str_at item k))
         [''status'', ''outcome'', ''reason'', ''trigger'', ''strategyId'', ''summarizedThrough''] @
       List.map_filter (\<lambda>k. map_option (\<lambda>v. member k (show_nat v)) (u64_at item k))
         [''tokensBefore'', ''tokensAfter''])"

definition standard_compaction_line :: "env \<Rightarrow> string \<Rightarrow> nat \<Rightarrow> string \<Rightarrow> J \<Rightarrow> notif" where
  "standard_compaction_line E sid ver item_id item =
     (let status = compaction_status item;
          err = (if status = ''failed'' then non_empty_str item ''reason'' else None)
      in out_compaction sid ver item_id status err
           (muse_meta (e_serde E) (member_obj ''contextCompaction'' (compaction_meta item))))"

definition legacy_compaction_line :: "env \<Rightarrow> string \<Rightarrow> nat \<Rightarrow> string \<Rightarrow> string \<Rightarrow> string option \<Rightarrow> notif" where
  "legacy_compaction_line E sid ver item_id status content =
     card_note
       ((card_new (''compact-'' @ item_id))\<lparr>c_title := Some ''Compact conversation'', c_kind := Some ''think'',
          c_status := Some status, c_content := map_option (\<lambda>t. [Text t]) content,
          c_meta := meta (e_serde E) (''{'' @ member_obj ''contextCompaction'' (member ''version'' ''1'') @ ''}'')\<rparr>)
       sid ver (status = ''in_progress'')"

definition compaction_content :: "J \<Rightarrow> string option" where
  "compaction_content item =
     (let outcome = str_or item ''outcome'' [] in
      if outcome = ''compacted'' then
        (case (u64_at item ''tokensBefore'', u64_at item ''tokensAfter'') of
           (Some b, Some a) \<Rightarrow>
             Some (''Context compacted ('' @ show_nat b @ '' '' @ utf8_encode 0x2192 @ '' '' @ show_nat a @ '' tokens)'')
         | _ \<Rightarrow> Some ''Context compacted'')
      else if outcome = ''noop'' then Some (''Nothing to compact ('' @ str_or item ''reason'' ''noop'' @ '')'')
      else if outcome = ''failed'' \<or> outcome = ''cancelled''
      then Some (''Compaction '' @ outcome @ '': '' @ str_or item ''reason'' ''no reason given'')
      else None)"

section \<open>Host cards, kind by kind\<close>

text \<open>Title, content and \<^verbatim>\<open>_meta.muse\<close> members.\<close>

type_synonym card_parts = "string \<times> string option \<times> string option"

definition meta_obj :: "string \<Rightarrow> (string \<times> J option) list \<Rightarrow> string option" where
  "meta_obj ns kvs =
     (let parts = present_members kvs in
      if parts = [] then None else Some (member_obj ns (comma_join parts)))"

definition str_field :: "J \<Rightarrow> string \<Rightarrow> string" where
  "str_field item key = str_or item key []"

definition some_text :: "string \<Rightarrow> string option" where
  "some_text s = (if s = [] then None else Some s)"

definition result_at :: "J \<Rightarrow> string \<Rightarrow> J option" where
  "result_at item key = Option.bind (jget item ''result'') (\<lambda>r. jget r key)"

definition subagent_parts :: "J \<Rightarrow> card_parts" where
  "subagent_parts item =
     (let agent = str_field item ''agentPath''; objective = str_field item ''objective'';
          title = (if agent \<noteq> [] \<and> objective \<noteq> [] then agent @ '': '' @ objective
                   else if agent \<noteq> [] then agent
                   else if objective \<noteq> [] then objective
                   else str_field item ''fallbackText'');
          drained = (result_at item ''drained'' = Some (JBool True));
          content = or_else (Option.bind (result_at item ''summary'') as_str)
            (some_text (str_field item ''failureReason''));
          content' = (if drained then
              Some (case content of
                      Some t \<Rightarrow> t @ [newline] @ ''Delivered to the parent agent.''
                    | None \<Rightarrow> ''Delivered to the parent agent.'')
            else content)
      in (title, content',
          meta_obj ''subagent''
            [(''subagentId'', jget item ''subagentId''), (''childSessionId'', jget item ''childSessionId''),
             (''controlStatus'', jget item ''controlStatus''), (''depth'', jget item ''depth''),
             (''drained'', if drained then Some (JBool True) else None)]))"

definition workflow_child_line :: "J \<Rightarrow> string" where
  "workflow_child_line c =
     (let label = str_or c ''label'' ''child'';
          label' = (case non_empty_str c ''childId'' of Some i \<Rightarrow> label @ '' ['' @ i @ '']'' | None \<Rightarrow> label);
          status = str_or c ''status'' ''unknown''
      in case str_at c ''phase'' of
           Some p \<Rightarrow> label' @ '': '' @ status @ '' ('' @ p @ '')''
         | None \<Rightarrow> label' @ '': '' @ status)"

definition workflow_parts :: "J \<Rightarrow> card_parts" where
  "workflow_parts item =
     (let entry = str_field item ''entryId''; script = str_field item ''scriptId'';
          title = (if entry \<noteq> [] then ''Workflow '' @ entry
                   else if script \<noteq> [] then ''Workflow '' @ script else ''Workflow'');
          title' = (if bool_at item ''paused'' = Some True then title @ '' (paused)'' else title);
          content = (case jget item ''children'' of
              Some (JArr cs) \<Rightarrow> if cs = [] then None else Some (join [newline] (map workflow_child_line cs))
            | _ \<Rightarrow> None)
      in (title', content,
          meta_obj ''workflow'' (map (\<lambda>k. (k, jget item k))
            [''workflowRunId'', ''entryId'', ''scriptId'', ''triggerSource'', ''paused'', ''resumeFromRunId''])))"

definition hook_parts :: "fold_t \<Rightarrow> J \<Rightarrow> card_parts" where
  "hook_parts s item =
     (let key = str_field item ''hookKey''; label = str_field item ''label'';
          title = (if label \<noteq> [] then ''Hook '' @ label else if key \<noteq> [] then ''Hook '' @ key else ''Hook'');
          handler = (if key = [] then None else hget (f_hook_handlers s) key)
      in (title, some_text (str_field item ''reason''),
          meta_obj ''hookRun''
            (map (\<lambda>k. (k, jget item k)) [''hookKey'', ''event'', ''runStatus'', ''reason''] @
             [(''handlerKind'', map_option (\<lambda>h. JStr (handler_kind h)) handler),
              (''enabled'', map_option (\<lambda>h. JBool (hook_enabled h)) handler)])))"

definition append_fact :: "string \<Rightarrow> string \<Rightarrow> string" where
  "append_fact content line = (if content = [] then line else content @ [newline] @ line)"

definition user_shell_parts :: "J \<Rightarrow> card_parts" where
  "user_shell_parts item =
     (let command = str_field item ''commandText'';
          title = (if command = [] then ''User shell'' else command);
          content = str_field item ''visibleOutput'';
          content' = (case u64_at item ''exitCode'' of
              Some code \<Rightarrow> append_fact content (''exited with code '' @ show_nat code)
            | None \<Rightarrow>
                (case u64_at item ''exitSignal'' of
                   Some sig \<Rightarrow> append_fact content (''terminated by signal '' @ show_nat sig)
                 | None \<Rightarrow> content))
      in (title, some_text content',
          meta_obj ''userShell'' (map (\<lambda>k. (k, jget item k)) [''exitCode'', ''exitSignal''])))"

definition reminder_parts :: "env \<Rightarrow> J \<Rightarrow> card_parts" where
  "reminder_parts E item =
     (let agent = str_field item ''reminderAgentId''; task = str_field item ''taskId'';
          child = str_field item ''childSessionId''; log = str_field item ''childSessionLogPath'';
          generation = u64_at item ''generationId''; fallback = str_field item ''fallbackText'';
          title = (if agent \<noteq> [] then ''Reminder from '' @ agent
                   else if task \<noteq> [] then ''Reminder '' @ task
                   else if fallback \<noteq> [] then fallback
                   else if generation \<noteq> None \<or> child \<noteq> [] \<or> log \<noteq> []
                   then fallback_card_title E ''reminderChild''
                   else []);
          lines =
            (if fallback \<noteq> [] \<and> fallback \<noteq> title \<and> fallback \<noteq> ''Reminder child session'' then [fallback] else []) @
            (case generation of Some n \<Rightarrow> [''generation: '' @ show_nat n] | None \<Rightarrow> []) @
            (if task \<noteq> [] then [''task: '' @ task] else []) @
            (if child \<noteq> [] then [''child session: '' @ child] else []) @
            (if log \<noteq> [] then [''log: '' @ log] else [])
      in (title, if lines = [] then None else Some (join [newline] lines),
          meta_obj ''reminderChild'' (map (\<lambda>k. (k, jget item k))
            [''reminderAgentId'', ''generationId'', ''taskId'', ''childSessionId'', ''childSessionLogPath''])))"

definition monitor_parts :: "env \<Rightarrow> J \<Rightarrow> card_parts" where
  "monitor_parts E item =
     (let description = fst (trunc E (monitor_description item));
          title = fst (trunc E (if description = [] then ''Monitor event'' else ''Monitor: '' @ description))
      in (title, some_text (str_field item ''text''),
          Some (comma_join ([member ''itemKind'' (quoted ''monitorFeed'')] @
            (case non_empty_str item ''monitorId'' of Some m \<Rightarrow> [member ''monitorId'' (esc m)] | None \<Rightarrow> []) @
            (if description \<noteq> [] then [member ''monitorDescription'' (esc description)] else [])))))"

text \<open>The parts of an unknown kind, and of a kind whose own facts are missing.\<close>

definition fallback_parts :: "string \<Rightarrow> J \<Rightarrow> card_parts" where
  "fallback_parts kind item =
     (let t = str_field item ''fallbackText'' in
      (t, None, if t = [] then None else Some (member ''itemKind'' (esc kind))))"

definition terminal_outcome :: "string \<Rightarrow> string" where
  "terminal_outcome st =
     (if st = ''completed'' then ''finished'' else if st = ''failed'' then ''failed''
      else if st = ''cancelled'' then ''was cancelled'' else if st = ''timedOut'' then ''timed out''
      else if st = ''rejected'' then ''was rejected'' else ''ended'')"

definition background_parts :: "env \<Rightarrow> J \<Rightarrow> card_parts" where
  "background_parts E item =
     (case jget item ''backgroundTerminalCompletion'' of
        Some (JObj fs) \<Rightarrow>
          (let facts = JObj fs;
               outcome = terminal_outcome (str_field facts ''terminalStatus'');
               command = sanitize_one_line (str_field facts ''command'');
               title = (if command = [] then ''Background command '' @ outcome
                        else ''Background command '' @ outcome @ '': '' @ fst (trunc E command));
               t = str_field facts ''output'';
               t' = (if is_true facts ''outputTruncated''
                     then (if t \<noteq> [] \<and> last t \<noteq> newline then t @ [newline] else t) @ ''(output truncated by Muse)''
                     else t)
           in (title, some_text t',
               Some (member ''itemKind'' (esc ''backgroundTerminalCompletion'') @ '','' @
                 member ''backgroundTerminalCompletion'' (j_to_string facts))))
      | _ \<Rightarrow> fallback_parts ''backgroundTerminalCompletion'' item)"

definition history_line :: "J \<Rightarrow> string option" where
  "history_line m =
     (let role = str_field m ''role''; t = str_field m ''text'' in
      if role = ''user'' \<and> t \<noteq> [] then Some (''User: '' @ t)
      else if role = ''assistant'' \<and> t \<noteq> [] then Some (''Assistant: '' @ t) else None)"

definition earlier_parts :: "J \<Rightarrow> card_parts" where
  "earlier_parts item =
     (case jget item ''earlierHistory'' of
        Some (JObj fs) \<Rightarrow>
          (let lines = (case map_of fs ''messages'' of Some (JArr ms) \<Rightarrow> List.map_filter history_line ms | _ \<Rightarrow> [])
           in (''Earlier conversation'',
               if lines = [] then None else Some (join [newline, newline] lines),
               Some (member ''itemKind'' (quoted ''earlierHistory'') @ '','' @
                 member ''earlierHistory'' (j_to_string (JObj fs)))))
      | _ \<Rightarrow> fallback_parts ''earlierHistory'' item)"

definition counted :: "nat \<Rightarrow> string \<Rightarrow> string" where
  "counted n what = show_nat n @ '' '' @ what @ (if n = 1 then [] else ''s'')"

definition damaged_parts :: "J \<Rightarrow> card_parts" where
  "damaged_parts item =
     (case jget item ''damagedRange'' of
        Some (JObj fs) \<Rightarrow>
          (let rng = JObj fs; fallback = str_field item ''fallbackText'';
               count = (\<lambda>k. unwrap_or (u64_at rng k) 0);
               lines = (if fallback \<noteq> [] then [fallback] else []) @
                 [counted (count ''missingRecords'') ''missing record'' @ '', '' @
                  counted (count ''unreadableLines'') ''unreadable line''] @
                 (case (non_empty_str rng ''readableBeforeAt'', non_empty_str rng ''readableAfterAt'') of
                    (Some b, Some a) \<Rightarrow> [''Readable before '' @ b @ '' and again from '' @ a]
                  | (None, Some a) \<Rightarrow> [''The log starts damaged; readable again from '' @ a]
                  | _ \<Rightarrow> []) @
                 (case non_empty_str rng ''lastGoodTurnId'' of
                    Some t \<Rightarrow> [''Safe fork point: turn '' @ t @ '', the last finished turn before the damage'']
                  | None \<Rightarrow> [])
           in (''Damaged session log range'', Some (join [newline] lines),
               Some (member ''damagedRange'' (j_to_string rng))))
      | _ \<Rightarrow> fallback_parts ''damagedRange'' item)"

definition scheduled_parts :: "J \<Rightarrow> card_parts" where
  "scheduled_parts item =
     (let job = str_field item ''jobId''; delivery = u64_at item ''deliveryNumber'';
          at = (\<lambda>k. map_option utc_from_epoch_ms (u64_at item k));
          fallback = str_field item ''fallbackText'';
          lines = (if fallback \<noteq> [] then [fallback] else []) @
            (case delivery of Some n \<Rightarrow> [''Occurrence '' @ show_nat n] | None \<Rightarrow> []) @
            (case at ''scheduledFireAtMs'' of Some t \<Rightarrow> [''Scheduled for '' @ t] | None \<Rightarrow> []) @
            (case at ''nextFireAtMs'' of
               Some t \<Rightarrow> [''Next fire: '' @ t]
             | None \<Rightarrow> if delivery \<noteq> None then [''Final delivery''] else []);
          title = (if job = [] then (if fallback = [] then [] else ''Scheduled job fired'')
                   else ''Scheduled job '' @ job @ '' fired'');
          parts = List.map_filter (\<lambda>k. map_option (\<lambda>v. member k (j_to_string v)) (jget item k))
            [''jobId'', ''deliveryNumber'', ''scheduledFireAtMs'', ''nextFireAtMs'']
      in (title, if lines = [] then None else Some (join [newline] lines),
          Some (member_obj ''scheduledFire'' (comma_join parts))))"

definition host_card_parts :: "env \<Rightarrow> fold_t \<Rightarrow> string \<Rightarrow> J \<Rightarrow> card_parts" where
  "host_card_parts E s kind item =
     (if kind = ''subagent'' then subagent_parts item
      else if kind = ''workflow'' then workflow_parts item
      else if kind = ''hookRun'' then hook_parts s item
      else if kind = ''userShell'' then user_shell_parts item
      else if kind = ''reminderChild'' then reminder_parts E item
      else if kind = ''monitorFeed'' then monitor_parts E item
      else if kind = ''backgroundTerminalCompletion'' then background_parts E item
      else if kind = ''earlierHistory'' then earlier_parts item
      else if kind = ''damagedRange'' then damaged_parts item
      else if kind = ''scheduledFire'' then scheduled_parts item
      else fallback_parts kind item)"

section \<open>Subagent and task updates\<close>

definition set_meta :: "meta_t option \<Rightarrow> (string \<times> jvalue) list" where
  "set_meta m = (case m of Some x \<Rightarrow> [(''_meta'', VObject x)] | None \<Rightarrow> [])"

definition subagent_spawned_line ::
  "env \<Rightarrow> fold_t \<Rightarrow> string \<Rightarrow> nat \<Rightarrow> string \<Rightarrow> string \<Rightarrow> string \<Rightarrow> bool \<Rightarrow> string option \<Rightarrow> notif" where
  "subagent_spawned_line E s sid ver child name task running muse =
     (let m = Option.bind muse (muse_meta (e_serde E)) in
      if \<not> f_air_subagents s then
        subagent_update sid ver \<lparr>sa_session_id = child, sa_title = Some name, sa_description = Some task,
          sa_state = (if running then Some Running else None), sa_meta = m\<rparr>
      else
        air sid ver (VObject ([(''sessionUpdate'', VString ''subagent_spawned''),
          (''subagentSessionId'', VString child), (''name'', VString name), (''task'', VString task),
          (''capabilities'', VObject [])] @ set_meta m)))"

definition child_state_of :: "string \<Rightarrow> child_state" where
  "child_state_of st =
     (if st = ''running'' then Running else if st = ''completed'' then Completed
      else if st = ''failed'' then Failed else if st = ''cancelled'' then Cancelled else Disconnected)"

definition subagent_state_line :: "fold_t \<Rightarrow> string \<Rightarrow> nat \<Rightarrow> string \<Rightarrow> string \<Rightarrow> notif" where
  "subagent_state_line s sid ver child st =
     (if \<not> f_air_subagents s then
        subagent_update sid ver \<lparr>sa_session_id = child, sa_title = None, sa_description = None,
          sa_state = Some (child_state_of st), sa_meta = None\<rparr>
      else
        air sid ver (VObject [(''sessionUpdate'', VString ''subagent_state_update''),
          (''subagentSessionId'', VString child), (''state'', VString st)]))"

definition async_task_spawned_line ::
  "string \<Rightarrow> nat \<Rightarrow> string \<Rightarrow> string \<Rightarrow> string \<Rightarrow> string option \<Rightarrow> bool \<Rightarrow> string option \<Rightarrow> notif" where
  "async_task_spawned_line sid ver task_id name task_type work_id can_stop tool_call =
     air sid ver (VObject ([(''sessionUpdate'', VString ''async_task_spawned''),
       (''asyncTaskId'', VString task_id), (''name'', VString name), (''taskType'', VString task_type),
       (''description'', VString name), (''showInTranscript'', VBool False), (''canStop'', VBool can_stop)] @
       (case tool_call of Some tc \<Rightarrow> [(''toolCallId'', VString tc)] | None \<Rightarrow> []) @
       (case work_id of Some w \<Rightarrow> [(''_meta'', VObject [(''muse'', VObject [(''workId'', VString w)])])] | None \<Rightarrow> [])))"

definition async_task_state_line :: "string \<Rightarrow> nat \<Rightarrow> string \<Rightarrow> string \<Rightarrow> notif" where
  "async_task_state_line sid ver task_id st =
     air sid ver (VObject [(''sessionUpdate'', VString ''async_task_state_update''),
       (''asyncTaskId'', VString task_id), (''state'', VString st)])"

definition disconnected_task_line :: "string \<Rightarrow> nat \<Rightarrow> string \<Rightarrow> notif" where
  "disconnected_task_line sid ver task_id =
     air sid ver (VObject [(''sessionUpdate'', VString ''async_task_state_update''),
       (''asyncTaskId'', VString task_id), (''state'', VString ''failed''),
       (''_meta'', VObject [(''muse'', VObject [(''terminalUnknown'', VBool True),
          (''reason'', VString ''connection closed'')])])])"

definition backgrounded_tool_line :: "env \<Rightarrow> string \<Rightarrow> nat \<Rightarrow> string \<Rightarrow> notif" where
  "backgrounded_tool_line E sid ver tc_id =
     card_note ((card_new tc_id)\<lparr>c_meta := meta (e_serde E)
       (''{'' @ member_obj ''jetbrains'' (member_obj ''air'' (member_obj ''asyncTasks'' (member ''backgrounded'' ''true''))) @ ''}'')\<rparr>)
       sid ver False"

definition async_task_state :: "J \<Rightarrow> string option" where
  "async_task_state item =
     (let st = str_or item ''status'' [] in
      if st = ''completed'' then Some ''completed''
      else if st = ''failed'' \<or> st = ''rejected'' then Some ''failed''
      else if st = ''cancelled'' \<or> st = ''timedOut'' then Some ''stopped''
      else None)"

definition subagent_state :: "J \<Rightarrow> string option" where
  "subagent_state item =
     (let st = str_or item ''status'' []; control = str_or item ''controlStatus'' [] in
      if st = ''completed'' then Some ''completed''
      else if st = ''failed'' \<or> st = ''rejected'' then Some ''failed''
      else if st = ''cancelled'' \<or> st = ''timedOut'' then Some ''cancelled''
      else if control = ''resultReady'' then
        (case Option.bind (result_at item ''errorKind'') as_str of
           Some e \<Rightarrow> if e \<noteq> [] then Some ''failed'' else Some ''completed''
         | None \<Rightarrow> Some ''completed'')
      else if control = ''recoveryPending'' \<or> control = ''manualReconciliation'' then Some ''disconnected''
      else None)"

text \<open>The name and task of a spawned child, and its provenance members.\<close>

definition scalar_member :: "string \<times> J option \<Rightarrow> string option" where
  "scalar_member kv =
     (case snd kv of
        Some (JNum n) \<Rightarrow> Some (member (fst kv) (j_to_string (JNum n)))
      | Some (JStr t) \<Rightarrow> Some (member (fst kv) (j_to_string (JStr t)))
      | _ \<Rightarrow> None)"

definition subagent_spawn_facts :: "J \<Rightarrow> string \<times> string \<times> string option" where
  "subagent_spawn_facts item =
     (unwrap_or (non_empty_str item ''agentPath'') ''subagent'',
      unwrap_or (non_empty_str item ''objective'') ''Delegated task'',
      some_if_nonempty (List.map_filter scalar_member (map (\<lambda>k. (k, jget item k)) [''subagentId'', ''depth'', ''controlStatus''])))"

section \<open>Tool cards\<close>

record tool_update =
  tu_create :: bool
  tu_tc_id :: string
  tu_name :: "string option"
  tu_title :: string
  tu_kind :: string
  tu_status :: string
  tu_content_text :: "string option"
  tu_raw_input :: "string option"
  tu_locations :: "(string \<times> nat option) list option"
  tu_extra_content :: "card_content option"
  tu_muse_fields :: "string option"
  tu_host_truncated :: bool

definition tool_line :: "env \<Rightarrow> string \<Rightarrow> nat \<Rightarrow> tool_update \<Rightarrow> notif" where
  "tool_line E sid ver u =
     (let cut = (case tu_content_text u of
                   Some t \<Rightarrow> if tu_host_truncated u then Some host_cut else snd (trunc E t)
                 | None \<Rightarrow> None);
          ms = opt_members (tu_muse_fields u) @
            (case cut of Some c \<Rightarrow> [member_obj ''truncated'' c] | None \<Rightarrow> []);
          content = (case tu_content_text u of Some t \<Rightarrow> [Text (fst (trunc E t))] | None \<Rightarrow> []) @
            (case tu_extra_content u of Some x \<Rightarrow> [x] | None \<Rightarrow> [])
      in card_note
           ((card_new (tu_tc_id u))\<lparr>c_name := nonempty (tu_name u), c_title := Some (visible_title (tu_title u)),
              c_kind := Some (tu_kind u), c_status := Some (tu_status u),
              c_content := (if content = [] then None else Some content),
              c_raw_input := map_option (json_value (e_serde E)) (tu_raw_input u),
              c_locations := tu_locations u, c_meta := muse_meta (e_serde E) (comma_join ms)\<rparr>)
           sid ver (tu_create u))"

definition SHELL_TOOLS :: "string list" where
  "SHELL_TOOLS = [''bash'', ''shell'', ''workspace-shell'']"

text \<open>Arguments arrive as an object or as the JSON text of one.\<close>

definition item_args :: "J \<Rightarrow> J option" where
  "item_args item =
     (case jget item ''args'' of
        Some (JStr raw) \<Rightarrow> (case parse_json raw of Inr v \<Rightarrow> Some v | Inl e \<Rightarrow> None)
      | Some (JObj fs) \<Rightarrow> Some (JObj fs)
      | _ \<Rightarrow> None)"

definition shell_facts :: "fold_t \<Rightarrow> J \<Rightarrow> (string \<times> string option) option" where
  "shell_facts s item =
     (case str_at item ''kind'' of
        None \<Rightarrow> None
      | Some kind \<Rightarrow>
          if kind = ''userShell'' then map_option (\<lambda>c. (c, None)) (str_at item ''commandText'')
          else if kind = ''toolCall'' then
            (case str_at item ''tool'' of
               None \<Rightarrow> None
             | Some tool \<Rightarrow>
                 if to_ascii_lowercase tool \<notin> set SHELL_TOOLS then None
                 else Option.bind (item_args item) (\<lambda>args.
                   map_option (\<lambda>c. (c, Option.bind (str_at args ''workdir'') (absolute_tool_path (f_workspace_root s))))
                     (str_at args ''command'')))
          else None)"

definition location_keys :: "string \<Rightarrow> string list option" where
  "location_keys tool =
     (if tool \<in> {''read_file'', ''write_file'', ''edit_file'', ''create_file'', ''delete_file'', ''remove_file''}
      then Some [''path'', ''filePath'']
      else if tool \<in> {''mcp__editor__read_text_file'', ''mcp__editor__write_text_file'', ''mcp__editor__edit_text_file''}
      then Some [''path'']
      else if tool \<in> {''move_file'', ''rename_file''}
      then Some [''oldPath'', ''from'', ''sourcePath'', ''newPath'', ''to'', ''destinationPath'']
      else None)"

definition tool_locations :: "fold_t \<Rightarrow> J \<Rightarrow> (string \<times> nat option) list option" where
  "tool_locations s item =
     Option.bind (str_at item ''tool'') (\<lambda>tool.
       Option.bind (location_keys (to_ascii_lowercase tool)) (\<lambda>keys.
         Option.bind (item_args item) (\<lambda>args.
           let paths = foldl (\<lambda>ps key.
               case Option.bind (str_at args key) (absolute_tool_path (f_workspace_root s)) of
                 Some p \<Rightarrow> if p \<in> set ps then ps else ps @ [p]
               | None \<Rightarrow> ps) [] keys
           in if paths = [] then None else Some (map (\<lambda>p. (p, None)) paths))))"

definition detail_keys :: "string list" where
  "detail_keys = [''command'', ''cmd'', ''commandText'', ''displayText'', ''summary'', ''task'', ''objective'',
     ''query'', ''pattern'', ''path'', ''file'', ''filePath'', ''target'', ''url'', ''question'', ''prompt'']"

definition first_detail :: "J \<Rightarrow> string option" where
  "first_detail obj =
     (case List.map_filter (\<lambda>k. case str_at obj k of
          Some t \<Rightarrow> if trim t \<noteq> [] then Some t else None | None \<Rightarrow> None) detail_keys of
        t # ts \<Rightarrow> Some t | [] \<Rightarrow> None)"

definition args_detail :: "J \<Rightarrow> string option" where
  "args_detail item =
     (case jget item ''args'' of
        Some (JStr t) \<Rightarrow>
          (case parse_json t of
             Inr (JObj fs) \<Rightarrow> first_detail (JObj fs)
           | _ \<Rightarrow> if trim t \<noteq> [] \<and> trim t \<noteq> ''{}'' then Some t else None)
      | Some (JObj fs) \<Rightarrow> first_detail (JObj fs)
      | _ \<Rightarrow> None)"

definition tool_display_label :: "J \<Rightarrow> string option" where
  "tool_display_label item =
     Option.bind (jget item ''displayLabel'') (\<lambda>labels.
       let key = (if str_at item ''status'' = Some ''inProgress'' then ''active''
                  else if str_at item ''status'' = Some ''completed'' then ''done'' else ''neutral'')
       in case str_at labels key of
            Some l \<Rightarrow> if trim l \<noteq> [] then Some l else None
          | None \<Rightarrow> None)"

definition tool_title :: "J \<Rightarrow> string \<times> string" where
  "tool_title item =
     (let tool = str_or item ''tool'' ''tool'';
          title = (case tool_display_label item of
              Some l \<Rightarrow> l
            | None \<Rightarrow>
                let top = unwrap_or (Option.bind
                      (or_else (jget item ''commandText'') (or_else (jget item ''displayText'') (jget item ''summary'')))
                      as_str) [];
                    detail = (if top \<noteq> [] then top else unwrap_or (args_detail item) [])
                in if detail = [] then tool else tool @ '': '' @ detail);
          suffix = (if is_true item ''held'' then
              (if str_at item ''heldFor'' = Some ''approval'' then '' (waiting for approval)''
               else if str_at item ''heldFor'' = Some ''hook'' then '' (waiting for hook)''
               else '' (waiting before execution)'')
            else [])
      in (title @ suffix, tool))"

definition tool_status :: "J \<Rightarrow> string \<Rightarrow> string" where
  "tool_status item status =
     (if is_true item ''held'' \<and> status \<notin> {''completed'', ''failed'', ''cancelled'', ''rejected'', ''timedOut''}
      then ''pending'' else msp_status status)"

definition reminder_status :: "string \<Rightarrow> string" where
  "reminder_status status = (if status = ''cancelled'' then ''completed'' else msp_status status)"

section \<open>Replayed messages\<close>

definition message_text :: "J \<Rightarrow> string" where
  "message_text item =
     unwrap_or (or_else (if str_at item ''kind'' = Some ''userMessage'' then str_at item ''displayText'' else None)
       (str_at item ''text'')) []"

definition replay_message_line ::
  "env \<Rightarrow> string \<Rightarrow> nat \<Rightarrow> string \<Rightarrow> string \<Rightarrow> string \<Rightarrow> string option \<Rightarrow> string option \<Rightarrow> J \<Rightarrow> notif" where
  "replay_message_line E sid ver kind msg_id t cut_off phase item =
     out_message sid ver (kind = ''userMessage'') msg_id t (message_meta E phase cut_off item)"

definition replay_is_in_flight :: "J \<Rightarrow> bool" where
  "replay_is_in_flight item \<longleftrightarrow>
     (case str_at item ''status'' of
        Some st \<Rightarrow> st \<in> {''pending'', ''inProgress'', ''in_progress'', ''running'', ''started''}
      | None \<Rightarrow> False)"

definition row_anchor :: "J \<Rightarrow> string option" where
  "row_anchor item =
     or_else (non_empty_str item ''terminalRowAfterItemId'')
       (Option.bind (jget item ''replayHint'') (\<lambda>h. non_empty_str h ''afterItemId''))"

end
