(* ===== verification/Fold_Tasks.thy ===== *)
theory Fold_Tasks
  imports Fold_Cards
begin

text \<open>
  The stateful helpers of the fold (\<^verbatim>\<open>src/fold.rs\<close>) below the item handlers: the cut-off mark, held
  tool calls, AIR async tasks, subagents and their generations, reminder cards, background checks,
  the model-retry hint, ACP v2 terminals and monitor cards. A function that returns a value gives
  it beside the new state (and the notifications, when it emits any).
\<close>

section \<open>Messages\<close>

definition claim_cut_off :: "J \<Rightarrow> string \<Rightarrow> fold_t \<Rightarrow> bool \<times> fold_t" where
  "claim_cut_off item item_id s =
     (if is_cut_off item \<and> item_id \<notin> set (f_cut_off s)
      then (True, s\<lparr>f_cut_off := sput item_id (f_cut_off s)\<rparr>) else (False, s))"

fun streaming_role :: "item_role \<Rightarrow> bool" where
  "streaming_role (RMessage m n) = (0 < n)"
| "streaming_role _ = False"

definition message_streaming :: "fold_t \<Rightarrow> bool" where
  "message_streaming s \<longleftrightarrow> list_ex (\<lambda>(i, r). streaming_role r) (f_items s)"

definition mark_target :: "nat \<Rightarrow> string \<Rightarrow> fold_t \<Rightarrow> string option" where
  "mark_target ver item_id s =
     (case hget (f_items s) item_id of
        Some (RMessage msg_id streamed) \<Rightarrow> if 0 < streamed then Some msg_id else None
      | Some r \<Rightarrow> None
      | None \<Rightarrow>
          (case f_last_message s of
             Some (i, msg_id) \<Rightarrow> if i = item_id \<and> (ver = 2 \<or> \<not> message_streaming s) then Some msg_id else None
           | None \<Rightarrow> None))"

definition mark_cut_off :: "env \<Rightarrow> string \<Rightarrow> nat \<Rightarrow> J \<Rightarrow> handler" where
  "mark_cut_off E sid ver item =
     (case str_at item ''itemId'' of
        None \<Rightarrow> skip
      | Some item_id \<Rightarrow> with_state (\<lambda>s.
          if \<not> is_cut_off item \<or> item_id \<in> set (f_cut_off s) then skip
          else case mark_target ver item_id s of
                 None \<Rightarrow> skip
               | Some msg_id \<Rightarrow> do_all
                   [upd (\<lambda>s. s\<lparr>f_cut_off := sput item_id (f_cut_off s)\<rparr>),
                    emit (marked_chunk sid ver msg_id [] (message_meta E None (Some item_id) item))]))"

definition tool_muse_fields :: "string \<Rightarrow> J \<Rightarrow> fold_t \<Rightarrow> string option \<times> fold_t" where
  "tool_muse_fields item_id item s =
     (if is_true item ''held'' then
        (merge_muse_fields
           (Some (member ''held'' ''true'' @
              (case non_empty_str item ''heldFor'' of Some v \<Rightarrow> '','' @ member ''heldFor'' (esc v) | None \<Rightarrow> [])))
           (item_muse_fields item),
         s\<lparr>f_held_items := sput item_id (f_held_items s)\<rparr>)
      else if item_id \<in> set (f_held_items s) then
        (merge_muse_fields (Some (member ''held'' ''false'' @ '','' @ member ''heldFor'' ''null'')) (item_muse_fields item),
         s\<lparr>f_held_items := sdel item_id (f_held_items s)\<rparr>)
      else (merge_muse_fields None (item_muse_fields item), s))"

section \<open>Async tasks\<close>

definition task_known :: "string \<Rightarrow> fold_t \<Rightarrow> bool" where
  "task_known task_id s \<longleftrightarrow> task_id \<in> set (f_announced_tasks s) \<or> hhas (f_async_task_states s) task_id \<or>
     list_ex (\<lambda>(a, msp). msp = task_id) (f_async_task_msp_ids s)"

definition seed_name :: "J \<Rightarrow> string" where
  "seed_name row =
     (if str_or row ''tool'' [] \<noteq> [] then str_or row ''tool'' []
      else if str_or row ''kind'' [] \<noteq> [] then str_or row ''kind'' [] else ''task'')"

definition seed_type :: "J \<Rightarrow> string" where
  "seed_type row =
     (let kind = str_or row ''kind'' [] in
      if kind = ''tool'' \<or> starts_with kind ''tool.'' \<or> kind = [] then ''shell'' else kind)"

definition seed_async_task :: "string \<Rightarrow> J \<Rightarrow> fold_t \<Rightarrow> bool \<times> fold_t \<times> notif list" where
  "seed_async_task sid row s =
     (if \<not> f_air_async_tasks s \<or> str_at row ''executionMode'' = Some ''foreground'' then (False, s, [])
      else case non_empty_str row ''taskId'' of
             None \<Rightarrow> (False, s, [])
           | Some task_id \<Rightarrow>
               if task_known task_id s then (False, s, [])
               else (True,
                 s\<lparr>f_async_task_msp_ids := hput task_id task_id (f_async_task_msp_ids s),
                   f_announced_tasks := sput task_id (f_announced_tasks s)\<rparr>,
                 [async_task_spawned_line sid (f_ver s) task_id (seed_name row) (seed_type row) None True None]))"

definition put_task_state :: "string \<Rightarrow> string \<Rightarrow> string \<Rightarrow> handler" where
  "put_task_state sid task_id st = with_state (\<lambda>s.
     if hget (f_async_task_states s) task_id = Some st then skip
     else do_all
       [upd (\<lambda>s. s\<lparr>f_async_task_states := hput task_id st (f_async_task_states s)\<rparr>),
        emit (async_task_state_line sid (f_ver s) task_id st)])"

definition async_task_state_once :: "string \<Rightarrow> string \<Rightarrow> string \<Rightarrow> handler" where
  "async_task_state_once sid task_id st = do_all
     [upd (\<lambda>s. s\<lparr>f_workflow_tasks := hdel task_id (f_workflow_tasks s)\<rparr>), put_task_state sid task_id st]"

definition emit_async_task_state :: "string \<Rightarrow> string \<Rightarrow> J \<Rightarrow> handler" where
  "emit_async_task_state sid task_id item =
     (case async_task_state item of
        None \<Rightarrow> skip
      | Some st \<Rightarrow> do_all
          [upd (\<lambda>s. s\<lparr>f_async_task_msp_ids := hdel task_id (f_async_task_msp_ids s)\<rparr>), put_task_state sid task_id st])"

text \<open>\<^verbatim>\<open>if self.announced_tasks.insert(id) { push }\<close>.\<close>

definition announce_once :: "string \<Rightarrow> string \<Rightarrow> string \<Rightarrow> string option \<Rightarrow> string option \<Rightarrow> string \<Rightarrow> handler" where
  "announce_once sid name task_type work_id tool_call task_id = with_state (\<lambda>s.
     if task_id \<in> set (f_announced_tasks s) then skip
     else do_all
       [upd (\<lambda>s. s\<lparr>f_announced_tasks := sput task_id (f_announced_tasks s)\<rparr>),
        emit (async_task_spawned_line sid (f_ver s) task_id name task_type work_id True tool_call)])"

definition announce_async_task ::
  "string \<Rightarrow> string \<Rightarrow> string \<Rightarrow> string \<Rightarrow> string option \<Rightarrow> string option \<Rightarrow> handler" where
  "announce_async_task sid item_id task_id name work_id tool_call = do_all
     [upd (\<lambda>s. s\<lparr>f_async_task_msp_ids := or_insert task_id item_id (f_async_task_msp_ids s)\<rparr>),
      announce_once sid name ''shell'' work_id tool_call task_id]"

definition disconnect_tasks :: "string \<Rightarrow> nat \<Rightarrow> handler" where
  "disconnect_tasks sid ver = with_state (\<lambda>s0. for_each (\<lambda>task. with_state (\<lambda>s.
     if hhas (f_async_task_states s) task then skip
     else do_all
       [upd (\<lambda>s. s\<lparr>f_async_task_states := hput task ''failed'' (f_async_task_states s)\<rparr>),
        emit (disconnected_task_line sid ver task)])) (f_announced_tasks s0))"

definition background_task_id :: "string \<Rightarrow> fold_t \<Rightarrow> string option" where
  "background_task_id call_id s =
     (if call_id \<in> set (f_announced_tasks s) then Some call_id
      else case find (\<lambda>(i, r). case r of RTool tc a \<Rightarrow> tc = call_id | _ \<Rightarrow> False) (f_items s) of
             None \<Rightarrow> None
           | Some (item_id, r) \<Rightarrow>
               (let task_id = async_task_id_for s item_id call_id in
                if task_id \<in> set (f_announced_tasks s) then Some task_id else None))"

definition settle_background_completion :: "string \<Rightarrow> string \<Rightarrow> J \<Rightarrow> handler" where
  "settle_background_completion sid kind item = with_state (\<lambda>s.
     if kind \<noteq> ''backgroundTerminalCompletion'' \<or> \<not> f_air_async_tasks s then skip
     else case jget item ''backgroundTerminalCompletion'' of
            None \<Rightarrow> skip
          | Some facts \<Rightarrow>
              (case non_empty_str facts ''toolCallId'' of
                 None \<Rightarrow> skip
               | Some call_id \<Rightarrow>
                   (case background_task_id call_id s of
                      None \<Rightarrow> skip
                    | Some task_id \<Rightarrow>
                        if hhas (f_async_task_states s) task_id then skip
                        else
                          (case async_task_state
                              (JObj [(''status'', unwrap_or (jget facts ''terminalStatus'') JNull)]) of
                             None \<Rightarrow> skip
                           | Some st \<Rightarrow> async_task_state_once sid task_id st))))"

section \<open>Subagents\<close>

definition child_session_id :: "fold_t \<Rightarrow> string \<Rightarrow> string" where
  "child_session_id s child =
     (case hget (f_subagent_generations s) child of
        Some g \<Rightarrow> child @ '':generation:'' @ show_nat g | None \<Rightarrow> child)"

definition child_finished :: "fold_t \<Rightarrow> string \<Rightarrow> bool" where
  "child_finished s child \<longleftrightarrow> f_air_subagents s \<and> hhas (f_subagent_states s) child"

definition take_child_read :: "string \<Rightarrow> fold_t \<Rightarrow> bool \<times> fold_t" where
  "take_child_read child s =
     (child \<in> set (f_child_reads s), s\<lparr>f_child_reads := sdel child (f_child_reads s)\<rparr>)"

definition begin_child_read :: "string \<Rightarrow> fold_t \<Rightarrow> fold_t" where
  "begin_child_read i s = s\<lparr>f_child_reads_in_flight := sput i (f_child_reads_in_flight s)\<rparr>"

definition end_child_read :: "string \<Rightarrow> string \<Rightarrow> fold_t \<Rightarrow> (bool \<times> notif option) \<times> fold_t" where
  "end_child_read child i s =
     (let held = hget (f_held_child_states s) i;
          t = s\<lparr>f_child_reads_in_flight := sdel i (f_child_reads_in_flight s),
                f_held_child_states := hdel i (f_held_child_states s)\<rparr>;
          ended = (f_air_subagents t \<and> held = None \<and> (child_session_id t child \<noteq> i \<or> child_finished t child))
      in ((\<not> ended, held), t))"

text \<open>A child the host reports running after a settled state: a new generation for AIR, the state
  \<^verbatim>\<open>running\<close> otherwise.\<close>

definition release_held :: "string \<Rightarrow> handler" where
  "release_held child = with_state (\<lambda>s.
     case hget (f_held_child_states s) (child_session_id s child) of
       Some held \<Rightarrow> do_all
         [upd (\<lambda>s. s\<lparr>f_held_child_states := hdel (child_session_id s child) (f_held_child_states s)\<rparr>), emit held]
     | None \<Rightarrow> skip)"

definition next_generation :: "string \<Rightarrow> handler" where
  "next_generation child = upd (\<lambda>s. s\<lparr>f_subagent_generations :=
       hput child (unwrap_or (hget (f_subagent_generations s) child) 1 + 1) (f_subagent_generations s),
     f_child_reads := sput child (f_child_reads s)\<rparr>)"

definition announce_generation :: "env \<Rightarrow> string \<Rightarrow> string \<Rightarrow> J \<Rightarrow> handler" where
  "announce_generation E sid child item = with_state (\<lambda>s.
     case subagent_spawn_facts item of
       (name, task, muse) \<Rightarrow>
         emit (subagent_spawned_line E s sid (f_ver s) (child_session_id s child) name task True muse))"

definition rerun_subagent :: "env \<Rightarrow> string \<Rightarrow> string \<Rightarrow> J \<Rightarrow> handler" where
  "rerun_subagent E sid child item = with_state (\<lambda>s.
     if f_air_subagents s then do_all
       [release_held child, next_generation child, announce_generation E sid child item]
     else emit (subagent_state_line s sid (f_ver s) child ''running''))"

definition send_subagent_state :: "string \<Rightarrow> string \<Rightarrow> string \<Rightarrow> handler" where
  "send_subagent_state sid child st = with_state (\<lambda>s.
     if hget (f_subagent_states s) child = Some st \<or> child_finished s child then skip
     else do_all
       [upd (\<lambda>s. s\<lparr>f_subagent_states := hput child st (f_subagent_states s)\<rparr>),
        (let i = child_session_id s child; n = subagent_state_line s sid (f_ver s) i st in
         if f_air_subagents s \<and> i \<in> set (f_child_reads_in_flight s)
         then upd (\<lambda>s. s\<lparr>f_held_child_states := hput i n (f_held_child_states s)\<rparr>)
         else emit n)])"

definition settle_subagent :: "env \<Rightarrow> string \<Rightarrow> string \<Rightarrow> J \<Rightarrow> handler" where
  "settle_subagent E sid child item =
     (case subagent_state item of
        None \<Rightarrow> with_state (\<lambda>s.
          if str_at item ''controlStatus'' = Some ''running'' \<and> hhas (f_subagent_states s) child then do_all
            [upd (\<lambda>s. s\<lparr>f_subagent_states := hdel child (f_subagent_states s)\<rparr>), rerun_subagent E sid child item]
          else skip)
      | Some st \<Rightarrow> send_subagent_state sid child st)"

text \<open>Announcing a child once; the completion handler sends fewer facts than the snapshot handler.\<close>

definition spawn_subagent :: "env \<Rightarrow> string \<Rightarrow> string \<Rightarrow> J \<Rightarrow> bool \<Rightarrow> string option \<Rightarrow> handler" where
  "spawn_subagent E sid child item running muse = with_state (\<lambda>s.
     if child \<in> set (f_spawned_subagents s) then skip
     else do_all
       [upd (\<lambda>s. s\<lparr>f_spawned_subagents := sput child (f_spawned_subagents s)\<rparr>),
        (case subagent_spawn_facts item of
           (name, task, own) \<Rightarrow> emit (subagent_spawned_line E s sid (f_ver s) child name task running muse))])"

section \<open>Roles and reminder cards\<close>

definition role_prefix :: "string \<Rightarrow> string" where
  "role_prefix kind =
     (if kind = ''subagent'' then ''subagent-'' else if kind = ''workflow'' then ''workflow-''
      else if kind = ''userShell'' then ''shell-'' else ''item-'')"

definition host_item_role :: "string \<Rightarrow> string \<Rightarrow> fold_t \<Rightarrow> (string \<times> bool) \<times> fold_t" where
  "host_item_role item_id kind s =
     (case hget (f_items s) item_id of
        Some (RTool tc announced) \<Rightarrow> ((tc, announced), s)
      | _ \<Rightarrow>
          let i = role_prefix kind @ item_id in
          ((i, False), s\<lparr>f_items := hput item_id (RTool i False) (f_items s)\<rparr>))"

definition reminder_key :: "string \<Rightarrow> J \<Rightarrow> string" where
  "reminder_key item_id item =
     (case non_empty_str item ''reminderAgentId'' of
        Some a \<Rightarrow> ''agent:'' @ a | None \<Rightarrow> ''item:'' @ item_id)"

definition reminder_role :: "string \<Rightarrow> J \<Rightarrow> fold_t \<Rightarrow> (string \<times> bool) \<times> fold_t" where
  "reminder_role item_id item s =
     (let fresh =
        (case hget (f_reminder_cards s) (reminder_key item_id item) of
           Some tc \<Rightarrow> ((tc, False), s\<lparr>f_items := hput item_id (RTool tc True) (f_items s)\<rparr>)
         | None \<Rightarrow>
             let tc = ''reminder-'' @ item_id in
             ((tc, True), s\<lparr>f_reminder_cards := hput (reminder_key item_id item) tc (f_reminder_cards s),
                f_items := hput item_id (RTool tc True) (f_items s)\<rparr>))
      in case hget (f_items s) item_id of
           Some (RTool tc announced) \<Rightarrow> ((tc, \<not> announced), s)
         | _ \<Rightarrow> fresh)"

definition remove_item :: "string \<Rightarrow> handler" where
  "remove_item item_id = upd (\<lambda>s. s\<lparr>f_items := hdel item_id (f_items s)\<rparr>)"

definition ignore_item :: "string \<Rightarrow> handler" where
  "ignore_item item_id = upd (\<lambda>s. s\<lparr>f_items := or_insert item_id RIgnored (f_items s)\<rparr>)"

definition reminder_child_card :: "env \<Rightarrow> string \<Rightarrow> nat \<Rightarrow> string \<Rightarrow> J \<Rightarrow> string \<Rightarrow> bool \<Rightarrow> handler" where
  "reminder_child_card E sid ver item_id item status settle = with_state (\<lambda>s.
     case host_card_parts E s ''reminderChild'' item of
       (title, content, m) \<Rightarrow>
         if title = [] \<and> tool_call_id s item_id = None
         then (if settle then remove_item item_id else ignore_item item_id)
         else do_all
           [call (reminder_role item_id item) (\<lambda>(tc_id, create).
              emit (card_line E sid ver create tc_id
                (if title = [] then fallback_card_title E ''reminderChild'' else title) ''other''
                (reminder_status status) content (merge_muse_fields m (item_muse_fields item))
                (is_true item ''truncated''))),
            only_if settle (remove_item item_id)])"

section \<open>Turn hints\<close>

definition settle_background_checks :: "env \<Rightarrow> string \<Rightarrow> string option \<Rightarrow> string \<Rightarrow> bool \<Rightarrow> handler" where
  "settle_background_checks E sid turn status clear = with_state (\<lambda>s.
     case f_background_checks s of
       None \<Rightarrow> skip
     | Some (open_turn, tc_id) \<Rightarrow>
         if (case turn of Some t \<Rightarrow> open_turn \<noteq> t | None \<Rightarrow> False) then skip
         else do_all
           [upd (\<lambda>s. s\<lparr>f_background_checks := None\<rparr>),
            only_if (tc_id \<noteq> []) (emit (card_note ((card_new tc_id)\<lparr>c_status := Some status\<rparr>) sid (f_ver s) False)),
            only_if clear (emit (session_info sid (f_ver s) Keep None
              (meta (e_serde E) (''{'' @ member_obj ''muse'' (member ''foregroundCompleted'' ''null'') @ ''}''))))])"

definition checks_members :: "string \<Rightarrow> string list \<Rightarrow> string" where
  "checks_members turn_id agents =
     comma_join [member ''turnId'' (esc turn_id), member ''blockingAgents'' (''['' @ comma_join (map esc agents) @ '']'')]"

definition on_foreground_completed :: "env \<Rightarrow> string \<Rightarrow> nat \<Rightarrow> string \<Rightarrow> string list \<Rightarrow> handler" where
  "on_foreground_completed E sid ver turn_id agents = do_all
     [settle_background_checks E sid None ''completed'' False,
      emit (session_info sid ver Keep None
        (muse_meta (e_serde E) (member_obj ''foregroundCompleted'' (checks_members turn_id agents)))),
      with_state (\<lambda>s.
        if f_show_reminders s then upd (\<lambda>s. s\<lparr>f_background_checks := Some (turn_id, [])\<rparr>)
        else call (fold_mint E ''checks-'') (\<lambda>tc_id. do_all
          [emit (card_line E sid ver True tc_id
             (if agents = [] then ''Background checks'' else ''Background checks: '' @ join '', '' agents)
             ''other'' ''in_progress'' None (Some (checks_members turn_id agents)) False),
           upd (\<lambda>s. s\<lparr>f_background_checks := Some (turn_id, tc_id)\<rparr>)]))]"

definition retry_members :: "string \<Rightarrow> J \<Rightarrow> string" where
  "retry_members turn_id params =
     comma_join ([member ''turnId'' (esc turn_id)] @
       List.map_filter (\<lambda>k. map_option (\<lambda>n. member k (show_nat n)) (u64_at params k))
         [''attempt'', ''nextAttempt'', ''maxAttempts'', ''retryDelayMs''] @
       List.map_filter (\<lambda>k. map_option (\<lambda>t. member k (esc t)) (str_at params k)) [''errorKind'', ''system''] @
       (case u64_at params ''httpStatus'' of Some n \<Rightarrow> [member ''httpStatus'' (show_nat n)] | None \<Rightarrow> []))"

definition on_model_retry_scheduled :: "env \<Rightarrow> string \<Rightarrow> string \<Rightarrow> J \<Rightarrow> handler" where
  "on_model_retry_scheduled E sid turn_id params = with_state (\<lambda>s. do_all
     [emit (session_info sid (f_ver s) Keep None
        (muse_meta (e_serde E) (member_obj ''modelRetry'' (retry_members turn_id params)))),
      upd (\<lambda>s. s\<lparr>f_model_retry := Some turn_id\<rparr>)])"

definition clear_model_retry :: "env \<Rightarrow> string \<Rightarrow> string option \<Rightarrow> handler" where
  "clear_model_retry E sid turn = with_state (\<lambda>s.
     case f_model_retry s of
       None \<Rightarrow> skip
     | Some open_turn \<Rightarrow>
         if (case turn of Some t \<Rightarrow> open_turn \<noteq> t | None \<Rightarrow> False) then skip
         else do_all
           [upd (\<lambda>s. s\<lparr>f_model_retry := None\<rparr>),
            emit (session_info sid (f_ver s) Keep None
              (meta (e_serde E) (''{'' @ member_obj ''muse'' (member ''modelRetry'' ''null'') @ ''}'')))])"

section \<open>Terminals\<close>

definition note_shell :: "nat \<Rightarrow> string \<Rightarrow> string \<Rightarrow> J \<Rightarrow> handler" where
  "note_shell ver item_id tc_id item = upd (\<lambda>s.
     if ver \<noteq> 2 \<or> hhas (f_shell_commands s) item_id then s
     else case shell_facts s item of
            None \<Rightarrow> s
          | Some (command, cwd) \<Rightarrow>
              s\<lparr>f_shell_commands := hput item_id
                \<lparr>sc_tc_id = tc_id, sc_command = command, sc_cwd = cwd\<rparr> (f_shell_commands s)\<rparr>)"

definition open_terminal :: "string \<Rightarrow> string \<Rightarrow> fold_t \<Rightarrow> string option \<times> fold_t \<times> notif list" where
  "open_terminal sid item_id s =
     (case hget (f_terminals s) item_id of
        Some (term_id, n) \<Rightarrow> (Some term_id, s, [])
      | None \<Rightarrow>
          (case hget (f_shell_commands s) item_id of
             None \<Rightarrow> (None, s, [])
           | Some shell \<Rightarrow>
               let term_id = ''term-'' @ item_id in
               (Some term_id, s\<lparr>f_terminals := hput item_id (term_id, 0) (f_terminals s)\<rparr>,
                [terminal_opened sid term_id (sc_command shell) (sc_cwd shell),
                 card_note ((card_new (sc_tc_id shell))\<lparr>c_content := Some [Terminal term_id]\<rparr>) sid 2 False])))"

definition exit_code :: "J \<Rightarrow> int option" where
  "exit_code item =
     (case u64_at item ''exitCode'' of
        Some n \<Rightarrow> if n < 2 ^ 63 then Some (int n) else None | None \<Rightarrow> None)"

definition terminal_exit_note :: "env \<Rightarrow> string \<Rightarrow> string \<Rightarrow> J \<Rightarrow> notif" where
  "terminal_exit_note E sid term_id item =
     (let output = str_or item ''visibleOutput'' [];
          cut = (if is_true item ''truncated'' then Some host_cut else snd (trunc E output))
      in terminal_exited sid term_id (b64 (fst (trunc E output))) (exit_code item)
           (Option.bind (u64_at item ''exitSignal'') (\<lambda>n. muse_meta (e_serde E) (member ''exitSignal'' (show_nat n))))
           (Option.bind cut (\<lambda>c. muse_meta (e_serde E) (member_obj ''truncated'' c))))"

definition terminal_ran :: "string \<Rightarrow> J \<Rightarrow> string \<Rightarrow> fold_t \<Rightarrow> bool" where
  "terminal_ran item_id item status s \<longleftrightarrow>
     hhas (f_terminals s) item_id \<or> status = ''completed'' \<or>
     (status = ''failed'' \<and> str_or item ''visibleOutput'' [] \<noteq> [])"

definition finish_terminal ::
  "env \<Rightarrow> string \<Rightarrow> string \<Rightarrow> J \<Rightarrow> string \<Rightarrow> fold_t \<Rightarrow> card_content option \<times> fold_t \<times> notif list" where
  "finish_terminal E sid item_id item status s =
     (if \<not> terminal_ran item_id item status s
      then (None, s\<lparr>f_shell_commands := hdel item_id (f_shell_commands s)\<rparr>, [])
      else case open_terminal sid item_id s of
             (None, t, ns) \<Rightarrow> (None, t, ns)
           | (Some term_id, t, ns) \<Rightarrow>
               (Some (Terminal term_id),
                t\<lparr>f_terminals := hdel item_id (f_terminals t), f_shell_commands := hdel item_id (f_shell_commands t)\<rparr>,
                ns @ [terminal_exit_note E sid term_id item]))"

section \<open>Monitors\<close>

definition inbox_counts :: "fold_t \<Rightarrow> string \<Rightarrow> string option" where
  "inbox_counts s task_id =
     (let mine = filter (\<lambda>ib. ib_task_id ib = Some task_id) (map snd (f_monitor_inbox s));
          voided = (\<lambda>ib. case (ib_drained_at ib, ib_voided_at ib) of
              (None, Some v) \<Rightarrow> True | (Some d, Some v) \<Rightarrow> d < v | _ \<Rightarrow> False);
          pending = (\<lambda>ib. ib_drained_at ib = None \<and> ib_voided_at ib = None);
          np = length (filter pending mine);
          nv = length (filter voided mine);
          nd = length (filter (\<lambda>ib. \<not> pending ib \<and> \<not> voided ib) mine)
      in if 0 < np + nd + nv
         then Some (member_obj ''monitorInbox'' (comma_join [member ''pending'' (show_nat np),
           member ''drained'' (show_nat nd), member ''voided'' (show_nat nv)]))
         else None)"

definition monitor_text :: "string \<Rightarrow> string option \<Rightarrow> bool \<Rightarrow> fold_t \<Rightarrow> string \<times> bool" where
  "monitor_text item_id content host_truncated s =
     (case hget (f_items s) item_id of
        Some (RMonitor tc ti fs seen tr) \<Rightarrow> (unwrap_or content seen, tr \<or> host_truncated)
      | _ \<Rightarrow> (unwrap_or content [], host_truncated))"

definition monitor_feed_card :: "env \<Rightarrow> string \<Rightarrow> nat \<Rightarrow> string \<Rightarrow> J \<Rightarrow> string \<Rightarrow> handler" where
  "monitor_feed_card E sid ver item_id item status = with_state (\<lambda>s.
     case host_card_parts E s ''monitorFeed'' item of
       (title, content, m) \<Rightarrow>
         let monitor_id = unwrap_or (non_empty_str item ''monitorId'') item_id;
             muse = merge_muse_fields (merge_muse_fields m (item_muse_fields item)) (inbox_counts s monitor_id);
             tc_id = ''monitor-'' @ monitor_id;
             create = (tc_id \<notin> set (f_monitor_cards s));
             tx = monitor_text item_id content (is_true item ''truncated'') s;
             role_tc = (case hget (f_items s) item_id of Some (RMonitor tc ti fs seen tr) \<Rightarrow> tc | _ \<Rightarrow> tc_id)
         in do_all
           [upd (\<lambda>s. s\<lparr>f_monitor_cards := sput tc_id (f_monitor_cards s),
              f_items := hput item_id (RMonitor role_tc title muse (fst tx) (snd tx)) (f_items s)\<rparr>),
            emit (card_line E sid ver create tc_id title ''other'' (msp_status status)
              (some_text (fst tx)) muse (snd tx))])"

definition deferring_for_anchor :: "fold_t \<Rightarrow> J \<Rightarrow> string \<Rightarrow> string option" where
  "deferring_for_anchor s item item_id =
     (case row_anchor item of
        None \<Rightarrow> None
      | Some anchor \<Rightarrow>
          if anchor = item_id \<or> hhas (f_items s) anchor \<or> known s anchor then None else Some anchor)"

definition inbox_entry :: "string \<Rightarrow> J \<Rightarrow> inbox_item \<Rightarrow> inbox_item option" where
  "inbox_entry method params ib =
     (if method = ''monitor/inboxItemAdmitted'' then
        Some (case str_at params ''taskId'' of Some t \<Rightarrow> ib\<lparr>ib_task_id := Some t\<rparr> | None \<Rightarrow> ib)
      else if method = ''monitor/inboxItemDrained'' then Some (ib\<lparr>ib_drained_at := str_at params ''drainedAt''\<rparr>)
      else if method = ''monitor/inboxItemVoided'' then Some (ib\<lparr>ib_voided_at := str_at params ''voidedAt''\<rparr>)
      else None)"

definition monitor_card_fields :: "fold_t \<Rightarrow> string \<Rightarrow> string option" where
  "monitor_card_fields s tc_id =
     (case find (\<lambda>(i, r). case r of RMonitor tc ti fs t tr \<Rightarrow> tc = tc_id \<and> fs \<noteq> None | _ \<Rightarrow> False) (f_items s) of
        Some (i, RMonitor tc ti fs t tr) \<Rightarrow> fs | _ \<Rightarrow> None)"

definition inbox_card :: "env \<Rightarrow> string \<Rightarrow> string \<Rightarrow> handler" where
  "inbox_card E sid task_id = with_state (\<lambda>s.
     let tc_id = ''monitor-'' @ task_id in
     if tc_id \<notin> set (f_monitor_cards s) then skip
     else case merge_muse_fields (monitor_card_fields s tc_id) (inbox_counts s task_id) of
            None \<Rightarrow> skip
          | Some ms \<Rightarrow>
              emit (card_note ((card_new tc_id)\<lparr>c_meta := muse_meta (e_serde E) ms\<rparr>) sid (f_ver s) False))"

definition on_monitor_inbox :: "env \<Rightarrow> string \<Rightarrow> string \<Rightarrow> J \<Rightarrow> handler" where
  "on_monitor_inbox E sid method params =
     (case str_at params ''itemId'' of
        None \<Rightarrow> skip
      | Some item_id \<Rightarrow> with_state (\<lambda>s.
          let old = unwrap_or (hget (f_monitor_inbox s) item_id)
                \<lparr>ib_task_id = None, ib_drained_at = None, ib_voided_at = None\<rparr>
          in case inbox_entry method params old of
               None \<Rightarrow> upd (\<lambda>s. s\<lparr>f_monitor_inbox := hput item_id old (f_monitor_inbox s)\<rparr>)
             | Some ib \<Rightarrow> do_all
                 [upd (\<lambda>s. s\<lparr>f_monitor_inbox := hput item_id ib (f_monitor_inbox s)\<rparr>),
                  (case ib_task_id ib of None \<Rightarrow> skip | Some task_id \<Rightarrow> inbox_card E sid task_id)]))"

end
