(* ===== verification/Fold_Items.thy ===== *)
theory Fold_Items
  imports Fold_Tasks
begin

text \<open>
  The item handlers of the fold (\<^verbatim>\<open>src/fold.rs\<close>): snapshots, deltas and completions, one definition
  per item kind, rows that wait for an anchor, and the replay of a stored history. They are composed
  as the source composes them.
\<close>

section \<open>Shared parts of the snapshot and completion handlers\<close>

definition tool_role :: "env \<Rightarrow> string \<Rightarrow> J \<Rightarrow> fold_t \<Rightarrow> (string \<times> bool) \<times> fold_t" where
  "tool_role E item_id item s =
     (case hget (f_items s) item_id of
        Some (RTool tc announced) \<Rightarrow> ((tc, announced), s)
      | _ \<Rightarrow>
          (case (case str_at item ''callId'' of Some c \<Rightarrow> (c, s) | None \<Rightarrow> fold_mint E ''tc-'' s) of
             (i, t) \<Rightarrow> ((i, False), t\<lparr>f_items := hput item_id (RTool i False) (f_items t)\<rparr>)))"

definition is_backgrounded :: "J \<Rightarrow> string \<Rightarrow> fold_t \<Rightarrow> bool" where
  "is_backgrounded item tc_id s \<longleftrightarrow>
     is_true item ''background'' \<or> tc_id \<in> set (f_announced_tasks s) \<or> tc_id \<in> set (f_backgrounded_cards s)"

text \<open>The AIR entry of a backgrounded call: the card is marked once, the task announced once, and a
  terminal status reported.\<close>

definition background_task :: "env \<Rightarrow> string \<Rightarrow> nat \<Rightarrow> string \<Rightarrow> string \<Rightarrow> string \<Rightarrow> string \<Rightarrow> J \<Rightarrow> handler" where
  "background_task E sid ver item_id task_id tc_id title item = do_all
     [with_state (\<lambda>s. if tc_id \<in> set (f_backgrounded_cards s) then skip
        else do_all
          [upd (\<lambda>s. s\<lparr>f_backgrounded_cards := sput tc_id (f_backgrounded_cards s)\<rparr>),
           emit (backgrounded_tool_line E sid ver tc_id)]),
      announce_async_task sid item_id task_id title (str_at item ''workId'') (Some tc_id),
      emit_async_task_state sid task_id item]"

definition shell_task :: "string \<Rightarrow> string \<Rightarrow> string \<Rightarrow> string \<Rightarrow> J \<Rightarrow> handler" where
  "shell_task sid item_id tc_id title item = with_state (\<lambda>s.
     let task_id = async_task_id_for s item_id tc_id in do_all
       [announce_async_task sid item_id task_id title None (Some tc_id), emit_async_task_state sid task_id item])"

definition workflow_task :: "string \<Rightarrow> string \<Rightarrow> string \<Rightarrow> J \<Rightarrow> handler" where
  "workflow_task sid tc_id title item =
     (case non_empty_str item ''workflowRunId'' of
        None \<Rightarrow> skip
      | Some run_id \<Rightarrow> do_all
          [upd (\<lambda>s. s\<lparr>f_workflow_tasks := or_insert run_id run_id (f_workflow_tasks s)\<rparr>),
           announce_once sid title ''workflow'' None (Some tc_id) run_id,
           (case async_task_state item of
              Some st \<Rightarrow> async_task_state_once sid run_id st | None \<Rightarrow> skip)])"

definition compaction_item :: "env \<Rightarrow> string \<Rightarrow> nat \<Rightarrow> string \<Rightarrow> J \<Rightarrow> string \<Rightarrow> handler" where
  "compaction_item E sid ver item_id item status = with_state (\<lambda>s.
     if f_compaction_supported s then emit (standard_compaction_line E sid ver item_id item)
     else emit (legacy_compaction_line E sid ver item_id (msp_status status) (compaction_content item)))"

section \<open>Snapshots\<close>

definition remember_editor_call :: "string \<Rightarrow> string \<Rightarrow> string \<Rightarrow> J \<Rightarrow> handler" where
  "remember_editor_call item_id tc_id tool item = upd (\<lambda>s.
     if starts_with tool ''mcp__editor__'' \<and> \<not> list_ex (\<lambda>(i, tc, n, a). i = item_id) (f_editor_calls s)
     then s\<lparr>f_editor_calls := f_editor_calls s @ [(item_id, tc_id, tool,
       case jget item ''args'' of
         Some (JStr raw) \<Rightarrow> (case parse_json raw of Inr v \<Rightarrow> v | Inl e \<Rightarrow> JNull)
       | Some args \<Rightarrow> args
       | None \<Rightarrow> JNull)]\<rparr>
     else s)"

definition set_announced :: "string \<Rightarrow> handler" where
  "set_announced item_id = upd (\<lambda>s.
     case hget (f_items s) item_id of
       Some (RTool tc a) \<Rightarrow> s\<lparr>f_items := hput item_id (RTool tc True) (f_items s)\<rparr>
     | _ \<Rightarrow> s)"

definition snapshot_tool :: "env \<Rightarrow> string \<Rightarrow> nat \<Rightarrow> string \<Rightarrow> J \<Rightarrow> string \<Rightarrow> handler" where
  "snapshot_tool E sid ver item_id item status =
     call (tool_role E item_id item) (\<lambda>(tc_id, announced).
       case tool_title item of (title, tool) \<Rightarrow>
       call (tool_muse_fields item_id item) (\<lambda>muse. do_all
         [with_state (\<lambda>s. emit (tool_line E sid ver
            \<lparr>tu_create = \<not> announced, tu_tc_id = tc_id, tu_name = non_empty_str item ''tool'', tu_title = title,
             tu_kind = tool_kind E tool, tu_status = tool_status item status, tu_content_text = None,
             tu_raw_input = Some (case jget item ''args'' of Some a \<Rightarrow> j_to_string a | None \<Rightarrow> ''{}''),
             tu_locations = tool_locations s item, tu_extra_content = None, tu_muse_fields = muse,
             tu_host_truncated = False\<rparr>)),
          note_shell ver item_id tc_id item,
          with_state (\<lambda>s. only_if (is_backgrounded item tc_id s \<and> f_air_async_tasks s)
            (background_task E sid ver item_id (async_task_id_for s item_id tc_id) tc_id title item)),
          set_announced item_id,
          remember_editor_call item_id tc_id tool item]))"

definition register_role :: "env \<Rightarrow> string \<Rightarrow> string \<Rightarrow> (string \<Rightarrow> item_role) \<Rightarrow> handler" where
  "register_role E pre item_id role = with_state (\<lambda>s.
     if hhas (f_items s) item_id then skip
     else call (fold_mint E pre) (\<lambda>i. upd (\<lambda>s. s\<lparr>f_items := hput item_id (role i) (f_items s)\<rparr>)))"

definition snapshot_message :: "env \<Rightarrow> string \<Rightarrow> nat \<Rightarrow> string \<Rightarrow> J \<Rightarrow> handler" where
  "snapshot_message E sid ver item_id item = do_all
     [register_role E ''msg-'' item_id (\<lambda>i. RMessage i 0), mark_cut_off E sid ver item]"

definition snapshot_reasoning :: "env \<Rightarrow> string \<Rightarrow> handler" where
  "snapshot_reasoning E item_id = register_role E ''thought-'' item_id (\<lambda>i. RThought i 0 0)"

definition snapshot_subagent :: "env \<Rightarrow> string \<Rightarrow> J \<Rightarrow> handler" where
  "snapshot_subagent E sid item =
     (case non_empty_str item ''childSessionId'' of
        None \<Rightarrow> skip
      | Some child \<Rightarrow> do_all
          [spawn_subagent E sid child item (subagent_state item = None) (snd (snd (subagent_spawn_facts item))),
           settle_subagent E sid child item])"

definition snapshot_host_card :: "env \<Rightarrow> string \<Rightarrow> nat \<Rightarrow> string \<Rightarrow> string \<Rightarrow> J \<Rightarrow> string \<Rightarrow> handler" where
  "snapshot_host_card E sid ver kind item_id item status =
     call (host_item_role item_id kind) (\<lambda>(tc_id, announced). with_state (\<lambda>s.
       case host_card_parts E s kind item of (title, content, m) \<Rightarrow> do_all
         [only_if (title \<noteq> []) (emit (card_line E sid ver (\<not> announced) tc_id title ''other'' (msp_status status)
            (if kind = ''userShell'' \<and> hhas (f_terminals s) item_id then None else content)
            (merge_muse_fields m (item_muse_fields item)) (is_true item ''truncated''))),
          only_if (kind = ''userShell'') (note_shell ver item_id tc_id item),
          with_state (\<lambda>s.
            if kind = ''userShell'' \<and> f_air_async_tasks s then shell_task sid item_id tc_id title item
            else if kind = ''workflow'' \<and> f_air_async_tasks s then workflow_task sid tc_id title item
            else skip)]))"

definition snapshot_other :: "env \<Rightarrow> string \<Rightarrow> nat \<Rightarrow> string \<Rightarrow> string \<Rightarrow> J \<Rightarrow> string \<Rightarrow> handler" where
  "snapshot_other E sid ver kind item_id item status = do_all
     [settle_background_completion sid kind item,
      with_state (\<lambda>s. case host_card_parts E s kind item of (title, content, m) \<Rightarrow>
        only_if (title \<noteq> []) (call (host_item_role item_id ''item-'') (\<lambda>(tc_id, announced).
          emit (card_line E sid ver (\<not> announced) tc_id title ''other'' (msp_status status) content
            (merge_muse_fields m (item_muse_fields item)) (is_true item ''truncated''))))),
      ignore_item item_id]"

definition observe :: "J \<Rightarrow> bool \<Rightarrow> handler" where
  "observe item completed = upd (\<lambda>s. observe_workflow item completed (observe_subagent item s))"

definition snapshot_kind :: "env \<Rightarrow> string \<Rightarrow> nat \<Rightarrow> string \<Rightarrow> J \<Rightarrow> handler" where
  "snapshot_kind E sid ver item_id item = with_state (\<lambda>s.
     let kind = str_or item ''kind'' []; status = str_or item ''status'' ''pending'' in
     if kind = ''toolCall'' then snapshot_tool E sid ver item_id item status
     else if kind = ''agentMessage'' \<or> kind = ''userMessage'' then snapshot_message E sid ver item_id item
     else if kind = ''reasoning'' then snapshot_reasoning E item_id
     else if kind = ''compaction'' then compaction_item E sid ver item_id item status
     else if kind = ''subagent'' \<and> f_native_subagents s then snapshot_subagent E sid item
     else if kind \<in> {''subagent'', ''workflow'', ''userShell'', ''hookRun''}
     then snapshot_host_card E sid ver kind item_id item status
     else if kind = ''monitorFeed'' then monitor_feed_card E sid ver item_id item status
     else if kind = ''reminderChild'' then
       (if f_show_reminders s then reminder_child_card E sid ver item_id item status False
        else ignore_item item_id)
     else snapshot_other E sid ver kind item_id item status)"

definition on_item_snapshot :: "env \<Rightarrow> string \<Rightarrow> nat \<Rightarrow> J \<Rightarrow> handler" where
  "on_item_snapshot E sid ver item =
     (case str_at item ''itemId'' of
        None \<Rightarrow> skip
      | Some item_id \<Rightarrow> do_all
          [observe item False,
           with_state (\<lambda>s. if known s item_id then mark_cut_off E sid ver item
             else snapshot_kind E sid ver item_id item)])"

section \<open>Deltas\<close>

definition delta_text :: "env \<Rightarrow> nat \<Rightarrow> string \<Rightarrow> string" where
  "delta_text E streamed delta = of_chars (take (max_content E - streamed) (chars delta))"

definition delta_terminal :: "env \<Rightarrow> string \<Rightarrow> string \<Rightarrow> string \<Rightarrow> handler" where
  "delta_terminal E sid item_id delta =
     call_out (open_terminal sid item_id) (\<lambda>opened. case opened of
       None \<Rightarrow> skip
     | Some term_id \<Rightarrow> with_state (\<lambda>s. case hget (f_terminals s) item_id of
         None \<Rightarrow> skip
       | Some (i, streamed) \<Rightarrow>
           let t = delta_text E streamed delta in
           if t = [] then skip
           else do_all
             [upd (\<lambda>s. s\<lparr>f_terminals := hput item_id (i, streamed + length (chars t)) (f_terminals s)\<rparr>),
              emit (terminal_output sid term_id (b64 t))]))"

definition delta_tool :: "env \<Rightarrow> string \<Rightarrow> string \<Rightarrow> string \<Rightarrow> handler" where
  "delta_tool E sid item_id delta = with_state (\<lambda>s. case tool_call_id s item_id of
     None \<Rightarrow> skip
   | Some tc_id \<Rightarrow> do_all
       [upd (\<lambda>s. s\<lparr>f_streamed_output := or_insert item_id 0 (f_streamed_output s)\<rparr>),
        with_state (\<lambda>s.
          let streamed = unwrap_or (hget (f_streamed_output s) item_id) 0; t = delta_text E streamed delta in
          if t = [] then skip
          else do_all
            [upd (\<lambda>s. s\<lparr>f_streamed_output := hput item_id (streamed + length (chars t)) (f_streamed_output s)\<rparr>),
             emit (tool_text_chunk sid tc_id t)])])"

definition delta_message :: "env \<Rightarrow> string \<Rightarrow> nat \<Rightarrow> string \<Rightarrow> string \<Rightarrow> handler" where
  "delta_message E sid ver item_id delta = with_state (\<lambda>s. case hget (f_items s) item_id of
     Some (RMessage msg_id streamed) \<Rightarrow> do_all
       [upd (\<lambda>s. s\<lparr>f_items := hput item_id (RMessage msg_id (streamed + length delta)) (f_items s)\<rparr>),
        emit (fold_chunk sid ver msg_id delta)]
   | Some (RMonitor tc title muse seen tr) \<Rightarrow> do_all
       [upd (\<lambda>s. s\<lparr>f_items := hput item_id (RMonitor tc title muse (seen @ delta) tr) (f_items s)\<rparr>),
        emit (card_line E sid ver False tc title ''other'' ''in_progress'' (Some (seen @ delta)) muse tr)]
   | _ \<Rightarrow> skip)"

definition delta_thought :: "string \<Rightarrow> nat \<Rightarrow> string \<Rightarrow> nat \<Rightarrow> string \<Rightarrow> handler" where
  "delta_thought sid ver item_id part delta = with_state (\<lambda>s. case hget (f_items s) item_id of
     Some (RThought msg_id streamed current) \<Rightarrow>
       if part < current then skip
       else
         let t = (if current < part then [newline, newline] else []) @ delta in do_all
           [upd (\<lambda>s. s\<lparr>f_items := hput item_id (RThought msg_id (streamed + length t) part) (f_items s)\<rparr>),
            emit (thought_chunk sid ver msg_id t)]
   | _ \<Rightarrow> skip)"

definition on_item_delta :: "env \<Rightarrow> string \<Rightarrow> nat \<Rightarrow> J \<Rightarrow> handler" where
  "on_item_delta E sid ver params =
     (case (str_at params ''itemId'', non_empty_str params ''delta'') of
        (Some item_id, Some delta) \<Rightarrow>
          let field = str_or params ''field'' ''text'' in
          if field = ''output'' then
            only_if (ver = 2) (with_state (\<lambda>s.
              if hhas (f_shell_commands s) item_id then delta_terminal E sid item_id delta
              else delta_tool E sid item_id delta))
          else if field = ''text'' then delta_message E sid ver item_id delta
          else (case Option.bind (strip_prefix field ''summary.'') parse_u64 of
                  Some part \<Rightarrow> delta_thought sid ver item_id part delta
                | None \<Rightarrow> skip)
      | _ \<Rightarrow> skip)"

section \<open>Completions\<close>

definition tool_output :: "J \<Rightarrow> string" where
  "tool_output item =
     unwrap_or (or_else (non_empty_str item ''visibleOutput'')
       (or_else (non_empty_str item ''result'') (non_empty_str item ''failureReason''))) []"

text \<open>The terminal a finished shell call shows, or the one an editor tool call showed.\<close>

definition take_terminal :: "env \<Rightarrow> string \<Rightarrow> nat \<Rightarrow> string \<Rightarrow> string \<Rightarrow> J \<Rightarrow> string \<Rightarrow>
  (card_content option \<Rightarrow> handler) \<Rightarrow> handler" where
  "take_terminal E sid ver item_id tc_id item status k =
     (let editor = (\<lambda>own. case own of
          Some x \<Rightarrow> k (Some x)
        | None \<Rightarrow> call (\<lambda>s. (hget (f_editor_terminals s) item_id,
            s\<lparr>f_editor_terminals := hdel item_id (f_editor_terminals s)\<rparr>)) k)
      in with_state (\<lambda>s. if f_replaying s then editor None
           else do_all [note_shell ver item_id tc_id item,
             call_out (finish_terminal E sid item_id item status) editor]))"

definition complete_tool :: "env \<Rightarrow> string \<Rightarrow> nat \<Rightarrow> string \<Rightarrow> J \<Rightarrow> string \<Rightarrow> handler" where
  "complete_tool E sid ver item_id item status =
     call (tool_role E item_id item) (\<lambda>(tc_id, announced).
       case tool_title item of (title, tool) \<Rightarrow>
       take_terminal E sid ver item_id tc_id item status (\<lambda>terminal. do_all
         [upd (\<lambda>s. s\<lparr>f_editor_calls := filter (\<lambda>(i, tc, n, a). i \<noteq> item_id) (f_editor_calls s)\<rparr>),
          call (tool_muse_fields item_id item) (\<lambda>muse.
            call (\<lambda>s. (or_else (hget (f_patch_diffs s) item_id) terminal,
                s\<lparr>f_patch_diffs := hdel item_id (f_patch_diffs s)\<rparr>)) (\<lambda>diff.
              with_state (\<lambda>s. emit (tool_line E sid ver
                \<lparr>tu_create = \<not> announced, tu_tc_id = tc_id, tu_name = non_empty_str item ''tool'', tu_title = title,
                 tu_kind = tool_kind E tool, tu_status = tool_status item status,
                 tu_content_text = (if terminal \<noteq> None then None else some_text (tool_output item)),
                 tu_raw_input = map_option j_to_string (jget item ''args''),
                 tu_locations = tool_locations s item, tu_extra_content = diff, tu_muse_fields = muse,
                 tu_host_truncated = is_true item ''truncated''\<rparr>)))),
          with_state (\<lambda>s. only_if (is_backgrounded item tc_id s \<and> f_air_async_tasks s \<and> \<not> f_replaying s)
            (background_task E sid ver item_id (async_task_id_for s item_id tc_id) tc_id title item)),
          remove_item item_id]))"

definition show_reply :: "env \<Rightarrow> string \<Rightarrow> nat \<Rightarrow> string \<Rightarrow> J \<Rightarrow> string \<Rightarrow> string \<Rightarrow> handler" where
  "show_reply E sid ver item_id item t msg_id =
     call (claim_cut_off item item_id) (\<lambda>claimed. do_all
       [emit (marked_chunk sid ver msg_id t
          (message_meta E (Some (message_phase item)) (if claimed then Some item_id else None) item)),
        upd (\<lambda>s. s\<lparr>f_last_message := Some (item_id, msg_id)\<rparr>)])"

definition complete_message :: "env \<Rightarrow> string \<Rightarrow> nat \<Rightarrow> string \<Rightarrow> J \<Rightarrow> handler" where
  "complete_message E sid ver item_id item = with_state (\<lambda>s.
     let t = str_or item ''text'' [];
         role = (case hget (f_items s) item_id of
             Some (RMessage msg_id streamed) \<Rightarrow> Some (msg_id, streamed) | _ \<Rightarrow> None)
     in do_all
       [remove_item item_id,
        (case role of
           Some (msg_id, streamed) \<Rightarrow>
             if streamed = 0 \<and> t \<noteq> [] then show_reply E sid ver item_id item t msg_id
             else only_if (0 < streamed) (show_reply E sid ver item_id item [] msg_id)
         | None \<Rightarrow>
             only_if (t \<noteq> []) (call (fold_mint E ''msg-'') (show_reply E sid ver item_id item t)))])"

definition reasoning_text :: "J \<Rightarrow> string" where
  "reasoning_text item =
     (let summary = (case jget item ''summary'' of
          Some (JArr ps) \<Rightarrow> join [newline, newline] (filter (\<lambda>p. p \<noteq> []) (List.map_filter as_str ps))
        | _ \<Rightarrow> [])
      in if summary = [] then str_or item ''text'' [] else summary)"

definition complete_reasoning :: "env \<Rightarrow> string \<Rightarrow> nat \<Rightarrow> string \<Rightarrow> J \<Rightarrow> handler" where
  "complete_reasoning E sid ver item_id item = do_all
     [with_state (\<lambda>s.
        let streamed = (case hget (f_items s) item_id of Some (RThought m n p) \<Rightarrow> n | _ \<Rightarrow> 0) in
        only_if (streamed = 0 \<and> reasoning_text item \<noteq> [])
          (call (fold_mint E ''thought-'') (\<lambda>i. emit (thought_chunk sid ver i (reasoning_text item))))),
      remove_item item_id]"

definition complete_subagent :: "env \<Rightarrow> string \<Rightarrow> string \<Rightarrow> J \<Rightarrow> handler" where
  "complete_subagent E sid item_id item = do_all
     [(case non_empty_str item ''childSessionId'' of
         None \<Rightarrow> skip
       | Some child \<Rightarrow> do_all
           [spawn_subagent E sid child item False None, settle_subagent E sid child item]),
      remove_item item_id]"

definition complete_host_card :: "env \<Rightarrow> string \<Rightarrow> nat \<Rightarrow> string \<Rightarrow> string \<Rightarrow> J \<Rightarrow> string \<Rightarrow> handler" where
  "complete_host_card E sid ver kind item_id item status =
     call (host_item_role item_id kind) (\<lambda>(tc_id, announced). with_state (\<lambda>s.
       case host_card_parts E s kind item of (title, content, m) \<Rightarrow>
       let finish = (\<lambda>terminal. do_all
         [only_if (title \<noteq> []) (emit (card_line E sid ver (\<not> announced) tc_id title ''other'' (msp_status status)
            (if terminal \<noteq> None then None else content)
            (merge_muse_fields m (item_muse_fields item)) (is_true item ''truncated''))),
          (case terminal of
             Some x \<Rightarrow> emit (card_note ((card_new tc_id)\<lparr>c_content := Some [x]\<rparr>) sid ver False)
           | None \<Rightarrow> skip),
          with_state (\<lambda>s. do_all
            [only_if (kind = ''userShell'' \<and> f_air_async_tasks s \<and> \<not> f_replaying s)
               (shell_task sid item_id tc_id title item),
             only_if (kind = ''workflow'' \<and> f_air_async_tasks s \<and> \<not> f_replaying s)
               (workflow_task sid tc_id title item)]),
          remove_item item_id])
       in if kind = ''userShell'' \<and> \<not> f_replaying s
          then do_all [note_shell ver item_id tc_id item,
            call_out (finish_terminal E sid item_id item status) finish]
          else finish None))"

definition complete_other :: "env \<Rightarrow> string \<Rightarrow> nat \<Rightarrow> string \<Rightarrow> string \<Rightarrow> J \<Rightarrow> string \<Rightarrow> handler" where
  "complete_other E sid ver kind item_id item status = do_all
     [settle_background_completion sid kind item,
      with_state (\<lambda>s0. call (host_item_role item_id ''item-'') (\<lambda>(tc_id, announced). with_state (\<lambda>s.
        case host_card_parts E s kind item of (title, content, m) \<Rightarrow>
        only_if (title \<noteq> [] \<or> tool_call_id s0 item_id \<noteq> None)
          (emit (card_line E sid ver (\<not> announced) tc_id
            (if title = [] then fallback_card_title E kind else title) ''other'' (msp_status status) content
            (merge_muse_fields m (item_muse_fields item)) (is_true item ''truncated'')))))),
      remove_item item_id]"

definition complete_kind :: "env \<Rightarrow> string \<Rightarrow> nat \<Rightarrow> string \<Rightarrow> J \<Rightarrow> handler" where
  "complete_kind E sid ver item_id item = with_state (\<lambda>s.
     let kind = str_or item ''kind'' []; status = str_or item ''status'' ''completed'' in
     if kind = ''toolCall'' then complete_tool E sid ver item_id item status
     else if kind = ''agentMessage'' then complete_message E sid ver item_id item
     else if kind = ''reasoning'' then complete_reasoning E sid ver item_id item
     else if kind = ''compaction'' then compaction_item E sid ver item_id item status
     else if kind = ''subagent'' \<and> f_native_subagents s then complete_subagent E sid item_id item
     else if kind \<in> {''subagent'', ''workflow'', ''userShell'', ''hookRun''}
     then complete_host_card E sid ver kind item_id item status
     else if kind = ''monitorFeed'' then
       do_all [monitor_feed_card E sid ver item_id item status, remove_item item_id]
     else if kind = ''reminderChild'' then
       (if f_show_reminders s then reminder_child_card E sid ver item_id item status True
        else remove_item item_id)
     else complete_other E sid ver kind item_id item status)"

definition mark_done :: "string \<Rightarrow> handler" where
  "mark_done item_id = upd (\<lambda>s. s\<lparr>f_done := sput item_id (f_done s)\<rparr>)"

definition forget_stream :: "string \<Rightarrow> handler" where
  "forget_stream item_id = upd (\<lambda>s. s\<lparr>f_streamed_output := hdel item_id (f_streamed_output s)\<rparr>)"

definition complete_item :: "env \<Rightarrow> string \<Rightarrow> nat \<Rightarrow> J \<Rightarrow> handler" where
  "complete_item E sid ver item =
     (case str_at item ''itemId'' of
        None \<Rightarrow> skip
      | Some item_id \<Rightarrow> do_all
          [forget_stream item_id, observe item True,
           with_state (\<lambda>s. if known s item_id then mark_cut_off E sid ver item
             else do_all [mark_done item_id, complete_kind E sid ver item_id item])])"

section \<open>Rows that wait for an anchor\<close>

definition release_awaiting_anchor :: "env \<Rightarrow> string \<Rightarrow> string \<Rightarrow> nat \<Rightarrow> handler" where
  "release_awaiting_anchor E anchor sid ver = with_state (\<lambda>s. do_all
     [upd (\<lambda>s. s\<lparr>f_awaiting_anchor := filter (\<lambda>(a, item). a \<noteq> anchor) (f_awaiting_anchor s)\<rparr>),
      for_each (\<lambda>(a, item). complete_item E sid ver item)
        (filter (\<lambda>(a, item). a = anchor) (f_awaiting_anchor s))])"

definition hold_row :: "string \<Rightarrow> string \<Rightarrow> J \<Rightarrow> handler" where
  "hold_row anchor item_id item = upd (\<lambda>s.
     if list_ex (\<lambda>(a, held). a = anchor \<and> str_at held ''itemId'' = Some item_id) (f_awaiting_anchor s) then s
     else s\<lparr>f_awaiting_anchor := f_awaiting_anchor s @ [(anchor, item)]\<rparr>)"

definition on_item_completed :: "env \<Rightarrow> string \<Rightarrow> nat \<Rightarrow> J \<Rightarrow> handler" where
  "on_item_completed E sid ver params =
     (case jget params ''item'' of
        None \<Rightarrow> skip
      | Some item \<Rightarrow>
          (case str_at item ''itemId'' of
             None \<Rightarrow> skip
           | Some item_id \<Rightarrow> do_all
               [forget_stream item_id,
                with_state (\<lambda>s. case deferring_for_anchor s item item_id of
                  Some anchor \<Rightarrow> hold_row anchor item_id item
                | None \<Rightarrow> do_all
                    [complete_item E sid ver item, release_awaiting_anchor E item_id sid ver])]))"

definition flush_awaiting_anchor_unless :: "env \<Rightarrow> string \<Rightarrow> nat \<Rightarrow> (string \<Rightarrow> bool) \<Rightarrow> handler" where
  "flush_awaiting_anchor_unless E sid ver still_coming = with_state (\<lambda>s. do_all
     [upd (\<lambda>s. s\<lparr>f_awaiting_anchor := []\<rparr>),
      for_each (\<lambda>(anchor, item).
        if still_coming anchor
        then upd (\<lambda>s. s\<lparr>f_awaiting_anchor := f_awaiting_anchor s @ [(anchor, item)]\<rparr>)
        else complete_item E sid ver item) (f_awaiting_anchor s)])"

definition flush_awaiting_anchor :: "env \<Rightarrow> string \<Rightarrow> nat \<Rightarrow> handler" where
  "flush_awaiting_anchor E sid ver = flush_awaiting_anchor_unless E sid ver (\<lambda>a. False)"

section \<open>Replay\<close>

definition replay_prefix :: "env \<Rightarrow> string \<Rightarrow> nat \<Rightarrow> string \<Rightarrow> string \<Rightarrow> J \<Rightarrow> handler" where
  "replay_prefix E sid ver kind item_id item =
     (let t = message_text item in
      if t = [] then skip
      else with_state (\<lambda>s. case hget (f_items s) item_id of
        Some (RMessage msg_id streamed) \<Rightarrow>
          if streamed \<noteq> 0 then skip
          else call (claim_cut_off item item_id) (\<lambda>claimed. do_all
            [upd (\<lambda>s. s\<lparr>f_items := hput item_id (RMessage msg_id (length t)) (f_items s)\<rparr>),
             emit (replay_message_line E sid ver kind msg_id t (if claimed then Some item_id else None) None item)])
      | _ \<Rightarrow> skip))"

definition replay_settled_message :: "env \<Rightarrow> string \<Rightarrow> nat \<Rightarrow> string \<Rightarrow> string \<Rightarrow> J \<Rightarrow> handler" where
  "replay_settled_message E sid ver kind item_id item = do_all
     [mark_done item_id,
      (let t = message_text item in
       only_if (t \<noteq> []) (call (fold_mint E ''msg-'') (\<lambda>msg_id.
         call (claim_cut_off item item_id) (\<lambda>claimed. do_all
           [emit (replay_message_line E sid ver kind msg_id t (if claimed then Some item_id else None)
              (if kind = ''agentMessage'' then Some (message_phase item) else None) item),
            only_if (kind = ''agentMessage'') (upd (\<lambda>s. s\<lparr>f_last_message := Some (item_id, msg_id)\<rparr>))]))))]"

definition replay_item :: "env \<Rightarrow> string \<Rightarrow> nat \<Rightarrow> J \<Rightarrow> handler" where
  "replay_item E sid ver item =
     (case str_at item ''itemId'' of
        None \<Rightarrow> skip
      | Some item_id \<Rightarrow> do_all
          [upd (observe_workflow item (\<not> replay_is_in_flight item)),
           with_state (\<lambda>s.
             let kind = str_or item ''kind'' []; message = (kind = ''agentMessage'' \<or> kind = ''userMessage'') in
             if known s item_id then skip
             else if replay_is_in_flight item then do_all
               [on_item_snapshot E sid ver item, only_if message (replay_prefix E sid ver kind item_id item)]
             else if message then replay_settled_message E sid ver kind item_id item
             else on_item_completed E sid ver (JObj [(''item'', item)]))])"

text \<open>The ids still to come in the batch, with their multiplicities.\<close>

definition count_id :: "nat hmap \<Rightarrow> J \<Rightarrow> nat hmap" where
  "count_id m item =
     (case str_at item ''itemId'' of
        Some i \<Rightarrow> hput i (unwrap_or (hget m i) 0 + 1) m | None \<Rightarrow> m)"

definition uncount_id :: "string \<Rightarrow> nat hmap \<Rightarrow> nat hmap" where
  "uncount_id i m =
     (case hget m i of
        Some n \<Rightarrow> if n - 1 = 0 then hdel i m else hput i (n - 1) m | None \<Rightarrow> m)"

fun replay_loop :: "env \<Rightarrow> string \<Rightarrow> nat \<Rightarrow> nat hmap \<Rightarrow> string option \<Rightarrow> J list \<Rightarrow> handler" where
  "replay_loop E sid ver upcoming turn [] = skip"
| "replay_loop E sid ver upcoming turn (item # items) =
     (let item_turn = str_at item ''turnId'';
          boundary = (item_turn \<noteq> None \<and> item_turn \<noteq> turn);
          item_id = str_at item ''itemId''
      in do_all
        [only_if boundary (flush_awaiting_anchor_unless E sid ver (\<lambda>anchor. hhas upcoming anchor)),
         replay_item E sid ver item,
         (case item_id of Some i \<Rightarrow> release_awaiting_anchor E i sid ver | None \<Rightarrow> skip),
         replay_loop E sid ver (case item_id of Some i \<Rightarrow> uncount_id i upcoming | None \<Rightarrow> upcoming)
           (if boundary then item_turn else turn) items])"

definition replay_history_items :: "env \<Rightarrow> string \<Rightarrow> nat \<Rightarrow> J list \<Rightarrow> handler" where
  "replay_history_items E sid ver items = with_state (\<lambda>s0. do_all
     [upd (\<lambda>s. s\<lparr>f_replaying := True\<rparr>),
      replay_loop E sid ver (foldl count_id [] items) None items,
      flush_awaiting_anchor E sid ver,
      upd (\<lambda>s. s\<lparr>f_replaying := f_replaying s0\<rparr>)])"

end
