(* ===== verification/Fold_Machine.thy ===== *)
theory Fold_Machine
  imports Fold_Items
begin

text \<open>
  The abstract machine behind the handlers. A step of the machine says what a handler may do to the
  parts of the state that carry the guarantees: announce a task or a child that is not announced
  yet, record a task state that differs from the last one, settle an item, observe a workflow, count
  an identifier, claim a cut-off mark, hold or release rows, or change the rest of the state while
  emitting unremarkable notifications. Every handler of the fold refines this machine
  (\<open>handle_refines\<close>), so an invariant of the machine, proved by rule induction over its steps, holds
  for every sequence of host events.
\<close>

section \<open>What a notification says\<close>

fun air_event :: "notif \<Rightarrow> (string \<times> (string \<times> jvalue) list) option" where
  "air_event (NoteExt sid (VObject fs)) =
     map_option (\<lambda>k. (k, fs)) (Option.bind (map_of fs ''sessionUpdate'') value_str)"
| "air_event (NoteV2 sid (OtherUpdate tag fs)) = map_option (\<lambda>k. (k, fs)) (strip_prefix tag ''_'')"
| "air_event _ = None"

definition note_field :: "string \<Rightarrow> (string \<times> jvalue) list \<Rightarrow> string option" where
  "note_field k fs = Option.bind (map_of fs k) value_str"

text \<open>The task a notification announces, and the task and state it reports.\<close>

definition spawned_task :: "notif \<Rightarrow> string option" where
  "spawned_task n =
     (case air_event n of
        Some (k, fs) \<Rightarrow> if k = ''async_task_spawned'' then note_field ''asyncTaskId'' fs else None
      | None \<Rightarrow> None)"

definition reported_state :: "notif \<Rightarrow> (string \<times> string) option" where
  "reported_state n =
     (case air_event n of
        Some (k, fs) \<Rightarrow>
          if k = ''async_task_state_update'' then
            (case (note_field ''asyncTaskId'' fs, note_field ''state'' fs) of
               (Some i, Some st) \<Rightarrow> Some (i, st) | _ \<Rightarrow> None)
          else None
      | None \<Rightarrow> None)"

text \<open>The child an ACP \<^verbatim>\<open>subagent_update\<close> announces (the announcement carries the title).\<close>

fun spawned_child :: "notif \<Rightarrow> string option" where
  "spawned_child (NoteV1 sid (SubagentUpdate w)) = (if sw_title w \<noteq> None then Some (sw_id w) else None)"
| "spawned_child (NoteV2 sid (SubagentUpdate w)) = (if sw_title w \<noteq> None then Some (sw_id w) else None)"
| "spawned_child _ = None"

definition plain :: "notif \<Rightarrow> bool" where
  "plain n \<longleftrightarrow> spawned_task n = None \<and> reported_state n = None \<and> spawned_child n = None"

lemmas note_views = spawned_task_def reported_state_def note_field_def

lemma plain_card [simp]: "plain (card_note c sid ver create)"
  by (simp add: plain_def note_views card_note_def)

lemma plain_chunk [simp]: "plain (out_chunk sid ver k m t x)"
  by (cases k) (simp_all add: plain_def note_views out_chunk_def)

lemma plain_ver: "(\<And>tag fs. u \<noteq> OtherUpdate tag fs) \<Longrightarrow> (\<And>w. u \<noteq> SubagentUpdate w) \<Longrightarrow> plain (note_ver ver sid u)"
  by (cases u) (auto simp: plain_def note_views note_ver_def)

lemma plain_lines [simp]:
  "plain (session_info sid ver ti u m)" "plain (out_message sid ver user i t m)"
  "plain (out_compaction sid ver i st err m)" "plain (terminal_opened sid i c cwd)"
  "plain (terminal_exited sid i d code m1 m2)" "plain (terminal_output sid i d)" "plain (tool_text_chunk sid i t)"
  by (simp_all add: session_info_def out_compaction_def plain_ver out_message_def)
     (simp_all add: plain_def note_views terminal_opened_def terminal_exited_def terminal_output_def tool_text_chunk_def)

lemma plain_cards [simp]:
  "plain (card_line E sid ver create tc title kind status content muse tr)"
  "plain (tool_line E sid ver tu)" "plain (backgrounded_tool_line E sid ver tc)"
  "plain (legacy_compaction_line E sid ver i st lc)" "plain (standard_compaction_line E sid ver i item)"
  "plain (marked_chunk sid ver m t x)" "plain (fold_chunk sid ver m t)" "plain (thought_chunk sid ver m t)"
  "plain (replay_message_line E sid ver kind m t co ph item)" "plain (terminal_exit_note E sid i item)"
  by (simp_all add: card_line_def tool_line_def backgrounded_tool_line_def legacy_compaction_line_def
      standard_compaction_line_def marked_chunk_def fold_chunk_def thought_chunk_def replay_message_line_def
      terminal_exit_note_def Let_def)

lemma spawned_line:
  "spawned_task (async_task_spawned_line sid ver i name ty w stop tc) = Some i"
  "reported_state (async_task_spawned_line sid ver i name ty w stop tc) = None"
  "spawned_child (async_task_spawned_line sid ver i name ty w stop tc) = None"
  by (simp_all add: async_task_spawned_line_def air_def air_kind_def note_views strip_prefix_def)

lemma state_line:
  "spawned_task (async_task_state_line sid ver i st) = None"
  "reported_state (async_task_state_line sid ver i st) = Some (i, st)"
  "spawned_child (async_task_state_line sid ver i st) = None"
  by (simp_all add: async_task_state_line_def air_def air_kind_def note_views strip_prefix_def)

lemma disconnected_line:
  "spawned_task (disconnected_task_line sid ver i) = None"
  "reported_state (disconnected_task_line sid ver i) = Some (i, ''failed'')"
  "spawned_child (disconnected_task_line sid ver i) = None"
  by (simp_all add: disconnected_task_line_def air_def air_kind_def note_views strip_prefix_def)

lemma child_state_plain [simp]: "plain (subagent_state_line s sid ver child st)"
  by (simp add: plain_def subagent_state_line_def subagent_update_def note_ver_def air_def air_kind_def
      note_views strip_prefix_def)

lemma child_spawn_line:
  "f_air_subagents s \<Longrightarrow> plain (subagent_spawned_line E s sid ver child name task running muse)"
  "\<not> f_air_subagents s \<Longrightarrow> spawned_child (subagent_spawned_line E s sid ver child name task running muse) = Some child"
  "spawned_task (subagent_spawned_line E s sid ver child name task running muse) = None"
  "reported_state (subagent_spawned_line E s sid ver child name task running muse) = None"
  by (auto simp: plain_def subagent_spawned_line_def subagent_update_def note_ver_def air_def air_kind_def
      note_views strip_prefix_def Let_def)

section \<open>Steps of the machine\<close>

text \<open>The parts of the state a quiet step leaves alone.\<close>

definition same_view :: "fold_t \<Rightarrow> fold_t \<Rightarrow> bool" where
  "same_view s t \<longleftrightarrow>
     f_announced_tasks t = f_announced_tasks s \<and> f_async_task_states t = f_async_task_states s \<and>
     f_done t = f_done s \<and> f_workflow_children t = f_workflow_children s \<and>
     f_superseded_workflows t = f_superseded_workflows s \<and> f_idc t = f_idc s \<and>
     f_spawned_subagents t = f_spawned_subagents s \<and> f_cut_off t = f_cut_off s \<and>
     f_awaiting_anchor t = f_awaiting_anchor s \<and> f_replaying t = f_replaying s \<and> f_ver t = f_ver s \<and>
     f_air_subagents t = f_air_subagents s \<and> f_native_subagents t = f_native_subagents s \<and>
     f_air_async_tasks t = f_air_async_tasks s"

text \<open>Counts of streamed characters are recorded within the display budget only, and a child state held
  for later is an unremarkable notification.\<close>

definition quiet_maps :: "env \<Rightarrow> fold_t \<Rightarrow> fold_t \<Rightarrow> bool" where
  "quiet_maps E s t \<longleftrightarrow>
     (\<forall>i n. hget (f_streamed_output t) i = Some n \<longrightarrow> hget (f_streamed_output s) i = Some n \<or> n \<le> max_content E) \<and>
     (\<forall>i x n. hget (f_terminals t) i = Some (x, n) \<longrightarrow> hget (f_terminals s) i = Some (x, n) \<or> n \<le> max_content E) \<and>
     (\<forall>i n. hget (f_held_child_states t) i = Some n \<longrightarrow> hget (f_held_child_states s) i = Some n \<or> plain n)"

inductive fstep :: "env \<Rightarrow> bool \<Rightarrow> fold_t \<Rightarrow> notif list \<Rightarrow> fold_t \<Rightarrow> bool" for E h where
  Quiet: "same_view s t \<Longrightarrow> quiet_maps E s t \<Longrightarrow> list_all plain ns \<Longrightarrow> fstep E h s ns t"
| Announce: "x \<notin> set (f_announced_tasks s) \<Longrightarrow> spawned_task n = Some x \<Longrightarrow> reported_state n = None \<Longrightarrow>
    spawned_child n = None \<Longrightarrow> fstep E h s [n] (s\<lparr>f_announced_tasks := sput x (f_announced_tasks s)\<rparr>)"
| Report: "hget (f_async_task_states s) x \<noteq> Some st \<Longrightarrow> reported_state n = Some (x, st) \<Longrightarrow>
    spawned_task n = None \<Longrightarrow> spawned_child n = None \<Longrightarrow>
    fstep E h s [n] (s\<lparr>f_async_task_states := hput x st (f_async_task_states s)\<rparr>)"
| Spawn: "c \<notin> set (f_spawned_subagents s) \<Longrightarrow> spawned_child n = Some c \<or> spawned_child n = None \<Longrightarrow>
    spawned_task n = None \<Longrightarrow> reported_state n = None \<Longrightarrow>
    fstep E h s [n] (s\<lparr>f_spawned_subagents := sput c (f_spawned_subagents s)\<rparr>)"
| Release: "hget (f_held_child_states s) i = Some n \<Longrightarrow>
    fstep E h s [n] (s\<lparr>f_held_child_states := hdel i (f_held_child_states s)\<rparr>)"
| Settle: "fstep E h s [] (s\<lparr>f_done := sput i (f_done s)\<rparr>)"
| Observe: "fstep E h s [] (observe_workflow item completed s)"
| Mint: "fstep E h s [] (s\<lparr>f_idc := (f_idc s + 1) mod 2 ^ 64\<rparr>)"
| Mark: "i \<notin> set (f_cut_off s) \<Longrightarrow> fstep E h s [] (s\<lparr>f_cut_off := sput i (f_cut_off s)\<rparr>)"
| Hold: "h \<Longrightarrow> fstep E h s [] (s\<lparr>f_awaiting_anchor := rows\<rparr>)"
| Switch: "h \<Longrightarrow> fstep E h s [] (s\<lparr>f_replaying := b\<rparr>)"

inductive fruns :: "env \<Rightarrow> bool \<Rightarrow> fold_t \<Rightarrow> notif list \<Rightarrow> fold_t \<Rightarrow> bool" for E h where
  Stop: "fruns E h s [] s"
| Step: "fstep E h s ns t \<Longrightarrow> fruns E h t ms u \<Longrightarrow> fruns E h s (ns @ ms) u"

inductive_cases fstepE: "fstep E h s ns t"

lemma fruns_one: "fstep E h s ns t \<Longrightarrow> fruns E h s ns t"
  using fruns.Step [OF _ fruns.Stop] by simp

lemma fruns_trans: "fruns E h s ns t \<Longrightarrow> fruns E h t ms u \<Longrightarrow> fruns E h s (ns @ ms) u"
  by (induction rule: fruns.induct) (auto intro: fruns.Step)

interpretation machine: trace_property "fruns E h" for E h
  by unfold_locales (auto intro: fruns.Stop fruns_trans)

end
