(* ===== verification/Fold_Refine.thy ===== *)
theory Fold_Refine
  imports Fold_Machine
begin

text \<open>
  Every handler of the fold is a run of the abstract machine: the atomic updates are steps, and the
  composition rules of \<open>trace_property\<close> carry them through the handlers. The top-level result is
  about \<open>handle\<close>, the dispatcher of host events to handlers.
\<close>

section \<open>Atomic updates\<close>

lemmas view_defs = same_view_def quiet_maps_def

lemma keeps_quiet [trace_intros]:
  "(\<And>s. same_view s (f s) \<and> quiet_maps E s (f s)) \<Longrightarrow> keeps (fruns E h) (upd f)"
  unfolding keeps_def upd_def by (auto intro!: fruns_one fstep.Quiet)

lemma keeps_emit [trace_intros]: "plain n \<Longrightarrow> keeps (fruns E h) (emit n)"
  unfolding keeps_def emit_def by (auto intro!: fruns_one fstep.Quiet simp: view_defs)

lemma keeps_quiet_call [trace_intros]:
  "(\<And>s. same_view s (snd (f s)) \<and> quiet_maps E s (snd (f s))) \<Longrightarrow> keeps_call (fruns E h) f"
  unfolding keeps_call_def by (auto intro!: fruns_one fstep.Quiet)

lemma keeps_quiet_out [trace_intros]:
  "(\<And>s. same_view s (fst (snd (f s))) \<and> quiet_maps E s (fst (snd (f s))) \<and> list_all plain (snd (snd (f s)))) \<Longrightarrow>
   keeps_out (fruns E h) f"
  unfolding keeps_out_def by (auto intro!: fruns_one fstep.Quiet)

lemma keeps_here: "(\<And>s. fruns E h s (snd (f s s)) (fst (f s s))) \<Longrightarrow> keeps (fruns E h) (with_state f)"
  by (simp add: keeps_def with_state_def)

lemma fruns_call: "keeps_call (fruns E h) f \<Longrightarrow> fruns E h s [] (snd (f s))"
  by (simp add: keeps_call_def)

lemma keeps_mint [trace_intros]: "keeps_call (fruns E h) (fold_mint F pre)"
  unfolding keeps_call_def fold_mint_def mint_id_def prod.case snd_conv
  by (intro allI fruns_one fstep.Mint)

lemma keeps_claim [trace_intros]: "keeps_call (fruns E h) (claim_cut_off item i)"
  unfolding keeps_call_def claim_cut_off_def by (auto intro: fruns_one fstep.Mark fruns.Stop)

lemma keeps_mark_cut_off [trace_intros]: "keeps (fruns E h) (mark_cut_off E sid ver item)"
proof -
  have "fruns E h s [marked_chunk sid ver m t x] (s\<lparr>f_cut_off := sput i (f_cut_off s)\<rparr>)"
    if "i \<notin> set (f_cut_off s)" for s i m t x
    using fruns.Step [OF fstep.Mark [OF that] fruns_one [OF fstep.Quiet]] by (simp add: view_defs)
  then show ?thesis
    unfolding mark_cut_off_def
    by (auto intro!: trace_intros keeps_here simp: rust_simps fruns.Stop split: option.split)
qed

lemma keeps_put_task_state [trace_intros]: "keeps (fruns E h) (put_task_state sid i st)"
  unfolding put_task_state_def
  by (rule keeps_here) (auto simp: rust_simps fruns.Stop intro!: fruns_one fstep.Report state_line)

lemma keeps_announce_once [trace_intros]: "keeps (fruns E h) (announce_once sid name ty w tc i)"
  unfolding announce_once_def
  by (rule keeps_here) (auto simp: rust_simps fruns.Stop intro!: fruns_one fstep.Announce spawned_line)

lemma keeps_disconnect [trace_intros]: "keeps (fruns E h) (disconnect_tasks sid ver)"
  unfolding disconnect_tasks_def
  by (intro trace_intros keeps_here) (auto simp: rust_simps fruns.Stop intro!: fruns_one fstep.Report disconnected_line)

lemma keeps_spawn_subagent [trace_intros]: "keeps (fruns E h) (spawn_subagent E sid child item running muse)"
proof (unfold spawn_subagent_def, rule keeps_here)
  fix s
  obtain name task own where f: "subagent_spawn_facts item = (name, task, own)" by (cases "subagent_spawn_facts item")
  let ?n = "subagent_spawned_line E s sid (f_ver s) child name task running muse"
  have "spawned_child ?n = Some child \<or> spawned_child ?n = None"
    using child_spawn_line(1,2) [of s] by (cases "f_air_subagents s") (auto simp: plain_def)
  then have "fruns E h s [?n] (s\<lparr>f_spawned_subagents := sput child (f_spawned_subagents s)\<rparr>)"
    if "child \<notin> set (f_spawned_subagents s)"
    by (rule fruns_one [OF fstep.Spawn [OF that]]) (simp_all add: child_spawn_line)
  then show "fruns E h s
        (snd ((if child \<in> set (f_spawned_subagents s) then skip
               else do_all [upd (\<lambda>s. s\<lparr>f_spawned_subagents := sput child (f_spawned_subagents s)\<rparr>),
                 case subagent_spawn_facts item of (name, task, own) \<Rightarrow>
                   emit (subagent_spawned_line E s sid (f_ver s) child name task running muse)]) s))
        (fst ((if child \<in> set (f_spawned_subagents s) then skip
               else do_all [upd (\<lambda>s. s\<lparr>f_spawned_subagents := sput child (f_spawned_subagents s)\<rparr>),
                 case subagent_spawn_facts item of (name, task, own) \<Rightarrow>
                   emit (subagent_spawned_line E s sid (f_ver s) child name task running muse)]) s))"
    by (simp add: rust_simps f fruns.Stop)
qed

lemma keeps_observe [trace_intros]: "keeps (fruns E h) (upd (observe_workflow item completed))"
  unfolding keeps_def upd_def by (auto intro: fruns_one fstep.Observe)

lemma keeps_mark_done [trace_intros]: "keeps (fruns E h) (mark_done i)"
  unfolding mark_done_def keeps_def upd_def by (auto intro: fruns_one fstep.Settle)

lemma same_view_observe_subagent: "same_view s (observe_subagent item s) \<and> quiet_maps E s (observe_subagent item s)"
  by (simp add: observe_subagent_def view_defs split: option.split)

lemma keeps_observe_item [trace_intros]: "keeps (fruns E h) (observe item completed)"
  unfolding observe_def keeps_def upd_def
  using fruns.Step [OF fstep.Quiet [of _ _ _ "[]"] fruns_one [OF fstep.Observe]] same_view_observe_subagent
  by fastforce

section \<open>Stateful helpers\<close>

lemma keeps_role [trace_intros]:
  "(\<And>m n. x = Some (RMessage m n) \<Longrightarrow> keeps P (f1 m n)) \<Longrightarrow>
   (\<And>m n p. x = Some (RThought m n p) \<Longrightarrow> keeps P (f2 m n p)) \<Longrightarrow>
   (\<And>tc a. x = Some (RTool tc a) \<Longrightarrow> keeps P (f3 tc a)) \<Longrightarrow>
   (\<And>tc ti fs t tr. x = Some (RMonitor tc ti fs t tr) \<Longrightarrow> keeps P (f4 tc ti fs t tr)) \<Longrightarrow>
   (x = Some RIgnored \<Longrightarrow> keeps P f5) \<Longrightarrow> (x = None \<Longrightarrow> keeps P f0) \<Longrightarrow>
   keeps P (case x of None \<Rightarrow> f0 | Some r \<Rightarrow> (case r of RMessage m n \<Rightarrow> f1 m n | RThought m n p \<Rightarrow> f2 m n p
     | RTool tc a \<Rightarrow> f3 tc a | RMonitor tc ti fs t tr \<Rightarrow> f4 tc ti fs t tr | RIgnored \<Rightarrow> f5))"
  by (cases x) (simp_all split: item_role.split)

lemma keeps_roles [trace_intros]:
  "keeps_call (fruns E h) (tool_muse_fields i item)" "keeps_call (fruns E h) (host_item_role i kind)"
  "keeps_call (fruns E h) (reminder_role i item)"
  by (rule keeps_quiet_call, simp add: view_defs tool_muse_fields_def host_item_role_def reminder_role_def Let_def
      split: option.split item_role.split)+

lemma keeps_tool_role [trace_intros]: "keeps_call (fruns E h) (tool_role F i item)"
proof -
  have mint: "fruns E h s [] (t\<lparr>f_items := r\<rparr>)" if "fold_mint F pre s = (j, t)" for s t pre j r
  proof -
    have "fruns E h s [] t" using fruns_call [OF keeps_mint [of E h F pre], of s] that by simp
    moreover have "fruns E h t [] (t\<lparr>f_items := r\<rparr>)" by (rule fruns_one, rule fstep.Quiet) (simp_all add: view_defs)
    ultimately show ?thesis using fruns_trans by fastforce
  qed
  have put: "fruns E h s [] (s\<lparr>f_items := r\<rparr>)" for s r
    by (rule fruns_one, rule fstep.Quiet) (simp_all add: view_defs)
  show ?thesis
    unfolding keeps_call_def tool_role_def
    by (auto simp: fruns.Stop put split: option.split item_role.split prod.split dest: mint)
qed

lemma keeps_items [trace_intros]:
  "keeps (fruns E h) (remove_item i)" "keeps (fruns E h) (ignore_item i)" "keeps (fruns E h) (forget_stream i)"
  "keeps (fruns E h) (set_announced i)" "keeps (fruns E h) (remember_editor_call i tc tool item)"
  "keeps (fruns E h) (note_shell ver i tc item)"
  unfolding remove_item_def ignore_item_def forget_stream_def set_announced_def remember_editor_call_def note_shell_def
  by (rule keeps_quiet, simp add: view_defs split: option.split item_role.split prod.split)+

lemma keeps_state_once [trace_intros]: "keeps (fruns E h) (async_task_state_once sid i st)"
  unfolding async_task_state_once_def by (intro trace_intros) (simp add: view_defs)

lemma keeps_emit_state [trace_intros]: "keeps (fruns E h) (emit_async_task_state sid i item)"
  unfolding emit_async_task_state_def by (intro trace_intros) (simp add: view_defs)

lemma keeps_announce_task [trace_intros]: "keeps (fruns E h) (announce_async_task sid i task name w tc)"
  unfolding announce_async_task_def by (intro trace_intros) (simp add: view_defs)

lemma keeps_background_completion [trace_intros]: "keeps (fruns E h) (settle_background_completion sid kind item)"
  unfolding settle_background_completion_def by (intro trace_intros)

lemma keeps_seed [trace_intros]: "keeps_out (fruns E h) (seed_async_task sid row)"
proof -
  have "fruns E h s [async_task_spawned_line sid v i name ty None True None]
      (s\<lparr>f_async_task_msp_ids := m, f_announced_tasks := sput i (f_announced_tasks s)\<rparr>)"
    if "\<not> task_known i s" for s i m v name ty
  proof -
    let ?t = "s\<lparr>f_async_task_msp_ids := m\<rparr>"
    have "fstep E h s [] ?t" by (rule fstep.Quiet) (simp_all add: view_defs)
    moreover have "i \<notin> set (f_announced_tasks ?t)" using that by (simp add: task_known_def)
    from fstep.Announce [OF this spawned_line] have
      "fstep E h ?t [async_task_spawned_line sid v i name ty None True None]
        (?t\<lparr>f_announced_tasks := sput i (f_announced_tasks ?t)\<rparr>)" .
    ultimately show ?thesis using fruns.Step [OF _ fruns_one] by fastforce
  qed
  then show ?thesis
    unfolding keeps_out_def seed_async_task_def by (auto simp: fruns.Stop split: option.split)
qed

lemma keeps_release_held [trace_intros]: "keeps (fruns E h) (release_held child)"
  unfolding release_held_def
  by (rule keeps_here) (auto simp: rust_simps fruns.Stop split: option.splits intro!: fruns_one fstep.Release)

lemma keeps_next_generation [trace_intros]: "keeps (fruns E h) (next_generation child)"
  unfolding next_generation_def by (intro trace_intros) (simp add: view_defs)

lemma fruns_seq:
  "fruns E h s (snd (a s)) (fst (a s)) \<Longrightarrow>
   fruns E h (fst (a s)) (snd (b (fst (a s)))) (fst (b (fst (a s)))) \<Longrightarrow>
   fruns E h s (snd (seq a b s)) (fst (seq a b s))"
  using fruns_trans by (auto simp: seq_def split: prod.split)

lemma release_air: "f_air_subagents (fst (release_held child s)) = f_air_subagents s"
  by (simp add: release_held_def rust_simps split: option.split)

lemma keeps_rerun [trace_intros]: "keeps (fruns E h) (rerun_subagent E sid child item)"
proof -
  have ann: "fruns E h s (snd (announce_generation E sid child item s)) (fst (announce_generation E sid child item s))"
    if "f_air_subagents s" for s
    by (rule fruns_one, rule fstep.Quiet)
       (use that in \<open>auto simp: announce_generation_def rust_simps view_defs child_spawn_line split: prod.split\<close>)
  have run: "fruns E h s (snd (a s)) (fst (a s))" if "keeps (fruns E h) a" for a s
    using that by (simp add: keeps_def)
  have "fruns E h s
      (snd (do_all [release_held child, next_generation child, announce_generation E sid child item] s))
      (fst (do_all [release_held child, next_generation child, announce_generation E sid child item] s))"
    if "f_air_subagents s" for s
    unfolding do_all.simps
    by (intro fruns_seq run keeps_release_held keeps_next_generation machine.keeps_skip ann)
       (use that in \<open>simp add: next_generation_def upd_def release_air\<close>)
  moreover have "fruns E h s [subagent_state_line s sid v child st] s" for s st v
    by (rule fruns_one, rule fstep.Quiet) (simp_all add: view_defs)
  ultimately show ?thesis
    unfolding rerun_subagent_def by (intro keeps_here) (simp add: emit_def del: do_all.simps)
qed

lemma keeps_settle_subagent [trace_intros]: "keeps (fruns E h) (settle_subagent E sid child item)"
proof -
  have 1: "keeps (fruns E h) (send_subagent_state sid child st)" for st
    unfolding send_subagent_state_def by (intro trace_intros) (auto simp: view_defs)
  show ?thesis unfolding settle_subagent_def by (intro trace_intros 1) (auto simp: view_defs)
qed

end
