(* ===== verification/Fold_Handlers.thy ===== *)
theory Fold_Handlers
  imports Fold_Refine
begin

text \<open>
  The refinement of the fold, continued: turn hints, terminals, monitor cards and the item handlers
  are runs of the abstract machine. The last section dispatches the events a session receives
  (\<open>handle\<close>) and runs a sequence of them (\<open>fold_run\<close>).
\<close>

section \<open>Turn hints, terminals and monitors\<close>

lemma keeps_reminder_card [trace_intros]:
  "keeps (fruns E h) (reminder_child_card E sid ver item_id item status settle)"
  unfolding reminder_child_card_def by (intro trace_intros plain_cards)

lemma keeps_checks [trace_intros]:
  "keeps (fruns E h) (settle_background_checks E sid turn status clear)"
  unfolding settle_background_checks_def by (intro trace_intros plain_card plain_lines) (simp add: view_defs)

lemma keeps_foreground [trace_intros]: "keeps (fruns E h) (on_foreground_completed E sid ver turn agents)"
  unfolding on_foreground_completed_def by (intro trace_intros plain_cards plain_lines) (simp_all add: view_defs)

lemma keeps_retry [trace_intros]:
  "keeps (fruns E h) (on_model_retry_scheduled E sid turn params)" "keeps (fruns E h) (clear_model_retry E sid t)"
  unfolding on_model_retry_scheduled_def clear_model_retry_def
  by (intro trace_intros plain_lines, simp add: view_defs)+

lemma keeps_open_terminal [trace_intros]: "keeps_out (fruns E h) (open_terminal sid item_id)"
  by (rule keeps_quiet_out) (auto simp: open_terminal_def view_defs Let_def split: option.split)

lemma keeps_finish_terminal [trace_intros]: "keeps_out (fruns E h) (finish_terminal E sid item_id item status)"
  by (rule keeps_quiet_out)
     (auto simp: finish_terminal_def open_terminal_def view_defs Let_def split: option.split)

lemma keeps_monitor_card [trace_intros]: "keeps (fruns E h) (monitor_feed_card E sid ver item_id item status)"
  unfolding monitor_feed_card_def Let_def by (intro trace_intros plain_cards) (simp add: view_defs)

lemma keeps_inbox [trace_intros]: "keeps (fruns E h) (on_monitor_inbox E sid method params)"
  unfolding on_monitor_inbox_def inbox_card_def Let_def
  by (intro trace_intros plain_card) (simp_all add: view_defs)

section \<open>Snapshots\<close>

lemma keeps_shared [trace_intros]:
  "keeps (fruns E h) (background_task E sid ver item_id task_id tc_id title item)"
  "keeps (fruns E h) (shell_task sid item_id tc_id title item)"
  "keeps (fruns E h) (workflow_task sid tc_id title item)"
  "keeps (fruns E h) (compaction_item E sid ver item_id item status)"
  unfolding background_task_def shell_task_def workflow_task_def compaction_item_def Let_def
  by (intro trace_intros plain_cards; simp add: view_defs)+

lemma keeps_snapshot_tool [trace_intros]: "keeps (fruns E h) (snapshot_tool E sid ver item_id item status)"
  unfolding snapshot_tool_def by (intro trace_intros plain_cards)

lemma keeps_register_role [trace_intros]: "keeps (fruns E h) (register_role F pre item_id role)"
  unfolding register_role_def by (intro trace_intros) (simp add: view_defs)

lemma keeps_snapshot_text [trace_intros]:
  "keeps (fruns E h) (snapshot_message E sid ver item_id item)" "keeps (fruns E h) (snapshot_reasoning E item_id)"
  unfolding snapshot_message_def snapshot_reasoning_def by (intro trace_intros)+

lemma keeps_snapshot_cards [trace_intros]:
  "keeps (fruns E h) (snapshot_subagent E sid item)"
  "keeps (fruns E h) (snapshot_host_card E sid ver kind item_id item status)"
  "keeps (fruns E h) (snapshot_other E sid ver kind item_id item status)"
  unfolding snapshot_subagent_def snapshot_host_card_def snapshot_other_def by (intro trace_intros plain_cards)+

lemma keeps_snapshot_kind [trace_intros]: "keeps (fruns E h) (snapshot_kind E sid ver item_id item)"
  unfolding snapshot_kind_def Let_def by (intro trace_intros)

lemma keeps_snapshot [trace_intros]: "keeps (fruns E h) (on_item_snapshot E sid ver item)"
  unfolding on_item_snapshot_def by (intro trace_intros)

section \<open>Deltas\<close>

lemma delta_text_fits:
  assumes "delta_text E n d \<noteq> []"
  shows "n + length (chars (delta_text E n d)) \<le> max_content E"
proof -
  have "list_all is_scalar (take (max_content E - n) (chars d))"
    using chars_scalar [of d] by (auto simp: list_all_iff dest: in_set_takeD)
  then have len: "length (chars (delta_text E n d)) \<le> max_content E - n" by (simp add: delta_text_def)
  from assms have "n < max_content E" by (cases "n < max_content E") (auto simp: delta_text_def)
  with len show ?thesis by linarith
qed

lemma keeps_delta_output [trace_intros]:
  "keeps (fruns E h) (delta_terminal E sid item_id delta)" "keeps (fruns E h) (delta_tool E sid item_id delta)"
  unfolding delta_terminal_def delta_tool_def Let_def
  by (intro trace_intros plain_lines, simp add: view_defs delta_text_fits)
     (intro trace_intros plain_lines, simp_all add: view_defs delta_text_fits)

lemma keeps_delta_message [trace_intros]: "keeps (fruns E h) (delta_message E sid ver item_id delta)"
  unfolding delta_message_def by (intro trace_intros plain_cards) (simp_all add: view_defs)

lemma keeps_delta_thought [trace_intros]: "keeps (fruns E h) (delta_thought sid ver item_id part delta)"
  unfolding delta_thought_def Let_def by (intro trace_intros plain_cards) (simp_all add: view_defs)

lemma keeps_delta [trace_intros]: "keeps (fruns E h) (on_item_delta E sid ver params)"
  unfolding on_item_delta_def Let_def by (intro trace_intros)

section \<open>Completions\<close>

lemma keeps_take_terminal [trace_intros]:
  "(\<And>x. keeps (fruns E h) (k x)) \<Longrightarrow> keeps (fruns E h) (take_terminal E sid ver item_id tc_id item status k)"
  unfolding take_terminal_def Let_def by (intro trace_intros; simp add: view_defs)

lemma keeps_complete_tool [trace_intros]: "keeps (fruns E h) (complete_tool E sid ver item_id item status)"
  unfolding complete_tool_def by (intro trace_intros plain_cards) (simp_all add: view_defs)

lemma keeps_show_reply [trace_intros]: "keeps (fruns E h) (show_reply E sid ver item_id item t msg)"
  unfolding show_reply_def by (intro trace_intros plain_cards) (simp add: view_defs)

lemma keeps_complete_text [trace_intros]:
  "keeps (fruns E h) (complete_message E sid ver item_id item)"
  "keeps (fruns E h) (complete_reasoning E sid ver item_id item)"
  unfolding complete_message_def complete_reasoning_def Let_def by (intro trace_intros plain_cards)+

lemma keeps_complete_cards [trace_intros]:
  "keeps (fruns E h) (complete_subagent E sid item_id item)"
  "keeps (fruns E h) (complete_host_card E sid ver kind item_id item status)"
  "keeps (fruns E h) (complete_other E sid ver kind item_id item status)"
  unfolding complete_subagent_def complete_host_card_def complete_other_def Let_def
  by (intro trace_intros plain_cards plain_card)+

lemma keeps_complete_kind [trace_intros]: "keeps (fruns E h) (complete_kind E sid ver item_id item)"
  unfolding complete_kind_def Let_def by (intro trace_intros)

lemma keeps_complete_item [trace_intros]: "keeps (fruns E h) (complete_item E sid ver item)"
  unfolding complete_item_def by (intro trace_intros)

section \<open>Held rows and replay\<close>

lemma keeps_hold [trace_intros]: "keeps (fruns E True) (upd (\<lambda>s. s\<lparr>f_awaiting_anchor := r s\<rparr>))"
  unfolding keeps_def upd_def by (auto intro: fruns_one fstep.Hold)

lemma keeps_switch [trace_intros]: "keeps (fruns E True) (upd (\<lambda>s. s\<lparr>f_replaying := r s\<rparr>))"
  unfolding keeps_def upd_def by (auto intro: fruns_one fstep.Switch)

lemma keeps_hold_row [trace_intros]: "keeps (fruns E True) (hold_row anchor item_id item)"
  unfolding keeps_def hold_row_def upd_def by (auto intro: fruns_one fstep.Hold fruns.Stop)

lemma keeps_release [trace_intros]: "keeps (fruns E True) (release_awaiting_anchor E anchor sid ver)"
  unfolding release_awaiting_anchor_def by (intro keeps_hold trace_intros)

lemma keeps_completed [trace_intros]: "keeps (fruns E True) (on_item_completed E sid ver params)"
  unfolding on_item_completed_def by (intro trace_intros)

lemma keeps_flush [trace_intros]:
  "keeps (fruns E True) (flush_awaiting_anchor_unless E sid ver f)"
  "keeps (fruns E True) (flush_awaiting_anchor E sid ver)"
  unfolding flush_awaiting_anchor_def flush_awaiting_anchor_unless_def by (intro trace_intros)+

lemma keeps_replay_messages [trace_intros]:
  "keeps (fruns E h) (replay_prefix E sid ver kind item_id item)"
  "keeps (fruns E h) (replay_settled_message E sid ver kind item_id item)"
  unfolding replay_prefix_def replay_settled_message_def Let_def
  by (intro trace_intros plain_cards; simp add: view_defs)+

lemma keeps_replay_item [trace_intros]: "keeps (fruns E True) (replay_item E sid ver item)"
  unfolding replay_item_def Let_def by (intro trace_intros)

lemma keeps_replay_loop [trace_intros]: "keeps (fruns E True) (replay_loop E sid ver upcoming turn items)"
  by (induction items arbitrary: upcoming turn)
     (simp_all only: replay_loop.simps Let_def, (intro trace_intros; assumption?)+)

lemma keeps_replay [trace_intros]: "keeps (fruns E True) (replay_history_items E sid ver items)"
  unfolding replay_history_items_def by (intro trace_intros)

end
