(* ===== verification/Fold_Session.thy ===== *)
theory Fold_Session
  imports Fold_Handlers
begin

text \<open>
  A session's fold over its life: the configuration of a fresh fold and the dispatch of host events
  to the handlers (\<^verbatim>\<open>fresh_fold\<close> and the fold calls of \<^verbatim>\<open>handle_msp\<close> in \<^verbatim>\<open>src/main.rs\<close>), and what holds
  after any sequence of events. The theorems come from invariants of the abstract machine; the locale
  \<open>latch\<close> is the shared argument that something is announced at most once.
\<close>

section \<open>Events\<close>

record negotiated =
  n_ver :: nat
  n_workspace_root :: string
  n_subagents :: nat
  n_async_tasks :: bool
  n_compaction :: bool
  n_reminders :: bool

definition SUBAGENTS_AIR :: nat where
  "SUBAGENTS_AIR = 2"

definition fresh_fold :: "negotiated \<Rightarrow> fold_t" where
  "fresh_fold c = session_fold_new\<lparr>f_ver := (if n_ver c = 2 then 2 else 1),
     f_workspace_root := n_workspace_root c, f_native_subagents := (n_subagents c \<noteq> 0),
     f_air_subagents := (n_subagents c = SUBAGENTS_AIR), f_air_async_tasks := n_async_tasks c,
     f_compaction_supported := n_compaction c, f_show_reminders := n_reminders c\<rparr>"

datatype event =
    ItemStarted J
  | ItemDelta J
  | ItemCompleted J "card_content option" "card_content option"
  | TurnEnded string string
  | TurnDropped string string
  | ForegroundCompleted string "string list"
  | RetryScheduled string J
  | RetriesCleared
  | MonitorInbox string J
  | TaskSeeded J
  | BackgroundDone string J
  | HostLost
  | HistoryReplayed "J list"
  | ChildReadTaken string
  | ChildReadBegun string
  | ChildReadEnded string string
  | HookInventory J

text \<open>A completed item, with the diff the host returned for it and the content the editor bridge
  recorded; a diff wins over the editor's content.\<close>

definition note_card_content :: "J \<Rightarrow> card_content option \<Rightarrow> card_content option \<Rightarrow> handler" where
  "note_card_content item diff editor =
     (case str_at item ''itemId'' of
        None \<Rightarrow> skip
      | Some i \<Rightarrow>
          (case (diff, editor) of
             (Some d, _) \<Rightarrow> upd (\<lambda>s. s\<lparr>f_patch_diffs := hput i d (f_patch_diffs s)\<rparr>)
           | (None, Some (Terminal t)) \<Rightarrow>
               upd (\<lambda>s. s\<lparr>f_editor_terminals := hput i (Terminal t) (f_editor_terminals s)\<rparr>)
           | (None, Some d) \<Rightarrow> upd (\<lambda>s. s\<lparr>f_patch_diffs := hput i d (f_patch_diffs s)\<rparr>)
           | (None, None) \<Rightarrow> skip))"

definition turn_ended :: "env \<Rightarrow> string \<Rightarrow> nat \<Rightarrow> string \<Rightarrow> string \<Rightarrow> handler" where
  "turn_ended E sid ver turn_id terminal = do_all
     [settle_background_checks E sid (Some turn_id) (if terminal = ''failed'' then ''failed'' else ''completed'') True,
      clear_model_retry E sid (Some turn_id),
      flush_awaiting_anchor E sid ver]"

definition turn_dropped :: "env \<Rightarrow> string \<Rightarrow> string \<Rightarrow> string \<Rightarrow> handler" where
  "turn_dropped E sid turn_id status = do_all
     [settle_background_checks E sid (Some turn_id) status True, clear_model_retry E sid (Some turn_id)]"

definition child_read_ended :: "string \<Rightarrow> string \<Rightarrow> handler" where
  "child_read_ended child i s =
     (case end_child_read child i s of
        ((sendable, held), t) \<Rightarrow> (t, case held of Some n \<Rightarrow> [n] | None \<Rightarrow> []))"

fun handle :: "env \<Rightarrow> string \<Rightarrow> nat \<Rightarrow> event \<Rightarrow> handler" where
  "handle E sid ver (ItemStarted item) = on_item_snapshot E sid ver item"
| "handle E sid ver (ItemDelta params) = on_item_delta E sid ver params"
| "handle E sid ver (ItemCompleted params diff editor) = do_all
     [note_card_content (unwrap_or (jget params ''item'') JNull) diff editor,
      on_item_completed E sid ver params]"
| "handle E sid ver (TurnEnded turn terminal) = turn_ended E sid ver turn terminal"
| "handle E sid ver (TurnDropped turn status) = turn_dropped E sid turn status"
| "handle E sid ver (ForegroundCompleted turn agents) = on_foreground_completed E sid ver turn agents"
| "handle E sid ver (RetryScheduled turn params) = on_model_retry_scheduled E sid turn params"
| "handle E sid ver RetriesCleared = clear_model_retry E sid None"
| "handle E sid ver (MonitorInbox method params) = on_monitor_inbox E sid method params"
| "handle E sid ver (TaskSeeded row) = call_out (seed_async_task sid row) (\<lambda>b. skip)"
| "handle E sid ver (BackgroundDone kind item) = settle_background_completion sid kind item"
| "handle E sid ver HostLost = disconnect_tasks sid ver"
| "handle E sid ver (HistoryReplayed items) = replay_history_items E sid ver items"
| "handle E sid ver (ChildReadTaken child) = call (take_child_read child) (\<lambda>b. skip)"
| "handle E sid ver (ChildReadBegun i) = upd (begin_child_read i)"
| "handle E sid ver (ChildReadEnded child i) = child_read_ended child i"
| "handle E sid ver (HookInventory result) = upd (note_hook_inventory result)"

definition fold_run :: "env \<Rightarrow> string \<Rightarrow> nat \<Rightarrow> event list \<Rightarrow> handler" where
  "fold_run E sid ver = for_each (handle E sid ver)"

section \<open>The handlers refine the machine\<close>

lemma keeps_card_content [trace_intros]: "keeps (fruns E h) (note_card_content item diff editor)"
  unfolding note_card_content_def
  by (auto intro!: trace_intros simp: view_defs split: option.split card_content.split)

lemma keeps_turns [trace_intros]:
  "keeps (fruns E True) (turn_ended E sid ver turn terminal)" "keeps (fruns E h) (turn_dropped E sid turn status)"
  unfolding turn_ended_def turn_dropped_def by (intro trace_intros)+

lemma keeps_child_read [trace_intros]: "keeps (fruns E h) (child_read_ended child i)"
proof -
  have rel: "fruns E h s [n]
      (s\<lparr>f_child_reads_in_flight := a, f_held_child_states := hdel i (f_held_child_states s)\<rparr>)"
    if "hget (f_held_child_states s) i = Some n" for s n a
  proof -
    let ?t = "s\<lparr>f_child_reads_in_flight := a\<rparr>"
    have "fstep E h s [] ?t" by (rule fstep.Quiet) (simp_all add: view_defs)
    moreover have "fstep E h ?t [n] (?t\<lparr>f_held_child_states := hdel i (f_held_child_states ?t)\<rparr>)"
      by (rule fstep.Release) (simp add: that)
    ultimately show ?thesis using fruns.Step [OF _ fruns_one] by fastforce
  qed
  have quiet: "fruns E h s []
      (s\<lparr>f_child_reads_in_flight := a, f_held_child_states := hdel i (f_held_child_states s)\<rparr>)" for s a
    by (rule fruns_one, rule fstep.Quiet) (simp_all add: view_defs)
  show ?thesis
    unfolding keeps_def child_read_ended_def end_child_read_def Let_def
    by (auto simp: rel quiet split: option.split)
qed

lemma handle_refines: "keeps (fruns E True) (handle E sid ver e)"
  by (cases e; simp only: handle.simps)
     (intro trace_intros; simp add: view_defs take_child_read_def begin_child_read_def note_hook_inventory_def)+

lemma fold_run_refines: "keeps (fruns E True) (fold_run E sid ver es)"
  unfolding fold_run_def by (intro trace_intros handle_refines)

section \<open>Announced at most once\<close>

definition held_plain :: "fold_t \<Rightarrow> bool" where
  "held_plain s \<longleftrightarrow> (\<forall>i n. hget (f_held_child_states s) i = Some n \<longrightarrow> plain n)"

lemma held_plain_same [simp]: "held_plain s \<Longrightarrow> f_held_child_states t = f_held_child_states s \<Longrightarrow> held_plain t"
  by (simp add: held_plain_def)

lemma observe_workflow_frame [simp]:
  "f_held_child_states (observe_workflow item c s) = f_held_child_states s"
  "f_announced_tasks (observe_workflow item c s) = f_announced_tasks s"
  "f_spawned_subagents (observe_workflow item c s) = f_spawned_subagents s"
  "f_async_task_states (observe_workflow item c s) = f_async_task_states s"
  "f_done (observe_workflow item c s) = f_done s"
  "f_cut_off (observe_workflow item c s) = f_cut_off s"
  "f_awaiting_anchor (observe_workflow item c s) = f_awaiting_anchor s"
  "f_replaying (observe_workflow item c s) = f_replaying s"
  "f_streamed_output (observe_workflow item c s) = f_streamed_output s"
  "f_terminals (observe_workflow item c s) = f_terminals s"
  by (simp_all add: observe_workflow_def supersede_def Let_def split: option.split)

lemma fstep_held_plain: "fstep E h s ns t \<Longrightarrow> held_plain s \<Longrightarrow> held_plain t"
  by (induction rule: fstep.induct) (auto simp: held_plain_def quiet_maps_def split: if_splits, metis+)

lemma map_filter_plain:
  assumes "\<And>n. plain n \<Longrightarrow> what n = None" "list_all plain ns"
  shows "List.map_filter what ns = []"
  using assms(2) by (induction ns) (auto simp: map_filter_simps assms(1))

lemma map_filter_append: "List.map_filter f (xs @ ys) = List.map_filter f xs @ List.map_filter f ys"
  by (simp add: map_filter_def)

text \<open>Something a notification announces and a set in the state that remembers what was announced.\<close>

locale latch =
  fixes what :: "notif \<Rightarrow> 'k option" and seen :: "fold_t \<Rightarrow> 'k set"
  assumes once: "fstep E h s ns t \<Longrightarrow> held_plain s \<Longrightarrow>
    distinct (List.map_filter what ns) \<and> set (List.map_filter what ns) \<inter> seen s = {} \<and>
    set (List.map_filter what ns) \<union> seen s \<subseteq> seen t"
begin

lemma run_once:
  "fruns E h s ns t \<Longrightarrow> held_plain s \<Longrightarrow>
    distinct (List.map_filter what ns) \<and> set (List.map_filter what ns) \<inter> seen s = {} \<and>
    set (List.map_filter what ns) \<union> seen s \<subseteq> seen t"
proof (induction rule: fruns.induct)
  case (Step s ns t ms u)
  from once [OF Step.hyps(1) Step.prems] Step.IH [OF fstep_held_plain [OF Step.hyps(1) Step.prems]]
  show ?case by (auto simp: map_filter_append)
qed (simp add: map_filter_simps)

end

locale exact_latch = latch +
  assumes only: "fstep E h s ns t \<Longrightarrow> held_plain s \<Longrightarrow> seen t \<subseteq> set (List.map_filter what ns) \<union> seen s"
begin

lemma run_only: "fruns E h s ns t \<Longrightarrow> held_plain s \<Longrightarrow> seen t = set (List.map_filter what ns) \<union> seen s"
proof (induction rule: fruns.induct)
  case (Step s ns t ms u)
  from once [OF Step.hyps(1) Step.prems] only [OF Step.hyps(1) Step.prems]
    Step.IH [OF fstep_held_plain [OF Step.hyps(1) Step.prems]]
  show ?case by (auto simp: map_filter_append)
qed (simp add: map_filter_simps)

end

lemma plain_views:
  "list_all plain ns \<Longrightarrow> List.map_filter spawned_task ns = []"
  "list_all plain ns \<Longrightarrow> List.map_filter spawned_child ns = []"
  by (rule map_filter_plain; simp add: plain_def)+

lemma same_viewD:
  assumes "same_view s t"
  shows "f_announced_tasks t = f_announced_tasks s" "f_spawned_subagents t = f_spawned_subagents s"
    "f_async_task_states t = f_async_task_states s" "f_done t = f_done s" "f_cut_off t = f_cut_off s"
    "f_awaiting_anchor t = f_awaiting_anchor s" "f_replaying t = f_replaying s"
    "f_workflow_children t = f_workflow_children s" "f_superseded_workflows t = f_superseded_workflows s"
    "f_ver t = f_ver s"
  using assms by (simp_all add: same_view_def)

lemma held_plainD:
  "hget (f_held_child_states s) i = Some n \<Longrightarrow> held_plain s \<Longrightarrow>
   spawned_task n = None \<and> reported_state n = None \<and> spawned_child n = None"
  by (auto simp: held_plain_def plain_def)

interpretation tasks: exact_latch spawned_task "\<lambda>s. set (f_announced_tasks s)"
  by unfold_locales
     (erule fstep.cases; auto simp: map_filter_simps plain_views same_viewD dest!: held_plainD)+

interpretation children: latch spawned_child "\<lambda>s. set (f_spawned_subagents s)"
  by unfold_locales
     (erule fstep.cases; auto simp: map_filter_simps plain_views same_viewD dest!: held_plainD)

lemma fold_run_run: "fruns E True s (snd (fold_run E sid ver es s)) (fst (fold_run E sid ver es s))"
  using fold_run_refines by (simp add: keeps_def)

lemma fresh_held_plain: "held_plain (fresh_fold c)"
  by (simp add: held_plain_def fresh_fold_def session_fold_new_def)

text \<open>C17: over any sequence of events, an async task is announced to the editor at most once, and the
  fold remembers exactly the tasks it announced.\<close>

theorem task_announced_once:
  "distinct (List.map_filter spawned_task (snd (fold_run E sid ver es (fresh_fold c)))) \<and>
   set (f_announced_tasks (fst (fold_run E sid ver es (fresh_fold c)))) =
     set (List.map_filter spawned_task (snd (fold_run E sid ver es (fresh_fold c))))"
  using tasks.run_once [OF fold_run_run fresh_held_plain] tasks.run_only [OF fold_run_run fresh_held_plain]
  by (simp add: fresh_fold_def session_fold_new_def)

text \<open>over any sequence of events, a native child session is announced with its title at most once,
  and only children the fold has recorded as announced.\<close>

theorem child_announced_once:
  "distinct (List.map_filter spawned_child (snd (fold_run E sid ver es (fresh_fold c)))) \<and>
   set (List.map_filter spawned_child (snd (fold_run E sid ver es (fresh_fold c)))) \<subseteq>
     set (f_spawned_subagents (fst (fold_run E sid ver es (fresh_fold c))))"
  using children.run_once [OF fold_run_run fresh_held_plain] by blast

section \<open>Task states\<close>

definition states_of :: "string \<Rightarrow> notif list \<Rightarrow> string list" where
  "states_of x ns = List.map_filter (\<lambda>n. case reported_state n of
     Some (i, st) \<Rightarrow> if i = x then Some st else None | None \<Rightarrow> None) ns"

lemma states_of_simps:
  "states_of x [] = []" "states_of x (ns @ ms) = states_of x ns @ states_of x ms"
  "list_all plain ns \<Longrightarrow> states_of x ns = []"
  by (simp_all add: states_of_def map_filter_simps map_filter_append) (rule map_filter_plain; simp add: plain_def)

lemma states_of_one:
  "states_of x [n] = (case reported_state n of Some (i, st) \<Rightarrow> if i = x then [st] else [] | None \<Rightarrow> [])"
  by (simp add: states_of_def map_filter_simps split: option.split)

lemma fstep_states:
  "fstep E h s ns t \<Longrightarrow> held_plain s \<Longrightarrow>
    states_of x ns = [] \<and> hget (f_async_task_states t) x = hget (f_async_task_states s) x \<or>
    (\<exists>st. states_of x ns = [st] \<and> hget (f_async_task_states s) x \<noteq> Some st \<and> hget (f_async_task_states t) x = Some st)"
  by (erule fstep.cases)
     (auto simp: states_of_simps states_of_one same_viewD dest!: held_plainD)

lemma fruns_states:
  "fruns E h s ns t \<Longrightarrow> held_plain s \<Longrightarrow>
    distinct_adj (case_option [] (\<lambda>st. [st]) (hget (f_async_task_states s) x) @ states_of x ns) \<and>
    hget (f_async_task_states t) x =
      (if states_of x ns = [] then hget (f_async_task_states s) x else Some (last (states_of x ns)))"
proof (induction rule: fruns.induct)
  case (Step s ns t ms u)
  from fstep_states [OF Step.hyps(1) Step.prems, of x] Step.IH [OF fstep_held_plain [OF Step.hyps(1) Step.prems]]
  show ?case by (auto simp: states_of_simps distinct_adj_Cons split: option.splits)
qed (simp add: states_of_simps split: option.split)

text \<open>over any sequence of events, consecutive state updates of an async task differ, and the fold
  remembers the last state it reported.\<close>

theorem task_states_alternate:
  "distinct_adj (states_of x (snd (fold_run E sid ver es (fresh_fold c)))) \<and>
   hget (f_async_task_states (fst (fold_run E sid ver es (fresh_fold c)))) x =
     (if states_of x (snd (fold_run E sid ver es (fresh_fold c))) = [] then None
      else Some (last (states_of x (snd (fold_run E sid ver es (fresh_fold c))))))"
  using fruns_states [OF fold_run_run fresh_held_plain, where x = x]
  by (simp add: fresh_fold_def session_fold_new_def)

section \<open>Concrete inputs\<close>

definition demo_env :: env where
  "demo_env = \<lparr>e_serde = (\<lambda>t. None), e_limit = None, e_lower = (\<lambda>t. t), e_upper = (\<lambda>c. utf8_encode c), e_rand = (\<lambda>n. [])\<rparr>"

definition demo_config :: negotiated where
  "demo_config = \<lparr>n_ver = 2, n_workspace_root = ''/w'', n_subagents = 1, n_async_tasks = True, n_compaction = True,
     n_reminders = False\<rparr>"

text \<open>The second generation of a workflow run.\<close>

definition demo_resumed :: J where
  "demo_resumed = JObj [(''itemId'', JStr ''i2''), (''kind'', JStr ''workflow''), (''workflowRunId'', JStr ''r2''),
     (''resumeFromRunId'', JStr ''r1'')]"

definition demo_reply :: J where
  "demo_reply = JObj [(''itemId'', JStr ''i1''), (''kind'', JStr ''agentMessage''), (''text'', JStr ''done'')]"

section \<open>Settled items, superseded workflows, streamed characters\<close>

lemma fstep_mono:
  "fstep E h s ns t \<Longrightarrow> set (f_done s) \<subseteq> set (f_done t) \<and> set (f_cut_off s) \<subseteq> set (f_cut_off t)"
  by (erule fstep.cases) (auto simp: same_viewD)

lemma fruns_mono:
  "fruns E h s ns t \<Longrightarrow> set (f_done s) \<subseteq> set (f_done t) \<and> set (f_cut_off s) \<subseteq> set (f_cut_off t)"
  by (induction rule: fruns.induct) (use fstep_mono in fastforce)+

lemma mark_cut_off_brief:
  assumes "str_at item ''itemId'' = Some i"
  shows "length (snd (mark_cut_off E sid ver item s)) \<le> 1"
    and "\<not> is_cut_off item \<or> i \<in> set (f_cut_off s) \<Longrightarrow> snd (mark_cut_off E sid ver item s) = []"
  using assms by (auto simp: mark_cut_off_def rust_simps split: option.split)

lemma known_forget: "known (fst (forget_stream i s)) j = known s j"
  by (simp add: forget_stream_def upd_def known_def)

lemma known_observe: "known (fst (observe item c s)) j = known s j"
  by (simp add: observe_def upd_def known_def observe_subagent_def split: option.split)

lemma cut_off_observe: "f_cut_off (fst (observe item c s)) = f_cut_off s"
  by (simp add: observe_def upd_def observe_subagent_def split: option.split)

lemma snapshot_settled:
  assumes "str_at item ''itemId'' = Some i" "known s i"
  shows "snd (on_item_snapshot E sid ver item s) = snd (mark_cut_off E sid ver item (fst (observe item False s)))"
  using assms known_observe [of item False s i]
  by (simp add: on_item_snapshot_def rust_simps observe_def split: prod.split)

lemma complete_settled:
  assumes "str_at item ''itemId'' = Some i" "known s i"
  shows "snd (complete_item E sid ver item s) =
    snd (mark_cut_off E sid ver item (fst (observe item True (fst (forget_stream i s)))))"
  using assms known_observe [of item True "fst (forget_stream i s)" i] known_forget [of i s i]
  by (simp add: complete_item_def rust_simps observe_def forget_stream_def split: prod.split)

text \<open>C18: once an item has settled, whatever events follow, a further snapshot or completion of it sends
  at most one notification, the cut-off mark of its message, and nothing when the item is not cut
  off or is marked already.\<close>

theorem settled_item_stays_settled:
  assumes "known s i" "str_at item ''itemId'' = Some i" "t = fst (fold_run E sid ver es s)"
  shows "known t i \<and>
    length (snd (on_item_snapshot E sid ver item t)) \<le> 1 \<and> length (snd (complete_item E sid ver item t)) \<le> 1 \<and>
    (\<not> is_cut_off item \<or> i \<in> set (f_cut_off t) \<longrightarrow>
      snd (on_item_snapshot E sid ver item t) = [] \<and> snd (complete_item E sid ver item t) = [])"
proof -
  have t: "known t i" using fruns_mono [OF fold_run_run [of E s sid ver es]] assms(1,3) by (auto simp: known_def)
  have cut: "f_cut_off (fst (observe item True (fst (forget_stream i t)))) = f_cut_off t"
    by (simp add: cut_off_observe) (simp add: forget_stream_def upd_def)
  show ?thesis
    using t cut mark_cut_off_brief [OF assms(2)]
    by (simp add: snapshot_settled [OF assms(2) t] complete_settled [OF assms(2) t] cut_off_observe)
qed

theorem settled_item_stays_settled_witness:
  "snd (complete_item demo_env ''s'' 2 demo_reply
     (fst (fold_run demo_env ''s'' 2 [ItemDelta demo_reply] (session_fold_new\<lparr>f_done := [''i1'']\<rparr>)))) = []"
proof -
  have "known (session_fold_new\<lparr>f_done := [''i1'']\<rparr>) ''i1''" by (simp add: known_def)
  moreover have "str_at demo_reply ''itemId'' = Some ''i1''" "\<not> is_cut_off demo_reply"
    by (simp_all add: demo_reply_def str_at_def is_cut_off_def is_true_def str_or_def)
  ultimately show ?thesis using settled_item_stays_settled [OF _ _ refl] by blast
qed

lemma fstep_workflow:
  assumes "fstep E h s ns t" "workflow_inv s"
  shows "workflow_inv t \<and> set (f_superseded_workflows s) \<subseteq> set (f_superseded_workflows t)"
proof -
  consider "f_superseded_workflows t = f_superseded_workflows s" "f_workflow_children t = f_workflow_children s"
    | item c where "t = observe_workflow item c s"
    using assms(1) by cases (auto simp: same_viewD)
  then show ?thesis
    by cases (use assms(2) observe_workflow_inv [OF assms(2)] in \<open>simp_all add: workflow_inv_def [of t] workflow_inv_def [of s]\<close>)
qed

lemma fruns_workflow:
  "fruns E h s ns t \<Longrightarrow> workflow_inv s \<Longrightarrow>
   workflow_inv t \<and> set (f_superseded_workflows s) \<subseteq> set (f_superseded_workflows t)"
  by (induction rule: fruns.induct) (use fstep_workflow in \<open>blast+\<close>)

text \<open>over any sequence of events a workflow run that a successor superseded never comes back: it
  stays superseded, and no listing of the live runs or of their children shows it.\<close>

theorem superseded_run_never_listed:
  assumes "r \<in> set (f_superseded_workflows (fst (fold_run E sid ver es (fresh_fold c))))"
    and "t = fst (fold_run E sid ver (es @ es') (fresh_fold c))"
  shows "r \<in> set (f_superseded_workflows t) \<and> r \<notin> wr_run_id ` set (workflow_runs t) \<and>
    r \<notin> wc_run_id ` set (workflow_children t)"
proof -
  let ?s = "fst (fold_run E sid ver es (fresh_fold c))"
  have app: "t = fst (fold_run E sid ver es' ?s)"
    using assms(2) by (simp add: fold_run_def for_each_append fst_seq)
  have "workflow_inv (fresh_fold c)" by (simp add: workflow_inv_def fresh_fold_def session_fold_new_def)
  then have "workflow_inv ?s" using fruns_workflow [OF fold_run_run] by blast
  then have t: "workflow_inv t" "r \<in> set (f_superseded_workflows t)"
    using fruns_workflow [OF fold_run_run [of E ?s sid ver es']] assms(1) app by auto
  then show ?thesis using listed_not_superseded by simp
qed

theorem superseded_run_never_listed_witness:
  "''r1'' \<notin> wr_run_id ` set (workflow_runs (fst (fold_run demo_env ''s'' 2
     [ItemStarted demo_resumed, ItemStarted (JObj [(''itemId'', JStr ''i1''), (''kind'', JStr ''workflow''),
       (''workflowRunId'', JStr ''r1'')])] (fresh_fold demo_config))))"
proof -
  have "keeps (fruns demo_env True) (with_state (\<lambda>s. if known s ''i2'' then mark_cut_off demo_env ''s'' 2 demo_resumed
      else snapshot_kind demo_env ''s'' 2 ''i2'' demo_resumed))" (is "keeps _ ?rest")
    by (intro trace_intros)
  then have rest: "set (f_superseded_workflows s) \<subseteq> set (f_superseded_workflows (fst (?rest s)))" if "workflow_inv s" for s
    using fruns_workflow [OF _ that] unfolding keeps_def by blast
  let ?s = "fst (observe demo_resumed False (fresh_fold demo_config))"
  have i: "str_at demo_resumed ''itemId'' = Some ''i2''" by (simp add: demo_resumed_def str_at_def)
  have inv: "workflow_inv (fresh_fold demo_config)" by (simp add: workflow_inv_def fresh_fold_def session_fold_new_def)
  have obs: "?s = observe_workflow demo_resumed False (fresh_fold demo_config)"
    by (simp add: observe_def upd_def observe_subagent_def demo_resumed_def str_at_def)
  have "''r1'' \<in> set (f_superseded_workflows ?s)"
    unfolding obs by (simp add: observe_workflow_def demo_resumed_def str_at_def non_empty_str_def str_or_def supersede_def
        fresh_fold_def session_fold_new_def Let_def)
  then have "''r1'' \<in> set (f_superseded_workflows (fst (?rest ?s)))"
    using rest [of ?s] observe_workflow_inv(1) [OF inv] unfolding obs by blast
  then have "''r1'' \<in> set (f_superseded_workflows (fst (fold_run demo_env ''s'' 2 [ItemStarted demo_resumed] (fresh_fold demo_config))))"
    by (simp add: fold_run_def for_each_def on_item_snapshot_def fst_seq skip_def i)
  from superseded_run_never_listed [OF this refl] show ?thesis by simp
qed

end
