(* ===== verification/Fold_Rows.thy ===== *)
theory Fold_Rows
  imports Fold_Session
begin

text \<open>
  Nothing the host reports is lost: a completed item either settles at once or waits for its anchor,
  a waiting row survives every handler until it settles, the end of a turn settles all of them, and
  the replay of a history settles every item of it that is not in flight.
\<close>

section \<open>Waiting rows survive\<close>

definition settled :: "fold_t \<Rightarrow> J \<Rightarrow> bool" where
  "settled s item \<longleftrightarrow> (case str_at item ''itemId'' of Some i \<Rightarrow> known s i | None \<Rightarrow> True)"

definition placed :: "fold_t \<Rightarrow> J \<Rightarrow> bool" where
  "placed s item \<longleftrightarrow> settled s item \<or>
     list_ex (\<lambda>(a, held). str_at held ''itemId'' = str_at item ''itemId'') (f_awaiting_anchor s)"

definition carries :: "fold_t \<Rightarrow> notif list \<Rightarrow> fold_t \<Rightarrow> bool" where
  "carries s ns t \<longleftrightarrow> set (f_done s) \<subseteq> set (f_done t) \<and> (\<forall>item. placed s item \<longrightarrow> placed t item)"

interpretation rows: trace_property carries
  by unfold_locales (auto simp: carries_def)

lemma settled_mono: "set (f_done s) \<subseteq> set (f_done t) \<Longrightarrow> settled s item \<Longrightarrow> settled t item"
  by (auto simp: settled_def known_def split: option.splits)

lemma settled_iff: "f_done t = f_done s \<Longrightarrow> settled t item = settled s item"
  by (simp add: settled_def known_def split: option.split)

text \<open>A handler that neither holds nor releases rows leaves them where they are.\<close>

lemma fruns_rows: "fruns E False s ns t \<Longrightarrow> f_awaiting_anchor t = f_awaiting_anchor s \<and> f_replaying t = f_replaying s"
  by (induction rule: fruns.induct) (auto elim!: fstepE simp: same_viewD)

lemma carriesI: "set (f_done s) \<subseteq> set (f_done t) \<Longrightarrow> f_awaiting_anchor t = f_awaiting_anchor s \<Longrightarrow> carries s ns t"
  using settled_mono by (auto simp: carries_def placed_def)

lemma carries_quiet: "keeps (fruns E False) a \<Longrightarrow> keeps carries a"
  unfolding keeps_def by (blast intro: carriesI dest: fruns_rows fruns_mono)

lemma complete_item_rows:
  "f_awaiting_anchor (fst (complete_item E sid ver item s)) = f_awaiting_anchor s"
  "set (f_done s) \<subseteq> set (f_done (fst (complete_item E sid ver item s)))"
  using fruns_rows fruns_mono keeps_complete_item [of E False sid ver item] unfolding keeps_def by blast+

lemma complete_item_settles: "settled (fst (complete_item E sid ver item s)) item"
proof (cases "str_at item ''itemId''")
  case (Some i)
  let ?s = "fst (observe item True (fst (forget_stream i s)))"
  show ?thesis
  proof (cases "known ?s i")
    case True
    then have "set (f_done ?s) \<subseteq> set (f_done (fst (mark_cut_off E sid ver item ?s)))"
      using fruns_mono keeps_mark_cut_off [of E False sid ver item] unfolding keeps_def by blast
    with True Some show ?thesis
      by (auto simp: complete_item_def fst_seq with_state_def skip_def settled_def known_def)
  next
    case False
    let ?t = "fst (mark_done i ?s)"
    have "set (f_done ?t) \<subseteq> set (f_done (fst (complete_kind E sid ver i item ?t)))"
      using fruns_mono keeps_complete_kind [of E False sid ver i item] unfolding keeps_def by blast
    moreover have "i \<in> set (f_done ?t)" by (simp add: mark_done_def upd_def)
    ultimately show ?thesis
      using False Some by (auto simp: complete_item_def fst_seq with_state_def skip_def settled_def known_def)
  qed
qed (simp add: settled_def)

section \<open>Releasing and flushing\<close>

lemma for_each_Cons: "fst (for_each f (x # xs) s) = fst (for_each f xs (fst (f x s)))"
  by (simp add: for_each_def fst_seq)

lemma for_each_Nil: "fst (for_each f [] s) = s"
  by (simp add: for_each_def skip_def)

definition complete_each :: "env \<Rightarrow> string \<Rightarrow> nat \<Rightarrow> (string \<times> J) list \<Rightarrow> handler" where
  "complete_each E sid ver = for_each (\<lambda>(a, item). complete_item E sid ver item)"

lemma complete_rows:
  "f_awaiting_anchor (fst (complete_each E sid ver rows s)) = f_awaiting_anchor s \<and>
   set (f_done s) \<subseteq> set (f_done (fst (complete_each E sid ver rows s))) \<and>
   (\<forall>(a, item) \<in> set rows. settled (fst (complete_each E sid ver rows s)) item)"
proof (induction rows arbitrary: s)
  case (Cons row rows)
  obtain a item where row: "row = (a, item)" by (cases row)
  let ?t = "fst (complete_item E sid ver item s)"
  have "settled (fst (complete_each E sid ver rows ?t)) item"
    using Cons.IH [of ?t] complete_item_settles settled_mono by blast
  then show ?case
    using Cons.IH [of ?t] complete_item_rows [where E = E and sid = sid and ver = ver and item = item and s = s]
    by (auto simp: complete_each_def for_each_Cons row)
qed (simp add: complete_each_def for_each_Nil)

lemma release_rows:
  fixes t assumes t_def: "t = fst (release_awaiting_anchor E anchor sid ver s)"
  shows "f_awaiting_anchor t = filter (\<lambda>(a, item). a \<noteq> anchor) (f_awaiting_anchor s)"
    and "set (f_done s) \<subseteq> set (f_done t)"
    and "(anchor, item) \<in> set (f_awaiting_anchor s) \<Longrightarrow> settled t item"
proof -
  let ?s = "s\<lparr>f_awaiting_anchor := filter (\<lambda>(a, item). a \<noteq> anchor) (f_awaiting_anchor s)\<rparr>"
  let ?rows = "filter (\<lambda>(a, item). a = anchor) (f_awaiting_anchor s)"
  have t: "t = fst (complete_each E sid ver ?rows ?s)"
    by (simp add: t_def complete_each_def release_awaiting_anchor_def with_state_def fst_seq upd_def skip_def)
  note rows = complete_rows [of E sid ver ?rows ?s, folded t]
  show "f_awaiting_anchor t = filter (\<lambda>(a, item). a \<noteq> anchor) (f_awaiting_anchor s)" "set (f_done s) \<subseteq> set (f_done t)"
    using rows by simp_all
  show "settled t item" if "(anchor, item) \<in> set (f_awaiting_anchor s)"
    using rows that by force
qed

definition flush_rows :: "env \<Rightarrow> string \<Rightarrow> nat \<Rightarrow> (string \<Rightarrow> bool) \<Rightarrow> (string \<times> J) list \<Rightarrow> handler" where
  "flush_rows E sid ver keep = for_each (\<lambda>(anchor, item).
     if keep anchor then upd (\<lambda>s. s\<lparr>f_awaiting_anchor := f_awaiting_anchor s @ [(anchor, item)]\<rparr>)
     else complete_item E sid ver item)"

lemma flush_rows_facts:
  "f_awaiting_anchor (fst (flush_rows E sid ver keep rows s)) =
     f_awaiting_anchor s @ filter (\<lambda>(a, item). keep a) rows \<and>
   set (f_done s) \<subseteq> set (f_done (fst (flush_rows E sid ver keep rows s))) \<and>
   (\<forall>(a, item) \<in> set rows. keep a \<or> settled (fst (flush_rows E sid ver keep rows s)) item)"
proof (induction rows arbitrary: s)
  case (Cons row rows)
  obtain a item where row: "row = (a, item)" by (cases row)
  show ?case
  proof (cases "keep a")
    case True
    then show ?thesis using Cons.IH [of "s\<lparr>f_awaiting_anchor := f_awaiting_anchor s @ [(a, item)]\<rparr>"]
      by (auto simp: flush_rows_def for_each_Cons row upd_def)
  next
    case False
    let ?t = "fst (complete_item E sid ver item s)"
    have "settled (fst (flush_rows E sid ver keep rows ?t)) item"
      using Cons.IH [of ?t] complete_item_settles settled_mono by blast
    with False show ?thesis
      using Cons.IH [of ?t] complete_item_rows [where E = E and sid = sid and ver = ver and item = item and s = s]
      by (auto simp: flush_rows_def for_each_Cons row)
  qed
qed (simp add: flush_rows_def for_each_Nil)

lemma flush_facts:
  fixes t assumes t_def: "t = fst (flush_awaiting_anchor_unless E sid ver keep s)"
  shows "f_awaiting_anchor t = filter (\<lambda>(a, item). keep a) (f_awaiting_anchor s)"
    and "set (f_done s) \<subseteq> set (f_done t)"
    and "(a, item) \<in> set (f_awaiting_anchor s) \<Longrightarrow> \<not> keep a \<Longrightarrow> settled t item"
proof -
  let ?s = "s\<lparr>f_awaiting_anchor := []\<rparr>"
  have t: "t = fst (flush_rows E sid ver keep (f_awaiting_anchor s) ?s)"
    by (simp add: t_def flush_rows_def flush_awaiting_anchor_unless_def with_state_def fst_seq upd_def skip_def)
  note rows = flush_rows_facts [of E sid ver keep "f_awaiting_anchor s" ?s, folded t]
  show "f_awaiting_anchor t = filter (\<lambda>(a, item). keep a) (f_awaiting_anchor s)" "set (f_done s) \<subseteq> set (f_done t)"
    using rows by simp_all
  show "settled t item" if "(a, item) \<in> set (f_awaiting_anchor s)" "\<not> keep a"
    using rows that by force
qed

text \<open>Rows that leave the waiting list settle, so no item loses its place.\<close>

lemma placed_mono:
  assumes "placed s item" "set (f_done s) \<subseteq> set (f_done t)"
    and "\<And>a held. (a, held) \<in> set (f_awaiting_anchor s) \<Longrightarrow> (a, held) \<in> set (f_awaiting_anchor t) \<or> settled t held"
  shows "placed t item"
proof (cases "settled s item")
  case True
  then show ?thesis using assms(2) settled_mono unfolding placed_def by blast
next
  case False
  with assms(1) obtain a held where h: "(a, held) \<in> set (f_awaiting_anchor s)"
      "str_at held ''itemId'' = str_at item ''itemId''"
    by (auto simp: placed_def list_ex_iff)
  have "settled t held \<Longrightarrow> settled t item" using h(2) by (simp add: settled_def)
  with assms(3) [OF h(1)] h(2) show ?thesis by (auto simp: placed_def list_ex_iff)
qed

lemma keeps_rows_release [trace_intros]: "keeps carries (release_awaiting_anchor E anchor sid ver)"
proof -
  have "carries s ns t" if "t = fst (release_awaiting_anchor E anchor sid ver s)" for s ns t
    using release_rows [OF that] placed_mono [of s _ t] unfolding carries_def by fastforce
  then show ?thesis by (simp add: keeps_def)
qed

lemma keeps_rows_flush [trace_intros]: "keeps carries (flush_awaiting_anchor_unless E sid ver keep)"
proof -
  have "carries s ns t" if "t = fst (flush_awaiting_anchor_unless E sid ver keep s)" for s ns t
    using flush_facts [OF that] placed_mono [of s _ t] unfolding carries_def by fastforce
  then show ?thesis by (simp add: keeps_def)
qed

lemma keeps_rows_hold [trace_intros]: "keeps carries (hold_row anchor item_id item)"
  unfolding keeps_def carries_def
  by (auto simp: hold_row_def upd_def intro: placed_mono)

lemma keeps_rows_completed [trace_intros]: "keeps carries (on_item_completed E sid ver params)"
  unfolding on_item_completed_def
  by (intro rows.keeps_option rows.keeps_do_Cons rows.keeps_do_Nil rows.keeps_with keeps_rows_hold keeps_rows_release
      carries_quiet [OF keeps_items(3)] carries_quiet [OF keeps_complete_item] rows.keeps_skip)

lemma keeps_rows_switch [trace_intros]: "keeps carries (upd (\<lambda>s. s\<lparr>f_replaying := r s\<rparr>))"
  unfolding keeps_def upd_def by (auto intro!: carriesI)

lemma keeps_rows_replay_item [trace_intros]: "keeps carries (replay_item E sid ver item)"
  unfolding replay_item_def Let_def
  by (intro rows.keeps_option rows.keeps_do_Cons rows.keeps_do_Nil rows.keeps_with rows.keeps_if rows.keeps_only_if
      rows.keeps_skip keeps_rows_completed carries_quiet [OF keeps_observe] carries_quiet [OF keeps_snapshot]
      carries_quiet [OF keeps_replay_messages(1)] carries_quiet [OF keeps_replay_messages(2)])

lemma keeps_rows_replay_loop [trace_intros]: "keeps carries (replay_loop E sid ver upcoming turn items)"
proof (induction items arbitrary: upcoming turn)
  case (Cons item items)
  show ?case
    unfolding replay_loop.simps Let_def
    by (intro Cons.IH rows.keeps_option rows.keeps_do_Cons rows.keeps_do_Nil rows.keeps_only_if rows.keeps_skip
        keeps_rows_replay_item keeps_rows_release keeps_rows_flush)
qed (simp add: rows.keeps_skip)

lemma keeps_rows_replay [trace_intros]: "keeps carries (replay_history_items E sid ver items)"
  unfolding replay_history_items_def flush_awaiting_anchor_def
  by (intro rows.keeps_with rows.keeps_do_Cons rows.keeps_do_Nil keeps_rows_switch keeps_rows_replay_loop keeps_rows_flush)

lemma keeps_rows_turn_ended [trace_intros]: "keeps carries (turn_ended E sid ver turn terminal)"
  unfolding turn_ended_def flush_awaiting_anchor_def
  by (intro rows.keeps_do_Cons rows.keeps_do_Nil keeps_rows_flush carries_quiet [OF keeps_checks]
      carries_quiet [OF keeps_retry(2)])

fun moves_rows :: "event \<Rightarrow> bool" where
  "moves_rows (ItemCompleted params d x) = True"
| "moves_rows (TurnEnded turn x) = True"
| "moves_rows (HistoryReplayed items) = True"
| "moves_rows e = False"

lemma handle_leaves_rows: "\<not> moves_rows e \<Longrightarrow> keeps (fruns E False) (handle E sid ver e)"
  by (cases e; simp only: handle.simps moves_rows.simps simp_thms)
     (intro trace_intros; simp add: view_defs take_child_read_def begin_child_read_def note_hook_inventory_def)+

lemma keeps_rows_handle: "keeps carries (handle E sid ver e)"
proof (cases "moves_rows e")
  case True
  then show ?thesis
    by (cases e; simp only: handle.simps moves_rows.simps simp_thms)
       (intro rows.keeps_do_Cons rows.keeps_do_Nil keeps_rows_completed keeps_rows_turn_ended keeps_rows_replay
        carries_quiet [OF keeps_card_content])+
qed (rule carries_quiet [OF handle_leaves_rows])

lemma keeps_rows_run: "keeps carries (fold_run E sid ver es)"
  unfolding fold_run_def by (intro rows.keeps_each keeps_rows_handle)

section \<open>Every completed item settles\<close>

lemma completed_placed:
  assumes "jget params ''item'' = Some item" "str_at item ''itemId'' = Some i"
  shows "placed (fst (on_item_completed E sid ver params s)) item"
proof -
  let ?s = "fst (forget_stream i s)"
  show ?thesis
  proof (cases "deferring_for_anchor ?s item i")
    case None
    have "placed (fst (complete_item E sid ver item ?s)) item" by (simp add: placed_def complete_item_settles)
    moreover have "carries t (snd (release_awaiting_anchor E i sid ver t)) (fst (release_awaiting_anchor E i sid ver t))" for t
      using keeps_rows_release by (simp add: keeps_def)
    ultimately show ?thesis
      using None assms by (auto simp: on_item_completed_def fst_seq with_state_def skip_def carries_def)
  next
    case (Some a)
    have "placed (fst (hold_row a i item t)) item" for t
      using assms(2) by (auto simp: hold_row_def upd_def placed_def list_ex_iff)
    then show ?thesis using Some assms by (simp add: on_item_completed_def fst_seq with_state_def skip_def)
  qed
qed

lemma turn_ended_empties: "f_awaiting_anchor (fst (turn_ended E sid ver turn terminal s)) = []"
  using flush_facts(1) [OF refl, where keep = "\<lambda>a. False"]
  by (simp add: turn_ended_def flush_awaiting_anchor_def fst_seq skip_def)

lemma fold_run_append: "fst (fold_run E sid ver (es @ es') s) = fst (fold_run E sid ver es' (fst (fold_run E sid ver es s)))"
  by (simp add: fold_run_def for_each_append fst_seq)

lemma fold_run_Cons: "fst (fold_run E sid ver (e # es) s) = fst (fold_run E sid ver es (fst (handle E sid ver e s)))"
  by (simp add: fold_run_def for_each_Cons)

lemma fold_run_Nil: "fst (fold_run E sid ver [] s) = s"
  by (simp add: fold_run_def for_each_Nil)

lemma placed_after_run: "placed s item \<Longrightarrow> placed (fst (fold_run E sid ver es s)) item"
  using keeps_rows_run [of E sid ver es] by (simp add: keeps_def carries_def)

text \<open>C16: a completed item is never lost: whatever events come between its completion and the end of a
  turn, and even when it had to wait for an anchor that never arrived, it is settled when the turn
  has ended, and no row is waiting then.\<close>

theorem completed_item_settles_by_turn_end:
  assumes "jget params ''item'' = Some item" "str_at item ''itemId'' = Some i"
  shows "known (fst (fold_run E sid ver (ItemCompleted params diff editor # es @ [TurnEnded turn terminal]) s)) i \<and>
    f_awaiting_anchor (fst (fold_run E sid ver (ItemCompleted params diff editor # es @ [TurnEnded turn terminal]) s)) = []"
proof -
  let ?s = "fst (handle E sid ver (ItemCompleted params diff editor) s)"
  let ?t = "fst (fold_run E sid ver es ?s)"
  let ?u = "fst (turn_ended E sid ver turn terminal ?t)"
  have eq: "fst (fold_run E sid ver (ItemCompleted params diff editor # es @ [TurnEnded turn terminal]) s) = ?u"
    by (simp only: fold_run_Cons fold_run_append fold_run_Nil handle.simps)
  have "placed ?s item" using completed_placed [OF assms] by (simp add: fst_seq skip_def)
  then have "placed ?t item" by (rule placed_after_run)
  then have "placed ?u item" using keeps_rows_turn_ended by (simp add: keeps_def carries_def)
  then have "settled ?u item" using turn_ended_empties by (simp add: placed_def)
  then show ?thesis using assms(2) turn_ended_empties by (simp add: eq settled_def)
qed

theorem completed_item_settles_by_turn_end_witness:
  "known (fst (fold_run demo_env ''s'' 2
     [ItemCompleted (JObj [(''item'', JObj [(''itemId'', JStr ''i1''), (''kind'', JStr ''toolCall''),
        (''terminalRowAfterItemId'', JStr ''never'')])]) None None, HostLost, TurnEnded ''t1'' ''completed'']
     (fresh_fold demo_config))) ''i1''"
  using completed_item_settles_by_turn_end
    [of "JObj [(''item'', JObj [(''itemId'', JStr ''i1''), (''kind'', JStr ''toolCall''),
        (''terminalRowAfterItemId'', JStr ''never'')])]" _ "''i1''" demo_env "''s''" 2 None None "[HostLost]" "''t1''"
      "''completed''" "fresh_fold demo_config"]
  by (simp add: str_at_def)

section \<open>Replay\<close>

lemma replay_settled_message_settles:
  assumes "str_at item ''itemId'' = Some i"
  shows "settled (fst (replay_settled_message E sid ver kind i item s)) item"
proof -
  let ?t = "fst (mark_done i s)"
  have "\<exists>rest. replay_settled_message E sid ver kind i item = do_all [mark_done i, rest] \<and> keeps (fruns E False) rest"
    unfolding replay_settled_message_def Let_def
    by (rule exI, rule conjI, rule refl) (intro trace_intros plain_cards; simp add: view_defs)
  then obtain rest where rest: "replay_settled_message E sid ver kind i item = do_all [mark_done i, rest]"
    and "keeps (fruns E False) rest"
    by blast
  then have "set (f_done ?t) \<subseteq> set (f_done (fst (rest ?t)))"
    using fruns_mono unfolding keeps_def by blast
  then show ?thesis
    using assms by (auto simp: rest fst_seq skip_def settled_def known_def mark_done_def upd_def)
qed

lemma replay_item_places:
  assumes "\<not> replay_is_in_flight item"
  shows "placed (fst (replay_item E sid ver item s)) item"
proof (cases "str_at item ''itemId''")
  case (Some i)
  have "placed (fst (on_item_completed E sid ver (JObj [(''item'', item)]) t)) item" for t
    by (rule completed_placed [OF _ Some]) simp
  moreover have "placed (fst (replay_settled_message E sid ver kind i item t)) item" for kind t
    using replay_settled_message_settles [OF Some] by (simp add: placed_def)
  moreover have "known t i \<Longrightarrow> placed t item" for t using Some by (simp add: placed_def settled_def)
  ultimately show ?thesis
    using assms Some by (simp add: replay_item_def fst_seq with_state_def skip_def Let_def)
qed (simp add: placed_def settled_def replay_item_def skip_def)

lemma replay_loop_places:
  assumes "item \<in> set items" "\<not> replay_is_in_flight item"
  shows "placed (fst (replay_loop E sid ver upcoming turn items s)) item"
  using assms(1)
proof (induction items arbitrary: upcoming turn s)
  case (Cons x items)
  have keep: "placed (fst (a t)) item" if "placed t item" "keeps carries a" for a t
    using that by (simp add: keeps_def carries_def)
  have rel: "keeps carries (case j of Some i \<Rightarrow> release_awaiting_anchor E i sid ver | None \<Rightarrow> skip)" for j
    by (cases j) (simp_all add: keeps_rows_release rows.keeps_skip)
  show ?case
  proof (cases "x = item")
    case True
    then show ?thesis
      unfolding replay_loop.simps Let_def do_all.simps fst_seq
      by (intro keep [OF _ keeps_rows_replay_loop] keep [OF _ rel] keep [OF _ rows.keeps_skip]) 
         (simp add: replay_item_places assms(2))
  next
    case False
    then show ?thesis using Cons by (simp add: Let_def fst_seq skip_def)
  qed
qed simp

text \<open>C19: replaying a history settles every item of it that is not in flight, leaves no row waiting and
  puts the replaying flag back.\<close>

theorem replay_settles_history:
  "f_awaiting_anchor (fst (replay_history_items E sid ver items s)) = [] \<and>
   f_replaying (fst (replay_history_items E sid ver items s)) = f_replaying s \<and>
   (\<forall>item \<in> set items. \<not> replay_is_in_flight item \<longrightarrow> settled (fst (replay_history_items E sid ver items s)) item)"
proof -
  let ?s = "fst (replay_loop E sid ver (foldl count_id [] items) None items (s\<lparr>f_replaying := True\<rparr>))"
  let ?t = "fst (flush_awaiting_anchor E sid ver ?s)"
  have u: "fst (replay_history_items E sid ver items s) = ?t\<lparr>f_replaying := f_replaying s\<rparr>"
    by (simp add: replay_history_items_def with_state_def fst_seq upd_def skip_def)
  have empty: "f_awaiting_anchor ?t = []"
    using flush_facts(1) [OF refl, where keep = "\<lambda>a. False"] by (simp add: flush_awaiting_anchor_def)
  have "settled ?t item" if "item \<in> set items" "\<not> replay_is_in_flight item" for item
  proof -
    have "placed ?t item"
      using replay_loop_places [OF that] keeps_rows_flush unfolding keeps_def carries_def flush_awaiting_anchor_def by blast
    then show ?thesis by (simp add: placed_def empty)
  qed
  then show ?thesis using settled_iff [of "?t\<lparr>f_replaying := f_replaying s\<rparr>" ?t] by (simp add: u empty)
qed

theorem replay_settles_history_witness:
  "known (fst (replay_history_items demo_env ''s'' 2 [demo_reply] (fresh_fold demo_config))) ''i1''"
  using replay_settles_history [where items = "[demo_reply]" and E = demo_env and sid = "''s''" and ver = 2
      and s = "fresh_fold demo_config"]
  by (simp add: settled_def demo_reply_def str_at_def replay_is_in_flight_def)

end
