(* ===== verification/Fold_Versions.thy ===== *)
theory Fold_Versions
  imports Fold_Session
begin

text \<open>
  A session speaks one protocol version to one editor session: every notification of the fold is
  addressed to the session it belongs to, in the version the connection negotiated. Terminals and
  content chunks exist in ACP v2 only; the fold of a v1 session never opens one. The relation
  \<open>speaks\<close> is a trace property, so it goes through the handlers by the rules of \<open>Handler\<close>.
\<close>

section \<open>Addressed notifications\<close>

definition note_for :: "string \<Rightarrow> nat \<Rightarrow> notif \<Rightarrow> bool" where
  "note_for sid v n \<longleftrightarrow> note_sid n = sid \<and> note_matches v n"

definition spoken :: "string \<Rightarrow> nat \<Rightarrow> fold_t \<Rightarrow> bool" where
  "spoken sid v s \<longleftrightarrow> f_ver s = v \<and>
     (v \<noteq> 2 \<longrightarrow> (\<forall>i. hget (f_shell_commands s) i = None) \<and> (\<forall>i. hget (f_terminals s) i = None)) \<and>
     (\<forall>i n. hget (f_held_child_states s) i = Some n \<longrightarrow> note_for sid v n)"

definition speaks :: "string \<Rightarrow> nat \<Rightarrow> fold_t \<Rightarrow> notif list \<Rightarrow> fold_t \<Rightarrow> bool" where
  "speaks sid v s ns t \<longleftrightarrow> (spoken sid v s \<longrightarrow> spoken sid v t \<and> list_all (note_for sid v) ns)"

interpretation talk: trace_property "speaks sid v" for sid v
  by unfold_locales (auto simp: speaks_def)

lemma spoken_ver: "spoken sid v s \<Longrightarrow> f_ver s = v"
  by (simp add: spoken_def)

lemma spoken_same:
  assumes "spoken sid v s" "f_ver t = f_ver s" "f_shell_commands t = f_shell_commands s"
    "f_terminals t = f_terminals s" "f_held_child_states t = f_held_child_states s"
  shows "spoken sid v t"
  using assms by (simp add: spoken_def)

lemma note_for_ver [simp]: "note_for sid v (note_ver v sid u)"
  by (simp add: note_for_def note_ver_def)

lemma note_for_air:
  "map_of fs ''sessionUpdate'' = Some (VString k) \<Longrightarrow> note_for sid v (air sid v (VObject fs))"
  by (simp add: note_for_def air_def)

lemma note_for_lines [simp]:
  "note_for sid v (card_note c sid v create)" "note_for sid v (out_chunk sid v k m t x)"
  "note_for sid v (session_info sid v ti u y)" "note_for sid v (out_message sid v user i t y)"
  "note_for sid v (out_compaction sid v i st err y)"
  by (simp_all add: note_for_def card_note_def session_info_def out_compaction_def note_ver_def out_chunk_def
      out_message_def)

lemma note_for_v2 [simp]:
  "note_for sid 2 (terminal_opened sid i c cwd)" "note_for sid 2 (terminal_exited sid i d code m1 m2)"
  "note_for sid 2 (terminal_output sid i d)" "note_for sid 2 (tool_text_chunk sid i t)"
  "note_for sid 2 (terminal_exit_note E sid i item)"
  by (simp_all add: note_for_def terminal_opened_def terminal_exited_def terminal_output_def tool_text_chunk_def
      terminal_exit_note_def Let_def)

lemma note_for_cards [simp]:
  "note_for sid v (card_line E sid v create tc title kind status content muse tr)"
  "note_for sid v (tool_line E sid v tu)" "note_for sid v (backgrounded_tool_line E sid v tc)"
  "note_for sid v (legacy_compaction_line E sid v i st lc)" "note_for sid v (standard_compaction_line E sid v i item)"
  "note_for sid v (marked_chunk sid v m t x)" "note_for sid v (fold_chunk sid v m t)"
  "note_for sid v (thought_chunk sid v m t)" "note_for sid v (replay_message_line E sid v kind m t co ph item)"
  by (simp_all add: card_line_def tool_line_def backgrounded_tool_line_def legacy_compaction_line_def
      standard_compaction_line_def marked_chunk_def fold_chunk_def thought_chunk_def replay_message_line_def Let_def)

lemma note_for_tasks [simp]:
  "note_for sid v (async_task_spawned_line sid v i name ty w stop tc)" "note_for sid v (async_task_state_line sid v i st)"
  "note_for sid v (disconnected_task_line sid v i)" "note_for sid v (subagent_state_line s sid v child st)"
  "note_for sid v (subagent_spawned_line E s sid v child name task running muse)"
  by (auto simp: async_task_spawned_line_def async_task_state_line_def disconnected_task_line_def
      subagent_state_line_def subagent_spawned_line_def subagent_update_def Let_def intro!: note_for_air)

section \<open>Rules for handlers\<close>

named_theorems speak_intros \<open>rules for handlers that speak one version\<close>

lemmas speak_structure [speak_intros] = talk.keeps_skip talk.keeps_seq talk.keeps_do_Nil talk.keeps_do_Cons
  talk.keeps_only_if talk.keeps_if talk.keeps_option talk.keeps_prod talk.keeps_let talk.keeps_each
  talk.keeps_calling talk.keeps_calling_out keeps_role

lemma speak_with [speak_intros]:
  "(\<And>s. spoken sid v s \<Longrightarrow> f_ver s = v \<Longrightarrow> keeps (speaks sid v) (f s)) \<Longrightarrow> keeps (speaks sid v) (with_state f)"
  by (simp add: keeps_def with_state_def speaks_def spoken_ver)

lemma speak_upd [speak_intros]:
  "(\<And>s. spoken sid v s \<Longrightarrow> spoken sid v (f s)) \<Longrightarrow> keeps (speaks sid v) (upd f)"
  by (simp add: keeps_def upd_def speaks_def)

lemma speak_emit [speak_intros]: "note_for sid v n \<Longrightarrow> keeps (speaks sid v) (emit n)"
  by (simp add: keeps_def emit_def speaks_def)

lemma speak_call [speak_intros]:
  "(\<And>s. spoken sid v s \<Longrightarrow> spoken sid v (snd (f s))) \<Longrightarrow> keeps_call (speaks sid v) f"
  by (simp add: keeps_call_def speaks_def)

lemma speak_out [speak_intros]:
  "(\<And>s. spoken sid v s \<Longrightarrow> spoken sid v (fst (snd (f s))) \<and> list_all (note_for sid v) (snd (snd (f s)))) \<Longrightarrow>
   keeps_out (speaks sid v) f"
  by (simp add: keeps_out_def speaks_def)

section \<open>The helpers\<close>

lemma spoken_observe:
  "spoken sid v s \<Longrightarrow> spoken sid v (observe_subagent item s)"
  "spoken sid v s \<Longrightarrow> spoken sid v (observe_workflow item completed s)"
  by (rule spoken_same, assumption;
      simp add: observe_subagent_def observe_workflow_def supersede_def Let_def split: option.split)+

lemma speak_mint [speak_intros]: "keeps_call (speaks sid v) (fold_mint F pre)"
  by (rule speak_call) (simp add: fold_mint_def mint_id_def spoken_def)

lemma speak_roles [speak_intros]:
  "keeps_call (speaks sid v) (tool_muse_fields i item)" "keeps_call (speaks sid v) (host_item_role i kind)"
  "keeps_call (speaks sid v) (reminder_role i item)" "keeps_call (speaks sid v) (claim_cut_off item i)"
  "keeps_call (speaks sid v) (tool_role F i item)"
  by (rule speak_call, simp add: spoken_def tool_muse_fields_def host_item_role_def reminder_role_def claim_cut_off_def
      tool_role_def fold_mint_def mint_id_def Let_def split: option.split item_role.split)+

lemma speak_items [speak_intros]:
  "keeps (speaks sid v) (remove_item i)" "keeps (speaks sid v) (ignore_item i)" "keeps (speaks sid v) (forget_stream i)"
  "keeps (speaks sid v) (set_announced i)" "keeps (speaks sid v) (remember_editor_call i tc tool item)"
  "keeps (speaks sid v) (note_shell v i tc item)" "keeps (speaks sid v) (mark_done i)"
  unfolding remove_item_def ignore_item_def forget_stream_def set_announced_def remember_editor_call_def note_shell_def
    mark_done_def
  by (rule speak_upd, auto simp: spoken_def split: option.split item_role.split prod.split)+

lemma speak_observe [speak_intros]:
  "keeps (speaks sid v) (observe item completed)" "keeps (speaks sid v) (upd (observe_workflow item completed))"
  unfolding observe_def by (intro speak_upd spoken_observe, assumption)+

lemma speak_tasks [speak_intros]:
  "keeps (speaks sid v) (put_task_state sid i st)" "keeps (speaks sid v) (announce_once sid name ty w tc i)"
  "keeps (speaks sid v) (disconnect_tasks sid v)" "keeps (speaks sid v) (mark_cut_off E sid v item)"
  unfolding put_task_state_def announce_once_def disconnect_tasks_def mark_cut_off_def
  by (intro speak_intros; simp add: spoken_def)+

lemma speak_task_states [speak_intros]:
  "keeps (speaks sid v) (async_task_state_once sid i st)" "keeps (speaks sid v) (emit_async_task_state sid i item)"
  "keeps (speaks sid v) (announce_async_task sid i task name w tc)"
  unfolding async_task_state_once_def emit_async_task_state_def announce_async_task_def
  by (intro speak_intros; simp add: spoken_def)+

lemma speak_background [speak_intros]: "keeps (speaks sid v) (settle_background_completion sid kind item)"
  unfolding settle_background_completion_def by (intro speak_intros)

lemma speak_seed [speak_intros]: "keeps_out (speaks sid v) (seed_async_task sid row)"
  by (rule speak_out) (auto simp: seed_async_task_def spoken_def split: option.split)

lemma speak_subagents [speak_intros]:
  "keeps (speaks sid v) (spawn_subagent E sid child item running muse)" "keeps (speaks sid v) (release_held child)"
  "keeps (speaks sid v) (next_generation child)" "keeps (speaks sid v) (announce_generation E sid child item)"
  "keeps (speaks sid v) (send_subagent_state sid child st)"
  unfolding spawn_subagent_def release_held_def next_generation_def announce_generation_def send_subagent_state_def Let_def
  by (intro speak_intros; auto simp: spoken_def)+

lemma speak_settle_subagent [speak_intros]: "keeps (speaks sid v) (settle_subagent E sid child item)"
  unfolding settle_subagent_def rerun_subagent_def by (intro speak_intros; simp add: spoken_def)

lemma speak_hints [speak_intros]:
  "keeps (speaks sid v) (reminder_child_card E sid v item_id item status settle)"
  "keeps (speaks sid v) (settle_background_checks E sid turn status clear)"
  "keeps (speaks sid v) (on_model_retry_scheduled E sid t params)" "keeps (speaks sid v) (clear_model_retry E sid turn)"
  unfolding reminder_child_card_def settle_background_checks_def on_model_retry_scheduled_def clear_model_retry_def
  by (intro speak_intros; simp add: spoken_def)+

lemma speak_foreground [speak_intros]: "keeps (speaks sid v) (on_foreground_completed E sid v turn agents)"
  unfolding on_foreground_completed_def by (intro speak_intros; simp add: spoken_def)

lemma spoken_shell: "spoken sid v s \<Longrightarrow> hget (f_shell_commands s) i = Some x \<Longrightarrow> v = 2"
  by (auto simp: spoken_def)

lemma spoken_terminal: "spoken sid v s \<Longrightarrow> hget (f_terminals s) i = Some x \<Longrightarrow> v = 2"
  by (auto simp: spoken_def)

lemma speak_open [speak_intros]: "keeps_out (speaks sid v) (open_terminal sid i)"
  by (rule speak_out)
     (auto simp: open_terminal_def Let_def split: option.split dest: spoken_shell, auto simp: spoken_def)

lemma speak_finish [speak_intros]: "keeps_out (speaks sid v) (finish_terminal E sid i item status)"
proof (rule speak_out)
  fix s assume s: "spoken sid v s"
  from speak_open have o: "spoken sid v (fst (snd (open_terminal sid i s)))"
      "list_all (note_for sid v) (snd (snd (open_terminal sid i s)))"
    using s by (auto simp: keeps_out_def speaks_def)
  moreover have "v = 2" if "fst (open_terminal sid i s) = Some x" for x
    using that s by (auto simp: open_terminal_def Let_def split: option.splits dest: spoken_shell spoken_terminal)
  ultimately show "spoken sid v (fst (snd (finish_terminal E sid i item status s))) \<and>
      list_all (note_for sid v) (snd (snd (finish_terminal E sid i item status s)))"
    using s by (auto simp: finish_terminal_def split: prod.splits option.splits) (auto simp: spoken_def)
qed

lemma speak_monitors [speak_intros]:
  "keeps (speaks sid v) (monitor_feed_card E sid v item_id item status)"
  "keeps (speaks sid v) (on_monitor_inbox E sid method params)"
  unfolding monitor_feed_card_def on_monitor_inbox_def inbox_card_def Let_def
  by (intro speak_intros; simp add: spoken_def)+

section \<open>The item handlers\<close>

lemma speak_shared [speak_intros]:
  "keeps (speaks sid v) (background_task E sid v item_id task_id tc_id title item)"
  "keeps (speaks sid v) (shell_task sid item_id tc_id title item)"
  "keeps (speaks sid v) (workflow_task sid tc_id title item)"
  "keeps (speaks sid v) (compaction_item E sid v item_id item status)"
  unfolding background_task_def shell_task_def workflow_task_def compaction_item_def Let_def
  by (intro speak_intros; simp add: spoken_def)+

lemma speak_snapshot_kinds [speak_intros]:
  "keeps (speaks sid v) (snapshot_tool E sid v item_id item status)"
  "keeps (speaks sid v) (snapshot_message E sid v item_id item)" "keeps (speaks sid v) (snapshot_reasoning E item_id)"
  "keeps (speaks sid v) (snapshot_subagent E sid item)"
  "keeps (speaks sid v) (snapshot_host_card E sid v kind item_id item status)"
  "keeps (speaks sid v) (snapshot_other E sid v kind item_id item status)"
  unfolding snapshot_tool_def snapshot_message_def snapshot_reasoning_def register_role_def snapshot_subagent_def
    snapshot_host_card_def snapshot_other_def
  by (intro speak_intros; simp add: spoken_def)+

lemma speak_snapshot [speak_intros]: "keeps (speaks sid v) (on_item_snapshot E sid v item)"
  unfolding on_item_snapshot_def snapshot_kind_def Let_def by (intro speak_intros)

lemma speak_delta_terminal [speak_intros]: "keeps (speaks sid 2) (delta_terminal E sid item_id delta)"
  unfolding delta_terminal_def Let_def by (intro speak_intros; simp add: spoken_def)

lemma speak_delta_tool [speak_intros]: "keeps (speaks sid 2) (delta_tool E sid item_id delta)"
  unfolding delta_tool_def Let_def by (intro speak_intros; simp add: spoken_def)

lemma speak_delta_text [speak_intros]:
  "keeps (speaks sid v) (delta_message E sid v item_id delta)" "keeps (speaks sid v) (delta_thought sid v item_id part delta)"
  unfolding delta_message_def delta_thought_def Let_def by (intro speak_intros; simp add: spoken_def)+

lemma speak_delta [speak_intros]: "keeps (speaks sid v) (on_item_delta E sid v params)"
  unfolding on_item_delta_def Let_def by (intro speak_intros; auto intro!: speak_intros)

lemma speak_take_terminal [speak_intros]:
  "(\<And>x. keeps (speaks sid v) (k x)) \<Longrightarrow> keeps (speaks sid v) (take_terminal E sid v item_id tc_id item status k)"
  unfolding take_terminal_def Let_def by (intro speak_intros; simp add: spoken_def)

lemma speak_complete_kinds [speak_intros]:
  "keeps (speaks sid v) (complete_tool E sid v item_id item status)"
  "keeps (speaks sid v) (complete_message E sid v item_id item)"
  "keeps (speaks sid v) (complete_reasoning E sid v item_id item)"
  "keeps (speaks sid v) (complete_subagent E sid item_id item)"
  "keeps (speaks sid v) (complete_host_card E sid v kind item_id item status)"
  "keeps (speaks sid v) (complete_other E sid v kind item_id item status)"
  unfolding complete_tool_def complete_message_def show_reply_def complete_reasoning_def complete_subagent_def
    complete_host_card_def complete_other_def Let_def
  by (intro speak_intros; simp add: spoken_def)+

lemma speak_complete [speak_intros]: "keeps (speaks sid v) (complete_item E sid v item)"
  unfolding complete_item_def complete_kind_def Let_def by (intro speak_intros)

lemma speak_rows [speak_intros]:
  "keeps (speaks sid v) (release_awaiting_anchor E anchor sid v)" "keeps (speaks sid v) (hold_row anchor item_id item)"
  "keeps (speaks sid v) (flush_awaiting_anchor_unless E sid v f)"
  unfolding release_awaiting_anchor_def hold_row_def flush_awaiting_anchor_unless_def
  by (intro speak_intros; simp add: spoken_def)+

lemma speak_completed [speak_intros]:
  "keeps (speaks sid v) (on_item_completed E sid v params)" "keeps (speaks sid v) (flush_awaiting_anchor E sid v)"
  unfolding on_item_completed_def flush_awaiting_anchor_def by (intro speak_intros)+

lemma speak_replay_messages [speak_intros]:
  "keeps (speaks sid v) (replay_prefix E sid v kind item_id item)"
  "keeps (speaks sid v) (replay_settled_message E sid v kind item_id item)"
  unfolding replay_prefix_def replay_settled_message_def Let_def by (intro speak_intros; simp add: spoken_def)+

lemma speak_replay_item [speak_intros]: "keeps (speaks sid v) (replay_item E sid v item)"
  unfolding replay_item_def Let_def by (intro speak_intros)

lemma speak_replay_loop [speak_intros]: "keeps (speaks sid v) (replay_loop E sid v upcoming turn items)"
  by (induction items arbitrary: upcoming turn)
     (simp_all only: replay_loop.simps Let_def, (intro speak_intros; assumption?)+)

lemma speak_replay [speak_intros]: "keeps (speaks sid v) (replay_history_items E sid v items)"
  unfolding replay_history_items_def by (intro speak_intros; simp add: spoken_def)

section \<open>Every event\<close>

lemma speak_child_read [speak_intros]: "keeps (speaks sid v) (child_read_ended child i)"
  unfolding keeps_def speaks_def child_read_ended_def end_child_read_def Let_def
  by (auto simp: spoken_def split: option.split)

lemma speak_turns [speak_intros]:
  "keeps (speaks sid v) (turn_ended E sid v turn terminal)" "keeps (speaks sid v) (turn_dropped E sid turn status)"
  "keeps (speaks sid v) (note_card_content item diff editor)"
  unfolding turn_ended_def turn_dropped_def note_card_content_def
  by (intro speak_intros; auto simp: spoken_def intro!: speak_intros split: option.split card_content.split)+

lemma speak_handle: "keeps (speaks sid v) (handle E sid v e)"
  by (cases e; simp only: handle.simps)
     (intro speak_intros; simp add: spoken_def take_child_read_def begin_child_read_def note_hook_inventory_def)+

lemma speak_run: "keeps (speaks sid v) (fold_run E sid v es)"
  unfolding fold_run_def by (intro speak_intros speak_handle)

text \<open>C20: whatever the host sends, every notification of a session is addressed to that session and is in
  the protocol version its connection negotiated: an editor on ACP v1 never receives a v2 update, a
  terminal or a content chunk, and a v2 editor never a v1 update.\<close>

theorem session_speaks_one_version:
  "list_all (\<lambda>n. note_sid n = sid \<and> note_matches (f_ver (fresh_fold c)) n)
     (snd (fold_run E sid (f_ver (fresh_fold c)) es (fresh_fold c)))"
proof -
  have "spoken sid (f_ver (fresh_fold c)) (fresh_fold c)"
    by (simp add: spoken_def fresh_fold_def session_fold_new_def)
  then show ?thesis
    using speak_run [of sid "f_ver (fresh_fold c)" E es] by (simp add: keeps_def speaks_def note_for_def [abs_def])
qed

end
