(* ===== verification/Client_Wire.thy ===== *)
theory Client_Wire
  imports Fold_Text "HOL-Library.Word"
begin

unbundle bit_operations_syntax

text \<open>
  The wire side of the MSP connection (\<^verbatim>\<open>crates/muse-msp-client/src/client.rs\<close> and the request modes
  of \<^verbatim>\<open>config.rs\<close>): the frames the client writes, the bounded line reader, the routing of one message
  from the host, the deadline table and the UUIDv7 command ids. What the host sends is a byte stream
  with its end (end of file or an I/O error); reading it gives the list of actions the reader thread
  takes.
\<close>

section \<open>Server request modes and deadlines\<close>

datatype request_mode = Acknowledge | Respond

text \<open>\<^verbatim>\<open>ClientOptions::server_request\<close> replaces an earlier mode of the same method.\<close>

definition server_request :: "string \<Rightarrow> request_mode \<Rightarrow> (string \<times> request_mode) list \<Rightarrow> (string \<times> request_mode) list" where
  "server_request meth mode modes = filter (\<lambda>(known, _). known \<noteq> meth) modes @ [(meth, mode)]"

definition server_request_mode :: "(string \<times> request_mode) list \<Rightarrow> string \<Rightarrow> request_mode option" where
  "server_request_mode modes meth = map_option snd (List.find (\<lambda>(known, _). known = meth) modes)"

text \<open>Deadlines in milliseconds.\<close>

definition DEFAULT_TIMEOUT_MS :: nat where
  "DEFAULT_TIMEOUT_MS = 60000"

definition default_timeout :: "string \<Rightarrow> nat" where
  "default_timeout meth =
     (if meth = ''initialize'' then 30000
      else if meth \<in> {''session/start'', ''session/resume'', ''session/read'', ''view/page''} then 180000
      else if meth \<in> {''model/list'', ''session/list'', ''usage/read'', ''view/subscribe'', ''view/unsubscribe'',
        ''item/readOutput'', ''account/read''} then 30000
      else if meth \<in> {''approval/decide'', ''userInput/answer'', ''userInput/cancel'', ''userInput/clarify'',
        ''task/background'', ''task/stop'', ''task/stopAll''} then 30000
      else if meth \<in> {''plugin/install'', ''plugin/marketplaceAdd'', ''plugin/marketplaceUpdate''} then 180000
      else DEFAULT_TIMEOUT_MS)"

definition timeout_for :: "nat option \<Rightarrow> string \<Rightarrow> nat" where
  "timeout_for request_timeout meth = unwrap_or request_timeout (default_timeout meth)"

section \<open>Frames\<close>

definition jsonrpc_head :: string where
  "jsonrpc_head = ''{'' @ member ''jsonrpc'' (quoted ''2.0'') @ '',''"

definition request_frame :: "nat \<Rightarrow> string \<Rightarrow> string \<Rightarrow> string" where
  "request_frame i meth params =
     jsonrpc_head @ member ''id'' (show_nat i) @ '','' @ member ''method'' (esc meth) @ '','' @
       member ''params'' params @ ''}''"

definition notify_frame :: "string \<Rightarrow> string \<Rightarrow> string" where
  "notify_frame meth params =
     jsonrpc_head @ member ''method'' (esc meth) @ '','' @ member ''params'' params @ ''}''"

definition respond_frame :: "J \<Rightarrow> string \<Rightarrow> string" where
  "respond_frame i result = jsonrpc_head @ member ''id'' (j_to_string i) @ '','' @ member ''result'' result @ ''}''"

definition respond_error_frame :: "J \<Rightarrow> J \<Rightarrow> string" where
  "respond_error_frame i err =
     jsonrpc_head @ member ''id'' (j_to_string i) @ '','' @ member ''error'' (j_to_string err) @ ''}''"

definition method_not_found_frame :: "J \<Rightarrow> string \<Rightarrow> string" where
  "method_not_found_frame i meth =
     jsonrpc_head @ member ''id'' (j_to_string i) @ '','' @
       member_obj ''error''
         (member ''code'' ''-32601'' @ '','' @ member ''message'' (esc (''method not found: '' @ meth)) @ '','' @
          member_obj ''data'' (member ''kind'' (quoted ''methodNotFound'') @ '','' @ member ''retryable'' ''false'')) @ ''}''"

section \<open>Routing one message\<close>

datatype reply = Result J | Error J | Closed string | Cancelled

datatype msp_event =
    Notification string J
  | Request J string J
  | StderrLine string
  | HostClosedEvent string

datatype diagnostic =
    InvalidUtf8Frame | StdoutFrameTooLarge nat | MalformedFrame jerror | UnsupportedServerRequest string J
  | UnknownResponse string | NotificationSeen string

text \<open>What the reader does with one parsed message: answer a request it has no mode for, deliver a
  request (after acknowledging it in \<^verbatim>\<open>Acknowledge\<close> mode), settle the waiter of a key, deliver a
  notification, or nothing.\<close>

datatype act =
    Refuse J string
  | Serve request_mode J string J
  | Settle string reply
  | Notify string J
  | Skip

definition dispatch :: "(string \<times> request_mode) list \<Rightarrow> J \<Rightarrow> act" where
  "dispatch modes msg =
     (let idv = jget msg ''id'';
          meth = unwrap_or (Option.bind (jget msg ''method'') as_str) [];
          params = unwrap_or (jget msg ''params'') JNull in
      case idv of
        Some i \<Rightarrow>
          if meth \<noteq> [] then
            (case server_request_mode modes meth of
               None \<Rightarrow> Refuse i meth
             | Some mode \<Rightarrow> Serve mode i meth params)
          else
            (case jget msg ''error'' of
               Some err \<Rightarrow> Settle (j_to_string i) (Error err)
             | None \<Rightarrow> Settle (j_to_string i) (Result (unwrap_or (jget msg ''result'') JNull)))
      | None \<Rightarrow> if meth \<noteq> [] then Notify meth params else Skip)"

section \<open>Reading frames\<close>

definition MAX_STDOUT_FRAME_BYTES :: nat where
  "MAX_STDOUT_FRAME_BYTES = 16 * 1024 * 1024"

datatype frame_read = Eof | Complete | TooLarge | ReadError string

abbreviation line_feed :: char where
  "line_feed \<equiv> CHR 0x0A"

text \<open>\<open>fin\<close> is how the stream ends after its bytes: \<open>None\<close> is end of file, \<open>Some e\<close> an I/O error. The
  reader takes bytes up to and including the next line_feed, at most \<open>limit + 1\<close> of them; an error is
  only met when the bytes run out first.\<close>

definition line_of :: "nat \<Rightarrow> string \<Rightarrow> string" where
  "line_of limit s = (let t = take (limit + 1) s in take (length (takeWhile (\<lambda>c. c \<noteq> line_feed) t) + 1) t)"

definition read_frame :: "nat \<Rightarrow> string \<Rightarrow> string option \<Rightarrow> frame_read \<times> string \<times> string" where
  "read_frame limit s fin =
     (let frame = line_of limit s; rst = drop (length frame) s in
      case fin of
        Some e \<Rightarrow>
          if line_feed \<in> set frame \<or> length frame = limit + 1
          then (if length frame > limit then TooLarge else Complete, frame, rst)
          else (ReadError e, frame, rst)
      | None \<Rightarrow>
          (if frame = [] then Eof else if length frame > limit then TooLarge else Complete, frame, rst))"

datatype reading = Act act | Diagnose diagnostic | Stop string

text \<open>The body of the reader loop after a complete frame: an invalid or malformed frame is reported and
  skipped, an empty one is skipped.\<close>

definition read_line :: "(string \<times> request_mode) list \<Rightarrow> string \<Rightarrow> reading list" where
  "read_line modes frame =
     (if \<not> utf8 frame then [Diagnose InvalidUtf8Frame]
      else
        (let trimmed = trim frame in
         if trimmed = [] then []
         else case parse_json trimmed of
                Inl e \<Rightarrow> [Diagnose (MalformedFrame e)]
              | Inr msg \<Rightarrow> [Act (dispatch modes msg)]))"

lemma line_of_ne: "s \<noteq> [] \<Longrightarrow> line_of limit s \<noteq> []"
  by (cases s) (auto simp: line_of_def Let_def)

lemma read_frame_shorter:
  "read_frame limit s fin = (Complete, frame, rst) \<Longrightarrow> length rst < length s"
  using line_of_ne [of s limit]
  by (cases s) (auto simp: read_frame_def Let_def line_of_def split: option.splits if_splits)

function reader_loop :: "nat \<Rightarrow> (string \<times> request_mode) list \<Rightarrow> string \<Rightarrow> string option \<Rightarrow> reading list" where
  "reader_loop limit modes s fin =
     (case read_frame limit s fin of
        (Eof, _, _) \<Rightarrow> [Stop ''serve host stdout closed'']
      | (TooLarge, _, _) \<Rightarrow>
          [Diagnose (StdoutFrameTooLarge limit), Stop (''serve stdout frame exceeds '' @ show_nat limit @ '' bytes'')]
      | (ReadError e, _, _) \<Rightarrow> [Stop (''serve stdout error: '' @ e)]
      | (Complete, frame, rst) \<Rightarrow> read_line modes frame @ reader_loop limit modes rst fin)"
  by pat_completeness auto
termination
  by (relation "measure (\<lambda>(limit, modes, s, fin). length s)") (auto dest: read_frame_shorter [OF sym])

declare reader_loop.simps [simp del]

section \<open>Command ids\<close>

type_synonym u8 = "8 word"
type_synonym u16 = "16 word"
type_synonym u64 = "64 word"

definition be16 :: "u8 \<Rightarrow> u8 \<Rightarrow> u16" where
  "be16 hi lo = push_bit 8 (ucast hi) OR ucast lo"

definition hex_field :: "nat \<Rightarrow> nat \<Rightarrow> string" where
  "hex_field w n = pad0 w (show_hex n)"

definition uuid_v7 :: "u64 \<Rightarrow> u64 \<Rightarrow> u8 list \<Rightarrow> string" where
  "uuid_v7 n ms r0 =
     (let r1 = r0[0 := r0 ! 0 XOR ucast (drop_bit 8 n AND 0x0F)];
          r2 = r1[1 := r1 ! 1 XOR ucast (n AND 0xFF)];
          r = r2[9 := r2 ! 9 XOR ucast (drop_bit 12 n AND 0xFF)];
          b = be16 (r ! 0) (r ! 1) AND 0x0FFF;
          c = be16 (r ! 2) (r ! 3) AND 0x3FFF OR 0x8000;
          d = push_bit 40 (ucast (r ! 4)) OR push_bit 32 (ucast (r ! 5)) OR push_bit 24 (ucast (r ! 6)) OR
              push_bit 16 (ucast (r ! 7)) OR push_bit 8 (ucast (r ! 8)) OR (ucast (r ! 9) :: u64) in
      hex_field 8 (unat (ucast (drop_bit 16 ms) :: 32 word)) @ ''-'' @
      hex_field 4 (unat (ucast (ms AND 0xFFFF) :: u16)) @ ''-7'' @
      hex_field 3 (unat b) @ ''-'' @ hex_field 4 (unat c) @ ''-'' @ hex_field 12 (unat d))"

text \<open>The counter is a \<^verbatim>\<open>u64\<close>; \<open>clock\<close> is the number of milliseconds since the epoch (0 when the clock is
  before it) and \<open>r\<close> the ten random bytes.\<close>

definition mint_command_id :: "u64 \<Rightarrow> nat \<Rightarrow> u8 list \<Rightarrow> string \<times> u64" where
  "mint_command_id cmd_seq clock r = (uuid_v7 cmd_seq (of_nat clock AND 0xFFFFFFFFFFFF) r, cmd_seq + 1)"

section \<open>What the frames say\<close>

text \<open>Each frame is the print of the JSON-RPC object it stands for.\<close>

lemma esc_ascii:
  "list_all (\<lambda>a. 0x20 \<le> ord a \<and> ord a < 128 \<and> ord a \<noteq> 0x22 \<and> ord a \<noteq> 0x5C) s \<Longrightarrow> esc s = quoted s"
proof -
  assume a: "list_all (\<lambda>a. 0x20 \<le> ord a \<and> ord a < 128 \<and> ord a \<noteq> 0x22 \<and> ord a \<noteq> 0x5C) s"
  then have "chars s = map (ord :: char \<Rightarrow> nat) s" by (intro chars_ascii) (simp add: list_all_iff)
  moreover have "concat (map (\<lambda>c. esc_char (ord c)) s) = s"
    using a by (induction s) (auto simp: esc_char_def utf8_encode_def)
  ultimately show ?thesis by (simp add: esc_def quoted_def comp_def)
qed

lemma request_frame_json:
  "request_frame i meth (j_to_string p) =
     j_to_string (JObj [(''jsonrpc'', JStr ''2.0''), (''id'', JNum (show_nat i)), (''method'', JStr meth), (''params'', p)])"
  by (simp add: request_frame_def jsonrpc_head_def member_def esc_ascii)

lemma notify_frame_json:
  "notify_frame meth (j_to_string p) =
     j_to_string (JObj [(''jsonrpc'', JStr ''2.0''), (''method'', JStr meth), (''params'', p)])"
  by (simp add: notify_frame_def jsonrpc_head_def member_def esc_ascii)

lemma respond_frame_json:
  "respond_frame i (j_to_string r) = j_to_string (JObj [(''jsonrpc'', JStr ''2.0''), (''id'', i), (''result'', r)])"
  by (simp add: respond_frame_def jsonrpc_head_def member_def esc_ascii)

lemma respond_error_frame_json:
  "respond_error_frame i e = j_to_string (JObj [(''jsonrpc'', JStr ''2.0''), (''id'', i), (''error'', e)])"
  by (simp add: respond_error_frame_def jsonrpc_head_def member_def esc_ascii)

lemma method_not_found_frame_json:
  "method_not_found_frame i meth =
     j_to_string (JObj [(''jsonrpc'', JStr ''2.0''), (''id'', i),
       (''error'', JObj [(''code'', JNum ''-32601''), (''message'', JStr (''method not found: '' @ meth)),
         (''data'', JObj [(''kind'', JStr ''methodNotFound''), (''retryable'', JBool False)])])])"
  by (simp add: method_not_found_frame_def jsonrpc_head_def member_def member_obj_def esc_ascii)

lemmas frames_json = request_frame_json notify_frame_json respond_frame_json respond_error_frame_json
  method_not_found_frame_json

section \<open>A printed value is one line\<close>

abbreviation printable :: "char \<Rightarrow> bool" where
  "printable c \<equiv> 0x20 \<le> ord c"

lemma printable_encode: "is_scalar c \<Longrightarrow> 0x20 \<le> c \<Longrightarrow> list_all printable (utf8_encode c)"
  by (auto simp: utf8_encode_def of_char_of is_scalar_def)

lemma printable_hex: "list_all printable (pad0 w (show_hex n))"
  using show_hex_printable [of n] by (auto simp: pad0_def list_all_iff)

lemma printable_esc: "list_all printable (esc s)"
proof -
  have "list_all printable (esc_char c)" if "is_scalar c" for c
    using printable_hex [of 4 c] printable_encode [OF that] by (simp add: esc_char_def)
  then show ?thesis
    using chars_scalar [of s] by (auto simp: esc_def list_all_iff)
qed

lemma printable_digits: "digits ds \<Longrightarrow> list_all printable ds"
  by (auto simp: digits_def is_digit_def list_all_iff)

lemma printable_number: "json_number n \<Longrightarrow> list_all printable n"
  unfolding json_number_def by (elim exE conjE disjE) (auto dest!: printable_digits)

lemma printable_join: "list_all printable sep \<Longrightarrow> list_all (list_all printable) xs \<Longrightarrow> list_all printable (join sep xs)"
  by (induction sep xs rule: join.induct) auto

lemma printable_json: "jwf v \<Longrightarrow> list_all printable (j_to_string v)"
proof (induction v rule: j_to_string.induct)
  case (5 items)
  then have "list_all printable (join '','' (map j_to_string items))"
    by (intro printable_join) (auto simp: list_all_iff)
  then show ?case by simp
next
  case (6 pairs)
  have "list_all printable (esc k @ '':'' @ j_to_string v)" if "(k, v) \<in> set pairs" for k v
    using 6 that printable_esc [of k] by (fastforce simp: list_all_iff)
  then have "list_all printable (join '','' (map (\<lambda>(k, v). esc k @ '':'' @ j_to_string v) pairs))"
    by (intro printable_join) (auto simp: list_all_iff)
  then show ?case by simp
qed (auto simp: printable_esc printable_number)

text \<open>Its first and last bytes are ASCII and not white space, so trimming a line recovers it.\<close>

definition edge :: "char \<Rightarrow> bool" where
  "edge c \<longleftrightarrow> ord c < 128 \<and> \<not> is_whitespace (ord c)"

lemma edge_digit: "is_digit c \<Longrightarrow> edge c"
  by (auto simp: edge_def is_digit_def is_whitespace_def)

lemma number_ends_digits: "json_number n \<Longrightarrow> \<exists>pre ds. n = pre @ ds \<and> digits ds"
proof -
  assume "json_number n"
  then obtain sign ipart frac expo where n: "n = sign @ ipart @ frac @ expo"
    and i: "ipart = ''0'' \<or> digits ipart"
    and f: "frac = [] \<or> (\<exists>ds. digits ds \<and> frac = CHR ''.'' # ds)"
    and e: "expo = [] \<or> (\<exists>c sg ds. digits ds \<and> expo = c # sg @ ds)"
    unfolding json_number_def by blast
  have z: "digits ''0''" by (simp add: digits_def is_digit_def)
  consider (exp) c sg ds where "digits ds" "expo = c # sg @ ds"
    | (frac) ds where "expo = []" "digits ds" "frac = CHR ''.'' # ds"
    | (plain) "expo = []" "frac = []" using e f by blast
  then show ?thesis
  proof cases
    case exp
    then show ?thesis unfolding n by (intro exI [of _ "sign @ ipart @ frac @ c # sg"] exI [of _ ds]) simp
  next
    case frac
    then show ?thesis unfolding n by (intro exI [of _ "sign @ ipart @ ''.''"] exI [of _ ds]) simp
  next
    case plain
    then show ?thesis unfolding n using i z by (intro exI [of _ sign] exI [of _ ipart]) auto
  qed
qed

lemma number_last: "json_number n \<Longrightarrow> n \<noteq> [] \<and> edge (last n)"
  using number_ends_digits [of n] by (auto simp: digits_def list_all_iff edge_digit)

lemma json_edges:
  assumes "jwf v"
  shows "j_to_string v \<noteq> [] \<and> edge (hd (j_to_string v)) \<and> edge (last (j_to_string v))"
proof (cases v)
  case (JNum n)
  with assms have n: "json_number n" by simp
  from json_number_hd [OF n] have "edge (hd n)" by (auto simp: edge_digit edge_def [of "CHR ''-''"] is_whitespace_def)
  with JNum number_last [OF n] show ?thesis by simp
qed (simp_all add: edge_def is_whitespace_def esc_def)

lemma trim_edges:
  assumes "utf8 s" "s \<noteq> []" "edge (hd s)" "edge (last s)"
  shows "trim (s @ [line_feed]) = s"
proof -
  have nl: "utf8 [line_feed]" "chars [line_feed] = [0x0A]"
    by (simp_all add: utf8_ascii chars_ascii)
  obtain a t where s: "s = a # t" using assms(2) by (cases s) auto
  have first: "chars s = ord a # chars t"
  proof -
    have "utf8 [a]" "utf8 t" "chars [a] = [ord a]"
      using assms s by (simp_all add: edge_def utf8_ascii chars_ascii utf8_ascii_Cons)
    with s show ?thesis using chars_append [of "[a]" t] by simp
  qed
  have lst: "chars s = chars (butlast s) @ [ord (last s)]"
  proof -
    have split: "s = butlast s @ [last s]" using assms(2) by simp
    with assms(1) have "utf8 (butlast s @ last s # [])" by simp
    from utf8_cut_ascii [OF this] assms have "utf8 (butlast s)" "utf8 [last s]" "chars [last s] = [ord (last s)]"
      by (simp_all add: edge_def utf8_ascii chars_ascii)
    with split show ?thesis using chars_append [of "butlast s" "[last s]"] by metis
  qed
  have "dropWhile is_whitespace (chars s @ [0x0A]) = chars s @ [0x0A]"
    using first assms(3) s by (simp add: edge_def)
  moreover have "dropWhile is_whitespace (rev (chars s @ [0x0A])) = rev (chars s)"
    using lst assms(4) by (simp add: edge_def is_whitespace_def [of 10])
  ultimately show ?thesis
    using assms(1) nl by (simp add: trim_def chars_append)
qed

section \<open>Reading what was written\<close>

text \<open>The bytes a sequence of messages occupies on the stream.\<close>

definition stream_of :: "J list \<Rightarrow> string" where
  "stream_of js = concat (map (\<lambda>j. j_to_string j @ [line_feed]) js)"

definition sendable :: "nat \<Rightarrow> J \<Rightarrow> bool" where
  "sendable limit j \<longleftrightarrow> jwf j \<and> jdepth j \<le> MAX_DEPTH \<and> length (j_to_string j) < limit"

lemma line_of_line:
  assumes "line_feed \<notin> set l" "length l < limit"
  shows "line_of limit (l @ line_feed # s) = l @ [line_feed]"
proof -
  have t: "take (limit + 1) (l @ line_feed # s) = l @ line_feed # take (limit - length l) s"
    using assms(2) by (simp add: take_Cons' Suc_diff_le)
  have "takeWhile (\<lambda>c. c \<noteq> line_feed) (l @ line_feed # r) = l" for r
    using assms(1) by (subst takeWhile_append2) auto
  then show ?thesis unfolding line_of_def t Let_def by simp
qed

lemma read_frame_line:
  assumes "line_feed \<notin> set l" "length l < limit"
  shows "read_frame limit (l @ line_feed # s) fin = (Complete, l @ [line_feed], s)"
  using line_of_line [OF assms, of s] assms(2)
  by (simp add: read_frame_def Let_def split: option.splits)

lemma json_no_newline: "jwf v \<Longrightarrow> line_feed \<notin> set (j_to_string v)"
  using printable_json [of v] by (force simp: list_all_iff)

lemma read_line_json:
  assumes "jwf v" "jdepth v \<le> MAX_DEPTH"
  shows "read_line modes (j_to_string v @ [line_feed]) = [Act (dispatch modes v)]"
proof -
  have "trim (j_to_string v @ [line_feed]) = j_to_string v"
    using json_edges [OF assms(1)] utf8_j_to_string [OF assms(1)] by (intro trim_edges) auto
  moreover have "utf8 (j_to_string v @ [line_feed])"
    using utf8_j_to_string [OF assms(1)] by (simp add: utf8_ascii)
  ultimately show ?thesis
    using json_edges [OF assms(1)] parse_json_j_to_string [OF assms] by (simp add: read_line_def)
qed

lemma reader_loop_line:
  assumes "sendable limit v"
  shows "reader_loop limit modes (j_to_string v @ line_feed # s) fin = Act (dispatch modes v) # reader_loop limit modes s fin"
proof -
  from assms have v: "jwf v" "jdepth v \<le> MAX_DEPTH" "length (j_to_string v) < limit" by (simp_all add: sendable_def)
  from read_frame_line [OF json_no_newline [OF v(1)] v(3)] show ?thesis
    by (subst reader_loop.simps) (simp add: read_line_json [OF v(1,2)])
qed

lemma reader_loop_stream:
  "list_all (sendable limit) js \<Longrightarrow>
   reader_loop limit modes (stream_of js @ s) fin = map (\<lambda>j. Act (dispatch modes j)) js @ reader_loop limit modes s fin"
  by (induction js) (simp_all add: stream_of_def reader_loop_line)

lemma reader_loop_eof: "reader_loop limit modes [] None = [Stop ''serve host stdout closed'']"
  by (subst reader_loop.simps) (simp add: read_frame_def line_of_def Let_def)

section \<open>Hexadecimal fields\<close>

definition hex_val :: "string \<Rightarrow> nat" where
  "hex_val s = foldl (\<lambda>a c. 16 * a + the (hex_value c)) 0 s"

lemma hex_val_snoc: "hex_val (s @ [c]) = 16 * hex_val s + the (hex_value c)"
  by (simp add: hex_val_def)

lemma hex_val_show: "hex_val (show_hex n) = n"
proof (induction n rule: show_hex.induct)
  case (1 n)
  show ?case
  proof (cases "n < 16")
    case True
    then show ?thesis by (simp add: show_hex.simps [of n] hex_val_def hex_value_digit)
  next
    case False
    with 1 show ?thesis by (simp add: show_hex.simps [of n] hex_val_snoc hex_value_digit)
  qed
qed

lemma hex_val_field: "hex_val (hex_field w n) = n"
proof -
  have "foldl (\<lambda>a c. 16 * a + the (hex_value c)) 0 (replicate k (CHR ''0'') @ s) = hex_val s" for k s
  proof (induction k)
    case (Suc k)
    then show ?case by (simp add: hex_value_def [of "CHR ''0''"] is_digit_def)
  qed (simp add: hex_val_def)
  then show ?thesis using hex_val_show [of n] by (simp add: hex_field_def pad0_def hex_val_def)
qed

lemma hex_field_inject: "hex_field w m = hex_field w n \<longleftrightarrow> m = n"
  using hex_val_field by metis

lemma show_hex_length: "n < 16 ^ Suc w \<Longrightarrow> length (show_hex n) \<le> Suc w"
proof (induction w arbitrary: n)
  case 0
  then show ?case by (simp add: show_hex.simps [of n])
next
  case (Suc w)
  then have "n div 16 < 16 ^ Suc w" by (simp add: less_mult_imp_div_less mult.commute)
  with Suc.IH show ?case by (simp add: show_hex.simps [of n])
qed

lemma hex_field_length: "0 < w \<Longrightarrow> n < 16 ^ w \<Longrightarrow> length (hex_field w n) = w"
  using show_hex_length [of n "w - 1"] by (cases w) (simp_all add: hex_field_def pad0_def)

text \<open>The five fields of a command id, and their widths.\<close>

definition id_bytes :: "u64 \<Rightarrow> u8 list \<Rightarrow> u8 list" where
  "id_bytes n r =
     r[0 := r ! 0 XOR ucast (drop_bit 8 n AND 0x0F), 1 := r ! 1 XOR ucast (n AND 0xFF),
       9 := r ! 9 XOR ucast (drop_bit 12 n AND 0xFF)]"

definition id_b :: "u64 \<Rightarrow> u8 list \<Rightarrow> u16" where
  "id_b n r = be16 (id_bytes n r ! 0) (id_bytes n r ! 1) AND 0x0FFF"

definition id_c :: "u64 \<Rightarrow> u8 list \<Rightarrow> u16" where
  "id_c n r = be16 (id_bytes n r ! 2) (id_bytes n r ! 3) AND 0x3FFF OR 0x8000"

definition id_d :: "u64 \<Rightarrow> u8 list \<Rightarrow> u64" where
  "id_d n r =
     push_bit 40 (ucast (id_bytes n r ! 4)) OR push_bit 32 (ucast (id_bytes n r ! 5)) OR
     push_bit 24 (ucast (id_bytes n r ! 6)) OR push_bit 16 (ucast (id_bytes n r ! 7)) OR
     push_bit 8 (ucast (id_bytes n r ! 8)) OR ucast (id_bytes n r ! 9)"

lemma uuid_v7_fields:
  "length r = 10 \<Longrightarrow>
   uuid_v7 n ms r =
     hex_field 8 (unat (ucast (drop_bit 16 ms) :: 32 word)) @ ''-'' @
     hex_field 4 (unat (ucast (ms AND 0xFFFF) :: u16)) @ ''-7'' @
     hex_field 3 (unat (id_b n r)) @ ''-'' @ hex_field 4 (unat (id_c n r)) @ ''-'' @ hex_field 12 (unat (id_d n r))"
  by (simp add: uuid_v7_def id_b_def id_c_def id_d_def id_bytes_def Let_def)

lemma id_b_bound: "unat (id_b n r) < 16 ^ 3"
proof -
  have "id_b n r \<le> 0x0FFF" unfolding id_b_def by (rule word_and_le1)
  then show ?thesis by (simp add: word_le_nat_alt)
qed

lemma id_c_bits: "drop_bit 14 (id_c n r) = 2"
proof (rule bit_word_eqI)
  fix i assume i: "i < LENGTH(16)"
  have "bit (0x3FFF :: u16) j \<longleftrightarrow> j < 14" for j
  proof -
    have m: "(0x3FFF :: u16) = mask 14" by (simp add: mask_eq_exp_minus_1)
    show ?thesis unfolding m by (simp only: bit_mask_iff) auto
  qed
  moreover have "bit (0x8000 :: u16) j \<longleftrightarrow> j = 15" for j
  proof -
    have "(0x8000 :: u16) = 2 ^ 15" by simp
    then show ?thesis by (simp only: bit_exp_iff) auto
  qed
  moreover have "bit (2 :: u16) j \<longleftrightarrow> j = 1" for j using bit_exp_iff [of 1 j, where 'a = u16] by auto
  ultimately show "bit (drop_bit 14 (id_c n r)) i \<longleftrightarrow> bit (2 :: u16) i"
    by (auto simp: id_c_def bit_simps)
qed

lemma byte_bit: "bit (push_bit k (ucast (x::u8)) :: u64) i \<Longrightarrow> i < k + 8"
  using bit_imp_le_length [of x "i - k"] by (auto simp: bit_simps)

lemma id_d_bound: "unat (id_d n r) < 16 ^ 12"
proof -
  have "i < 48" if "bit (id_d n r) i" for i
    using that unfolding id_d_def bit_or_iff by (elim disjE) (auto dest!: byte_bit byte_bit [where k = 0, simplified])
  then have "take_bit 48 (id_d n r) = id_d n r"
    by (intro bit_word_eqI) (auto simp: bit_take_bit_iff)
  then have "uint (id_d n r) < 2 ^ 48"
    by (metis take_bit_int_less_exp unsigned_take_bit_eq)
  then have "unat (id_d n r) < 2 ^ 48" by (metis nat_less_numeral_power_cancel_iff unat_eq_nat_uint)
  then show ?thesis by simp
qed

lemma time_bounds: "unat (w :: 32 word) < 16 ^ 8" "unat (v :: u16) < 16 ^ 4"
proof -
  have "unat w < 2 ^ LENGTH(32)" "unat v < 2 ^ LENGTH(16)" by (rule unsigned_less)+
  then show "unat (w :: 32 word) < 16 ^ 8" "unat (v :: u16) < 16 ^ 4" by simp_all
qed

lemma field_lengths:
  "length (hex_field 8 (unat (w :: 32 word))) = 8" "length (hex_field 4 (unat (v :: u16))) = 4"
  "length (hex_field 3 (unat (id_b n r))) = 3" "length (hex_field 12 (unat (id_d n r))) = 12"
  by (rule hex_field_length, simp, rule time_bounds id_b_bound id_d_bound)+

lemma uuid_v7_eqD:
  assumes "length r = 10" "length r' = 10" "uuid_v7 n ms r = uuid_v7 n' ms' r'"
  shows "id_b n r = id_b n' r' \<and> id_d n r = id_d n' r'"
proof -
  from assms have "hex_field 3 (unat (id_b n r)) = hex_field 3 (unat (id_b n' r')) \<and>
      hex_field 12 (unat (id_d n r)) = hex_field 12 (unat (id_d n' r'))"
    by (simp add: uuid_v7_fields append_eq_append_conv field_lengths)
  then show ?thesis by (simp add: hex_field_inject word_unat_eq_iff)
qed

lemma low_bits: "bit (15 :: int) i \<longleftrightarrow> i < 4" "bit (255 :: int) i \<longleftrightarrow> i < 8" "bit (4095 :: int) i \<longleftrightarrow> i < 12"
proof -
  have m: "(15 :: int) = mask 4" "(255 :: int) = mask 8" "(4095 :: int) = mask 12"
    by (simp_all add: mask_eq_exp_minus_1)
  show "bit (15 :: int) i \<longleftrightarrow> i < 4" "bit (255 :: int) i \<longleftrightarrow> i < 8" "bit (4095 :: int) i \<longleftrightarrow> i < 12"
    unfolding m by (simp_all only: bit_mask_iff possible_bit_int simp_thms)
qed

text \<open>The sequence number's low 12 bits are in the third field and the next 8 in the last byte.\<close>

lemma id_b_seq:
  assumes "length r = 10" "i < 12"
  shows "bit (id_b n r) i \<longleftrightarrow> (if i < 8 then bit (r ! 1) i \<noteq> bit n i else bit (r ! 0) (i - 8) \<noteq> bit n i)"
proof (cases "i < 8")
  case True
  with assms show ?thesis
    by (simp add: id_b_def id_bytes_def be16_def bit_simps low_bits)
next
  case False
  then have "\<not> bit (r ! 1 XOR ucast (n AND 0xFF)) i" using bit_imp_le_length [of "r ! 1 XOR ucast (n AND 0xFF)" i] by auto
  moreover have "i - 8 < 4" "i - 8 < 8" "i - 8 < 16" "i - 8 < 64" using False assms by simp_all
  ultimately show ?thesis using False assms
    by (simp add: id_b_def id_bytes_def be16_def bit_simps low_bits)
qed

lemma id_d_seq:
  assumes "length r = 10" "i < 8"
  shows "bit (id_d n r) i \<longleftrightarrow> bit (r ! 9) i \<noteq> bit n (12 + i)"
  using assms by (simp add: id_d_def id_bytes_def bit_simps low_bits)

lemma uuid_v7_seq:
  assumes "length r = 10" "uuid_v7 n ms r = uuid_v7 n' ms' r"
  shows "take_bit 20 n = take_bit 20 n'"
proof (rule bit_word_eqI)
  fix i assume "i < LENGTH(64)"
  from uuid_v7_eqD [OF assms(1) assms(1) assms(2)] have eq: "id_b n r = id_b n' r" "id_d n r = id_d n' r" by auto
  have "bit n i = bit n' i" if i: "i < 20"
  proof (cases "i < 12")
    case True
    then show ?thesis using id_b_seq [OF assms(1), of i n] id_b_seq [OF assms(1), of i n'] eq by (auto split: if_splits)
  next
    case False
    then have "i - 12 < 8" "12 + (i - 12) = i" using i by auto
    then show ?thesis using id_d_seq [OF assms(1), of "i - 12" n] id_d_seq [OF assms(1), of "i - 12" n'] eq by auto
  qed
  then show "bit (take_bit 20 n) i \<longleftrightarrow> bit (take_bit 20 n') i" by (auto simp: bit_take_bit_iff)
qed

section \<open>Properties of the wire\<close>

text \<open>The specification of the reader on line_feed-terminated input: line after line, until a line reaches
  the size limit.\<close>

fun read_lines :: "nat \<Rightarrow> (string \<times> request_mode) list \<Rightarrow> string list \<Rightarrow> reading list" where
  "read_lines limit modes [] = [Stop ''serve host stdout closed'']"
| "read_lines limit modes (l # ls) =
     (if length l < limit then read_line modes (l @ [line_feed]) @ read_lines limit modes ls
      else [Diagnose (StdoutFrameTooLarge limit), Stop (''serve stdout frame exceeds '' @ show_nat limit @ '' bytes'')])"

lemma read_frame_long:
  assumes "line_feed \<notin> set l" "limit \<le> length l"
  shows "fst (read_frame limit (l @ line_feed # s) fin) = TooLarge"
proof -
  let ?t = "take (limit + 1) (l @ line_feed # s)"
  have t: "?t = take (limit + 1) l @ (if length l = limit then [line_feed] else [])"
    using assms(2) by (auto simp: take_Cons')
  have nl: "line_feed \<notin> set (take (limit + 1) l)" using assms(1) set_take_subset [of "limit + 1" l] by auto
  have w: "takeWhile (\<lambda>c. c \<noteq> line_feed) ?t = take (limit + 1) l"
  proof (cases "length l = limit")
    case True
    then have "takeWhile (\<lambda>c. c \<noteq> line_feed) (l @ [line_feed]) = l" using nl by (subst takeWhile_append2) auto
    with True show ?thesis unfolding t by simp
  next
    case False
    have "takeWhile (\<lambda>c. c \<noteq> line_feed) (take (limit + 1) l) = take (limit + 1) l"
      using nl by (intro takeWhile_eq_all_conv [THEN iffD2]) auto
    with False show ?thesis unfolding t by simp
  qed
  have "line_of limit (l @ line_feed # s) = take (length (take (limit + 1) l) + 1) ?t"
    unfolding line_of_def Let_def w ..
  then have "length (line_of limit (l @ line_feed # s)) = limit + 1" using assms(2) by simp
  then show ?thesis by (auto simp: read_frame_def Let_def split: option.splits)
qed

lemma reader_loop_lines:
  "list_all (\<lambda>l. line_feed \<notin> set l) ls \<Longrightarrow>
   reader_loop limit modes (concat (map (\<lambda>l. l @ [line_feed]) ls)) None = read_lines limit modes ls"
proof (induction ls)
  case Nil
  then show ?case by (simp add: reader_loop_eof)
next
  case (Cons l ls)
  let ?s = "concat (map (\<lambda>l. l @ [line_feed]) ls)"
  have nl: "line_feed \<notin> set l" and IH: "reader_loop limit modes ?s None = read_lines limit modes ls"
    using Cons by simp_all
  show ?case
  proof (cases "length l < limit")
    case True
    then show ?thesis
      using read_frame_line [OF nl True, of ?s None] IH by (simp add: reader_loop.simps [of _ _ "l @ _"])
  next
    case False
    then obtain a where "read_frame limit (l @ line_feed # ?s) None = (TooLarge, a)"
      using read_frame_long [OF nl, of limit ?s None] by (cases "read_frame limit (l @ line_feed # ?s) None") auto
    with False show ?thesis by (cases a) (simp add: reader_loop.simps [of _ _ "l @ _"])
  qed
qed

text \<open>C31: on any line_feed-terminated stream the bounded reader handles the lines one by one: a line that is
  not UTF-8 or not JSON is reported and skipped without disturbing the lines after it, and the first
  line of \<open>limit\<close> bytes or more stops the connection.\<close>

theorem reader_is_linewise:
  assumes "list_all (\<lambda>l. line_feed \<notin> set l) ls"
  shows "reader_loop limit modes (concat (map (\<lambda>l. l @ [line_feed]) ls)) None = read_lines limit modes ls"
  using reader_loop_lines [OF assms] .

definition demo_lines :: "string list" where
  "demo_lines = [[CHR 0xFF], ''[true'', [], ''123456789012'', ''null'']"

theorem reader_is_linewise_witness:
  "reader_loop 12 [] (concat (map (\<lambda>l. l @ [line_feed]) demo_lines)) None =
     [Diagnose InvalidUtf8Frame, Diagnose (MalformedFrame (ExpectedCommaArray 5)), Diagnose (StdoutFrameTooLarge 12),
      Stop ''serve stdout frame exceeds 12 bytes'']"
proof -
  have "list_all (\<lambda>l. line_feed \<notin> set l) demo_lines" by (simp add: demo_lines_def)
  note reader_is_linewise [OF this, of 12 "[]"]
  also have "read_lines 12 [] demo_lines =
    [Diagnose InvalidUtf8Frame, Diagnose (MalformedFrame (ExpectedCommaArray 5)), Diagnose (StdoutFrameTooLarge 12),
      Stop ''serve stdout frame exceeds 12 bytes'']"
  proof -
    have "trim (''[true'' @ [line_feed]) = ''[true''"
      by (rule trim_edges) (simp_all add: edge_def is_whitespace_def utf8_ascii)
    moreover have "parse_json ''[true'' = Inl (ExpectedCommaArray 5)" "show_nat 12 = ''12''"
      by code_simp+
    moreover have "\<not> utf8 [CHR 0xFF, line_feed]" by (simp add: utf8_def utf8_decode.simps)
    moreover have "trim [line_feed] = []" by (simp add: trim_def chars_ascii is_whitespace_def)
    ultimately show ?thesis by (simp add: demo_lines_def read_line_def utf8_ascii)
  qed
  finally show ?thesis .
qed

text \<open>a sequence of messages that fit the size limit, printed one per line, is read back as exactly the
  routing of those messages in order, and then the end of the stream. The frames the client itself
  writes are such prints (\<open>frames_json\<close>).\<close>

theorem messages_read_back:
  assumes "list_all (sendable MAX_STDOUT_FRAME_BYTES) js"
  shows "reader_loop MAX_STDOUT_FRAME_BYTES modes (stream_of js) None =
     map (\<lambda>j. Act (dispatch modes j)) js @ [Stop ''serve host stdout closed'']"
  using reader_loop_stream [OF assms, of modes "[]" None] by (simp add: reader_loop_eof)

theorem messages_read_back_witness:
  "reader_loop MAX_STDOUT_FRAME_BYTES [(''approval/request'', Acknowledge)]
     (stream_of [JObj [(''id'', JNum ''7''), (''result'', JBool True)], JObj [(''id'', JStr ''a''), (''method'', JStr ''approval/request'')],
        JObj [(''id'', JStr ''b''), (''method'', JStr ''other'')], JObj [(''method'', JStr ''x'')]]) None =
     [Act (Settle ''7'' (Result (JBool True))), Act (Serve Acknowledge (JStr ''a'') ''approval/request'' JNull),
      Act (Refuse (JStr ''b'') ''other''), Act (Notify ''x'' JNull), Stop ''serve host stdout closed'']"
proof -
  have "json_number ''7''" unfolding json_number_def
    by (intro exI [of _ "[]"] exI [of _ "''7''"]) (simp add: digits_def is_digit_def)
  then have "list_all (sendable MAX_STDOUT_FRAME_BYTES) [JObj [(''id'', JNum ''7''), (''result'', JBool True)],
      JObj [(''id'', JStr ''a''), (''method'', JStr ''approval/request'')],
        JObj [(''id'', JStr ''b''), (''method'', JStr ''other'')], JObj [(''method'', JStr ''x'')]]"
    by (simp add: sendable_def MAX_DEPTH_def MAX_STDOUT_FRAME_BYTES_def utf8_ascii esc_ascii quoted_def)
  from messages_read_back [OF this] show ?thesis
    by (simp add: dispatch_def server_request_mode_def esc_ascii quoted_def)
qed

lemma take_bit_sequence: "uint (take_bit 20 (seq0 + of_nat k :: u64)) = (uint seq0 + int k) mod 2 ^ 20"
proof -
  have "seq0 + of_nat k = word_of_int (uint seq0 + int k)" by simp
  then have "uint (take_bit 20 (seq0 + of_nat k)) = take_bit 20 (uint seq0 + int k)"
    by (simp only: unsigned_take_bit_eq uint_word_of_int_eq take_bit_take_bit) simp
  then show ?thesis by (simp add: take_bit_eq_mod)
qed

lemma residues_differ: "i < j \<Longrightarrow> j - i < 2 ^ 20 \<Longrightarrow> (a + int i) mod 2 ^ 20 \<noteq> (a + int j) mod 2 ^ 20"
proof
  assume b: "i < j" "j - i < 2 ^ 20" and "(a + int i) mod 2 ^ 20 = (a + int j) mod 2 ^ 20"
  then have "2 ^ 20 dvd (a + int j) - (a + int i)" by (metis mod_eq_dvd_iff)
  then have "2 ^ 20 dvd int (j - i)" using b by (simp add: of_nat_diff)
  then show False using b by (auto dest!: zdvd_imp_le)
qed

text \<open>a command id is a well-shaped UUIDv7 (36 bytes, version digit 7, variant 10), and among up to
  \<open>2 ^ 20\<close> ids minted in a row no two are equal, whatever the clock says and even when the random bytes
  never change.\<close>

theorem command_ids_distinct:
  assumes "length r = 10" "i < j" "j - i < 2 ^ 20"
  shows "fst (mint_command_id (seq0 + of_nat i) clock r) \<noteq> fst (mint_command_id (seq0 + of_nat j) clock' r) \<and>
    length (uuid_v7 n ms r) = 36 \<and> uuid_v7 n ms r ! 14 = CHR ''7'' \<and> drop_bit 14 (id_c n r) = 2"
proof -
  have "take_bit 20 (seq0 + of_nat i) \<noteq> take_bit 20 (seq0 + of_nat j)"
    using residues_differ [OF assms(2,3), of "uint seq0"] by (metis take_bit_sequence)
  then have "fst (mint_command_id (seq0 + of_nat i) clock r) \<noteq> fst (mint_command_id (seq0 + of_nat j) clock' r)"
    unfolding mint_command_id_def fst_conv using uuid_v7_seq [OF assms(1)] by blast
  moreover have "length (uuid_v7 n ms r) = 36" "uuid_v7 n ms r ! 14 = CHR ''7''"
    using assms(1) by (simp_all add: uuid_v7_fields field_lengths nth_append)
  ultimately show ?thesis by (simp add: id_c_bits)
qed

theorem command_ids_distinct_witness:
  "fst (mint_command_id 1 1700000000000 (replicate 10 0)) \<noteq> fst (mint_command_id 2 1700000000000 (replicate 10 0))"
  using command_ids_distinct [of "replicate 10 0" 1 2 0] by simp

end
