(* ===== verification/Client.thy ===== *)
theory Client
  imports Client_Wire
begin

text \<open>
  The MSP connection as concurrent threads over one shared state
  (\<^verbatim>\<open>crates/muse-msp-client/src/client.rs\<close>). Callers issue requests and one-way frames, a writer thread
  takes frames from a queue, the reader thread works through the readings of the host's stream, and
  any thread may close the connection. A step is one access to shared state: one locked section, one
  channel operation or one atomic operation. What a thread still has to do in \<^verbatim>\<open>fail_pending\<close>,
  \<^verbatim>\<open>host_closed\<close> and \<^verbatim>\<open>close\<close> is a list of such operations, in the order the code has them, so that the
  steps of other threads interleave with them. Removing a waiter and sending to it is one step: the
  channel is touched by nobody else.

  Deadlines are steps that may happen at any time. The host process behind the pipes (killing,
  reaping, exit codes) is the theory \<open>Host\<close>.
\<close>

section \<open>Errors\<close>

datatype io_error = ShutDown | StdinClosed | WriterStopped | WriteTimedOut | WriteFailed string

primrec io_message :: "io_error \<Rightarrow> string" where
  "io_message ShutDown = ''serve is shut down''"
| "io_message StdinClosed = ''serve stdin closed''"
| "io_message WriterStopped = ''serve stdin writer stopped''"
| "io_message WriteTimedOut = ''serve stdin write timed out; host terminated''"
| "io_message (WriteFailed m) = m"

datatype msp_error =
    Rpc J
  | TimeoutError string nat nat
  | CancelledError string nat
  | HostClosed
  | ClosedError string
  | WriteError io_error

section \<open>The connection\<close>

text \<open>One operation of a thread: take the writer out of its slot, drain the waiters (telling them a reason,
  or just dropping them), terminate the transport, record that a close started, settle one waiter,
  post the final event; and for the reader: send a frame and wait for it, deliver an event, stop.\<close>

datatype op =
    Take
  | Drain "string option"
  | Terminate
  | MarkClosing
  | Give string reply
  | PostClosed string
  | Send string
  | Await nat
  | Emit msp_event
  | Halt

definition fail_pending :: "string \<Rightarrow> op list" where
  "fail_pending reason = [Take, Drain (Some reason)]"

definition host_closed :: "string \<Rightarrow> op list" where
  "host_closed reason = [Take, Drain None, PostClosed reason]"

definition close_ops :: "op list" where
  "close_ops = MarkClosing # fail_pending ''serve shutting down''"

definition write_timeout_ops :: "op list" where
  "write_timeout_ops = [Take, Terminate] @ fail_pending (io_message WriteTimedOut)"

definition event_loop_closed :: "op list" where
  "event_loop_closed = fail_pending ''serve event loop closed'' @ close_ops @ [Halt]"

text \<open>What the reader thread does for one reading.\<close>

fun reader_program :: "reading \<Rightarrow> op list" where
  "reader_program (Act (Refuse i meth)) = [Send (method_not_found_frame i meth)]"
| "reader_program (Act (Serve mode i meth params)) =
     (if mode = Acknowledge then [Send (respond_frame i ''{}'')] else []) @ [Emit (Request i meth params)]"
| "reader_program (Act (Settle key r)) = [Give key r]"
| "reader_program (Act (Notify meth params)) = [Emit (Notification meth params)]"
| "reader_program (Act Skip) = []"
| "reader_program (Diagnose d) = []"
| "reader_program (Stop reason) = host_closed reason @ [Halt]"

text \<open>Where a caller stands inside \<^verbatim>\<open>start_request\<close>, \<^verbatim>\<open>send_raw\<close> and \<^verbatim>\<open>wait\<close>.\<close>

datatype phase =
    Minted
  | Registered
  | Holding
  | Queued
  | Expiring "op list"
  | Failing io_error
  | Waiting
  | GaveUp msp_error
  | Finished "msp_error + J"

text \<open>A call is a request or a one-way frame (\<^verbatim>\<open>notify\<close>, \<^verbatim>\<open>respond\<close>). Its reply channel is numbered by its
  position in the list of calls and holds \<open>c_inbox\<close>.\<close>

record host_call =
  c_id :: u64
  c_method :: string
  c_line :: string
  c_request :: bool
  c_timeout :: nat
  c_phase :: phase
  c_inbox :: "reply list"

record conn =
  writer :: bool
  writer_live :: bool
  terminated :: bool
  close_started :: bool
  events_live :: bool
  next_id :: u64
  pending :: "nat hmap"
  calls :: "host_call list"
  queue :: "nat list"
  sent :: "string list"
  input :: "reading list"
  reader_ops :: "op list"
  closers :: "op list list"
  events :: "msp_event list"

definition conn_new :: "reading list \<Rightarrow> conn" where
  "conn_new readings =
     \<lparr>writer = True, writer_live = True, terminated = False, close_started = False, events_live = True,
      next_id = 1, pending = [], calls = [], queue = [], sent = [], input = readings, reader_ops = [],
      closers = [], events = []\<rparr>"

definition c_key :: "host_call \<Rightarrow> string" where
  "c_key k = show_nat (unat (c_id k))"

definition upd_call :: "nat \<Rightarrow> (host_call \<Rightarrow> host_call) \<Rightarrow> conn \<Rightarrow> conn" where
  "upd_call i f c = c\<lparr>calls := (calls c)[i := f (calls c ! i)]\<rparr>"

definition set_phase :: "nat \<Rightarrow> phase \<Rightarrow> conn \<Rightarrow> conn" where
  "set_phase i p c = upd_call i (\<lambda>k. k\<lparr>c_phase := p\<rparr>) c"

definition deliver :: "nat \<Rightarrow> reply \<Rightarrow> conn \<Rightarrow> conn" where
  "deliver i r c = upd_call i (\<lambda>k. k\<lparr>c_inbox := c_inbox k @ [r]\<rparr>) c"

definition remove_pending :: "nat \<Rightarrow> conn \<Rightarrow> conn" where
  "remove_pending i c =
     (if c_request (calls c ! i) then c\<lparr>pending := hdel (c_key (calls c ! i)) (pending c)\<rparr> else c)"

text \<open>Removing the waiter of a key and telling it; an unknown key is only reported.\<close>

definition give :: "string \<Rightarrow> reply \<Rightarrow> conn \<Rightarrow> conn" where
  "give key r c =
     (case hget (pending c) key of
        Some w \<Rightarrow> deliver w r (c\<lparr>pending := hdel key (pending c)\<rparr>)
      | None \<Rightarrow> c)"

fun deliver_all :: "nat list \<Rightarrow> reply \<Rightarrow> conn \<Rightarrow> conn" where
  "deliver_all [] r c = c"
| "deliver_all (w # ws) r c = deliver_all ws r (deliver w r c)"

definition drain :: "string option \<Rightarrow> conn \<Rightarrow> conn" where
  "drain reason c =
     (let c' = c\<lparr>pending := []\<rparr> in
      case reason of Some m \<Rightarrow> deliver_all (map snd (pending c)) (Closed m) c' | None \<Rightarrow> c')"

text \<open>The operations every thread can run; the others belong to the reader.\<close>

fun exec :: "op \<Rightarrow> conn \<Rightarrow> conn option" where
  "exec Take c = Some (c\<lparr>writer := False\<rparr>)"
| "exec (Drain reason) c = Some (drain reason c)"
| "exec Terminate c = Some (c\<lparr>terminated := True\<rparr>)"
| "exec MarkClosing c = Some (c\<lparr>close_started := True\<rparr>)"
| "exec (Give key r) c = Some (give key r c)"
| "exec (PostClosed reason) c =
     Some (if events_live c then c\<lparr>events := events c @ [HostClosedEvent reason]\<rparr> else c)"
| "exec _ c = None"

definition mint_request :: "string \<Rightarrow> string \<Rightarrow> nat \<Rightarrow> conn \<Rightarrow> conn" where
  "mint_request meth params timeout c =
     c\<lparr>calls := calls c @
         [\<lparr>c_id = next_id c, c_method = meth, c_line = request_frame (unat (next_id c)) meth params,
           c_request = True, c_timeout = timeout, c_phase = Minted, c_inbox = []\<rparr>],
       next_id := next_id c + 1\<rparr>"

definition open_oneway :: "string \<Rightarrow> conn \<Rightarrow> conn" where
  "open_oneway line c =
     c\<lparr>calls := calls c @
         [\<lparr>c_id = 0, c_method = [], c_line = line, c_request = False, c_timeout = 0, c_phase = Registered,
           c_inbox = []\<rparr>]\<rparr>"

definition register :: "nat \<Rightarrow> conn \<Rightarrow> conn" where
  "register i c = set_phase i Registered (c\<lparr>pending := hput (c_key (calls c ! i)) i (pending c)\<rparr>)"

text \<open>The writer thread finished the first queued frame. A caller that gave up on the write is not told.\<close>

definition write_ok :: "nat \<Rightarrow> conn \<Rightarrow> conn" where
  "write_ok i c =
     (let k = calls c ! i;
          c' = c\<lparr>queue := tl (queue c), sent := sent c @ [c_line k]\<rparr> in
      if c_phase k = Queued then set_phase i (if c_request k then Waiting else Finished (Inr JNull)) c' else c')"

text \<open>A failed write settles the frame and everything queued behind it, and ends the writer thread.\<close>

fun fail_queued :: "nat list \<Rightarrow> io_error \<Rightarrow> conn \<Rightarrow> conn" where
  "fail_queued [] e c = c"
| "fail_queued (i # q) e c =
     fail_queued q e (if c_phase (calls c ! i) = Queued then set_phase i (Failing e) c else c)"

definition write_err :: "string \<Rightarrow> conn \<Rightarrow> conn" where
  "write_err m c = (fail_queued (queue c) (WriteFailed m) c)\<lparr>queue := [], writer_live := False\<rparr>"

text \<open>What \<^verbatim>\<open>wait\<close> makes of a reply.\<close>

fun wait_result :: "host_call \<Rightarrow> reply \<Rightarrow> msp_error + J" where
  "wait_result k (Result v) = Inr v"
| "wait_result k (Error e) = Inl (Rpc e)"
| "wait_result k (Closed reason) = Inl (ClosedError reason)"
| "wait_result k Cancelled = Inl (CancelledError (c_method k) (unat (c_id k)))"

definition disconnected :: "nat \<Rightarrow> conn \<Rightarrow> bool" where
  "disconnected i c \<longleftrightarrow> c_inbox (calls c ! i) = [] \<and> i \<notin> snd ` set (pending c)"

definition at_phase :: "nat \<Rightarrow> phase \<Rightarrow> conn \<Rightarrow> bool" where
  "at_phase i p c \<longleftrightarrow> i < length (calls c) \<and> c_phase (calls c ! i) = p"

section \<open>Steps\<close>

text \<open>A cancel handle exists once \<^verbatim>\<open>start_request\<close> has returned it.\<close>

definition has_handle :: "nat \<Rightarrow> conn \<Rightarrow> bool" where
  "has_handle i c \<longleftrightarrow> i < length (calls c) \<and> c_request (calls c ! i) \<and>
     (case c_phase (calls c ! i) of
        Waiting \<Rightarrow> True | GaveUp e \<Rightarrow> True | Finished r \<Rightarrow> (\<forall>e. r \<noteq> Inl (WriteError e)) | _ \<Rightarrow> False)"

inductive cstep :: "conn \<Rightarrow> conn \<Rightarrow> bool" where
  mint: "cstep c (mint_request meth params timeout c)"
| register: "at_phase i Minted c \<Longrightarrow> cstep c (register i c)"
| oneway: "cstep c (open_oneway line c)"
| clone: "at_phase i Registered c \<Longrightarrow> writer c \<Longrightarrow> cstep c (set_phase i Holding c)"
| no_writer: "at_phase i Registered c \<Longrightarrow> \<not> writer c \<Longrightarrow> cstep c (set_phase i (Failing ShutDown) c)"
| enqueue: "at_phase i Holding c \<Longrightarrow> writer_live c \<Longrightarrow> cstep c (set_phase i Queued (c\<lparr>queue := queue c @ [i]\<rparr>))"
| stdin_closed: "at_phase i Holding c \<Longrightarrow> \<not> writer_live c \<Longrightarrow> cstep c (set_phase i (Failing StdinClosed) c)"
| writer_stopped: "at_phase i Holding c \<Longrightarrow> \<not> writer_live c \<Longrightarrow> cstep c (set_phase i (Failing WriterStopped) c)"
| written: "queue c = i # q \<Longrightarrow> writer_live c \<Longrightarrow> \<not> terminated c \<Longrightarrow> cstep c (write_ok i c)"
| write_failed: "queue c \<noteq> [] \<Longrightarrow> writer_live c \<Longrightarrow> cstep c (write_err m c)"
| writer_ends: "queue c = [] \<Longrightarrow> \<not> writer c \<Longrightarrow> (\<And>i. \<not> at_phase i Holding c) \<Longrightarrow> cstep c (c\<lparr>writer_live := False\<rparr>)"
| expire: "at_phase i Queued c \<Longrightarrow> cstep c (set_phase i (Expiring write_timeout_ops) c)"
| expiring: "at_phase i (Expiring (x # ops)) c \<Longrightarrow> exec x c = Some c' \<Longrightarrow> cstep c (set_phase i (Expiring ops) c')"
| expired: "at_phase i (Expiring []) c \<Longrightarrow> cstep c (set_phase i (Failing WriteTimedOut) c)"
| fail: "at_phase i (Failing e) c \<Longrightarrow> cstep c (set_phase i (Finished (Inl (WriteError e))) (remove_pending i c))"
| receive: "at_phase i Waiting c \<Longrightarrow> c_inbox (calls c ! i) = r # rs \<Longrightarrow>
    cstep c (set_phase i (Finished (wait_result (calls c ! i) r)) c)"
| deadline: "at_phase i Waiting c \<Longrightarrow>
    cstep c (set_phase i (GaveUp (TimeoutError (c_method (calls c ! i)) (unat (c_id (calls c ! i))) (c_timeout (calls c ! i)))) c)"
| hang_up: "at_phase i Waiting c \<Longrightarrow> disconnected i c \<Longrightarrow> cstep c (set_phase i (GaveUp HostClosed) c)"
| forget: "at_phase i (GaveUp e) c \<Longrightarrow> cstep c (set_phase i (Finished (Inl e)) (remove_pending i c))"
| cancel: "has_handle i c \<Longrightarrow> cstep c (give (c_key (calls c ! i)) Cancelled c)"
| close: "cstep c (c\<lparr>closers := close_ops # closers c\<rparr>)"
| closing: "t < length (closers c) \<Longrightarrow> closers c ! t = x # ops \<Longrightarrow> exec x c = Some c' \<Longrightarrow>
    cstep c (c'\<lparr>closers := (closers c)[t := ops]\<rparr>)"
| read: "reader_ops c = [] \<Longrightarrow> input c = rd # rds \<Longrightarrow> cstep c (c\<lparr>reader_ops := reader_program rd, input := rds\<rparr>)"
| reader: "reader_ops c = x # ops \<Longrightarrow> exec x c = Some c' \<Longrightarrow> cstep c (c'\<lparr>reader_ops := ops\<rparr>)"
| reader_sends: "reader_ops c = Send line # ops \<Longrightarrow>
    cstep c ((open_oneway line c)\<lparr>reader_ops := Await (length (calls c)) # ops\<rparr>)"
| reader_sent: "reader_ops c = Await i # ops \<Longrightarrow> at_phase i (Finished r) c \<Longrightarrow> cstep c (c\<lparr>reader_ops := ops\<rparr>)"
| emits: "reader_ops c = Emit ev # ops \<Longrightarrow> events_live c \<Longrightarrow>
    cstep c (c\<lparr>reader_ops := ops, events := events c @ [ev]\<rparr>)"
| nobody_listens: "reader_ops c = Emit ev # ops \<Longrightarrow> \<not> events_live c \<Longrightarrow> cstep c (c\<lparr>reader_ops := event_loop_closed\<rparr>)"
| stop_listening: "cstep c (c\<lparr>events_live := False\<rparr>)"

inductive reached :: "reading list \<Rightarrow> conn \<Rightarrow> bool" for readings :: "reading list" where
  start: "reached readings (conn_new readings)"
| step: "reached readings c \<Longrightarrow> cstep c c' \<Longrightarrow> reached readings c'"

inductive_cases stepE: "cstep c c'"

end
