(* ===== verification/Client_Inv.thy ===== *)
theory Client_Inv
  imports Client
begin

text \<open>
  The invariants of the connection machine, each preserved by every step: registered waiters are the
  unsettled requests (\<open>reg_inv\<close>), every \<open>Take\<close> is followed by a \<open>Drain\<close> (\<open>programs_ok\<close>), a dead connection
  without a pending drain holds no written request (\<open>live_inv\<close>), answers come from the host's stream
  (\<open>prov_inv\<close>) and ids count the requests (\<open>ids_inv\<close>). The proofs go over views of one call and frame
  facts of the operations.
\<close>

section \<open>Frame facts\<close>

lemma calls_upd [simp]: "length (calls (upd_call i f c)) = length (calls c)"
  by (simp add: upd_call_def)

lemma nth_upd: "w < length (calls c) \<Longrightarrow> calls (upd_call i f c) ! w = (if w = i then f (calls c ! i) else calls c ! w)"
  by (simp add: upd_call_def nth_list_update)

lemma upd_frame [simp]:
  "writer (upd_call i f c) = writer c" "writer_live (upd_call i f c) = writer_live c"
  "terminated (upd_call i f c) = terminated c" "pending (upd_call i f c) = pending c"
  "next_id (upd_call i f c) = next_id c" "queue (upd_call i f c) = queue c" "sent (upd_call i f c) = sent c"
  "input (upd_call i f c) = input c" "reader_ops (upd_call i f c) = reader_ops c"
  "closers (upd_call i f c) = closers c" "events (upd_call i f c) = events c"
  by (simp_all add: upd_call_def)

text \<open>The views of a call that the invariants speak about.\<close>

definition ph :: "conn \<Rightarrow> nat \<Rightarrow> phase" where
  "ph c w = c_phase (calls c ! w)"

definition box :: "conn \<Rightarrow> nat \<Rightarrow> reply list" where
  "box c w = c_inbox (calls c ! w)"

definition key_of :: "conn \<Rightarrow> nat \<Rightarrow> string" where
  "key_of c w = c_key (calls c ! w)"

definition req :: "conn \<Rightarrow> nat \<Rightarrow> bool" where
  "req c w \<longleftrightarrow> c_request (calls c ! w)"

abbreviation ncalls :: "conn \<Rightarrow> nat" where
  "ncalls c \<equiv> length (calls c)"

lemmas views = ph_def box_def key_of_def req_def

lemma set_phase_views:
  assumes "w < ncalls c"
  shows "ph (set_phase i p c) w = (if w = i then p else ph c w)" "box (set_phase i p c) w = box c w"
    "key_of (set_phase i p c) w = key_of c w" "req (set_phase i p c) w = req c w"
  using assms by (auto simp: set_phase_def views nth_upd c_key_def)

lemma set_phase_frame [simp]:
  "ncalls (set_phase i p c) = ncalls c" "writer (set_phase i p c) = writer c"
  "pending (set_phase i p c) = pending c" "input (set_phase i p c) = input c"
  "reader_ops (set_phase i p c) = reader_ops c" "closers (set_phase i p c) = closers c"
  "next_id (set_phase i p c) = next_id c"
  by (simp_all add: set_phase_def)

lemma deliver_views:
  assumes "w < ncalls c"
  shows "ph (deliver i r c) w = ph c w" "box (deliver i r c) w = (if w = i then box c w @ [r] else box c w)"
    "key_of (deliver i r c) w = key_of c w" "req (deliver i r c) w = req c w"
  using assms by (auto simp: deliver_def views nth_upd c_key_def)

lemma deliver_frame [simp]:
  "ncalls (deliver i r c) = ncalls c" "writer (deliver i r c) = writer c"
  "pending (deliver i r c) = pending c" "input (deliver i r c) = input c"
  "reader_ops (deliver i r c) = reader_ops c" "closers (deliver i r c) = closers c"
  "next_id (deliver i r c) = next_id c"
  by (simp_all add: deliver_def)

lemma deliver_all_frame [simp]:
  "ncalls (deliver_all ws r c) = ncalls c" "writer (deliver_all ws r c) = writer c"
  "pending (deliver_all ws r c) = pending c" "input (deliver_all ws r c) = input c"
  "reader_ops (deliver_all ws r c) = reader_ops c" "closers (deliver_all ws r c) = closers c"
  "next_id (deliver_all ws r c) = next_id c"
  by (induction ws arbitrary: c) simp_all

lemma deliver_all_views:
  assumes "w < ncalls c" "distinct ws"
  shows "ph (deliver_all ws r c) w = ph c w"
    "box (deliver_all ws r c) w = (if w \<in> set ws then box c w @ [r] else box c w)"
    "key_of (deliver_all ws r c) w = key_of c w" "req (deliver_all ws r c) w = req c w"
  using assms by (induction ws arbitrary: c) (auto simp: deliver_views)

lemma fail_queued_frame [simp]:
  "ncalls (fail_queued q e c) = ncalls c" "writer (fail_queued q e c) = writer c"
  "pending (fail_queued q e c) = pending c" "input (fail_queued q e c) = input c"
  "reader_ops (fail_queued q e c) = reader_ops c" "closers (fail_queued q e c) = closers c"
  "next_id (fail_queued q e c) = next_id c"
  by (induction q arbitrary: c) simp_all

lemma fail_queued_views:
  assumes "w < ncalls c"
  shows "ph (fail_queued q e c) w = (if ph c w = Queued \<and> w \<in> set q then Failing e else ph c w)"
    "box (fail_queued q e c) w = box c w" "key_of (fail_queued q e c) w = key_of c w"
    "req (fail_queued q e c) w = req c w"
proof -
  have ph_eq: "(c_phase (calls c ! i) = Queued) = (ph c i = Queued)" for i c by (simp add: ph_def)
  show "ph (fail_queued q e c) w = (if ph c w = Queued \<and> w \<in> set q then Failing e else ph c w)"
    "box (fail_queued q e c) w = box c w" "key_of (fail_queued q e c) w = key_of c w"
    "req (fail_queued q e c) w = req c w"
    using assms by (induction q arbitrary: c) (auto simp: set_phase_views ph_eq)
qed

lemma fresh_views:
  assumes "w < Suc (ncalls c)"
  shows
    "ph (mint_request m p t c) w = (if w = ncalls c then Minted else ph c w)"
    "box (mint_request m p t c) w = (if w = ncalls c then [] else box c w)"
    "req (mint_request m p t c) w = (if w = ncalls c then True else req c w)"
    "key_of (mint_request m p t c) w = (if w = ncalls c then show_nat (unat (next_id c)) else key_of c w)"
    "ph (open_oneway l c) w = (if w = ncalls c then Registered else ph c w)"
    "box (open_oneway l c) w = (if w = ncalls c then [] else box c w)"
    "req (open_oneway l c) w = (if w = ncalls c then False else req c w)"
    "w \<noteq> ncalls c \<Longrightarrow> key_of (open_oneway l c) w = key_of c w"
  using assms by (auto simp: mint_request_def open_oneway_def views nth_append c_key_def)

lemma fresh_frame [simp]:
  "ncalls (mint_request m p t c) = Suc (ncalls c)" "ncalls (open_oneway l c) = Suc (ncalls c)"
  "pending (mint_request m p t c) = pending c" "pending (open_oneway l c) = pending c"
  "writer (mint_request m p t c) = writer c" "writer (open_oneway l c) = writer c"
  "input (mint_request m p t c) = input c" "input (open_oneway l c) = input c"
  "reader_ops (mint_request m p t c) = reader_ops c" "reader_ops (open_oneway l c) = reader_ops c"
  "closers (mint_request m p t c) = closers c" "closers (open_oneway l c) = closers c"
  by (simp_all add: mint_request_def open_oneway_def)

text \<open>Fields the views do not depend on.\<close>

lemma view_cong [simp]:
  "ph (c\<lparr>writer := b\<rparr>) w = ph c w" "box (c\<lparr>writer := b\<rparr>) w = box c w"
  "key_of (c\<lparr>writer := b\<rparr>) w = key_of c w" "req (c\<lparr>writer := b\<rparr>) w = req c w"
  "ph (c\<lparr>terminated := b\<rparr>) w = ph c w" "box (c\<lparr>terminated := b\<rparr>) w = box c w"
  "key_of (c\<lparr>terminated := b\<rparr>) w = key_of c w" "req (c\<lparr>terminated := b\<rparr>) w = req c w"
  "ph (c\<lparr>writer_live := b\<rparr>) w = ph c w" "box (c\<lparr>writer_live := b\<rparr>) w = box c w"
  "key_of (c\<lparr>writer_live := b\<rparr>) w = key_of c w" "req (c\<lparr>writer_live := b\<rparr>) w = req c w"
  "ph (c\<lparr>close_started := b\<rparr>) w = ph c w" "box (c\<lparr>close_started := b\<rparr>) w = box c w"
  "key_of (c\<lparr>close_started := b\<rparr>) w = key_of c w" "req (c\<lparr>close_started := b\<rparr>) w = req c w"
  "ph (c\<lparr>events_live := b\<rparr>) w = ph c w" "box (c\<lparr>events_live := b\<rparr>) w = box c w"
  "key_of (c\<lparr>events_live := b\<rparr>) w = key_of c w" "req (c\<lparr>events_live := b\<rparr>) w = req c w"
  "ph (c\<lparr>pending := m\<rparr>) w = ph c w" "box (c\<lparr>pending := m\<rparr>) w = box c w"
  "key_of (c\<lparr>pending := m\<rparr>) w = key_of c w" "req (c\<lparr>pending := m\<rparr>) w = req c w"
  "ph (c\<lparr>queue := q\<rparr>) w = ph c w" "box (c\<lparr>queue := q\<rparr>) w = box c w"
  "key_of (c\<lparr>queue := q\<rparr>) w = key_of c w" "req (c\<lparr>queue := q\<rparr>) w = req c w"
  "ph (c\<lparr>sent := l\<rparr>) w = ph c w" "box (c\<lparr>sent := l\<rparr>) w = box c w"
  "key_of (c\<lparr>sent := l\<rparr>) w = key_of c w" "req (c\<lparr>sent := l\<rparr>) w = req c w"
  "ph (c\<lparr>input := rs\<rparr>) w = ph c w" "box (c\<lparr>input := rs\<rparr>) w = box c w"
  "key_of (c\<lparr>input := rs\<rparr>) w = key_of c w" "req (c\<lparr>input := rs\<rparr>) w = req c w"
  "ph (c\<lparr>reader_ops := ops\<rparr>) w = ph c w" "box (c\<lparr>reader_ops := ops\<rparr>) w = box c w"
  "key_of (c\<lparr>reader_ops := ops\<rparr>) w = key_of c w" "req (c\<lparr>reader_ops := ops\<rparr>) w = req c w"
  "ph (c\<lparr>closers := ts\<rparr>) w = ph c w" "box (c\<lparr>closers := ts\<rparr>) w = box c w"
  "key_of (c\<lparr>closers := ts\<rparr>) w = key_of c w" "req (c\<lparr>closers := ts\<rparr>) w = req c w"
  "ph (c\<lparr>events := evs\<rparr>) w = ph c w" "box (c\<lparr>events := evs\<rparr>) w = box c w"
  "key_of (c\<lparr>events := evs\<rparr>) w = key_of c w" "req (c\<lparr>events := evs\<rparr>) w = req c w"
  by (simp_all add: views)

section \<open>Registered waiters\<close>

text \<open>A key in \<^verbatim>\<open>pending\<close> leads to the unfinished request with that id, and that request has no reply yet;
  no channel ever holds two replies.\<close>

definition waiting_entry :: "conn \<Rightarrow> string \<Rightarrow> nat \<Rightarrow> bool" where
  "waiting_entry c k w \<longleftrightarrow> w < ncalls c \<and> req c w \<and> key_of c w = k \<and> box c w = [] \<and>
     ph c w \<noteq> Minted \<and> (\<forall>r. ph c w \<noteq> Finished r)"

definition reg_inv :: "conn \<Rightarrow> bool" where
  "reg_inv c \<longleftrightarrow> distinct (map fst (pending c)) \<and>
     (\<forall>k w. hget (pending c) k = Some w \<longrightarrow> waiting_entry c k w) \<and>
     (\<forall>w < ncalls c. length (box c w) \<le> 1 \<and> (ph c w = Minted \<longrightarrow> box c w = [] \<and> req c w))"

definition unregistered :: "nat \<Rightarrow> conn \<Rightarrow> bool" where
  "unregistered i c \<longleftrightarrow> (\<forall>k. hget (pending c) k \<noteq> Some i)"

lemma reg_values:
  assumes "reg_inv c"
  shows "distinct (map snd (pending c))" "w \<in> snd ` set (pending c) \<longleftrightarrow> (\<exists>k. hget (pending c) k = Some w)"
proof -
  have d: "distinct (map fst (pending c))"
    and e: "\<And>k w. (k, w) \<in> set (pending c) \<Longrightarrow> key_of c w = k"
    using assms by (auto simp: reg_inv_def waiting_entry_def)
  have "inj_on snd (set (pending c))"
    using e by (intro inj_onI) (metis prod.collapse)
  then show "distinct (map snd (pending c))"
    using d by (simp add: distinct_map)
  show "w \<in> snd ` set (pending c) \<longleftrightarrow> (\<exists>k. hget (pending c) k = Some w)"
    using d by (force dest: map_of_SomeD)
qed

lemma distinct_hdel: "distinct (map fst m) \<Longrightarrow> distinct (map fst (hdel k m))"
  by (rule distinct_delete)

lemma distinct_hput: "distinct (map fst m) \<Longrightarrow> distinct (map fst (hput k v m))"
  by (rule distinct_update)

lemma reg_set_phase:
  assumes "reg_inv c" "p \<noteq> Minted" "\<And>r. p = Finished r \<Longrightarrow> unregistered i c"
  shows "reg_inv (set_phase i p c)"
  using assms by (auto simp: reg_inv_def waiting_entry_def set_phase_views unregistered_def)

lemma reg_open_phase: "reg_inv c \<Longrightarrow> p \<noteq> Minted \<Longrightarrow> \<forall>r. p \<noteq> Finished r \<Longrightarrow> reg_inv (set_phase i p c)"
  by (rule reg_set_phase) auto

lemma reg_hdel: "reg_inv c \<Longrightarrow> reg_inv (c\<lparr>pending := hdel k (pending c)\<rparr>)"
  by (auto simp: reg_inv_def waiting_entry_def distinct_hdel)

lemma reg_remove: "reg_inv c \<Longrightarrow> reg_inv (remove_pending i c)"
  by (simp add: remove_pending_def reg_hdel)

lemma unregistered_remove: "reg_inv c \<Longrightarrow> unregistered i (remove_pending i c)"
  by (auto simp: reg_inv_def waiting_entry_def remove_pending_def unregistered_def req_def key_of_def)

lemma remove_frame [simp]:
  "ncalls (remove_pending i c) = ncalls c" "writer (remove_pending i c) = writer c"
  "ph (remove_pending i c) w = ph c w" "box (remove_pending i c) w = box c w"
  "key_of (remove_pending i c) w = key_of c w" "req (remove_pending i c) w = req c w"
  "input (remove_pending i c) = input c" "reader_ops (remove_pending i c) = reader_ops c"
  "closers (remove_pending i c) = closers c" "next_id (remove_pending i c) = next_id c"
  by (simp_all add: remove_pending_def)

lemma reg_deliver:
  assumes "reg_inv c" "unregistered i c" "i < ncalls c" "box c i = []" "ph c i \<noteq> Minted"
  shows "reg_inv (deliver i r c)"
  using assms by (auto simp: reg_inv_def waiting_entry_def deliver_views unregistered_def)

lemma entryD: "reg_inv c \<Longrightarrow> hget (pending c) k = Some w \<Longrightarrow> waiting_entry c k w"
  by (simp add: reg_inv_def)

lemma reg_give: "reg_inv c \<Longrightarrow> reg_inv (give k r c)"
proof (cases "hget (pending c) k")
  case (Some w)
  assume r: "reg_inv c"
  have e: "waiting_entry c k w" using r Some by (rule entryD)
  have "unregistered w (c\<lparr>pending := hdel k (pending c)\<rparr>)"
    using r e by (auto simp: unregistered_def reg_inv_def waiting_entry_def)
  then have "reg_inv (deliver w r (c\<lparr>pending := hdel k (pending c)\<rparr>))" for r
    using reg_hdel [OF r] e by (intro reg_deliver) (auto simp: waiting_entry_def)
  then show ?thesis by (simp add: give_def Some)
qed (simp add: give_def)

lemma reg_drain: "reg_inv c \<Longrightarrow> reg_inv (drain reason c)"
proof -
  assume r: "reg_inv c"
  have v: "box c w = [] \<and> ph c w \<noteq> Minted" if "w \<in> snd ` set (pending c)" for w
    using that entryD [OF r] unfolding reg_values(2) [OF r] by (auto simp: waiting_entry_def)
  show ?thesis
    using r v reg_values(1) [OF r]
    by (auto simp: drain_def Let_def reg_inv_def deliver_all_views split: option.split)
qed

lemma reg_other:
  assumes "reg_inv c"
  shows "reg_inv (c\<lparr>closers := ts\<rparr>)" "reg_inv (c\<lparr>reader_ops := ops\<rparr>)" "reg_inv (c\<lparr>input := rs\<rparr>)"
    "reg_inv (c\<lparr>events := evs\<rparr>)" "reg_inv (c\<lparr>events_live := b\<rparr>)" "reg_inv (c\<lparr>queue := q\<rparr>)"
    "reg_inv (c\<lparr>writer_live := b\<rparr>)" "reg_inv (c\<lparr>sent := l\<rparr>)" "reg_inv (c\<lparr>writer := b\<rparr>)"
    "reg_inv (c\<lparr>terminated := b\<rparr>)" "reg_inv (c\<lparr>close_started := b\<rparr>)"
  using assms by (simp_all add: reg_inv_def waiting_entry_def)

lemma reg_exec: "reg_inv c \<Longrightarrow> exec x c = Some c' \<Longrightarrow> reg_inv c'"
  by (cases x) (auto simp: reg_give reg_drain reg_other split: if_splits)

lemma reg_fresh:
  assumes "reg_inv c"
  shows "reg_inv (mint_request m p t c)" "reg_inv (open_oneway l c)"
proof -
  have "waiting_entry (mint_request m p t c) k w \<and> waiting_entry (open_oneway l c) k w"
    if "hget (pending c) k = Some w" for k w
    using entryD [OF assms that] by (auto simp: waiting_entry_def fresh_views)
  with assms show "reg_inv (mint_request m p t c)" "reg_inv (open_oneway l c)"
    by (simp_all add: reg_inv_def fresh_views less_Suc_eq)
qed

lemma reg_register: "reg_inv c \<Longrightarrow> i < ncalls c \<Longrightarrow> ph c i = Minted \<Longrightarrow> reg_inv (register i c)"
  by (auto simp: reg_inv_def waiting_entry_def register_def set_phase_views distinct_hput key_of_def [symmetric]
      split: if_splits)

lemma reg_fail_queued: "reg_inv c \<Longrightarrow> reg_inv (fail_queued q e c)"
  by (auto simp: reg_inv_def waiting_entry_def fail_queued_views)

lemma oneway_unregistered: "reg_inv c \<Longrightarrow> \<not> req c i \<Longrightarrow> unregistered i c"
  by (auto simp: reg_inv_def waiting_entry_def unregistered_def)

lemma reg_write_ok: "reg_inv c \<Longrightarrow> reg_inv (write_ok i c)"
  unfolding write_ok_def Let_def
  by (auto intro!: reg_set_phase reg_other oneway_unregistered split: if_splits simp: req_def)

lemma replied_unregistered: "reg_inv c \<Longrightarrow> box c i \<noteq> [] \<Longrightarrow> unregistered i c"
  by (auto simp: reg_inv_def waiting_entry_def unregistered_def)

lemma reg_step: "cstep c c' \<Longrightarrow> reg_inv c \<Longrightarrow> reg_inv c'"
proof (induction rule: cstep.induct)
  case (receive i c r rs)
  then have "unregistered i c" by (intro replied_unregistered) (auto simp: box_def)
  with receive show ?case by (intro reg_set_phase) auto
next
  case (write_failed c m)
  then show ?case unfolding write_err_def by (simp add: reg_other reg_fail_queued)
next
  case (register i c)
  then show ?case by (intro reg_register) (simp_all add: at_phase_def ph_def)
next
  case (expiring i x ops c c')
  then show ?case using reg_exec by (intro reg_set_phase) auto
next
  case (closing t c x ops c')
  then show ?case using reg_exec reg_other(1) by blast
next
  case (reader c x ops c')
  then show ?case using reg_exec reg_other(2) by blast
qed (simp_all add: reg_fresh reg_open_phase reg_set_phase reg_other reg_give reg_remove reg_write_ok unregistered_remove)

section \<open>Nobody is left waiting\<close>

text \<open>In a thread's remaining operations every \<open>Take\<close> is followed by a \<open>Drain\<close>.\<close>

definition has_drain :: "op list \<Rightarrow> bool" where
  "has_drain ops \<longleftrightarrow> (\<exists>reason. Drain reason \<in> set ops)"

fun guarded :: "op list \<Rightarrow> bool" where
  "guarded [] = True"
| "guarded (x # ops) = ((x = Take \<longrightarrow> has_drain ops) \<and> guarded ops)"

text \<open>Some thread has a \<open>Drain\<close> ahead of it.\<close>

definition draining :: "conn \<Rightarrow> bool" where
  "draining c \<longleftrightarrow> has_drain (reader_ops c) \<or> (\<exists>ops \<in> set (closers c). has_drain ops) \<or>
     (\<exists>w < ncalls c. \<exists>ops. ph c w = Expiring ops \<and> has_drain ops)"

definition programs_ok :: "conn \<Rightarrow> bool" where
  "programs_ok c \<longleftrightarrow> guarded (reader_ops c) \<and> (\<forall>ops \<in> set (closers c). guarded ops) \<and>
     (\<forall>w < ncalls c. \<forall>ops. ph c w = Expiring ops \<longrightarrow> guarded ops)"

definition committed :: "phase \<Rightarrow> bool" where
  "committed p \<longleftrightarrow> p = Holding \<or> p = Queued \<or> p = Waiting"

definition live_inv :: "conn \<Rightarrow> bool" where
  "live_inv c \<longleftrightarrow> writer c \<or> draining c \<or> (\<forall>k w. hget (pending c) k = Some w \<longrightarrow> \<not> committed (ph c w))"

lemma programs_guarded [simp]:
  "guarded close_ops" "guarded write_timeout_ops" "guarded event_loop_closed" "guarded (reader_program rd)"
  "has_drain close_ops" "has_drain write_timeout_ops" "has_drain event_loop_closed"
  by (auto simp: close_ops_def write_timeout_ops_def event_loop_closed_def fail_pending_def has_drain_def)
     (cases rd rule: reader_program.cases; auto simp: host_closed_def has_drain_def)

lemma exec_frame:
  assumes "exec x c = Some c'"
  shows "ncalls c' = ncalls c" "reader_ops c' = reader_ops c" "closers c' = closers c" "input c' = input c"
    "w < ncalls c \<Longrightarrow> reg_inv c \<Longrightarrow> ph c' w = ph c w" "w < ncalls c \<Longrightarrow> reg_inv c \<Longrightarrow> key_of c' w = key_of c w"
    "w < ncalls c \<Longrightarrow> reg_inv c \<Longrightarrow> req c' w = req c w"
  using assms reg_values(1) [of c]
  by (cases x; auto simp: give_def drain_def Let_def deliver_views deliver_all_views split: option.splits if_splits)+

text \<open>An operation other than a \<open>Drain\<close> leaves \<open>pending\<close> without new entries and closes the writer only
  as a \<open>Take\<close>; a \<open>Drain\<close> empties \<open>pending\<close>.\<close>

lemma exec_pending:
  assumes "exec x c = Some c'"
  shows "hget (pending c') k = Some w \<Longrightarrow> hget (pending c) k = Some w" "x = Drain r \<Longrightarrow> pending c' = []"
    "x \<noteq> Take \<Longrightarrow> writer c' = writer c"
  using assms
  by (cases x; auto simp: give_def drain_def Let_def split: option.splits if_splits)+

lemma programs_exec:
  assumes "exec x c = Some c'" "reg_inv c" "programs_ok c"
  shows "programs_ok c'"
  using assms by (auto simp: programs_ok_def exec_frame)

lemma programs_phase:
  "programs_ok c \<Longrightarrow> \<forall>ops. p = Expiring ops \<longrightarrow> guarded ops \<Longrightarrow> programs_ok (set_phase i p c)"
  by (auto simp: programs_ok_def set_phase_views split: if_splits)

lemma programs_other:
  assumes "programs_ok c"
  shows "programs_ok (c\<lparr>input := rs\<rparr>)" "programs_ok (c\<lparr>events := evs\<rparr>)" "programs_ok (c\<lparr>events_live := b\<rparr>)"
    "programs_ok (c\<lparr>queue := q\<rparr>)" "programs_ok (c\<lparr>writer_live := b\<rparr>)" "programs_ok (c\<lparr>sent := l\<rparr>)"
    "programs_ok (c\<lparr>pending := m\<rparr>)" "programs_ok (remove_pending i c)" "programs_ok (fail_queued q0 e c)"
    "programs_ok (mint_request me pa t c)" "programs_ok (open_oneway li c)"
    "guarded ops \<Longrightarrow> programs_ok (c\<lparr>reader_ops := ops\<rparr>)"
  using assms by (auto simp: programs_ok_def fail_queued_views fresh_views less_Suc_eq split: if_splits)

lemma programs_closers: "programs_ok c \<Longrightarrow> guarded ops \<Longrightarrow> programs_ok (c\<lparr>closers := (closers c)[t := ops]\<rparr>)"
  using set_update_subset_insert [of "closers c" t ops] by (auto simp: programs_ok_def)

lemma programs_give: "reg_inv c \<Longrightarrow> programs_ok c \<Longrightarrow> programs_ok (give k r c)"
  using programs_exec [of "Give k r" c] by simp

lemma programs_write_ok: "programs_ok c \<Longrightarrow> programs_ok (write_ok i c)"
  by (simp add: write_ok_def Let_def programs_phase programs_other)

lemma programs_step: "cstep c c' \<Longrightarrow> reg_inv c \<Longrightarrow> programs_ok c \<Longrightarrow> programs_ok c'"
proof (induction rule: cstep.induct)
  case (expiring i x ops c c')
  then have "guarded ops" by (auto simp: programs_ok_def at_phase_def ph_def)
  with expiring show ?case using programs_exec by (intro programs_phase) auto
next
  case (closing t c x ops c')
  then have "guarded (x # ops)" by (metis programs_ok_def nth_mem)
  then show ?case using programs_closers [OF programs_exec [OF closing(3-5)], of ops t] exec_frame(3) [OF closing(3)] by simp
next
  case (reader c x ops c')
  then have "guarded ops" by (simp add: programs_ok_def)
  with reader show ?case using programs_exec programs_other(12) by blast
next
  case (reader_sends c line ops)
  then have "guarded ops" by (simp add: programs_ok_def)
  with reader_sends show ?case by (simp add: programs_other)
next
  case (close c)
  then show ?case by (simp add: programs_ok_def)
next
  case (write_failed c m)
  then show ?case by (simp add: write_err_def programs_other)
next
  case (read c rd rds)
  have "programs_ok ((c\<lparr>reader_ops := reader_program rd\<rparr>)\<lparr>input := rds\<rparr>)" using read by (simp add: programs_other)
  then show ?case by simp
next
  case (emits c ev ops)
  then have "programs_ok ((c\<lparr>reader_ops := ops\<rparr>)\<lparr>events := events c @ [ev]\<rparr>)"
    by (intro programs_other) (simp_all add: programs_ok_def)
  then show ?case by simp
next
  case (reader_sent c i ops r)
  then show ?case by (simp add: programs_ok_def)
qed (simp_all add: programs_phase programs_other programs_give programs_write_ok register_def)

text \<open>A thread that runs one of its operations.\<close>

lemma live_thread:
  assumes "live_inv c" "reg_inv c" "exec x c = Some c'" "x = Take \<Longrightarrow> has_drain ops"
    and "pending c'' = pending c'" "writer c'' = writer c'"
    and "\<And>w. w < ncalls c \<Longrightarrow> committed (ph c'' w) \<Longrightarrow> committed (ph c' w)"
    and "draining c \<Longrightarrow> has_drain [x] \<or> draining c''" "has_drain ops \<Longrightarrow> draining c''"
  shows "live_inv c''"
proof (cases "has_drain [x]")
  case True
  then have "pending c' = []" using exec_pending(2) [OF assms(3)] by (auto simp: has_drain_def)
  then show ?thesis using assms(5) by (simp add: live_inv_def)
next
  case False
  show ?thesis
  proof (cases "x = Take")
    case True
    then show ?thesis using assms by (simp add: live_inv_def)
  next
    case no_take: False
    have "\<not> committed (ph c'' w)" if none: "\<forall>k w. hget (pending c) k = Some w \<longrightarrow> \<not> committed (ph c w)"
      and e: "hget (pending c'') k = Some w" for k w
    proof -
      have old: "hget (pending c) k = Some w" using e exec_pending(1) [OF assms(3)] assms(5) by simp
      then have "w < ncalls c" using entryD [OF assms(2)] by (simp add: waiting_entry_def)
      then show ?thesis using none old assms(7) exec_frame(5) [OF assms(3) _ assms(2)] by fastforce
    qed
    then show ?thesis using assms(1,6,8) exec_pending(3) [OF assms(3) no_take] False by (auto simp: live_inv_def)
  qed
qed

text \<open>A step that changes the phase of one call.\<close>

lemma draining_phase:
  assumes "draining c" "i < ncalls c" "\<And>ops. ph c i = Expiring ops \<Longrightarrow> \<not> has_drain ops"
  shows "draining (set_phase i p c)"
proof -
  have "ph (set_phase i p c) w = Expiring ops" if "w < ncalls c" "ph c w = Expiring ops" "has_drain ops" for w ops
    using that assms(3) by (auto simp: set_phase_views)
  then show ?thesis using assms(1) unfolding draining_def set_phase_frame by blast
qed

lemma live_phase:
  assumes "live_inv c" "reg_inv c" "at_phase i q c" "\<And>ops. q = Expiring ops \<Longrightarrow> \<not> has_drain ops"
    and "committed p \<Longrightarrow> writer c \<or> committed q"
  shows "live_inv (set_phase i p c)"
proof -
  have i: "i < ncalls c" "ph c i = q" using assms(3) by (simp_all add: at_phase_def ph_def)
  have "ph (set_phase i p c) w = (if w = i then p else ph c w)" if "hget (pending c) k = Some w" for k w
    using entryD [OF assms(2) that] by (simp add: waiting_entry_def set_phase_views)
  then show ?thesis
    using assms(1,4,5) i draining_phase [of c i p] by (auto simp: live_inv_def split: if_splits)
qed

lemma live_phase_at:
  "live_inv c \<Longrightarrow> reg_inv c \<Longrightarrow> at_phase i (c_phase (calls c ! i)) c \<Longrightarrow>
   \<forall>ops. c_phase (calls c ! i) = Expiring ops \<longrightarrow> \<not> has_drain ops \<Longrightarrow>
   (committed p \<longrightarrow> writer c \<or> committed (c_phase (calls c ! i))) \<Longrightarrow> live_inv (set_phase i p c)"
  by (rule live_phase) auto

lemma live_cong:
  assumes "live_inv c" "writer c' = writer c" "draining c \<Longrightarrow> draining c'"
    and "\<And>k w. hget (pending c') k = Some w \<Longrightarrow> hget (pending c) k = Some w \<and> (committed (ph c' w) \<longrightarrow> committed (ph c w))"
  shows "live_inv c'"
  using assms unfolding live_inv_def by blast

lemma draining_same:
  assumes "draining c" "reader_ops c' = reader_ops c" "closers c' = closers c" "ncalls c \<le> ncalls c'"
    and "\<And>w. w < ncalls c \<Longrightarrow> ph c' w = ph c w"
  shows "draining c'"
  using assms unfolding draining_def by (metis order_less_le_trans)

lemma live_fresh:
  assumes "live_inv c" "reg_inv c"
  shows "live_inv (mint_request m p t c)" "live_inv (open_oneway l c)"
proof -
  have v: "ph (mint_request m p t c) w = ph c w \<and> ph (open_oneway l c) w = ph c w" if "w < ncalls c" for w
    using that by (simp add: fresh_views)
  have d: "draining c \<Longrightarrow> draining (mint_request m p t c)" "draining c \<Longrightarrow> draining (open_oneway l c)"
    using v by (auto intro: draining_same)
  have b: "w < ncalls c" if "hget (pending c) k = Some w" for k w
    using entryD [OF assms(2) that] by (simp add: waiting_entry_def)
  show "live_inv (mint_request m p t c)"
    by (rule live_cong [OF assms(1)]) (use d v b in auto)
  show "live_inv (open_oneway l c)"
    by (rule live_cong [OF assms(1)]) (use d v b in auto)
qed

lemma live_hdel:
  "live_inv c \<Longrightarrow> live_inv (c\<lparr>pending := hdel k (pending c)\<rparr>)" "live_inv c \<Longrightarrow> live_inv (remove_pending i c)"
  by (erule live_cong; auto simp: remove_pending_def draining_def split: if_splits)+

lemma live_other:
  assumes "live_inv c"
  shows "live_inv (c\<lparr>input := rs\<rparr>)" "live_inv (c\<lparr>events := evs\<rparr>)" "live_inv (c\<lparr>events_live := b\<rparr>)"
    "live_inv (c\<lparr>queue := q\<rparr>)" "live_inv (c\<lparr>writer_live := b\<rparr>)" "live_inv (c\<lparr>sent := l\<rparr>)"
  using assms by (auto simp: live_inv_def draining_def)

lemma at_phase_frame [simp]:
  "at_phase i p (c\<lparr>queue := q\<rparr>) = at_phase i p c" "at_phase i p (c\<lparr>sent := l\<rparr>) = at_phase i p c"
  "at_phase i p (c\<lparr>pending := m\<rparr>) = at_phase i p c" "at_phase i p (remove_pending i c) = at_phase i p c"
  by (simp_all add: at_phase_def remove_pending_def)

lemma set_phase_beyond: "ncalls c \<le> i \<Longrightarrow> set_phase i p c = c"
  by (cases c) (simp add: set_phase_def upd_call_def list_update_beyond)

lemma live_write_ok: "live_inv c \<Longrightarrow> reg_inv c \<Longrightarrow> live_inv (write_ok i c)"
proof -
  assume a: "live_inv c" "reg_inv c"
  let ?c = "c\<lparr>queue := tl (queue c), sent := sent c @ [c_line (calls c ! i)]\<rparr>"
  have l: "live_inv ?c" using live_other(6) [OF live_other(4) [OF a(1)]] by simp
  moreover have "reg_inv ?c" using reg_other(8) [OF reg_other(6) [OF a(2)]] by simp
  moreover have "at_phase i Queued ?c" if "c_phase (calls c ! i) = Queued" "i < ncalls c"
    using that by (simp add: at_phase_def)
  ultimately have "live_inv (set_phase i (if c_request (calls c ! i) then Waiting else Finished (Inr JNull)) ?c)"
    if "c_phase (calls c ! i) = Queued"
  proof (cases "i < ncalls c")
    case True
    with \<open>live_inv ?c\<close> \<open>reg_inv ?c\<close> that show ?thesis
      by (intro live_phase [where q = Queued]) (auto simp: committed_def at_phase_def)
  next
    case False
    with l show ?thesis by (simp add: set_phase_beyond)
  qed
  with l show ?thesis by (simp add: write_ok_def Let_def)
qed

lemma live_fail_queued: "live_inv c \<Longrightarrow> reg_inv c \<Longrightarrow> live_inv (fail_queued q e c)"
proof -
  assume l: "live_inv c" and r: "reg_inv c"
  have "ph (fail_queued q e c) w = Expiring ops" if "w < ncalls c" "ph c w = Expiring ops" for w ops
    using that by (simp add: fail_queued_views)
  then have "draining c \<Longrightarrow> draining (fail_queued q e c)"
    unfolding draining_def fail_queued_frame by blast
  moreover have "committed (ph c w)" if "hget (pending c) k = Some w" "committed (ph (fail_queued q e c) w)" for k w
    using that entryD [OF r that(1)] by (auto simp: waiting_entry_def fail_queued_views committed_def split: if_splits)
  ultimately show ?thesis using l by (intro live_cong [OF l]) auto
qed

lemma live_register:
  assumes "live_inv c" "reg_inv c" "at_phase i Minted c"
  shows "live_inv (register i c)"
proof -
  have i: "i < ncalls c" "ph c i = Minted" using assms(3) by (simp_all add: at_phase_def ph_def)
  have v: "ph (register i c) w = (if w = i then Registered else ph c w)" if "w < ncalls c" for w
    using that by (simp add: register_def set_phase_views)
  have "draining (register i c)" if "draining c"
    using draining_phase [OF that i(1), of Registered] i(2) by (simp add: register_def draining_def set_phase_def upd_call_def ph_def)
  moreover have "\<not> committed (ph (register i c) w)"
    if "\<forall>k w. hget (pending c) k = Some w \<longrightarrow> \<not> committed (ph c w)" "hget (pending (register i c)) k = Some w" for k w
  proof (cases "w = i")
    case True
    then show ?thesis using v i(1) by (simp add: committed_def)
  next
    case False
    then have "hget (pending c) k = Some w" using that(2) by (auto simp: register_def split: if_splits)
    then show ?thesis using that(1) v False entryD [OF assms(2)] by (auto simp: waiting_entry_def)
  qed
  moreover have "writer (register i c) = writer c" by (simp add: register_def)
  ultimately show ?thesis using assms(1) unfolding live_inv_def by metis
qed

text \<open>The reader moves on past an operation that is not a \<open>Drain\<close>.\<close>

lemma live_reader:
  assumes "live_inv c" "has_drain (reader_ops c) \<Longrightarrow> has_drain ops"
  shows "live_inv (c\<lparr>reader_ops := ops\<rparr>)"
  using assms by (auto simp: live_inv_def draining_def)

lemma live_expiring:
  assumes "live_inv c" "reg_inv c" "programs_ok c" "at_phase i (Expiring (x # ops)) c" "exec x c = Some c'"
  shows "live_inv (set_phase i (Expiring ops) c')"
proof (rule live_thread [OF assms(1,2,5), where ops = ops])
  have i: "i < ncalls c" "ph c i = Expiring (x # ops)" using assms(4) by (simp_all add: at_phase_def ph_def)
  have n: "ncalls c' = ncalls c" using exec_frame(1) [OF assms(5)] .
  have same: "ph c' w = ph c w" if "w < ncalls c" for w using exec_frame(5) [OF assms(5) that assms(2)] .
  show "has_drain ops" if "x = Take" using that assms(3) i by (auto simp: programs_ok_def)
  show "committed (ph c' w)" if "w < ncalls c" "committed (ph (set_phase i (Expiring ops) c') w)" for w
    using that n by (auto simp: set_phase_views committed_def split: if_splits)
  show new: "draining (set_phase i (Expiring ops) c')" if "has_drain ops"
    using that i n by (auto simp: draining_def set_phase_views)
  show "has_drain [x] \<or> draining (set_phase i (Expiring ops) c')" if d: "draining c"
  proof (cases "has_drain (x # ops)")
    case True
    then show ?thesis using new by (auto simp: has_drain_def)
  next
    case False
    then have "draining (set_phase i (Expiring ops) c)" using draining_phase [OF d i(1)] i(2) by simp
    then show ?thesis
      using draining_same [of "set_phase i (Expiring ops) c" "set_phase i (Expiring ops) c'"]
        exec_frame(2,3) [OF assms(5)] n same by (simp add: set_phase_views)
  qed
qed simp_all

lemma live_closing:
  assumes "live_inv c" "reg_inv c" "programs_ok c" "t < length (closers c)" "closers c ! t = x # ops" "exec x c = Some c'"
  shows "live_inv (c'\<lparr>closers := (closers c)[t := ops]\<rparr>)"
proof (rule live_thread [OF assms(1,2,6), where ops = ops])
  have g: "guarded (x # ops)" using assms(3-5) by (metis programs_ok_def nth_mem)
  then show "has_drain ops" if "x = Take" using that by simp
  have upd: "ops \<in> set ((closers c)[t := ops])" using assms(4) by (simp add: set_update_memI)
  then show new: "draining (c'\<lparr>closers := (closers c)[t := ops]\<rparr>)" if "has_drain ops" using that by (auto simp: draining_def)
  have others: "o' = x # ops \<or> o' \<in> set ((closers c)[t := ops])" if "o' \<in> set (closers c)" for o'
    using that assms(4,5) by (metis in_set_conv_nth length_list_update nth_list_update)
  show "has_drain [x] \<or> draining (c'\<lparr>closers := (closers c)[t := ops]\<rparr>)" if d: "draining c"
  proof -
    have ex: "reader_ops c' = reader_ops c" "ncalls c' = ncalls c" "\<And>w. w < ncalls c \<Longrightarrow> ph c' w = ph c w"
      using exec_frame [OF assms(6)] assms(2) by auto
    from d consider "has_drain (reader_ops c)" | o' where "o' \<in> set (closers c)" "has_drain o'"
      | w o' where "w < ncalls c" "ph c w = Expiring o'" "has_drain o'" unfolding draining_def by blast
    then show ?thesis
    proof cases
      case 1
      then show ?thesis using ex by (simp add: draining_def)
    next
      case 2
      then have "has_drain [x] \<or> has_drain ops" if "o' = x # ops" using that by (auto simp: has_drain_def)
      moreover have "draining (c'\<lparr>closers := (closers c)[t := ops]\<rparr>)" if "o' \<in> set ((closers c)[t := ops])"
        using that 2(2) by (auto simp: draining_def)
      ultimately show ?thesis using others [OF 2(1)] new by blast
    next
      case 3
      then have "draining (c'\<lparr>closers := (closers c)[t := ops]\<rparr>)" unfolding draining_def using ex by auto
      then show ?thesis ..
    qed
  qed
qed (simp_all add: exec_frame)

lemma live_step: "cstep c c' \<Longrightarrow> reg_inv c \<Longrightarrow> programs_ok c \<Longrightarrow> live_inv c \<Longrightarrow> live_inv c'"
proof (induction rule: cstep.induct)
  case (reader c x ops c')
  have n: "ncalls c' = ncalls c" "closers c' = closers c" "\<And>w. w < ncalls c \<Longrightarrow> ph c' w = ph c w"
    using exec_frame [OF reader(2)] reader(3) by auto
  show ?case
  proof (rule live_thread [OF reader(5,3,2), where ops = ops])
    show "has_drain ops" if "x = Take" using that reader(1,4) by (simp add: programs_ok_def)
    show "has_drain [x] \<or> draining (c'\<lparr>reader_ops := ops\<rparr>)" if "draining c"
    proof (cases "has_drain (reader_ops c)")
      case True
      then have "has_drain [x] \<or> has_drain ops" using reader(1) by (auto simp: has_drain_def)
      then show ?thesis by (auto simp: draining_def)
    next
      case False
      then show ?thesis using that n unfolding draining_def by auto
    qed
    show "draining (c'\<lparr>reader_ops := ops\<rparr>)" if "has_drain ops" using that by (simp add: draining_def)
  qed simp_all
next
  case (reader_sends c line ops)
  then show ?case using live_fresh(2) [of c line] by (intro live_reader) (auto simp: has_drain_def)
next
  case (nobody_listens c ev ops)
  then show ?case by (intro live_reader) simp_all
next
  case (read c rd rds)
  then have "live_inv ((c\<lparr>reader_ops := reader_program rd\<rparr>)\<lparr>input := rds\<rparr>)"
    by (intro live_other live_reader) (auto simp: has_drain_def)
  then show ?case by simp
next
  case (emits c ev ops)
  then have "live_inv ((c\<lparr>reader_ops := ops\<rparr>)\<lparr>events := events c @ [ev]\<rparr>)"
    by (intro live_other live_reader) (auto simp: has_drain_def)
  then show ?case by simp
next
  case (reader_sent c i ops r)
  then show ?case by (intro live_reader) (auto simp: has_drain_def)
next
  case (close c)
  then show ?case by (auto simp: live_inv_def draining_def)
next
  case (cancel i c)
  then show ?case
    using live_thread [of c "Give (c_key (calls c ! i)) Cancelled" "give (c_key (calls c ! i)) Cancelled c" "[]"
        "give (c_key (calls c ! i)) Cancelled c"]
      draining_same [of c "give (c_key (calls c ! i)) Cancelled c"]
      exec_frame [of "Give (c_key (calls c ! i)) Cancelled" c "give (c_key (calls c ! i)) Cancelled c"]
    by (simp add: has_drain_def)
next
  case (write_failed c m)
  then have "live_inv (((fail_queued (queue c) (WriteFailed m) c)\<lparr>queue := []\<rparr>)\<lparr>writer_live := False\<rparr>)"
    by (intro live_other live_fail_queued)
  then show ?case by (simp add: write_err_def)
next
  case (enqueue i c)
  then show ?case by (intro live_phase [where q = Holding]) (simp_all add: live_other reg_other committed_def)
next
  case (fail i e c)
  then show ?case by (intro live_phase [where q = "Failing e"]) (simp_all add: live_hdel reg_remove committed_def)
next
  case (forget i e c)
  then show ?case by (intro live_phase [where q = "GaveUp e"]) (simp_all add: live_hdel reg_remove committed_def)
next
  case (expired i c)
  then show ?case by (intro live_phase [where q = "Expiring []"]) (simp_all add: has_drain_def committed_def)
qed (simp_all add: live_fresh live_register live_expiring live_closing live_write_ok live_other
    live_phase_at [unfolded at_phase_def] at_phase_def committed_def)

section \<open>Where answers come from\<close>

fun from_host :: "reading list \<Rightarrow> string \<Rightarrow> reply \<Rightarrow> bool" where
  "from_host pre k (Closed reason) = True"
| "from_host pre k Cancelled = True"
| "from_host pre k r = (Act (Settle k r) \<in> set pre)"

fun answered :: "reading list \<Rightarrow> string \<Rightarrow> phase \<Rightarrow> bool" where
  "answered pre k (Finished (Inr v)) = (Act (Settle k (Result v)) \<in> set pre)"
| "answered pre k (Finished (Inl (Rpc e))) = (Act (Settle k (Error e)) \<in> set pre)"
| "answered pre k (GaveUp (Rpc e)) = False"
| "answered pre k p = True"

definition no_give :: "op list \<Rightarrow> bool" where
  "no_give ops \<longleftrightarrow> (\<forall>k r. Give k r \<notin> set ops)"

text \<open>\<open>pre\<close> is the part of the host's stream that the reader has taken.\<close>

definition prov_inv :: "reading list \<Rightarrow> conn \<Rightarrow> bool" where
  "prov_inv pre c \<longleftrightarrow>
     (\<forall>k r. Give k r \<in> set (reader_ops c) \<longrightarrow> from_host pre k r) \<and>
     (\<forall>w < ncalls c. \<forall>r \<in> set (box c w). from_host pre (key_of c w) r) \<and>
     (\<forall>w < ncalls c. req c w \<longrightarrow> answered pre (key_of c w) (ph c w)) \<and>
     (\<forall>ops \<in> set (closers c). no_give ops) \<and>
     (\<forall>w < ncalls c. \<forall>ops. ph c w = Expiring ops \<longrightarrow> no_give ops)"

lemma from_host_mono: "from_host pre k r \<Longrightarrow> from_host (pre @ rs) k r"
  by (cases r) auto

lemma answered_mono: "answered pre k p \<Longrightarrow> answered (pre @ rs) k p"
  by (cases "(pre, k, p)" rule: answered.cases) auto

lemma programs_no_give [simp]:
  "no_give close_ops" "no_give write_timeout_ops" "no_give event_loop_closed" "no_give []"
  by (auto simp: no_give_def close_ops_def write_timeout_ops_def event_loop_closed_def fail_pending_def)

lemma no_give_Cons [simp]: "no_give (x # ops) \<longleftrightarrow> (\<forall>k r. x \<noteq> Give k r) \<and> no_give ops"
  by (auto simp: no_give_def)

lemma reader_program_gives: "Give k r \<in> set (reader_program rd) \<Longrightarrow> rd = Act (Settle k r)"
  by (cases rd rule: reader_program.cases) (auto simp: host_closed_def split: if_splits)

lemma prov_phase:
  assumes "prov_inv pre c" "i < ncalls c \<and> req c i \<longrightarrow> answered pre (key_of c i) p" "\<forall>ops. p = Expiring ops \<longrightarrow> no_give ops"
  shows "prov_inv pre (set_phase i p c)"
  using assms by (auto simp: prov_inv_def set_phase_views split: if_splits)

lemma prov_box:
  assumes "prov_inv pre c" "ncalls c' = ncalls c" "reader_ops c' = reader_ops c" "closers c' = closers c"
    and "\<And>w. w < ncalls c \<Longrightarrow> ph c' w = ph c w \<and> key_of c' w = key_of c w \<and> req c' w = req c w"
    and "\<And>w r. w < ncalls c \<Longrightarrow> r \<in> set (box c' w) \<Longrightarrow> r \<in> set (box c w) \<or> from_host pre (key_of c w) r"
  shows "prov_inv pre c'"
proof -
  have "from_host pre (key_of c w) r" if "w < ncalls c" "r \<in> set (box c' w)" for w r
    using assms(6) [OF that] assms(1) that(1) by (auto simp: prov_inv_def)
  with assms(1-5) show ?thesis by (simp add: prov_inv_def)
qed

lemma give_box:
  assumes "reg_inv c" "w < ncalls c" "r' \<in> set (box (give k r c) w)"
  shows "r' \<in> set (box c w) \<or> r' = r \<and> key_of c w = k"
  using assms entryD [OF assms(1), of k] by (auto simp: give_def deliver_views waiting_entry_def split: option.splits if_splits)

lemma drain_box:
  assumes "reg_inv c" "w < ncalls c" "r' \<in> set (box (drain reason c) w)"
  shows "r' \<in> set (box c w) \<or> (\<exists>m. r' = Closed m)"
  using assms reg_values(1) [OF assms(1)]
  by (auto simp: drain_def Let_def deliver_all_views split: option.splits if_splits)

lemma exec_box:
  assumes "reg_inv c" "exec x c = Some c'" "w < ncalls c" "r' \<in> set (box c' w)" "\<And>k r. x = Give k r \<Longrightarrow> from_host pre k r"
  shows "r' \<in> set (box c w) \<or> from_host pre (key_of c w) r'"
proof (cases x)
  case (Drain reason)
  then show ?thesis using drain_box [OF assms(1,3), of r' reason] assms(2,4) by auto
next
  case (Give k r)
  then show ?thesis using give_box [OF assms(1,3), of r' k r] assms(2,4,5) by auto
qed (use assms in \<open>auto split: if_splits\<close>)

lemma prov_exec:
  assumes "prov_inv pre c" "reg_inv c" "exec x c = Some c'" "\<And>k r. x = Give k r \<Longrightarrow> from_host pre k r"
  shows "prov_inv pre c'"
  using exec_frame [OF assms(3)] assms(2) exec_box [OF assms(2,3) _ _ assms(4)]
  by (intro prov_box [OF assms(1)]) auto

lemma prov_fresh:
  assumes "prov_inv pre c"
  shows "prov_inv pre (mint_request m p t c)" "prov_inv pre (open_oneway l c)"
  using assms by (auto simp: prov_inv_def fresh_views less_Suc_eq)

lemma prov_other:
  assumes "prov_inv pre c"
  shows "prov_inv pre (c\<lparr>input := rs\<rparr>)" "prov_inv pre (c\<lparr>events := evs\<rparr>)" "prov_inv pre (c\<lparr>events_live := b\<rparr>)"
    "prov_inv pre (c\<lparr>queue := q\<rparr>)" "prov_inv pre (c\<lparr>writer_live := b\<rparr>)" "prov_inv pre (c\<lparr>sent := l\<rparr>)"
    "prov_inv pre (c\<lparr>pending := h\<rparr>)" "prov_inv pre (remove_pending i c)"
  using assms by (simp_all add: prov_inv_def)

lemma prov_fail_queued: "prov_inv pre c \<Longrightarrow> prov_inv pre (fail_queued q e c)"
  by (auto simp: prov_inv_def fail_queued_views split: if_splits)

lemma prov_mono: "prov_inv pre c \<Longrightarrow> prov_inv (pre @ rs) c"
  by (auto simp: prov_inv_def from_host_mono answered_mono)

lemma prov_reader:
  "prov_inv pre c \<Longrightarrow> \<forall>k r. Give k r \<in> set ops \<longrightarrow> from_host pre k r \<Longrightarrow> prov_inv pre (c\<lparr>reader_ops := ops\<rparr>)"
  by (simp add: prov_inv_def)

lemma prov_write_ok: "prov_inv pre c \<Longrightarrow> prov_inv pre (write_ok i c)"
  unfolding write_ok_def Let_def
  by (simp, intro conjI impI prov_phase; simp add: prov_inv_def req_def)

lemma wait_result_answered:
  "from_host pre (c_key k) r \<Longrightarrow> answered pre (c_key k) (Finished (wait_result k r))"
  by (cases r) simp_all

lemma prov_step:
  assumes "cstep c c'" "reg_inv c" "prov_inv pre c"
  shows "\<exists>pre'. input c = pre' @ input c' \<and> prov_inv (pre @ pre') c'"
  using assms
proof (induction rule: cstep.induct)
  case (read c rd rds)
  have "from_host (pre @ [rd]) k r" if "Give k r \<in> set (reader_program rd)" for k r
    using reader_program_gives [OF that] by (cases r) simp_all
  then have "prov_inv (pre @ [rd]) ((c\<lparr>reader_ops := reader_program rd\<rparr>)\<lparr>input := rds\<rparr>)"
    using prov_mono [OF read(4)] by (intro prov_other prov_reader) auto
  then show ?case using read(2) by (intro exI [of _ "[rd]"]) simp
next
  case (expiring i x ops c c')
  then have g: "no_give (x # ops)" by (auto simp: prov_inv_def at_phase_def ph_def)
  have "prov_inv pre c'" by (rule prov_exec [OF expiring(4,3,2)]) (use g in auto)
  then show ?case using g exec_frame(4) [OF expiring(2)] by (intro exI [of _ "[]"]) (simp add: prov_phase)
next
  case (closing t c x ops c')
  have "closers c ! t \<in> set (closers c)" using closing(1) by (rule nth_mem)
  with closing(5) have "no_give (closers c ! t)" unfolding prov_inv_def by blast
  with closing(2) have g: "no_give (x # ops)" by simp
  have p: "prov_inv pre c'" by (rule prov_exec [OF closing(5,4,3)]) (use g in auto)
  have "prov_inv pre (c'\<lparr>closers := (closers c)[t := ops]\<rparr>)"
    using p g set_update_subset_insert [of "closers c" t ops] exec_frame(3) [OF closing(3)] by (auto simp: prov_inv_def)
  then show ?case using exec_frame(4) [OF closing(3)] by (intro exI [of _ "[]"]) simp
next
  case (reader c x ops c')
  have "prov_inv pre c'"
    by (rule prov_exec [OF reader(4,3,2)]) (use reader(1,4) in \<open>auto simp: prov_inv_def\<close>)
  then have "prov_inv pre (c'\<lparr>reader_ops := ops\<rparr>)" using reader(1,4) by (intro prov_reader) (auto simp: prov_inv_def)
  then show ?case using exec_frame(4) [OF reader(2)] by (intro exI [of _ "[]"]) simp
next
  case (receive i c r rs)
  then have "i < ncalls c" "r \<in> set (box c i)" by (simp_all add: at_phase_def box_def)
  with receive(4) have "from_host pre (key_of c i) r" by (simp add: prov_inv_def)
  with receive show ?case
    by (intro exI [of _ "[]"]) (simp add: prov_phase wait_result_answered key_of_def)
next
  case (cancel i c)
  have "prov_inv pre (give (c_key (calls c ! i)) Cancelled c)"
    by (rule prov_exec [OF cancel(3,2), of "Give (c_key (calls c ! i)) Cancelled"]) auto
  then show ?case
    using exec_frame(4) [of "Give (c_key (calls c ! i)) Cancelled" c] by (intro exI [of _ "[]"]) simp
next
  case (write_failed c m)
  then have "prov_inv pre (((fail_queued (queue c) (WriteFailed m) c)\<lparr>queue := []\<rparr>)\<lparr>writer_live := False\<rparr>)"
    by (intro prov_other prov_fail_queued)
  then show ?case by (intro exI [of _ "[]"]) (simp add: write_err_def)
next
  case (written c i q)
  then show ?case by (intro exI [of _ "[]"]) (simp add: prov_write_ok, simp add: write_ok_def Let_def)
next
  case (reader_sends c line ops)
  then have "prov_inv pre ((open_oneway line c)\<lparr>reader_ops := Await (ncalls c) # ops\<rparr>)"
    by (intro prov_reader prov_fresh) (auto simp: prov_inv_def)
  then show ?case by (intro exI [of _ "[]"]) simp
next
  case (emits c ev ops)
  then have "prov_inv pre ((c\<lparr>reader_ops := ops\<rparr>)\<lparr>events := events c @ [ev]\<rparr>)"
    by (intro prov_other prov_reader) (auto simp: prov_inv_def)
  then show ?case by (intro exI [of _ "[]"]) simp
next
  case (nobody_listens c ev ops)
  then have "prov_inv pre (c\<lparr>reader_ops := event_loop_closed\<rparr>)"
    using programs_no_give(3) by (intro prov_reader) (auto simp: no_give_def)
  then show ?case by (intro exI [of _ "[]"]) simp
next
  case (reader_sent c i ops r)
  then have "prov_inv pre (c\<lparr>reader_ops := ops\<rparr>)" by (intro prov_reader) (auto simp: prov_inv_def)
  then show ?case by (intro exI [of _ "[]"]) simp
next
  case (close c)
  then show ?case by (intro exI [of _ "[]"]) (simp add: prov_inv_def)
next
  case (forget i e c)
  then have "answered pre (key_of c i) (Finished (Inl e))" if "req c i"
    using that by (cases e) (auto simp: prov_inv_def at_phase_def ph_def)
  with forget show ?case by (intro exI [of _ "[]"]) (simp add: prov_phase prov_other)
qed (rule exI [of _ "[]"], simp add: prov_phase prov_other prov_fresh register_def)+

section \<open>Request ids\<close>

text \<open>The ids of the requests in the order they were issued.\<close>

definition request_ids :: "conn \<Rightarrow> u64 list" where
  "request_ids c = map c_id (filter c_request (calls c))"

definition ids_inv :: "conn \<Rightarrow> bool" where
  "ids_inv c \<longleftrightarrow> request_ids c = map (\<lambda>n. 1 + of_nat n) [0..<length (request_ids c)] \<and>
     next_id c = 1 + of_nat (length (request_ids c))"

definition shape :: "conn \<Rightarrow> (u64 \<times> bool) list" where
  "shape c = map (\<lambda>k. (c_id k, c_request k)) (calls c)"

lemma request_ids_shape: "request_ids c = map fst (filter snd (shape c))"
  unfolding request_ids_def shape_def by (induction "calls c" arbitrary: c rule: list.induct) (simp_all add: filter_map comp_def)

lemma shape_upd:
  assumes "\<And>k. c_id (f k) = c_id k \<and> c_request (f k) = c_request k"
  shows "shape (upd_call i f c) = shape c"
proof (rule nth_equalityI)
  show "length (shape (upd_call i f c)) = length (shape c)" by (simp add: shape_def)
  show "shape (upd_call i f c) ! w = shape c ! w" if "w < length (shape (upd_call i f c))" for w
    using that assms by (simp add: shape_def nth_upd)
qed

lemma shape_parts [simp]:
  "shape (set_phase i p c) = shape c" "shape (deliver i r c) = shape c" "shape (deliver_all ws r c) = shape c"
  "shape (remove_pending i c) = shape c" "shape (fail_queued q e c) = shape c"
proof -
  show d: "shape (deliver i r c) = shape c" for i c by (simp add: deliver_def shape_upd)
  show p: "shape (set_phase i p c) = shape c" for i p c by (simp add: set_phase_def shape_upd)
  show "shape (deliver_all ws r c) = shape c" by (induction ws arbitrary: c) (simp_all add: d)
  show "shape (remove_pending i c) = shape c" by (simp add: remove_pending_def shape_def)
  show "shape (fail_queued q e c) = shape c" by (induction q arbitrary: c) (simp_all add: p)
qed

lemma shape_fields [simp]:
  "shape (c\<lparr>pending := h\<rparr>) = shape c" "shape (c\<lparr>queue := q\<rparr>) = shape c" "shape (c\<lparr>sent := l\<rparr>) = shape c"
  "shape (c\<lparr>writer_live := b\<rparr>) = shape c" "shape (c\<lparr>closers := ts\<rparr>) = shape c" "shape (c\<lparr>reader_ops := ops\<rparr>) = shape c"
  "shape (c\<lparr>input := rs\<rparr>) = shape c" "shape (c\<lparr>events := evs\<rparr>) = shape c" "shape (c\<lparr>events_live := b\<rparr>) = shape c"
  "shape (c\<lparr>writer := b\<rparr>) = shape c" "shape (c\<lparr>terminated := b\<rparr>) = shape c" "shape (c\<lparr>close_started := b\<rparr>) = shape c"
  by (simp_all add: shape_def)

lemma exec_shape: "exec x c = Some c' \<Longrightarrow> shape c' = shape c \<and> next_id c' = next_id c"
  by (cases x) (auto simp: give_def drain_def Let_def split: option.splits if_splits)

lemma ids_step: "cstep c c' \<Longrightarrow> ids_inv c \<Longrightarrow> ids_inv c'"
proof (induction rule: cstep.induct)
  case (mint c meth params timeout)
  then show ?case by (simp add: ids_inv_def request_ids_def mint_request_def)
next
  case (oneway c line)
  then show ?case by (simp add: ids_inv_def request_ids_def open_oneway_def)
next
  case (reader_sends c line ops)
  then show ?case by (simp add: ids_inv_def request_ids_def open_oneway_def)
next
  case (cancel i c)
  then show ?case
    using exec_shape [of "Give (c_key (calls c ! i)) Cancelled" c] by (simp add: ids_inv_def request_ids_shape)
qed (auto simp: ids_inv_def request_ids_shape register_def write_ok_def write_err_def Let_def dest!: exec_shape)

lemma ids_distinct: "ids_inv c \<Longrightarrow> length (request_ids c) \<le> 2 ^ 64 \<Longrightarrow> distinct (request_ids c)"
proof -
  assume i: "ids_inv c" and l: "length (request_ids c) \<le> 2 ^ 64"
  have "m = n" if "m < length (request_ids c)" "n < length (request_ids c)" "(of_nat m :: u64) = of_nat n" for m n
  proof -
    have "m < 2 ^ LENGTH(64)" "n < 2 ^ LENGTH(64)" using that l by simp_all
    then show ?thesis using that(3) by (metis word_of_nat_eq_iff take_bit_nat_eq_self)
  qed
  then have "distinct (map (\<lambda>n. 1 + of_nat n :: u64) [0..<length (request_ids c)])"
    by (auto simp: distinct_map inj_on_def)
  then show ?thesis using i by (simp add: ids_inv_def)
qed

end
