(* ===== verification/Client_Props.thy ===== *)
theory Client_Props
  imports Client_Inv
begin

text \<open>
  What callers of the connection can rely on in every reachable state, from the invariants of
  \<open>Client_Inv\<close>: waiters are settled once, a dead connection wakes them, and an answer reaches the request
  whose id it carries.
\<close>

section \<open>Properties of the connection\<close>

lemma reached_inv: "reached readings c \<Longrightarrow> reg_inv c \<and> programs_ok c \<and> live_inv c \<and> ids_inv c"
proof (induction rule: reached.induct)
  case start
  show ?case
    by (simp add: conn_new_def reg_inv_def programs_ok_def live_inv_def ids_inv_def request_ids_def)
next
  case (step c c')
  then show ?case using reg_step programs_step live_step ids_step by blast
qed

lemma reached_prov: "reached readings c \<Longrightarrow> \<exists>pre. readings = pre @ input c \<and> prov_inv pre c"
proof (induction rule: reached.induct)
  case start
  show ?case by (simp add: conn_new_def prov_inv_def)
next
  case (step c c')
  then obtain pre where pre: "readings = pre @ input c" "prov_inv pre c" by blast
  have "reg_inv c" using reached_inv [OF step(1)] by simp
  from prov_step [OF step(2) this pre(2)] pre(1) show ?case by (metis append_assoc)
qed

text \<open>A request for a demonstration, up to the state in which its frame is written.\<close>

definition demo_call :: host_call where
  "demo_call = \<lparr>c_id = 1, c_method = ''ping'', c_line = request_frame 1 ''ping'' ''{}'', c_request = True,
     c_timeout = 5, c_phase = Waiting, c_inbox = []\<rparr>"

definition demo_sent :: "reading list \<Rightarrow> conn" where
  "demo_sent readings =
     (conn_new readings)\<lparr>next_id := 2, pending := [(''1'', 0)], calls := [demo_call],
        sent := [request_frame 1 ''ping'' ''{}'']\<rparr>"

lemma show_one: "show_nat (Suc 0) = ''1''"
  by code_simp

lemma demo_reached: "reached readings (demo_sent readings)"
proof -
  let ?c = "mint_request ''ping'' ''{}'' 5 (conn_new readings)"
  let ?r = "register 0 ?c"
  let ?h = "set_phase 0 Holding ?r"
  let ?q = "set_phase 0 Queued (?h\<lparr>queue := queue ?h @ [0]\<rparr>)"
  have c: "reached readings ?c" by (rule reached.step [OF reached.start cstep.mint])
  have r: "reached readings ?r"
    by (rule reached.step [OF c cstep.register]) (simp add: at_phase_def mint_request_def conn_new_def)
  have h: "reached readings ?h"
    by (rule reached.step [OF r cstep.clone])
       (simp_all add: at_phase_def mint_request_def conn_new_def register_def set_phase_def upd_call_def)
  have q: "reached readings ?q"
    by (rule reached.step [OF h cstep.enqueue])
       (simp_all add: at_phase_def mint_request_def conn_new_def register_def set_phase_def upd_call_def)
  have "reached readings (write_ok 0 ?q)"
    by (rule reached.step [OF q cstep.written [where q = "[]"]])
       (simp_all add: mint_request_def conn_new_def register_def set_phase_def upd_call_def)
  moreover have "write_ok 0 ?q = demo_sent readings"
    by (simp add: write_ok_def Let_def mint_request_def conn_new_def register_def set_phase_def upd_call_def
        demo_sent_def demo_call_def c_key_def show_one)
  ultimately show ?thesis by simp
qed

text \<open>in every reachable state of the connection, whatever the interleaving of callers, writer, reader
  and closing threads, a key registered in \<^verbatim>\<open>pending\<close> belongs to exactly the unfinished request with that
  id and that request has no reply yet; and no reply channel ever carries two replies. So a finished
  request leaks no entry and a request is settled at most once.\<close>

theorem pending_holds_unsettled_requests:
  assumes "reached readings c"
  shows "(\<forall>(k, w) \<in> set (pending c). w < length (calls c) \<and> c_request (calls c ! w) \<and> c_key (calls c ! w) = k \<and>
      c_inbox (calls c ! w) = [] \<and> (\<forall>r. c_phase (calls c ! w) \<noteq> Finished r)) \<and>
    (\<forall>k \<in> set (calls c). length (c_inbox k) \<le> 1)"
proof -
  have r: "reg_inv c" using reached_inv [OF assms] by simp
  then have "distinct (map fst (pending c))" by (simp add: reg_inv_def)
  then have "waiting_entry c k w" if "(k, w) \<in> set (pending c)" for k w
    using that entryD [OF r] by simp
  moreover have "length (c_inbox k) \<le> 1" if "k \<in> set (calls c)" for k
    using that r by (auto simp: reg_inv_def box_def in_set_conv_nth)
  ultimately show ?thesis by (auto simp: waiting_entry_def views)
qed

theorem pending_holds_unsettled_requests_witness:
  "pending (demo_sent []) = [(''1'', 0)] \<and> c_key (calls (demo_sent []) ! 0) = ''1'' \<and> c_inbox (calls (demo_sent []) ! 0) = []"
proof -
  have "(''1'', 0) \<in> set (pending (demo_sent []))" by (simp add: demo_sent_def)
  with pending_holds_unsettled_requests [OF demo_reached [of "[]"]]
  have "c_key (calls (demo_sent []) ! 0) = ''1'' \<and> c_inbox (calls (demo_sent []) ! 0) = []" by blast
  then show ?thesis by (simp add: demo_sent_def)
qed

text \<open>C29: when the connection is dead (the writer is taken) and no thread has a drain left to do, every
  request that was written and is still waiting can return at once, with its reply or with
  \<^verbatim>\<open>HostClosed\<close>: nobody sleeps until the deadline. This rests on taking the writer before draining the
  waiters, and on registering a request before it looks for the writer.\<close>

theorem dead_connection_wakes_waiters:
  assumes "reached readings c" "\<not> writer c" "\<not> draining c" "at_phase i Waiting c"
  shows "\<exists>c'. cstep c c' \<and> ((\<exists>r. at_phase i (Finished r) c') \<or> at_phase i (GaveUp HostClosed) c')"
proof (cases "c_inbox (calls c ! i)")
  case (Cons r rs)
  from cstep.receive [OF assms(4) Cons] assms(4) show ?thesis
    by (intro exI [of _ "set_phase i (Finished (wait_result (calls c ! i) r)) c"])
       (auto simp: at_phase_def set_phase_def nth_upd)
next
  case Nil
  have inv: "reg_inv c" "live_inv c" using reached_inv [OF assms(1)] by simp_all
  have "committed (ph c i)" using assms(4) by (simp add: at_phase_def ph_def committed_def)
  then have "unregistered i c" using inv(2) assms(2,3) by (auto simp: live_inv_def unregistered_def)
  then have "disconnected i c" using Nil reg_values(2) [OF inv(1)] by (simp add: disconnected_def unregistered_def)
  from cstep.hang_up [OF assms(4) this] assms(4) show ?thesis
    by (intro exI [of _ "set_phase i (GaveUp HostClosed) c"]) (auto simp: at_phase_def set_phase_def nth_upd)
qed

lemma demo_closed: "reached [] ((drain (Some ''serve shutting down'') (demo_sent []))\<lparr>writer := False, close_started := True, closers := [[]]\<rparr>)"
proof -
  let ?c = "demo_sent []"
  let ?k = "?c\<lparr>closers := close_ops # closers ?c\<rparr>"
  let ?m = "(?k\<lparr>close_started := True\<rparr>)\<lparr>closers := (closers ?k)[0 := fail_pending ''serve shutting down'']\<rparr>"
  let ?t = "(?m\<lparr>writer := False\<rparr>)\<lparr>closers := (closers ?m)[0 := [Drain (Some ''serve shutting down'')]]\<rparr>"
  let ?d = "(drain (Some ''serve shutting down'') ?t)\<lparr>closers := (closers ?t)[0 := []]\<rparr>"
  have k: "reached [] ?k" by (rule reached.step [OF demo_reached cstep.close])
  have m: "reached [] ?m" by (rule reached.step [OF k cstep.closing [where x = MarkClosing]]) (simp_all add: close_ops_def)
  have t: "reached [] ?t" by (rule reached.step [OF m cstep.closing [where x = Take]])
      (simp_all add: fail_pending_def demo_sent_def conn_new_def)
  have "reached [] ?d" by (rule reached.step [OF t cstep.closing [where x = "Drain (Some ''serve shutting down'')"]])
      (simp_all add: demo_sent_def conn_new_def)
  moreover have "?d = (drain (Some ''serve shutting down'') ?c)\<lparr>writer := False, close_started := True, closers := [[]]\<rparr>"
    by (simp add: drain_def Let_def demo_sent_def conn_new_def deliver_def upd_call_def demo_call_def)
  ultimately show ?thesis by simp
qed

theorem dead_connection_wakes_waiters_witness:
  "\<exists>c c'. \<not> writer c \<and> at_phase 0 Waiting c \<and> cstep c c' \<and>
     ((\<exists>r. at_phase 0 (Finished r) c') \<or> at_phase 0 (GaveUp HostClosed) c')"
proof -
  let ?c = "(drain (Some ''serve shutting down'') (demo_sent []))\<lparr>writer := False, close_started := True, closers := [[]]\<rparr>"
  have "at_phase 0 Waiting ?c" "\<not> draining ?c" "\<not> writer ?c"
    by (auto simp: at_phase_def draining_def has_drain_def ph_def drain_def Let_def demo_sent_def conn_new_def
        deliver_def upd_call_def demo_call_def)
  with dead_connection_wakes_waiters [OF demo_closed, of 0] show ?thesis by blast
qed

section \<open>Answers on the stream\<close>

text \<open>A message in the host's stream that answers a key.\<close>

definition answers :: "string \<Rightarrow> string \<Rightarrow> J \<Rightarrow> J \<Rightarrow> bool" where
  "answers bytes key msg v \<longleftrightarrow>
     (\<exists>frame idv. sublist frame bytes \<and> utf8 frame \<and> parse_json (trim frame) = Inr msg \<and>
        jget msg ''id'' = Some idv \<and> j_to_string idv = key \<and> jget msg ''error'' = None \<and>
        unwrap_or (jget msg ''result'') JNull = v)"

lemma answers_sublist: "answers t key msg v \<Longrightarrow> sublist t s \<Longrightarrow> answers s key msg v"
  unfolding answers_def using sublist_order.order_trans by blast

lemma dispatch_result:
  "dispatch modes msg = Settle key (Result v) \<Longrightarrow>
   \<exists>idv. jget msg ''id'' = Some idv \<and> j_to_string idv = key \<and> jget msg ''error'' = None \<and>
     unwrap_or (jget msg ''result'') JNull = v"
  by (auto simp: dispatch_def Let_def split: option.splits if_splits)

lemma line_of_prefix: "prefix (line_of limit s) s"
  unfolding line_of_def Let_def by (metis prefix_order.trans take_is_prefix)

lemma reader_loop_answers:
  "Act (Settle key (Result v)) \<in> set (reader_loop limit modes s fin) \<Longrightarrow> \<exists>msg. answers s key msg v"
proof (induction limit modes s fin rule: reader_loop.induct)
  case (1 limit modes s fin)
  obtain kind frame rst where rf: "read_frame limit s fin = (kind, frame, rst)" by (cases "read_frame limit s fin")
  have parts: "frame = line_of limit s" "rst = drop (length frame) s"
    using rf by (auto simp: read_frame_def Let_def split: option.splits if_splits)
  have "prefix frame s" unfolding parts(1) by (rule line_of_prefix)
  then have fr: "sublist frame s" by (rule prefix_imp_sublist)
  have rst: "sublist rst s" unfolding parts(2) by (intro suffix_imp_sublist suffix_drop)
  have k: "kind = Complete" using 1(2) rf by (cases kind) (simp_all add: reader_loop.simps [of limit modes s fin])
  with 1(2) rf have "Act (Settle key (Result v)) \<in> set (read_line modes frame) \<union> set (reader_loop limit modes rst fin)"
    by (simp add: reader_loop.simps [of limit modes s fin])
  then show ?case
  proof
    assume "Act (Settle key (Result v)) \<in> set (read_line modes frame)"
    then obtain msg where "utf8 frame" "parse_json (trim frame) = Inr msg" "dispatch modes msg = Settle key (Result v)"
      by (auto simp: read_line_def Let_def split: if_splits sum.splits)
    then show ?thesis using fr dispatch_result unfolding answers_def by blast
  next
    assume "Act (Settle key (Result v)) \<in> set (reader_loop limit modes rst fin)"
    from 1(1) [OF rf [symmetric] k refl this] obtain msg where "answers rst key msg v" by blast
    then have "answers s key msg v" using rst by (rule answers_sublist)
    then show ?thesis ..
  qed
qed

text \<open>C30: a request that returns a result got it from a message of the host's stream that carries its own
  id and no error, and as long as at most \<open>2 ^ 64\<close> requests were issued no other request of the
  connection has that id: no answer is ever handed to the wrong caller.\<close>

theorem answers_reach_their_request:
  assumes "reached (reader_loop MAX_STDOUT_FRAME_BYTES modes bytes fin) c"
    and "i < length (calls c)" "c_request (calls c ! i)" "c_phase (calls c ! i) = Finished (Inr v)"
  shows "(\<exists>msg. answers bytes (show_nat (unat (c_id (calls c ! i)))) msg v) \<and>
    (length (request_ids c) \<le> 2 ^ 64 \<longrightarrow> distinct (request_ids c))"
proof -
  obtain pre where pre: "reader_loop MAX_STDOUT_FRAME_BYTES modes bytes fin = pre @ input c" "prov_inv pre c"
    using reached_prov [OF assms(1)] by blast
  have "answered pre (key_of c i) (ph c i)" using pre(2) assms(2,3) by (simp add: prov_inv_def req_def)
  then have "Act (Settle (key_of c i) (Result v)) \<in> set pre" using assms(4) by (simp add: ph_def)
  then have "Act (Settle (key_of c i) (Result v)) \<in> set (reader_loop MAX_STDOUT_FRAME_BYTES modes bytes fin)"
    using pre(1) by simp
  from reader_loop_answers [OF this] have "\<exists>msg. answers bytes (show_nat (unat (c_id (calls c ! i)))) msg v"
    by (simp add: key_of_def c_key_def)
  moreover have "ids_inv c" using reached_inv [OF assms(1)] by simp
  ultimately show ?thesis using ids_distinct by blast
qed

definition demo_answer :: J where
  "demo_answer = JObj [(''id'', JNum ''1''), (''result'', JBool True)]"

lemma demo_readings:
  "reader_loop MAX_STDOUT_FRAME_BYTES [] (stream_of [demo_answer]) None =
     [Act (Settle ''1'' (Result (JBool True))), Stop ''serve host stdout closed'']"
proof -
  have "json_number ''1''" unfolding json_number_def
    by (intro exI [of _ "[]"] exI [of _ "''1''"]) (simp add: digits_def is_digit_def)
  then have "list_all (sendable MAX_STDOUT_FRAME_BYTES) [demo_answer]"
    by (simp add: demo_answer_def sendable_def MAX_DEPTH_def MAX_STDOUT_FRAME_BYTES_def utf8_ascii esc_ascii quoted_def)
  from reader_loop_stream [OF this, of "[]" "[]" None] show ?thesis
    by (simp add: reader_loop_eof demo_answer_def dispatch_def)
qed

theorem answers_reach_their_request_witness:
  "\<exists>c msg. reached (reader_loop MAX_STDOUT_FRAME_BYTES [] (stream_of [demo_answer]) None) c \<and>
     c_phase (calls c ! 0) = Finished (Inr (JBool True)) \<and> answers (stream_of [demo_answer]) ''1'' msg (JBool True)"
proof -
  let ?rs = "reader_loop MAX_STDOUT_FRAME_BYTES [] (stream_of [demo_answer]) None"
  let ?c = "demo_sent ?rs"
  let ?a = "?c\<lparr>reader_ops := reader_program (Act (Settle ''1'' (Result (JBool True)))), input := [Stop ''serve host stdout closed'']\<rparr>"
  let ?b = "(give ''1'' (Result (JBool True)) ?a)\<lparr>reader_ops := []\<rparr>"
  let ?d = "set_phase 0 (Finished (wait_result (calls ?b ! 0) (Result (JBool True)))) ?b"
  have a: "reached ?rs ?a"
    by (rule reached.step [OF demo_reached cstep.read]) (simp_all add: demo_sent_def conn_new_def demo_readings)
  have b: "reached ?rs ?b" by (rule reached.step [OF a cstep.reader [where x = "Give ''1'' (Result (JBool True))"]]) simp_all
  have d: "reached ?rs ?d"
    by (rule reached.step [OF b cstep.receive [where rs = "[]"]])
       (simp_all add: at_phase_def give_def deliver_def upd_call_def demo_sent_def conn_new_def demo_call_def)
  have f: "0 < length (calls ?d)" "c_request (calls ?d ! 0)" "c_phase (calls ?d ! 0) = Finished (Inr (JBool True))"
    "c_id (calls ?d ! 0) = 1"
    by (simp_all add: set_phase_def give_def deliver_def upd_call_def demo_sent_def conn_new_def demo_call_def)
  have "show_nat (unat (1 :: u64)) = ''1''" by (simp add: show_one)
  with answers_reach_their_request [OF d f(1-3)] f(4) have "\<exists>msg. answers (stream_of [demo_answer]) ''1'' msg (JBool True)"
    by simp
  with d f(3) show ?thesis by blast
qed

end
