(* ===== verification/Host.thy ===== *)
theory Host
  imports Client
begin

text \<open>
  The host process around the connection: the \<^verbatim>\<open>initialize\<close> handshake (\<^verbatim>\<open>handshake.rs\<close>), how a host is
  launched (\<^verbatim>\<open>config.rs\<close>), what its exit means (\<^verbatim>\<open>exit.rs\<close>), the typed errors (\<^verbatim>\<open>error.rs\<close>) and the bounded
  tail of its standard error (\<^verbatim>\<open>process.rs\<close>), all of \<^verbatim>\<open>crates/muse-msp-client/src\<close>. Spawning, waiting for and
  killing the child are operating system calls; their results are arguments.
\<close>

section \<open>Handshake facts\<close>

definition ENVELOPE_SCHEMA_VERSION :: nat where
  "ENVELOPE_SCHEMA_VERSION = 1"

record handshake =
  server_name :: "string option"
  server_version :: "string option"
  schema_version :: "nat option"
  fingerprint :: "string option"
  durability :: "string option"
  granted_capabilities :: "string list"
  experimental_api :: "bool option"
  sandbox_availability :: "string option"
  sandbox_unavailable_reason :: "string option"
  hs_result :: J

definition text_of :: "J option \<Rightarrow> string option" where
  "text_of v = Option.bind v as_str"

definition jget_in :: "J option \<Rightarrow> string \<Rightarrow> J option" where
  "jget_in v k = Option.bind v (\<lambda>v. jget v k)"

definition from_result :: "J \<Rightarrow> handshake" where
  "from_result result =
     (let schema = jget result ''schema''; server = jget result ''serverInfo'' in
      \<lparr>server_name = text_of (jget_in server ''name''),
       server_version = text_of (jget_in server ''version''),
       schema_version = Option.bind (jget_in schema ''version'') as_u64,
       fingerprint = text_of (jget_in schema ''fingerprint''),
       durability = text_of (jget result ''sessionDurability''),
       granted_capabilities =
         (case jget result ''grantedCapabilities'' of Some (JArr caps) \<Rightarrow> List.map_filter as_str caps | _ \<Rightarrow> []),
       experimental_api = Option.bind (jget result ''experimentalApi'') as_bool,
       sandbox_availability = text_of (jget result ''sandboxAvailability''),
       sandbox_unavailable_reason = text_of (jget result ''sandboxUnavailableReason''),
       hs_result = result\<rparr>)"

definition granted :: "handshake \<Rightarrow> string \<Rightarrow> bool" where
  "granted h capability \<longleftrightarrow> capability \<in> set (granted_capabilities h)"

datatype session_durability = Durable | Ephemeral | OtherDurability string

definition session_durability_of :: "handshake \<Rightarrow> session_durability" where
  "session_durability_of h =
     (case durability h of
        None \<Rightarrow> Durable
      | Some d \<Rightarrow> if d = ''durable'' then Durable else if d = ''ephemeral'' then Ephemeral else OtherDurability d)"

definition is_durable :: "session_durability \<Rightarrow> bool" where
  "is_durable d \<longleftrightarrow> d = Durable"

definition release_number :: "string \<Rightarrow> nat option" where
  "release_number s = (if s = [] \<or> \<not> list_all is_digit s then None else parse_u64 s)"

text \<open>\<^verbatim>\<open>splitn(3, '.')\<close>: two separators, the rest whole.\<close>

definition parse_release :: "string \<Rightarrow> (nat \<times> nat \<times> nat) option" where
  "parse_release version =
     (case split_once version ''.'' of
        None \<Rightarrow> None
      | Some (p, r) \<Rightarrow>
          (case split_once r ''.'' of
             None \<Rightarrow> None
           | Some (q, rst) \<Rightarrow>
               Option.bind (release_number p) (\<lambda>major.
               Option.bind (release_number q) (\<lambda>minor.
               Option.bind (release_number (takeWhile is_digit rst)) (\<lambda>patch. Some (major, minor, patch))))))"

definition release :: "handshake \<Rightarrow> (nat \<times> nat \<times> nat) option" where
  "release h = Option.bind (server_version h) parse_release"

fun release_ge :: "nat \<times> nat \<times> nat \<Rightarrow> nat \<times> nat \<times> nat \<Rightarrow> bool" where
  "release_ge (a, b, c) (x, y, z) = (x < a \<or> x = a \<and> (y < b \<or> y = b \<and> z \<le> c))"

definition at_least :: "handshake \<Rightarrow> nat \<Rightarrow> nat \<Rightarrow> nat \<Rightarrow> bool" where
  "at_least h major minor patch =
     (case release h of Some r \<Rightarrow> release_ge r (major, minor, patch) | None \<Rightarrow> False)"

section \<open>The initialize exchange\<close>

record client_info =
  info_name :: string
  info_version :: string
  info_title :: "string option"

record capabilities =
  cap_experimental :: "bool option"
  cap_dialogs :: "bool option"
  cap_requested :: "string list"
  cap_opt_out :: "string list"

definition bool_text :: "bool \<Rightarrow> string" where
  "bool_text b = (if b then ''true'' else ''false'')"

definition name_list :: "string list \<Rightarrow> string" where
  "name_list names = join '','' (map esc names)"

definition capability_members :: "capabilities \<Rightarrow> string list" where
  "capability_members c =
     (case cap_experimental c of Some b \<Rightarrow> [member ''experimentalApi'' (bool_text b)] | None \<Rightarrow> []) @
     (case cap_dialogs c of Some b \<Rightarrow> [member ''userInputDialogs'' (bool_text b)] | None \<Rightarrow> []) @
     (if cap_requested c \<noteq> [] then [member ''requestedCapabilities'' (''['' @ name_list (cap_requested c) @ '']'')] else []) @
     (if cap_opt_out c \<noteq> [] then [member ''optOutNotificationMethods'' (''['' @ name_list (cap_opt_out c) @ '']'')] else [])"

definition initialize_params :: "client_info \<Rightarrow> capabilities \<Rightarrow> string" where
  "initialize_params info c =
     ''{'' @
       member_obj ''clientInfo''
         (member ''name'' (esc (info_name info)) @ '','' @ member ''version'' (esc (info_version info)) @
          (case info_title info of Some t \<Rightarrow> '','' @ member ''title'' (esc t) | None \<Rightarrow> [])) @ '','' @
       member_obj ''capabilities'' (join '','' (capability_members c)) @ ''}''"

definition default_check :: "handshake \<Rightarrow> string + unit" where
  "default_check h =
     (case schema_version h of
        Some v \<Rightarrow>
          if v \<noteq> ENVELOPE_SCHEMA_VERSION
          then Inl (''incompatible host schema: version='' @ show_nat v @ ''; this client speaks version '' @
                 show_nat ENVELOPE_SCHEMA_VERSION)
          else Inr ()
      | None \<Rightarrow> Inr ())"

datatype handshake_error = RequestFailed msp_error | Rejected string | InitializedFailed msp_error

record init_run =
  ir_stored :: "handshake option"
  ir_notified :: "string list"
  ir_result :: "handshake_error + handshake"

text \<open>\<open>reply\<close> is what the \<^verbatim>\<open>initialize\<close> request returned, \<open>check\<close> the caller's check (if any) and \<open>written\<close> the
  outcome of writing the notification.\<close>

definition initialize :: "(handshake \<Rightarrow> string + unit) option \<Rightarrow> msp_error + J \<Rightarrow> io_error option \<Rightarrow> init_run" where
  "initialize check reply written =
     (case reply of
        Inl e \<Rightarrow> \<lparr>ir_stored = None, ir_notified = [], ir_result = Inl (RequestFailed e)\<rparr>
      | Inr result \<Rightarrow>
          (let h = from_result result in
           case (case check of Some f \<Rightarrow> f h | None \<Rightarrow> default_check h) of
             Inl reason \<Rightarrow> \<lparr>ir_stored = Some h, ir_notified = [], ir_result = Inl (Rejected reason)\<rparr>
           | Inr _ \<Rightarrow>
               (case written of
                  Some e \<Rightarrow>
                    \<lparr>ir_stored = Some h, ir_notified = [notify_frame ''initialized'' ''{}''],
                     ir_result = Inl (InitializedFailed (WriteError e))\<rparr>
                | None \<Rightarrow>
                    \<lparr>ir_stored = Some h, ir_notified = [notify_frame ''initialized'' ''{}''], ir_result = Inr h\<rparr>)))"

section \<open>Launching\<close>

record host_flags =
  no_session_log :: bool
  disable_write :: bool
  disable_shell :: bool

definition flag_args :: "host_flags \<Rightarrow> string list" where
  "flag_args f =
     List.map_filter (\<lambda>(b, flag). then_some b flag)
       [(no_session_log f, ''--no-session-log''), (disable_write f, ''--disable-write''), (disable_shell f, ''--disable-shell'')]"

record launch_config =
  lc_program :: string
  lc_args :: "string list"
  lc_flags :: host_flags
  lc_env :: "(string \<times> string option) list"
  lc_env_clear :: bool
  lc_dir :: "string option"

definition launch_env :: "string \<Rightarrow> string \<Rightarrow> launch_config \<Rightarrow> launch_config" where
  "launch_env key v c = c\<lparr>lc_env := lc_env c @ [(key, Some v)]\<rparr>"

definition launch_env_remove :: "string \<Rightarrow> launch_config \<Rightarrow> launch_config" where
  "launch_env_remove key c = c\<lparr>lc_env := lc_env c @ [(key, None)]\<rparr>"

definition launch_env_clear :: "launch_config \<Rightarrow> launch_config" where
  "launch_env_clear c = c\<lparr>lc_env_clear := True, lc_env := []\<rparr>"

definition launch_argv :: "launch_config \<Rightarrow> string list" where
  "launch_argv c = lc_program c # ''serve'' # lc_args c @ flag_args (lc_flags c)"

text \<open>The environment of the child, from the one it would inherit.\<close>

definition launch_environment :: "launch_config \<Rightarrow> (string \<rightharpoonup> string) \<Rightarrow> string \<rightharpoonup> string" where
  "launch_environment c inherited =
     foldl (\<lambda>m (key, v). m(key := v)) (if lc_env_clear c then Map.empty else inherited) (lc_env c)"

section \<open>Exits\<close>

datatype exit_kind = CleanShutdown | UnhandledError | UsageError | ConfigError | LeaseUnavailable | SdkSurfaceUnavailable | Crash

record exit_classification =
  ex_kind :: exit_kind
  ex_code :: "int option"
  ex_signal :: "int option"
  ex_stderr :: string

definition retryable :: "exit_classification \<Rightarrow> bool" where
  "retryable e \<longleftrightarrow> ex_kind e = UnhandledError \<or> ex_kind e = Crash"

definition kind_name :: "exit_classification \<Rightarrow> string" where
  "kind_name e =
     (case ex_kind e of
        CleanShutdown \<Rightarrow> ''cleanShutdown'' | UnhandledError \<Rightarrow> ''unhandledError'' | UsageError \<Rightarrow> ''usageError''
      | ConfigError \<Rightarrow> ''configError'' | LeaseUnavailable \<Rightarrow> ''leaseUnavailable''
      | SdkSurfaceUnavailable \<Rightarrow> ''sdkSurfaceUnavailable'' | Crash \<Rightarrow> ''crash'')"

definition retry_advice :: "exit_classification \<Rightarrow> string" where
  "retry_advice e =
     (case ex_kind e of
        CleanShutdown \<Rightarrow> ''none'' | UnhandledError \<Rightarrow> ''retry'' | Crash \<Rightarrow> ''retry'' | UsageError \<Rightarrow> ''never''
      | SdkSurfaceUnavailable \<Rightarrow> ''never'' | ConfigError \<Rightarrow> ''fix-config'' | LeaseUnavailable \<Rightarrow> ''after-lease-release'')"

definition show_int :: "int \<Rightarrow> string" where
  "show_int i = (if i < 0 then CHR ''-'' # show_nat (nat (- i)) else show_nat (nat i))"

definition int_or_none :: "int option \<Rightarrow> string" where
  "int_or_none i = (case i of Some i \<Rightarrow> show_int i | None \<Rightarrow> ''none'')"

definition support_lines :: "string \<Rightarrow> exit_classification \<Rightarrow> string list" where
  "support_lines pre e =
     [pre @ '' kind='' @ kind_name e @ '' exit-code='' @ int_or_none (ex_code e) @ '' signal='' @
        int_or_none (ex_signal e) @ '' retry='' @ retry_advice e,
      pre @ '' stderr-bytes='' @ show_nat (length (ex_stderr e)) @ '' contents=omitted'']"

definition exit_display :: "exit_classification \<Rightarrow> string" where
  "exit_display e =
     (case ex_kind e of
        CleanShutdown \<Rightarrow> ''muse serve shut down cleanly (exit code 0)''
      | UnhandledError \<Rightarrow> ''muse serve stopped with an unhandled error (exit code 1)''
      | UsageError \<Rightarrow> ''muse serve rejected its arguments (exit code 2)''
      | ConfigError \<Rightarrow> ''muse serve rejected its configuration (exit code 3)''
      | LeaseUnavailable \<Rightarrow> ''muse serve could not start because another client holds its session lease (exit code 4)''
      | SdkSurfaceUnavailable \<Rightarrow> ''muse serve is unavailable because the Muse SDK surface is switched off (exit code 5)''
      | Crash \<Rightarrow>
          (case (ex_code e, ex_signal e) of
             (Some code, _) \<Rightarrow> ''muse serve crashed with exit code '' @ show_int code
           | (None, Some signal) \<Rightarrow> ''muse serve was terminated by signal '' @ show_int signal
           | (None, None) \<Rightarrow> ''muse serve stopped unexpectedly''))"

definition classify_exit_parts :: "int option \<Rightarrow> int option \<Rightarrow> string \<Rightarrow> exit_classification" where
  "classify_exit_parts code signal stderr =
     \<lparr>ex_kind =
        (if code = Some 0 then CleanShutdown else if code = Some 1 then UnhandledError
         else if code = Some 2 then UsageError else if code = Some 3 then ConfigError
         else if code = Some 4 then LeaseUnavailable else if code = Some 5 then SdkSurfaceUnavailable
         else Crash),
      ex_code = code, ex_signal = signal, ex_stderr = stderr\<rparr>"

section \<open>Typed errors\<close>

text \<open>\<^verbatim>\<open>str::parse::<i64>\<close>: an optional sign, at least one digit, and a value within 64 bits.\<close>

definition parse_i64 :: "string \<Rightarrow> int option" where
  "parse_i64 s =
     (let neg = prefix ''-'' s; d = (if neg \<or> prefix ''+'' s then tl s else s);
          v = (if neg then - int (dec_value d) else int (dec_value d)) in
      if d \<noteq> [] \<and> list_all is_digit d \<and> - (2 ^ 63) \<le> v \<and> v < 2 ^ 63 then Some v else None)"

fun error_code :: "msp_error \<Rightarrow> int option" where
  "error_code (Rpc e) = (case jget e ''code'' of Some (JNum n) \<Rightarrow> parse_i64 n | _ \<Rightarrow> None)"
| "error_code _ = None"

fun error_message :: "msp_error \<Rightarrow> string option" where
  "error_message (Rpc e) = Option.bind (jget e ''message'') as_str"
| "error_message _ = None"

fun error_kind :: "msp_error \<Rightarrow> string option" where
  "error_kind (Rpc e) = Option.bind (Option.bind (jget e ''data'') (\<lambda>d. jget d ''kind'')) as_str"
| "error_kind _ = None"

fun error_display :: "msp_error \<Rightarrow> string" where
  "error_display (Rpc e) =
     (case error_code (Rpc e) of
        Some code \<Rightarrow> ''host error '' @ show_int code @ '': '' @ unwrap_or (error_message (Rpc e)) ''unknown error''
      | None \<Rightarrow> ''host error: '' @ unwrap_or (error_message (Rpc e)) ''unknown error'')"
| "error_display (TimeoutError meth i ms) =
     ''serve command timed out after '' @ show_nat ms @ ''ms method='' @ meth @ '' id='' @ show_nat i"
| "error_display (CancelledError meth i) = ''request cancelled method='' @ meth @ '' id='' @ show_nat i"
| "error_display HostClosed = ''serve host closed the connection''"
| "error_display (ClosedError reason) = reason"
| "error_display (WriteError e) = ''serve write failed: '' @ io_message e"

fun handshake_error_display :: "handshake_error \<Rightarrow> string" where
  "handshake_error_display (RequestFailed e) = ''serve initialize failed: '' @ error_display e"
| "handshake_error_display (Rejected reason) = reason"
| "handshake_error_display (InitializedFailed (WriteError e)) = ''serve notify failed: '' @ io_message e"
| "handshake_error_display (InitializedFailed e) = ''serve notify failed: '' @ error_display e"

datatype launch_error =
    SpawnError string string
  | Startup string
  | HostExit exit_classification
  | HandshakeFailed handshake_error

fun launch_retryable :: "launch_error \<Rightarrow> bool" where
  "launch_retryable (SpawnError program e) = False"
| "launch_retryable (Startup m) = True"
| "launch_retryable (HostExit e) = retryable e"
| "launch_retryable (HandshakeFailed e) = (\<forall>reason. e \<noteq> Rejected reason)"

fun launch_error_display :: "launch_error \<Rightarrow> string" where
  "launch_error_display (SpawnError program e) = ''failed to spawn '' @ [CHR 0x27] @ program @ '' serve'' @ [CHR 0x27] @ '': '' @ e"
| "launch_error_display (Startup m) = m"
| "launch_error_display (HostExit e) = exit_display e"
| "launch_error_display (HandshakeFailed e) = handshake_error_display e"

text \<open>\<^verbatim>\<open>launch\<close> after a spawn: a host that exited during the handshake is reported by its exit (unless the
  handshake was rejected); otherwise the client is closed. \<open>reaped\<close> is what \<^verbatim>\<open>reap\<close> finds.\<close>

definition launch_outcome :: "handshake_error + handshake \<Rightarrow> exit_classification option \<Rightarrow> launch_error + handshake" where
  "launch_outcome r reaped =
     (case r of
        Inr h \<Rightarrow> Inr h
      | Inl e \<Rightarrow>
          (case (e, reaped) of
             (Rejected reason, _) \<Rightarrow> Inl (HandshakeFailed e)
           | (_, Some ex) \<Rightarrow> Inl (HostExit ex)
           | (_, None) \<Rightarrow> Inl (HandshakeFailed e)))"

section \<open>The tail of standard error\<close>

definition STDERR_MAX_BYTES :: nat where
  "STDERR_MAX_BYTES = 8 * 1024"

definition STDERR_MAX_LINES :: nat where
  "STDERR_MAX_LINES = 100"

text \<open>\<^verbatim>\<open>String::from_utf8_lossy\<close>: every maximal prefix of an ill-formed sequence becomes U+FFFD.\<close>

definition second_ok :: "char \<Rightarrow> char \<Rightarrow> bool" where
  "second_ok a b \<longleftrightarrow> is_cont b \<and> (ord a = 0xE0 \<longrightarrow> 0xA0 \<le> ord b) \<and> (ord a = 0xED \<longrightarrow> ord b < 0xA0) \<and>
     (ord a = 0xF0 \<longrightarrow> 0x90 \<le> ord b) \<and> (ord a = 0xF4 \<longrightarrow> ord b < 0x90)"

fun invalid_len :: "string \<Rightarrow> nat" where
  "invalid_len (a # b # r) =
     (if 0xE0 \<le> ord a \<and> ord a \<le> 0xF4 \<and> second_ok a b
      then (case r of c # _ \<Rightarrow> if 0xF0 \<le> ord a \<and> is_cont c then 3 else 2 | [] \<Rightarrow> 2)
      else 1)"
| "invalid_len _ = 1"

lemma invalid_len_pos: "0 < invalid_len s"
  by (cases s rule: invalid_len.cases) (auto split: list.splits)

function utf8_lossy :: "string \<Rightarrow> string" where
  "utf8_lossy s =
     (if s = [] then []
      else case utf8_next s of
             Some (c, r) \<Rightarrow> utf8_encode c @ utf8_lossy r
           | None \<Rightarrow> utf8_encode 0xFFFD @ utf8_lossy (drop (invalid_len s) s))"
  by pat_completeness auto
termination
  by (relation "measure length") (auto dest: utf8_next_shorter simp: invalid_len_pos)

declare utf8_lossy.simps [simp del]

definition line_count :: "string \<Rightarrow> nat" where
  "line_count t = count_list t line_feed + (if t \<noteq> [] \<and> last t \<noteq> line_feed then 1 else 0)"

text \<open>The loop that drops the oldest lines; it stops early when there is no newline left.\<close>

fun drop_lines :: "nat \<Rightarrow> string \<Rightarrow> string" where
  "drop_lines 0 t = t"
| "drop_lines (Suc n) t =
     (if line_feed \<in> set t then drop_lines n (drop (length (takeWhile (\<lambda>c. c \<noteq> line_feed) t) + 1) t) else t)"

definition is_char_boundary :: "string \<Rightarrow> nat \<Rightarrow> bool" where
  "is_char_boundary t i \<longleftrightarrow> i = 0 \<or> i = length t \<or> i < length t \<and> \<not> is_cont (t ! i)"

function next_boundary :: "string \<Rightarrow> nat \<Rightarrow> nat" where
  "next_boundary t i = (if i < length t \<and> \<not> is_char_boundary t i then next_boundary t (i + 1) else i)"
  by pat_completeness auto
termination
  by (relation "measure (\<lambda>(t, i). length t - i)") auto

declare next_boundary.simps [simp del]

definition tail_push :: "string \<Rightarrow> string \<Rightarrow> string" where
  "tail_push t bytes =
     (let t1 = t @ utf8_lossy bytes;
          t2 = drop_lines (line_count t1 - STDERR_MAX_LINES) t1 in
      if length t2 > STDERR_MAX_BYTES then drop (next_boundary t2 (length t2 - STDERR_MAX_BYTES)) t2 else t2)"

text \<open>Forwarding standard error as events: lines cut at the byte limit, the last carriage returns removed.\<close>

definition stderr_line :: "string \<Rightarrow> string" where
  "stderr_line l = rev (dropWhile (\<lambda>c. c = CHR 0x0D) (rev (utf8_lossy l)))"

fun forward_lines :: "string \<Rightarrow> string \<Rightarrow> string \<times> msp_event list" where
  "forward_lines line [] = (line, [])"
| "forward_lines line (b # bytes) =
     (if b = line_feed then
        (let (line', evs) = forward_lines [] bytes in (line', StderrLine (stderr_line line) # evs))
      else forward_lines (if length line < STDERR_MAX_BYTES then line @ [b] else line) bytes)"

section \<open>The tail is bounded\<close>

lemma utf8_lossy_utf8: "utf8 (utf8_lossy s)"
proof (induction s rule: utf8_lossy.induct)
  case (1 s)
  show ?case
  proof (cases "s = []")
    case True
    then show ?thesis by (simp add: utf8_lossy.simps [of "[]"])
  next
    case False
    show ?thesis
    proof (cases "utf8_next s")
      case None
      have "utf8 (utf8_encode 0xFFFD)" using utf8_of_chars [of "[0xFFFD]"] by (simp add: of_chars_def is_scalar_def)
      with 1 None False show ?thesis by (simp add: utf8_lossy.simps [of s])
    next
      case (Some p)
      then obtain c r where p: "utf8_next s = Some (c, r)" by (cases p) simp
      then have "is_scalar c" using utf8_next_sound by blast
      then have "utf8 (utf8_encode c)" using utf8_of_chars [of "[c]"] by (simp add: of_chars_def)
      with 1 p False show ?thesis by (simp add: utf8_lossy.simps [of s])
    qed
  qed
qed

lemma first_line: "line_feed \<in> set t \<Longrightarrow> \<exists>pre post. t = pre @ line_feed # post \<and> line_feed \<notin> set pre \<and>
    drop (length (takeWhile (\<lambda>c. c \<noteq> line_feed) t) + 1) t = post"
proof -
  assume "line_feed \<in> set t"
  then obtain pre post where t: "t = pre @ line_feed # post" "line_feed \<notin> set pre" by (metis split_list_first)
  have "takeWhile (\<lambda>c. c \<noteq> line_feed) t = pre"
    unfolding t(1) using t(2) by (subst takeWhile_append2) auto
  with t show ?thesis by auto
qed

lemma line_count_post: "line_feed \<notin> set pre \<Longrightarrow> line_count (pre @ line_feed # post) = Suc (line_count post)"
  by (auto simp: line_count_def count_list_0_iff)

lemma line_count_one: "line_feed \<notin> set t \<Longrightarrow> line_count t \<le> 1"
  by (simp add: line_count_def count_list_0_iff)

lemma drop_lines_count: "line_count (drop_lines n t) \<le> max 1 (line_count t - n)"
proof (induction n t rule: drop_lines.induct)
  case (2 n t)
  show ?case
  proof (cases "line_feed \<in> set t")
    case True
    then obtain pre post where t: "t = pre @ line_feed # post" "line_feed \<notin> set pre"
      and d: "drop (length (takeWhile (\<lambda>c. c \<noteq> line_feed) t) + 1) t = post" using first_line by blast
    then show ?thesis using 2 [OF True] True line_count_post [OF t(2), of post] by simp
  next
    case False
    then show ?thesis using line_count_one [OF False] by simp
  qed
qed simp

lemma drop_lines_suffix: "suffix (drop_lines n t) t"
proof (induction n t rule: drop_lines.induct)
  case (2 n t)
  then show ?case using suffix_order.order_trans [OF _ suffix_drop] by auto
qed simp

lemma drop_lines_utf8: "utf8 t \<Longrightarrow> utf8 (drop_lines n t)"
proof (induction n t rule: drop_lines.induct)
  case (2 n t)
  show ?case
  proof (cases "line_feed \<in> set t")
    case True
    then obtain pre post where t: "t = pre @ line_feed # post"
      and d: "drop (length (takeWhile (\<lambda>c. c \<noteq> line_feed) t) + 1) t = post" using first_line by blast
    have "utf8 post" using utf8_cut_ascii [of pre line_feed post] 2(2) t by simp
    then show ?thesis using 2(1) [OF True] True d by simp
  next
    case False
    with 2 show ?thesis by simp
  qed
qed simp

lemma line_count_suffix: "suffix s t \<Longrightarrow> line_count s \<le> line_count t"
  by (auto simp: line_count_def suffix_def)

lemma next_boundary_ge: "i \<le> next_boundary t i"
proof (induction t i rule: next_boundary.induct)
  case (1 t i)
  then show ?case by (subst next_boundary.simps) auto
qed

lemma next_boundary_is: "i \<le> length t \<Longrightarrow> is_char_boundary t (next_boundary t i)"
proof (induction t i rule: next_boundary.induct)
  case (1 t i)
  then show ?case by (subst next_boundary.simps) (auto simp: is_char_boundary_def)
qed

lemma cont_byte: "is_cont (char_of (0x80 + x mod 64 :: nat))"
proof -
  have "x mod 64 < 64" by simp
  then have "(0x80 + x mod 64) mod 256 = 0x80 + x mod 64" by simp
  then show ?thesis by (simp add: is_cont_def of_char_of)
qed

lemma encode_cont:
  assumes "0 < i" "i < length (utf8_encode c)"
  shows "is_cont (utf8_encode c ! i)"
proof -
  have "length (utf8_encode c) \<le> 4" by (simp add: utf8_encode_def)
  with assms have "i = 1 \<or> i = 2 \<or> i = 3" by linarith
  with assms(2) show ?thesis
    using cont_byte [of c] cont_byte [of "c div 64"] cont_byte [of "c div 4096"]
    by (elim disjE) (simp_all add: utf8_encode_def numeral_2_eq_2 numeral_3_eq_3 split: if_splits)
qed

lemma boundary_utf8: "list_all is_scalar cs \<Longrightarrow> is_char_boundary (of_chars cs) i \<Longrightarrow> utf8 (drop i (of_chars cs))"
proof (induction cs arbitrary: i)
  case (Cons c cs)
  let ?n = "length (utf8_encode c)"
  have s: "of_chars (c # cs) = utf8_encode c @ of_chars cs" by (rule of_chars_Cons)
  have all: "utf8 (of_chars (c # cs))" using Cons.prems(1) by (rule utf8_of_chars)
  show ?case
  proof (cases "i < ?n")
    case True
    have "i = 0"
    proof (rule ccontr)
      assume "i \<noteq> 0"
      with True Cons.prems(1) have "is_cont (of_chars (c # cs) ! i)" by (simp add: s nth_append encode_cont)
      with Cons.prems(2) True \<open>i \<noteq> 0\<close> show False by (simp add: is_char_boundary_def s)
    qed
    with all show ?thesis by simp
  next
    case False
    then have "is_char_boundary (of_chars cs) (i - ?n)"
      using Cons.prems(2) by (auto simp: is_char_boundary_def s nth_append)
    with Cons False show ?thesis by (simp add: s)
  qed
qed simp

lemma tail_push_good:
  assumes "utf8 t"
  shows "utf8 (tail_push t b) \<and> length (tail_push t b) \<le> STDERR_MAX_BYTES \<and>
    line_count (tail_push t b) \<le> STDERR_MAX_LINES \<and> suffix (tail_push t b) (t @ utf8_lossy b)"
proof -
  define t1 where "t1 = t @ utf8_lossy b"
  define t2 where "t2 = drop_lines (line_count t1 - STDERR_MAX_LINES) t1"
  define k where "k = next_boundary t2 (length t2 - STDERR_MAX_BYTES)"
  have u1: "utf8 t1" unfolding t1_def using assms utf8_lossy_utf8 by simp
  then have u2: "utf8 t2" unfolding t2_def by (rule drop_lines_utf8)
  have c2: "line_count t2 \<le> STDERR_MAX_LINES"
    using drop_lines_count [of "line_count t1 - STDERR_MAX_LINES" t1] unfolding t2_def by (simp add: STDERR_MAX_LINES_def)
  have s2: "suffix t2 t1" unfolding t2_def by (rule drop_lines_suffix)
  have b: "is_char_boundary t2 k" "length t2 - STDERR_MAX_BYTES \<le> k"
    unfolding k_def by (simp_all add: next_boundary_is next_boundary_ge)
  have uk: "utf8 (drop k t2)" using boundary_utf8 [of "chars t2" k] u2 b(1) by simp
  have "line_count (drop k t2) \<le> STDERR_MAX_LINES" using line_count_suffix [OF suffix_drop [of k t2]] c2 by simp
  moreover have "suffix (drop k t2) t1" using suffix_order.order_trans [OF suffix_drop s2] .
  moreover have "length (drop k t2) \<le> STDERR_MAX_BYTES" using b(2) by simp
  moreover have "tail_push t b = (if length t2 > STDERR_MAX_BYTES then drop k t2 else t2)"
    by (simp add: tail_push_def Let_def t1_def t2_def k_def)
  ultimately show ?thesis using u2 c2 s2 uk unfolding t1_def by simp
qed

text \<open>however a host writes to its standard error, the captured tail is valid UTF-8 of at most 8 KiB and
  100 lines, and it is the end of what the host wrote (decoded chunk by chunk).\<close>

theorem stderr_tail_bounded:
  "utf8 (foldl tail_push [] chunks) \<and> length (foldl tail_push [] chunks) \<le> STDERR_MAX_BYTES \<and>
   line_count (foldl tail_push [] chunks) \<le> STDERR_MAX_LINES \<and>
   suffix (foldl tail_push [] chunks) (concat (map utf8_lossy chunks))"
proof (induction chunks rule: rev_induct)
  case Nil
  show ?case by (simp add: line_count_def)
next
  case (snoc b chunks)
  let ?t = "foldl tail_push [] chunks"
  have "suffix (?t @ utf8_lossy b) (concat (map utf8_lossy chunks) @ utf8_lossy b)"
    using snoc.IH by (auto simp: suffix_def)
  moreover have p: "suffix (tail_push ?t b) (?t @ utf8_lossy b)" using tail_push_good [of ?t b] snoc.IH by simp
  ultimately have "suffix (tail_push ?t b) (concat (map utf8_lossy chunks) @ utf8_lossy b)"
    using suffix_order.order_trans by blast
  with tail_push_good [of ?t b] snoc.IH show ?case by simp
qed

section \<open>The handshake on the wire\<close>

text \<open>The capabilities as JSON members.\<close>

definition capability_json :: "capabilities \<Rightarrow> (string \<times> J) list" where
  "capability_json c =
     (case cap_experimental c of Some b \<Rightarrow> [(''experimentalApi'', JBool b)] | None \<Rightarrow> []) @
     (case cap_dialogs c of Some b \<Rightarrow> [(''userInputDialogs'', JBool b)] | None \<Rightarrow> []) @
     (if cap_requested c \<noteq> [] then [(''requestedCapabilities'', JArr (map JStr (cap_requested c)))] else []) @
     (if cap_opt_out c \<noteq> [] then [(''optOutNotificationMethods'', JArr (map JStr (cap_opt_out c)))] else [])"

definition initialize_json :: "client_info \<Rightarrow> capabilities \<Rightarrow> J" where
  "initialize_json info c =
     JObj [(''clientInfo'', JObj ([(''name'', JStr (info_name info)), (''version'', JStr (info_version info))] @
              (case info_title info of Some t \<Rightarrow> [(''title'', JStr t)] | None \<Rightarrow> []))),
           (''capabilities'', JObj (capability_json c))]"

lemma capability_members_json:
  "capability_members c = map (\<lambda>(k, v). esc k @ '':'' @ j_to_string v) (capability_json c)"
  by (simp add: capability_members_def capability_json_def member_def bool_text_def name_list_def esc_ascii comp_def
      split: option.split)

lemma initialize_params_print: "initialize_params info c = j_to_string (initialize_json info c)"
  by (simp add: initialize_params_def initialize_json_def capability_members_json member_def member_obj_def esc_ascii
      split: option.split)

definition info_ok :: "client_info \<Rightarrow> capabilities \<Rightarrow> bool" where
  "info_ok info c \<longleftrightarrow> utf8 (info_name info) \<and> utf8 (info_version info) \<and>
     (case info_title info of Some t \<Rightarrow> utf8 t | None \<Rightarrow> True) \<and>
     list_all utf8 (cap_requested c) \<and> list_all utf8 (cap_opt_out c)"

lemma names_depth: "foldr max (map (jdepth \<circ> JStr) names) 0 = 0"
  by (induction names) simp_all

lemma initialize_json_wf: "info_ok info c \<Longrightarrow> jwf (initialize_json info c) \<and> jdepth (initialize_json info c) \<le> MAX_DEPTH"
  by (auto simp: initialize_json_def capability_json_def info_ok_def MAX_DEPTH_def utf8_ascii list_all_iff names_depth
      split: option.splits)

text \<open>the parameters the client sends with \<^verbatim>\<open>initialize\<close> are one JSON object with the client info and
  exactly the configured capabilities, absent options and empty lists omitted.\<close>

theorem initialize_params_parse:
  assumes "info_ok info c"
  shows "parse_json (initialize_params info c) = Inr (initialize_json info c)"
  using parse_json_j_to_string initialize_json_wf [OF assms] by (simp add: initialize_params_print)

theorem initialize_params_parse_witness:
  "parse_json (initialize_params \<lparr>info_name = ''muse_acp'', info_version = ''1'', info_title = Some [CHR 0x22]\<rparr>
       \<lparr>cap_experimental = Some True, cap_dialogs = None, cap_requested = [''sessionMcp''], cap_opt_out = []\<rparr>) =
     Inr (JObj [(''clientInfo'', JObj [(''name'', JStr ''muse_acp''), (''version'', JStr ''1''), (''title'', JStr [CHR 0x22])]),
       (''capabilities'', JObj [(''experimentalApi'', JBool True), (''requestedCapabilities'', JArr [JStr ''sessionMcp''])])])"
  using initialize_params_parse [of "\<lparr>info_name = ''muse_acp'', info_version = ''1'', info_title = Some [CHR 0x22]\<rparr>"
      "\<lparr>cap_experimental = Some True, cap_dialogs = None, cap_requested = [''sessionMcp''], cap_opt_out = []\<rparr>"]
  by (simp add: info_ok_def utf8_ascii initialize_json_def capability_json_def)

section \<open>Releases\<close>

lemma split_once_digits: "list_all is_digit d \<Longrightarrow> split_once (d @ CHR ''.'' # r) ''.'' = Some (d, r)"
  by (induction d) (auto simp: is_digit_def)

lemma release_number_show: "n < 2 ^ 64 \<Longrightarrow> release_number (show_nat n) = Some n"
  using show_nat_digits [of n] parse_u64_show_nat [of n] by (simp add: release_number_def)

lemma takeWhile_digits: "suf = [] \<or> \<not> is_digit (hd suf) \<Longrightarrow> takeWhile is_digit (show_nat n @ suf) = show_nat n"
  using show_nat_digits [of n] by (intro takeWhile_all_then) auto

lemma parse_release_show:
  assumes "a < 2 ^ 64" "b < 2 ^ 64" "c < 2 ^ 64" "suf = [] \<or> \<not> is_digit (hd suf)"
  shows "parse_release (show_nat a @ ''.'' @ show_nat b @ ''.'' @ show_nat c @ suf) = Some (a, b, c)"
  using assms by (simp add: parse_release_def split_once_digits show_nat_digits takeWhile_digits release_number_show)

text \<open>a host that reports version \<open>a.b.c\<close>, with any build label after it, counts as at least release
  \<open>x.y.z\<close> exactly when \<open>(a, b, c)\<close> is not below \<open>(x, y, z)\<close> in lexicographic order.\<close>

theorem at_least_reads_release:
  assumes "a < 2 ^ 64" "b < 2 ^ 64" "c < 2 ^ 64" "suf = [] \<or> \<not> is_digit (hd suf)"
    and "server_version h = Some (show_nat a @ ''.'' @ show_nat b @ ''.'' @ show_nat c @ suf)"
  shows "at_least h x y z \<longleftrightarrow> \<not> (a < x \<or> a = x \<and> (b < y \<or> b = y \<and> c < z))"
  using parse_release_show [OF assms(1-4)] assms(5) by (auto simp: at_least_def release_def)

theorem at_least_reads_release_witness:
  "at_least ((from_result JNull)\<lparr>server_version := Some (show_nat 1 @ ''.'' @ show_nat 4 @ ''.'' @ show_nat 11 @ ''-R6667.1'')\<rparr>) 1 4 8"
  using at_least_reads_release [of 1 4 11 "''-R6667.1''"
      "(from_result JNull)\<lparr>server_version := Some (show_nat 1 @ ''.'' @ show_nat 4 @ ''.'' @ show_nat 11 @ ''-R6667.1'')\<rparr>" 1 4 8]
  by (simp add: is_digit_def)

section \<open>Gates and reports\<close>

text \<open>under the default check the \<^verbatim>\<open>initialized\<close> notification is sent exactly when the host answered
  \<^verbatim>\<open>initialize\<close> and reported no other envelope version than this client's; an accepted handshake is the
  stored one, and a rejected handshake is never retried or blamed on an exit.\<close>

theorem handshake_gate:
  assumes "r = initialize None reply written"
  shows "(ir_notified r \<noteq> [] \<longleftrightarrow>
      (\<exists>j. reply = Inr j \<and> (\<forall>v. schema_version (from_result j) = Some v \<longrightarrow> v = ENVELOPE_SCHEMA_VERSION))) \<and>
    (\<forall>h. ir_result r = Inr h \<longrightarrow> ir_stored r = Some h \<and> ir_notified r = [notify_frame ''initialized'' ''{}'']) \<and>
    (\<forall>reason ex. ir_result r = Inl (Rejected reason) \<longrightarrow>
       (\<exists>e. launch_outcome (ir_result r) ex = Inl e \<and> \<not> launch_retryable e))"
  using assms
  by (cases reply; cases written) (auto simp: initialize_def default_check_def launch_outcome_def Let_def split: option.splits if_splits)

theorem handshake_gate_witness:
  "ir_notified (initialize None (Inr (JObj [(''schema'', JObj [(''version'', JNum ''2'')])])) None) = []"
  using handshake_gate [OF refl, of "Inr (JObj [(''schema'', JObj [(''version'', JNum ''2'')])])" None]
  by (simp add: from_result_def Let_def jget_in_def ENVELOPE_SCHEMA_VERSION_def parse_u64_def strip_prefix_def is_digit_def dec_value_def)

text \<open>what a host exit is classified as, the advice and the support lines depend on the exit code and
  the signal alone; of the captured standard error only its length is reported. A relaunch is allowed
  exactly when the advice says so.\<close>

theorem exit_reports_omit_stderr:
  assumes "length err = length err'"
  shows "support_lines pre (classify_exit_parts code signal err) = support_lines pre (classify_exit_parts code signal err') \<and>
    exit_display (classify_exit_parts code signal err) = exit_display (classify_exit_parts code signal err') \<and>
    (retryable (classify_exit_parts code signal err) \<longleftrightarrow> retry_advice (classify_exit_parts code signal err) = ''retry'') \<and>
    (retryable (classify_exit_parts code signal err) \<longleftrightarrow> code \<notin> {Some 0, Some 2, Some 3, Some 4, Some 5})"
  using assms
  by (auto simp: support_lines_def exit_display_def classify_exit_parts_def kind_name_def retry_advice_def retryable_def)

theorem exit_reports_omit_stderr_witness:
  "support_lines ''p'' (classify_exit_parts (Some 5) None ''token'') = support_lines ''p'' (classify_exit_parts (Some 5) None ''other'')"
  using exit_reports_omit_stderr [of "''token''" "''other''" "''p''" "Some 5" None] by simp

end
