(* ===== verification/Reviewer_Props.thy ===== *)
theory Reviewer_Props
  imports Reviewer
begin

text \<open>
  Properties of the review agent: untrusted evidence cannot add a line to the prompt, an allowing verdict
  needs either an explicit verdict line or a JSON decision with all its evidence, the scan finds the
  printed decisions of a reply in order, and excerpts are short single lines.
\<close>

section \<open>Evidence lines\<close>

text \<open>A character that may stand in an evidence line.\<close>

definition plain_evidence :: "scalar \<Rightarrow> bool" where
  "plain_evidence c \<longleftrightarrow> \<not> is_control c \<and> \<not> evidence_format c \<and> (is_whitespace c \<longrightarrow> c = 0x20)"

lemma plain_ascii: "0x20 \<le> c \<Longrightarrow> c < 0x7F \<Longrightarrow> plain_evidence c"
  by (auto simp: plain_evidence_def is_control_def evidence_format_def is_whitespace_def)

lemma plain_chars_ascii:
  "list_all (\<lambda>a. 0x20 \<le> ord a \<and> ord a < 0x7F) s \<Longrightarrow> utf8 s \<and> list_all plain_evidence (chars s)"
proof -
  assume a: "list_all (\<lambda>a. 0x20 \<le> ord a \<and> ord a < 0x7F) s"
  then have "list_all (\<lambda>a. ord a < 128) s" by (auto simp: list_all_iff)
  with a show ?thesis by (auto simp: utf8_ascii chars_ascii list_all_iff plain_ascii)
qed

lemma evidence_char_plain: "is_scalar c \<Longrightarrow> utf8 (evidence_char c) \<and> list_all plain_evidence (chars (evidence_char c))"
proof -
  assume sc: "is_scalar c"
  have "list_all (\<lambda>a. 0x20 \<le> ord a \<and> ord a < 0x7F) (code_escape c)"
    using show_hex_printable [of c] by (auto simp: code_escape_def pad0_def list_all_iff)
  note code = plain_chars_ascii [OF this]
  have small: "utf8 s \<and> list_all plain_evidence (chars s)" if "s \<in> {'' '', [CHR 0x5C, CHR ''n''], [CHR 0x5C, CHR ''r'']}" for s
    using that by (intro plain_chars_ascii) auto
  have own: "utf8 (utf8_encode c) \<and> list_all plain_evidence (chars (utf8_encode c))"
    if "\<not> evidence_format c" "\<not> is_control c" "\<not> is_whitespace c"
    using that sc by (simp add: utf8_encode_utf8 chars_encode plain_evidence_def)
  consider "c \<in> {32, 10, 13, 9}" | "c \<notin> {32, 10, 13, 9}" "evidence_format c \<or> is_control c \<or> is_whitespace c"
    | "c \<notin> {32, 10, 13, 9}" "\<not> evidence_format c" "\<not> is_control c" "\<not> is_whitespace c" by blast
  then show ?thesis
  proof cases
    case 1
    then show ?thesis using small by (auto simp: evidence_char_def)
  next
    case 2
    then have "evidence_char c = code_escape c" by (auto simp: evidence_char_def)
    with code show ?thesis by simp
  next
    case 3
    then have "evidence_char c = utf8_encode c" by (simp add: evidence_char_def)
    with own 3 show ?thesis by simp
  qed
qed

lemma concat_plain:
  "(\<And>x. x \<in> set xs \<Longrightarrow> utf8 x \<and> list_all plain_evidence (chars x)) \<Longrightarrow>
   utf8 (concat xs) \<and> list_all plain_evidence (chars (concat xs))"
  by (induction xs) (auto simp: chars_append)

lemma evidence_line_plain: "utf8 (evidence_line e) \<and> list_all plain_evidence (chars (evidence_line e))"
proof -
  have "utf8 (concat (map evidence_char (chars e))) \<and> list_all plain_evidence (chars (concat (map evidence_char (chars e))))"
    using evidence_char_plain chars_scalar [of e] by (intro concat_plain) (auto simp: list_all_iff)
  moreover have "utf8 ''- '' \<and> list_all plain_evidence (chars ''- '')" by (rule plain_chars_ascii) simp
  ultimately show ?thesis unfolding evidence_line_def by (metis utf8_append chars_append list_all_append)
qed

lemma plain_no_newline:
  assumes "utf8 s" "list_all plain_evidence (chars s)"
  shows "line_feed \<notin> set s"
proof
  assume "line_feed \<in> set s"
  then have "line_feed \<in> set (of_chars (chars s))" using assms(1) by simp
  then obtain c where c: "c \<in> set (chars s)" "line_feed \<in> set (utf8_encode c)" by (auto simp: of_chars_def)
  then have "is_scalar c" using chars_scalar [of s] by (auto simp: list_all_iff)
  then have "utf8_encode c = [line_feed]" using encode_no_ascii [OF _ c(2)] by simp
  then have "c = 0x0A" using chars_encode [OF \<open>is_scalar c\<close>] by (simp add: chars_ascii)
  then show False using assms(2) c(1) by (auto simp: list_all_iff plain_evidence_def is_control_def)
qed

text \<open>The lines of a text, as its line feeds separate them.\<close>

fun split_lf :: "string \<Rightarrow> string list" where
  "split_lf [] = [[]]"
| "split_lf (c # s) = (if c = line_feed then [] # split_lf s else (case split_lf s of l # ls \<Rightarrow> (c # l) # ls | [] \<Rightarrow> [[c]]))"

lemma split_some: "split_lf s \<noteq> []"
  by (induction s) (auto split: list.splits)

lemma split_line: "line_feed \<notin> set l \<Longrightarrow> split_lf (l @ line_feed # s) = l # split_lf s"
  by (induction l) auto

lemma split_after: "split_lf (s @ line_feed # t) = split_lf s @ split_lf t"
proof (induction s)
  case (Cons c s)
  obtain l ls where "split_lf s = l # ls" using split_some [of s] by (cases "split_lf s") simp_all
  with Cons show ?case by simp
qed simp

lemma split_entries:
  assumes "\<And>e. line_feed \<notin> set (line e)"
  shows "split_lf (concat (map (\<lambda>e. line e @ [line_feed]) es) @ t) = map line es @ split_lf t"
  using assms by (induction es) (simp_all add: split_line)

text \<open>Characters by which an entry could pass for something else: all that Unicode calls line breaks, the other
  control characters, the controls of writing direction, and the zero-width space, joiners and
  no-break space.\<close>

definition line_breaks :: "scalar set" where
  "line_breaks = {0x0A, 0x0B, 0x0C, 0x0D, 0x85, 0x2028, 0x2029}"

definition control_codes :: "scalar set" where
  "control_codes = {0 ..< 0x20} \<union> {0x7F ..< 0xA0}"

definition direction_controls :: "scalar set" where
  "direction_controls = {0x061C, 0x200E, 0x200F, 0x202A, 0x202B, 0x202C, 0x202D, 0x202E, 0x2066, 0x2067, 0x2068, 0x2069}"

definition zero_widths :: "scalar set" where
  "zero_widths = {0x200B, 0x200C, 0x200D, 0xFEFF}"

lemma plain_evidence_shows:
  assumes "plain_evidence c"
  shows "c \<notin> line_breaks \<union> control_codes \<union> direction_controls \<union> zero_widths"
proof -
  note defs = plain_evidence_def is_control_def evidence_format_def is_whitespace_def
  have "\<not> plain_evidence x" if "x \<in> line_breaks" for x
    using that unfolding line_breaks_def by (elim insertE emptyE) (simp_all add: defs)
  moreover have "\<not> plain_evidence x" if "x \<in> control_codes" for x
    using that by (auto simp: control_codes_def plain_evidence_def is_control_def)
  moreover have "\<not> plain_evidence x" if "x \<in> direction_controls" for x
    using that unfolding direction_controls_def by (elim insertE emptyE) (simp_all add: defs)
  moreover have "\<not> plain_evidence x" if "x \<in> zero_widths" for x
    using that unfolding zero_widths_def by (elim insertE emptyE) (simp_all add: defs)
  ultimately show ?thesis using assms by blast
qed

lemma head_ends: "\<exists>h. prompt_head trusted = h @ [line_feed]"
  unfolding prompt_head_def by (simp add: unlines_def)

text \<open>C33: whatever the transcript holds, its entries add lines to the reviewer's prompt at one place, which
  depends on the trusted instructions alone, and one line for each entry; all other lines are those of the prompt
  without a transcript. The line of an entry starts with a dash and a space and shows what it holds: no
  line break of any script, no other control character, no control of the writing direction, and no zero-width
  space, joiner or no-break space, so it cannot forge or hide a section of the prompt. Other invisible characters, the
  soft hyphen for one, stay as they are.\<close>

theorem evidence_cannot_forge_sections:
  "(\<exists>k. \<forall>dbg action transcript roots mode.
      split_lf (build_prompt dbg action trusted transcript roots mode) =
        take k (split_lf (build_prompt dbg action trusted [] roots mode)) @ map evidence_line transcript @
        drop k (split_lf (build_prompt dbg action trusted [] roots mode))) \<and>
   prefix ''- '' (evidence_line e) \<and>
   set (chars (evidence_line e)) \<inter> (line_breaks \<union> control_codes \<union> direction_controls \<union> zero_widths) = {}"
proof (intro conjI)
  have no_feed: "line_feed \<notin> set (evidence_line e)" for e using evidence_line_plain [of e] plain_no_newline by blast
  obtain h where h: "prompt_head trusted = h @ [line_feed]" using head_ends by blast
  have "split_lf (build_prompt dbg action trusted transcript roots mode) =
      split_lf h @ map evidence_line transcript @ split_lf (prompt_tail dbg action roots mode)" for dbg action transcript roots mode
    unfolding build_prompt_def evidence_block_def h append.assoc append_Cons append_Nil split_after
    by (simp add: split_entries no_feed)
  then show "\<exists>k. \<forall>dbg action transcript roots mode.
      split_lf (build_prompt dbg action trusted transcript roots mode) =
        take k (split_lf (build_prompt dbg action trusted [] roots mode)) @ map evidence_line transcript @
        drop k (split_lf (build_prompt dbg action trusted [] roots mode))"
    by (intro exI [of _ "length (split_lf h)"]) simp
  show "prefix ''- '' (evidence_line e)" by (simp add: evidence_line_def)
  show "set (chars (evidence_line e)) \<inter> (line_breaks \<union> control_codes \<union> direction_controls \<union> zero_widths) = {}"
    using evidence_line_plain [of e] plain_evidence_shows by (auto simp: list_all_iff)
qed

section \<open>Scanning for decisions\<close>

lemma scan_string:
  "list_all (\<lambda>c. c \<noteq> CHR 0x5C \<and> c \<noteq> CHR 0x22) s \<Longrightarrow>
   balanced_scan (s @ t) d True False i = balanced_scan t d True False (i + length s)"
  by (induction s arbitrary: i) simp_all

lemma hex_digit_plain: "k < 16 \<Longrightarrow> hex_digit k \<noteq> CHR 0x5C \<and> hex_digit k \<noteq> CHR 0x22"
  by (auto simp: hex_digit_def char_ord_eq of_char_of)

lemma show_hex_plain: "list_all (\<lambda>a. a \<noteq> CHR 0x5C \<and> a \<noteq> CHR 0x22) (show_hex n)"
proof (induction n rule: show_hex.induct)
  case (1 n)
  then show ?case using hex_digit_plain [of "n mod 16"] hex_digit_plain [of n] by (subst show_hex.simps) auto
qed

lemma pad_hex_plain: "list_all (\<lambda>a. a \<noteq> CHR 0x5C \<and> a \<noteq> CHR 0x22) (pad0 w (show_hex n))"
  using show_hex_plain [of n] unfolding pad0_def list_all_append by (simp add: list_all_iff del: show_hex.simps)

lemma scan_esc_char:
  assumes "is_scalar c"
  shows "balanced_scan (esc_char c @ t) d True False i = balanced_scan t d True False (i + length (esc_char c))"
proof -
  note hex = pad_hex_plain [of 4 c]
  have own: "list_all (\<lambda>c. c \<noteq> CHR 0x5C \<and> c \<noteq> CHR 0x22) (utf8_encode c)" if "c \<noteq> 0x22" "c \<noteq> 0x5C"
  proof -
    have "x \<noteq> CHR 0x5C \<and> x \<noteq> CHR 0x22" if x: "x \<in> set (utf8_encode c)" for x
    proof (rule ccontr)
      assume "\<not> (x \<noteq> CHR 0x5C \<and> x \<noteq> CHR 0x22)"
      then have "ord x < 128" "ord x = 0x5C \<or> ord x = 0x22" by auto
      then have "utf8_encode c = [x]" using encode_no_ascii [OF assms x] by simp
      then have "[c] = [ord x]" using chars_encode [OF assms] \<open>ord x < 128\<close> by (simp add: chars_ascii)
      with \<open>ord x = 0x5C \<or> ord x = 0x22\<close> \<open>c \<noteq> 0x22\<close> \<open>c \<noteq> 0x5C\<close> show False by auto
    qed
    then show ?thesis by (simp add: list_all_iff)
  qed
  show ?thesis
  proof (cases "c < 0x20 \<and> c \<notin> {0x0A, 0x0D, 0x09, 0x08, 0x0C}")
    case True
    then have e: "esc_char c = CHR 0x5C # CHR ''u'' # pad0 4 (show_hex c)" by (simp add: esc_char_def)
    show ?thesis using scan_string [OF hex] True by (simp add: e)
  next
    case False
    then show ?thesis using scan_string [OF own] by (auto simp: esc_char_def)
  qed
qed

lemma scan_esc: "balanced_scan (esc s @ t) d False False i = balanced_scan t d False False (i + length (esc s))"
proof -
  have "balanced_scan (concat (map esc_char cs) @ CHR 0x22 # t) d True False i =
      balanced_scan t d False False (i + length (concat (map esc_char cs)) + 1)" if "list_all is_scalar cs" for cs i
    using that by (induction cs arbitrary: i) (simp_all add: scan_esc_char add.assoc)
  from this [OF chars_scalar [of s], of "i + 1"] show ?thesis by (simp add: esc_def)
qed

lemma scan_plain:
  "list_all (\<lambda>c. c \<notin> {CHR 0x22, CHR ''{'', CHR ''}''}) s \<Longrightarrow>
   balanced_scan (s @ t) d False False i = balanced_scan t d False False (i + length s)"
  by (induction s arbitrary: i) simp_all

lemma number_plain: "json_number n \<Longrightarrow> list_all (\<lambda>c. c \<notin> {CHR 0x22, CHR ''{'', CHR ''}''}) n"
  unfolding json_number_def
  by (elim exE conjE disjE) (auto simp: digits_def is_digit_def list_all_iff)

text \<open>Inside an object the scan passes over a printed value.\<close>

definition passes :: "string \<Rightarrow> bool" where
  "passes s \<longleftrightarrow> (\<forall>d t i. 0 < d \<longrightarrow> balanced_scan (s @ t) d False False i = balanced_scan t d False False (i + length s))"

lemma passesD: "passes s \<Longrightarrow> 0 < d \<Longrightarrow> balanced_scan (s @ t) d False False i = balanced_scan t d False False (i + length s)"
  by (simp add: passes_def)

lemma passes_append: "passes s \<Longrightarrow> passes t \<Longrightarrow> passes (s @ t)"
  by (simp add: passes_def add.assoc)

lemma passes_plain: "list_all (\<lambda>c. c \<notin> {CHR 0x22, CHR ''{'', CHR ''}''}) s \<Longrightarrow> passes s"
  by (simp add: passes_def scan_plain)

lemma passes_esc: "passes (esc s)"
  by (simp add: passes_def scan_esc)

lemma passes_join: "passes sep \<Longrightarrow> list_all passes xs \<Longrightarrow> passes (join sep xs)"
  by (induction sep xs rule: join.induct) (auto intro: passes_append simp: passes_def [of "[]"])

lemma passes_object:
  assumes "passes s"
  shows "passes (''{'' @ s @ ''}'')"
    "balanced_scan (''{'' @ s @ ''}'' @ t) 0 False False i = Some (i + length (''{'' @ s @ ''}''))"
  using assms unfolding passes_def by simp_all

lemma passes_json: "jwf v \<Longrightarrow> passes (j_to_string v)"
proof (induction v rule: j_to_string.induct)
  case (5 items)
  then have "passes (join '','' (map j_to_string items))" by (intro passes_join passes_plain) (auto simp: list_all_iff)
  from passes_append [OF passes_plain passes_append [OF this passes_plain], of "''[''" "'']''"] show ?case by simp
next
  case (6 pairs)
  have "passes (esc k @ '':'' @ j_to_string v)" if "(k, v) \<in> set pairs" for k v
    using 6 that by (intro passes_append [OF passes_esc passes_append [OF passes_plain]]) (auto simp: list_all_iff)
  then have "passes (join '','' (map (\<lambda>(k, v). esc k @ '':'' @ j_to_string v) pairs))"
    by (intro passes_join passes_plain) (auto simp: list_all_iff)
  then show ?case unfolding j_to_string.simps by (rule passes_object)
next
  case (3 n)
  then show ?case by (auto intro: passes_plain number_plain)
qed (auto intro: passes_plain passes_esc)

lemma balanced_printed:
  assumes "jwf (JObj pairs)"
  shows "balanced_object_end (j_to_string (JObj pairs) @ t) = Some (length (j_to_string (JObj pairs)))"
proof -
  have "passes (esc k @ '':'' @ j_to_string v)" if "(k, v) \<in> set pairs" for k v
    using assms that by (intro passes_append passes_esc passes_plain passes_json) (auto simp: list_all_iff)
  then have "passes (join '','' (map (\<lambda>(k, v). esc k @ '':'' @ j_to_string v) pairs))"
    by (intro passes_join passes_plain) (auto simp: list_all_iff)
  from passes_object(2) [OF this, of t 0] show ?thesis by (simp add: balanced_object_end_def)
qed

text \<open>A reply that holds printed objects between pieces of prose without an opening brace.\<close>

definition object_ok :: "J \<Rightarrow> bool" where
  "object_ok v \<longleftrightarrow> jwf v \<and> jdepth v \<le> MAX_DEPTH \<and> (\<exists>pairs. v = JObj pairs)"

definition reply_text :: "(string \<times> J) list \<Rightarrow> string \<Rightarrow> string" where
  "reply_text segs post = concat (map (\<lambda>(p, v). p @ j_to_string v) segs) @ post"

lemma json_scan_prose: "CHR ''{'' \<notin> set p \<Longrightarrow> json_scan p found = found"
proof -
  assume "CHR ''{'' \<notin> set p"
  then have "dropWhile (\<lambda>c. c \<noteq> CHR ''{'') p = []" by auto
  then show ?thesis by (subst json_scan.simps) (simp add: Let_def)
qed

lemma json_scan_object:
  assumes "CHR ''{'' \<notin> set p" "object_ok v"
  shows "json_scan (p @ j_to_string v @ t) found = json_scan t (or_else (assessment_from v) found)"
proof -
  obtain pairs where v: "v = JObj pairs" using assms(2) by (auto simp: object_ok_def)
  let ?s = "j_to_string v @ t"
  have "dropWhile (\<lambda>c. c \<noteq> CHR ''{'') (p @ ?s) = ?s" using assms(1) v by (subst dropWhile_append2) auto
  moreover have "balanced_object_end ?s = Some (length (j_to_string v))"
    using assms(2) unfolding v by (intro balanced_printed) (simp add: object_ok_def)
  moreover have "j_to_string v \<noteq> []" using v by simp
  moreover have "object_assessment (j_to_string v) = assessment_from v"
    using assms(2) parse_json_j_to_string [of v] by (simp add: object_assessment_def object_ok_def)
  ultimately show ?thesis by (subst json_scan.simps) (simp add: Let_def)
qed

lemma json_scan_reply:
  assumes "\<forall>(p, v) \<in> set segs. CHR ''{'' \<notin> set p \<and> object_ok v" "CHR ''{'' \<notin> set post"
  shows "json_scan (reply_text segs post) found =
    or_else (find_map assessment_from (rev (map snd segs))) found"
  using assms
proof (induction segs arbitrary: found)
  case Nil
  then show ?case by (simp add: reply_text_def json_scan_prose)
next
  case (Cons seg segs)
  obtain p v where seg: "seg = (p, v)" by (cases seg)
  have app: "find_map f (xs @ [x]) = or_else (find_map f xs) (f x)" for f :: "J \<Rightarrow> assessment option" and xs x
    by (induction xs) (auto split: option.split)
  have "reply_text (seg # segs) post = p @ j_to_string v @ reply_text segs post" by (simp add: reply_text_def seg)
  then show ?case using Cons json_scan_object [of p v] by (simp add: seg app split: option.split)
qed

text \<open>in a reply made of prose and printed JSON objects the JSON reading takes the last object that is a
  valid decision; braces inside strings, nested objects and objects that decide nothing do not disturb
  it.\<close>

theorem last_json_decision_wins:
  assumes "\<forall>(p, v) \<in> set segs. CHR ''{'' \<notin> set p \<and> object_ok v" "CHR ''{'' \<notin> set post"
  shows "parse_json_assessment (reply_text segs post) = find_map assessment_from (rev (map snd segs))"
  using json_scan_reply [OF assms, of None] by (simp add: parse_json_assessment_def split: option.splits)

text \<open>Two decisions, the second with a brace in its rationale and a nested object.\<close>

definition two_decisions :: "(string \<times> J) list" where
  "two_decisions =
     [(''first '', JObj [(''outcome'', JStr ''allow'')]),
      ('' then '', JObj [(''outcome'', JStr ''deny''), (''rationale'', JStr ''no }''), (''extra'', JObj [])])]"

lemma two_decisions_ok: "\<forall>(p, v) \<in> set two_decisions. CHR ''{'' \<notin> set p \<and> object_ok v"
  by (simp add: two_decisions_def object_ok_def utf8_ascii MAX_DEPTH_def)

theorem last_json_decision_wins_witness:
  "parse_json_assessment (reply_text two_decisions '' so no'') =
     Some \<lparr>as_outcome = Deny, as_risk = RiskHigh, as_authorization = AuthUnknown, as_rationale = ''no }''\<rparr>"
proof -
  have "parse_json_assessment (reply_text two_decisions '' so no'') = find_map assessment_from (rev (map snd two_decisions))"
    by (rule last_json_decision_wins [OF two_decisions_ok]) simp
  moreover have "trim ''no }'' = ''no }''"
    by (simp add: trim_def chars_ascii is_whitespace_def of_chars_def utf8_encode_def char_of_def bit_0)
  ultimately show ?thesis
    by (simp add: two_decisions_def assessment_from_def outcome_of_def risk_of_def authorization_of_def Let_def)
qed

section \<open>What an approval rests on\<close>

lemma find_map_Some: "find_map f xs = Some y \<Longrightarrow> \<exists>pre x post. xs = pre @ x # post \<and> f x = Some y \<and> list_all (\<lambda>z. f z = None) pre"
proof (induction xs)
  case (Cons x xs)
  show ?case
  proof (cases "f x")
    case None
    with Cons obtain pre z post where "xs = pre @ z # post" "f z = Some y" "list_all (\<lambda>z. f z = None) pre" by auto
    with None have "x # xs = (x # pre) @ z # post \<and> f z = Some y \<and> list_all (\<lambda>z. f z = None) (x # pre)" by simp
    then show ?thesis by blast
  next
    case (Some z)
    with Cons.prems have "x # xs = [] @ x # xs \<and> f x = Some y \<and> list_all (\<lambda>z. f z = None) []" by simp
    then show ?thesis by blast
  qed
qed simp

lemma find_map_None: "find_map f xs = None \<longleftrightarrow> list_all (\<lambda>z. f z = None) xs"
  by (induction xs) (auto split: option.splits)

lemma json_scan_found:
  "json_scan t found = Some a \<Longrightarrow> found = Some a \<or> (\<exists>s. sublist s t \<and> object_assessment s = Some a)"
proof (induction t found rule: json_scan.induct)
  case (1 t found)
  define s where "s = dropWhile (\<lambda>c. c \<noteq> CHR ''{'') t"
  have sub: "sublist s t" unfolding s_def by (meson suffix_dropWhile suffix_imp_sublist)
  show ?case
  proof (cases "s = []")
    case True
    with 1(3) show ?thesis unfolding s_def by (subst (asm) json_scan.simps) (simp add: Let_def)
  next
    case ne: False
    show ?thesis
    proof (cases "balanced_object_end s")
      case None
      with 1(3) ne have "json_scan (tl s) found = Some a"
        by (subst (asm) json_scan.simps) (simp add: Let_def flip: s_def)
      with 1(1) [OF s_def ne None] have "found = Some a \<or> (\<exists>u. sublist u (tl s) \<and> object_assessment u = Some a)" .
      then show ?thesis using sub by (meson sublist_order.order_trans sublist_tl)
    next
      case (Some e)
      with 1(3) ne have "json_scan (drop e s) (or_else (object_assessment (take e s)) found) = Some a"
        by (subst (asm) json_scan.simps) (simp add: Let_def flip: s_def)
      with 1(2) [OF s_def ne Some]
      have "or_else (object_assessment (take e s)) found = Some a \<or> (\<exists>u. sublist u (drop e s) \<and> object_assessment u = Some a)" .
      moreover have "sublist (take e s) t" "sublist (drop e s) t"
        using sub by (meson sublist_order.order_trans sublist_take sublist_drop)+
      ultimately show ?thesis by (auto split: option.splits intro: sublist_order.order_trans)
    qed
  qed
qed

text \<open>A JSON decision that may be acted on: an explicit outcome, a rationale that is not blank, and a risk
  and an authorization the policy accepts.\<close>

definition allowing_decision :: "J \<Rightarrow> bool" where
  "allowing_decision v \<longleftrightarrow>
     Option.bind (jget v ''outcome'') as_str = Some ''allow'' \<and>
     Option.bind (jget v ''rationale'') as_str \<notin> {None, Some []} \<and>
     (let risk_level = Option.bind (jget v ''risk_level'') as_str;
          user_authorization = Option.bind (jget v ''user_authorization'') as_str in
      (risk_level \<in> {Some ''low'', Some ''medium''} \<and>
       user_authorization \<in> {Some ''unknown'', Some ''low'', Some ''medium'', Some ''high''}) \<or>
      (risk_level = Some ''high'' \<and> user_authorization \<in> {Some ''medium'', Some ''high''}))"

lemma assessment_allows:
  assumes "assessment_from v = Some a" "effective_outcome a = Allow"
  shows "allowing_decision v"
proof -
  obtain oc r au where p: "Option.bind (Option.bind (jget v ''outcome'') as_str) outcome_of = Some oc"
      "risk_of oc (Option.bind (jget v ''risk_level'') as_str) = Some r"
      "authorization_of oc (Option.bind (jget v ''user_authorization'') as_str) = Some au"
      "\<not> (oc = Allow \<and> nonempty (map_option trim (Option.bind (jget v ''rationale'') as_str)) = None)"
      "as_outcome a = oc" "as_risk a = r" "as_authorization a = au"
    using assms(1) unfolding assessment_from_def
    by (auto simp: Let_def bind_eq_Some_conv split: option.splits if_splits)
  have oc: "oc = Allow" and r: "r \<noteq> RiskCritical" "r = RiskHigh \<longrightarrow> au = AuthMedium \<or> au = AuthHigh"
    using assms(2) p by (auto simp: effective_outcome_def split: if_splits)
  have "Option.bind (jget v ''outcome'') as_str = Some ''allow''"
    using p(1) oc by (auto simp: outcome_of_def bind_eq_Some_conv split: if_splits)
  moreover have "Option.bind (jget v ''rationale'') as_str \<notin> {None, Some []}"
    using p(4) oc by (auto simp: trim_def split: option.splits)
  ultimately show ?thesis using p(2,3) oc r unfolding allowing_decision_def
    by (auto simp: Let_def risk_of_def authorization_of_def split: option.splits if_splits)
qed

text \<open>C32: the reviewer's reply is taken as an approval only with evidence for it. Either its last verdict
  line starts with the word allow, or it has no verdict line at all and holds a JSON decision that allows
  with a rationale, an explicit risk that is not critical and an explicit authorization, which for a high
  risk is medium or high.\<close>

theorem allow_needs_evidence:
  assumes "parse_assessment t = Some a" "effective_outcome a = Allow"
  shows "(\<exists>pre l post rst. str_lines t = pre @ l # post \<and> list_all (\<lambda>x. verdict_of_line x = None) post \<and>
            verdict_of_line l = Some a \<and> verdict_head (trim_start_by bullet l) = Some (Allow, rst)) \<or>
         (list_all (\<lambda>x. verdict_of_line x = None) (str_lines t) \<and>
          (\<exists>s v. sublist s t \<and> parse_json s = Inr v \<and> assessment_from v = Some a \<and> allowing_decision v))"
proof (cases "parse_verdict_line t")
  case None
  then have "list_all (\<lambda>x. verdict_of_line x = None) (str_lines t)"
    by (simp add: parse_verdict_line_def find_map_None)
  moreover obtain s where "sublist s t" "object_assessment s = Some a"
    using assms(1) None json_scan_found [of t None a] by (auto simp: parse_assessment_def parse_json_assessment_def)
  ultimately show ?thesis
    using assessment_allows [OF _ assms(2)] by (auto simp: object_assessment_def split: sum.splits)
next
  case (Some b)
  with assms(1) have ab: "b = a" by (simp add: parse_assessment_def)
  obtain pre l post where p: "rev (str_lines t) = pre @ l # post" "verdict_of_line l = Some a"
      "list_all (\<lambda>x. verdict_of_line x = None) pre"
    using find_map_Some [OF Some [unfolded parse_verdict_line_def]] ab by blast
  from p(1) have "str_lines t = rev (pre @ l # post)" by (metis rev_rev_ident)
  then have split: "str_lines t = rev post @ l # rev pre" by simp
  obtain oc rst where h: "verdict_head (trim_start_by bullet l) = Some (oc, rst)" "as_outcome a = oc"
    using p(2) by (auto simp: verdict_of_line_def Let_def split: option.splits if_splits)
  have "oc = Allow" using h(2) assms(2) by (auto simp: effective_outcome_def split: if_splits)
  with h split p show ?thesis by (metis list_all_rev)
qed

theorem allow_needs_evidence_witness:
  "(\<exists>a. parse_assessment ''ALLOW'' = Some a \<and> effective_outcome a = Allow) \<and>
   (\<exists>pre l post rst. str_lines ''ALLOW'' = pre @ l # post \<and> verdict_head (trim_start_by bullet l) = Some (Allow, rst))"
proof -
  let ?a = "\<lparr>as_outcome = Allow, as_risk = RiskLow, as_authorization = AuthUnknown, as_rationale = default_rationale Allow\<rparr>"
  have lines: "str_lines ''ALLOW'' = [''ALLOW'']" by code_simp
  have "trim_start_by bullet ''ALLOW'' = ''ALLOW''"
    by (simp add: trim_start_by_def chars_ascii is_whitespace_def of_chars_def utf8_encode_def bullet_def char_of_def bit_0)
  then have "verdict_of_line ''ALLOW'' = Some ?a"
    by (simp add: verdict_of_line_def verdict_head_def verdict_word_def trim_start_by_def trim_by_def trim_def
        to_ascii_lowercase_def ascii_lower_def char_of_def bit_0)
  then have "parse_assessment ''ALLOW'' = Some ?a" "effective_outcome ?a = Allow"
    by (simp_all add: parse_assessment_def parse_verdict_line_def lines effective_outcome_def)
  moreover from allow_needs_evidence [OF this] lines \<open>verdict_of_line ''ALLOW'' = Some ?a\<close>
  have "\<exists>pre l post rst. str_lines ''ALLOW'' = pre @ l # post \<and> verdict_head (trim_start_by bullet l) = Some (Allow, rst)"
    by auto
  ultimately show ?thesis by blast
qed

section \<open>Excerpts\<close>

lemma words_chars: "w \<in> set (words_of acc cs) \<Longrightarrow> set w \<subseteq> set acc \<union> {c \<in> set cs. \<not> is_whitespace c}"
  by (induction cs arbitrary: acc) (fastforce split: if_splits)+

lemma join_chars:
  "(\<And>x. x \<in> set xs \<Longrightarrow> utf8 x) \<Longrightarrow> utf8 sep \<Longrightarrow>
   utf8 (join sep xs) \<and> set (chars (join sep xs)) \<subseteq> set (chars sep) \<union> (\<Union>x \<in> set xs. set (chars x))"
  by (induction sep xs rule: join.induct) (auto simp: chars_append)

text \<open>an excerpt is at most 241 characters of one line: every run of white space has become a single
  blank, so no newline of the reviewer's text reaches the notice.\<close>

theorem excerpt_is_short_line:
  "utf8 (excerpt t) \<and> length (chars (excerpt t)) \<le> 241 \<and>
   list_all (\<lambda>c. is_whitespace c \<longleftrightarrow> c = 0x20) (chars (excerpt t))"
proof -
  have space: "is_whitespace 0x20" by (simp add: is_whitespace_def)
  let ?flat = "join '' '' (split_whitespace t)"
  have sc: "list_all is_scalar w" if "w \<in> set (words_of [] (chars t))" for w
    using words_chars [OF that] chars_scalar [of t] by (auto simp: list_all_iff)
  have "utf8 w" if "w \<in> set (split_whitespace t)" for w
    using that sc by (auto simp: split_whitespace_def)
  from join_chars [OF this, where sep = "'' ''"] have flat: "utf8 ?flat"
      "set (chars ?flat) \<subseteq> {0x20} \<union> (\<Union>x \<in> set (split_whitespace t). set (chars x))"
    by (simp_all add: utf8_ascii chars_ascii)
  have "\<not> is_whitespace c" if "x \<in> set (split_whitespace t)" "c \<in> set (chars x)" for x c
    using that words_chars [of _ "[]" "chars t"] sc by (fastforce simp: split_whitespace_def chars_of_chars)
  with flat(2) have ok: "list_all (\<lambda>c. is_whitespace c \<longleftrightarrow> c = 0x20) (chars ?flat)"
    using space by (fastforce simp: list_all_iff)
  have dots: "utf8 (utf8_encode 0x2026)" "chars (utf8_encode 0x2026) = [0x2026]" "\<not> is_whitespace 0x2026"
    using utf8_encode_utf8 chars_encode by (simp_all add: is_scalar_def is_whitespace_def)
  have tk: "list_all is_scalar (take 240 (chars ?flat))"
    using chars_scalar [of ?flat] by (auto simp: list_all_iff dest: in_set_takeD)
  show ?thesis
  proof (cases "length (chars ?flat) \<le> 240")
    case True
    then show ?thesis using flat(1) ok by (simp add: excerpt_def Let_def)
  next
    case False
    then have e: "excerpt t = of_chars (take 240 (chars ?flat)) @ utf8_encode 0x2026" by (simp add: excerpt_def Let_def)
    have "chars (excerpt t) = take 240 (chars ?flat) @ [0x2026]"
      unfolding e using tk dots by (simp add: chars_append chars_of_chars)
    moreover have "utf8 (excerpt t)" unfolding e using tk dots by simp
    ultimately show ?thesis using ok dots(3) by (auto simp: list_all_iff dest: in_set_takeD)
  qed
qed

end
