(* ===== verification/Approval_Card.thy ===== *)
theory Approval_Card
  imports Fold_State
begin

text \<open>
  What a permission prompt shows (\<^verbatim>\<open>src/main.rs\<close>: the computer-use facts, the title and the kind of an
  approval; \<^verbatim>\<open>src/bridge.rs\<close>: the title of an editor tool's approval). Text that an application or a web
  page controls is quoted as a Markdown code span; the last section shows that the span cannot be closed
  from inside.
\<close>

section \<open>Untrusted text as a code span\<close>

abbreviation backtick :: char where
  "backtick \<equiv> CHR 0x60"

definition CUA_TEXT_MAX_CHARS :: nat where
  "CUA_TEXT_MAX_CHARS = 200"

text \<open>The longest run of backticks, the maximum over the pieces between other characters.\<close>

fun longest_run :: "nat \<Rightarrow> string \<Rightarrow> nat" where
  "longest_run k [] = k"
| "longest_run k (c # s) = (if c = backtick then longest_run (k + 1) s else (if k < longest_run 0 s then longest_run 0 s else k))"

definition cua_capped :: "string \<Rightarrow> string" where
  "cua_capped line =
     of_chars (take CUA_TEXT_MAX_CHARS (chars line)) @
     (if CUA_TEXT_MAX_CHARS < length (chars line) then utf8_encode 0x2026 else [])"

definition cua_pad :: "string \<Rightarrow> string" where
  "cua_pad capped = (if starts_with capped [backtick] \<or> ends_with capped [backtick] then '' '' else [])"

definition cua_untrusted_text :: "string \<Rightarrow> string option" where
  "cua_untrusted_text v =
     (let line = sanitize_one_line v in
      if line = [] then None
      else
        (let capped = cua_capped line; fence = replicate (longest_run 0 capped + 1) backtick; pad = cua_pad capped in
         Some (fence @ pad @ capped @ pad @ fence)))"

section \<open>Computer-use facts\<close>

definition cua_mask_text :: "J option \<Rightarrow> string" where
  "cua_mask_text m =
     (case m of
        None \<Rightarrow> []
      | Some msk \<Rightarrow>
          (let pre = unwrap_or (non_empty_str msk ''prefix'') []; last4 = unwrap_or (non_empty_str msk ''last4'') [];
               n = u64_at msk ''chars'';
               shown =
                 (if pre \<noteq> [] \<or> last4 \<noteq> [] \<or> n \<noteq> None then
                    pre @ utf8_encode 0x2026 @ last4 @
                    (case n of
                       Some k \<Rightarrow> if 0 < k then '' ('' @ show_nat k @ '' '' @ (if k = 1 then ''char'' else ''chars'') @ '')'' else []
                     | None \<Rightarrow> [])
                  else []) in
           if shown = [] then [] else unwrap_or (cua_untrusted_text shown) []))"

definition cua_data_word :: "J \<Rightarrow> string" where
  "cua_data_word obs =
     (let kind = unwrap_or (non_empty_str obs ''kind'') []; secret_kind = unwrap_or (non_empty_str obs ''secretKind'') [];
          has_prefix = (Option.bind (jget obs ''mask'') (\<lambda>msk. non_empty_str msk ''prefix'') \<noteq> None) in
      if kind = ''secret'' then
        (if secret_kind = ''github_token'' then ''GitHub token''
         else if secret_kind = ''secret_named_value'' \<and> has_prefix then []
         else ''a secret'')
      else ''a value'')"

definition cua_data_line :: "J \<Rightarrow> string" where
  "cua_data_line obs =
     (let word = cua_data_word obs; msk = cua_mask_text (jget obs ''mask'') in
      if word = [] \<and> msk = [] then ''Data: a secret''
      else if word = [] then ''Data: '' @ msk
      else if msk = [] then ''Data: '' @ word
      else ''Data: '' @ word @ '' '' @ msk)"

definition cua_page_lines :: "J \<Rightarrow> string list" where
  "cua_page_lines facts =
     (case jget facts ''page'' of
        None \<Rightarrow> []
      | Some page \<Rightarrow>
          (case (map_option sanitize_one_line (non_empty_str page ''host''), map_option sanitize_one_line (non_empty_str page ''hostAscii'')) of
             (Some h, Some a) \<Rightarrow> if a \<noteq> h then [''Page: '' @ h @ '' ('' @ a @ '')''] else [''Page: '' @ h]
           | (Some h, None) \<Rightarrow> [''Page: '' @ h]
           | (None, Some a) \<Rightarrow> [''Page: '' @ a]
           | (None, None) \<Rightarrow> []))"

definition cua_step_line :: "nat \<Rightarrow> J \<Rightarrow> string" where
  "cua_step_line index step =
     (let number = unwrap_or (u64_at step ''step'') (index + 1);
          action = (case non_empty_str step ''action'' of Some a \<Rightarrow> sanitize_one_line a | None \<Rightarrow> ''act'');
          role = map_option sanitize_one_line (non_empty_str step ''roleWord'') in
      ''Step '' @ show_nat number @ '': '' @ action @
      (case Option.bind (non_empty_str step ''label'') cua_untrusted_text of
         Some label \<Rightarrow> (case role of Some r \<Rightarrow> '' '' @ r | None \<Rightarrow> []) @ '' '' @ label
       | None \<Rightarrow>
           (case Option.bind (non_empty_str step ''chord'') cua_untrusted_text of
              Some chord \<Rightarrow> '' '' @ unwrap_or role ''key'' @ '' '' @ chord
            | None \<Rightarrow>
                (case jget step ''point'' of
                   Some point \<Rightarrow>
                     (case (u64_at point ''x'', u64_at point ''y'') of
                        (Some x, Some y) \<Rightarrow> '' at '' @ show_nat x @ '','' @ show_nat y
                      | _ \<Rightarrow> [])
                 | None \<Rightarrow> []))) @
      (case non_empty_str step ''effect'' of
         Some e \<Rightarrow> '' '' @ utf8_encode 0x2014 @ '' '' @ sanitize_one_line e | None \<Rightarrow> []))"

definition items_at :: "J \<Rightarrow> string \<Rightarrow> J list" where
  "items_at j key = (case jget j key of Some (JArr items) \<Rightarrow> items | _ \<Rightarrow> [])"

definition cua_card_text :: "J \<Rightarrow> string option" where
  "cua_card_text params =
     (case jget params ''cuaCardFacts'' of
        Some (JObj pairs) \<Rightarrow>
          (let facts = JObj pairs;
               lines = cua_page_lines facts @
                 (case Option.bind (non_empty_str facts ''windowTitle'') cua_untrusted_text of
                    Some title \<Rightarrow> [''Window: '' @ title] | None \<Rightarrow> []) @
                 map cua_data_line (items_at facts ''data'') @
                 map (\<lambda>(i, step). cua_step_line i step) (List.enumerate 0 (items_at facts ''steps'')) in
           if lines = [] then None else Some (join [CHR 0x0A] lines))
      | _ \<Rightarrow> None)"

section \<open>Title and kind\<close>

definition TOOL_PREFIX :: string where
  "TOOL_PREFIX = ''mcp__editor__''"

definition key_arg :: "string \<Rightarrow> string" where
  "key_arg tool = (if tool = ''run_in_terminal'' then ''command'' else ''path'')"

definition approval_title :: "string \<Rightarrow> string option \<Rightarrow> string option" where
  "approval_title tool_name raw_args =
     Option.bind (strip_prefix tool_name TOOL_PREFIX) (\<lambda>tool.
     Option.bind raw_args (\<lambda>raw.
     case parse_json raw of
       Inl e \<Rightarrow> None
     | Inr args \<Rightarrow>
         Option.bind (str_at args (key_arg tool)) (\<lambda>detail.
           (let cwd = (case str_at args ''cwd'' of
                Some d \<Rightarrow> if tool = ''run_in_terminal'' \<and> d \<noteq> [] then '' (in '' @ d @ '')'' else [] | None \<Rightarrow> []) in
            Some (tool_name @ '': '' @ detail @ cwd)))))"

fun first_of :: "'a option list \<Rightarrow> 'a option" where
  "first_of [] = None"
| "first_of (x # xs) = or_else x (first_of xs)"

definition approval_title_text :: "J \<Rightarrow> J \<Rightarrow> string \<Rightarrow> string option \<Rightarrow> string" where
  "approval_title_text params subject subject_kind named_tool =
     (let tool_name = unwrap_or named_tool ''Muse action'';
          command = str_at subject ''command''; path = str_at subject ''path''; target = str_at subject ''target'';
          access = str_at subject ''access''; description = str_at subject ''description'' in
      if subject_kind = ''shell'' \<or> subject_kind = ''process'' then unwrap_or (first_of [command, description]) tool_name
      else if subject_kind = ''fileAccess'' then
        (case (access, path) of
           (Some a, Some p) \<Rightarrow> a @ '' '' @ p | (None, Some p) \<Rightarrow> p | (Some a, None) \<Rightarrow> a
         | (None, None) \<Rightarrow> unwrap_or description tool_name)
      else if subject_kind = ''network'' then unwrap_or (first_of [target, description]) tool_name
      else if subject_kind = ''tool'' then
        unwrap_or (first_of [approval_title tool_name (str_at params ''rawArgs''), named_tool, description, command, path, target]) tool_name
      else unwrap_or (first_of [command, path, target, access, description]) tool_name)"

definition approval_access_kind :: "string \<Rightarrow> string" where
  "approval_access_kind access =
     (let a = to_ascii_lowercase access in
      if a \<in> {''read'', ''list'', ''stat''} then ''read''
      else if a = ''search'' then ''search''
      else if a \<in> {''write'', ''create'', ''append'', ''edit'', ''modify''} then ''edit''
      else if a \<in> {''delete'', ''remove''} then ''delete''
      else if a \<in> {''move'', ''rename''} then ''move''
      else ''other'')"

definition approval_title_kind :: "env \<Rightarrow> J \<Rightarrow> string \<times> string" where
  "approval_title_kind E params =
     (let subject = unwrap_or (jget params ''subject'') JNull; subject_kind = str_or subject ''kind'' [];
          named_tool =
            (if subject_kind = ''tool'' then first_of [non_empty_str subject ''toolName'', non_empty_str params ''toolName'']
             else first_of [non_empty_str params ''toolName'', non_empty_str subject ''toolName'']);
          tool_name = unwrap_or named_tool ''Muse action'';
          kind =
            (if subject_kind = ''shell'' \<or> subject_kind = ''process'' then ''execute''
             else if subject_kind = ''fileAccess'' then approval_access_kind (str_or subject ''access'' [])
             else if subject_kind = ''network'' then ''fetch''
             else if subject_kind = ''tool'' then tool_kind E tool_name
             else ''other'') in
      (visible_title (approval_title_text params subject subject_kind named_tool), kind))"

section \<open>The span stays closed\<close>

lemma longest_run_ge: "k \<le> longest_run k s"
  by (induction s arbitrary: k) (auto intro: Suc_leD)

lemma longest_run_prefix: "prefix (replicate n backtick) s \<Longrightarrow> k + n \<le> longest_run k s"
proof (induction s arbitrary: k n)
  case (Cons c s)
  show ?case
  proof (cases n)
    case 0
    then show ?thesis using longest_run_ge [of k "c # s"] by simp
  next
    case (Suc m)
    with Cons.prems have "c = backtick" "prefix (replicate m backtick) s" by auto
    with Cons.IH [of m "k + 1"] Suc show ?thesis by simp
  qed
qed simp

lemma longest_run_sublist: "sublist (replicate n backtick) s \<Longrightarrow> n \<le> longest_run k s"
proof (induction s arbitrary: k)
  case (Cons c s)
  then consider "prefix (replicate n backtick) (c # s)" | "sublist (replicate n backtick) s" by (auto simp: sublist_Cons_right)
  then show ?case
  proof cases
    case 1
    then show ?thesis using longest_run_prefix [of n "c # s" k] by linarith
  next
    case 2
    then show ?thesis using Cons.IH [of "k + 1"] Cons.IH [of 0] by auto
  qed
qed simp

lemma no_longer_run:
  assumes "longest_run 0 s < n"
  shows "\<not> sublist (replicate n backtick) s"
  using longest_run_sublist [of n s 0] assms by linarith

lemma run_in_padded:
  assumes "0 < n" "p = '' '' \<or> p = []" "sublist (replicate n backtick) (p @ s @ p)"
  shows "sublist (replicate n backtick) s"
proof -
  obtain m where n: "n = Suc m" using assms(1) by (cases n) auto
  have hd_no: "\<not> prefix (replicate n backtick) ('' '' @ u)" for u by (simp add: n)
  have rp: "replicate n backtick = replicate m backtick @ [backtick]" by (simp add: n replicate_append_same)
  have suffix_no: "sublist (replicate n backtick) u" if "sublist (replicate n backtick) (u @ '' '')" for u
  proof -
    obtain a b where ab: "u @ '' '' = a @ replicate n backtick @ b" using \<open>sublist _ (u @ '' '')\<close> by (auto simp: sublist_def)
    show ?thesis
    proof (cases b rule: rev_cases)
      case Nil
      with ab rp have "u @ '' '' = (a @ replicate m backtick) @ [backtick]" by simp
      then show ?thesis by simp
    next
      case (snoc b' x)
      with ab have "u = a @ replicate n backtick @ b'" by simp
      then show ?thesis unfolding sublist_def by blast
    qed
  qed
  show ?thesis
  proof (cases "p = []")
    case True
    then show ?thesis using assms(3) by simp
  next
    case False
    then have "sublist (replicate n backtick) (CHR '' '' # (s @ '' ''))" using assms(2,3) by simp
    then have "sublist (replicate n backtick) (s @ '' '')" using hd_no by (auto simp: sublist_Cons_right)
    then show ?thesis by (rule suffix_no)
  qed
qed

lemma cua_capped_chars:
  assumes "utf8 line"
  shows "utf8 (cua_capped line)"
    "chars (cua_capped line) = take CUA_TEXT_MAX_CHARS (chars line) @ (if CUA_TEXT_MAX_CHARS < length (chars line) then [0x2026] else [])"
proof -
  have dots: "utf8 (utf8_encode 0x2026)" "chars (utf8_encode 0x2026) = [0x2026]"
    using utf8_encode_utf8 chars_encode by (simp_all add: is_scalar_def)
  have tk: "list_all is_scalar (take CUA_TEXT_MAX_CHARS (chars line))"
    using chars_scalar [of line] by (auto simp: list_all_iff dest: in_set_takeD)
  show "utf8 (cua_capped line)" unfolding cua_capped_def using tk dots by simp
  show "chars (cua_capped line) = take CUA_TEXT_MAX_CHARS (chars line) @ (if CUA_TEXT_MAX_CHARS < length (chars line) then [0x2026] else [])"
    unfolding cua_capped_def using tk dots by (simp add: chars_append)
qed

lemma one_line_all: "one_line cs \<Longrightarrow> c \<in> set cs \<Longrightarrow> c = 0x20 \<or> \<not> blank c"
  by (induction cs rule: one_line.induct) (auto split: if_splits)

lemma newline_char: "utf8 s \<Longrightarrow> CHR 0x0A \<in> set s \<Longrightarrow> 0x0A \<in> set (chars s)"
proof -
  assume "utf8 s" "CHR 0x0A \<in> set s"
  then have "CHR 0x0A \<in> set (of_chars (chars s))" by simp
  then obtain c where c: "c \<in> set (chars s)" "CHR 0x0A \<in> set (utf8_encode c)" by (auto simp: of_chars_def)
  then have sc: "is_scalar c" using chars_scalar [of s] by (auto simp: list_all_iff)
  then have "utf8_encode c = [CHR 0x0A]" using encode_no_ascii [OF _ c(2)] by simp
  then show ?thesis using chars_encode [OF sc] c(1) by (simp add: chars_ascii)
qed

lemma cua_capped_newline:
  assumes "utf8 line" "one_line (chars line)"
  shows "CHR 0x0A \<notin> set (cua_capped line)"
proof
  assume "CHR 0x0A \<in> set (cua_capped line)"
  then have "0x0A \<in> set (chars (cua_capped line))" using newline_char cua_capped_chars(1) [OF assms(1)] by blast
  then have "0x0A \<in> set (chars line)" unfolding cua_capped_chars(2) [OF assms(1)] by (auto split: if_splits dest: in_set_takeD)
  then show False using one_line_all [OF assms(2), of "0x0A"] by (simp add: blank_def is_whitespace_def)
qed

text \<open>A Markdown code span: a fence, a body, the same fence. The body neither begins nor ends with a
  backtick, so the fences are the runs they look like, and it has no run as long as the fence, so only
  the last fence closes the span.\<close>

definition code_span :: "nat \<Rightarrow> string \<Rightarrow> string \<Rightarrow> bool" where
  "code_span n body s \<longleftrightarrow>
     0 < n \<and> s = replicate n backtick @ body @ replicate n backtick \<and> body \<noteq> [] \<and>
     hd body \<noteq> backtick \<and> last body \<noteq> backtick \<and> \<not> sublist (replicate n backtick) body"

lemma sanitize_utf8: "utf8 (sanitize_one_line s)"
  unfolding sanitize_one_line_def by (rule utf8_of_chars) (rule sanitize_scalars, simp_all)

lemma sanitize_line: "one_line (chars (sanitize_one_line s))"
  using sanitize_one_line_inv [of "([], False)" "chars s"] by (simp add: chars_sanitize)

text \<open>C34: text an application or a web page controls is shown in a permission prompt as one Markdown code
  span on one line, of at most 203 characters, that nothing inside it can close.\<close>

theorem untrusted_text_stays_quoted:
  assumes "cua_untrusted_text v = Some s"
  shows "\<exists>n body. code_span n body s \<and> CHR 0x0A \<notin> set s \<and> utf8 body \<and> length (chars body) \<le> 203"
proof -
  define line where "line = sanitize_one_line v"
  define capped where "capped = cua_capped line"
  define n where "n = longest_run 0 capped + 1"
  define pad where "pad = cua_pad capped"
  have line: "line \<noteq> []" "s = replicate n backtick @ (pad @ capped @ pad) @ replicate n backtick"
    using assms unfolding cua_untrusted_text_def Let_def line_def [symmetric] capped_def [symmetric] n_def pad_def
    by (simp_all split: if_splits)
  have u: "utf8 line" "one_line (chars line)" unfolding line_def by (rule sanitize_utf8, rule sanitize_line)
  then have "chars line \<noteq> []" using line(1) of_chars_chars [of line] by (metis of_chars_Nil)
  then have "chars capped \<noteq> []" unfolding capped_def cua_capped_chars(2) [OF u(1)] by (simp add: CUA_TEXT_MAX_CHARS_def)
  then have ne: "capped \<noteq> []" by auto
  have pad: "pad = '' '' \<or> pad = []" "pad = [] \<Longrightarrow> hd capped \<noteq> backtick \<and> last capped \<noteq> backtick"
  proof -
    show "pad = '' '' \<or> pad = []" by (simp add: pad_def cua_pad_def)
    assume "pad = []"
    then have "\<not> prefix [backtick] capped" "\<not> suffix [backtick] capped"
      by (auto simp: pad_def cua_pad_def starts_with_def ends_with_def split: if_splits)
    then show "hd capped \<noteq> backtick \<and> last capped \<noteq> backtick"
      using ne by (metis append_butlast_last_id list.exhaust_sel prefix_Cons Nil_prefix suffixI)
  qed
  have "\<not> sublist (replicate n backtick) capped" by (rule no_longer_run) (simp add: n_def)
  then have "\<not> sublist (replicate n backtick) (pad @ capped @ pad)"
    using run_in_padded [of n pad capped] pad(1) by (auto simp: n_def)
  moreover have "hd (pad @ capped @ pad) \<noteq> backtick" "last (pad @ capped @ pad) \<noteq> backtick"
    using pad ne by auto
  ultimately have "code_span n (pad @ capped @ pad) s" using line(2) ne by (auto simp: code_span_def n_def)
  moreover have "CHR 0x0A \<notin> set s" using line(2) pad(1) cua_capped_newline [OF u] by (auto simp: capped_def)
  moreover have "length (chars capped) \<le> 201"
    unfolding capped_def cua_capped_chars(2) [OF u(1)] by (simp add: CUA_TEXT_MAX_CHARS_def)
  moreover have "utf8 pad" "length (chars pad) \<le> 1" using pad(1) by (auto simp: utf8_ascii chars_ascii)
  moreover have "utf8 capped" unfolding capped_def by (rule cua_capped_chars(1) [OF u(1)])
  ultimately show ?thesis by (intro exI [of _ n] exI [of _ "pad @ capped @ pad"]) (simp add: chars_append)
qed

theorem untrusted_text_stays_quoted_witness:
  "cua_untrusted_text ''a`b'' = Some ''``a`b``'' \<and> (\<exists>n body. code_span n body ''``a`b``'')"
proof -
  have "sanitize_one_line ''a`b'' = ''a`b''"
    by (simp add: sanitize_one_line_def chars_ascii is_whitespace_def is_control_def unsafe_format_def of_chars_def utf8_encode_def char_of_def bit_0)
  then have "cua_untrusted_text ''a`b'' = Some ''``a`b``''"
    by (simp add: cua_untrusted_text_def cua_capped_def cua_pad_def CUA_TEXT_MAX_CHARS_def chars_ascii of_chars_def
        utf8_encode_def char_of_def bit_0 starts_with_def ends_with_def suffix_Cons)
  with untrusted_text_stays_quoted [OF this] show ?thesis by blast
qed

end
