(* ===== verification/Commands.thy ===== *)
theory Commands
  imports Reviewer Fold_State
begin

text \<open>
  The slash commands of \<^verbatim>\<open>src/main.rs\<close> that the adapter answers itself: which prompts are command lines,
  and the parser of each command. A parser answers \<open>None\<close> when the line is not its command, \<open>Inl\<close> with
  the text of a usage error, or \<open>Inr\<close> with the host method and its members. The lemmas of the last
  sections say which lines each parser claims.
\<close>

section \<open>Words\<close>

text \<open>\<^verbatim>\<open>splitn(2, char::is_whitespace)\<close>: the text before the first white space and the text after it, empty
  when there is none; and the one-sided trims.\<close>

definition first_word :: "string \<Rightarrow> string" where
  "first_word t = of_chars (takeWhile (\<lambda>c. \<not> is_whitespace c) (chars t))"

definition after_word :: "string \<Rightarrow> string" where
  "after_word t = of_chars (tl (dropWhile (\<lambda>c. \<not> is_whitespace c) (chars t)))"

definition trim_start :: "string \<Rightarrow> string" where
  "trim_start t = trim_start_by is_whitespace t"

definition trim_end_by :: "(scalar \<Rightarrow> bool) \<Rightarrow> string \<Rightarrow> string" where
  "trim_end_by P t = of_chars (rev (dropWhile P (rev (chars t))))"

definition trim_end :: "string \<Rightarrow> string" where
  "trim_end t = trim_end_by is_whitespace t"

definition is_ascii_punctuation :: "scalar \<Rightarrow> bool" where
  "is_ascii_punctuation c \<longleftrightarrow> (0x21 \<le> c \<and> c \<le> 0x2F) \<or> (0x3A \<le> c \<and> c \<le> 0x40) \<or> (0x5B \<le> c \<and> c \<le> 0x60) \<or> (0x7B \<le> c \<and> c \<le> 0x7E)"

definition starts_white :: "string \<Rightarrow> bool" where
  "starts_white t \<longleftrightarrow> (case chars t of c # cs \<Rightarrow> is_whitespace c | [] \<Rightarrow> False)"

section \<open>The parsers\<close>

type_synonym protocol_command = "string \<times> (string \<times> J) list"
type_synonym 'a parsed = "(string + 'a) option"

definition GOAL_USAGE :: string where
  "GOAL_USAGE = ''usage: /goal <objective> | /goal edit <objective> | /goal pause | /goal resume | /goal clear''"

definition CONTROL_WORDS :: "string list" where
  "CONTROL_WORDS = [''stop'', ''cancel'', ''abort'', ''end'', ''quit'', ''exit'', ''off'', ''done'', ''status'', ''show'', ''help'',
     ''pause'', ''resume'', ''clear'', ''edit'']"

definition control_word :: "string \<Rightarrow> bool" where
  "control_word t \<longleftrightarrow> list_ex (eq_ignore_ascii_case (trim_end_by is_ascii_punctuation t)) CONTROL_WORDS"

definition goal_argument :: "string \<Rightarrow> string + (string \<times> string option)" where
  "goal_argument arg =
     (let verb = first_word arg; args = trim (trim_start (after_word arg)) in
      if verb = [] then Inl GOAL_USAGE
      else if verb = ''edit'' then
        (if args = [] then Inl ''/goal edit requires an objective'' else Inr (''goal/edit'', Some args))
      else if verb \<in> {''pause'', ''resume'', ''clear''} then
        (if args = [] then Inr (''goal/'' @ verb, None) else Inl (''/goal '' @ verb @ '' takes no arguments''))
      else if args = [] \<and> control_word verb then
        Inl (''/goal '' @ verb @ '' is not a goal: press Stop to interrupt the running goal turn (the host then pauses the goal), use /goal pause to stop further goal turns, or /goal clear to remove the goal; '' @ GOAL_USAGE)
      else Inr (''goal/set'', Some (trim arg)))"

definition parse_goal_command :: "string \<Rightarrow> (string \<times> string option) parsed" where
  "parse_goal_command t =
     (case strip_prefix t ''/'' of
        None \<Rightarrow> None
      | Some body \<Rightarrow>
          if first_word body \<noteq> ''goal'' then None else Some (goal_argument (trim_start (after_word body))))"

definition parse_rename_command :: "string \<Rightarrow> string parsed" where
  "parse_rename_command t =
     (case strip_prefix t ''/'' of
        None \<Rightarrow> None
      | Some body \<Rightarrow>
          if first_word body \<noteq> ''rename'' then None
          else Some (if trim (after_word body) = [] then Inl ''usage: /rename <name>'' else Inr (trim (after_word body))))"

text \<open>\<^verbatim>\<open>text.strip_prefix('/')?.split_whitespace()\<close> with the command's name as its first word.\<close>

definition command_words :: "string \<Rightarrow> string \<Rightarrow> string list option" where
  "command_words name t =
     (case strip_prefix t ''/'' of
        None \<Rightarrow> None
      | Some body \<Rightarrow> (case split_whitespace body of w # ws \<Rightarrow> if w = name then Some ws else None | [] \<Rightarrow> None))"

definition child_listing :: "workflow_child list \<Rightarrow> string" where
  "child_listing cs = join ''; '' (map (\<lambda>c. wc_child_id c @ '' ('' @ wc_label c @ '', '' @ wc_status c @ '', attempt '' @
     show_nat (wc_attempt c) @ '')'') cs)"

definition child_control :: "string \<Rightarrow> workflow_child \<Rightarrow> protocol_command" where
  "child_control verb c = (''workflow/childControl'',
     [(''action'', JStr verb), (''attempt'', JNum (show_nat (wc_attempt c))), (''childId'', JStr (wc_child_id c)),
      (''workflowRunId'', JStr (wc_run_id c))])"

definition parse_workflow_child_command :: "string \<Rightarrow> workflow_child list \<Rightarrow> protocol_command parsed" where
  "parse_workflow_child_command t cs =
     (case command_words ''workflow-child'' t of
        None \<Rightarrow> None
      | Some ws \<Rightarrow>
          Some (if cs = [] then Inl ''no running workflow children to control''
            else case ws of
                   [verb, child_id] \<Rightarrow>
                     if verb \<in> {''skip'', ''retry''} then
                       (case filter (\<lambda>c. wc_child_id c = child_id) cs of
                          [] \<Rightarrow> Inl (''unknown workflow child '' @ child_id @ ''; running children: '' @ child_listing cs)
                        | [c] \<Rightarrow> Inr (child_control verb c)
                        | _ \<Rightarrow> Inl (''workflow child '' @ child_id @ '' is in more than one running workflow''))
                     else Inl (''usage: /workflow-child skip|retry <childId>; running children: '' @ child_listing cs)
                 | _ \<Rightarrow> Inl (''usage: /workflow-child skip|retry <childId>; running children: '' @ child_listing cs)))"

definition ACTIVATION_USAGE :: string where
  "ACTIVATION_USAGE = ''usage: /skill-activation <selector> on|userInvocableOnly|off [user|project|bundled|plugin]''"

definition parse_skill_activation_command :: "string \<Rightarrow> protocol_command parsed" where
  "parse_skill_activation_command t =
     (case command_words ''skill-activation'' t of
        None \<Rightarrow> None
      | Some [] \<Rightarrow> Some (Inl ACTIVATION_USAGE)
      | Some (selector # ws) \<Rightarrow>
          Some (case ws of
             [] \<Rightarrow> Inl (''activation must be on, userInvocableOnly, or off; '' @ ACTIVATION_USAGE)
           | activation # us \<Rightarrow>
               if activation \<notin> {''on'', ''userInvocableOnly'', ''off''}
               then Inl (''activation must be on, userInvocableOnly, or off; '' @ ACTIVATION_USAGE)
               else (let scope = (case us of u # _ \<Rightarrow> u | [] \<Rightarrow> ''user'') in
                     if scope \<notin> {''user'', ''project'', ''bundled'', ''plugin''}
                     then Inl (''scope must be user, project, bundled, or plugin; '' @ ACTIVATION_USAGE)
                     else if tl us \<noteq> [] then Inl ACTIVATION_USAGE
                     else Inr (''skill/setActivation'',
                       [(''selector'', JStr selector), (''activation'', JStr activation), (''scope'', JStr scope)]))))"

datatype cua_action =
    SessionStatus | InstalledApps | SessionStart | HostStatus | HostCheck
  | SetCapability string string
  | BlockApp string bool
  | SetApps "(string \<times> string) list"

definition CUA_USAGE :: string where
  "CUA_USAGE = ''usage: /cua [status|apps|host [status|check]|on|set computerControl|screenshots ask|alwaysAllow|app <bundleId> ask|alwaysAllow|blocked [...]|block|unblock <bundleId>]''"

fun app_patches :: "string list \<Rightarrow> (string \<times> string) list option" where
  "app_patches (bundle # choice # ws) =
     (if choice \<in> {''ask'', ''alwaysAllow'', ''blocked''} then map_option ((#) (bundle, choice)) (app_patches ws) else None)"
| "app_patches ws = Some []"

definition cua_argument :: "string list \<Rightarrow> cua_action option" where
  "cua_argument arg =
     (if arg = [] \<or> arg = [''status''] then Some SessionStatus
      else if arg = [''apps''] then Some InstalledApps
      else if arg = [''host''] \<or> arg = [''host'', ''status''] then Some HostStatus
      else if arg = [''host'', ''check''] then Some HostCheck
      else if arg = [''on''] then Some SessionStart
      else if length arg = 3 \<and> hd arg = ''set'' then
        (if arg ! 1 \<in> {''computerControl'', ''screenshots''} \<and> arg ! 2 \<in> {''ask'', ''alwaysAllow''}
         then Some (SetCapability (arg ! 1) (arg ! 2)) else None)
      else if length arg = 2 \<and> hd arg \<in> {''block'', ''unblock''} then Some (BlockApp (arg ! 1) (hd arg = ''block''))
      else if hd arg = ''app'' \<and> tl arg \<noteq> [] \<and> even (length (tl arg)) then map_option SetApps (app_patches (tl arg))
      else None)"

definition parse_cua_command :: "string \<Rightarrow> cua_action parsed" where
  "parse_cua_command t =
     map_option (\<lambda>ws. case cua_argument ws of Some a \<Rightarrow> Inr a | None \<Rightarrow> Inl CUA_USAGE) (command_words ''cua'' t)"

definition PLUGIN_USAGE :: string where
  "PLUGIN_USAGE = ''usage: /plugin install <marketplace> <name> | /plugin install <path> [default|user|project] | /plugin marketplace add <name> <source> | /plugin marketplace remove <name> | /plugin marketplace update <name>''"

text \<open>The argument is one of the two ASCII words \<^verbatim>\<open>remove\<close> and \<^verbatim>\<open>update\<close>.\<close>

fun titlecase :: "string \<Rightarrow> string" where
  "titlecase [] = []"
| "titlecase (c # cs) = (if 97 \<le> ord c \<and> ord c \<le> 122 then char_of (ord c - 32) else c) # cs"

definition plugin_target :: "J \<Rightarrow> protocol_command" where
  "plugin_target target = (''plugin/install'', [(''target'', target)])"

definition marketplace_add :: "string \<Rightarrow> string \<Rightarrow> protocol_command" where
  "marketplace_add name source = (''plugin/marketplaceAdd'', [(''name'', JStr name), (''source'', JStr source)])"

definition marketplace_change :: "string \<Rightarrow> string \<Rightarrow> protocol_command" where
  "marketplace_change verb name = (''plugin/marketplace'' @ titlecase verb, [(''name'', JStr name)])"

fun plugin_argument :: "string list \<Rightarrow> protocol_command option" where
  "plugin_argument [w, path] =
     (if w = ''install'' then Some (plugin_target (JObj [(''localPath'', JObj [(''path'', JStr path)])])) else None)"
| "plugin_argument [w, a, b] =
     (if w = ''install'' then
        (if b \<in> {''default'', ''user'', ''project''}
         then Some (plugin_target (JObj [(''localPath'', JObj [(''path'', JStr a), (''scope'', JStr b)])]))
         else Some (plugin_target (JObj [(''marketplace'', JObj [(''marketplace'', JStr a), (''name'', JStr b)])])))
      else if w = ''marketplace'' \<and> a \<in> {''remove'', ''update''} then Some (marketplace_change a b)
      else None)"
| "plugin_argument [w, a, name, source] =
     (if w = ''marketplace'' \<and> a = ''add'' then Some (marketplace_add name source) else None)"
| "plugin_argument ws = None"

definition parse_plugin_command :: "string \<Rightarrow> protocol_command parsed" where
  "parse_plugin_command t =
     map_option (\<lambda>ws. case plugin_argument ws of Some c \<Rightarrow> Inr c | None \<Rightarrow> Inl PLUGIN_USAGE) (command_words ''plugin'' t)"

definition IMPORT_USAGE :: string where
  "IMPORT_USAGE = ''usage: /skill-import <claude|codex> [dry-run] [force]''"

fun import_flags :: "string list \<Rightarrow> bool \<Rightarrow> bool \<Rightarrow> (bool \<times> bool) option" where
  "import_flags [] dry force = Some (dry, force)"
| "import_flags (w # ws) dry force =
     (if w = ''dry-run'' \<and> \<not> dry then import_flags ws True force
      else if w = ''force'' \<and> \<not> force then import_flags ws dry True
      else None)"

definition parse_skill_import_command :: "string \<Rightarrow> (string \<times> bool \<times> bool) parsed" where
  "parse_skill_import_command t =
     map_option (\<lambda>ws. case ws of
        [] \<Rightarrow> Inl IMPORT_USAGE
      | source # us \<Rightarrow>
          if source \<notin> {''claude'', ''codex''} then Inl (''source must be claude or codex; '' @ IMPORT_USAGE)
          else case import_flags us False False of Some (dry, force) \<Rightarrow> Inr (source, dry, force) | None \<Rightarrow> Inl IMPORT_USAGE)
       (command_words ''skill-import'' t)"

definition run_listing :: "workflow_run list \<Rightarrow> string" where
  "run_listing rs = join ''; '' (map (\<lambda>r. wr_run_id r @ '' ('' @ (if wr_paused r then ''paused'' else ''running'') @ '', '' @
     (if wr_child_count r = 1 then ''1 child'' else show_nat (wr_child_count r) @ '' children'') @ '')'') rs)"

definition workflow_usage :: "workflow_run list \<Rightarrow> string" where
  "workflow_usage rs =
     (if rs = [] then ''usage: /workflow pause|resume; no workflow runs are running''
      else ''usage: /workflow pause|resume [<runId>]; live runs: '' @ run_listing rs)"

definition workflow_verb :: "workflow_run list \<Rightarrow> string \<Rightarrow> string \<Rightarrow> string + protocol_command" where
  "workflow_verb rs verb run_id =
     (if \<not> list_ex (\<lambda>r. wr_run_id r = run_id) rs then Inl (''unknown workflow run '' @ run_id @ ''; live runs: '' @ run_listing rs)
      else Inr (''workflow/'' @ verb, [(''workflowRunId'', JStr run_id)]))"

definition parse_workflow_command :: "string \<Rightarrow> workflow_run list \<Rightarrow> protocol_command parsed" where
  "parse_workflow_command t rs =
     map_option (\<lambda>ws. case ws of
        [] \<Rightarrow> Inl (workflow_usage rs)
      | verb # us \<Rightarrow>
          if verb \<notin> {''pause'', ''resume''} then Inl (workflow_usage rs)
          else (case us of
             [] \<Rightarrow> (case rs of
                     [] \<Rightarrow> Inl (''no workflow runs are running to '' @ verb)
                   | [r] \<Rightarrow> workflow_verb rs verb (wr_run_id r)
                   | _ \<Rightarrow> Inl (workflow_usage rs))
           | [run_id] \<Rightarrow> workflow_verb rs verb run_id
           | _ \<Rightarrow> Inl (workflow_usage rs)))
       (command_words ''workflow'' t)"

section \<open>Command lines\<close>

definition PROTOCOL_COMMANDS :: "string list" where
  "PROTOCOL_COMMANDS = [''cua'', ''feedback'', ''goal'', ''plugin'', ''recap'', ''rename'', ''skill-activation'', ''skill-import'',
     ''workflow'', ''workflow-child'']"

datatype content_block =
    TextBlock string
  | ImageBlock string string
  | AudioBlock
  | LinkBlock string string "string option"
  | TextResource string string
  | BlobResource string string "string option"
  | OtherBlock string

text \<open>A block of the prompt with the block as the client sent it. A link block has its uri, its name and its
  media type; a blob its uri, its data and its media type.\<close>

record block =
  bl_content :: content_block
  bl_echo :: echo_block

definition mention :: "string \<Rightarrow> string \<Rightarrow> string" where
  "mention label uri = ''[@'' @ label @ '']('' @ uri @ '')''"

definition uri_label :: "string \<Rightarrow> string" where
  "uri_label uri = (if last (split_on (CHR ''/'') uri) = [] then uri else last (split_on (CHR ''/'') uri))"

definition block_line :: "content_block \<Rightarrow> string option" where
  "block_line b =
     (case b of
        TextBlock t \<Rightarrow> Some t
      | LinkBlock uri name mime \<Rightarrow> if uri = [] then None else Some (mention (if name = [] then uri else name) uri)
      | TextResource uri t \<Rightarrow> if uri = [] then None else Some (mention (uri_label uri) uri)
      | BlobResource uri blob mime \<Rightarrow> if uri = [] then None else Some (mention (uri_label uri) uri)
      | _ \<Rightarrow> None)"

fun block_lines :: "content_block list \<Rightarrow> string option" where
  "block_lines [] = Some []"
| "block_lines (b # bs) = (case (block_line b, block_lines bs) of (Some l, Some ls) \<Rightarrow> Some (l @ ls) | _ \<Rightarrow> None)"

definition protocol_command_text :: "content_block list \<Rightarrow> bool \<Rightarrow> string parsed" where
  "protocol_command_text bs feedback =
     (case bs of
        TextBlock t # _ \<Rightarrow>
          (case strip_prefix t ''/'' of
             None \<Rightarrow> None
           | Some body \<Rightarrow>
               (let name = first_word body in
                if name \<notin> set PROTOCOL_COMMANDS \<or> (name = ''feedback'' \<and> \<not> feedback) then None
                else Some (case block_lines bs of
                       Some line \<Rightarrow> Inr line
                     | None \<Rightarrow> Inl (''/'' @ name @ '' accepts text and @-mentions only; remove images and other attachments''))))
      | _ \<Rightarrow> None)"

definition goal_fields :: "string \<times> string option \<Rightarrow> protocol_command" where
  "goal_fields c = (fst c, (case snd c of Some ob \<Rightarrow> [(''objective'', JStr ob)] | None \<Rightarrow> []))"

definition rename_fields :: "string \<Rightarrow> protocol_command" where
  "rename_fields name = (''session/rename'', [(''name'', JStr name)])"

definition parse_protocol_command :: "string \<Rightarrow> workflow_child list \<Rightarrow> workflow_run list \<Rightarrow> protocol_command parsed" where
  "parse_protocol_command t cs rs =
     (case parse_goal_command t of
        Some p \<Rightarrow> Some (map_sum id goal_fields p)
      | None \<Rightarrow>
     (case parse_rename_command t of
        Some p \<Rightarrow> Some (map_sum id rename_fields p)
      | None \<Rightarrow>
     (case parse_skill_activation_command t of
        Some p \<Rightarrow> Some p
      | None \<Rightarrow>
     (case parse_plugin_command t of
        Some p \<Rightarrow> Some p
      | None \<Rightarrow>
     (case parse_workflow_command t rs of
        Some p \<Rightarrow> Some p
      | None \<Rightarrow> parse_workflow_child_command t cs)))))"

text \<open>Which of the local commands a line is: the order of the tests in the prompt handler.\<close>

datatype command_line =
    FeedbackLine string
  | RecapLine string
  | ImportLine "string + string \<times> bool \<times> bool"
  | CuaLine "string + cua_action"
  | HostLine "string + protocol_command"

definition own_argument :: "string \<Rightarrow> string \<Rightarrow> string option" where
  "own_argument name line =
     (case strip_prefix line name of
        Some arg \<Rightarrow> if arg = [] \<or> starts_white arg then Some (trim arg) else None
      | None \<Rightarrow> None)"

definition classify_line :: "string \<Rightarrow> workflow_child list \<Rightarrow> workflow_run list \<Rightarrow> command_line" where
  "classify_line line cs rs =
     (case own_argument ''/feedback'' line of
        Some arg \<Rightarrow> FeedbackLine arg
      | None \<Rightarrow>
     (case own_argument ''/recap'' line of
        Some arg \<Rightarrow> RecapLine arg
      | None \<Rightarrow>
     (case parse_skill_import_command line of
        Some p \<Rightarrow> ImportLine p
      | None \<Rightarrow>
     (case parse_cua_command line of
        Some p \<Rightarrow> CuaLine p
      | None \<Rightarrow>
          HostLine (case parse_protocol_command line cs rs of
            Some p \<Rightarrow> p | None \<Rightarrow> Inl (''unrecognized command: '' @ line))))))"

end
