(* ===== verification/Command_Props.thy ===== *)
theory Command_Props
  imports Commands
begin

text \<open>
  What the command parsers promise: a prompt that is a command line is claimed by exactly the parser its
  name says, the methods they produce have a fixed shape and address only workflows that are running, and
  a word that asks to stop is never stored as a goal.
\<close>

section \<open>Words of a line\<close>

text \<open>A word of ASCII characters that are not white space.\<close>

definition plain_word :: "string \<Rightarrow> bool" where
  "plain_word w \<longleftrightarrow> w \<noteq> [] \<and> list_all (\<lambda>a. ord a < 128 \<and> \<not> is_whitespace (ord a)) w"

lemma plain_word_ascii: "plain_word w \<Longrightarrow> list_all (\<lambda>a. ord a < 128) w"
  by (auto simp: plain_word_def list_all_iff)

lemma plain_word_chars: "plain_word w \<Longrightarrow> chars w = map ord w"
  by (rule chars_ascii [OF plain_word_ascii])

lemma plain_word_utf8: "plain_word w \<Longrightarrow> utf8 w"
  by (rule utf8_ascii [OF plain_word_ascii])

lemma scalar_takeWhile: "list_all is_scalar cs \<Longrightarrow> list_all is_scalar (takeWhile P cs)"
  by (auto simp: list_all_iff dest: set_takeWhileD)

lemma scalar_dropWhile: "list_all is_scalar cs \<Longrightarrow> list_all is_scalar (dropWhile P cs)"
  by (auto simp: list_all_iff dest: set_dropWhileD)

lemmas scalar_rules = scalar_takeWhile scalar_dropWhile

lemma chars_first_word: "chars (first_word b) = takeWhile (\<lambda>c. \<not> is_whitespace c) (chars b)"
  by (simp add: first_word_def scalar_takeWhile)

lemma first_word_nil: "first_word b = [] \<longleftrightarrow> takeWhile (\<lambda>c. \<not> is_whitespace c) (chars b) = []"
  by (metis chars_Nil chars_first_word first_word_def of_chars_Nil)

lemma words_of_first:
  "acc @ takeWhile (\<lambda>c. \<not> is_whitespace c) cs \<noteq> [] \<Longrightarrow>
   words_of acc cs = (acc @ takeWhile (\<lambda>c. \<not> is_whitespace c) cs) # words_of [] (dropWhile (\<lambda>c. \<not> is_whitespace c) cs)"
proof (induction cs arbitrary: acc)
  case (Cons c cs)
  then show ?case using Cons.IH [of "acc @ [c]"] by (cases "is_whitespace c") auto
qed simp

lemma split_first: "first_word b \<noteq> [] \<Longrightarrow> \<exists>ws. split_whitespace b = first_word b # ws"
  using words_of_first [of "[]" "chars b"] by (simp add: split_whitespace_def first_word_nil) (simp add: first_word_def)

lemma command_words_claims:
  "first_word b \<noteq> [] \<Longrightarrow> command_words name (CHR ''/'' # b) \<noteq> None \<longleftrightarrow> first_word b = name"
  using split_first [of b] by (auto simp: command_words_def strip_prefix_def split: if_splits)

lemma own_argument_claims:
  assumes "utf8 b" "plain_word w"
  shows "own_argument (CHR ''/'' # w) (CHR ''/'' # b) \<noteq> None \<longleftrightarrow> first_word b = w"
proof
  define dw where "dw = dropWhile (\<lambda>c. \<not> is_whitespace c) (chars b)"
  assume f: "first_word b = w"
  have "of_chars (takeWhile (\<lambda>c. \<not> is_whitespace c) (chars b) @ dw) = b" by (simp add: dw_def assms(1))
  then have "w @ of_chars dw = b" unfolding of_chars_append f [unfolded first_word_def] .
  note b = this [symmetric]
  have "chars (of_chars dw) = dw" by (simp add: dw_def scalar_dropWhile)
  moreover have "dw \<noteq> [] \<Longrightarrow> is_whitespace (hd dw)" unfolding dw_def using hd_dropWhile [of "\<lambda>c. \<not> is_whitespace c" "chars b"] by simp
  ultimately have "of_chars dw = [] \<or> starts_white (of_chars dw)" by (cases dw) (auto simp: starts_white_def)
  then show "own_argument (CHR ''/'' # w) (CHR ''/'' # b) \<noteq> None"
    by (subst b) (simp add: own_argument_def strip_prefix_def)
next
  assume "own_argument (CHR ''/'' # w) (CHR ''/'' # b) \<noteq> None"
  then obtain arg where b: "b = w @ arg" and a: "arg = [] \<or> starts_white arg"
    by (auto simp: own_argument_def strip_prefix_def prefix_def split: if_splits)
  have u: "utf8 arg" using assms b by (simp add: plain_word_utf8 utf8_append_cancel)
  have "takeWhile (\<lambda>c. \<not> is_whitespace c) (chars b) = map ord w @ takeWhile (\<lambda>c. \<not> is_whitespace c) (chars arg)"
    unfolding b using assms(2) u
    by (subst chars_append) (auto simp: plain_word_utf8 plain_word_chars plain_word_def list_all_iff intro!: takeWhile_append2)
  also have "takeWhile (\<lambda>c. \<not> is_whitespace c) (chars arg) = []"
    using a by (cases "chars arg") (auto simp: starts_white_def)
  finally show "first_word b = w"
    by (simp add: first_word_def) (metis assms(2) of_chars_chars plain_word_chars plain_word_utf8)
qed

text \<open>A line of plain words, one space between them.\<close>

lemma takeWhile_plain: "plain_word w \<Longrightarrow> takeWhile (\<lambda>c. \<not> is_whitespace c) (map ord w @ xs) = map ord w @ takeWhile (\<lambda>c. \<not> is_whitespace c) xs"
  by (rule takeWhile_append2) (auto simp: plain_word_def list_all_iff)

lemma of_chars_plain: "plain_word w \<Longrightarrow> of_chars (map ord w) = w"
  by (metis of_chars_chars plain_word_chars plain_word_utf8)

lemma chars_space: "plain_word w \<Longrightarrow> utf8 s \<Longrightarrow> chars (w @ CHR '' '' # s) = map ord w @ 0x20 # chars s"
  using chars_append [of w "CHR '' '' # s"] chars_append [of "''  ''" s] chars_append [of "'' ''" s]
  by (simp add: plain_word_utf8 plain_word_chars utf8_ascii_Cons chars_ascii)

lemma white_space: "is_whitespace 0x20"
  by (simp add: is_whitespace_def)

lemma first_word_space: "plain_word w \<Longrightarrow> utf8 s \<Longrightarrow> first_word (w @ CHR '' '' # s) = w"
  by (simp add: first_word_def chars_space takeWhile_plain of_chars_plain white_space)

lemma words_plain: "list_all (\<lambda>c. \<not> is_whitespace c) xs \<Longrightarrow> words_of acc (xs @ ys) = words_of (acc @ xs) ys"
  by (induction xs arbitrary: acc) auto

lemma split_space: "plain_word w \<Longrightarrow> utf8 s \<Longrightarrow> split_whitespace (w @ CHR '' '' # s) = w # split_whitespace s"
  using words_plain [of "map ord w" "[]"]
  by (simp add: split_whitespace_def chars_space plain_word_def list_all_iff is_whitespace_def) (simp add: of_chars_plain plain_word_def list_all_iff is_whitespace_def)

lemma split_word: "plain_word w \<Longrightarrow> split_whitespace w = [w]"
  using words_plain [of "map ord w" "[]" "[]"]
  by (simp add: split_whitespace_def plain_word_chars plain_word_def list_all_iff) (simp add: of_chars_plain plain_word_def list_all_iff)

section \<open>One parser per command line\<close>

definition claims :: "string \<Rightarrow> workflow_child list \<Rightarrow> workflow_run list \<Rightarrow> (string \<times> bool) list" where
  "claims t cs rs =
     [(''cua'', parse_cua_command t \<noteq> None), (''feedback'', own_argument ''/feedback'' t \<noteq> None),
      (''goal'', parse_goal_command t \<noteq> None), (''plugin'', parse_plugin_command t \<noteq> None),
      (''recap'', own_argument ''/recap'' t \<noteq> None), (''rename'', parse_rename_command t \<noteq> None),
      (''skill-activation'', parse_skill_activation_command t \<noteq> None),
      (''skill-import'', parse_skill_import_command t \<noteq> None), (''workflow'', parse_workflow_command t rs \<noteq> None),
      (''workflow-child'', parse_workflow_child_command t cs \<noteq> None)]"

definition claimants :: "string \<Rightarrow> workflow_child list \<Rightarrow> workflow_run list \<Rightarrow> string list" where
  "claimants t cs rs = map fst (filter snd (claims t cs rs))"

lemma claims_names:
  assumes u: "utf8 b" and ne: "first_word b \<noteq> []"
  shows "claims (CHR ''/'' # b) cs rs = map (\<lambda>name. (name, first_word b = name)) PROTOCOL_COMMANDS"
proof -
  have fb: "own_argument ''/feedback'' (CHR ''/'' # b) \<noteq> None \<longleftrightarrow> first_word b = ''feedback''"
    "own_argument ''/recap'' (CHR ''/'' # b) \<noteq> None \<longleftrightarrow> first_word b = ''recap''"
    by (rule own_argument_claims [OF u], simp add: plain_word_def is_whitespace_def)+
  have goal: "parse_goal_command (CHR ''/'' # b) \<noteq> None \<longleftrightarrow> first_word b = ''goal''"
    and rename: "parse_rename_command (CHR ''/'' # b) \<noteq> None \<longleftrightarrow> first_word b = ''rename''"
    by (simp_all add: parse_goal_command_def parse_rename_command_def strip_prefix_def)
  have activation: "parse_skill_activation_command t \<noteq> None \<longleftrightarrow> command_words ''skill-activation'' t \<noteq> None" for t
    by (auto simp: parse_skill_activation_command_def split: option.split list.split)
  have child: "parse_workflow_child_command t cs \<noteq> None \<longleftrightarrow> command_words ''workflow-child'' t \<noteq> None" for t
    by (simp add: parse_workflow_child_command_def split: option.split)
  have mapped: "parse_cua_command t \<noteq> None \<longleftrightarrow> command_words ''cua'' t \<noteq> None"
    "parse_plugin_command t \<noteq> None \<longleftrightarrow> command_words ''plugin'' t \<noteq> None"
    "parse_skill_import_command t \<noteq> None \<longleftrightarrow> command_words ''skill-import'' t \<noteq> None"
    "parse_workflow_command t rs \<noteq> None \<longleftrightarrow> command_words ''workflow'' t \<noteq> None" for t
    by (simp_all add: parse_cua_command_def parse_plugin_command_def parse_skill_import_command_def parse_workflow_command_def)
  show ?thesis
    unfolding claims_def PROTOCOL_COMMANDS_def fb goal rename activation child mapped command_words_claims [OF ne] by simp
qed

lemma filter_one: "distinct xs \<Longrightarrow> x \<in> set xs \<Longrightarrow> filter (\<lambda>y. x = y) xs = [x]"
  by (induction xs) (auto simp: filter_empty_conv)

lemma claimants_name:
  assumes "utf8 b" "first_word b \<in> set PROTOCOL_COMMANDS"
  shows "claimants (CHR ''/'' # b) cs rs = [first_word b]"
proof -
  have "first_word b \<noteq> []" using assms(2) by (auto simp: PROTOCOL_COMMANDS_def)
  then have "claimants (CHR ''/'' # b) cs rs = filter (\<lambda>name. first_word b = name) PROTOCOL_COMMANDS"
    by (simp add: claimants_def claims_names [OF assms(1)] filter_map comp_def)
  also have "\<dots> = [first_word b]" by (rule filter_one [OF _ assms(2)]) (simp add: PROTOCOL_COMMANDS_def)
  finally show ?thesis .
qed

lemma host_line_known:
  assumes "claimants t cs rs \<noteq> []" "classify_line t cs rs = HostLine p"
  shows "parse_protocol_command t cs rs = Some p"
proof (cases "parse_protocol_command t cs rs")
  case None
  with assms(2) have "claimants t cs rs = []"
    by (auto simp: claimants_def claims_def classify_line_def parse_protocol_command_def split: option.splits)
  with assms(1) show ?thesis by simp
next
  case (Some q)
  with assms(2) show ?thesis by (auto simp: classify_line_def split: option.splits)
qed

text \<open>C35: A prompt of one text block that is a command line is claimed by exactly one parser, the one its
  first word names, so no such line is refused as an unrecognized command.\<close>

theorem command_claimed_once:
  assumes "utf8 t" "protocol_command_text [TextBlock t] feedback = Some (Inr line)"
  shows "line = t \<and> claimants line cs rs = [first_word (tl t)] \<and>
    (\<forall>p. classify_line line cs rs = HostLine p \<longrightarrow> parse_protocol_command line cs rs = Some p)"
proof -
  obtain b where sb: "strip_prefix t ''/'' = Some b"
    using assms(2) by (auto simp: protocol_command_text_def split: option.splits)
  then have t: "t = CHR ''/'' # b" by (auto simp: strip_prefix_def prefix_def split: if_splits)
  have n: "first_word b \<in> set PROTOCOL_COMMANDS" and l: "line = t"
    using assms(2) by (simp_all add: protocol_command_text_def sb block_line_def Let_def split: if_split_asm)
  have "utf8 b" using assms(1) t by (simp add: utf8_ascii_Cons)
  from claimants_name [OF this n] have "claimants t cs rs = [first_word b]" by (simp add: t)
  then show ?thesis using l host_line_known [of t cs rs] by (simp add: t)
qed

theorem command_claimed_once_witness:
  "claimants ''/recap now'' [] [] = [''recap'']"
proof -
  have u: "utf8 ''/recap now''" by (rule utf8_ascii) simp
  have f: "first_word ''recap now'' = ''recap''"
    using first_word_space [of "''recap''" "''now''"] by (simp add: plain_word_def is_whitespace_def utf8_ascii)
  have "protocol_command_text [TextBlock ''/recap now''] True = Some (Inr ''/recap now'')"
    by (simp add: protocol_command_text_def strip_prefix_def f PROTOCOL_COMMANDS_def block_line_def)
  from command_claimed_once [OF u this, of "[]" "[]"] f show ?thesis by simp
qed

section \<open>What reaches the host\<close>

text \<open>The methods of the host commands with the members they take besides the command and session ids.\<close>

definition HOST_METHODS :: "(string \<times> string list) list" where
  "HOST_METHODS =
     [(''goal/set'', [''objective'']), (''goal/edit'', [''objective'']), (''goal/pause'', []), (''goal/resume'', []),
      (''goal/clear'', []), (''session/rename'', [''name'']),
      (''skill/setActivation'', [''selector'', ''activation'', ''scope'']), (''plugin/install'', [''target'']),
      (''plugin/marketplaceAdd'', [''name'', ''source'']), (''plugin/marketplaceRemove'', [''name'']),
      (''plugin/marketplaceUpdate'', [''name'']), (''workflow/pause'', [''workflowRunId'']),
      (''workflow/resume'', [''workflowRunId'']),
      (''workflow/childControl'', [''action'', ''attempt'', ''childId'', ''workflowRunId''])]"

lemma if_Inr:
  "(if c then Inl e else x) = Inr y \<longleftrightarrow> \<not> c \<and> x = Inr y" "(if c then x else Inl e) = Inr y \<longleftrightarrow> c \<and> x = Inr y"
  by simp_all

lemma if_Inr_split: "(if c then x else x') = Inr y \<longleftrightarrow> (c \<and> x = Inr y) \<or> (\<not> c \<and> x' = Inr y)"
  by simp

lemma goal_shape:
  assumes "parse_goal_command t = Some (Inr c)"
  shows "(fst (goal_fields c), map fst (snd (goal_fields c))) \<in> set HOST_METHODS"
proof -
  obtain r where "goal_argument r = Inr c" using assms by (auto simp: parse_goal_command_def split: option.splits if_splits)
  then consider ob where "c = (''goal/edit'', Some ob)" | ob where "c = (''goal/set'', Some ob)"
    | verb where "verb \<in> {''pause'', ''resume'', ''clear''}" "c = (''goal/'' @ verb, None)"
    unfolding goal_argument_def Let_def if_Inr by (metis (no_types) Inr_inject Inl_Inr_False)
  then show ?thesis by cases (auto simp: goal_fields_def HOST_METHODS_def)
qed

lemma activation_shape:
  assumes "parse_skill_activation_command t = Some (Inr (m, fs))"
  shows "m = ''skill/setActivation'' \<and> map fst fs = [''selector'', ''activation'', ''scope'']"
proof -
  obtain ws where ws: "command_words ''skill-activation'' t = Some ws" "ws \<noteq> []"
    using assms by (auto simp: parse_skill_activation_command_def split: option.splits list.splits)
  then obtain x xs where x: "ws = x # xs" by (cases ws) auto
  show ?thesis using assms unfolding parse_skill_activation_command_def ws(1) x Let_def
    by (cases xs) (auto simp: if_Inr simp del: insert_iff)
qed

lemma if_Some_split: "(if c then x else x') = Some y \<longleftrightarrow> (c \<and> x = Some y) \<or> (\<not> c \<and> x' = Some y)"
  by simp

lemma case_Some_iff:
  "(case x of Some p \<Rightarrow> Some (f p) | None \<Rightarrow> r) = Some y \<longleftrightarrow> (\<exists>p. x = Some p \<and> f p = y) \<or> (x = None \<and> r = Some y)"
  by (cases x) auto

lemma map_sum_Inr: "map_sum id f p = Inr y \<longleftrightarrow> (\<exists>q. p = Inr q \<and> f q = y)"
  by (cases p) auto

lemma titles: "char_of (82::nat) = CHR ''R''" "char_of (85::nat) = CHR ''U''"
  by (simp_all add: char_of_def bit_0)

lemma plugin_shape:
  assumes "plugin_argument ws = Some (m, fs)"
  shows "(m, map fst fs) \<in> set HOST_METHODS \<and> map_of fs ''workflowRunId'' = None"
proof -
  have target: "?thesis" if "plugin_target j = (m, fs)" for j
    using that [symmetric] by (simp add: plugin_target_def HOST_METHODS_def)
  have add: "?thesis" if "marketplace_add x z = (m, fs)" for x z
    using that [symmetric] by (simp add: marketplace_add_def HOST_METHODS_def)
  have change: "?thesis" if "a \<in> {''remove'', ''update''}" "marketplace_change a x = (m, fs)" for a x
    using that(1) that(2) [symmetric] by (elim insertE emptyE) (simp_all add: marketplace_change_def HOST_METHODS_def titles)
  show ?thesis
  proof (cases ws rule: plugin_argument.cases)
    case (1 w path) with assms target show ?thesis by (simp only: plugin_argument.simps if_Some_split) blast
  next
    case (2 w a b) with assms show ?thesis
      by (simp only: plugin_argument.simps if_Some_split option.inject option.distinct) (elim disjE conjE FalseE; (rule change target, assumption+)?; rule target, assumption)
  next
    case (3 w a name source) with assms add show ?thesis by (simp only: plugin_argument.simps if_Some_split) blast
  qed (use assms in simp_all)
qed

lemma run_shape:
  "workflow_verb rs verb r = Inr (m, fs) \<Longrightarrow> m = ''workflow/'' @ verb \<and> fs = [(''workflowRunId'', JStr r)] \<and> r \<in> wr_run_id ` set rs"
  unfolding workflow_verb_def if_Inr by (auto simp: list_ex_iff)

lemma workflow_shape:
  assumes "parse_workflow_command t rs = Some (Inr (m, fs))"
  shows "m \<in> {''workflow/pause'', ''workflow/resume''} \<and> (\<exists>r \<in> wr_run_id ` set rs. fs = [(''workflowRunId'', JStr r)])"
proof -
  obtain ws where ws: "command_words ''workflow'' t = Some ws" using assms by (auto simp: parse_workflow_command_def)
  with assms obtain verb us where u: "ws = verb # us" by (cases ws) (auto simp: parse_workflow_command_def)
  have v: "verb \<in> {''pause'', ''resume''}" and r: "\<exists>r. workflow_verb rs verb r = Inr (m, fs)"
    using assms unfolding parse_workflow_command_def ws u
    by (auto simp: if_Inr simp del: insert_iff split: list.splits)
  then obtain r where "workflow_verb rs verb r = Inr (m, fs)" by blast
  from run_shape [OF this] v show ?thesis by auto
qed

lemma child_shape:
  assumes "parse_workflow_child_command t cs = Some (Inr (m, fs))"
  shows "\<exists>c verb. filter (\<lambda>d. wc_child_id d = wc_child_id c) cs = [c] \<and> verb \<in> {''skip'', ''retry''} \<and> (m, fs) = child_control verb c"
proof -
  obtain verb i where s: "verb \<in> {''skip'', ''retry''}" "parse_workflow_child_command t cs = Some (case filter (\<lambda>c. wc_child_id c = i) cs of
      [] \<Rightarrow> Inl (''unknown workflow child '' @ i @ ''; running children: '' @ child_listing cs)
    | [c] \<Rightarrow> Inr (child_control verb c)
    | _ \<Rightarrow> Inl (''workflow child '' @ i @ '' is in more than one running workflow''))"
    using assms unfolding parse_workflow_child_command_def by (fastforce split: option.splits list.splits if_splits)
  with assms obtain c where f: "filter (\<lambda>c. wc_child_id c = i) cs = [c]" and m: "(m, fs) = child_control verb c"
    by (auto split: list.splits)
  from f have "wc_child_id c = i" by (metis (mono_tags, lifting) filter_eq_ConsD)
  with f m s(1) show ?thesis by blast
qed

lemma protocol_cases:
  assumes "parse_protocol_command t cs rs = Some (Inr y)"
  obtains (goal) c where "parse_goal_command t = Some (Inr c)" "y = goal_fields c"
    | (rename) name where "y = rename_fields name"
    | (activation) "parse_skill_activation_command t = Some (Inr y)"
    | (plugin) ws where "plugin_argument ws = Some y"
    | (run) "parse_workflow_command t rs = Some (Inr y)"
    | (child) "parse_workflow_child_command t cs = Some (Inr y)"
proof -
  have plugin_Inr: "\<exists>ws. plugin_argument ws = Some y" if "parse_plugin_command t = Some (Inr y)"
    using that by (auto simp: parse_plugin_command_def split: option.splits)
  show thesis using assms unfolding parse_protocol_command_def case_Some_iff map_sum_Inr
  proof (elim disjE exE conjE, goal_cases)
    case (1 p c) then show ?case by (intro goal [of c]) simp_all
  next
    case (2 p name) then show ?case by (intro rename [of name]) simp
  next
    case 3 then show ?case by (intro activation) simp
  next
    case 4 with plugin_Inr obtain ws where "plugin_argument ws = Some y" by blast
    then show ?case by (rule plugin)
  next
    case 5 then show ?case by (intro run) simp
  next
    case 6 then show ?case by (intro child) simp
  qed
qed

text \<open>Every host command has a known method with exactly its members, so none overrides the command or
  session id, and a workflow it addresses is one that is running: a run id is that of a live run, a child
  command carries the run and the attempt of the only running child with its id.\<close>

theorem protocol_command_shape:
  assumes "parse_protocol_command t cs rs = Some (Inr (m, fs))"
  shows "(m, map fst fs) \<in> set HOST_METHODS \<and>
    (map_of fs ''workflowRunId'' = None \<or> (\<exists>r \<in> wr_run_id ` set rs. fs = [(''workflowRunId'', JStr r)]) \<or>
     (\<exists>c verb. filter (\<lambda>d. wc_child_id d = wc_child_id c) cs = [c] \<and> (m, fs) = child_control verb c))"
proof -
  from assms show ?thesis
  proof (cases rule: protocol_cases)
    case (goal c)
    from goal_shape [OF goal(1)] have "(m, map fst fs) \<in> set HOST_METHODS" using goal(2) by (metis fst_conv snd_conv)
    moreover have "map_of fs ''workflowRunId'' = None" using goal(2) by (simp add: goal_fields_def split: option.splits)
    ultimately show ?thesis by simp
  next
    case rename then show ?thesis by (simp add: rename_fields_def HOST_METHODS_def)
  next
    case activation
    from activation_shape [OF this] have f: "m = ''skill/setActivation''" "map fst fs = [''selector'', ''activation'', ''scope'']" by auto
    then have "''workflowRunId'' \<notin> set (map fst fs)" by (simp only: f) simp
    then have "map_of fs ''workflowRunId'' = None" by (simp add: map_of_eq_None_iff)
    with f show ?thesis by (simp add: HOST_METHODS_def)
  next
    case plugin from plugin_shape [OF this] show ?thesis by simp
  next
    case run
    from workflow_shape [OF this] have w: "m \<in> {''workflow/pause'', ''workflow/resume''}" "\<exists>r \<in> wr_run_id ` set rs. fs = [(''workflowRunId'', JStr r)]" by simp_all
    then have "map fst fs = [''workflowRunId'']" by auto
    with w(1) have "(m, map fst fs) \<in> set HOST_METHODS" by (elim insertE emptyE) (simp_all add: HOST_METHODS_def)
    with w(2) show ?thesis by simp
  next
    case child
    then obtain c verb where c: "filter (\<lambda>d. wc_child_id d = wc_child_id c) cs = [c]" "(m, fs) = child_control verb c"
      using child_shape by blast
    from c(2) have "(m, map fst fs) \<in> set HOST_METHODS" by (simp add: child_control_def HOST_METHODS_def)
    with c show ?thesis by blast
  qed
qed

definition demo_child :: workflow_child where
  "demo_child = \<lparr>wc_run_id = ''r1'', wc_child_id = ''c1'', wc_attempt = 2, wc_status = ''running'', wc_label = ''build''\<rparr>"

theorem protocol_command_shape_witness:
  "(''workflow/childControl'', map fst (snd (child_control ''retry'' demo_child))) \<in> set HOST_METHODS"
proof -
  have p: "plain_word ''workflow-child''" "plain_word ''retry''" "plain_word ''c1''" by (simp_all add: plain_word_def is_whitespace_def)
  have u: "utf8 ''retry c1''" "utf8 ''c1''" by (rule utf8_ascii, simp)+
  have f: "first_word ''workflow-child retry c1'' = ''workflow-child''"
    using first_word_space [OF p(1) u(1)] by simp
  have w: "split_whitespace ''workflow-child retry c1'' = [''workflow-child'', ''retry'', ''c1'']"
    using split_space [OF p(1) u(1)] split_space [OF p(2) u(2)] split_word [OF p(3)] by simp
  have "parse_protocol_command ''/workflow-child retry c1'' [demo_child] [] = Some (Inr (child_control ''retry'' demo_child))"
    by (simp add: parse_protocol_command_def parse_goal_command_def parse_rename_command_def parse_skill_activation_command_def
        parse_plugin_command_def parse_workflow_command_def parse_workflow_child_command_def command_words_def strip_prefix_def f w
        demo_child_def)
  then show ?thesis
    using protocol_command_shape [of "''/workflow-child retry c1''" "[demo_child]" "[]" "''workflow/childControl''" "snd (child_control ''retry'' demo_child)"]
    by (simp add: child_control_def)
qed

section \<open>Goals\<close>

abbreviation white :: "scalar \<Rightarrow> bool" where
  "white \<equiv> is_whitespace"

abbreviation rstrip :: "('a \<Rightarrow> bool) \<Rightarrow> 'a list \<Rightarrow> 'a list" where
  "rstrip P xs \<equiv> rev (dropWhile P (rev xs))"

lemma rstrip_split: "xs = rstrip P xs @ rev (takeWhile P (rev xs))"
  by (metis rev_append rev_rev_ident takeWhile_dropWhile_id)

lemma rstrip_keeps: "x \<in> set xs \<Longrightarrow> \<not> P x \<Longrightarrow> x \<in> set (rstrip P xs)"
  using rstrip_split [of xs P] by (metis Un_iff set_append set_rev set_takeWhileD)

lemma rstrip_white_chars: "chars (trim t) = rstrip white (dropWhile white (chars t))"
  by (simp add: trim_def list_all_iff scalar_rules) (metis (no_types, lifting) chars_of_chars chars_scalar list_all_iff list_all_rev scalar_dropWhile)

lemma control_lower: "\<forall>w \<in> set CONTROL_WORDS. \<forall>a \<in> set (to_ascii_lowercase w). 97 \<le> ord a \<and> ord a \<le> 122"
  by (simp add: CONTROL_WORDS_def to_ascii_lowercase_def ascii_lower_def)

lemma control_word_black:
  assumes "control_word t" "c \<in> set (chars t)"
  shows "\<not> white c"
proof
  assume c: "white c"
  then have "\<not> is_ascii_punctuation c" by (auto simp: is_whitespace_def is_ascii_punctuation_def)
  define p where "p = trim_end_by is_ascii_punctuation t"
  have "chars p = rstrip is_ascii_punctuation (chars t)"
    by (simp add: p_def trim_end_by_def list_all_iff scalar_rules) (metis (no_types, lifting) chars_of_chars chars_scalar list_all_rev scalar_dropWhile)
  with rstrip_keeps [of c "chars t" is_ascii_punctuation] assms(2) \<open>\<not> is_ascii_punctuation c\<close> have cp: "c \<in> set (chars p)" by simp
  obtain w where w: "w \<in> set CONTROL_WORDS" "to_ascii_lowercase p = to_ascii_lowercase w"
    using assms(1) unfolding control_word_def list_ex_iff eq_ignore_ascii_case_def p_def by blast
  with control_lower have "\<forall>a \<in> set (to_ascii_lowercase p). 97 \<le> ord a \<and> ord a \<le> 122" by simp
  then have l: "\<forall>a \<in> set p. 97 \<le> ord (ascii_lower a) \<and> ord (ascii_lower a) \<le> 122" by (simp add: to_ascii_lowercase_def)
  have "65 \<le> ord a \<and> ord a \<le> 122" if "a \<in> set p" for a
    using l that by (auto simp: ascii_lower_def split: if_splits)
  then have letters: "\<forall>a \<in> set p. 65 \<le> ord a \<and> ord a \<le> 122" by blast
  then have "chars p = map ord p" by (intro chars_ascii) (auto simp: list_all_iff)
  with cp letters have "65 \<le> c \<and> c \<le> 122" by auto
  with c show False by (simp add: is_whitespace_def)
qed

text \<open>A goal that is stored is never blank and never a word that asks to stop, whatever its case and the
  punctuation after it.\<close>

theorem goal_is_not_a_control_word:
  assumes "parse_goal_command t = Some (Inr (''goal/set'', Some ob))"
  shows "ob \<noteq> [] \<and> \<not> control_word ob"
proof -
  obtain r where g: "goal_argument r = Inr (''goal/set'', Some ob)"
    using assms by (auto simp: parse_goal_command_def split: option.splits if_splits)
  define verb where "verb = first_word r"
  have ne: "verb \<noteq> []" and ob: "ob = trim r" and a: "trim (trim_start (after_word r)) \<noteq> [] \<or> \<not> control_word verb"
    using g unfolding goal_argument_def Let_def verb_def [symmetric] by (auto split: if_splits)
  define cs where "cs = chars r"
  have tw: "takeWhile (\<lambda>c. \<not> white c) cs \<noteq> []" using ne by (simp add: verb_def first_word_nil cs_def)
  then have hd: "cs \<noteq> []" "\<not> white (hd cs)" by (cases cs; simp split: if_splits)+
  then have "dropWhile white cs = cs" by (cases cs) simp_all
  then have co: "chars ob = rstrip white cs" unfolding ob rstrip_white_chars cs_def by simp
  obtain ws where ws: "cs = chars ob @ ws" "\<forall>c \<in> set ws. white c"
    unfolding co using rstrip_split [of cs white] by (metis set_rev set_takeWhileD)
  have "hd cs \<in> set (chars ob)" unfolding co using hd by (intro rstrip_keeps) simp_all
  then have "ob \<noteq> []" by auto
  moreover have "\<not> control_word ob"
  proof (cases "\<exists>c \<in> set (chars ob). white c")
    case True then show ?thesis using control_word_black by blast
  next
    case False
    have "takeWhile (\<lambda>c. \<not> white c) cs = chars ob" "dropWhile (\<lambda>c. \<not> white c) cs = ws"
      using False ws by (simp_all add: takeWhile_append dropWhile_append) (cases ws; simp)+
    then have "verb = of_chars (chars ob)" "after_word r = of_chars (tl ws)"
      by (simp_all add: verb_def first_word_def after_word_def cs_def)
    moreover have "of_chars (chars ob) = ob" by (metis ob of_chars_chars rstrip_white_chars trim_def)
    moreover have "trim (trim_start (of_chars (tl ws))) = []"
    proof -
      have "list_all is_scalar ws" using chars_scalar [of r] ws(1) by (simp add: cs_def [symmetric])
      then have "chars (of_chars (tl ws)) = tl ws" by (cases ws) simp_all
      moreover have "dropWhile white (tl ws) = []" using ws(2) by (cases ws) simp_all
      ultimately have "trim_start (of_chars (tl ws)) = []" unfolding trim_start_def trim_start_by_def by (metis of_chars_Nil)
      then show ?thesis by (simp add: trim_def)
    qed
    ultimately show ?thesis using a by simp
  qed
  ultimately show ?thesis by simp
qed

theorem goal_is_not_a_control_word_witness: "\<not> control_word ''go''"
proof -
  have "parse_goal_command ''/goal go'' = Some (Inr (''goal/set'', Some ''go''))"
    by (simp add: parse_goal_command_def goal_argument_def strip_prefix_def first_word_def after_word_def trim_start_def
        trim_start_by_def trim_def trim_end_by_def chars_ascii is_whitespace_def of_chars_def utf8_encode_def char_of_def bit_0
        control_word_def CONTROL_WORDS_def eq_ignore_ascii_case_def to_ascii_lowercase_def ascii_lower_def is_ascii_punctuation_def)
  from goal_is_not_a_control_word [OF this] show ?thesis by simp
qed

end
