(* ===== verification/Prompt_Parts.thy ===== *)
theory Prompt_Parts
  imports Commands Codec
begin

text \<open>
  How the content blocks of a prompt become the input parts of a host turn (\<^verbatim>\<open>extract_prompt_parts\<close> of
  \<^verbatim>\<open>src/main.rs\<close> and its helpers): native skill parts, images, local files confined to the session's roots,
  and videos uploaded to the host in chunks.
\<close>

section \<open>Calls to the host\<close>

text \<open>
  The surroundings: the answer to a command after the commands sent before it (a refusal of the host, or a failure to reach it, is
  \<open>Inl\<close>), the \<open>n\<close>-th minted id for a prefix, Unicode lower case, and the file system: canonical paths
  (or the system's message), which of them are directories, their sizes and contents, and the variable \<^verbatim>\<open>MUSE_ALLOW_UNSCOPED_READS\<close>.
\<close>

record prompt_env =
  pe_answer :: "(string \<times> string) list \<Rightarrow> string \<Rightarrow> string \<Rightarrow> J + J"
  pe_mint :: "string \<Rightarrow> nat \<Rightarrow> string"
  pe_lower :: "string \<Rightarrow> string"
  pe_canon :: "string \<Rightarrow> string + string"
  pe_dir :: "string \<Rightarrow> bool"
  pe_len :: "string \<Rightarrow> nat option"
  pe_read :: "string \<Rightarrow> string + string"
  pe_unscoped :: "string option"

text \<open>The commands sent so far, newest last, and how many ids have been minted.\<close>

record link =
  lk_log :: "(string \<times> string) list"
  lk_minted :: nat

definition link_new :: link where
  "link_new = \<lparr>lk_log = [], lk_minted = 0\<rparr>"

definition link_command :: "prompt_env \<Rightarrow> string \<Rightarrow> string \<Rightarrow> link \<Rightarrow> (J + J) \<times> link" where
  "link_command E meth params l = (pe_answer E (lk_log l) meth params, l\<lparr>lk_log := lk_log l @ [(meth, params)]\<rparr>)"

definition mint_cmd :: "prompt_env \<Rightarrow> string \<Rightarrow> link \<Rightarrow> string \<times> link" where
  "mint_cmd E pre l = (pe_mint E pre (lk_minted l), l\<lparr>lk_minted := lk_minted l + 1\<rparr>)"

definition host_error_text :: "J \<Rightarrow> string" where
  "host_error_text e = unwrap_or (str_at e ''message'') ''unknown error''"

definition object_of :: "(string \<times> string) list \<Rightarrow> string" where
  "object_of ms = ''{'' @ comma_join (map (\<lambda>(k, v). member k v) ms) @ ''}''"

section \<open>Skills and images\<close>

definition native_skill_part :: "string \<Rightarrow> string option hmap option \<Rightarrow> string option" where
  "native_skill_part t skills =
     (case strip_prefix t ''/'' of
        None \<Rightarrow> None
      | Some body \<Rightarrow>
          (let head = first_word body; arg = trim_start (after_word body);
               nested = (head = ''skill'' \<and> first_word arg \<noteq> []);
               selector = (if nested then first_word arg else head);
               arguments = (if nested then trim_start (after_word arg) else arg);
               explicit = (head = ''compact'' \<or> nested) in
           if head = [] then None
           else if \<not> explicit \<and> (case skills of Some table \<Rightarrow> \<not> hhas table selector | None \<Rightarrow> False) then None
           else Some (object_of ([(''type'', quoted ''skill''), (''selector'', esc selector)] @
             (if arguments = [] then [] else [(''arguments'', esc arguments)]) @
             (case Option.bind skills (\<lambda>table. Option.bind (hget table selector) id) of
                Some source \<Rightarrow> [(''source'', esc source)] | None \<Rightarrow> [])))))"

definition text_part :: "string \<Rightarrow> string" where
  "text_part t = object_of [(''type'', quoted ''text''), (''text'', esc t)]"

definition image_part :: "string \<Rightarrow> string \<Rightarrow> string" where
  "image_part data mime = object_of [(''type'', quoted ''image''), (''base64Data'', esc data), (''mediaType'', esc mime)]"

definition video_part :: "string \<Rightarrow> string" where
  "video_part upload_id = object_of [(''type'', quoted ''video''), (''uploadId'', esc upload_id)]"

section \<open>Local files\<close>

definition hex_nibble :: "char \<Rightarrow> nat option" where
  "hex_nibble c =
     (if 48 \<le> ord c \<and> ord c \<le> 57 then Some (ord c - 48)
      else if 97 \<le> ord c \<and> ord c \<le> 102 then Some (ord c - 97 + 10)
      else if 65 \<le> ord c \<and> ord c \<le> 70 then Some (ord c - 65 + 10)
      else None)"

datatype percent_error = TruncatedEscape | InvalidEscape | NotUtf8

fun percent_bytes :: "string \<Rightarrow> percent_error + string" where
  "percent_bytes [] = Inr []"
| "percent_bytes (c # s) =
     (if c = CHR 0x25 then
        (case s of
           h # l # r \<Rightarrow>
             (case (hex_nibble h, hex_nibble l) of
                (Some a, Some b) \<Rightarrow> map_sum id ((#) (char_of (16 * a + b))) (percent_bytes r)
              | _ \<Rightarrow> Inl InvalidEscape)
         | _ \<Rightarrow> Inl TruncatedEscape)
      else map_sum id ((#) c) (percent_bytes s))"

fun percent_message :: "string \<Rightarrow> percent_error \<Rightarrow> string" where
  "percent_message s TruncatedEscape = ''truncated percent escape in '' @ s"
| "percent_message s InvalidEscape = ''invalid percent escape in '' @ s"
| "percent_message s NotUtf8 = ''file URI path is not valid UTF-8: '' @ s"

definition percent_decode :: "string \<Rightarrow> string + string" where
  "percent_decode s =
     (case percent_bytes s of
        Inl e \<Rightarrow> Inl (percent_message s e)
      | Inr t \<Rightarrow> if utf8 t then Inr t else Inl (percent_message s NotUtf8))"

text \<open>On a Unix system, where a path is absolute when it starts with a slash.\<close>

definition trim_slashes :: "string \<Rightarrow> string" where
  "trim_slashes s = rev (dropWhile (\<lambda>c. c = CHR ''/'') (rev s))"

definition file_uri_path :: "string \<Rightarrow> string \<Rightarrow> string + string" where
  "file_uri_path uri cwd =
     (case strip_prefix uri ''file://'' of
        None \<Rightarrow>
          if starts_with uri ''/'' then Inr uri
          else if \<not> contains uri ''://'' then Inr (trim_slashes cwd @ ''/'' @ uri)
          else Inl (''unsupported URI scheme in '' @ uri)
      | Some arg \<Rightarrow>
          (let host = takeWhile (\<lambda>c. c \<noteq> CHR ''/'') arg; path = dropWhile (\<lambda>c. c \<noteq> CHR ''/'') arg in
           if path = [] then Inl (''bad file URI '' @ uri)
           else if host \<noteq> [] \<and> host \<noteq> ''localhost'' then Inl (''remote file host in '' @ uri)
           else percent_decode path))"

definition env_flag_enabled :: "string option \<Rightarrow> bool" where
  "env_flag_enabled v = (case v of Some t \<Rightarrow> to_ascii_lowercase (trim t) \<in> {''1'', ''true'', ''yes'', ''on''} | None \<Rightarrow> False)"

text \<open>\<^verbatim>\<open>Path::starts_with\<close> on absolute paths: the components of one are the first components of the other.\<close>

definition path_parts :: "string \<Rightarrow> string list" where
  "path_parts p = filter (\<lambda>x. x \<noteq> [] \<and> x \<noteq> ''.'') (split_on (CHR ''/'') p)"

definition path_within :: "string \<Rightarrow> string \<Rightarrow> bool" where
  "path_within p root \<longleftrightarrow> prefix (path_parts root) (path_parts p)"

definition confined_path :: "prompt_env \<Rightarrow> string \<Rightarrow> string list \<Rightarrow> string option" where
  "confined_path E path roots =
     (case pe_canon E path of
        Inl e \<Rightarrow> None
      | Inr canon \<Rightarrow>
          if env_flag_enabled (pe_unscoped E) then Some canon
          else if list_ex (\<lambda>root. case pe_canon E root of Inr r \<Rightarrow> path_within canon r | Inl e \<Rightarrow> False) roots then Some canon
          else None)"

definition first_root :: "string list \<Rightarrow> string" where
  "first_root roots = (case roots of r # _ \<Rightarrow> r | [] \<Rightarrow> ''/'')"

text \<open>The canonical path of a reference that may be read: none for another scheme, a missing file, a file
  outside the roots and one larger than the cap.\<close>

definition readable_path :: "prompt_env \<Rightarrow> string \<Rightarrow> string list \<Rightarrow> nat \<Rightarrow> string + string option" where
  "readable_path E uri roots cap =
     (if contains uri ''://'' \<and> \<not> starts_with uri ''file://'' then Inr None
      else map_sum id (\<lambda>requested.
        case confined_path E requested roots of
          None \<Rightarrow> None
        | Some path \<Rightarrow> (case pe_len E path of None \<Rightarrow> None | Some n \<Rightarrow> if cap < n then None else Some path))
        (file_uri_path uri (first_root roots)))"

definition MEDIA_MAX_BYTES :: nat where
  "MEDIA_MAX_BYTES = 67108864"

definition TEXT_MAX_BYTES :: nat where
  "TEXT_MAX_BYTES = 262144"

definition local_file_bytes :: "prompt_env \<Rightarrow> string \<Rightarrow> string list \<Rightarrow> nat \<Rightarrow> string + string option" where
  "local_file_bytes E uri roots cap =
     (case readable_path E uri roots cap of
        Inl e \<Rightarrow> Inl e
      | Inr None \<Rightarrow> Inr None
      | Inr (Some path) \<Rightarrow> map_sum id Some (pe_read E path))"

definition plain_text :: "string \<Rightarrow> bool" where
  "plain_text t \<longleftrightarrow> utf8 t \<and> \<not> list_ex (\<lambda>c. is_control c \<and> c \<notin> {0x0A, 0x0D, 0x09}) (chars t)"

definition local_file_text :: "prompt_env \<Rightarrow> string \<Rightarrow> string list \<Rightarrow> string + string option" where
  "local_file_text E uri roots =
     (case readable_path E uri roots TEXT_MAX_BYTES of
        Inl e \<Rightarrow> Inl e
      | Inr None \<Rightarrow> Inr None
      | Inr (Some path) \<Rightarrow> Inr (case pe_read E path of Inl e \<Rightarrow> None | Inr t \<Rightarrow> if plain_text t then Some t else None))"

definition video_media_type :: "prompt_env \<Rightarrow> string \<Rightarrow> string \<Rightarrow> string option" where
  "video_media_type E mime uri =
     (let path = pe_lower E (takeWhile (\<lambda>c. c \<noteq> CHR 0x3F \<and> c \<noteq> CHR 0x23) uri) in
      if mime = ''video/mp4'' then Some ''video/mp4''
      else if mime = ''video/quicktime'' then Some ''video/quicktime''
      else if mime = [] \<and> (ends_with path ''.mp4'' \<or> ends_with path ''.m4v'') then Some ''video/mp4''
      else if mime = [] \<and> ends_with path ''.mov'' then Some ''video/quicktime''
      else None)"

definition looks_textual :: "prompt_env \<Rightarrow> string \<Rightarrow> bool" where
  "looks_textual E path =
     list_ex (ends_with (pe_lower E path))
       [''.txt'', ''.md'', ''.rs'', ''.py'', ''.js'', ''.ts'', ''.json'', ''.toml'', ''.yaml'', ''.yml'', ''.sh'', ''.log'']"

section \<open>Videos\<close>

definition MEDIA_CHUNK_RAW_BYTES :: nat where
  "MEDIA_CHUNK_RAW_BYTES = 1048575"

fun chunks_of :: "nat \<Rightarrow> 'a list \<Rightarrow> 'a list list" where
  "chunks_of n [] = []"
| "chunks_of n (x # xs) = (if n = 0 then [] else take n (x # xs) # chunks_of n (drop n (x # xs)))"

text \<open>\<^verbatim>\<open>base64_encode\<close>: the encoder of this file, chunk by chunk; it agrees with the one of the JSON helpers.\<close>

definition byte_of :: "string \<Rightarrow> nat \<Rightarrow> nat" where
  "byte_of chunk i = (if i < length chunk then ord (chunk ! i) else 0)"

definition base64_chunk :: "string \<Rightarrow> string" where
  "base64_chunk chunk =
     (let triple = (push_bit 16 (byte_of chunk 0) OR push_bit 8 (byte_of chunk 1)) OR byte_of chunk 2 in
      [b64_sym 18 triple, b64_sym 12 triple, if 1 < length chunk then b64_sym 6 triple else CHR ''='',
       if 2 < length chunk then b64_sym 0 triple else CHR ''=''])"

definition base64_encode :: "string \<Rightarrow> string" where
  "base64_encode bs = concat (map base64_chunk (chunks_of 3 bs))"

lemma base64_encode_b64: "base64_encode bs = b64 bs"
  by (induction bs rule: b64.induct)
    (simp_all add: base64_encode_def base64_chunk_def byte_of_def b64_group_def Let_def numeral_3_eq_3)

definition b64_char :: "char \<Rightarrow> bool" where
  "b64_char c \<longleftrightarrow> (48 \<le> ord c \<and> ord c \<le> 57) \<or> (65 \<le> ord c \<and> ord c \<le> 90) \<or> (97 \<le> ord c \<and> ord c \<le> 122) \<or>
     c \<in> {CHR ''+'', CHR ''/'', CHR ''='', CHR 0x0A, CHR 0x0D}"

definition compact_b64 :: "string \<Rightarrow> string" where
  "compact_b64 t = filter (\<lambda>c. c \<noteq> CHR 0x0A \<and> c \<noteq> CHR 0x0D) t"

definition b64_padding :: "string \<Rightarrow> nat" where
  "b64_padding t = length (takeWhile (\<lambda>c. c = CHR ''='') (rev t))"

record upload =
  up_session :: string
  up_id :: string
  up_media :: string
  up_count :: nat
  up_total :: nat

definition upload_params :: "upload \<Rightarrow> string \<Rightarrow> nat \<Rightarrow> string \<Rightarrow> string" where
  "upload_params u cmd i chunk =
     object_of [(''commandId'', esc cmd), (''sessionId'', esc (up_session u)), (''uploadId'', esc (up_id u)),
       (''mediaType'', esc (up_media u)), (''chunkIndex'', show_nat i), (''chunkCount'', show_nat (up_count u)),
       (''totalBytes'', show_nat (up_total u)), (''chunkBase64'', esc chunk)]"

text \<open>Up to three attempts for one chunk; the result is the last error, or none when it was delivered.\<close>

fun try_chunk :: "prompt_env \<Rightarrow> upload \<Rightarrow> nat \<Rightarrow> string \<Rightarrow> nat \<Rightarrow> string \<Rightarrow> link \<Rightarrow> string option \<times> link" where
  "try_chunk E u i chunk 0 err l = (Some err, l)"
| "try_chunk E u i chunk (Suc n) err l =
     (case mint_cmd E ''cmd-'' l of
        (cmd, l1) \<Rightarrow>
          (case link_command E ''media/upload'' (upload_params u cmd i chunk) l1 of
             (Inr receipt, l2) \<Rightarrow>
               if str_at receipt ''uploadId'' = Some (up_id u) then (None, l2)
               else try_chunk E u i chunk n (''media/upload echoed an unexpected receipt: '' @ j_to_string receipt) l2
           | (Inl e, l2) \<Rightarrow> try_chunk E u i chunk n (host_error_text e) l2))"

fun send_chunks :: "prompt_env \<Rightarrow> upload \<Rightarrow> nat \<Rightarrow> string list \<Rightarrow> link \<Rightarrow> string option \<times> link" where
  "send_chunks E u i [] l = (None, l)"
| "send_chunks E u i (chunk # cs) l =
     (case try_chunk E u i chunk 3 [] l of
        (Some err, l1) \<Rightarrow>
          (Some (''video chunk '' @ show_nat (i + 1) @ '' of '' @ show_nat (up_count u) @ '' failed: '' @ err), l1)
      | (None, l1) \<Rightarrow> send_chunks E u (i + 1) cs l1)"

definition upload_chunks :: "string \<Rightarrow> string list" where
  "upload_chunks t = chunks_of (MEDIA_CHUNK_RAW_BYTES div 3 * 4) (compact_b64 t)"

definition upload_of :: "string \<Rightarrow> string \<Rightarrow> string \<Rightarrow> string \<Rightarrow> upload" where
  "upload_of msp_sid upload_id media t =
     \<lparr>up_session = msp_sid, up_id = upload_id, up_media = media, up_count = length (upload_chunks t),
      up_total = length (compact_b64 t) div 4 * 3 - b64_padding (compact_b64 t)\<rparr>"

definition upload_video :: "prompt_env \<Rightarrow> string \<Rightarrow> string \<Rightarrow> string \<Rightarrow> link \<Rightarrow> (string + string) \<times> link" where
  "upload_video E msp_sid t media l =
     (if t = [] then (Inl ''video payload is empty'', l)
      else if \<not> list_all b64_char t then (Inl ''video payload is not base64'', l)
      else if length (compact_b64 t) mod 4 \<noteq> 0 \<or> 2 < b64_padding (compact_b64 t)
      then (Inl ''video payload is not valid base64'', l)
      else
        (case mint_cmd E ''upl-'' l of
           (upload_id, l1) \<Rightarrow>
             (case send_chunks E (upload_of msp_sid upload_id media t) 0 (upload_chunks t) l1 of
                (Some err, l2) \<Rightarrow> (Inl err, l2)
              | (None, l2) \<Rightarrow> (Inr upload_id, l2))))"

section \<open>The parts of a prompt\<close>

text \<open>The texts waiting to become one part, the parts and the echoed blocks so far.\<close>

record parts =
  pt_texts :: "string list"
  pt_parts :: "string list"
  pt_echo :: "echo_block list"

definition parts_new :: parts where
  "parts_new = \<lparr>pt_texts = [], pt_parts = [], pt_echo = []\<rparr>"

definition text_input :: "string option hmap option \<Rightarrow> string \<Rightarrow> string" where
  "text_input skills t = (case native_skill_part t skills of Some skill \<Rightarrow> skill | None \<Rightarrow> text_part t)"

definition flush_text :: "string option hmap option \<Rightarrow> parts \<Rightarrow> parts" where
  "flush_text skills p =
     (if pt_texts p = [] then p
      else p\<lparr>pt_texts := [], pt_parts := pt_parts p @ [text_input skills (join [CHR 0x0A] (pt_texts p))]\<rparr>)"

definition add_text :: "string \<Rightarrow> echo_block \<Rightarrow> parts \<Rightarrow> parts" where
  "add_text t b p = p\<lparr>pt_texts := pt_texts p @ [t], pt_echo := pt_echo p @ [b]\<rparr>"

definition add_part :: "string option hmap option \<Rightarrow> string \<Rightarrow> echo_block \<Rightarrow> parts \<Rightarrow> parts" where
  "add_part skills t b p = (flush_text skills p)\<lparr>pt_parts := pt_parts (flush_text skills p) @ [t], pt_echo := pt_echo p @ [b]\<rparr>"

definition add_video :: "prompt_env \<Rightarrow> string \<Rightarrow> string option hmap option \<Rightarrow> string \<Rightarrow> string \<Rightarrow> echo_block \<Rightarrow> parts \<Rightarrow> link \<Rightarrow>
    (string + parts) \<times> link" where
  "add_video E msp_sid skills code media b p l =
     (case upload_video E msp_sid code media l of
        (Inl e, l1) \<Rightarrow> (Inl e, l1)
      | (Inr upload_id, l1) \<Rightarrow> (Inr (add_part skills (video_part upload_id) b p), l1))"

definition link_text :: "prompt_env \<Rightarrow> string \<Rightarrow> string \<Rightarrow> string \<Rightarrow> string list \<Rightarrow> string + string" where
  "link_text E uri name mime roots =
     map_sum id (\<lambda>found. case found of
         Some t \<Rightarrow> ''['' @ name @ '' '' @ uri @ '']'' @ [CHR 0x0A] @ t
       | None \<Rightarrow> ''[resource: '' @ name @ '' ('' @ uri @ '')]'')
       (if starts_with mime ''text/'' \<or> mime = [] \<or> looks_textual E uri then local_file_text E uri roots
        else if starts_with uri ''file://'' then map_sum id (\<lambda>_. None) (file_uri_path uri (first_root roots))
        else Inr None)"

definition add_link :: "prompt_env \<Rightarrow> string \<Rightarrow> string list \<Rightarrow> string option hmap option \<Rightarrow> string \<Rightarrow> string \<Rightarrow> string \<Rightarrow>
    echo_block \<Rightarrow> parts \<Rightarrow> link \<Rightarrow> (string + parts) \<times> link" where
  "add_link E msp_sid roots skills uri name mime b p l =
     (if uri = [] then (Inl ''resource_link block needs uri'', l)
      else case video_media_type E mime uri of
             Some media \<Rightarrow>
               (case local_file_bytes E uri roots MEDIA_MAX_BYTES of
                  Inl e \<Rightarrow> (Inl e, l)
                | Inr None \<Rightarrow> (Inl (''video resource '' @ uri @ '' is not a readable local file within the approved roots''), l)
                | Inr (Some data) \<Rightarrow> add_video E msp_sid skills (base64_encode data) media b p l)
           | None \<Rightarrow>
               (map_sum id (\<lambda>t. add_text t b p) (link_text E uri (if name = [] then uri else name) mime roots), l))"

definition add_block :: "prompt_env \<Rightarrow> string \<Rightarrow> string list \<Rightarrow> string option hmap option \<Rightarrow> block \<Rightarrow> parts \<Rightarrow> link \<Rightarrow>
    (string + parts) \<times> link" where
  "add_block E msp_sid roots skills b p l =
     (case bl_content b of
        TextBlock t \<Rightarrow> (Inr (add_text t (bl_echo b) p), l)
      | TextResource uri t \<Rightarrow> (Inr (add_text t (bl_echo b) p), l)
      | BlobResource uri blob mime \<Rightarrow>
          (let m = unwrap_or mime [] in
           if starts_with m ''image/'' then (Inr (add_part skills (image_part blob m) (bl_echo b) p), l)
           else case video_media_type E m uri of
                  Some media \<Rightarrow> add_video E msp_sid skills blob media (bl_echo b) p l
                | None \<Rightarrow> (Inl ''embedded non-image resource blobs are not supported; send text'', l))
      | LinkBlock uri name mime \<Rightarrow> add_link E msp_sid roots skills uri name (unwrap_or mime []) (bl_echo b) p l
      | ImageBlock data mime \<Rightarrow> (Inr (add_part skills (image_part data mime) (bl_echo b) p), l)
      | AudioBlock \<Rightarrow> (Inl ''audio blocks are not supported: the host input type is closed (text|image)'', l)
      | OtherBlock kind \<Rightarrow> (Inl (''unsupported content block type '' @ [CHR 0x27] @ kind @ [CHR 0x27]), l))"

fun add_blocks :: "prompt_env \<Rightarrow> string \<Rightarrow> string list \<Rightarrow> string option hmap option \<Rightarrow> block list \<Rightarrow> parts \<Rightarrow> link \<Rightarrow>
    (string + parts) \<times> link" where
  "add_blocks E msp_sid roots skills [] p l = (Inr p, l)"
| "add_blocks E msp_sid roots skills (b # bs) p l =
     (case add_block E msp_sid roots skills b p l of
        (Inl e, l1) \<Rightarrow> (Inl e, l1)
      | (Inr p1, l1) \<Rightarrow> add_blocks E msp_sid roots skills bs p1 l1)"

definition extract_prompt_parts :: "prompt_env \<Rightarrow> nat \<Rightarrow> string \<Rightarrow> string list \<Rightarrow> string option hmap option \<Rightarrow> block list \<Rightarrow> link \<Rightarrow>
    (string + string list \<times> echo) \<times> link" where
  "extract_prompt_parts E ver msp_sid roots skills bs l =
     (case add_blocks E msp_sid roots skills bs parts_new l of
        (Inl e, l1) \<Rightarrow> (Inl e, l1)
      | (Inr p, l1) \<Rightarrow> (Inr (pt_parts (flush_text skills p), from_blocks ver (pt_echo p)), l1))"

end
