(* ===== verification/Prompt_Props.thy ===== *)
theory Prompt_Props
  imports Prompt_Parts
begin

text \<open>
  What the reading of a prompt promises: a video the host gets a part for was delivered chunk by chunk (if it
  is more than line breaks), files
  are read only below the session's roots, percent escapes decode to the bytes they encode, and every block
  of an accepted prompt is echoed.
\<close>

section \<open>Uploads\<close>

lemma concat_chunks: "0 < n \<Longrightarrow> concat (chunks_of n xs) = xs"
proof (induction n xs rule: chunks_of.induct)
  case (2 n x xs)
  then show ?case by (metis append_take_drop_id chunks_of.simps(2) concat.simps(2) less_numeral_extra(3))
qed simp

lemma chunk_size: "c \<in> set (chunks_of n xs) \<Longrightarrow> c \<noteq> [] \<and> length c \<le> n"
  by (induction n xs rule: chunks_of.induct) (auto split: if_splits)

definition delivered :: "prompt_env \<Rightarrow> upload \<Rightarrow> nat \<Rightarrow> string \<Rightarrow> link \<Rightarrow> link \<Rightarrow> bool" where
  "delivered E u i chunk l l' \<longleftrightarrow>
     (\<exists>j cmd r. length (lk_log l) \<le> j \<and> j < length (lk_log l') \<and> lk_log l' ! j = (''media/upload'', upload_params u cmd i chunk) \<and>
        pe_answer E (take j (lk_log l')) ''media/upload'' (upload_params u cmd i chunk) = Inr r \<and> str_at r ''uploadId'' = Some (up_id u))"

definition later :: "link \<Rightarrow> nat \<Rightarrow> link \<Rightarrow> bool" where
  "later l n l' \<longleftrightarrow> prefix (lk_log l) (lk_log l') \<and> length (lk_log l') \<le> length (lk_log l) + n"

lemma later_refl [simp]: "later l n l"
  by (simp add: later_def)

lemma later_trans: "later l m l' \<Longrightarrow> later l' n l'' \<Longrightarrow> later l (m + n) l''"
  by (auto simp: later_def prefix_def)

lemma delivered_mono:
  assumes "delivered E u i c l l'" "later k m l" "later l' n l''"
  shows "delivered E u i c k l''"
proof -
  obtain j cmd r where j: "length (lk_log l) \<le> j" "j < length (lk_log l')"
    and d: "lk_log l' ! j = (''media/upload'', upload_params u cmd i c)" "pe_answer E (take j (lk_log l')) ''media/upload'' (upload_params u cmd i c) = Inr r" "str_at r ''uploadId'' = Some (up_id u)"
    using assms(1) unfolding delivered_def by blast
  obtain zs where z: "lk_log l'' = lk_log l' @ zs" using assms(3) by (auto simp: later_def prefix_def)
  have "length (lk_log k) \<le> j" using assms(2) j(1) prefix_length_le [of "lk_log k" "lk_log l"] by (simp add: later_def)
  moreover have "lk_log l'' ! j = lk_log l' ! j" "j < length (lk_log l'')" "take j (lk_log l'') = take j (lk_log l')" using j(2) by (simp_all add: z nth_append)
  ultimately show ?thesis unfolding delivered_def using d by metis
qed

lemma try_step:
  "mint_cmd E p l = (cmd, l1) \<Longrightarrow> link_command E m ps l1 = (r, l2) \<Longrightarrow>
   r = pe_answer E (lk_log l) m ps \<and> lk_log l2 = lk_log l @ [(m, ps)]"
  by (auto simp: mint_cmd_def link_command_def)

lemma try_chunk_later: "try_chunk E u i c n err l = (r, l') \<Longrightarrow> later l n l'"
proof (induction n arbitrary: err l)
  case (Suc n)
  obtain cmd l1 where m: "mint_cmd E ''cmd-'' l = (cmd, l1)" by fastforce
  obtain a l2 where c: "link_command E ''media/upload'' (upload_params u cmd i c) l1 = (a, l2)" by fastforce
  have 1: "later l 1 l2" using try_step [OF m c] by (simp add: later_def)
  show ?case
  proof (cases "\<exists>err. try_chunk E u i c n err l2 = (r, l')")
    case True
    with later_trans [OF 1 Suc.IH] show ?thesis by auto
  next
    case False
    with Suc.prems have "l' = l2" by (auto simp: m c split: sum.splits if_splits)
    with later_trans [OF 1 later_refl, of n] show ?thesis by simp
  qed
qed simp

lemma try_chunk_delivers: "try_chunk E u i c n err l = (None, l') \<Longrightarrow> delivered E u i c l l'"
proof (induction n arbitrary: err l)
  case (Suc n)
  obtain cmd l1 where m: "mint_cmd E ''cmd-'' l = (cmd, l1)" by fastforce
  obtain a l2 where c: "link_command E ''media/upload'' (upload_params u cmd i c) l1 = (a, l2)" by fastforce
  note s = try_step [OF m c]
  show ?case
  proof (cases "\<exists>err. try_chunk E u i c n err l2 = (None, l')")
    case True
    with Suc.IH have "delivered E u i c l2 l'" by blast
    then show ?thesis by (rule delivered_mono [of E u i c l2 l' l 1 0]) (use s in \<open>simp_all add: later_def\<close>)
  next
    case False
    with Suc.prems obtain r where "a = Inr r" "str_at r ''uploadId'' = Some (up_id u)" "l' = l2"
      by (cases a) (auto simp: m c split: if_splits)
    with s show ?thesis unfolding delivered_def by (intro exI [of _ "length (lk_log l)"] exI [of _ cmd] exI [of _ r]) simp
  qed
qed simp

lemma send_chunks_delivers:
  "send_chunks E u i cs l = (None, l') \<Longrightarrow>
   later l (3 * length cs) l' \<and> (\<forall>k < length cs. delivered E u (i + k) (cs ! k) l l')"
proof (induction cs arbitrary: i l)
  case (Cons c cs)
  obtain l1 where t: "try_chunk E u i c 3 [] l = (None, l1)" and s: "send_chunks E u (i + 1) cs l1 = (None, l')"
    using Cons.prems by (auto split: option.splits prod.splits)
  note later1 = try_chunk_later [OF t]
  note IH = Cons.IH [OF s]
  have "delivered E u (i + k) ((c # cs) ! k) l l'" if k: "k < length (c # cs)" for k
  proof (cases k)
    case 0
    with delivered_mono [OF try_chunk_delivers [OF t] later_refl] IH show ?thesis by auto
  next
    case (Suc k')
    with IH k have "delivered E u (i + k) ((c # cs) ! k) l1 l'" by simp
    from delivered_mono [OF this later1 later_refl] show ?thesis .
  qed
  moreover have "later l (3 * length (c # cs)) l'" using later_trans [OF later1 conjunct1 [OF IH]] by simp
  ultimately show ?case by simp
qed simp

text \<open>C36: a video part refers to an upload the host received whole, when its payload is more than line breaks: the
  chunks are the payload without its line breaks, each was sent at least once with its index and
  answered with the upload's own receipt, and no chunk took more than three attempts. A payload of line
  breaks alone is accepted as well, but nothing is sent for it.\<close>

theorem upload_delivers_payload:
  assumes "upload_video E msp_sid t media l = (Inr upload_id, l')"
  shows "if compact_b64 t = [] then lk_log l' = lk_log l
    else upload_chunks t \<noteq> [] \<and> concat (upload_chunks t) = compact_b64 t \<and>
      (\<forall>k < length (upload_chunks t). delivered E (upload_of msp_sid upload_id media t) k (upload_chunks t ! k) l l') \<and>
      length (lk_log l') \<le> length (lk_log l) + 3 * length (upload_chunks t)"
proof -
  obtain l1 where m: "mint_cmd E ''upl-'' l = (upload_id, l1)"
    and s: "send_chunks E (upload_of msp_sid upload_id media t) 0 (upload_chunks t) l1 = (None, l')"
    using assms unfolding upload_video_def by (auto split: if_splits prod.splits option.splits)
  from m have "later l 0 l1" by (auto simp: mint_cmd_def later_def)
  then have d: "delivered E u k c l l'" if "delivered E u k c l1 l'" for u k c using delivered_mono [OF that _ later_refl] by blast
  have log: "lk_log l1 = lk_log l" using m by (auto simp: mint_cmd_def)
  have whole: "concat (upload_chunks t) = compact_b64 t" by (simp add: upload_chunks_def concat_chunks MEDIA_CHUNK_RAW_BYTES_def)
  show ?thesis
  proof (cases "compact_b64 t = []")
    case True
    then have "upload_chunks t = []" by (simp add: upload_chunks_def)
    then show ?thesis using s log True by simp
  next
    case False
    then have "upload_chunks t \<noteq> []" using whole by auto
    then show ?thesis using False whole send_chunks_delivers [OF s] d log by (auto simp: later_def)
  qed
qed

definition demo_prompt_env :: prompt_env where
  "demo_prompt_env = \<lparr>pe_answer = \<lambda>log m ps. Inr (JObj [(''uploadId'', JStr ''upl-1'')]), pe_mint = \<lambda>p n. p @ ''1'', pe_lower = id,
     pe_canon = Inr, pe_dir = \<lambda>p. True, pe_len = \<lambda>p. Some 3, pe_read = \<lambda>p. Inr ''abc'', pe_unscoped = None\<rparr>"

lemma first_try:
  assumes "\<And>ps. pe_answer E (lk_log l) ''media/upload'' ps = Inr r" "str_at r ''uploadId'' = Some (up_id u)"
  shows "try_chunk E u i c 3 err l = (None, \<lparr>lk_log = lk_log l @ [(''media/upload'', upload_params u (pe_mint E ''cmd-'' (lk_minted l)) i c)],
    lk_minted = lk_minted l + 1\<rparr>)"
  using assms by (cases l) (simp add: numeral_3_eq_3 mint_cmd_def link_command_def)

theorem upload_delivers_payload_witness:
  "\<exists>l'. upload_video demo_prompt_env ''s'' ''QUJD'' ''video/mp4'' link_new = (Inr ''upl-1'', l') \<and> length (lk_log l') = 1 \<and>
     delivered demo_prompt_env (upload_of ''s'' ''upl-1'' ''video/mp4'' ''QUJD'') 0 ''QUJD'' link_new l'"
proof -
  have c: "upload_chunks ''QUJD'' = [''QUJD'']" "compact_b64 ''QUJD'' \<noteq> []"
    by (simp_all add: upload_chunks_def MEDIA_CHUNK_RAW_BYTES_def compact_b64_def)
  obtain l' where u: "upload_video demo_prompt_env ''s'' ''QUJD'' ''video/mp4'' link_new = (Inr ''upl-1'', l')" and n: "length (lk_log l') = 1"
    by (simp add: upload_video_def c b64_char_def compact_b64_def b64_padding_def mint_cmd_def first_try demo_prompt_env_def
        link_new_def str_at_def upload_of_def)
  from upload_delivers_payload [OF u] have "delivered demo_prompt_env (upload_of ''s'' ''upl-1'' ''video/mp4'' ''QUJD'') 0 ''QUJD'' link_new l'"
    unfolding c(1) using c(2) by (simp only: if_False) simp
  with n u show ?thesis by blast
qed

text \<open>A payload of line breaks alone passes the checks: it is accepted without anything being sent.\<close>

lemma blank_video_accepted:
  "upload_video E msp_sid [CHR 0x0A] media l = (Inr (pe_mint E ''upl-'' (lk_minted l)), l\<lparr>lk_minted := lk_minted l + 1\<rparr>)"
  by (simp add: upload_video_def b64_char_def compact_b64_def b64_padding_def upload_chunks_def mint_cmd_def)

section \<open>Files\<close>

lemma case_Inr_iff: "(case x of Inr r \<Rightarrow> Q r | Inl e \<Rightarrow> False) \<longleftrightarrow> (\<exists>r. x = Inr r \<and> Q r)"
  by (cases x) simp_all

text \<open>C37: A local file is read for a prompt only when its canonical path lies below the canonical path of one of the
  session's roots, unless the user set the variable that lifts this, and only within the size limit.\<close>

theorem local_reads_are_confined:
  assumes "readable_path E uri roots cap = Inr (Some path)" "\<not> env_flag_enabled (pe_unscoped E)"
  shows "(\<exists>root \<in> set roots. \<exists>r. pe_canon E root = Inr r \<and> path_within path r) \<and> (\<exists>n \<le> cap. pe_len E path = Some n) \<and>
    (\<exists>requested. file_uri_path uri (first_root roots) = Inr requested \<and> pe_canon E requested = Inr path)"
proof -
  obtain requested where f: "file_uri_path uri (first_root roots) = Inr requested"
    and c: "(case confined_path E requested roots of None \<Rightarrow> None
      | Some path \<Rightarrow> (case pe_len E path of None \<Rightarrow> None | Some n \<Rightarrow> if cap < n then None else Some path)) = Some path"
    using assms(1) unfolding readable_path_def by (cases "file_uri_path uri (first_root roots)") (auto split: if_splits)
  from c have "confined_path E requested roots = Some path" "\<exists>n \<le> cap. pe_len E path = Some n"
    by (auto split: option.splits if_splits)
  with f assms(2) show ?thesis by (auto simp: confined_path_def list_ex_iff case_Inr_iff split: sum.splits if_splits)
qed

theorem local_reads_are_confined_witness:
  "path_within ''/work/a.txt'' ''/work'' \<and> \<not> path_within ''/workshop/a.txt'' ''/work''"
proof -
  have "readable_path demo_prompt_env ''/work/a.txt'' [''/work''] 10 = Inr (Some ''/work/a.txt'')"
    by (simp add: readable_path_def file_uri_path_def strip_prefix_def starts_with_def confined_path_def demo_prompt_env_def
        env_flag_enabled_def path_within_def path_parts_def)
  from local_reads_are_confined [OF this] show ?thesis
    by (simp add: demo_prompt_env_def env_flag_enabled_def path_within_def path_parts_def)
qed

section \<open>Percent escapes\<close>

text \<open>The reference encoder: every byte as an escape with two upper-case digits.\<close>

definition hex_char :: "nat \<Rightarrow> char" where
  "hex_char n = (if n < 10 then char_of (48 + n) else char_of (55 + n))"

definition percent_encode :: "string \<Rightarrow> string" where
  "percent_encode s = concat (map (\<lambda>c. [CHR 0x25, hex_char (ord c div 16), hex_char (ord c mod 16)]) s)"

lemma hex_char_digit: "n < 16 \<Longrightarrow> hex_nibble (hex_char n) = Some n"
  by (simp add: hex_nibble_def hex_char_def)

lemma percent_bytes_encode: "percent_bytes (percent_encode s) = Inr s"
proof (induction s)
  case (Cons c s)
  have "ord c div 16 < 16" using ord_bound [of c] by (simp add: div_less_iff_less_mult)
  then show ?case using Cons by (simp add: percent_encode_def hex_char_digit)
qed (simp add: percent_encode_def)

text \<open>Decoding percent escapes gives back the text that was encoded, and no other error than one of the
  three it names.\<close>

theorem percent_roundtrip: "utf8 s \<Longrightarrow> percent_decode (percent_encode s) = Inr s"
  by (simp add: percent_decode_def percent_bytes_encode)

theorem percent_roundtrip_witness: "percent_decode ''%61%20'' = Inr ''a ''"
  using percent_roundtrip [of "''a ''"] by (simp add: utf8_ascii percent_encode_def hex_char_def char_of_def bit_0)

section \<open>Parts and echo\<close>

lemma flush_frame [simp]: "pt_echo (flush_text skills p) = pt_echo p" "pt_texts (flush_text skills p) = []"
  by (simp_all add: flush_text_def)

definition has_input :: "parts \<Rightarrow> bool" where
  "has_input p \<longleftrightarrow> pt_texts p \<noteq> [] \<or> pt_parts p \<noteq> []"

lemma flush_input: "has_input p \<Longrightarrow> pt_parts (flush_text skills p) \<noteq> []"
  by (auto simp: flush_text_def has_input_def)

lemma add_text_frame: "pt_echo (add_text t b p) = pt_echo p @ [b]" "has_input (add_text t b p)"
  by (simp_all add: add_text_def has_input_def)

lemma add_part_frame: "pt_echo (add_part skills t b p) = pt_echo p @ [b]" "has_input (add_part skills t b p)"
  by (simp_all add: add_part_def has_input_def)

lemmas add_frame = add_text_frame add_part_frame

lemma add_video_echo:
  "add_video E sid skills code media b p l = (Inr q, l') \<Longrightarrow> pt_echo q = pt_echo p @ [b] \<and> has_input q"
  by (auto simp: add_video_def add_frame split: prod.splits sum.splits)

lemma add_link_echo:
  "add_link E sid roots skills uri name mime b p l = (Inr q, l') \<Longrightarrow> pt_echo q = pt_echo p @ [b] \<and> has_input q"
  by (auto simp: add_link_def map_sum_def add_frame dest!: add_video_echo split: if_splits option.splits sum.splits)

lemma add_block_echo:
  "add_block E sid roots skills b p l = (Inr q, l') \<Longrightarrow> pt_echo q = pt_echo p @ [bl_echo b] \<and> has_input q"
  by (auto simp: add_block_def add_frame Let_def dest!: add_video_echo add_link_echo split: content_block.splits if_splits option.splits)

lemma add_blocks_echo:
  "add_blocks E sid roots skills bs p l = (Inr q, l') \<Longrightarrow>
   pt_echo q = pt_echo p @ map bl_echo bs \<and> (bs \<noteq> [] \<longrightarrow> has_input q)"
proof (induction bs arbitrary: p l)
  case (Cons b bs)
  obtain p1 l1 where 1: "add_block E sid roots skills b p l = (Inr p1, l1)" and 2: "add_blocks E sid roots skills bs p1 l1 = (Inr q, l')"
    using Cons.prems by (auto split: prod.splits sum.splits)
  from add_block_echo [OF 1] Cons.IH [OF 2] 2 show ?case by (cases bs) auto
qed simp

text \<open>An accepted prompt is echoed whole and in order: the echo has every block the client sent, and the host
  gets at least one part when there was a block.\<close>

theorem prompt_echo_complete:
  assumes "extract_prompt_parts E ver sid roots skills bs l = (Inr (ps, e), l')"
  shows "e = from_blocks ver (map bl_echo bs) \<and> (ps = [] \<longleftrightarrow> bs = [])"
proof -
  obtain p where p: "add_blocks E sid roots skills bs parts_new l = (Inr p, l')" and ps: "ps = pt_parts (flush_text skills p)"
    and e: "e = from_blocks ver (pt_echo p)"
    using assms unfolding extract_prompt_parts_def by (auto split: prod.splits sum.splits)
  from add_blocks_echo [OF p] have "pt_echo p = map bl_echo bs" "bs \<noteq> [] \<longrightarrow> has_input p" by (simp_all add: parts_new_def)
  moreover have "ps = []" if "bs = []" using p that by (simp add: ps parts_new_def flush_text_def) (auto simp: flush_text_def)
  ultimately show ?thesis using e flush_input [of p skills] ps by auto
qed

theorem prompt_echo_complete_witness:
  "from_blocks 2 [EV2 (Some ''hi'') ''c''] = EchoV2 [(Some ''hi'', ''c'')]"
proof -
  have "extract_prompt_parts demo_prompt_env 2 ''s'' [] None [\<lparr>bl_content = TextBlock ''hi'', bl_echo = EV2 (Some ''hi'') ''c''\<rparr>] link_new =
      (Inr ([text_part ''hi''], EchoV2 [(Some ''hi'', ''c'')]), link_new)"
    by (simp add: extract_prompt_parts_def add_block_def add_text_def parts_new_def flush_text_def text_input_def native_skill_part_def
        strip_prefix_def from_blocks_def)
  from prompt_echo_complete [OF this] show ?thesis by simp
qed

end
