(* ===== verification/File_Report.thy ===== *)
theory File_Report
  imports Prompt_Parts
begin

text \<open>
  File-change reports (\<^verbatim>\<open>src/main.rs\<close>): a client may ask, with a prompt, for the list of files its turn
  changed. The report is filled from the tool calls the host completes, with paths resolved without touching
  the file system, and is bounded in length. The last sections prove the bounds and what a report that
  declares itself complete says.
\<close>

section \<open>The request\<close>

fun vget :: "jvalue \<Rightarrow> string \<Rightarrow> jvalue option" where
  "vget (VObject fs) key = map_of fs key"
| "vget _ key = None"

fun value_u64 :: "jvalue \<Rightarrow> nat option" where
  "value_u64 (VNumber n) = parse_u64 n"
| "value_u64 _ = None"

definition id_byte :: "char \<Rightarrow> bool" where
  "id_byte c \<longleftrightarrow> (48 \<le> ord c \<and> ord c \<le> 57) \<or> (65 \<le> ord c \<and> ord c \<le> 90) \<or> (97 \<le> ord c \<and> ord c \<le> 122) \<or>
     c \<in> {CHR ''.'', CHR ''_'', CHR '':'', CHR ''-''}"

text \<open>The id of the report a prompt's metadata asks for; anything malformed asks for none.\<close>

definition report_request_id :: "(string \<times> jvalue) list \<Rightarrow> string option" where
  "report_request_id mt =
     (case Option.bind (Option.bind (map_of mt ''jetbrains'') (\<lambda>v. vget v ''air'')) (\<lambda>v. vget v ''agentFileChangeReportRequest'') of
        Some (VObject fs) \<Rightarrow>
          if length fs \<noteq> 2 \<or> Option.bind (map_of fs ''version'') value_u64 \<noteq> Some 1 then None
          else
            (case Option.bind (map_of fs ''requestId'') value_str of
               Some i \<Rightarrow> if i = [] \<or> 128 < length i \<or> \<not> list_all id_byte i then None else Some i
             | None \<Rightarrow> None)
      | _ \<Rightarrow> None)"

text \<open>A repeated id asks for nothing. The ids seen on the connection are threaded through.\<close>

definition file_report_request :: "bool \<Rightarrow> (string \<times> jvalue) list \<Rightarrow> hset \<Rightarrow> string option \<times> hset" where
  "file_report_request negotiated mt seen =
     (if \<not> negotiated then (None, seen)
      else case report_request_id mt of
             None \<Rightarrow> (None, seen)
           | Some i \<Rightarrow> if i \<in> set seen then (None, seen) else (Some i, i # seen))"

section \<open>The report\<close>

record file_report =
  fr_id :: string
  fr_paths :: "string list"
  fr_seen_paths :: hset
  fr_seen_items :: hset
  fr_bytes :: nat
  fr_complete :: bool
  fr_truncated :: bool

definition new_file_report :: "string \<Rightarrow> file_report" where
  "new_file_report i =
     \<lparr>fr_id = i, fr_paths = [], fr_seen_paths = [], fr_seen_items = [], fr_bytes = 0, fr_complete = True, fr_truncated = False\<rparr>"

definition FILE_REPORT_MAX_PATHS :: nat where
  "FILE_REPORT_MAX_PATHS = 1024"

definition FILE_REPORT_MAX_PATH_LENGTH :: nat where
  "FILE_REPORT_MAX_PATH_LENGTH = 4096"

definition FILE_REPORT_MAX_ENCODED_PATH_BYTES :: nat where
  "FILE_REPORT_MAX_ENCODED_PATH_BYTES = 255 * 1024"

text \<open>On a Unix system. The components of the session's directory keep \<^verbatim>\<open>..\<close>, so a directory with such a
  component contains no path.\<close>

definition normalize_file_report_path :: "string \<Rightarrow> string \<Rightarrow> string option" where
  "normalize_file_report_path cwd raw =
     (if raw = [] \<or> FILE_REPORT_MAX_PATH_LENGTH < length raw \<or> list_ex is_control (chars raw) then None
      else if \<not> starts_with cwd ''/'' then None
      else
        (case normalize_path [] (split_on (CHR ''/'') (if starts_with raw ''/'' then raw else cwd @ ''/'' @ raw)) of
           None \<Rightarrow> None
         | Some xs \<Rightarrow> if xs = path_parts cwd \<or> \<not> prefix (path_parts cwd) xs then None else Some (''/'' @ join ''/'' xs)))"

definition tool_args :: "J \<Rightarrow> J option" where
  "tool_args item =
     (case jget item ''args'' of
        Some (JObj ms) \<Rightarrow> Some (JObj ms)
      | Some (JStr raw) \<Rightarrow> (case parse_json raw of Inr j \<Rightarrow> Some j | Inl e \<Rightarrow> None)
      | _ \<Rightarrow> None)"

definition is_delegated :: "J \<Rightarrow> bool" where
  "is_delegated item \<longleftrightarrow> str_or item ''kind'' [] \<in> {''subagent'', ''workflow'', ''userShell''}"

text \<open>The turn whose report an item bears on.\<close>

definition observed_turn :: "J \<Rightarrow> string option" where
  "observed_turn item =
     (if \<not> is_delegated item \<and> (str_or item ''kind'' [] \<noteq> ''toolCall'' \<or> str_at item ''status'' \<noteq> Some ''completed'') then None
      else str_at item ''turnId'')"

text \<open>The alternatives for each path argument of a tool: none for a tool that writes no workspace files, and
  no list at all for one whose writes are unknown.\<close>

definition path_groups :: "J \<Rightarrow> string list list option" where
  "path_groups item =
     (let tool = to_ascii_lowercase (if is_delegated item then [] else str_or item ''tool'' []) in
      if tool \<in> {''write_file'', ''create_file'', ''edit_file'', ''delete_file'', ''remove_file''} then Some [[''path'', ''filePath'']]
      else if tool \<in> {''move_file'', ''rename_file''}
      then Some [[''oldPath'', ''from'', ''sourcePath''], [''newPath'', ''to'', ''destinationPath'']]
      else if tool \<in> {''read_file'', ''list_files'', ''search'', ''request_user_input''} then Some []
      else None)"

definition path_argument :: "J \<Rightarrow> string list \<Rightarrow> string option" where
  "path_argument args keys = find_map (str_at args) keys"

definition note_path :: "string \<Rightarrow> file_report \<Rightarrow> file_report" where
  "note_path path r =
     (let bytes = length (esc path) + (if fr_paths r = [] then 0 else 1) in
      if path \<in> set (fr_seen_paths r) then r
      else if FILE_REPORT_MAX_PATHS \<le> length (fr_paths r) \<or> FILE_REPORT_MAX_ENCODED_PATH_BYTES < fr_bytes r + bytes
      then r\<lparr>fr_truncated := True, fr_complete := False\<rparr>
      else r\<lparr>fr_seen_paths := path # fr_seen_paths r, fr_paths := fr_paths r @ [path], fr_bytes := fr_bytes r + bytes\<rparr>)"

definition note_group :: "string \<Rightarrow> J \<Rightarrow> string list \<Rightarrow> file_report \<Rightarrow> file_report" where
  "note_group cwd args keys r =
     (case Option.bind (path_argument args keys) (normalize_file_report_path cwd) of
        None \<Rightarrow> r\<lparr>fr_complete := False\<rparr>
      | Some path \<Rightarrow> note_path path r)"

definition item_key :: "J \<Rightarrow> string" where
  "item_key item = str_or item ''itemId'' []"

definition observe_report :: "string \<Rightarrow> J \<Rightarrow> file_report \<Rightarrow> file_report" where
  "observe_report cwd item r =
     (let item_id = item_key item in
      case path_groups item of
        None \<Rightarrow> r\<lparr>fr_complete := False\<rparr>
      | Some groups \<Rightarrow>
          if groups = [] \<or> item_id = [] \<or> item_id \<in> set (fr_seen_items r) then r
          else
            (let r1 = r\<lparr>fr_seen_items := item_id # fr_seen_items r\<rparr> in
             case tool_args item of
               None \<Rightarrow> r1\<lparr>fr_complete := False\<rparr>
             | Some args \<Rightarrow> foldl (\<lambda>r keys. note_group cwd args keys r) r1 groups))"

text \<open>The note that carries a report before the prompt's response. Its metadata is the value that is printed
  and read back.\<close>

datatype report_unavailable = ReportCancelled | ReportProviderError

definition report_value :: "file_report \<Rightarrow> report_unavailable option \<Rightarrow> jvalue" where
  "report_value r unavailable =
     VObject ([(''version'', VNumber ''1''), (''requestId'', VString (fr_id r))] @
       (case unavailable of
          None \<Rightarrow> [(''status'', VString ''reported''), (''paths'', VArray (map VString (fr_paths r))),
                    (''declaredComplete'', VBool (fr_complete r)), (''truncated'', VBool (fr_truncated r))]
        | Some reason \<Rightarrow> [(''status'', VString ''unavailable''),
            (''reason'', VString (case reason of ReportCancelled \<Rightarrow> ''cancelled'' | ReportProviderError \<Rightarrow> ''providerError''))]))"

definition report_note :: "string \<Rightarrow> nat \<Rightarrow> file_report \<Rightarrow> report_unavailable option \<Rightarrow> notif" where
  "report_note acp_sid ver r unavailable =
     session_info acp_sid ver Keep None
       (Some [(''jetbrains'', VObject [(''air'', VObject [(''version'', VNumber ''1''),
          (''agentFileChangeReport'', report_value r unavailable)])])])"

section \<open>Bounds\<close>

definition encoded_bytes :: "string list \<Rightarrow> nat" where
  "encoded_bytes ps = length (comma_join (map esc ps))"

lemma join_snoc: "join sep (xs @ [x]) = (if xs = [] then x else join sep xs @ sep @ x)"
  by (induction sep xs rule: join.induct) (simp_all add: join_Cons)

lemma encoded_snoc: "encoded_bytes (ps @ [p]) = encoded_bytes ps + length (esc p) + (if ps = [] then 0 else 1)"
  by (simp add: encoded_bytes_def comma_join_def join_snoc)

text \<open>A path that lies below a directory and has no parent components.\<close>

definition below :: "string \<Rightarrow> string \<Rightarrow> bool" where
  "below cwd p \<longleftrightarrow> (\<exists>xs. p = ''/'' @ join ''/'' xs \<and> strict_prefix (path_parts cwd) xs \<and> ''..'' \<notin> set xs)"

definition report_ok :: "string \<Rightarrow> file_report \<Rightarrow> bool" where
  "report_ok cwd r \<longleftrightarrow>
     distinct (fr_paths r) \<and> set (fr_seen_paths r) = set (fr_paths r) \<and> length (fr_paths r) \<le> FILE_REPORT_MAX_PATHS \<and>
     fr_bytes r = encoded_bytes (fr_paths r) \<and> fr_bytes r \<le> FILE_REPORT_MAX_ENCODED_PATH_BYTES \<and>
     list_all (below cwd) (fr_paths r) \<and> \<not> (fr_truncated r \<and> fr_complete r)"

lemma normalize_path_plain:
  "normalize_path acc ys = Some xs \<Longrightarrow> ''..'' \<notin> set acc \<Longrightarrow> ''..'' \<notin> set xs"
  by (induction acc ys rule: normalize_path.induct) (auto split: if_splits dest: in_set_butlastD)

lemma normalize_below: "normalize_file_report_path cwd raw = Some p \<Longrightarrow> below cwd p"
  unfolding normalize_file_report_path_def below_def
  by (auto simp: strict_prefix_def dest: normalize_path_plain split: if_splits option.splits)

lemma new_report_ok: "report_ok cwd (new_file_report i)"
  by (simp add: report_ok_def new_file_report_def FILE_REPORT_MAX_PATHS_def encoded_bytes_def comma_join_def)

lemma note_path_ok: "report_ok cwd r \<Longrightarrow> below cwd p \<Longrightarrow> report_ok cwd (note_path p r)"
  by (auto simp: report_ok_def note_path_def Let_def encoded_snoc)

lemma report_ok_field:
  "report_ok cwd r \<Longrightarrow> report_ok cwd (r\<lparr>fr_complete := False\<rparr>)" "report_ok cwd (r\<lparr>fr_seen_items := is\<rparr>) = report_ok cwd r"
  by (simp_all add: report_ok_def)

lemma note_group_ok: "report_ok cwd r \<Longrightarrow> report_ok cwd (note_group cwd args keys r)"
  by (auto simp: note_group_def report_ok_field note_path_ok bind_eq_Some_conv dest: normalize_below split: option.split)

lemma note_groups_ok: "report_ok cwd r \<Longrightarrow> report_ok cwd (foldl (\<lambda>r keys. note_group cwd args keys r) r groups)"
  by (induction groups arbitrary: r) (simp_all add: note_group_ok)

lemma observe_ok: "report_ok cwd r \<Longrightarrow> report_ok cwd (observe_report cwd item r)"
  by (auto simp: observe_report_def Let_def report_ok_field note_groups_ok split: option.split)

definition observe_all :: "string \<Rightarrow> J list \<Rightarrow> file_report \<Rightarrow> file_report" where
  "observe_all cwd items r = foldl (\<lambda>r item. observe_report cwd item r) r items"

lemma observe_all_simps [simp]:
  "observe_all cwd [] r = r" "observe_all cwd (item # items) r = observe_all cwd items (observe_report cwd item r)"
  by (simp_all add: observe_all_def)

lemma observe_all_ok: "report_ok cwd r \<Longrightarrow> report_ok cwd (observe_all cwd items r)"
  by (induction items arbitrary: r) (simp_all add: observe_ok)

text \<open>C38: Whatever the host reports, a file report lists at most 1024 distinct paths, at most 255 KiB of encoded
  text, every one of them strictly below the session's directory and free of parent components, and a report
  that was cut short never declares itself complete.\<close>

theorem file_report_bounded:
  "let r = observe_all cwd items (new_file_report i) in
   length (fr_paths r) \<le> 1024 \<and> length (comma_join (map esc (fr_paths r))) \<le> 261120 \<and> distinct (fr_paths r) \<and>
   list_all (below cwd) (fr_paths r) \<and> \<not> (fr_truncated r \<and> fr_complete r)"
  using observe_all_ok [OF new_report_ok, of cwd items i]
  by (simp add: report_ok_def encoded_bytes_def FILE_REPORT_MAX_PATHS_def FILE_REPORT_MAX_ENCODED_PATH_BYTES_def Let_def)

section \<open>Completeness\<close>

text \<open>All the paths of an item are in a list.\<close>

definition group_listed :: "string \<Rightarrow> J \<Rightarrow> string list \<Rightarrow> string list \<Rightarrow> bool" where
  "group_listed cwd args ps keys \<longleftrightarrow>
     (\<exists>p. Option.bind (path_argument args keys) (normalize_file_report_path cwd) = Some p \<and> p \<in> set ps)"

definition item_listed :: "string \<Rightarrow> string list \<Rightarrow> J \<Rightarrow> bool" where
  "item_listed cwd ps item \<longleftrightarrow>
     (\<exists>groups. path_groups item = Some groups \<and>
        (groups = [] \<or> (\<exists>args. tool_args item = Some args \<and> list_all (group_listed cwd args ps) groups)))"

definition grows :: "file_report \<Rightarrow> file_report \<Rightarrow> bool" where
  "grows r r' \<longleftrightarrow> set (fr_paths r) \<subseteq> set (fr_paths r') \<and> (fr_complete r' \<longrightarrow> fr_complete r)"

lemma grows_rules: "grows r r" "grows r r' \<Longrightarrow> grows r' r'' \<Longrightarrow> grows r r''"
  by (auto simp: grows_def)

lemma grows_note: "grows r (note_path p r)" "grows r (note_group cwd args keys r)"
proof -
  show path: "grows r (note_path p r)" for p by (auto simp: grows_def note_path_def Let_def)
  show "grows r (note_group cwd args keys r)" using path by (auto simp: note_group_def grows_def split: option.split)
qed

lemma grows_groups: "grows r (foldl (\<lambda>r keys. note_group cwd args keys r) r groups)"
  by (induction groups arbitrary: r) (auto intro: grows_rules grows_note)

lemma grows_observe: "grows r (observe_report cwd item r)"
  using grows_groups [of "r\<lparr>fr_seen_items := item_key item # fr_seen_items r\<rparr>"]
  by (auto simp: observe_report_def Let_def grows_def split: option.split)

lemma grows_all: "grows r (observe_all cwd items r)"
  by (induction items arbitrary: r) (auto intro: grows_rules grows_observe)

lemma listed_mono: "group_listed cwd args ps keys \<Longrightarrow> set ps \<subseteq> set qs \<Longrightarrow> group_listed cwd args qs keys"
  by (auto simp: group_listed_def)

lemma note_group_listed:
  assumes "fr_complete (note_group cwd args keys r)" "set (fr_seen_paths r) = set (fr_paths r)"
  shows "group_listed cwd args (fr_paths (note_group cwd args keys r)) keys"
  using assms by (auto simp: note_group_def group_listed_def note_path_def Let_def split: option.splits if_splits)

lemma note_groups_listed:
  assumes "report_ok cwd r" "fr_complete (foldl (\<lambda>r keys. note_group cwd args keys r) r groups)"
  shows "list_all (group_listed cwd args (fr_paths (foldl (\<lambda>r keys. note_group cwd args keys r) r groups))) groups"
  using assms
proof (induction groups arbitrary: r)
  case (Cons keys groups)
  define r1 where "r1 = note_group cwd args keys r"
  have g: "grows r1 (foldl (\<lambda>r keys. note_group cwd args keys r) r1 groups)" by (rule grows_groups)
  then have "fr_complete r1" using Cons.prems(2) by (simp add: grows_def r1_def)
  then have "group_listed cwd args (fr_paths r1) keys"
    using note_group_listed Cons.prems(1) by (simp add: r1_def report_ok_def)
  with g Cons.IH [of r1] Cons.prems show ?case
    by (auto simp: r1_def [symmetric] grows_def note_group_ok intro: listed_mono) (simp add: r1_def note_group_ok)
qed simp

lemma observe_listed:
  assumes "report_ok cwd r" "fr_complete (observe_report cwd item r)" "item_key item \<notin> set (fr_seen_items r)"
    "item_key item \<noteq> []"
  shows "item_listed cwd (fr_paths (observe_report cwd item r)) item"
proof -
  define r1 where "r1 = r\<lparr>fr_seen_items := item_key item # fr_seen_items r\<rparr>"
  have "report_ok cwd r1" using assms(1) by (simp add: r1_def report_ok_field)
  from note_groups_listed [OF this] show ?thesis using assms(2-4)
    unfolding item_listed_def observe_report_def r1_def [symmetric] Let_def
    by (auto split: option.splits if_splits)
qed

lemma item_listed_mono: "item_listed cwd ps item \<Longrightarrow> set ps \<subseteq> set qs \<Longrightarrow> item_listed cwd qs item"
  unfolding item_listed_def list_all_iff using listed_mono [of cwd _ ps _ qs] by blast

lemma note_group_items: "fr_seen_items (note_group cwd args keys r) = fr_seen_items r"
  by (simp add: note_group_def note_path_def Let_def split: option.split)

lemma note_groups_items: "fr_seen_items (foldl (\<lambda>r keys. note_group cwd args keys r) r groups) = fr_seen_items r"
  by (induction groups arbitrary: r) (simp_all add: note_group_items)

lemma observe_items: "set (fr_seen_items (observe_report cwd item r)) \<subseteq> insert (item_key item) (set (fr_seen_items r))"
  by (auto simp: observe_report_def Let_def note_groups_items split: option.split)

lemma subset_insert_disjoint: "A \<subseteq> insert k B \<Longrightarrow> k \<notin> C \<Longrightarrow> B \<inter> C = {} \<Longrightarrow> A \<inter> C = {}"
  by blast

lemma observe_all_listed:
  assumes "report_ok cwd r" "fr_complete (observe_all cwd items r)"
    "distinct (map item_key items)" "[] \<notin> item_key ` set items"
    "set (fr_seen_items r) \<inter> item_key ` set items = {}"
  shows "list_all (item_listed cwd (fr_paths (observe_all cwd items r))) items"
  using assms
proof (induction items arbitrary: r)
  case (Cons item items)
  define r1 where "r1 = observe_report cwd item r"
  have ok: "report_ok cwd r1" using Cons.prems(1) by (simp add: r1_def observe_ok)
  have g: "grows r1 (observe_all cwd items r1)" by (rule grows_all)
  then have "fr_complete r1" using Cons.prems(2) by (simp add: grows_def r1_def)
  then have "item_listed cwd (fr_paths r1) item"
    unfolding r1_def using Cons.prems by (intro observe_listed) auto
  then have "item_listed cwd (fr_paths (observe_all cwd items r1)) item"
    using g item_listed_mono by (auto simp: grows_def)
  moreover have "list_all (item_listed cwd (fr_paths (observe_all cwd items r1))) items"
  proof (rule Cons.IH [OF ok])
    show "fr_complete (observe_all cwd items r1)" using Cons.prems(2) by (simp add: r1_def)
    show "distinct (map item_key items)" "[] \<notin> item_key ` set items" using Cons.prems(3,4) by simp_all
    show "set (fr_seen_items r1) \<inter> item_key ` set items = {}" unfolding r1_def
      by (rule subset_insert_disjoint [OF observe_items]) (use Cons.prems(3,5) in simp_all)
  qed
  ultimately show ?case by (simp add: r1_def)
qed simp

text \<open>C39: A report that declares itself complete is complete: of the items observed, each with its own id, none is a
  tool whose writes are unknown, and every path argument of every writing tool is in the list.\<close>

theorem complete_report_lists_every_path:
  assumes "distinct (map item_key items)" "[] \<notin> item_key ` set items"
    "fr_complete (observe_all cwd items (new_file_report i))"
  shows "list_all (item_listed cwd (fr_paths (observe_all cwd items (new_file_report i)))) items"
  by (rule observe_all_listed [OF new_report_ok assms(3) assms(1,2)]) (simp add: new_file_report_def)

definition demo_write :: J where
  "demo_write = JObj [(''kind'', JStr ''toolCall''), (''tool'', JStr ''write_file''), (''itemId'', JStr ''i1''),
     (''args'', JObj [(''path'', JStr ''a'')])]"

theorem complete_report_lists_every_path_witness:
  "item_listed ''/w'' (fr_paths (observe_all ''/w'' [demo_write] (new_file_report ''r''))) demo_write"
proof -
  have "fr_complete (observe_all ''/w'' [demo_write] (new_file_report ''r''))"
    by (simp add: demo_write_def new_file_report_def observe_report_def item_key_def path_groups_def str_or_def str_at_def is_delegated_def
        to_ascii_lowercase_def ascii_lower_def tool_args_def note_group_def path_argument_def normalize_file_report_path_def
        FILE_REPORT_MAX_PATH_LENGTH_def chars_ascii is_control_def starts_with_def path_parts_def note_path_def
        FILE_REPORT_MAX_PATHS_def FILE_REPORT_MAX_ENCODED_PATH_BYTES_def esc_def esc_char_def utf8_encode_def of_chars_def char_of_def bit_0)
  from complete_report_lists_every_path [OF _ _ this] show ?thesis
    by (simp add: demo_write_def item_key_def str_or_def str_at_def)
qed

end
