(* ===== verification/Turn_Usage.thy ===== *)
theory Turn_Usage
  imports Out Fold_Text
begin

text \<open>
  Token usage of a turn (\<^verbatim>\<open>src/acp.rs\<close>): the legs the host reports, one per model call, are summed per turn
  and per model with saturating 64-bit arithmetic, and the sums go out with the answer to the turn's prompt.
  The last sections compare the accumulator with the plain sums of the legs.
\<close>

section \<open>Counters\<close>

definition U64_MAX :: nat where
  "U64_MAX = 2 ^ 64 - 1"

definition sat_add :: "nat \<Rightarrow> nat \<Rightarrow> nat" where
  "sat_add a b = min U64_MAX (a + b)"

record usage_totals =
  ut_total :: nat
  ut_input :: nat
  ut_output :: nat
  ut_thought :: "nat option"
  ut_read :: "nat option"
  ut_write :: "nat option"

definition usage_zero :: usage_totals where
  "usage_zero = \<lparr>ut_total = 0, ut_input = 0, ut_output = 0, ut_thought = None, ut_read = None, ut_write = None\<rparr>"

definition add_opt :: "nat option \<Rightarrow> nat option \<Rightarrow> nat option" where
  "add_opt slot add = (case add of Some v \<Rightarrow> Some (sat_add (unwrap_or slot 0) v) | None \<Rightarrow> slot)"

definition add_totals :: "usage_totals \<Rightarrow> usage_totals \<Rightarrow> usage_totals" where
  "add_totals a b =
     \<lparr>ut_total = sat_add (ut_total a) (ut_total b), ut_input = sat_add (ut_input a) (ut_input b),
      ut_output = sat_add (ut_output a) (ut_output b), ut_thought = add_opt (ut_thought a) (ut_thought b),
      ut_read = add_opt (ut_read a) (ut_read b), ut_write = add_opt (ut_write a) (ut_write b)\<rparr>"

definition opt_member :: "string \<Rightarrow> nat option \<Rightarrow> string" where
  "opt_member key v = (case v of Some n \<Rightarrow> '','' @ member key (show_nat n) | None \<Rightarrow> [])"

definition usage_members :: "usage_totals \<Rightarrow> string" where
  "usage_members t =
     comma_join [member ''totalTokens'' (show_nat (ut_total t)), member ''inputTokens'' (show_nat (ut_input t)),
       member ''outputTokens'' (show_nat (ut_output t))] @
     opt_member ''thoughtTokens'' (ut_thought t) @ opt_member ''cachedReadTokens'' (ut_read t) @
     opt_member ''cachedWriteTokens'' (ut_write t)"

section \<open>The accumulator of a turn\<close>

record turn_usage =
  tu_turn :: string
  tu_calls :: nat
  tu_duration :: "nat option"
  tu_totals :: usage_totals
  tu_models :: "(string \<times> usage_totals) list"

definition turn_usage_new :: "string \<Rightarrow> turn_usage" where
  "turn_usage_new turn = \<lparr>tu_turn = turn, tu_calls = 0, tu_duration = None, tu_totals = usage_zero, tu_models = []\<rparr>"

text \<open>Adds a leg to the entry of its model, which is the first with that name, or appends one.\<close>

fun add_model :: "string \<Rightarrow> usage_totals \<Rightarrow> (string \<times> usage_totals) list \<Rightarrow> (string \<times> usage_totals) list" where
  "add_model m leg [] = [(m, leg)]"
| "add_model m leg ((k, t) # ms) = (if k = m then (k, add_totals t leg) # ms else (k, t) # add_model m leg ms)"

record usage_leg =
  lg_model :: "string option"
  lg_duration :: "nat option"
  lg_totals :: usage_totals

definition record_leg :: "turn_usage \<Rightarrow> usage_leg \<Rightarrow> turn_usage" where
  "record_leg u leg =
     u\<lparr>tu_calls := sat_add (tu_calls u) 1, tu_duration := add_opt (tu_duration u) (lg_duration leg),
       tu_totals := add_totals (tu_totals u) (lg_totals leg),
       tu_models := (case nonempty (lg_model leg) of
          Some m \<Rightarrow> add_model m (lg_totals leg) (tu_models u) | None \<Rightarrow> tu_models u)\<rparr>"

definition leg_of :: "J \<Rightarrow> usage_leg" where
  "leg_of params =
     (let prompt = unwrap_or (u64_at params ''promptTokens'') 0; total = unwrap_or (u64_at params ''totalTokens'') 0;
          raw = (\<lambda>key. Option.bind (jget params ''usage'') (\<lambda>u. u64_at u key)) in
      \<lparr>lg_model = str_at params ''modelId'', lg_duration = u64_at params ''durationMs'',
       lg_totals = \<lparr>ut_total = total, ut_input = prompt, ut_output = total - prompt, ut_thought = raw ''reasoningTokens'',
         ut_read = or_else (raw ''cacheReadTokens'') (raw ''cachedTokens''), ut_write = raw ''cacheWriteTokens''\<rparr>\<rparr>)"

definition TURN_USAGE_KEEP :: nat where
  "TURN_USAGE_KEEP = 16"

fun record_in :: "string \<Rightarrow> usage_leg \<Rightarrow> turn_usage list \<Rightarrow> turn_usage list option" where
  "record_in turn leg [] = None"
| "record_in turn leg (u # us) =
     (if tu_turn u = turn then Some (record_leg u leg # us) else map_option ((#) u) (record_in turn leg us))"

definition record_turn_leg :: "turn_usage list \<Rightarrow> string \<Rightarrow> J \<Rightarrow> turn_usage list" where
  "record_turn_leg us turn params =
     (if turn = [] then us
      else case record_in turn (leg_of params) us of
             Some us' \<Rightarrow> us'
           | None \<Rightarrow>
               (let us' = us @ [record_leg (turn_usage_new turn) (leg_of params)] in
                if TURN_USAGE_KEEP < length us' then tl us' else us'))"

fun take_turn_usage :: "string \<Rightarrow> turn_usage list \<Rightarrow> turn_usage option \<times> turn_usage list" where
  "take_turn_usage turn [] = (None, [])"
| "take_turn_usage turn (u # us) =
     (if tu_turn u = turn then (Some u, us)
      else (case take_turn_usage turn us of (found, us') \<Rightarrow> (found, u # us')))"

text \<open>The usage of a prompt's answer: none when no leg arrived.\<close>

record prompt_usage =
  pu_totals :: usage_totals
  pu_meta :: "meta_t option"

definition result_usage :: "serde_t \<Rightarrow> turn_usage \<Rightarrow> prompt_usage option" where
  "result_usage serde u =
     (if tu_calls u = 0 then None
      else
        (let muse = member ''modelCalls'' (show_nat (tu_calls u)) @ opt_member ''apiDurationMs'' (tu_duration u) @
             (if tu_models u = [] then []
              else '','' @ member_obj ''modelUsage'' (comma_join (map (\<lambda>(m, t). esc m @ '':{'' @ usage_members t @ ''}'') (tu_models u)))) in
         Some \<lparr>pu_totals = tu_totals u,
           pu_meta = meta serde (''{'' @ member ''mjolnir.dev/usage-scope'' (quoted ''turn'') @ '','' @ member_obj ''muse'' muse @ ''}'')\<rparr>))"

section \<open>Plain sums\<close>

text \<open>The reference: the capped sum of the values that are present, none when none is.\<close>

definition capped :: "nat list \<Rightarrow> nat" where
  "capped ns = min U64_MAX (sum_list ns)"

definition capped_opt :: "nat option list \<Rightarrow> nat option" where
  "capped_opt xs = (if List.map_filter id xs = [] then None else Some (capped (List.map_filter id xs)))"

definition sum_totals :: "usage_totals list \<Rightarrow> usage_totals" where
  "sum_totals ts =
     \<lparr>ut_total = capped (map ut_total ts), ut_input = capped (map ut_input ts), ut_output = capped (map ut_output ts),
      ut_thought = capped_opt (map ut_thought ts), ut_read = capped_opt (map ut_read ts), ut_write = capped_opt (map ut_write ts)\<rparr>"

lemma capped_snoc: "sat_add (capped ns) n = capped (ns @ [n])"
  by (simp add: capped_def sat_add_def)

lemma map_filter_snoc': "List.map_filter id (xs @ [x]) = List.map_filter id xs @ (case x of Some v \<Rightarrow> [v] | None \<Rightarrow> [])"
  by (simp add: List.map_filter_def split: option.split)

lemma capped_opt_snoc: "add_opt (capped_opt xs) x = capped_opt (xs @ [x])"
proof (cases x)
  case (Some v)
  then show ?thesis using capped_snoc [of "List.map_filter id xs" v]
    by (simp add: add_opt_def capped_opt_def map_filter_snoc') (simp add: capped_def sat_add_def)
qed (simp add: add_opt_def capped_opt_def map_filter_snoc')

lemma sum_totals_snoc: "add_totals (sum_totals ts) t = sum_totals (ts @ [t])"
  by (simp add: add_totals_def sum_totals_def capped_snoc capped_opt_snoc)

lemma sum_totals_nil: "sum_totals [] = usage_zero"
  by (simp add: sum_totals_def usage_zero_def capped_def capped_opt_def)

definition in_range :: "usage_totals \<Rightarrow> bool" where
  "in_range t \<longleftrightarrow> ut_total t \<le> U64_MAX \<and> ut_input t \<le> U64_MAX \<and> ut_output t \<le> U64_MAX \<and>
     list_all (\<lambda>x. case x of Some v \<Rightarrow> v \<le> U64_MAX | None \<Rightarrow> True) [ut_thought t, ut_read t, ut_write t]"

lemma sum_totals_one: "in_range t \<Longrightarrow> sum_totals [t] = t"
  by (cases t) (auto simp: in_range_def sum_totals_def capped_def capped_opt_def List.map_filter_def split: option.splits)

lemma parse_u64_range: "parse_u64 s = Some n \<Longrightarrow> n \<le> U64_MAX"
  by (auto simp: parse_u64_def U64_MAX_def Let_def simp del: option_rules split: if_splits)

lemma u64_range: "u64_at j key = Some n \<Longrightarrow> n \<le> U64_MAX"
  by (auto simp: u64_at_def bind_eq_Some_conv elim!: as_u64.elims dest: parse_u64_range [OF sym])

lemma leg_in_range: "in_range (lg_totals (leg_of params))"
proof -
  have a: "unwrap_or (u64_at j key) 0 \<le> U64_MAX" for j key
    using u64_range by (cases "u64_at j key") auto
  have b: "v \<le> U64_MAX" if "Option.bind (jget params ''usage'') (\<lambda>u. u64_at u key) = Some v" for key v
    using u64_range that by (auto simp: bind_eq_Some_conv)
  then show ?thesis using a [of params "''totalTokens''"] a [of params "''promptTokens''"]
    by (auto simp: in_range_def leg_of_def Let_def simp del: unwrap_or_def dest: b split: option.splits)
qed

lemma map_of_add_model:
  "map_of (add_model m t ms) k = (if k = m then Some (case map_of ms m of Some t' \<Rightarrow> add_totals t' t | None \<Rightarrow> t) else map_of ms k)"
  by (induction m t ms rule: add_model.induct) auto

text \<open>The legs of one model.\<close>

definition model_legs :: "string \<Rightarrow> usage_leg list \<Rightarrow> usage_totals list" where
  "model_legs m legs = map lg_totals (filter (\<lambda>leg. nonempty (lg_model leg) = Some m) legs)"

definition sums_of :: "string \<Rightarrow> usage_leg list \<Rightarrow> turn_usage \<Rightarrow> bool" where
  "sums_of turn legs u \<longleftrightarrow>
     tu_turn u = turn \<and> tu_calls u = min U64_MAX (length legs) \<and> tu_duration u = capped_opt (map lg_duration legs) \<and>
     tu_totals u = sum_totals (map lg_totals legs) \<and>
     (\<forall>m. map_of (tu_models u) m = (if model_legs m legs = [] then None else Some (sum_totals (model_legs m legs))))"

lemma sums_new: "sums_of turn [] (turn_usage_new turn)"
  by (simp add: sums_of_def turn_usage_new_def sum_totals_nil model_legs_def capped_opt_def)

lemma sums_record:
  assumes "sums_of turn legs u" "in_range (lg_totals leg)"
  shows "sums_of turn (legs @ [leg]) (record_leg u leg)"
proof -
  have m: "map_of (tu_models (record_leg u leg)) m =
      (if model_legs m (legs @ [leg]) = [] then None else Some (sum_totals (model_legs m (legs @ [leg]))))" for m
  proof (cases "nonempty (lg_model leg) = Some m")
    case True
    then have "model_legs m (legs @ [leg]) = model_legs m legs @ [lg_totals leg]" by (simp add: model_legs_def del: nonempty_def)
    moreover have "map_of (tu_models (record_leg u leg)) m =
        Some (case map_of (tu_models u) m of Some t' \<Rightarrow> add_totals t' (lg_totals leg) | None \<Rightarrow> lg_totals leg)"
      using True by (simp add: record_leg_def map_of_add_model del: nonempty_def)
    ultimately show ?thesis using assms by (simp add: sums_of_def sum_totals_snoc sum_totals_one)
  next
    case False
    then have "model_legs m (legs @ [leg]) = model_legs m legs" by (simp add: model_legs_def del: nonempty_def)
    moreover have "map_of (tu_models (record_leg u leg)) m = map_of (tu_models u) m"
      using False by (auto simp: record_leg_def map_of_add_model simp del: nonempty_def split: option.split)
    ultimately show ?thesis using assms by (simp add: sums_of_def)
  qed
  have "sat_add (min U64_MAX n) 1 = min U64_MAX (n + 1)" for n by (simp add: sat_add_def)
  with m assms show ?thesis
    by (simp add: sums_of_def record_leg_def sum_totals_snoc capped_opt_snoc)
qed

lemma sums_all: "list_all (\<lambda>leg. in_range (lg_totals leg)) legs \<Longrightarrow> sums_of turn legs (foldl record_leg (turn_usage_new turn) legs)"
  by (induction legs rule: rev_induct) (simp_all add: sums_new sums_record)

section \<open>The turns of a session\<close>

text \<open>The legs of one turn among all that arrived.\<close>

definition turn_legs :: "string \<Rightarrow> (string \<times> J) list \<Rightarrow> usage_leg list" where
  "turn_legs turn evs = map (\<lambda>(t, params). leg_of params) (filter (\<lambda>(t, params). t = turn) evs)"

definition record_all :: "(string \<times> J) list \<Rightarrow> turn_usage list" where
  "record_all evs = foldl (\<lambda>us (turn, params). record_turn_leg us turn params) [] evs"

lemma record_all_snoc: "record_all (evs @ [(turn, params)]) = record_turn_leg (record_all evs) turn params"
  by (simp add: record_all_def)

lemma record_in_turns: "record_in turn leg us = Some us' \<Longrightarrow> map tu_turn us' = map tu_turn us"
  by (induction us arbitrary: us') (auto simp: record_leg_def split: if_splits)

lemma record_in_None: "record_in turn leg us = None \<longleftrightarrow> turn \<notin> tu_turn ` set us"
  by (induction us) auto

lemma find_record_in:
  "record_in turn leg us = Some us' \<Longrightarrow>
   List.find (\<lambda>u. tu_turn u = t) us' =
     (if t = turn then map_option (\<lambda>u. record_leg u leg) (List.find (\<lambda>u. tu_turn u = t) us) else List.find (\<lambda>u. tu_turn u = t) us)"
  by (induction us arbitrary: us') (auto simp: record_leg_def split: if_splits)

lemma find_snoc: "List.find P (xs @ [x]) = (case List.find P xs of Some y \<Rightarrow> Some y | None \<Rightarrow> if P x then Some x else None)"
  by (induction xs) auto

lemma take_find: "fst (take_turn_usage turn us) = List.find (\<lambda>u. tu_turn u = turn) us"
  by (induction us) (auto split: prod.split)

text \<open>The turns kept, oldest first: without their legs, the session is a list of turn ids.\<close>

definition keep_turn :: "string list \<Rightarrow> string \<Rightarrow> string list" where
  "keep_turn ts turn =
     (if turn = [] \<or> turn \<in> set ts then ts
      else if TURN_USAGE_KEEP < length ts + 1 then tl (ts @ [turn]) else ts @ [turn])"

lemma record_turns: "map tu_turn (record_turn_leg us turn params) = keep_turn (map tu_turn us) turn"
proof (cases "record_in turn (leg_of params) us")
  case None
  then show ?thesis
    using record_in_None [of turn "leg_of params" us]
    by (auto simp: record_turn_leg_def None keep_turn_def record_leg_def turn_usage_new_def Let_def map_tl)
next
  case (Some us')
  moreover have "turn \<in> set (map tu_turn us)" using Some record_in_None [of turn "leg_of params" us] by auto
  ultimately show ?thesis using record_in_turns [OF Some] by (auto simp: record_turn_leg_def keep_turn_def)
qed

lemma keep_bound: "length ts \<le> TURN_USAGE_KEEP \<Longrightarrow> length (keep_turn ts turn) \<le> TURN_USAGE_KEEP"
  by (auto simp: keep_turn_def)

lemma record_all_bound: "length (record_all evs) \<le> TURN_USAGE_KEEP"
proof (induction evs rule: rev_induct)
  case (snoc ev evs)
  obtain turn params where ev: "ev = (turn, params)" by (cases ev)
  have "length (map tu_turn (record_all (evs @ [ev]))) \<le> TURN_USAGE_KEEP"
    unfolding ev record_all_snoc record_turns using snoc by (simp add: keep_bound)
  then show ?case by simp
qed (simp add: record_all_def)

text \<open>While at most 16 turns have reported, each keeps all its legs.\<close>

definition all_kept :: "(string \<times> J) list \<Rightarrow> turn_usage list \<Rightarrow> bool" where
  "all_kept evs us \<longleftrightarrow>
     distinct (map tu_turn us) \<and> tu_turn ` set us = fst ` set evs - {[]} \<and>
     (\<forall>t. t \<noteq> [] \<longrightarrow> (case List.find (\<lambda>u. tu_turn u = t) us of
        Some u \<Rightarrow> sums_of t (turn_legs t evs) u | None \<Rightarrow> turn_legs t evs = []))"

lemma turn_legs_snoc: "turn_legs t (evs @ [(turn, params)]) = turn_legs t evs @ (if t = turn then [leg_of params] else [])"
  by (auto simp: turn_legs_def)

lemma kept_step:
  assumes "all_kept evs us" "card (fst ` set (evs @ [(turn, params)]) - {[]}) \<le> TURN_USAGE_KEEP"
  shows "all_kept (evs @ [(turn, params)]) (record_turn_leg us turn params)"
proof (cases "turn = []")
  case True
  then show ?thesis using assms(1)
    by (auto simp: all_kept_def record_turn_leg_def turn_legs_snoc cong: option.case_cong)
next
  case ne: False
  show ?thesis
  proof (cases "record_in turn (leg_of params) us")
    case None
    then have new: "turn \<notin> tu_turn ` set us" by (simp add: record_in_None)
    define u where "u = record_leg (turn_usage_new turn) (leg_of params)"
    have tu: "tu_turn u = turn" by (simp add: u_def record_leg_def turn_usage_new_def)
    have "length us = card (tu_turn ` set us)" using assms(1) by (metis all_kept_def distinct_card length_map set_map)
    also have "\<dots> < TURN_USAGE_KEEP"
    proof -
      have "fst ` set (evs @ [(turn, params)]) - {[]} = insert turn (tu_turn ` set us)" using assms(1) ne by (auto simp: all_kept_def)
      then show ?thesis using assms(2) new by simp
    qed
    finally have r: "record_turn_leg us turn params = us @ [u]" using None ne by (simp add: record_turn_leg_def u_def Let_def)
    have one: "sums_of turn [leg_of params] u" using sums_record [OF sums_new leg_in_range] by (simp add: u_def)
    have k: "case List.find (\<lambda>u. tu_turn u = t) us of Some u \<Rightarrow> sums_of t (turn_legs t evs) u | None \<Rightarrow> turn_legs t evs = []"
      if "t \<noteq> []" for t using assms(1) that by (simp add: all_kept_def)
    have absent: "List.find (\<lambda>u. tu_turn u = turn) us = None" using new by (simp add: find_None_iff) blast
    have "case List.find (\<lambda>u. tu_turn u = t) (us @ [u]) of
        Some u \<Rightarrow> sums_of t (turn_legs t (evs @ [(turn, params)])) u | None \<Rightarrow> turn_legs t (evs @ [(turn, params)]) = []" if "t \<noteq> []" for t
    proof (cases "t = turn")
      case True
      then show ?thesis using k [OF ne] one tu by (simp add: find_snoc absent turn_legs_snoc)
    next
      case False
      then show ?thesis using k [OF that] tu by (simp add: find_snoc turn_legs_snoc split: option.splits)
    qed
    then show ?thesis using assms(1) ne new tu unfolding r all_kept_def by auto
  next
    case (Some us')
    then have r: "record_turn_leg us turn params = us'" using ne by (simp add: record_turn_leg_def)
    have in_us: "turn \<in> tu_turn ` set us" using Some record_in_None [of turn "leg_of params" us] by auto
    have turns: "map tu_turn us' = map tu_turn us" by (rule record_in_turns [OF Some])
    then have "tu_turn ` set us' = tu_turn ` set us" by (metis set_map)
    moreover have "case List.find (\<lambda>u. tu_turn u = t) us' of
        Some u \<Rightarrow> sums_of t (turn_legs t (evs @ [(turn, params)])) u | None \<Rightarrow> turn_legs t (evs @ [(turn, params)]) = []" if "t \<noteq> []" for t
    proof -
      have k: "case List.find (\<lambda>u. tu_turn u = t) us of Some u \<Rightarrow> sums_of t (turn_legs t evs) u | None \<Rightarrow> turn_legs t evs = []"
        using assms(1) that by (simp add: all_kept_def)
      have "List.find (\<lambda>u. tu_turn u = turn) us \<noteq> None" using in_us by (auto simp: find_None_iff)
      then show ?thesis using k unfolding find_record_in [OF Some]
        by (auto simp: turn_legs_snoc sums_record leg_in_range split: option.splits)
    qed
    ultimately show ?thesis unfolding r all_kept_def turns using assms(1) in_us ne by (auto simp: all_kept_def)
  qed
qed

lemma kept_all: "card (fst ` set evs - {[]}) \<le> TURN_USAGE_KEEP \<Longrightarrow> all_kept evs (record_all evs)"
proof (induction evs rule: rev_induct)
  case (snoc ev evs)
  obtain turn params where ev: "ev = (turn, params)" by (cases ev)
  have "card (fst ` set evs - {[]}) \<le> card (fst ` set (evs @ [ev]) - {[]})" by (intro card_mono) auto
  then show ?case using snoc kept_step [of evs "record_all evs" turn params] by (simp add: ev record_all_snoc)
qed (simp add: record_all_def all_kept_def turn_legs_def)

text \<open>C40: The usage reported for a turn is the capped sum of the counters of its legs, in total and per model, each
  counter absent when no leg has it, as long as at most 16 turns have reported; at most 16 turns are ever kept.\<close>

theorem turn_usage_is_the_sum:
  assumes "card (fst ` set evs - {[]}) \<le> 16" "turn \<noteq> []"
  shows "length (record_all evs) \<le> 16 \<and>
    (case fst (take_turn_usage turn (record_all evs)) of
       Some u \<Rightarrow> sums_of turn (turn_legs turn evs) u
     | None \<Rightarrow> turn_legs turn evs = [])"
  using kept_all [of evs] record_all_bound [of evs] assms by (simp add: TURN_USAGE_KEEP_def all_kept_def take_find)

theorem turn_usage_is_the_sum_witness:
  "\<exists>u. fst (take_turn_usage ''t'' (record_all [(''t'', JObj [(''totalTokens'', JNum ''7'')])])) = Some u \<and> ut_total (tu_totals u) = 7"
proof -
  have c: "card (fst ` set [(''t'', JObj [(''totalTokens'', JNum ''7'')])] - {[]}) \<le> 16" by simp
  have p: "parse_u64 ''7'' = Some 7" by (simp add: parse_u64_def strip_prefix_def is_digit_def dec_value_def)
  have legs: "turn_legs ''t'' [(''t'', JObj [(''totalTokens'', JNum ''7'')])] = [leg_of (JObj [(''totalTokens'', JNum ''7'')])]"
    by (simp add: turn_legs_def)
  have "ut_total (lg_totals (leg_of (JObj [(''totalTokens'', JNum ''7'')]))) = 7" by (simp add: leg_of_def u64_at_def p)
  with turn_usage_is_the_sum [OF c, of "''t''"] legs show ?thesis
    by (auto simp: sums_of_def sum_totals_def capped_def U64_MAX_def split: option.splits)
qed

end
