(* ===== verification/Turn_Texts.thy ===== *)
theory Turn_Texts
  imports Prompt_Parts Approval_Card Host
begin

text \<open>
  What the user is told about a turn or a command: the texts and error codes of \<^verbatim>\<open>src/main.rs\<close> and
  \<^verbatim>\<open>src/msp.rs\<close> that depend only on what the host answered. The formatting of hours with one decimal
  digit, Unicode lower case and the clock are arguments.
\<close>

section \<open>Errors of the host\<close>

abbreviation at2 :: "J \<Rightarrow> string \<Rightarrow> string \<Rightarrow> J option" where
  "at2 j k1 k2 \<equiv> Option.bind (jget j k1) (\<lambda>v. jget v k2)"

definition str_at2 :: "J \<Rightarrow> string \<Rightarrow> string \<Rightarrow> string" where
  "str_at2 j k1 k2 = unwrap_or (Option.bind (at2 j k1 k2) as_str) []"

definition auth_failure :: "string \<Rightarrow> string option" where
  "auth_failure msg =
     (let lower = to_ascii_lowercase msg in
      if list_ex (contains lower) [''session expired'', ''session has expired'', ''token expired'', ''token has expired'',
          ''credentials expired'', ''credentials have expired''] then Some ''Muse session expired''
      else if list_ex (contains lower) [''not authenticated'', ''unauthenticated'', ''not logged in'', ''not signed in'',
          ''authentication required'', ''please log in'', ''please login'', ''run `muse login`'', ''run muse login'']
      then Some ''Muse is not authenticated''
      else None)"

text \<open>\<^verbatim>\<open>i64::parse\<close>: an optional sign and digits, in the range of 64 bits.\<close>

definition err_code :: "J \<Rightarrow> int" where
  "err_code e = (case jget e ''code'' of Some (JNum n) \<Rightarrow> unwrap_or (parse_i64 n) (-32603) | _ \<Rightarrow> -32603)"

definition typed_codes :: "(string \<times> int) list" where
  "typed_codes = [(''commandRejected'', -32030), (''skillNotFound'', -32032), (''marketplaceNotFound'', -32034),
     (''pluginNotFound'', -32035), (''marketplaceAlreadyExists'', -32036), (''pluginMutationsDisabled'', -32037),
     (''computerUseUnavailable'', -32033), (''capabilityRequired'', -32010)]"

definition acp_error_code :: "J \<Rightarrow> int \<Rightarrow> int" where
  "acp_error_code error fallback =
     (if auth_failure (host_error_text error) \<noteq> None then -32000
      else case map_of typed_codes (str_at2 error ''data'' ''kind'') of
             Some code \<Rightarrow> code
           | None \<Rightarrow> if err_code error = -32032 then -32032 else fallback)"

definition typed_error_data :: "J \<Rightarrow> string option" where
  "typed_error_data error =
     Option.bind (jget error ''data'') (\<lambda>d. if hhas typed_codes (str_or d ''kind'' []) then Some (j_to_string d) else None)"

definition recovery_observation :: "J \<Rightarrow> J option" where
  "recovery_observation error =
     Option.bind (at2 error ''data'' ''recoveryObservation'') (\<lambda>ob.
       if list_all (\<lambda>key. non_empty_str ob key \<noteq> None)
         [''constructionId'', ''sessionId'', ''requestedMode'', ''effectiveMode'', ''effectiveSource'', ''qualification'']
       then Some ob else None)"

text \<open>The data of an error response: the typed data whole, else the recovery observation.\<close>

definition host_error_data :: "J \<Rightarrow> string option" where
  "host_error_data error =
     or_else (typed_error_data error)
       (map_option (\<lambda>ob. object_of [(''recoveryObservation'', j_to_string ob)]) (recovery_observation error))"

definition rejection_reason :: "J \<Rightarrow> string option" where
  "rejection_reason e =
     Option.bind (jget e ''data'') (\<lambda>d. if str_at d ''kind'' = Some ''commandRejected'' then str_at d ''reason'' else None)"

definition capability_required_error :: "string \<Rightarrow> string \<Rightarrow> J" where
  "capability_required_error meth capability =
     JObj [(''code'', JNum ''-32010''), (''message'', JStr (meth @ '' requires the '' @ capability @ '' capability'')),
       (''data'', JObj [(''capability'', JStr capability), (''kind'', JStr ''capabilityRequired''), (''retryable'', JBool False)])]"

section \<open>Turns that failed\<close>

definition network_words :: "string list" where
  "network_words = [''network'', ''offline'', ''dns'', ''eai_again'', ''enotfound'', ''econn'', ''etimedout'', ''timed out'',
     ''timeout'', ''connection'', ''unreachable'', ''socket'', ''tls'', ''ssl'', ''certificate'', ''fetch failed'',
     ''failed to fetch'', ''502'', ''503'', ''504'', ''gateway'', ''proxy'', ''internet'', ''no route'', ''broken pipe'',
     ''reset by peer'', ''host unreachable'', ''network unreachable'']"

definition is_network_error :: "(string \<Rightarrow> string) \<Rightarrow> string \<Rightarrow> bool" where
  "is_network_error lower t \<longleftrightarrow> list_ex (contains (lower t)) network_words"

text \<open>The clock in milliseconds and the text of a number of minutes in hours.\<close>

record clock =
  ck_now :: nat
  ck_hours :: "nat \<Rightarrow> string"

definition div_ceil :: "nat \<Rightarrow> nat \<Rightarrow> nat" where
  "div_ceil a b = (a + b - 1) div b"

definition quota_reset_phrase :: "J \<Rightarrow> clock \<Rightarrow> string" where
  "quota_reset_phrase quota C =
     (let head = ''the '' @ str_or quota ''limitKind'' ''unknown'' @ '' quota is exhausted'' in
      case u64_at quota ''resetsAtMs'' of
        None \<Rightarrow> head
      | Some reset \<Rightarrow>
          if reset \<le> ck_now C then
            head @ ''; the provider'' @ [CHR 0x27] @ ''s reset instant has passed, so retry the prompt''
          else
            (let minutes = div_ceil (reset - ck_now C) 60000 in
             head @ ''; the provider resets it '' @
             (if minutes \<le> 1 then ''in under a minute''
              else if minutes < 120 then ''in about '' @ show_nat minutes @ '' minutes''
              else ''in about '' @ ck_hours C minutes @ '' hours'')))"

definition apostrophe :: "string \<Rightarrow> string" where
  "apostrophe t = [CHR 0x27] @ t @ [CHR 0x27]"

definition terminal_head :: "string \<Rightarrow> string \<Rightarrow> string \<Rightarrow> string" where
  "terminal_head terminal kind detail =
     (if detail = [] then
        (if kind = ''launchError'' then ''turn could not start (launchError; terminal '' @ apostrophe terminal @ '')''
         else ''turn ended with terminal '' @ apostrophe terminal)
      else if kind = ''launchError'' then ''turn could not start (launchError): '' @ detail
      else if kind = [] then ''turn failed (terminal '' @ apostrophe terminal @ ''): '' @ detail
      else ''turn failed (terminal '' @ apostrophe terminal @ '', kind '' @ apostrophe kind @ ''): '' @ detail)"

definition friendly_terminal_error :: "(string \<Rightarrow> string) \<Rightarrow> clock \<Rightarrow> string \<Rightarrow> J \<Rightarrow> string" where
  "friendly_terminal_error lower C terminal params =
     (let kind = str_at2 params ''error'' ''kind''; msg = str_at2 params ''error'' ''message'';
          reason = str_or params ''reason'' []; detail = (if msg \<noteq> [] then msg else reason) in
      terminal_head terminal kind detail @
      (if reason \<noteq> [] \<and> reason \<noteq> detail then '' (reason: '' @ reason @ '')'' else []) @
      (if at2 params ''error'' ''retryable'' = Some (JBool True)
       then ''. The host marks this retryable: retry the same prompt''
       else if at2 params ''error'' ''retryable'' = Some (JBool False) then ''. The host marks this non-retryable'' else []) @
      (if kind = ''mcpLinkError''
       then ''. An MCP server failed to link for this turn: check the server'' @ [CHR 0x27] @ ''s configuration and credentials, then retry''
       else []) @
      (case at2 params ''error'' ''quota'' of
         Some quota \<Rightarrow> if quota = JNull then [] else ''. '' @ quota_reset_phrase quota C
       | None \<Rightarrow> []) @
      (if at2 params ''error'' ''requestDenied'' = Some (JBool True) then ''. The provider refused this request'' else []) @
      (if is_network_error lower (kind @ '' '' @ msg @ '' '' @ reason)
       then ''. This looks like a network/offline failure (e.g. `git fetch` failing while offline): check your network connection, then retry; any tool results above are preserved''
       else []))"

definition friendly_turn_error :: "(string \<Rightarrow> string) \<Rightarrow> string \<Rightarrow> string \<Rightarrow> string" where
  "friendly_turn_error lower head host_message =
     (if list_ex (contains (lower host_message))
         [''approval replay'', ''unrecorded human'', ''decision stage'', ''pending approval'', ''approval still pending'']
      then head @ '': the host rejected the follow-up because a tool approval was left unresolved (host: '' @ host_message @
        ''). Answer the outstanding permission request '' @ utf8_encode 0x2014 @
        '' or cancel the turn/session '' @ utf8_encode 0x2014 @ '' then retry as a new prompt''
      else head @ '': '' @ host_message)"

text \<open>The host's name, version and the configured executable, which a login diagnostic names.\<close>

record login_facts =
  lf_server :: string
  lf_version :: string
  lf_cli :: string

definition auth_diagnostic :: "login_facts \<Rightarrow> string \<Rightarrow> string option" where
  "auth_diagnostic F msg =
     map_option (\<lambda>failure. failure @ ''. Run `muse login` using the configured Muse executable ('' @ lf_cli F @
       '') on the machine and OS account running muse-acp, then restart the editor agent and retry. Host: '' @
       (if lf_version F = [] then ''unreported (initialize did not complete)'' else lf_server F @ ''/'' @ lf_version F) @
       ''. For browserless/remote login options, run `muse login --help` in that environment.'')
       (auth_failure msg)"

definition turn_auth_diagnostic :: "login_facts \<Rightarrow> string \<Rightarrow> string \<Rightarrow> string option" where
  "turn_auth_diagnostic F msg kind =
     (if kind = ''authRequired'' then auth_diagnostic F ''authentication required''
      else if kind \<noteq> ''modelError'' \<and> \<not> contains (to_ascii_lowercase msg) ''muse'' then None
      else auth_diagnostic F msg)"

section \<open>The drive of a session\<close>

datatype drive_status = Granted | Busy "string option" | Refused

definition is_client_name :: "string \<Rightarrow> bool" where
  "is_client_name name \<longleftrightarrow> name \<noteq> [] \<and> length name \<le> 64 \<and>
     list_all (\<lambda>c. (97 \<le> ord c \<and> ord c \<le> 122) \<or> (48 \<le> ord c \<and> ord c \<le> 57) \<or> c = CHR ''_'') name"

definition drive_holder_name :: "J \<Rightarrow> string option" where
  "drive_holder_name frame =
     (case Option.bind (at2 frame ''driveHolder'' ''name'') as_str of
        Some name \<Rightarrow> if is_client_name name \<and> auth_failure name = None then Some name else None
      | None \<Rightarrow> None)"

definition drive_answer :: "J \<Rightarrow> drive_status" where
  "drive_answer r =
     (case str_at r ''status'' of
        Some st \<Rightarrow> if st = ''granted'' then Granted else if st = ''busy'' then Busy (drive_holder_name r) else Refused
      | None \<Rightarrow> Refused)"

text \<open>Replaces the first entry with the key, or appends one.\<close>

fun set_member :: "string \<Rightarrow> J \<Rightarrow> (string \<times> J) list \<Rightarrow> (string \<times> J) list" where
  "set_member key v [] = [(key, v)]"
| "set_member key v ((k, x) # ms) = (if k = key then (k, v) # ms else (k, x) # set_member key v ms)"

definition drive_kept_error :: "J \<Rightarrow> string option \<Rightarrow> J" where
  "drive_kept_error error holder =
     (let who = (case holder of None \<Rightarrow> ''another Muse client'' | Some name \<Rightarrow> ''Muse client `'' @ name @ ''`'');
          msg = JStr (host_error_text error @ '': '' @ who @ '' is driving this session and did not hand it over; try again later'') in
      case error of JObj ms \<Rightarrow> JObj (set_member ''message'' msg ms) | _ \<Rightarrow> error)"

section \<open>Answers to local commands\<close>

definition lines_text :: "string list \<Rightarrow> string" where
  "lines_text ls = join [CHR 0x0A] ls"

definition cua_state_text :: "J \<Rightarrow> string \<Rightarrow> string" where
  "cua_state_text state label =
     (let field = (\<lambda>key. str_or state key ''unknown'') in
      lines_text ([label @ '': '' @ field ''setup'' @ '' (screen recording '' @ field ''screenRecording'' @ '', accessibility '' @
          field ''accessibility'' @ '', input monitoring '' @ field ''inputMonitoring'' @ '')''] @
        (case non_empty_str state ''message'' of Some m \<Rightarrow> [m] | None \<Rightarrow> []) @
        (case non_empty_str state ''refused'' of Some r \<Rightarrow> [''Refused: '' @ r] | None \<Rightarrow> [])))"

definition safe_text :: "string \<Rightarrow> string" where
  "safe_text t = join '' '' (split_whitespace (of_chars (map (\<lambda>c. if is_control c then 0x20 else c) (chars t))))"

definition app_label :: "J \<Rightarrow> string \<Rightarrow> string" where
  "app_label app i =
     (case map_option safe_text (str_at app ''name'') of
        Some name \<Rightarrow> if name \<noteq> [] \<and> name \<noteq> i then name @ '' ['' @ i @ '']'' else i
      | None \<Rightarrow> i)"

definition app_row :: "J \<Rightarrow> string option" where
  "app_row app =
     map_option (\<lambda>raw.
       let i = safe_text raw;
           details = (case non_empty_str app ''lastAskedAt'' of Some l \<Rightarrow> [''last asked '' @ safe_text l] | None \<Rightarrow> []) @
             (if jget app ''locked'' = Some (JBool True)
              then [(case non_empty_str app ''lockedBy'' of Some l \<Rightarrow> ''locked by '' @ safe_text l | None \<Rightarrow> ''locked'')] else []) in
       ''- '' @ app_label app i @ '': '' @ safe_text (str_or app ''choice'' ''unknown'') @
       (if details = [] then [] else '' ('' @ join ''; '' details @ '')''))
       (str_at app ''bundleId'')"

definition installed_row :: "J \<Rightarrow> string option" where
  "installed_row app = map_option (\<lambda>raw. ''- '' @ app_label app (safe_text raw)) (str_at app ''bundleId'')"

definition blocked_name :: "J \<Rightarrow> string option" where
  "blocked_name app =
     map_option (\<lambda>raw. if jget app ''locked'' = Some (JBool True) then safe_text raw @ '' (built-in)'' else safe_text raw)
       (str_at app ''bundleId'')"

definition cua_settings_text :: "J \<Rightarrow> string" where
  "cua_settings_text settings =
     (let field = (\<lambda>key. str_or settings key ''unknown'');
          rows = (\<lambda>f key. List.map_filter f (items_at settings key));
          apps = rows app_row ''apps''; installed = rows installed_row ''installedApps''; blocked = rows blocked_name ''blockedApps'' in
      lines_text ([''Computer use settings: computer control '' @ field ''computerControl'' @ '', screenshots '' @ field ''screenshots''] @
        (if apps = [] then [] else ''Apps:'' # apps) @
        (if installed = [] then [] else ''Installed apps:'' # installed) @
        (if blocked = [] then [] else [''Blocked apps: '' @ join '', '' blocked])))"

definition quarantined_entry :: "J \<Rightarrow> string option" where
  "quarantined_entry item =
     map_option (\<lambda>i.
       let reasons = join '', '' (List.map_filter as_str (items_at item ''reasons'')) in
       if reasons = [] then i else i @ '' ('' @ reasons @ '')'')
       (str_at item ''id'')"

definition skill_import_text :: "J \<Rightarrow> string" where
  "skill_import_text r =
     (let count = (\<lambda>key. show_nat (unwrap_or (Option.bind (at2 r ''counts'' key) as_u64) 0));
          ids = (\<lambda>key. List.map_filter as_str (items_at r key));
          quarantined = List.map_filter quarantined_entry (items_at r ''quarantined'');
          failed = map (\<lambda>item. str_or item ''id'' ''(unnamed)'' @ '' ('' @ str_or item ''reason'' ''unknown'' @ '')'') (items_at r ''failed'') in
      lines_text ([(if jget r ''dryRun'' = Some (JBool True) then ''Skill import dry run'' else ''Skill import'') @ '' from '' @
          str_or r ''source'' ''foreign'' @ '': '' @ count ''installed'' @ '' installed, '' @ count ''quarantined'' @ '' quarantined, '' @
          count ''skipped'' @ '' skipped, '' @ count ''failed'' @ '' failed.''] @
        concat (map (\<lambda>key. if ids key = [] then [] else [key @ '': '' @ join '', '' (ids key)]) [''installed'', ''skipped'']) @
        (if quarantined = [] then [] else [''quarantined: '' @ join ''; '' quarantined]) @
        (if failed = [] then [] else [''failed: '' @ join ''; '' failed])))"

definition feedback_not_sent :: "J \<Rightarrow> string \<Rightarrow> string" where
  "feedback_not_sent r name =
     ''Feedback was not sent ('' @ name @ (case str_at r ''cause'' of Some cause \<Rightarrow> '': '' @ cause | None \<Rightarrow> []) @ '').''"

definition feedback_outcome_text :: "J \<Rightarrow> string" where
  "feedback_outcome_text r =
     (let outcome = str_or r ''outcome'' ''unknown'' in
      if outcome = ''uploaded'' then ''Feedback sent (id '' @ str_or r ''uploadId'' ''unknown'' @ '').''
      else if outcome = ''recorded'' then ''Feedback recorded.''
      else if outcome = ''rateLimited'' then
        (case u64_at r ''retryAfterMs'' of
           Some ms \<Rightarrow> ''Feedback was not sent: rate limited, try again in '' @ show_nat (div_ceil ms 1000) @ '' seconds.''
         | None \<Rightarrow> ''Feedback was not sent: rate limited, try again later.'')
      else if outcome \<in> {''acceptedWithoutReceipt'', ''trackingFailed'', ''trackingUncertain''} then
        ''Feedback was sent, but Muse could not confirm the receipt ('' @ outcome @ '').''
      else feedback_not_sent r outcome)"

definition feedback_result_text :: "J \<Rightarrow> string" where
  "feedback_result_text r =
     lines_text ([feedback_outcome_text r] @
       (case non_empty_str r ''bundlePath'' of Some path \<Rightarrow> [''A local copy is at '' @ path @ ''.''] | None \<Rightarrow> []) @
       (case non_empty_str r ''sessionNote'' of Some n \<Rightarrow> [n] | None \<Rightarrow> []) @
       (case non_empty_str r ''localTracingNote'' of Some n \<Rightarrow> [n] | None \<Rightarrow> []))"

text \<open>The classification and the note of a feedback argument.\<close>

definition feedback_class :: "string \<Rightarrow> string option" where
  "feedback_class word =
     (let w = to_ascii_lowercase word in
      if w = ''bug'' then Some ''bug''
      else if w \<in> {''bad'', ''badresult''} then Some ''badResult''
      else if w \<in> {''good'', ''goodresult''} then Some ''goodResult''
      else if w = ''other'' then Some ''other''
      else None)"

definition parse_feedback_argument :: "string \<Rightarrow> (string \<times> string) option" where
  "parse_feedback_argument argument =
     map_option (\<lambda>c. (c, trim (after_word (trim argument)))) (feedback_class (first_word (trim argument)))"

end
