(* ===== verification/Hosts.thy ===== *)
theory Hosts
  imports Host
begin

text \<open>
  The Muse hosts the adapter runs (\<^verbatim>\<open>src/hosts.rs\<close>): the current process of each kind with its generation,
  the launches, and the owner table that decides which process receives a command. Whether a launch
  succeeds is an argument: \<open>A n\<close> is the failure of the \<open>n\<close>-th launch of the adapter's life, if it fails.
\<close>

section \<open>Kinds\<close>

datatype host_kind = MainHost | ReadOnlyHost | ReviewerHost

definition READ_ONLY_FLAGS :: host_flags where
  "READ_ONLY_FLAGS = \<lparr>no_session_log = False, disable_write = True, disable_shell = True\<rparr>"

definition REVIEWER_FLAGS :: host_flags where
  "REVIEWER_FLAGS = \<lparr>no_session_log = True, disable_write = True, disable_shell = True\<rparr>"

definition REVIEWER_ARGS :: "string list" where
  "REVIEWER_ARGS = [''-c'', ''reasoning_effort='' @ quoted ''low'']"

fun host_name :: "host_kind \<Rightarrow> string" where
  "host_name MainHost = ''main''"
| "host_name ReadOnlyHost = ''read-only''"
| "host_name ReviewerHost = ''reviewer''"

fun kind_flags :: "host_kind \<Rightarrow> host_flags" where
  "kind_flags MainHost = \<lparr>no_session_log = False, disable_write = False, disable_shell = False\<rparr>"
| "kind_flags ReadOnlyHost = READ_ONLY_FLAGS"
| "kind_flags ReviewerHost = REVIEWER_FLAGS"

fun kind_args :: "host_kind \<Rightarrow> string list" where
  "kind_args ReviewerHost = REVIEWER_ARGS"
| "kind_args _ = []"

record host_tag =
  tag_kind :: host_kind
  tag_generation :: nat

text \<open>A launch: what was started, with which flags and arguments, and the generation it got.\<close>

record launch_rec =
  la_kind :: host_kind
  la_flags :: host_flags
  la_args :: "string list"
  la_generation :: "nat option"

record launch_failure =
  lf_exit :: "exit_kind option"
  lf_text :: string

record hosts =
  h_main :: nat
  h_read_only :: "nat option"
  h_reviewer :: "nat option"
  h_owners :: "host_kind hmap"
  h_launched :: nat
  h_log :: "launch_rec list"

text \<open>The counter of generations is a 64-bit atomic.\<close>

definition generation_of :: "nat \<Rightarrow> nat" where
  "generation_of n = n mod 2 ^ 64"

section \<open>Launching\<close>

definition launch_process :: "(nat \<Rightarrow> launch_failure option) \<Rightarrow> host_kind \<Rightarrow> string list \<Rightarrow> hosts \<Rightarrow>
    (launch_failure + nat) \<times> hosts" where
  "launch_process A kind args h =
     (let entry = (\<lambda>g. \<lparr>la_kind = kind, la_flags = kind_flags kind, la_args = args, la_generation = g\<rparr>) in
      case A (length (h_log h)) of
        Some e \<Rightarrow> (Inl e, h\<lparr>h_log := h_log h @ [entry None]\<rparr>)
      | None \<Rightarrow>
          (let g = generation_of (h_launched h) in
           (Inr g, h\<lparr>h_launched := h_launched h + 1, h_log := h_log h @ [entry (Some g)]\<rparr>)))"

definition launch_kind :: "(nat \<Rightarrow> launch_failure option) \<Rightarrow> host_kind \<Rightarrow> hosts \<Rightarrow> (launch_failure + nat) \<times> hosts" where
  "launch_kind A kind h = launch_process A kind (kind_args kind) h"

fun replace :: "host_kind \<Rightarrow> nat \<Rightarrow> hosts \<Rightarrow> hosts" where
  "replace MainHost g h = h\<lparr>h_main := g\<rparr>"
| "replace ReadOnlyHost g h = h\<lparr>h_read_only := Some g\<rparr>"
| "replace ReviewerHost g h = h\<lparr>h_reviewer := Some g\<rparr>"

definition clear_read_only :: "hosts \<Rightarrow> hosts" where
  "clear_read_only h = h\<lparr>h_read_only := None\<rparr>"

definition clear_reviewer :: "hosts \<Rightarrow> hosts" where
  "clear_reviewer h = h\<lparr>h_reviewer := None\<rparr>"

fun host_of :: "host_kind \<Rightarrow> hosts \<Rightarrow> nat option" where
  "host_of MainHost h = Some (h_main h)"
| "host_of ReadOnlyHost h = h_read_only h"
| "host_of ReviewerHost h = h_reviewer h"

definition args_rejected :: "launch_failure \<Rightarrow> bool" where
  "args_rejected e \<longleftrightarrow> lf_exit e = Some UsageError"

definition read_only_host :: "(nat \<Rightarrow> launch_failure option) \<Rightarrow> hosts \<Rightarrow> (string + nat) \<times> hosts" where
  "read_only_host A h =
     (case h_read_only h of
        Some g \<Rightarrow> (Inr g, h)
      | None \<Rightarrow>
          (case launch_kind A ReadOnlyHost h of
             (Inl e, h') \<Rightarrow> (Inl (''could not start the read-only Muse host: '' @ lf_text e), h')
           | (Inr g, h') \<Rightarrow> (Inr g, replace ReadOnlyHost g h')))"

definition reviewer_host :: "(nat \<Rightarrow> launch_failure option) \<Rightarrow> hosts \<Rightarrow> (string + nat) \<times> hosts" where
  "reviewer_host A h =
     (case h_reviewer h of
        Some g \<Rightarrow> (Inr g, h)
      | None \<Rightarrow>
          (case (case launch_kind A ReviewerHost h of
                   (Inl e, h') \<Rightarrow> if args_rejected e then launch_process A ReviewerHost [] h' else (Inl e, h')
                 | r \<Rightarrow> r) of
             (Inl e, h') \<Rightarrow> (Inl (''could not start the reviewer Muse host: '' @ lf_text e), h')
           | (Inr g, h') \<Rightarrow> (Inr g, replace ReviewerHost g h')))"

definition launch_hosts :: "(nat \<Rightarrow> launch_failure option) \<Rightarrow> launch_failure + hosts" where
  "launch_hosts A =
     (case launch_process A MainHost (kind_args MainHost)
             \<lparr>h_main = 0, h_read_only = None, h_reviewer = None, h_owners = [], h_launched = 0, h_log = []\<rparr> of
        (Inl e, h) \<Rightarrow> Inl e
      | (Inr g, h) \<Rightarrow> Inr (h\<lparr>h_main := g\<rparr>))"

definition is_current :: "host_tag \<Rightarrow> hosts \<Rightarrow> bool" where
  "is_current tag h \<longleftrightarrow> host_of (tag_kind tag) h = Some (tag_generation tag)"

section \<open>Owners\<close>

definition note_owner :: "string \<Rightarrow> host_kind \<Rightarrow> hosts \<Rightarrow> hosts" where
  "note_owner sid kind h = (if sid = [] then h else h\<lparr>h_owners := hput sid kind (h_owners h)\<rparr>)"

definition learn_owner :: "string \<Rightarrow> host_kind \<Rightarrow> hosts \<Rightarrow> hosts" where
  "learn_owner sid kind h =
     (if sid = [] then h
      else case hget (h_owners h) sid of
             Some k \<Rightarrow> h | None \<Rightarrow> h\<lparr>h_owners := hput sid kind (h_owners h)\<rparr>)"

definition known_owner :: "string \<Rightarrow> hosts \<Rightarrow> host_kind option" where
  "known_owner sid h = hget (h_owners h) sid"

definition forget_owner :: "string \<Rightarrow> hosts \<Rightarrow> hosts" where
  "forget_owner sid h = h\<lparr>h_owners := hdel sid (h_owners h)\<rparr>"

definition owner_of :: "string \<Rightarrow> hosts \<Rightarrow> host_kind" where
  "owner_of sid h = unwrap_or (known_owner sid h) MainHost"

definition learn_event_owner :: "host_tag \<Rightarrow> J \<Rightarrow> hosts \<Rightarrow> hosts" where
  "learn_event_owner tag params h =
     (let h1 = (case str_at params ''sessionId'' of Some sid \<Rightarrow> learn_owner sid (tag_kind tag) h | None \<Rightarrow> h) in
      case Option.bind (jget params ''item'') (\<lambda>item. str_at item ''childSessionId'') of
        Some child \<Rightarrow> note_owner child (tag_kind tag) h1 | None \<Rightarrow> h1)"

text \<open>The kind of host the session named by the parameters belongs to.\<close>

definition params_owner :: "string \<Rightarrow> hosts \<Rightarrow> host_kind" where
  "params_owner params_json h =
     (case parse_json params_json of
        Inl e \<Rightarrow> MainHost
      | Inr params \<Rightarrow> (case str_at params ''sessionId'' of Some sid \<Rightarrow> owner_of sid h | None \<Rightarrow> MainHost))"

text \<open>The process a command goes to, with its kind, or the message of the error it fails with.\<close>

definition route :: "(nat \<Rightarrow> launch_failure option) \<Rightarrow> string \<Rightarrow> hosts \<Rightarrow> (string + host_kind \<times> nat) \<times> hosts" where
  "route A params_json h =
     (if \<not> list_ex (\<lambda>(sid, k). k = ReadOnlyHost \<or> k = ReviewerHost) (h_owners h) then (Inr (MainHost, h_main h), h)
      else
        (case params_owner params_json h of
           MainHost \<Rightarrow> (Inr (MainHost, h_main h), h)
         | ReadOnlyHost \<Rightarrow>
             (case read_only_host A h of (Inl e, h') \<Rightarrow> (Inl e, h') | (Inr g, h') \<Rightarrow> (Inr (ReadOnlyHost, g), h'))
         | ReviewerHost \<Rightarrow>
             (case reviewer_host A h of (Inl e, h') \<Rightarrow> (Inl e, h') | (Inr g, h') \<Rightarrow> (Inr (ReviewerHost, g), h'))))"

definition all_hosts :: "hosts \<Rightarrow> nat list" where
  "all_hosts h = h_main h # List.map_filter id [h_read_only h, h_reviewer h]"

section \<open>Any sequence of operations\<close>

datatype hosts_op =
    GetReadOnly | GetReviewer | Swap host_kind | ClearReadOnly | ClearReviewer
  | NoteOwner string host_kind | LearnOwner string host_kind | ForgetOwner string | Send string

text \<open>\<open>Swap\<close> launches a process of a kind and makes it current, as the callers of \<^verbatim>\<open>replace\<close> do.\<close>

fun hosts_do :: "(nat \<Rightarrow> launch_failure option) \<Rightarrow> hosts_op \<Rightarrow> hosts \<Rightarrow> hosts" where
  "hosts_do A GetReadOnly h = snd (read_only_host A h)"
| "hosts_do A GetReviewer h = snd (reviewer_host A h)"
| "hosts_do A (Swap k) h = (case launch_kind A k h of (Inl e, h') \<Rightarrow> h' | (Inr g, h') \<Rightarrow> replace k g h')"
| "hosts_do A ClearReadOnly h = clear_read_only h"
| "hosts_do A ClearReviewer h = clear_reviewer h"
| "hosts_do A (NoteOwner sid k) h = note_owner sid k h"
| "hosts_do A (LearnOwner sid k) h = learn_owner sid k h"
| "hosts_do A (ForgetOwner sid) h = forget_owner sid h"
| "hosts_do A (Send params) h = snd (route A params h)"

definition hosts_run :: "(nat \<Rightarrow> launch_failure option) \<Rightarrow> hosts_op list \<Rightarrow> hosts \<Rightarrow> hosts" where
  "hosts_run A ops h = foldl (\<lambda>h a. hosts_do A a h) h ops"

text \<open>The relation every operation keeps: processes are only ever added to the log, the log records each
  current process with the flags of its kind, and a process that becomes current is a new one.\<close>

definition logged :: "hosts \<Rightarrow> host_kind \<Rightarrow> nat \<Rightarrow> bool" where
  "logged h k g \<longleftrightarrow> list_ex (\<lambda>r. la_kind r = k \<and> la_generation r = Some g \<and> la_flags r = kind_flags k) (h_log h)"

definition hosts_inv :: "hosts \<Rightarrow> bool" where
  "hosts_inv h \<longleftrightarrow> (\<forall>k g. host_of k h = Some g \<longrightarrow> logged h k g)"

definition hosts_grow :: "hosts \<Rightarrow> hosts \<Rightarrow> bool" where
  "hosts_grow h h' \<longleftrightarrow>
     h_launched h \<le> h_launched h' \<and> prefix (h_log h) (h_log h') \<and>
     (h_launched h' \<le> 2 ^ 64 \<longrightarrow> (\<forall>k g. host_of k h' = Some g \<longrightarrow> host_of k h = Some g \<or> h_launched h \<le> g))"

lemma grow_refl: "hosts_grow h h"
  by (simp add: hosts_grow_def)

lemma grow_trans: "hosts_grow h1 h2 \<Longrightarrow> hosts_grow h2 h3 \<Longrightarrow> hosts_grow h1 h3"
  unfolding hosts_grow_def by (meson order.trans prefix_order.order_trans)

lemma logged_mono: "logged h k g \<Longrightarrow> prefix (h_log h) (h_log h') \<Longrightarrow> logged h' k g"
  by (auto simp: logged_def prefix_def list_ex_iff)

lemma host_of_frame: "h_main h' = h_main h \<Longrightarrow> h_read_only h' = h_read_only h \<Longrightarrow> h_reviewer h' = h_reviewer h \<Longrightarrow> host_of k h' = host_of k h"
  by (cases k) auto

lemma host_of_replace: "host_of k (replace k' g h) = (if k = k' then Some g else host_of k h)"
  by (cases k; cases k') auto

lemma replace_frame [simp]: "h_log (replace k g h) = h_log h" "h_launched (replace k g h) = h_launched h"
  by (cases k; simp)+

text \<open>A launch on its own changes no current process; with the replacement it brings a new one.\<close>

lemma launch_ok:
  assumes "launch_process A k args h = (Inr g, h')"
  shows "g = generation_of (h_launched h)" "h_launched h' = h_launched h + 1" "logged h' k g"
    "prefix (h_log h) (h_log h')" "host_of k' h' = host_of k' h"
  using assms unfolding launch_process_def
  by (auto simp: Let_def logged_def split: option.splits intro!: host_of_frame)

lemma launch_failed:
  assumes "launch_process A k args h = (Inl e, h')"
  shows "h_launched h' = h_launched h" "prefix (h_log h) (h_log h')" "host_of k' h' = host_of k' h"
  using assms unfolding launch_process_def by (auto simp: Let_def split: option.splits intro!: host_of_frame)

definition hosts_step :: "hosts \<Rightarrow> hosts \<Rightarrow> bool" where
  "hosts_step h h' \<longleftrightarrow> hosts_grow h h' \<and> (hosts_inv h \<longrightarrow> hosts_inv h')"

lemma step_trans: "hosts_step h1 h2 \<Longrightarrow> hosts_step h2 h3 \<Longrightarrow> hosts_step h1 h3"
  unfolding hosts_step_def using grow_trans by blast

lemma step_frame:
  assumes "h_launched h' = h_launched h" "prefix (h_log h) (h_log h')"
    "\<And>k. host_of k h' = host_of k h \<or> host_of k h' = None"
  shows "hosts_step h h'"
  using assms unfolding hosts_step_def hosts_grow_def hosts_inv_def by (metis logged_mono option.distinct(1) order.refl)

lemma step_failed: "launch_process A k args h = (Inl e, h') \<Longrightarrow> hosts_step h h'"
  by (rule step_frame) (auto dest: launch_failed)

lemma step_launched:
  assumes "launch_process A k args h = (Inr g, h')"
  shows "hosts_step h (replace k g h')"
proof -
  note l = launch_ok [OF assms]
  have "h_launched h \<le> g" if "h_launched h' \<le> 2 ^ 64"
    using that l(1,2) by (simp add: generation_of_def)
  then have "hosts_grow h (replace k g h')"
    using l by (auto simp: hosts_grow_def host_of_replace split: if_splits)
  moreover have "hosts_inv h \<longrightarrow> hosts_inv (replace k g h')"
    using l logged_mono [of h _ _ h'] by (auto simp: hosts_inv_def host_of_replace logged_def split: if_splits)
  ultimately show ?thesis by (simp add: hosts_step_def)
qed

lemma step_read_only: "hosts_step h (snd (read_only_host A h))"
proof (cases "h_read_only h")
  case None
  then show ?thesis using step_failed step_launched [of A ReadOnlyHost] unfolding read_only_host_def launch_kind_def
    by (auto split: prod.split sum.split)
qed (simp add: read_only_host_def hosts_step_def grow_refl)

lemma step_reviewer: "hosts_step h (snd (reviewer_host A h))"
proof (cases "h_reviewer h")
  case None
  have two: "hosts_step h h2" if "launch_process A ReviewerHost a h = (Inl e, h1)" "launch_process A ReviewerHost b h1 = (Inl e2, h2)" for a b e e2 h1 h2
    using that step_trans step_failed by blast
  have "hosts_step h (replace ReviewerHost g h2)"
    if "launch_process A ReviewerHost a h = (Inl e, h1)" "launch_process A ReviewerHost b h1 = (Inr g, h2)" for a b e g h1 h2
    using that step_trans step_failed step_launched by blast
  with None two show ?thesis using step_failed step_launched [of A ReviewerHost] unfolding reviewer_host_def launch_kind_def
    by (auto split: prod.split sum.split)
qed (simp add: reviewer_host_def hosts_step_def grow_refl)

lemma step_owners: "hosts_step h (h\<lparr>h_owners := x\<rparr>)"
  by (rule step_frame) (auto intro: host_of_frame)

lemma step_route: "hosts_step h (snd (route A params h))"
  using step_read_only [of h A] step_reviewer [of h A]
  by (auto simp: route_def hosts_step_def [of h h] grow_refl split: host_kind.split prod.splits sum.splits)

lemma step_do: "hosts_step h (hosts_do A a h)"
proof (cases a)
  case (Swap k)
  then show ?thesis using step_failed step_launched by (auto simp: launch_kind_def split: prod.split sum.split)
next
  case ClearReadOnly
  show ?thesis unfolding ClearReadOnly hosts_do.simps
    by (rule step_frame; (simp add: clear_read_only_def)?) (case_tac k; simp add: clear_read_only_def)
next
  case ClearReviewer
  show ?thesis unfolding ClearReviewer hosts_do.simps
    by (rule step_frame; (simp add: clear_reviewer_def)?) (case_tac k; simp add: clear_reviewer_def)
qed (simp_all add: step_read_only step_reviewer step_route note_owner_def learn_owner_def forget_owner_def step_owners
      hosts_step_def [of h h] grow_refl split: option.split)

lemma step_run: "hosts_step h (hosts_run A ops h)"
  by (induction ops arbitrary: h) (auto simp: hosts_run_def hosts_step_def [of h h for h] grow_refl intro: step_trans [OF step_do])

lemma launched_inv: "launch_hosts A = Inr h \<Longrightarrow> hosts_inv h"
proof -
  assume "launch_hosts A = Inr h"
  then obtain g h1 where l: "launch_process A MainHost (kind_args MainHost)
        \<lparr>h_main = 0, h_read_only = None, h_reviewer = None, h_owners = [], h_launched = 0, h_log = []\<rparr> = (Inr g, h1)"
      "h = h1\<lparr>h_main := g\<rparr>"
    by (auto simp: launch_hosts_def split: prod.splits sum.splits)
  have "h_read_only h1 = None" "h_reviewer h1 = None"
    using launch_ok(5) [OF l(1), of ReadOnlyHost] launch_ok(5) [OF l(1), of ReviewerHost] by simp_all
  then have "host_of k h = (if k = MainHost then Some g else None)" for k using l(2) by (cases k) auto
  then show ?thesis using launch_ok(3) [OF l(1)] l(2) by (auto simp: hosts_inv_def logged_def split: if_splits)
qed

text \<open>a process that has been replaced stays replaced. Once a tag of a launched process is not current,
  no sequence of operations makes it current again, as long as fewer than \<open>2^64\<close> processes are launched;
  so its late events are dropped.\<close>

theorem replaced_host_stays_stale:
  assumes "launch_hosts A = Inr h0" "h = hosts_run A before h0" "\<not> is_current tag h"
    "tag_generation tag < h_launched h" "h_launched (hosts_run A later h) \<le> 2 ^ 64"
  shows "\<not> is_current tag (hosts_run A later h)"
  using step_run [of h A later] assms(3-5) unfolding hosts_step_def hosts_grow_def is_current_def by fastforce

text \<open>A main host that is replaced once.\<close>

definition demo_hosts :: hosts where
  "demo_hosts = (case launch_hosts (\<lambda>_. None) of Inr h \<Rightarrow> h)"

lemma demo_launched: "launch_hosts (\<lambda>_. None) = Inr demo_hosts"
  by (simp add: demo_hosts_def launch_hosts_def launch_process_def Let_def)

theorem replaced_host_stays_stale_witness:
  "\<not> is_current \<lparr>tag_kind = MainHost, tag_generation = 0\<rparr>
     (hosts_run (\<lambda>_. None) [GetReviewer] (hosts_run (\<lambda>_. None) [Swap MainHost] demo_hosts))"
  by (rule replaced_host_stays_stale [OF demo_launched refl])
     (simp_all add: demo_hosts_def launch_hosts_def launch_process_def launch_kind_def hosts_run_def reviewer_host_def
        is_current_def generation_of_def Let_def)

text \<open>C10: a command goes to the process of the kind that owns its session, and that process was launched
  with the flags of the kind: in any state the adapter reaches, a command for a session of the read-only
  or the reviewer host never reaches a process that may write or run a shell.\<close>

theorem commands_reach_their_owner:
  assumes "launch_hosts A = Inr h0" "h = hosts_run A ops h0"
    "route A params h = (Inr (k, g), h')"
  shows "k = params_owner params h \<and> host_of k h' = Some g \<and> logged h' k g \<and>
    (k = MainHost \<or> disable_write (kind_flags k) \<and> disable_shell (kind_flags k))"
proof -
  have inv: "hosts_inv h'"
    using launched_inv [OF assms(1)] step_run [of h0 A ops] step_route [of h A params] assms(2,3) by (simp add: hosts_step_def)
  have own: "params_owner params h = MainHost" if "\<not> list_ex (\<lambda>(sid, k). k = ReadOnlyHost \<or> k = ReviewerHost) (h_owners h)"
  proof -
    have "owner_of sid h = MainHost" for sid
    proof (cases "known_owner sid h")
      case (Some k)
      then have "(sid, k) \<in> set (h_owners h)" by (simp add: known_owner_def map_of_SomeD)
      with that have "k \<noteq> ReadOnlyHost \<and> k \<noteq> ReviewerHost" by (auto simp: list_ex_iff)
      then have "k = MainHost" by (cases k) auto
      with Some show ?thesis by (simp add: owner_of_def)
    qed (simp add: owner_of_def)
    then show ?thesis by (simp add: params_owner_def split: sum.split option.split)
  qed
  have ro: "h_read_only h' = Some g" if "read_only_host A h = (Inr g, h')"
    using that by (auto simp: read_only_host_def split: option.splits prod.splits sum.splits)
  have rv: "h_reviewer h' = Some g" if "reviewer_host A h = (Inr g, h')"
    using that by (auto simp: reviewer_host_def split: option.splits prod.splits sum.splits)
  have "k = params_owner params h" "host_of k h' = Some g"
    using assms(3) own ro rv by (auto simp: route_def split: if_splits host_kind.splits prod.splits sum.splits)
  with inv show ?thesis by (cases k) (auto simp: hosts_inv_def READ_ONLY_FLAGS_def REVIEWER_FLAGS_def)
qed

theorem commands_reach_their_owner_witness:
  "\<exists>g h'. route (\<lambda>_. None) (j_to_string (JObj [(''sessionId'', JStr ''s'')]))
      (hosts_run (\<lambda>_. None) [NoteOwner ''s'' ReadOnlyHost] demo_hosts) = (Inr (ReadOnlyHost, g), h') \<and> logged h' ReadOnlyHost g"
proof -
  let ?p = "j_to_string (JObj [(''sessionId'', JStr ''s'')])" and ?h = "hosts_run (\<lambda>_. None) [NoteOwner ''s'' ReadOnlyHost] demo_hosts"
  have "parse_json ?p = Inr (JObj [(''sessionId'', JStr ''s'')])"
    by (rule parse_json_j_to_string) (simp_all add: utf8_ascii MAX_DEPTH_def)
  then have "params_owner ?p ?h = ReadOnlyHost"
    by (simp add: params_owner_def owner_of_def known_owner_def hosts_run_def note_owner_def str_at_def)
  then obtain g h' where r: "route (\<lambda>_. None) ?p ?h = (Inr (ReadOnlyHost, g), h')"
    by (simp add: route_def hosts_run_def note_owner_def demo_hosts_def launch_hosts_def launch_process_def launch_kind_def
        read_only_host_def Let_def)
  from commands_reach_their_owner [OF demo_launched refl r] r show ?thesis by blast
qed

end
