(* ===== verification/Forms.thy ===== *)
theory Forms
  imports Prompt_Parts Approval_Card
begin

text \<open>
  Forms the adapter shows in the editor, and the questions of a host as forms (\<^verbatim>\<open>Form\<close> and \<^verbatim>\<open>Field\<close> of
  \<^verbatim>\<open>src/out.rs\<close>, the answer types of \<^verbatim>\<open>src/request.rs\<close>, \<^verbatim>\<open>UiQuestion\<close> of \<^verbatim>\<open>src/acp.rs\<close> and the functions between
  \<^verbatim>\<open>bridge_user_input\<close> and \<^verbatim>\<open>ui_answer_json\<close> of \<^verbatim>\<open>src/main.rs\<close>). The lemmas show that every label the user is
  shown stands for exactly one of the host's.
\<close>

section \<open>Answers of the editor\<close>

datatype permission_answer = Selected string | Cancelled | OtherOutcome string
datatype field_value = FText string | FInteger int | FFlag bool | FList "string list" | FOther
datatype form_answer = Accept "field_value hmap" | Decline | CancelForm | OtherAction
datatype client_answer = ClientError | PermissionAnswer permission_answer | FormAnswer form_answer

definition form_text :: "field_value hmap \<Rightarrow> string \<Rightarrow> string option" where
  "form_text fs key = (case hget fs key of Some (FText t) \<Rightarrow> Some t | _ \<Rightarrow> None)"

definition form_flag :: "field_value hmap \<Rightarrow> string \<Rightarrow> bool" where
  "form_flag fs key \<longleftrightarrow> hget fs key = Some (FFlag True)"

definition accepted_form :: "client_answer \<Rightarrow> field_value hmap option" where
  "accepted_form a = (case a of FormAnswer (Accept fs) \<Rightarrow> Some fs | _ \<Rightarrow> None)"

section \<open>Forms\<close>

record form_choice =
  ch_value :: string
  ch_title :: string
  ch_description :: "string option"
  ch_meta :: "meta_t option"

datatype field_kind =
    TextField "nat option" "string option"
  | EnumField "string list" "string option"
  | OneOf "form_choice list"
  | AnyOf "form_choice list" "nat option" "nat option"
  | FlagField "bool option"

record form_field =
  fd_key :: string
  fd_title :: "string option"
  fd_description :: "string option"
  fd_required :: bool
  fd_kind :: field_kind

type_synonym form = "form_field list"

definition form_field_of :: "string \<Rightarrow> field_kind \<Rightarrow> string \<Rightarrow> bool \<Rightarrow> form_field" where
  "form_field_of key kind title required =
     \<lparr>fd_key = key, fd_title = Some title, fd_description = None, fd_required = required, fd_kind = kind\<rparr>"

definition described :: "string \<Rightarrow> form_field \<Rightarrow> form_field" where
  "described d f = f\<lparr>fd_description := Some d\<rparr>"

definition feedback_form :: "string option \<Rightarrow> string \<Rightarrow> form" where
  "feedback_form classification body =
     [form_field_of ''classification'' (EnumField [''bug'', ''badResult'', ''goodResult'', ''other''] classification) ''Classification'' True,
      form_field_of ''note'' (TextField None (if body = [] then None else Some body)) ''Note'' True,
      described ''Selected-session diagnostics, redacted''
        (form_field_of ''withFiles'' (FlagField (Some False)) ''Include local tracing'' False),
      described (''This whole conversation'' @ [CHR 0x27] @ ''s replayable trajectory, redacted. Only for Bug or Bad result, and only with local tracing.'')
        (form_field_of ''attachSessionRecord'' (FlagField (Some False)) ''Attach the session record'' False)]"

section \<open>Questions\<close>

record ui_question =
  uq_id :: string
  uq_labels :: "string list"
  uq_display :: "string list"
  uq_descriptions :: "string option list"
  uq_previews :: "string option list"
  uq_title :: string
  uq_message :: string
  uq_multiple :: bool
  uq_min :: nat
  uq_max :: "nat option"
  uq_explain :: string

definition UI_EXPLAIN_VALUE :: string where
  "UI_EXPLAIN_VALUE = ''_explain''"

text \<open>A loop that tries one name after the other until one is free. The names differ from each other, so one
  of the first \<open>length taken + 1\<close> is free.\<close>

definition first_free :: "string list \<Rightarrow> (nat \<Rightarrow> string) \<Rightarrow> string" where
  "first_free taken name =
     (case List.find (\<lambda>k. name k \<notin> set taken) [0..<Suc (length taken)] of Some k \<Rightarrow> name k | None \<Rightarrow> name 0)"

definition display_name :: "string \<Rightarrow> nat \<Rightarrow> string" where
  "display_name l k = (if k = 0 then l else l @ '' ('' @ show_nat (k + 1) @ '')'')"

definition explain_name :: "nat \<Rightarrow> string" where
  "explain_name k = UI_EXPLAIN_VALUE @ replicate k (CHR ''_'')"

text \<open>The labels, the labels as shown, the descriptions and the previews of the options.\<close>

record ui_options =
  uo_labels :: "string list"
  uo_display :: "string list"
  uo_descriptions :: "string option list"
  uo_previews :: "string option list"

definition no_options :: ui_options where
  "no_options = \<lparr>uo_labels = [], uo_display = [], uo_descriptions = [], uo_previews = []\<rparr>"

definition add_option :: "J \<Rightarrow> ui_options \<Rightarrow> ui_options" where
  "add_option x os =
     (case str_at x ''label'' of
        None \<Rightarrow> os
      | Some l \<Rightarrow>
          \<lparr>uo_labels = uo_labels os @ [l], uo_display = uo_display os @ [first_free (uo_display os) (display_name l)],
           uo_descriptions = uo_descriptions os @ [non_empty_str x ''description''],
           uo_previews = uo_previews os @ [(case jget x ''preview'' of Some (JObj ms) \<Rightarrow> Some (j_to_string (JObj ms)) | _ \<Rightarrow> None)]\<rparr>)"

definition options_of :: "J \<Rightarrow> ui_options" where
  "options_of q = fold add_option (items_at q ''options'') no_options"

definition ui_question_of :: "J \<Rightarrow> ui_question option" where
  "ui_question_of q =
     (let qid = str_or q ''id'' []; header = str_or q ''header'' []; body = str_or q ''question'' [];
          os = options_of q; selection = unwrap_or (jget q ''selection'') JNull in
      if qid = [] then None
      else Some \<lparr>uq_id = qid, uq_labels = uo_labels os, uq_display = uo_display os, uq_descriptions = uo_descriptions os,
        uq_previews = uo_previews os, uq_title = (if header = [] then body else header),
        uq_message = (if body = [] then header else body), uq_multiple = (str_or selection ''mode'' ''single'' \<noteq> ''single''),
        uq_min = unwrap_or (u64_at selection ''minSelections'') 1, uq_max = u64_at selection ''maxSelections'',
        uq_explain = first_free (uo_display os) explain_name\<rparr>)"

text \<open>The host's label behind a label shown.\<close>

definition ui_original :: "ui_question \<Rightarrow> string \<Rightarrow> string option" where
  "ui_original q shown = map_option snd (List.find (\<lambda>(d, l). d = shown) (zip (uq_display q) (uq_labels q)))"

definition ui_titled_choice :: "serde_t \<Rightarrow> string \<Rightarrow> string \<Rightarrow> string option \<Rightarrow> string option \<Rightarrow> form_choice" where
  "ui_titled_choice serde val title description preview =
     \<lparr>ch_value = val, ch_title = title, ch_description = description,
      ch_meta = Option.bind preview (\<lambda>p. muse_meta serde (member ''preview'' p))\<rparr>"

definition ui_question_required :: "ui_question \<Rightarrow> bool" where
  "ui_question_required q \<longleftrightarrow> \<not> uq_multiple q \<or> 0 < uq_min q"

definition field_key :: "nat \<Rightarrow> string" where
  "field_key i = ''q'' @ show_nat i"

definition explain_choice :: "serde_t \<Rightarrow> ui_question \<Rightarrow> form_choice" where
  "explain_choice serde q = ui_titled_choice serde (uq_explain q) ''Explain instead''
     (Some ''Explain what you meant instead of choosing an answer.'') None"

definition option_choices :: "serde_t \<Rightarrow> ui_question \<Rightarrow> form_choice list" where
  "option_choices serde q =
     map (\<lambda>i. ui_titled_choice serde (uq_display q ! i) (uq_display q ! i)
            (if i < length (uq_descriptions q) then uq_descriptions q ! i else None)
            (if i < length (uq_previews q) then uq_previews q ! i else None))
       [0..<length (uq_display q)]"

definition ui_question_fields :: "serde_t \<Rightarrow> nat \<Rightarrow> ui_question \<Rightarrow> form_field list" where
  "ui_question_fields serde i q =
     (if uq_labels q = [] then [form_field_of (field_key i) (TextField None None) (uq_title q) (ui_question_required q)]
      else
        (let choices = option_choices serde q @ [explain_choice serde q] in
         [form_field_of (field_key i)
            (if uq_multiple q then AnyOf choices (Some (min (uq_min q) 1)) (map_option (max 1) (uq_max q)) else OneOf choices)
            (uq_title q) (ui_question_required q),
          described ''Required only when you choose Explain instead.''
            (form_field_of ''clarification'' (TextField (Some 500) None) ''Clarification'' False)]))"

definition ui_answer_form :: "serde_t \<Rightarrow> nat \<Rightarrow> ui_question \<Rightarrow> form" where
  "ui_answer_form serde i q = ui_question_fields serde i q"

definition ui_answer_message :: "nat \<Rightarrow> ui_question list \<Rightarrow> string" where
  "ui_answer_message i qs =
     (let msg = (if i < length qs then uq_message (qs ! i) else []) in
      if length qs = 1 then msg
      else ''Question '' @ show_nat (i + 1) @ '' of '' @ show_nat (length qs) @ '':'' @ [CHR 0x0A] @ msg)"

definition ui_explain_selected :: "ui_question \<Rightarrow> nat \<Rightarrow> field_value hmap \<Rightarrow> string + bool" where
  "ui_explain_selected q i fs =
     (case (uq_multiple q, hget fs (field_key i)) of
        (False, Some (FText v)) \<Rightarrow> Inr (v = uq_explain q)
      | (True, Some (FList vs)) \<Rightarrow>
          (let n = length (filter (\<lambda>v. v = uq_explain q) vs) in
           if n = 0 then Inr False
           else if n = 1 \<and> length vs = 1 then Inr True
           else Inl ''Choose Explain instead by itself, or select an answer.'')
      | _ \<Rightarrow> Inr False)"

definition plural_answer :: "nat \<Rightarrow> string" where
  "plural_answer n = show_nat n @ '' answer'' @ (if n = 1 then [] else ''s'') @ '' to continue.''"

definition ui_multiple_answer_error :: "ui_question \<Rightarrow> nat \<Rightarrow> field_value hmap \<Rightarrow> string option" where
  "ui_multiple_answer_error q i fs =
     (if \<not> uq_multiple q then None
      else case hget fs (field_key i) of
             Some (FList vs) \<Rightarrow>
               if length vs < uq_min q then Some (''Select at least '' @ plural_answer (uq_min q))
               else (case uq_max q of
                       Some m \<Rightarrow> if m < length vs then Some (''Select no more than '' @ plural_answer m) else None
                     | None \<Rightarrow> None)
           | _ \<Rightarrow> None)"

definition bracketed :: "string list \<Rightarrow> string" where
  "bracketed xs = ''['' @ comma_join xs @ '']''"

definition ui_answer_json :: "ui_question \<Rightarrow> nat \<Rightarrow> field_value hmap \<Rightarrow> string option" where
  "ui_answer_json q i fs =
     (case hget fs (field_key i) of
        Some (FText v) \<Rightarrow>
          Some (object_of [(''questionId'', esc (uq_id q)),
            (case ui_original q v of Some l \<Rightarrow> (''selectedLabel'', esc l) | None \<Rightarrow> (''freeText'', esc v))])
      | Some (FList vs) \<Rightarrow>
          (let matched = List.map_filter (ui_original q) vs; free = filter (\<lambda>v. ui_original q v = None) vs in
           Some (object_of ([(''questionId'', esc (uq_id q))] @
             (if matched = [] then [] else [(''selectedLabels'', bracketed (map esc matched))]) @
             (if free = [] then [] else [(''freeText'', esc (join '', '' free))]) @
             (if matched = [] \<and> free = [] then [(''selectedLabels'', ''[]'')] else []))))
      | _ \<Rightarrow> None)"

section \<open>What is shown stands for what was asked\<close>

lemma first_free:
  assumes "inj name"
  shows "first_free taken name \<notin> set taken"
proof -
  have "\<exists>k \<in> set [0..<Suc (length taken)]. name k \<notin> set taken"
  proof (rule ccontr)
    assume "\<not> ?thesis"
    then have sub: "name ` {0..<Suc (length taken)} \<subseteq> set taken" by (auto simp del: upt_Suc)
    have "card (name ` {0..<Suc (length taken)}) = Suc (length taken)"
      using assms by (simp add: card_image inj_on_subset)
    moreover have "card (name ` {0..<Suc (length taken)}) \<le> length taken"
      using card_mono [OF finite_set sub] card_length [of taken] by linarith
    ultimately show False by linarith
  qed
  then obtain k where k: "List.find (\<lambda>k. name k \<notin> set taken) [0..<Suc (length taken)] = Some k"
    by (cases "List.find (\<lambda>k. name k \<notin> set taken) [0..<Suc (length taken)]") (auto simp: find_None_iff)
  then have "name k \<notin> set taken" by (auto simp: find_Some_iff)
  then show ?thesis unfolding first_free_def k by simp
qed

lemma inj_display_name: "inj (display_name l)"
  by (rule injI) (auto simp: display_name_def split: if_splits)

lemma inj_explain_name: "inj explain_name"
  by (rule injI) (auto simp: explain_name_def dest: arg_cong [of _ _ length])

definition options_ok :: "ui_options \<Rightarrow> bool" where
  "options_ok os \<longleftrightarrow> distinct (uo_display os) \<and> length (uo_display os) = length (uo_labels os) \<and>
     length (uo_descriptions os) = length (uo_labels os) \<and> length (uo_previews os) = length (uo_labels os)"

lemma add_option_ok: "options_ok os \<Longrightarrow> options_ok (add_option x os)"
  by (auto simp: options_ok_def add_option_def first_free [OF inj_display_name] split: option.split)

lemma options_of_ok: "options_ok (options_of q)"
proof -
  have "options_ok os \<Longrightarrow> options_ok (fold add_option xs os)" for xs os
    by (induction xs arbitrary: os) (simp_all add: add_option_ok)
  then show ?thesis by (simp add: options_of_def options_ok_def no_options_def)
qed

lemma find_zip:
  assumes "distinct xs" "i < length xs" "i < length ys"
  shows "List.find (\<lambda>(d, l). d = xs ! i) (zip xs ys) = Some (xs ! i, ys ! i)"
  using assms
proof (induction xs arbitrary: ys i)
  case (Cons x xs)
  then obtain y ys' where "ys = y # ys'" by (cases ys) auto
  with Cons show ?case by (cases i) auto
qed simp

lemma question_labels:
  assumes "ui_question_of j = Some q"
  shows "distinct (uq_display q)" "length (uq_display q) = length (uq_labels q)" "uq_explain q \<notin> set (uq_display q)"
    "\<And>i. i < length (uq_labels q) \<Longrightarrow> ui_original q (uq_display q ! i) = Some (uq_labels q ! i)"
proof -
  have q: "uq_display q = uo_display (options_of j)" "uq_labels q = uo_labels (options_of j)"
    "uq_explain q = first_free (uo_display (options_of j)) explain_name"
    using assms unfolding ui_question_of_def Let_def by (auto split: if_splits)
  show "distinct (uq_display q)" "length (uq_display q) = length (uq_labels q)" "uq_explain q \<notin> set (uq_display q)"
    using options_of_ok [of j] by (simp_all add: q options_ok_def first_free [OF inj_explain_name])
  then show "ui_original q (uq_display q ! i) = Some (uq_labels q ! i)" if "i < length (uq_labels q)" for i
    using that by (simp add: ui_original_def find_zip)
qed

end
