(* ===== verification/World.thy ===== *)
theory World
  imports Reviewer Hosts Approval_Card Forms File_Report Turn_Usage Turn_Texts Fold_Session
begin

text \<open>
  The state of the adapter's event loop (\<^verbatim>\<open>src/main.rs\<close>): its sessions, the review engine, the host processes and
  the log of everything that left the adapter, in order. Every operation of the loop is a function from
  a world to a world. The surroundings are what the loop asks and cannot know: what hosts answer, which
  processes start, the clock, the file system.
\<close>

section \<open>State\<close>

record pending_guidance =
  pg_req :: "nat option"
  pg_choice :: string

record pending_perm =
  pp_req :: "nat option"
  pp_sid :: string
  pp_id :: string
  pp_requirement :: J
  pp_choices :: "perm_choice list"
  pp_owner :: string
  pp_child :: "string option"
  pp_feedback :: "pending_guidance option"
  pp_tool_call :: string
  pp_title :: string

record reviewing =
  rw_sid :: string
  rw_id :: string
  rw_turn :: "string option"
  rw_title :: string
  rw_kind :: string
  rw_raw :: "string option"

text \<open>A prompt whose turn the host runs or has queued (\<^verbatim>\<open>InFlight\<close>), a held \<^verbatim>\<open>/recap\<close>, an open \<^verbatim>\<open>/feedback\<close> form and
  an open question of the host.\<close>

record flight =
  if_turn :: string
  if_req :: "nat option"
  if_queued :: bool
  if_report :: "file_report option"
  if_declined :: bool

record pending_recap =
  rc_req :: "nat option"
  rc_retry :: string
  rc_ver :: nat

record feedback_prompt =
  ff_req :: "nat option"
  ff_prompt :: "nat option"
  ff_content :: echo
  ff_ver :: nat

record pending_ui =
  ui_req :: "nat option"
  ui_id :: string
  ui_owner :: string
  ui_turn :: string
  ui_questions :: "ui_question list"
  ui_tool_call :: string
  ui_index :: nat
  ui_confirmed :: "string list"

text \<open>The fields of \<^verbatim>\<open>AcpSession\<close> that approvals, turns, prompts and questions read or write.\<close>

record acp_session =
  ses_msp_sid :: string
  ses_ver :: nat
  ses_cwd :: string
  ses_roots :: "string list"
  ses_roots_pending :: bool
  ses_flights :: "flight list"
  ses_active_turn :: "string option"
  ses_pending :: "pending_perm option"
  ses_reviewing :: "reviewing list"
  ses_seen :: "(string \<times> string \<times> string) list"
  ses_resolved :: "(string \<times> string) list"
  ses_unread :: bool
  ses_queue :: "J list"
  ses_questions :: "pending_ui list"
  ses_ui_seen :: hset
  ses_form :: "feedback_prompt option"
  ses_recap :: "pending_recap option"
  ses_mode :: string
  ses_auto_review :: bool
  ses_context :: "string list"
  ses_evidence :: "string list"
  ses_session_mode :: string
  ses_effort :: string
  ses_effort_source :: "string option"
  ses_usage :: "turn_usage list"
  ses_usage_seen :: hset
  ses_view_cursor :: string
  ses_view_seen :: hset
  ses_twins :: hset
  ses_skills :: "string option hmap option"
  ses_fold :: fold_t
  ses_child_folds :: "fold_t hmap"

text \<open>The turn ids of the prompts in flight, and whether the session works on anything.\<close>

definition ses_in_flight :: "acp_session \<Rightarrow> string list" where
  "ses_in_flight s = map if_turn (ses_flights s)"

definition ses_busy :: "acp_session \<Rightarrow> bool" where
  "ses_busy s \<longleftrightarrow> ses_active_turn s \<noteq> None \<or> ses_flights s \<noteq> []"

record review_job =
  rj_acp :: string
  rj_owner :: string
  rj_sid :: string
  rj_ver :: nat
  rj_id :: string
  rj_req :: J
  rj_choices :: "perm_choice list"
  rj_child :: "string option"
  rj_prompt :: string

record review_state =
  rs_session :: "string option"
  rs_host_sessions :: "string list"
  rs_active :: "review_job option"
  rs_queue :: "review_job list"
  rs_text :: string
  rs_text_item :: string
  rs_other :: hset
  rs_retries :: nat
  rs_turn :: string
  rs_deadline :: "nat option"
  rs_timeout :: nat

record permission_decision =
  d_msp :: string
  d_ver :: nat
  d_id :: string
  d_req :: J
  d_choice :: string
  d_feedback :: "string option"
  d_notice :: "string option"

text \<open>The answer to a request of the editor: how a prompt ended (ACP v1), the id of the inserted message (ACP
  v2), an error with its data, the result of an extension method, or the plain result of closing.\<close>

datatype response =
    Stopped string "prompt_usage option"
  | AcceptedAs string
  | Failed int string "string option"
  | ExtResult string
  | ClosedSession

text \<open>What leaves the adapter. A command names the process it goes to. \<open>Decide\<close> is the command
  \<^verbatim>\<open>approval/decide\<close> of a session's approval, with the approval's own session id beside the decision.
  \<open>FoldLine\<close> is a notification of the fold as \<^verbatim>\<open>send_fold_line\<close> gets it, \<open>Notify\<close> one sent as it is. A state has
  its stop reason. \<open>ReadChild\<close> is the start of a thread that reads the transcript of a child session.\<close>

datatype effect =
    Command host_kind nat string string
  | Decide string string permission_decision
  | AskPermission nat string nat string card "permission_option list"
  | AskGuidance nat string nat
  | AskForm nat string string string form
  | Withdraw nat
  | Respond nat response
  | SayText string nat string
  | SendState string string "string option"
  | ShowReviewing string "reviewing list"
  | Retitle string card
  | FoldLine string notif
  | ReadChild string nat string string
  | Notify notif
  | StopReviewer nat

record world =
  w_sessions :: "acp_session hmap"
  w_review :: review_state
  w_hosts :: hosts
  w_calls :: nat
  w_asks :: nat
  w_messages :: nat
  w_report_ids :: hset
  w_now :: nat
  w_out :: "effect list"

text \<open>What the main host granted at its handshake.\<close>

record grants =
  gr_feedback :: bool
  gr_rename :: bool
  gr_roots :: bool
  gr_cua :: bool
  gr_cua_host :: bool
  gr_leave :: bool

text \<open>The surroundings: the answer to the \<open>n\<close>-th command, the pages a history walk that starts there reads,
  launches, command ids, whether the \<open>n\<close>-th request to the editor can be written, the parsed command
  prefixes (none when the variable is unset or not a list of lists of strings), the debug format of a
  list of strings, whether the client shows forms, notices, computer use and file reports, and the
  negotiated version. \<open>p_files\<close> has the file system as a prompt reads it, \<open>p_mint\<close> the ids minted while
  a prompt uploads, \<open>p_message\<close> the message ids, \<open>p_clock\<close> the wall clock, \<open>p_login\<close> what a login
  diagnostic names, \<open>p_editor_card\<close> the content an editor tool recorded for a completed item,
  \<open>p_mode_switch\<close> the outcome of switching a session to plan mode, and \<open>p_negotiated\<close> what a fresh fold is
  configured with.\<close>

record surroundings =
  p_env :: env
  p_debug :: "string list \<Rightarrow> string"
  p_prefixes :: "string list list option"
  p_answer :: "nat \<Rightarrow> J + J"
  p_pages :: "nat \<Rightarrow> (J + J) list"
  p_launch :: "nat \<Rightarrow> launch_failure option"
  p_cmd :: "nat \<Rightarrow> string"
  p_writable :: "nat \<Rightarrow> bool"
  p_form :: bool
  p_vars :: "string hmap"
  p_version :: nat
  p_notices :: bool
  p_cua :: bool
  p_reports :: bool
  p_grants :: grants
  p_files :: prompt_env
  p_mint :: "nat \<Rightarrow> string \<Rightarrow> nat \<Rightarrow> string"
  p_message :: "nat \<Rightarrow> string"
  p_clock :: "nat \<Rightarrow> clock"
  p_login :: login_facts
  p_editor_card :: "nat \<Rightarrow> J \<Rightarrow> card_content option"
  p_mode_switch :: "nat \<Rightarrow> string option"
  p_negotiated :: negotiated

datatype review_deny = ByAssessment | ReviewerFailed | PlainDeny

text \<open>The calls the functions end with.\<close>

datatype task =
    DoOpen J
  | DoPop string
  | DoDecide string string permission_decision
  | DoStart
  | DoDeny review_job review_deny string
  | DoReset
  | DoResume string

type_synonym done_work = "world \<times> task list"

section \<open>Small steps of the world\<close>

definition out_effect :: "effect \<Rightarrow> world \<Rightarrow> world" where
  "out_effect e w = w\<lparr>w_out := w_out w @ [e]\<rparr>"

definition upd_review :: "(review_state \<Rightarrow> review_state) \<Rightarrow> world \<Rightarrow> world" where
  "upd_review f w = w\<lparr>w_review := f (w_review w)\<rparr>"

definition upd_session :: "string \<Rightarrow> (acp_session \<Rightarrow> acp_session) \<Rightarrow> world \<Rightarrow> world" where
  "upd_session sid f w =
     (case hget (w_sessions w) sid of
        None \<Rightarrow> w | Some s \<Rightarrow> w\<lparr>w_sessions := hput sid (f s) (w_sessions w)\<rparr>)"

definition json_object :: "(string \<times> string) list \<Rightarrow> string" where
  "json_object ms = ''{'' @ comma_join (map (\<lambda>(k, v). member k v) ms) @ ''}''"

definition mk_err :: "string \<Rightarrow> string \<Rightarrow> J" where
  "mk_err code msg = JObj [(''code'', JNum code), (''message'', JStr msg)]"

definition err_message :: "J \<Rightarrow> string" where
  "err_message e = unwrap_or (str_at e ''message'') ''unknown error''"

text \<open>A command on one process, and a command routed by its session id.\<close>

definition process_command :: "surroundings \<Rightarrow> host_kind \<Rightarrow> nat \<Rightarrow> string \<Rightarrow> string \<Rightarrow> world \<Rightarrow> (J + J) \<times> world" where
  "process_command P k g meth params w =
     (p_answer P (w_calls w), out_effect (Command k g meth params) (w\<lparr>w_calls := w_calls w + 1\<rparr>))"

definition routed_command :: "surroundings \<Rightarrow> string \<Rightarrow> string \<Rightarrow> J + J \<Rightarrow> world \<Rightarrow> (J + J) \<times> world" where
  "routed_command P meth params ans w =
     (case route (p_launch P) params (w_hosts w) of
        (Inl e, h) \<Rightarrow> (Inl (mk_err ''-32603'' e), w\<lparr>w_hosts := h\<rparr>)
      | (Inr (k, g), h) \<Rightarrow>
          (ans, out_effect (Command k g meth params) (w\<lparr>w_hosts := h, w_calls := w_calls w + 1\<rparr>)))"

definition host_command :: "surroundings \<Rightarrow> string \<Rightarrow> string \<Rightarrow> world \<Rightarrow> (J + J) \<times> world" where
  "host_command P meth params w = routed_command P meth params (p_answer P (w_calls w)) w"

section \<open>Sessions\<close>

definition find_acp_sid :: "world \<Rightarrow> string \<Rightarrow> string option" where
  "find_acp_sid w msp_sid = map_option fst (List.find (\<lambda>(k, s). ses_msp_sid s = msp_sid) (w_sessions w))"

definition child_owner :: "string \<Rightarrow> string \<times> acp_session \<Rightarrow> (string \<times> string \<times> string option) option" where
  "child_owner msp_sid = (\<lambda>(acp_sid, s).
     if hget (ses_child_folds s) msp_sid \<noteq> None then
       Some (acp_sid, ses_msp_sid s, subagent_id_for_child (ses_fold s) msp_sid)
     else case subagent_id_for_child (ses_fold s) msp_sid of
       Some sub \<Rightarrow> Some (acp_sid, ses_msp_sid s, Some sub)
     | None \<Rightarrow>
         find_map (\<lambda>(parent_sid, f).
             map_option (\<lambda>sub. (acp_sid, parent_sid, Some sub)) (subagent_id_for_child f msp_sid))
           (ses_child_folds s))"

definition owner_for_msp_session :: "world \<Rightarrow> string \<Rightarrow> (string \<times> string \<times> string option) option" where
  "owner_for_msp_session w msp_sid =
     (case List.find (\<lambda>(k, s). ses_msp_sid s = msp_sid) (w_sessions w) of
        Some (acp_sid, s) \<Rightarrow> Some (acp_sid, ses_msp_sid s, None)
      | None \<Rightarrow> find_map (child_owner msp_sid) (w_sessions w))"

definition clear_approval_reviewing :: "string \<Rightarrow> string \<Rightarrow> string \<Rightarrow> world \<Rightarrow> world" where
  "clear_approval_reviewing acp_sid source_sid approval_id w =
     (case hget (w_sessions w) acp_sid of
        None \<Rightarrow> w
      | Some s \<Rightarrow>
          (let rows = filter (\<lambda>r. rw_sid r \<noteq> source_sid \<or> rw_id r \<noteq> approval_id) (ses_reviewing s);
               w1 = upd_session acp_sid (\<lambda>s. s\<lparr>ses_reviewing := rows\<rparr>) w in
           if length rows \<noteq> length (ses_reviewing s) then out_effect (ShowReviewing acp_sid rows) w1 else w1))"

definition clear_turn_approval_reviewing :: "string \<Rightarrow> string \<Rightarrow> world \<Rightarrow> world" where
  "clear_turn_approval_reviewing acp_sid turn_id w =
     (case hget (w_sessions w) acp_sid of
        None \<Rightarrow> w
      | Some s \<Rightarrow>
          (let rows = filter (\<lambda>r. rw_turn r \<noteq> Some turn_id) (ses_reviewing s);
               w1 = upd_session acp_sid (\<lambda>s. s\<lparr>ses_reviewing := rows\<rparr>) w in
           if length rows \<noteq> length (ses_reviewing s) then out_effect (ShowReviewing acp_sid rows) w1 else w1))"

text \<open>The request that is open for a permission: the form when one is shown, else the prompt.\<close>

definition open_request :: "pending_perm \<Rightarrow> nat option" where
  "open_request p = (case pp_feedback p of Some f \<Rightarrow> pg_req f | None \<Rightarrow> pp_req p)"

definition send_cancel_request :: "nat option \<Rightarrow> world \<Rightarrow> world" where
  "send_cancel_request r w = (case r of Some n \<Rightarrow> out_effect (Withdraw n) w | None \<Rightarrow> w)"

definition invalidate_pending_approval :: "string \<Rightarrow> (string \<times> string) option \<Rightarrow> bool \<Rightarrow> world \<Rightarrow> bool \<times> world" where
  "invalidate_pending_approval acp_sid approval feedback_only w =
     (case Option.bind (hget (w_sessions w) acp_sid) ses_pending of
        None \<Rightarrow> (False, w)
      | Some p \<Rightarrow>
          if (case approval of None \<Rightarrow> True | Some (sid, i) \<Rightarrow> pp_sid p = sid \<and> pp_id p = i) \<and>
             (feedback_only \<longrightarrow> pp_feedback p \<noteq> None)
          then (True, send_cancel_request (open_request p) (upd_session acp_sid (\<lambda>s. s\<lparr>ses_pending := None\<rparr>) w))
          else (False, w))"

end
