(* ===== verification/Approvals.thy ===== *)
theory Approvals
  imports World
begin

text \<open>
  The approval flow of \<^verbatim>\<open>src/main.rs\<close>: how an approval the host asks for is answered by the command-prefix
  policy, by the auto-review engine or by the editor, and how each ends in at most one decision.

  Everything here runs on the adapter's event loop, one event at a time, but the functions call each
  other in a circle: settling a permission shows the next queued approval, which may start a review,
  which may settle another permission. Each function is therefore a definition that does its own work
  and returns the calls it ends with as a list of tasks; \<open>run_tasks\<close> performs them in order. What a host
  answers, whether a process starts and whether a request to the editor can be written are arguments.
\<close>

section \<open>Resolved approvals of a reattached session\<close>

text \<open>The reader of a reattached session's history. The pages are those the host answers in order; a read
  past them counts as failed.\<close>

definition page_resolved :: "string \<Rightarrow> J list \<Rightarrow> (string \<times> string) list" where
  "page_resolved msp_sid rows =
     List.map_filter (\<lambda>event.
       if str_at event ''method'' \<noteq> Some ''approval/resolved'' then None
       else Option.bind (jget event ''params'') (\<lambda>params.
         map_option (\<lambda>i. (unwrap_or (non_empty_str params ''sessionId'') msp_sid, i)) (non_empty_str params ''approvalId''))) rows"

fun resolved_walk :: "surroundings \<Rightarrow> string \<Rightarrow> (J + J) list \<Rightarrow> string option \<Rightarrow> string list \<Rightarrow>
    (string \<times> string) list \<Rightarrow> world \<Rightarrow> (string \<times> string) list \<times> bool \<times> world" where
  "resolved_walk P msp_sid [] cursor requested resolved w = (resolved, False, w)"
| "resolved_walk P msp_sid (ans # more_pages) cursor requested resolved w =
     (case routed_command P ''view/page''
         (json_object ([(''sessionId'', esc msp_sid), (''direction'', quoted ''backward''), (''limit'', ''100'')] @
            (case cursor of Some c \<Rightarrow> [(''cursor'', esc c)] | None \<Rightarrow> []))) ans w of
        (Inl e, w') \<Rightarrow> (resolved, False, w')
      | (Inr page, w') \<Rightarrow>
          (case jget page ''events'' of
             Some (JArr rows) \<Rightarrow>
               (let found = resolved @ page_resolved msp_sid rows in
                case non_empty_str page ''nextCursor'' of
                  Some c \<Rightarrow>
                    if c \<in> set requested then (found, True, w')
                    else resolved_walk P msp_sid more_pages (Some c) (c # requested) found w'
                | None \<Rightarrow> (found, True, w'))
           | _ \<Rightarrow> (resolved, False, w')))"

definition learn_resolved_approvals :: "surroundings \<Rightarrow> string \<Rightarrow> world \<Rightarrow> world" where
  "learn_resolved_approvals P acp_sid w =
     (case hget (w_sessions w) acp_sid of
        None \<Rightarrow> w
      | Some s \<Rightarrow>
          if \<not> ses_unread s then w
          else
            (let w1 = upd_session acp_sid (\<lambda>s. s\<lparr>ses_unread := False\<rparr>) w in
             case resolved_walk P (ses_msp_sid s) (p_pages P (w_calls w)) None [] [] w1 of
               (found, reached_end, w2) \<Rightarrow>
                 upd_session acp_sid (\<lambda>s. s\<lparr>ses_resolved := ses_resolved s @ found,
                   ses_unread := (if reached_end then ses_unread s else True)\<rparr>) w2))"

section \<open>Failing closed\<close>

definition session_stop_targets :: "acp_session \<Rightarrow> (string \<times> string \<times> bool) list" where
  "session_stop_targets s =
     map (\<lambda>turn. (ses_msp_sid s, turn, True)) (ses_in_flight s) @
     (case ses_active_turn s of
        Some turn \<Rightarrow> if turn \<in> set (ses_in_flight s) then [] else [(ses_msp_sid s, turn, False)]
      | None \<Rightarrow> [])"

definition cancel_session_turns :: "surroundings \<Rightarrow> string \<Rightarrow> world \<Rightarrow> world" where
  "cancel_session_turns P acp_sid w =
     (case hget (w_sessions w) acp_sid of
        None \<Rightarrow> w
      | Some s \<Rightarrow>
          foldl (\<lambda>w (msp_sid, turn_id, owned).
              snd (host_command P ''turn/cancel''
                (json_object [(''commandId'', esc (p_cmd P (w_calls w))), (''sessionId'', esc msp_sid), (''turnId'', esc turn_id)]) w))
            w (session_stop_targets s))"

definition subagent_control_target :: "world \<Rightarrow> string \<Rightarrow> string \<Rightarrow> (string \<times> subagent_obs) option" where
  "subagent_control_target w session_id subagent_id =
     or_else
       (Option.bind (hget (w_sessions w) session_id) (\<lambda>s.
          if f_native_subagents (ses_fold s) then map_option (Pair (ses_msp_sid s)) (subagent (ses_fold s) subagent_id) else None))
       (find_map (\<lambda>(k, s).
          if f_native_subagents (ses_fold s) then
            Option.bind (hget (ses_child_folds s) session_id) (\<lambda>f. map_option (Pair session_id) (subagent f subagent_id))
          else None) (w_sessions w))"

definition subagent_control_allowed :: "string \<Rightarrow> subagent_obs \<Rightarrow> bool" where
  "subagent_control_allowed meth target =
     (let control = control_status target in
      if meth = ''subagent/reopen'' then item_status target \<noteq> ''inProgress'' \<and> control = ''closed''
      else if item_status target \<noteq> ''inProgress'' then False
      else if meth = ''subagent/sendMessage'' \<or> meth = ''subagent/interrupt'' then control = ''running''
      else if meth = ''subagent/stop'' then control \<in> {''accepted'', ''starting'', ''running''}
      else if meth = ''subagent/followupTask'' then control = ''resultReady''
      else if meth = ''subagent/resume'' then control = ''recoveryPending''
      else if meth = ''subagent/close'' then control \<in> {''accepted'', ''starting'', ''running'', ''resultReady''}
      else if meth = ''subagent/readResult'' then control = ''resultReady''
      else False)"

definition fail_closed_owner_work :: "surroundings \<Rightarrow> string \<Rightarrow> string \<Rightarrow> string option \<Rightarrow> world \<Rightarrow> world" where
  "fail_closed_owner_work P acp_sid owner_msp_sid child w =
     (case child of
        None \<Rightarrow> cancel_session_turns P acp_sid w
      | Some sub \<Rightarrow>
          (case subagent_control_target w owner_msp_sid sub of
             None \<Rightarrow> w
           | Some (msp_sid, ob) \<Rightarrow>
               if \<not> subagent_control_allowed ''subagent/stop'' ob then w
               else snd (host_command P ''subagent/stop''
                 (json_object [(''commandId'', esc (p_cmd P (w_calls w))), (''sessionId'', esc msp_sid), (''subagentId'', esc sub),
                    (''reason'', esc ''permission request could not be presented'')]) w)))"

section \<open>Decisions\<close>

text \<open>The members of the command \<^verbatim>\<open>approval/decide\<close>.\<close>

definition decide_params :: "string \<Rightarrow> permission_decision \<Rightarrow> string" where
  "decide_params cmd d =
     json_object ([(''commandId'', esc cmd), (''sessionId'', esc (d_msp d)), (''approvalId'', esc (d_id d)),
       (''requirementId'', j_to_string (d_req d)), (''choiceId'', esc (d_choice d))] @
       (case d_feedback d of Some t \<Rightarrow> [(''feedback'', esc t)] | None \<Rightarrow> []))"

definition report_approval_failure :: "string \<Rightarrow> nat \<Rightarrow> string \<Rightarrow> bool \<Rightarrow> world \<Rightarrow> world" where
  "report_approval_failure acp_sid ver approval_id included_feedback w =
     out_effect (SayText acp_sid ver
       (''Muse rejected the permission decision for '' @ approval_id @
        (if included_feedback then ''; the guidance was not delivered.'' else ''.''))) w"

definition say_notice :: "string \<Rightarrow> permission_decision \<Rightarrow> world \<Rightarrow> world" where
  "say_notice acp_sid d w = (case d_notice d of Some n \<Rightarrow> out_effect (SayText acp_sid (d_ver d) n) w | None \<Rightarrow> w)"

text \<open>The decision goes out as \<open>Decide\<close>, then as the routed command it stands for.\<close>

definition send_permission_decision :: "surroundings \<Rightarrow> string \<Rightarrow> string \<Rightarrow> permission_decision \<Rightarrow> world \<Rightarrow> done_work" where
  "send_permission_decision P acp_sid approval_sid d w =
     (case host_command P ''approval/decide'' (decide_params (p_cmd P (w_calls w)) d) (out_effect (Decide acp_sid approval_sid d) w) of
        (Inr r, w1) \<Rightarrow>
          (let terminal = unwrap_or (bool_at r ''terminal'') True;
               busy = (case hget (w_sessions w1) acp_sid of Some s \<Rightarrow> ses_in_flight s \<noteq> [] | None \<Rightarrow> False);
               w2 = (if d_ver d = 2 \<and> terminal \<and> busy then out_effect (SendState acp_sid ''running'' None) w1 else w1) in
           (say_notice acp_sid d w2, [DoPop acp_sid]))
      | (Inl e, w1) \<Rightarrow>
          (report_approval_failure acp_sid (d_ver d) (d_id d) (d_feedback d \<noteq> None) (say_notice acp_sid d w1), [DoPop acp_sid]))"

definition pop_queued_approval :: "string \<Rightarrow> world \<Rightarrow> done_work" where
  "pop_queued_approval acp_sid w =
     (case hget (w_sessions w) acp_sid of
        None \<Rightarrow> (w, [])
      | Some s \<Rightarrow>
          (case (ses_pending s, ses_queue s) of
             (None, params # more_params) \<Rightarrow>
               (upd_session acp_sid (\<lambda>s. s\<lparr>ses_queue := more_params\<rparr>) w, [DoOpen params])
           | _ \<Rightarrow> (w, [])))"

section \<open>The review engine\<close>

definition remember_lines :: "string list \<Rightarrow> string list" where
  "remember_lines buf = drop (length buf - 40) buf"

fun remember_bytes :: "string list \<Rightarrow> string list" where
  "remember_bytes [] = []"
| "remember_bytes (l # ls) = (if 16000 < sum_list (map length (l # ls)) then remember_bytes ls else l # ls)"

definition remember_review_line :: "string list \<Rightarrow> string \<Rightarrow> string list" where
  "remember_review_line buf line = remember_bytes (remember_lines (buf @ [line]))"

definition drop_queued_review :: "string \<Rightarrow> string \<Rightarrow> string \<Rightarrow> world \<Rightarrow> world" where
  "drop_queued_review acp_sid approval_sid approval_id w =
     upd_review (\<lambda>st. st\<lparr>rs_queue :=
       filter (\<lambda>job. rj_acp job \<noteq> acp_sid \<or> rj_id job \<noteq> approval_id \<or> rj_sid job \<noteq> approval_sid) (rs_queue st)\<rparr>) w"

definition review_job_resolved :: "world \<Rightarrow> review_job \<Rightarrow> bool" where
  "review_job_resolved w job \<longleftrightarrow>
     (case hget (w_sessions w) (rj_acp job) of
        Some s \<Rightarrow> (rj_sid job, rj_id job) \<in> set (ses_resolved s) | None \<Rightarrow> False)"

text \<open>The configured prefixes count only when each is a non-empty list of non-empty words.\<close>

definition command_prefixes :: "string list list option \<Rightarrow> string list list" where
  "command_prefixes raw =
     (case raw of
        Some ps \<Rightarrow> if list_all (\<lambda>p. p \<noteq> [] \<and> list_all (\<lambda>w. w \<noteq> []) p) ps then ps else []
      | None \<Rightarrow> [])"

definition text_is :: "J \<Rightarrow> string \<Rightarrow> string \<Rightarrow> bool" where
  "text_is j key t \<longleftrightarrow> map_option j_to_string (jget j key) = Some t"

text \<open>A single shell stage that is complete, unresolved and the approval's own requirement.\<close>

definition single_stage :: "J \<Rightarrow> J option" where
  "single_stage params =
     Option.bind (jget params ''subject'') (\<lambda>subject.
       if non_empty_str subject ''kind'' \<noteq> Some ''shell'' then None
       else case jget subject ''stages'' of
              Some (JArr [stage]) \<Rightarrow>
                Option.bind (jget params ''currentRequirementId'') (\<lambda>requirement.
                  if non_empty_str requirement ''approvalId'' = non_empty_str params ''approvalId'' \<and>
                     text_is requirement ''sourceIndex'' ''0'' \<and>
                     text_is stage ''requirementId'' (j_to_string requirement) \<and>
                     text_is stage ''position'' ''1'' \<and> text_is stage ''totalStages'' ''1'' \<and>
                     jget stage ''argvComplete'' = Some (JBool True) \<and>
                     Option.bind (jget stage ''resolution'') (\<lambda>r. non_empty_str r ''kind'') = Some ''unresolved''
                  then Some stage else None)
            | _ \<Rightarrow> None)"

definition stage_argv :: "J \<Rightarrow> string list option" where
  "stage_argv stage =
     (case jget stage ''argv'' of
        Some (JArr words) \<Rightarrow> those (map as_str words) | _ \<Rightarrow> None)"

definition offered_once :: "J \<Rightarrow> string \<Rightarrow> bool" where
  "offered_once params choice \<longleftrightarrow>
     list_ex (\<lambda>c. non_empty_str c ''choiceId'' = Some choice \<and> non_empty_str c ''scope'' = Some ''once'' \<and>
       non_empty_str c ''decision'' = Some ''approved'') (items_at params ''availableChoices'')"

definition command_prefix_choice :: "surroundings \<Rightarrow> J \<Rightarrow> string option" where
  "command_prefix_choice P params =
     (if command_prefixes (p_prefixes P) = [] \<or> non_empty_str params ''toolName'' \<noteq> Some ''bash'' then None
      else
        Option.bind (single_stage params) (\<lambda>stage.
        Option.bind (stage_argv stage) (\<lambda>argv.
          if \<not> list_ex (\<lambda>p. prefix p argv) (command_prefixes (p_prefixes P)) then None
          else
            Option.bind (approve_once_choice (e_lower (p_env P)) (snd (perm_options (e_lower (p_env P)) params))) (\<lambda>choice.
              if offered_once params choice then Some choice else None))))"

definition child_of :: "J \<Rightarrow> string option" where
  "child_of params = Option.bind (jget params ''subagentOrigin'') (\<lambda>j. str_at j ''subagentId'')"

definition requirement_of :: "J \<Rightarrow> J" where
  "requirement_of params = unwrap_or (jget params ''currentRequirementId'') JNull"

definition new_review_job :: "surroundings \<Rightarrow> string \<Rightarrow> string \<Rightarrow> string \<Rightarrow> string \<Rightarrow> acp_session \<Rightarrow> J \<Rightarrow> review_job" where
  "new_review_job P acp_sid owner_msp_sid approval_sid approval_id s params =
     \<lparr>rj_acp = acp_sid, rj_owner = owner_msp_sid, rj_sid = approval_sid, rj_ver = ses_ver s, rj_id = approval_id,
      rj_req = requirement_of params, rj_choices = snd (perm_options (e_lower (p_env P)) params), rj_child = child_of params,
      rj_prompt = build_prompt (p_debug P) (j_to_string params) (join [CHR 0x0A] (ses_context s)) (ses_evidence s)
        (ses_roots s) (ses_mode s)\<rparr>"

text \<open>\<open>None\<close> is the result false: the approval is not for the reviewer.\<close>

definition enqueue_review :: "surroundings \<Rightarrow> string \<Rightarrow> string \<Rightarrow> J \<Rightarrow> world \<Rightarrow> done_work option" where
  "enqueue_review P acp_sid owner_msp_sid params w =
     (case (str_at params ''approvalId'', hget (w_sessions w) acp_sid) of
        (Some approval_id, Some s) \<Rightarrow>
          (let choices = snd (perm_options (e_lower (p_env P)) params);
               approval_sid = unwrap_or (non_empty_str params ''sessionId'') [];
               key = (approval_sid, approval_id, j_to_string (requirement_of params)) in
           if \<not> ses_auto_review s \<or> choices = [] then None
           else if key \<in> set (ses_seen s) then Some (w, [])
           else
             Some (upd_review (\<lambda>st. st\<lparr>rs_queue := rs_queue st @ [new_review_job P acp_sid owner_msp_sid approval_sid approval_id s params]\<rparr>)
                     (upd_session acp_sid (\<lambda>s. s\<lparr>ses_seen := key # ses_seen s\<rparr>) w), [DoStart]))
      | _ \<Rightarrow> None)"

definition reset_reviewer_host :: "world \<Rightarrow> world" where
  "reset_reviewer_host w =
     (let w1 = (case h_reviewer (w_hosts w) of Some g \<Rightarrow> out_effect (StopReviewer g) w | None \<Rightarrow> w);
          retired = rs_host_sessions (w_review w) in
      upd_review (\<lambda>st. st\<lparr>rs_session := None, rs_host_sessions := []\<rparr>)
        (w1\<lparr>w_hosts := foldl (\<lambda>h sid. forget_owner sid h) (clear_reviewer (w_hosts w1)) retired\<rparr>))"

definition turn_start_params :: "string \<Rightarrow> string \<Rightarrow> string \<Rightarrow> string" where
  "turn_start_params cmd session prompt =
     json_object [(''commandId'', esc cmd), (''sessionId'', esc session),
       (''input'', ''['' @ json_object [(''type'', quoted ''text''), (''text'', esc prompt)] @ '']'')]"

definition start_review_turn :: "surroundings \<Rightarrow> review_job \<Rightarrow> nat \<Rightarrow> string \<Rightarrow> world \<Rightarrow> done_work" where
  "start_review_turn P job g session w =
     (case process_command P ReviewerHost g ''turn/start'' (turn_start_params (p_cmd P (w_calls w)) session (rj_prompt job)) w of
        (Inr r, w1) \<Rightarrow>
          (upd_review (\<lambda>st. st\<lparr>rs_active := Some job, rs_text := [], rs_text_item := [], rs_other := [], rs_retries := 0,
              rs_turn := unwrap_or (str_at r ''turnId'') [], rs_deadline := Some (w_now w1 + review_timeout (p_vars P)),
              rs_timeout := review_timeout (p_vars P)\<rparr>) w1, [])
      | (Inl e, w1) \<Rightarrow> (w1, [DoDeny job PlainDeny (''reviewer turn failed: '' @ err_message e), DoReset, DoStart]))"

definition start_review_session :: "surroundings \<Rightarrow> review_job \<Rightarrow> nat \<Rightarrow> string \<Rightarrow> world \<Rightarrow> done_work" where
  "start_review_session P job g cwd w =
     (case process_command P ReviewerHost g ''session/start''
         (json_object [(''commandId'', esc (p_cmd P (w_calls w))), (''workspaceRoot'', esc cwd), (''approvalMode'', quoted ''denyUnmatched'')]) w of
        (Inl e, w1) \<Rightarrow> (w1, [DoDeny job PlainDeny (''reviewer session failed: '' @ err_message e), DoStart])
      | (Inr r, w1) \<Rightarrow>
          (case Option.bind (jget r ''session'') (\<lambda>s. str_at s ''sessionId'') of
             None \<Rightarrow> (w1, [DoDeny job ReviewerFailed ''reviewer session started without an id'', DoStart])
           | Some sid \<Rightarrow>
               start_review_turn P job g sid
                 (upd_review (\<lambda>st. st\<lparr>rs_session := Some sid, rs_host_sessions := rs_host_sessions st @ [sid]\<rparr>)
                    (w1\<lparr>w_hosts := note_owner sid ReviewerHost (w_hosts w1)\<rparr>))))"

definition start_next_review :: "surroundings \<Rightarrow> world \<Rightarrow> done_work" where
  "start_next_review P w =
     (case (rs_active (w_review w), rs_queue (w_review w)) of
        (None, job # jobs) \<Rightarrow>
          (let cwd = (case hget (w_sessions w) (rj_acp job) of Some s \<Rightarrow> ses_cwd s | None \<Rightarrow> []);
               session = rs_session (w_review w);
               recycle = SESSIONS_PER_HOST \<le> length (rs_host_sessions (w_review w));
               w1 = upd_review (\<lambda>st. st\<lparr>rs_queue := jobs\<rparr>) w;
               w2 = (if recycle then reset_reviewer_host w1 else w1) in
           case reviewer_host (p_launch P) (w_hosts w2) of
             (Inl e, h) \<Rightarrow> (w2\<lparr>w_hosts := h\<rparr>, [DoDeny job ReviewerFailed e, DoStart])
           | (Inr g, h) \<Rightarrow>
               (case session of
                  Some sid \<Rightarrow> start_review_turn P job g sid (w2\<lparr>w_hosts := h\<rparr>)
                | None \<Rightarrow> start_review_session P job g cwd (w2\<lparr>w_hosts := h\<rparr>)))
      | _ \<Rightarrow> (w, []))"

definition finished_sentence :: "string \<Rightarrow> string" where
  "finished_sentence t =
     (if ends_with t ''.'' \<or> ends_with t ''!'' \<or> ends_with t ''?'' \<or> ends_with t (utf8_encode 0x2026) then t else t @ ''.'')"

definition short_duration :: "nat \<Rightarrow> string" where
  "short_duration ms = (if ms mod 1000 = 0 then show_nat (ms div 1000) @ ''s'' else show_nat ms @ ''ms'')"

fun deny_prefix :: "review_deny \<Rightarrow> string" where
  "deny_prefix ByAssessment = ''Permission denied by Auto-review''"
| "deny_prefix ReviewerFailed = ''Permission denied: reviewer failed''"
| "deny_prefix PlainDeny = ''Permission denied''"

definition deny_notice :: "review_deny \<Rightarrow> string \<Rightarrow> string" where
  "deny_notice kind rationale = finished_sentence (deny_prefix kind @ '': '' @ rationale)"

definition job_decision :: "review_job \<Rightarrow> string \<Rightarrow> string option \<Rightarrow> string option \<Rightarrow> permission_decision" where
  "job_decision job choice feedback msg =
     \<lparr>d_msp = rj_owner job, d_ver = rj_ver job, d_id = rj_id job, d_req = rj_req job, d_choice = choice,
      d_feedback = feedback, d_notice = msg\<rparr>"

definition deny_review_job :: "surroundings \<Rightarrow> review_job \<Rightarrow> review_deny \<Rightarrow> string \<Rightarrow> world \<Rightarrow> done_work" where
  "deny_review_job P job kind rationale w =
     (case deny_choice (rj_choices job) of
        None \<Rightarrow>
          (fail_closed_owner_work P (rj_acp job) (rj_owner job) (rj_child job)
             (out_effect (SayText (rj_acp job) (rj_ver job) (deny_notice kind rationale)) w), [])
      | Some choice \<Rightarrow>
          (let feedback = (case List.find (\<lambda>c. pc_id c = choice) (rj_choices job) of
                 Some c \<Rightarrow> if pc_feedback c then Some rationale else None | None \<Rightarrow> None) in
           (w, [DoDecide (rj_acp job) (rj_sid job) (job_decision job choice feedback (Some (deny_notice kind rationale)))])))"

definition unusable_rationale :: "string \<Rightarrow> string" where
  "unusable_rationale t =
     (if excerpt t = [] then unusable_reply_rationale t
      else unusable_reply_rationale t @ ''. The reviewer said: '' @ excerpt t)"

definition finish_review :: "surroundings \<Rightarrow> review_job \<Rightarrow> string \<Rightarrow> world \<Rightarrow> done_work" where
  "finish_review P job t w =
     (if review_job_resolved w job then (w, [DoStart])
      else
        (w,
         (case parse_assessment t of
            Some a \<Rightarrow>
              (case effective_outcome a of
                 Allow \<Rightarrow>
                   (case allow_choice (e_lower (p_env P)) (rj_choices job) of
                      Some choice \<Rightarrow> [DoDecide (rj_acp job) (rj_sid job) (job_decision job choice None None)]
                    | None \<Rightarrow> [DoDeny job PlainDeny ''auto-review allowed the action but the host offered no approving choice''])
               | Deny \<Rightarrow> [DoDeny job ByAssessment (as_rationale a)])
          | None \<Rightarrow> [DoDeny job ReviewerFailed (unusable_rationale t), DoReset]) @ [DoStart]))"

definition fail_review_turn :: "review_job \<Rightarrow> string \<Rightarrow> J \<Rightarrow> world \<Rightarrow> done_work" where
  "fail_review_turn job terminal params w =
     (w, (if review_job_resolved w job then [] else [DoDeny job PlainDeny (failed_turn_rationale terminal params)]) @
         [DoReset, DoStart])"

definition expire_review_deadline :: "world \<Rightarrow> done_work" where
  "expire_review_deadline w =
     (let st = w_review w in
      case (rs_deadline st, rs_active st) of
        (Some deadline, Some job) \<Rightarrow>
          if deadline \<le> w_now w then
            (upd_review (\<lambda>st. st\<lparr>rs_deadline := None, rs_active := None\<rparr>) w,
             (if review_job_resolved w job then []
              else [DoDeny job PlainDeny (''reviewer timed out after '' @ short_duration (rs_timeout st))]) @ [DoReset, DoStart])
          else (w, [])
      | _ \<Rightarrow> (w, []))"

definition retry_review_for_verdict :: "surroundings \<Rightarrow> string \<Rightarrow> string \<Rightarrow> world \<Rightarrow> bool \<times> world" where
  "retry_review_for_verdict P review_sid approval_id w =
     (case h_reviewer (w_hosts w) of
        None \<Rightarrow> (False, w)
      | Some g \<Rightarrow>
          (case process_command P ReviewerHost g ''turn/start'' (turn_start_params (p_cmd P (w_calls w)) review_sid VERDICT_RETRY_PROMPT) w of
             (Inl e, w1) \<Rightarrow> (False, w1)
           | (Inr r, w1) \<Rightarrow>
               (True,
                upd_review (\<lambda>st.
                  if (case rs_active st of Some job \<Rightarrow> rj_id job = approval_id | None \<Rightarrow> False) \<and> rs_turn st = []
                  then st\<lparr>rs_turn := unwrap_or (str_at r ''turnId'') []\<rparr> else st) w1)))"

section \<open>Events of the reviewer's session\<close>

definition stale_turn :: "review_state \<Rightarrow> string \<Rightarrow> bool" where
  "stale_turn st turn \<longleftrightarrow> rs_turn st \<noteq> [] \<and> turn \<noteq> [] \<and> rs_turn st \<noteq> turn"

definition review_item_seen :: "J \<Rightarrow> review_state \<Rightarrow> review_state" where
  "review_item_seen params st =
     (let item = unwrap_or (jget params ''item'') JNull in
      case str_at item ''itemId'' of
        Some i \<Rightarrow>
          if str_at item ''kind'' \<noteq> Some ''agentMessage'' \<and> rs_active st \<noteq> None
          then st\<lparr>rs_other := sput i (rs_other st)\<rparr> else st
      | None \<Rightarrow> st)"

definition review_item_delta :: "J \<Rightarrow> review_state \<Rightarrow> review_state" where
  "review_item_delta params st =
     (let item_id = str_or params ''itemId'' [] in
      if str_or params ''field'' ''text'' \<noteq> ''text'' then st
      else case str_at params ''delta'' of
             None \<Rightarrow> st
           | Some delta \<Rightarrow>
               if rs_active st \<noteq> None \<and> item_id \<notin> set (rs_other st) then
                 (if rs_text_item st \<noteq> item_id then st\<lparr>rs_text_item := item_id, rs_text := delta\<rparr>
                  else st\<lparr>rs_text := rs_text st @ delta\<rparr>)
               else st)"

definition review_item_completed :: "J \<Rightarrow> review_state \<Rightarrow> review_state" where
  "review_item_completed params st =
     (let item = unwrap_or (jget params ''item'') JNull in
      case str_at item ''text'' of
        Some t \<Rightarrow>
          if str_at item ''kind'' = Some ''agentMessage'' \<and> rs_active st \<noteq> None
          then st\<lparr>rs_text := t, rs_text_item := str_or item ''itemId'' []\<rparr> else st
      | None \<Rightarrow> st)"

text \<open>Takes the running review with its text.\<close>

definition take_review :: "review_state \<Rightarrow> review_state" where
  "take_review st = st\<lparr>rs_deadline := None, rs_session := None, rs_active := None, rs_text := []\<rparr>"

definition review_turn_over :: "surroundings \<Rightarrow> string \<Rightarrow> J \<Rightarrow> world \<Rightarrow> done_work" where
  "review_turn_over P terminal params w =
     (let st = w_review w; w1 = upd_review take_review w in
      case rs_active st of
        None \<Rightarrow> (w1, [])
      | Some job \<Rightarrow>
          if terminal = ''completed'' then finish_review P job (rs_text st) w1 else fail_review_turn job terminal params w1)"

definition review_turn_completed :: "surroundings \<Rightarrow> J \<Rightarrow> world \<Rightarrow> done_work" where
  "review_turn_completed P params w =
     (let terminal = str_or params ''terminal'' ''completed''; st = w_review w;
          unusable = (terminal = ''completed'' \<and> rs_active st \<noteq> None \<and> rs_retries st < VERDICT_RETRIES \<and> parse_assessment (rs_text st) = None) in
      if stale_turn st (str_or params ''turnId'' []) then (w, [])
      else case rs_session st of
             Some review_sid \<Rightarrow>
               if unusable then
                 (case retry_review_for_verdict P review_sid (case rs_active st of Some job \<Rightarrow> rj_id job | None \<Rightarrow> [])
                     (upd_review (\<lambda>st. st\<lparr>rs_retries := rs_retries st + 1, rs_turn := []\<rparr>) w) of
                    (True, w1) \<Rightarrow> (w1, [])
                  | (False, w1) \<Rightarrow> review_turn_over P terminal params w1)
               else review_turn_over P terminal params w
           | None \<Rightarrow> review_turn_over P terminal params w)"

definition review_foreground_completed :: "surroundings \<Rightarrow> J \<Rightarrow> world \<Rightarrow> done_work" where
  "review_foreground_completed P params w =
     (let st = w_review w in
      if stale_turn st (str_or params ''turnId'' []) then (w, [])
      else if parse_assessment (rs_text st) = None then (w, [])
      else case rs_active st of
             None \<Rightarrow> (w, [])
           | Some job \<Rightarrow> finish_review P job (rs_text st) (upd_review take_review w))"

text \<open>The reviewer's own approvals are denied so that its turn can go on.\<close>

definition deny_reviewer_approval :: "surroundings \<Rightarrow> string \<Rightarrow> J \<Rightarrow> world \<Rightarrow> world" where
  "deny_reviewer_approval P sid params w =
     (case fallback_deny (snd (perm_options (e_lower (p_env P)) params)) of
        None \<Rightarrow> w
      | Some choice \<Rightarrow>
          snd (host_command P ''approval/decide''
            (json_object [(''commandId'', esc (p_cmd P (w_calls w))), (''sessionId'', esc sid),
               (''approvalId'', esc (str_or params ''approvalId'' [])), (''requirementId'', j_to_string (requirement_of params)),
               (''choiceId'', esc choice)]) w))"

text \<open>\<open>None\<close> is the result false: the event is not the reviewer's.\<close>

definition handle_review_event :: "surroundings \<Rightarrow> string \<Rightarrow> J \<Rightarrow> world \<Rightarrow> done_work option" where
  "handle_review_event P meth params w =
     (case str_at params ''sessionId'' of
        None \<Rightarrow> None
      | Some sid \<Rightarrow>
          if rs_session (w_review w) \<noteq> Some sid then
            (if known_owner sid (w_hosts w) = Some ReviewerHost then Some (w, []) else None)
          else Some
            (if meth = ''item/started'' \<or> meth = ''item/updated'' then (upd_review (review_item_seen params) w, [])
             else if meth = ''item/delta'' then (upd_review (review_item_delta params) w, [])
             else if meth = ''item/completed'' then (upd_review (review_item_completed params) w, [])
             else if meth = ''turn/completed'' then review_turn_completed P params w
             else if meth = ''turn/foregroundCompleted'' then review_foreground_completed P params w
             else if meth \<in> {''approval/requested'', ''approval/request'', ''approval/updated''} then
               (deny_reviewer_approval P sid params w, [])
             else (w, [])))"

definition reviewer_closed :: "world \<Rightarrow> done_work" where
  "reviewer_closed w =
     (let w1 = upd_review (\<lambda>st. st\<lparr>rs_deadline := None, rs_active := None\<rparr>) (w\<lparr>w_hosts := clear_reviewer (w_hosts w)\<rparr>) in
      case rs_active (w_review w) of
        None \<Rightarrow> (w1, [])
      | Some job \<Rightarrow> (w1, [DoDeny job ReviewerFailed ''the reviewer host exited before deciding'', DoStart]))"

end
