(* ===== verification/Tool_Patch.thy ===== *)
theory Tool_Patch
  imports World Diff
begin

text \<open>
  The stored patch of a completed tool call (\<^verbatim>\<open>tool_patch_diff\<close> of \<^verbatim>\<open>src/main.rs\<close>): which items have one, reading it
  from the host piece by piece up to a limit, and the diff made of it. A read of pieces ends at the last
  one; the surroundings give the answers it gets.
\<close>

definition PATCH_MAX_BYTES :: nat where
  "PATCH_MAX_BYTES = 1024 * 1024"

definition above_limit :: "nat option \<Rightarrow> bool" where
  "above_limit n \<longleftrightarrow> (case n of Some k \<Rightarrow> PATCH_MAX_BYTES < k | None \<Rightarrow> False)"

definition patch_ref :: "J \<Rightarrow> (string \<times> string) option" where
  "patch_ref item =
     (if str_at item ''kind'' \<noteq> Some ''toolCall'' \<or> str_at item ''status'' \<noteq> Some ''completed'' then None
      else Option.bind (jget item ''patchRef'') (\<lambda>patch.
        if str_at patch ''kind'' \<noteq> Some ''tool_patch'' \<or> str_at patch ''availability'' \<noteq> Some ''available'' \<or>
           above_limit (u64_at patch ''byteLen'') then None
        else Option.bind (str_at patch ''id'') (\<lambda>i. map_option (\<lambda>item_id. (i, item_id)) (str_at item ''itemId''))))"

text \<open>One piece of it: nothing usable, the whole text, or the text so far.\<close>

datatype piece = Unusable | Whole string | More string

definition patch_piece :: "string \<Rightarrow> J \<Rightarrow> piece" where
  "patch_piece body read =
     (if str_at read ''encoding'' \<noteq> Some ''utf8'' then Unusable
      else case str_at read ''content'' of
        None \<Rightarrow> Unusable
      | Some t \<Rightarrow>
          if jget read ''eof'' = Some (JBool True) then Whole (body @ t)
          else if unwrap_or (u64_at read ''byteLen'') 0 = 0 \<or> PATCH_MAX_BYTES < length (body @ t) then Unusable
          else More (body @ t))"

fun read_patch :: "surroundings \<Rightarrow> string \<Rightarrow> string \<times> string \<Rightarrow> (J + J) list \<Rightarrow> string \<Rightarrow> world \<Rightarrow> string option \<times> world" where
  "read_patch P msp_sid ref [] body w = (None, w)"
| "read_patch P msp_sid ref (ans # answers) body w =
     (case routed_command P ''item/readOutput''
         (json_object [(''sessionId'', esc msp_sid), (''itemId'', esc (snd ref)), (''outputRef'', esc (fst ref)),
            (''offsetBytes'', show_nat (length body))]) ans w of
        (Inl e, w1) \<Rightarrow> (None, w1)
      | (Inr read, w1) \<Rightarrow>
          (case patch_piece body read of
             Unusable \<Rightarrow> (None, w1)
           | Whole t \<Rightarrow> (Some t, w1)
           | More t \<Rightarrow> read_patch P msp_sid ref answers t w1))"

definition tool_patch_diff :: "surroundings \<Rightarrow> string \<Rightarrow> J \<Rightarrow> world \<Rightarrow> card_content option \<times> world" where
  "tool_patch_diff P msp_sid item w =
     (case patch_ref item of
        None \<Rightarrow> (None, w)
      | Some ref \<Rightarrow>
          (case read_patch P msp_sid ref (p_pages P (w_calls w)) [] w of
             (None, w1) \<Rightarrow> (None, w1)
           | (Some body, w1) \<Rightarrow>
               (case parse_json body of
                  Inl e \<Rightarrow> (None, w1)
                | Inr document \<Rightarrow> (map_option PatchDiff (acp_v2_diff (str_or item ''tool'' []) document), w1))))"

end
