(* ===== verification/Turns.thy ===== *)
theory Turns
  imports Approvals Stores Tool_Patch
begin

text \<open>
  The life of a prompt on the event loop (\<^verbatim>\<open>src/main.rs\<close>): its turn starts, ends, is reclaimed or withdrawn by
  the host, is lost with the host, or its session is closed. Each way settles the prompt: with a response
  in ACP v1, with a state of the session in ACP v2, where the prompt itself was answered when it was
  accepted. A held \<^verbatim>\<open>/recap\<close> and an open \<^verbatim>\<open>/feedback\<close> form are prompts of their own.
\<close>

section \<open>Small steps\<close>

definition respond :: "nat option \<Rightarrow> response \<Rightarrow> world \<Rightarrow> world" where
  "respond req r w = (case req of Some n \<Rightarrow> out_effect (Respond n r) w | None \<Rightarrow> w)"

text \<open>An ACP v1 stop reason; any other text reads as the end of the turn.\<close>

definition prompt_stop :: "string \<Rightarrow> string" where
  "prompt_stop stop = (if stop \<in> {''max_tokens'', ''max_turn_requests'', ''refusal'', ''cancelled''} then stop else ''end_turn'')"

definition send_prompt_stop :: "nat option \<Rightarrow> string \<Rightarrow> prompt_usage option \<Rightarrow> world \<Rightarrow> world" where
  "send_prompt_stop req stop usage w = respond req (Stopped (prompt_stop stop) usage) w"

definition send_error :: "nat option \<Rightarrow> int \<Rightarrow> string \<Rightarrow> world \<Rightarrow> world" where
  "send_error req code msg w = respond req (Failed code msg None) w"

definition send_host_error :: "nat option \<Rightarrow> J \<Rightarrow> int \<Rightarrow> string \<Rightarrow> world \<Rightarrow> world" where
  "send_host_error req error fallback msg w =
     respond req (Failed (acp_error_code error fallback) msg (host_error_data error)) w"

definition send_state :: "string \<Rightarrow> string \<Rightarrow> string option \<Rightarrow> world \<Rightarrow> world" where
  "send_state sid st stop w = out_effect (SendState sid st stop) w"

definition send_agent_text :: "string \<Rightarrow> nat \<Rightarrow> string \<Rightarrow> world \<Rightarrow> world" where
  "send_agent_text sid ver t w = out_effect (SayText sid ver t) w"

text \<open>The echo of a prompt under a fresh message id.\<close>

definition out_all :: "effect list \<Rightarrow> world \<Rightarrow> world" where
  "out_all es w = fold out_effect es w"

definition send_user_message :: "surroundings \<Rightarrow> string \<Rightarrow> echo \<Rightarrow> world \<Rightarrow> world" where
  "send_user_message P sid content w =
     out_all (map Notify (echo_notes content sid (p_message P (w_messages w)))) (w\<lparr>w_messages := w_messages w + 1\<rparr>)"

definition accept_v2_prompt :: "surroundings \<Rightarrow> nat option \<Rightarrow> string \<Rightarrow> echo \<Rightarrow> world \<Rightarrow> world" where
  "accept_v2_prompt P req sid content w =
     send_user_message P sid content (respond req (AcceptedAs (p_message P (w_messages w))) w)"

definition cancel_v2_prompt_before_insertion :: "nat option \<Rightarrow> world \<Rightarrow> world" where
  "cancel_v2_prompt_before_insertion req w = send_error req (-32800) ''the prompt was cancelled before it was accepted'' w"

definition send_one_shot_notice :: "surroundings \<Rightarrow> string \<Rightarrow> nat \<Rightarrow> string \<Rightarrow> string \<Rightarrow> string \<Rightarrow> string \<Rightarrow> world \<Rightarrow> world" where
  "send_one_shot_notice P sid ver severity title description fallback w =
     (if \<not> p_notices P then send_agent_text sid ver fallback w
      else out_effect (Notify (notice sid ver severity title description)) w)"

text \<open>Runs a handler on the fold of a session and sends what it emits.\<close>

definition fold_lines :: "string \<Rightarrow> handler \<Rightarrow> world \<Rightarrow> world" where
  "fold_lines sid h w =
     (case hget (w_sessions w) sid of
        None \<Rightarrow> w
      | Some s \<Rightarrow>
          out_all (map (FoldLine sid) (snd (h (ses_fold s)))) (upd_session sid (\<lambda>s. s\<lparr>ses_fold := fst (h (ses_fold s))\<rparr>) w))"

definition send_file_report :: "string \<Rightarrow> nat \<Rightarrow> file_report option \<Rightarrow> report_unavailable option \<Rightarrow> world \<Rightarrow> world" where
  "send_file_report sid ver report unavailable w =
     (case report of Some r \<Rightarrow> out_effect (Notify (report_note sid ver r unavailable)) w | None \<Rightarrow> w)"

fun take_flight :: "string \<Rightarrow> flight list \<Rightarrow> flight option \<times> flight list" where
  "take_flight turn [] = (None, [])"
| "take_flight turn (f # fs) =
     (if if_turn f = turn then (Some f, fs) else (case take_flight turn fs of (r, gs) \<Rightarrow> (r, f # gs)))"

fun upd_flight :: "string \<Rightarrow> (flight \<Rightarrow> flight) \<Rightarrow> flight list \<Rightarrow> flight list" where
  "upd_flight turn g [] = []"
| "upd_flight turn g (f # fs) = (if if_turn f = turn then g f # fs else f # upd_flight turn g fs)"

definition new_flight :: "string \<Rightarrow> nat option \<Rightarrow> bool \<Rightarrow> string option \<Rightarrow> flight" where
  "new_flight turn req queued report =
     \<lparr>if_turn = turn, if_req = req, if_queued = queued, if_report = map_option new_file_report report, if_declined = False\<rparr>"

definition clear_active :: "string \<Rightarrow> acp_session \<Rightarrow> acp_session" where
  "clear_active turn s = (if ses_active_turn s = Some turn then s\<lparr>ses_active_turn := None\<rparr> else s)"

section \<open>Turns of the host\<close>

definition turn_started :: "J \<Rightarrow> world \<Rightarrow> world" where
  "turn_started params w =
     (let turn = str_or params ''turnId'' [] in
      case find_acp_sid w (str_or params ''sessionId'' []) of
        Some sid \<Rightarrow>
          if turn = [] then w
          else upd_session sid (\<lambda>s. s\<lparr>ses_active_turn := Some turn,
                 ses_flights := upd_flight turn (\<lambda>f. f\<lparr>if_queued := False\<rparr>) (ses_flights s)\<rparr>) w
      | None \<Rightarrow> w)"

text \<open>A terminal event of a turn makes an open guidance form stale.\<close>

definition drop_guidance :: "string \<Rightarrow> world \<Rightarrow> world" where
  "drop_guidance acp_sid w = snd (invalidate_pending_approval acp_sid None True w)"

definition user_turn_over :: "J \<Rightarrow> world \<Rightarrow> world" where
  "user_turn_over params w =
     (let msp_sid = str_or params ''sessionId'' []; turn_id = str_or params ''turnId'' []; direct = find_acp_sid w msp_sid;
          cleanup = or_else direct (map_option fst (owner_for_msp_session w msp_sid));
          w1 = (case cleanup of Some sid \<Rightarrow> clear_turn_approval_reviewing sid turn_id w | None \<Rightarrow> w) in
      case direct of Some sid \<Rightarrow> drop_guidance sid w1 | None \<Rightarrow> w1)"

text \<open>How a turn ended: whether it failed, whether it never started, the stop reason and the text of an error
  with the login diagnostic that replaces it.\<close>

record turn_end =
  te_terminal :: string
  te_launch :: bool
  te_failed :: bool
  te_stop :: string
  te_auth :: bool
  te_detail :: string

definition turn_end_of :: "surroundings \<Rightarrow> nat \<Rightarrow> J \<Rightarrow> turn_end" where
  "turn_end_of P now params =
     (let terminal = str_or params ''terminal'' [];
          detail = friendly_terminal_error (e_lower (p_env P)) (p_clock P now) terminal params;
          kind = str_at2 params ''error'' ''kind'';
          auth = turn_auth_diagnostic (p_login P) detail kind;
          launch = (kind = ''launchError'') in
      \<lparr>te_terminal = terminal, te_launch = launch,
       te_failed = (terminal \<noteq> ''completed'' \<and> terminal \<noteq> ''cancelled'' \<and> \<not> launch),
       te_stop = (if launch then ''cancelled'' else stop_reason terminal), te_auth = (auth \<noteq> None),
       te_detail = unwrap_or auth detail\<rparr>)"

definition end_unavailable :: "turn_end \<Rightarrow> report_unavailable option" where
  "end_unavailable e =
     (if te_failed e then Some ReportProviderError else if te_stop e = ''cancelled'' then Some ReportCancelled else None)"

text \<open>The session's side of an ended turn: what was in flight for it, and its usage.\<close>

definition land_turn :: "surroundings \<Rightarrow> string \<Rightarrow> string \<Rightarrow> string \<Rightarrow> acp_session \<Rightarrow> world \<Rightarrow> world" where
  "land_turn P sid turn terminal s w =
     upd_session sid (\<lambda>s. s\<lparr>ses_flights := snd (take_flight turn (ses_flights s)), ses_usage := snd (take_turn_usage turn (ses_usage s))\<rparr>)
       (fold_lines sid (turn_ended (p_env P) sid (ses_ver s) turn terminal) (upd_session sid (clear_active turn) w))"

definition settle_turn :: "surroundings \<Rightarrow> string \<Rightarrow> string \<Rightarrow> turn_end \<Rightarrow> world \<Rightarrow> world" where
  "settle_turn P sid turn e w =
     (case hget (w_sessions w) sid of
        None \<Rightarrow> w
      | Some s \<Rightarrow>
          (let (landed, others) = take_flight turn (ses_flights s);
               usage = Option.bind (fst (take_turn_usage turn (ses_usage s))) (result_usage (e_serde (p_env P)));
               w1 = land_turn P sid turn (te_terminal e) s w;
               w2 = send_file_report sid (ses_ver s) (Option.bind landed if_report) (end_unavailable e) w1 in
           if ses_ver s = 2 then
             (let w3 = (if te_failed e \<or> te_launch e then send_agent_text sid 2 (te_detail e) w2 else w2) in
              if others = [] then send_state sid ''idle'' (Some (te_stop e)) w3 else send_state sid ''running'' None w3)
           else
             (case landed of
                None \<Rightarrow> w2
              | Some f \<Rightarrow>
                  if te_terminal e = ''completed'' \<or> te_terminal e = ''cancelled'' then send_prompt_stop (if_req f) (te_stop e) usage w2
                  else send_error (if_req f) (if te_auth e then -32000 else -32603) (te_detail e) w2)))"

definition turn_completed :: "surroundings \<Rightarrow> J \<Rightarrow> world \<Rightarrow> world" where
  "turn_completed P params w =
     (case find_acp_sid w (str_or params ''sessionId'' []) of
        None \<Rightarrow> user_turn_over params w
      | Some sid \<Rightarrow> settle_turn P sid (str_or params ''turnId'' []) (turn_end_of P (w_now w) params) (user_turn_over params w))"

text \<open>A turn that never ran or was withdrawn settles its prompt as cancelled.\<close>

definition settle_withdrawn :: "string \<Rightarrow> string \<Rightarrow> world \<Rightarrow> world" where
  "settle_withdrawn sid turn w =
     (case hget (w_sessions w) sid of
        None \<Rightarrow> w
      | Some s \<Rightarrow>
          (case take_flight turn (ses_flights s) of
             (None, fs) \<Rightarrow> w
           | (Some f, others) \<Rightarrow>
               (let w1 = send_file_report sid (ses_ver s) (if_report f) (Some ReportCancelled)
                      (upd_session sid (\<lambda>s. s\<lparr>ses_flights := others\<rparr>) w) in
                if ses_ver s = 2 then (if others = [] then send_state sid ''idle'' (Some ''cancelled'') w1 else w1)
                else send_prompt_stop (if_req f) ''cancelled'' None w1)))"

definition turn_unqueued :: "J \<Rightarrow> world \<Rightarrow> world" where
  "turn_unqueued params w =
     (case find_acp_sid w (str_or params ''sessionId'' []) of
        None \<Rightarrow> w
      | Some sid \<Rightarrow> settle_withdrawn sid (str_or params ''turnId'' []) (drop_guidance sid w))"

definition retract_declined :: "surroundings \<Rightarrow> string \<Rightarrow> string \<Rightarrow> world \<Rightarrow> world" where
  "retract_declined P sid turn w =
     (case hget (w_sessions w) sid of
        None \<Rightarrow> w
      | Some s \<Rightarrow>
          (case fst (take_flight turn (ses_flights s)) of
             None \<Rightarrow> w
           | Some f \<Rightarrow>
               (let w1 = upd_session sid (\<lambda>s. s\<lparr>ses_flights := upd_flight turn (\<lambda>f. f\<lparr>if_declined := True\<rparr>) (ses_flights s)\<rparr>) w in
                if if_declined f then w1
                else send_one_shot_notice P sid (ses_ver s) ''info'' ''Muse declined to retract the submitted message''
                       ''The turn remains open until its terminal settles this prompt.''
                       ''Muse declined to retract the submitted message; the turn remains open until its terminal settles this prompt.'' w1)))"

definition turn_retracted :: "surroundings \<Rightarrow> J \<Rightarrow> world \<Rightarrow> world" where
  "turn_retracted P params w =
     (let turn = str_or params ''turnId'' [] in
      case find_acp_sid w (str_or params ''sessionId'' []) of
        None \<Rightarrow> w
      | Some sid \<Rightarrow>
          if str_or params ''outcome'' ''accepted'' = ''declined'' then retract_declined P sid turn w
          else
            settle_withdrawn sid turn
              (fold_lines sid (turn_dropped (p_env P) sid turn ''completed'')
                (upd_session sid (clear_active turn) (drop_guidance sid w))))"

section \<open>Losing the host\<close>

definition unqueue_known :: "hset \<Rightarrow> flight \<Rightarrow> flight" where
  "unqueue_known active f = (if if_turn f \<in> set active then f\<lparr>if_queued := False\<rparr> else f)"

text \<open>The turns a reattached session's host still knows: the active ones, and all.\<close>

definition snapshot_state :: "J \<Rightarrow> J option" where
  "snapshot_state r = Option.bind (jget r ''history'') (\<lambda>h. Option.bind (jget h ''snapshot'') (\<lambda>s. jget s ''state''))"

definition reattached_active :: "J \<Rightarrow> string list" where
  "reattached_active r =
     (case Option.bind (jget r ''session'') (\<lambda>s. non_empty_str s ''activeTurnId'') of Some i \<Rightarrow> [i] | None \<Rightarrow> []) @
     (case Option.bind (snapshot_state r) (\<lambda>st. Option.bind (jget st ''activeTurn'') (\<lambda>t. non_empty_str t ''turnId'')) of
        Some i \<Rightarrow> [i] | None \<Rightarrow> [])"

definition reattached_known :: "J \<Rightarrow> string list" where
  "reattached_known r =
     reattached_active r @
     (case snapshot_state r of
        Some st \<Rightarrow> List.map_filter (\<lambda>t. non_empty_str t ''turnId'') (items_at st ''queuedTurns'') | None \<Rightarrow> [])"

definition settle_lost :: "string \<Rightarrow> nat \<Rightarrow> bool \<Rightarrow> flight \<Rightarrow> world \<Rightarrow> world" where
  "settle_lost sid ver idle f w =
     (let w1 = send_file_report sid ver (if_report f) (Some ReportCancelled) w in
      if ver = 2 then (if idle then send_state sid ''idle'' (Some ''cancelled'') w1 else w1)
      else send_prompt_stop (if_req f) ''cancelled'' None w1)"

definition lost_checks :: "surroundings \<Rightarrow> string \<Rightarrow> flight list \<Rightarrow> handler" where
  "lost_checks P sid fs = for_each (\<lambda>f. turn_dropped (p_env P) sid (if_turn f) ''failed'') fs"

definition reconcile_in_flight :: "surroundings \<Rightarrow> string \<Rightarrow> J \<Rightarrow> world \<Rightarrow> world" where
  "reconcile_in_flight P sid r w =
     (case hget (w_sessions w) sid of
        None \<Rightarrow> w
      | Some s \<Rightarrow>
          (let known = (\<lambda>f. if_turn f \<in> set (reattached_known r));
               kept = map (unqueue_known (reattached_active r)) (filter known (ses_flights s));
               lost = filter (\<lambda>f. \<not> known f) (ses_flights s) in
           fold (settle_lost sid (ses_ver s) (kept = [])) lost
             (fold_lines sid (lost_checks P sid lost) (upd_session sid (\<lambda>s. s\<lparr>ses_flights := kept\<rparr>) w))))"

text \<open>The part of \<^verbatim>\<open>adopt_reattached\<close> that concerns turns.\<close>

definition reattached_turns :: "surroundings \<Rightarrow> string \<Rightarrow> J \<Rightarrow> world \<Rightarrow> world" where
  "reattached_turns P sid r w =
     reconcile_in_flight P sid r
       (upd_session sid (\<lambda>s. s\<lparr>ses_active_turn := Option.bind (jget r ''session'') (\<lambda>x. str_at x ''activeTurnId''),
          ses_roots_pending := gr_roots (p_grants P)\<rparr>) w)"

text \<open>When the host fails, the file reports go out before the prompts are answered.\<close>

definition failed_checks :: "surroundings \<Rightarrow> string \<Rightarrow> handler" where
  "failed_checks P sid = do_all
     [settle_background_checks (p_env P) sid None ''failed'' True, clear_model_retry (p_env P) sid None]"

definition fail_in_flight :: "surroundings \<Rightarrow> string \<Rightarrow> string \<Rightarrow> world \<Rightarrow> world" where
  "fail_in_flight P sid msg w =
     (let w1 = fold_lines sid (failed_checks P sid) w in
      case hget (w_sessions w1) sid of
        None \<Rightarrow> w1
      | Some s \<Rightarrow>
          if ses_flights s = [] then w1
          else
            (let w2 = fold (\<lambda>f. send_file_report sid (ses_ver s) (if_report f) (Some ReportProviderError)) (ses_flights s) w1 in
             if ses_ver s = 2 then
               send_state sid ''idle'' (Some ''cancelled'')
                 (upd_session sid (\<lambda>s. s\<lparr>ses_flights := []\<rparr>) (send_agent_text sid 2 msg w2))
             else
               fold (\<lambda>f. send_error (if_req f) (-32603) msg) (ses_flights s) (upd_session sid (\<lambda>s. s\<lparr>ses_flights := []\<rparr>) w2)))"

definition withdraw_questions :: "acp_session \<Rightarrow> world \<Rightarrow> world" where
  "withdraw_questions s w = fold (\<lambda>q. send_cancel_request (ui_req q)) (ses_questions s) w"

definition withdraw_permission :: "acp_session \<Rightarrow> world \<Rightarrow> world" where
  "withdraw_permission s w = (case ses_pending s of Some p \<Rightarrow> send_cancel_request (open_request p) w | None \<Rightarrow> w)"

definition cancel_recap :: "string \<Rightarrow> acp_session \<Rightarrow> world \<Rightarrow> world" where
  "cancel_recap sid s w =
     (case ses_recap s of
        None \<Rightarrow> w
      | Some r \<Rightarrow>
          if ses_ver s = 2 then send_state sid ''idle'' (Some ''cancelled'') w
          else send_prompt_stop (rc_req r) ''cancelled'' None w)"

definition abandon_session_work :: "surroundings \<Rightarrow> string \<Rightarrow> string \<Rightarrow> world \<Rightarrow> world" where
  "abandon_session_work P sid msg w =
     (let w1 = fail_in_flight P sid msg w in
      case hget (w_sessions w1) sid of
        None \<Rightarrow> w1
      | Some s \<Rightarrow>
          fold_lines sid (disconnect_tasks sid (ses_ver s))
            (upd_session sid (\<lambda>s. s\<lparr>ses_questions := [], ses_pending := None, ses_recap := None, ses_queue := [], ses_active_turn := None\<rparr>)
              (cancel_recap sid s (withdraw_permission s (withdraw_questions s w1)))))"

definition fail_all_with_message :: "surroundings \<Rightarrow> string \<Rightarrow> world \<Rightarrow> world" where
  "fail_all_with_message P msg w = fold (\<lambda>(sid, s). abandon_session_work P sid msg) (w_sessions w) w"

section \<open>Closing a session\<close>

text \<open>Closing a session settles what is open on it as cancelled; a form runs before its prompt is inserted.\<close>

definition cancel_form :: "string \<Rightarrow> nat \<Rightarrow> feedback_prompt \<Rightarrow> world \<Rightarrow> world" where
  "cancel_form sid ver f w =
     (let w1 = send_cancel_request (ff_req f) w in
      if ver = 2 then send_state sid ''idle'' (Some ''cancelled'') (cancel_v2_prompt_before_insertion (ff_prompt f) w1)
      else send_prompt_stop (ff_prompt f) ''cancelled'' None w1)"

definition cancel_flight :: "string \<Rightarrow> nat \<Rightarrow> flight \<Rightarrow> world \<Rightarrow> world" where
  "cancel_flight sid ver f w =
     (if ver = 2 then send_state sid ''idle'' (Some ''cancelled'') w else send_prompt_stop (if_req f) ''cancelled'' None w)"

definition drop_acp_session :: "string \<Rightarrow> world \<Rightarrow> bool \<times> world" where
  "drop_acp_session sid w =
     (case hget (w_sessions w) sid of
        None \<Rightarrow> (False, w)
      | Some s \<Rightarrow>
          (True, cancel_recap sid s
             ((case ses_form s of Some f \<Rightarrow> cancel_form sid (ses_ver s) f | None \<Rightarrow> id)
               (withdraw_permission s
                 (withdraw_questions s
                   (fold (cancel_flight sid (ses_ver s)) (ses_flights s) (w\<lparr>w_sessions := hdel sid (w_sessions w)\<rparr>)))))))"

definition leave_session :: "surroundings \<Rightarrow> string \<Rightarrow> world \<Rightarrow> world" where
  "leave_session P msp_sid w =
     (if \<not> gr_leave (p_grants P) then w
      else snd (host_command P ''session/leave''
        (json_object [(''commandId'', esc (p_cmd P (w_calls w))), (''sessionId'', esc msp_sid), (''stop'', ''true'')]) w))"

definition close_session :: "surroundings \<Rightarrow> nat option \<Rightarrow> string \<Rightarrow> world \<Rightarrow> world" where
  "close_session P req sid w =
     (if sid = [] then send_error req (-32602) ''session/close requires params.sessionId'' w
      else
        (case (hget (w_sessions w) sid, drop_acp_session sid (cancel_session_turns P sid w)) of
           (Some s, True, w1) \<Rightarrow> leave_session P (ses_msp_sid s) (respond req ClosedSession w1)
         | (_, _, w1) \<Rightarrow> send_error req (-32602) ''unknown sessionId'' w1))"

section \<open>Recaps and feedback\<close>

definition session_works :: "string \<Rightarrow> world \<Rightarrow> bool" where
  "session_works sid w \<longleftrightarrow> (case hget (w_sessions w) sid of Some s \<Rightarrow> ses_busy s | None \<Rightarrow> False)"

definition settle_state :: "string \<Rightarrow> string \<Rightarrow> world \<Rightarrow> world" where
  "settle_state sid stop w =
     (if session_works sid w then send_state sid ''running'' None w else send_state sid ''idle'' (Some stop) w)"

definition settle_recap :: "string \<Rightarrow> pending_recap \<Rightarrow> string option \<Rightarrow> string \<Rightarrow> world \<Rightarrow> world" where
  "settle_recap sid r t stop w =
     (let w1 = (case nonempty t of Some x \<Rightarrow> send_agent_text sid (rc_ver r) x w | None \<Rightarrow> w) in
      if rc_ver r = 2 then settle_state sid stop w1 else send_prompt_stop (rc_req r) stop None w1)"

definition fail_recap :: "string \<Rightarrow> pending_recap \<Rightarrow> string \<Rightarrow> world \<Rightarrow> world" where
  "fail_recap sid r msg w =
     (if rc_ver r = 2 then settle_state sid ''_failed'' (send_agent_text sid 2 msg w)
      else send_error (rc_req r) (-32603) msg w)"

definition recap_summary :: "J \<Rightarrow> string" where
  "recap_summary params =
     (let title = trim (str_or params ''title'' []); body = str_or params ''text'' [] in
      if title = [] then body else title @ [CHR 0x0A, CHR 0x0A] @ body)"

definition finish_recap :: "string \<Rightarrow> pending_recap \<Rightarrow> J \<Rightarrow> world \<Rightarrow> world" where
  "finish_recap sid r params w =
     (let outcome = str_at params ''outcome'' in
      if outcome = Some ''completed'' then settle_recap sid r (Some (recap_summary params)) ''end_turn'' w
      else if outcome = Some ''cancelled'' then settle_recap sid r None ''cancelled'' w
      else if outcome = Some ''failed'' then fail_recap sid r (''Recap failed ('' @ str_or params ''reason'' ''unknown'' @ '').'') w
      else if outcome = Some ''timedOut'' then fail_recap sid r ''Recap timed out before the host finished.'' w
      else fail_recap sid r (''Recap failed (unknown outcome '' @ unwrap_or outcome ''missing'' @ '').'') w)"

definition recap_completed :: "J \<Rightarrow> world \<Rightarrow> world" where
  "recap_completed params w =
     (case find_acp_sid w (str_or params ''sessionId'' []) of
        None \<Rightarrow> w
      | Some sid \<Rightarrow>
          (case Option.bind (hget (w_sessions w) sid) ses_recap of
             None \<Rightarrow> w
           | Some r \<Rightarrow>
               if rc_retry r = str_or params ''commandId'' []
               then finish_recap sid r params (upd_session sid (\<lambda>s. s\<lparr>ses_recap := None\<rparr>) w) else w))"

text \<open>A command the adapter ran itself: its prompt ends with a text.\<close>

definition local_lifecycle :: "surroundings \<Rightarrow> string \<Rightarrow> nat \<Rightarrow> nat option \<Rightarrow> echo \<Rightarrow> string option \<Rightarrow> world \<Rightarrow> world" where
  "local_lifecycle P sid ver req content t w =
     (let says = (\<lambda>w. case t of Some x \<Rightarrow> send_agent_text sid ver x w | None \<Rightarrow> w) in
      if ver = 2 then
        (let w1 = says (send_state sid ''running'' None (accept_v2_prompt P req sid content w)) in
         if session_works sid w then w1 else send_state sid ''idle'' (Some ''end_turn'') w1)
      else send_prompt_stop req ''end_turn'' None (says (send_user_message P sid content w)))"

definition settle_command_with_text :: "surroundings \<Rightarrow> string \<Rightarrow> nat \<Rightarrow> nat option \<Rightarrow> echo \<Rightarrow> string \<Rightarrow> world \<Rightarrow> world" where
  "settle_command_with_text P sid ver req content t w =
     (if ver \<noteq> 2 \<and> echo_is_empty content then send_prompt_stop req ''end_turn'' None (send_agent_text sid ver t w)
      else local_lifecycle P sid ver req content (Some t) w)"

definition start_recap :: "surroundings \<Rightarrow> string \<Rightarrow> nat \<Rightarrow> nat option \<Rightarrow> echo \<Rightarrow> string \<Rightarrow> world \<Rightarrow> world" where
  "start_recap P sid ver req content argument w =
     (if argument \<noteq> [] then send_error req (-32602) ''usage: /recap (takes no arguments)'' w
      else case hget (w_sessions w) sid of
        None \<Rightarrow> w
      | Some s \<Rightarrow>
          if ses_recap s \<noteq> None
          then send_error req (-32602) ''A recap is already in flight for this session; wait for it or stop the session.'' w
          else
            (let cmd = p_cmd P (w_calls w) in
             case host_command P ''recap/request'' (json_object [(''commandId'', esc cmd), (''sessionId'', esc (ses_msp_sid s))]) w of
               (Inl e, w1) \<Rightarrow> send_error req (acp_error_code e (-32603)) (''recap/request failed: '' @ err_message e) w1
             | (Inr ack, w1) \<Rightarrow>
                 if str_at ack ''status'' \<noteq> Some ''accepted''
                 then send_error req (-32603) (''recap/request was not accepted by the Muse host: '' @ str_or ack ''status'' ''missing'') w1
                 else
                   (let w2 = upd_session sid (\<lambda>s. s\<lparr>ses_recap := Some \<lparr>rc_req = req, rc_retry = cmd, rc_ver = ver\<rparr>\<rparr>) w1 in
                    if ver = 2 then send_state sid ''running'' None (accept_v2_prompt P req sid content w2)
                    else send_user_message P sid content w2)))"

definition submit_feedback :: "surroundings \<Rightarrow> string \<Rightarrow> nat \<Rightarrow> nat option \<Rightarrow> echo \<Rightarrow> string \<Rightarrow> string \<Rightarrow> bool \<Rightarrow> bool \<Rightarrow> world \<Rightarrow> world" where
  "submit_feedback P sid ver req content classification body with_files attach w =
     (case hget (w_sessions w) sid of
        None \<Rightarrow> w
      | Some s \<Rightarrow>
          (case host_command P ''feedback/submit''
             (json_object [(''commandId'', esc (p_cmd P (w_calls w))), (''classification'', esc classification), (''note'', esc body),
               (''sessionId'', esc (ses_msp_sid s)), (''withFiles'', bool_text with_files), (''attachSessionRecord'', bool_text attach)]) w of
             (Inr r, w1) \<Rightarrow> settle_command_with_text P sid ver req content (feedback_result_text r) w1
           | (Inl e, w1) \<Rightarrow>
               settle_command_with_text P sid ver req content (''Feedback was not sent: '' @ err_message e @ ''.'') w1))"

text \<open>Sends a form; its request id, unless it could not be written.\<close>

definition send_elicitation_form :: "surroundings \<Rightarrow> string \<Rightarrow> string \<Rightarrow> string \<Rightarrow> form \<Rightarrow> world \<Rightarrow> nat option \<times> world" where
  "send_elicitation_form P sid tool_call msg f w =
     (let n = w_asks w; w1 = w\<lparr>w_asks := n + 1\<rparr> in
      if p_writable P n then (Some n, out_effect (AskForm n sid tool_call msg f) w1) else (None, w1))"

definition ask_feedback :: "surroundings \<Rightarrow> string \<Rightarrow> string \<Rightarrow> form \<Rightarrow> world \<Rightarrow> world" where
  "ask_feedback P sid msg f w =
     (case send_elicitation_form P sid [] msg f w of
        (Some n, w1) \<Rightarrow> upd_session sid (\<lambda>s. s\<lparr>ses_form := map_option (\<lambda>p. p\<lparr>ff_req := Some n\<rparr>) (ses_form s)\<rparr>) w1
      | (None, w1) \<Rightarrow> w1)"

definition FEEDBACK_HELP :: string where
  "FEEDBACK_HELP = ''Usage: /feedback [bug|bad|good|other] <note>''"

definition start_feedback :: "surroundings \<Rightarrow> string \<Rightarrow> nat \<Rightarrow> nat option \<Rightarrow> echo \<Rightarrow> string \<Rightarrow> world \<Rightarrow> world" where
  "start_feedback P sid ver req content argument w =
     (let parsed = parse_feedback_argument argument in
      if p_form P then
        (case hget (w_sessions w) sid of
           None \<Rightarrow> w
         | Some s \<Rightarrow>
             if ses_form s \<noteq> None then send_error req (-32602) ''A feedback form is already open; answer or cancel it first.'' w
             else
               (let w1 = upd_session sid (\<lambda>s. s\<lparr>ses_form := Some \<lparr>ff_req = None, ff_prompt = req, ff_content = content, ff_ver = ver\<rparr>\<rparr>) w;
                    w2 = (if ver = 2 then send_state sid ''requires_action'' None w1 else w1) in
                ask_feedback P sid ''Send feedback about Muse''
                  (case parsed of Some (c, body) \<Rightarrow> feedback_form (Some c) body | None \<Rightarrow> feedback_form None (trim argument)) w2))
      else
        (case parsed of
           Some (c, body) \<Rightarrow>
             if body \<noteq> [] then submit_feedback P sid ver req content c body False False w
             else settle_command_with_text P sid ver req content FEEDBACK_HELP w
         | None \<Rightarrow> settle_command_with_text P sid ver req content FEEDBACK_HELP w))"

definition settle_feedback_cancelled :: "string \<Rightarrow> world \<Rightarrow> world" where
  "settle_feedback_cancelled sid w =
     (case Option.bind (hget (w_sessions w) sid) ses_form of
        None \<Rightarrow> w
      | Some f \<Rightarrow> cancel_form sid (ff_ver f) f (upd_session sid (\<lambda>s. s\<lparr>ses_form := None\<rparr>) w))"

definition form_with :: "nat \<Rightarrow> world \<Rightarrow> (string \<times> feedback_prompt) option" where
  "form_with req w =
     find_map (\<lambda>(sid, s). case ses_form s of Some f \<Rightarrow> if ff_req f = Some req then Some (sid, f) else None | None \<Rightarrow> None) (w_sessions w)"

definition feedback_problem :: "string \<Rightarrow> string \<Rightarrow> bool \<Rightarrow> bool \<Rightarrow> string option" where
  "feedback_problem classification body with_files attach =
     (if classification \<notin> {''bug'', ''badResult'', ''goodResult'', ''other''} then Some ''Choose Bug, Bad result, Good result, or Other.''
      else if classification = ''bug'' \<and> trim body = [] then Some ''A bug report needs a note.''
      else if attach \<and> \<not> (with_files \<and> classification \<in> {''bug'', ''badResult''})
      then Some ''Attaching the session record requires local tracing and a Bug or Bad result classification.''
      else None)"

definition complete_feedback :: "surroundings \<Rightarrow> nat \<Rightarrow> client_answer \<Rightarrow> world \<Rightarrow> world" where
  "complete_feedback P req ans w =
     (case form_with req w of
        None \<Rightarrow> w
      | Some (sid, f) \<Rightarrow>
          (let closed = upd_session sid (\<lambda>s. s\<lparr>ses_form := None\<rparr>) w in
           case accepted_form ans of
             None \<Rightarrow> settle_command_with_text P sid (ff_ver f) (ff_prompt f) (ff_content f) ''Feedback not sent.'' closed
           | Some fs \<Rightarrow>
               (let c = unwrap_or (form_text fs ''classification'') []; body = unwrap_or (form_text fs ''note'') [];
                    with_files = form_flag fs ''withFiles''; attach = form_flag fs ''attachSessionRecord'' in
                case feedback_problem c body with_files attach of
                  Some problem \<Rightarrow>
                    ask_feedback P sid (problem @ [CHR 0x0A, CHR 0x0A] @ ''Send feedback about Muse'') (feedback_form (Some c) body) w
                | None \<Rightarrow> submit_feedback P sid (ff_ver f) (ff_prompt f) (ff_content f) c body with_files attach closed)))"

section \<open>Transcripts of child sessions\<close>

definition replay_items :: "J \<Rightarrow> J list option" where
  "replay_items r =
     Option.bind (jget r ''history'') (\<lambda>h.
       case jget h ''items'' of
         Some (JArr items) \<Rightarrow> Some items
       | _ \<Rightarrow>
           (case Option.bind (jget h ''snapshot'') (\<lambda>snap. Option.bind (jget snap ''state'') (\<lambda>st. jget st ''items'')) of
              Some (JArr items) \<Rightarrow> Some items | _ \<Rightarrow> None))"

definition child_to_read :: "surroundings \<Rightarrow> J \<Rightarrow> string option" where
  "child_to_read P item =
     (if n_subagents (p_negotiated P) = 0 \<or> str_at item ''kind'' \<noteq> Some ''subagent'' then None
      else non_empty_str item ''childSessionId'')"

text \<open>The session once a subagent item names a child: whether its transcript is needed and for which session.\<close>

definition begin_drill_down :: "surroundings \<Rightarrow> string \<Rightarrow> acp_session \<Rightarrow> bool \<times> string \<times> acp_session" where
  "begin_drill_down P child s =
     (case take_child_read child (ses_fold s) of
        (again, f) \<Rightarrow>
          (let unknown = (hget (ses_child_folds s) child = None); needs = (unknown \<or> again);
               target = child_session_id f child;
               folds = (if unknown then hput child (fresh_fold ((p_negotiated P)\<lparr>n_workspace_root := ses_cwd s\<rparr>)) (ses_child_folds s)
                        else ses_child_folds s) in
           (needs, target, s\<lparr>ses_fold := (if needs then begin_child_read target f else f), ses_child_folds := folds\<rparr>)))"

definition drill_down_subagent_child :: "surroundings \<Rightarrow> string \<Rightarrow> J \<Rightarrow> world \<Rightarrow> world" where
  "drill_down_subagent_child P sid item w =
     (case (child_to_read P item, hget (w_sessions w) sid) of
        (Some child, Some s) \<Rightarrow>
          (case begin_drill_down P child s of
             (needs, target, s') \<Rightarrow>
               (let w1 = upd_session sid (\<lambda>s. snd (snd (begin_drill_down P child s))) w in
                if needs then out_effect (ReadChild sid (ses_ver s) child target) w1 else w1))
      | _ \<Rightarrow> w)"

text \<open>The thread of such a read: the transcript goes onto the child's fold, and out unless the child's session
  has already ended; a terminal state held back follows it.\<close>

definition replay_child :: "surroundings \<Rightarrow> nat \<Rightarrow> string \<Rightarrow> string \<Rightarrow> J + J \<Rightarrow> acp_session \<Rightarrow> notif list \<times> acp_session" where
  "replay_child P ver child target read s =
     (let (lines, folds) =
            (case (read, hget (ses_child_folds s) child) of
               (Inr r, Some f) \<Rightarrow>
                 (case replay_items r of
                    Some items \<Rightarrow>
                      (case replay_history_items (p_env P) target ver items f of (f', ns) \<Rightarrow> (ns, hput child f' (ses_child_folds s)))
                  | None \<Rightarrow> ([], ses_child_folds s))
             | _ \<Rightarrow> ([], ses_child_folds s));
          ((sendable, held), f1) = end_child_read child target (ses_fold s) in
      ((if sendable then lines else []) @ (case held of Some n \<Rightarrow> [n] | None \<Rightarrow> []), s\<lparr>ses_fold := f1, ses_child_folds := folds\<rparr>))"

definition read_child :: "surroundings \<Rightarrow> string \<Rightarrow> nat \<Rightarrow> string \<Rightarrow> string \<Rightarrow> world \<Rightarrow> world" where
  "read_child P sid ver child target w =
     (case host_command P ''session/read'' (json_object [(''sessionId'', esc child), (''excludeItems'', ''false'')]) w of
        (read, w1) \<Rightarrow>
          (case hget (w_sessions w1) sid of
             None \<Rightarrow> w1
           | Some s \<Rightarrow>
               out_all (map (FoldLine target) (fst (replay_child P ver child target read s)))
                 (upd_session sid (\<lambda>s. snd (replay_child P ver child target read s)) w1)))"

section \<open>Items of the running turn\<close>

definition observe_file_change :: "string \<Rightarrow> J \<Rightarrow> world \<Rightarrow> world" where
  "observe_file_change sid item w =
     (case observed_turn item of
        None \<Rightarrow> w
      | Some turn \<Rightarrow>
          upd_session sid (\<lambda>s. s\<lparr>ses_flights :=
            upd_flight turn (\<lambda>f. f\<lparr>if_report := map_option (observe_report (ses_cwd s) item) (if_report f)\<rparr>) (ses_flights s)\<rparr>) w)"

definition item_seen :: "surroundings \<Rightarrow> J \<Rightarrow> world \<Rightarrow> world" where
  "item_seen P params w =
     (case find_acp_sid w (str_or params ''sessionId'' []) of
        None \<Rightarrow> w
      | Some sid \<Rightarrow>
          (case hget (w_sessions w) sid of
             None \<Rightarrow> w
           | Some s \<Rightarrow>
               (let item = unwrap_or (jget params ''item'') JNull in
                drill_down_subagent_child P sid item (fold_lines sid (on_item_snapshot (p_env P) sid (ses_ver s) item) w))))"

definition item_delta :: "surroundings \<Rightarrow> J \<Rightarrow> world \<Rightarrow> world" where
  "item_delta P params w =
     (case find_acp_sid w (str_or params ''sessionId'' []) of
        None \<Rightarrow> w
      | Some sid \<Rightarrow>
          (case hget (w_sessions w) sid of
             None \<Rightarrow> w | Some s \<Rightarrow> fold_lines sid (on_item_delta (p_env P) sid (ses_ver s) params) w))"

definition evidence_of :: "J \<Rightarrow> string" where
  "evidence_of item =
     str_or item ''kind'' ''item'' @ '' '' @ str_or item ''tool'' [] @ '' '' @ str_or item ''status'' [] @ '': '' @
     of_chars (take 800 (chars (str_or item ''text'' [])))"

definition item_completed :: "surroundings \<Rightarrow> J \<Rightarrow> world \<Rightarrow> world" where
  "item_completed P params w =
     (let item = unwrap_or (jget params ''item'') JNull in
      case find_acp_sid w (str_or params ''sessionId'' []) of
        None \<Rightarrow> w
      | Some sid \<Rightarrow>
          (case hget (w_sessions w) sid of
             None \<Rightarrow> w
           | Some s \<Rightarrow>
               (let (diff, w1) = (if ses_ver s = 2 then tool_patch_diff P (ses_msp_sid s) item (observe_file_change sid item w)
                      else (None, observe_file_change sid item w));
                    editor = p_editor_card P (w_calls w1) item in
                drill_down_subagent_child P sid item
                  (upd_session sid (\<lambda>s. s\<lparr>ses_evidence := remember_review_line (ses_evidence s) (evidence_of item)\<rparr>)
                    (fold_lines sid (handle (p_env P) sid (ses_ver s) (ItemCompleted params diff editor)) w1)))))"

text \<open>The legs of a turn count once each; the session's totals and their prices are left out.\<close>

definition token_usage :: "J \<Rightarrow> world \<Rightarrow> world" where
  "token_usage params w =
     (let cursor = str_or params ''viewCursor'' [] in
      case find_acp_sid w (str_or params ''sessionId'' []) of
        None \<Rightarrow> w
      | Some sid \<Rightarrow>
          upd_session sid (\<lambda>s. if cursor \<noteq> [] \<and> cursor \<in> set (ses_usage_seen s) then s
            else s\<lparr>ses_usage_seen := (if cursor = [] then ses_usage_seen s else cursor # ses_usage_seen s),
                   ses_usage := record_turn_leg (ses_usage s) (str_or params ''turnId'' []) params\<rparr>) w)"

text \<open>Notices about a turn that still runs.\<close>

definition turn_runs :: "string \<Rightarrow> acp_session \<Rightarrow> bool" where
  "turn_runs turn s \<longleftrightarrow> turn \<noteq> [] \<and> (ses_active_turn s = Some turn \<or> turn \<in> set (ses_in_flight s))"

definition running_turn_lines :: "(string \<Rightarrow> nat \<Rightarrow> handler) \<Rightarrow> J \<Rightarrow> world \<Rightarrow> world" where
  "running_turn_lines h params w =
     (case find_acp_sid w (str_or params ''sessionId'' []) of
        None \<Rightarrow> w
      | Some sid \<Rightarrow>
          (case hget (w_sessions w) sid of
             None \<Rightarrow> w
           | Some s \<Rightarrow> if turn_runs (str_or params ''turnId'' []) s then fold_lines sid (h sid (ses_ver s)) w else w))"

definition foreground_completed :: "surroundings \<Rightarrow> J \<Rightarrow> world \<Rightarrow> world" where
  "foreground_completed P params w =
     running_turn_lines (\<lambda>sid ver. on_foreground_completed (p_env P) sid ver (str_or params ''turnId'' [])
       (List.map_filter as_str (items_at params ''blockingAgents''))) params w"

definition model_retry_scheduled :: "surroundings \<Rightarrow> J \<Rightarrow> world \<Rightarrow> world" where
  "model_retry_scheduled P params w =
     running_turn_lines (\<lambda>sid ver. on_model_retry_scheduled (p_env P) sid (str_or params ''turnId'' []) params) params w"

definition monitor_inbox :: "surroundings \<Rightarrow> string \<Rightarrow> J \<Rightarrow> world \<Rightarrow> world" where
  "monitor_inbox P meth params w =
     (case find_acp_sid w (str_or params ''sessionId'' []) of
        None \<Rightarrow> w | Some sid \<Rightarrow> fold_lines sid (on_monitor_inbox (p_env P) sid meth params) w)"

text \<open>An effort chosen elsewhere becomes the session's; storing and publishing it are left out.\<close>

definition effort_changed :: "J \<Rightarrow> world \<Rightarrow> world" where
  "effort_changed params w =
     (let effort = str_or params ''reasoningEffort'' []; source = unwrap_or (non_empty_str params ''source'') ''unknown'' in
      if \<not> is_reasoning_effort effort then w
      else case find_acp_sid w (str_or params ''sessionId'' []) of
             None \<Rightarrow> w
           | Some sid \<Rightarrow> upd_session sid (\<lambda>s. s\<lparr>ses_effort := effort, ses_effort_source := Some source\<rparr>) w)"

section \<open>View cursors\<close>

text \<open>The events a gap refill may deliver twice.\<close>

definition replayable :: "string \<Rightarrow> bool" where
  "replayable meth \<longleftrightarrow> meth \<in> {''item/started'', ''item/updated'', ''item/delta'', ''item/completed'', ''session/contextUsage'', ''session/tokenUsage''}"

definition follow_cursor :: "string \<Rightarrow> string \<Rightarrow> acp_session \<Rightarrow> bool \<times> acp_session" where
  "follow_cursor meth cursor s =
     (let twin = cursor \<in> set (ses_twins s); again = replayable meth \<and> cursor \<in> set (ses_view_seen s) in
      (\<not> twin \<and> \<not> again,
       s\<lparr>ses_twins := filter (\<lambda>c. c \<noteq> cursor) (ses_twins s),
         ses_view_seen := (if twin \<or> \<not> replayable meth then ses_view_seen s else sput cursor (ses_view_seen s)),
         ses_view_cursor := cursor\<rparr>))"

text \<open>Whether an event is news, and the world that remembers it.\<close>

definition track_cursor :: "string \<Rightarrow> J \<Rightarrow> world \<Rightarrow> bool \<times> world" where
  "track_cursor meth params w =
     (let cursor = str_or params ''viewCursor'' [] in
      case find_acp_sid w (str_or params ''sessionId'' []) of
        None \<Rightarrow> (True, w)
      | Some sid \<Rightarrow>
          (case hget (w_sessions w) sid of
             None \<Rightarrow> (True, w)
           | Some s \<Rightarrow>
               if cursor = [] then (True, w)
               else (fst (follow_cursor meth cursor s), upd_session sid (\<lambda>s. snd (follow_cursor meth cursor s)) w)))"

end
