(* ===== verification/Questions.thy ===== *)
theory Questions
  imports Turns
begin

text \<open>
  Questions of the host (\<^verbatim>\<open>userInput/requested\<close>) as forms in the editor (\<^verbatim>\<open>src/main.rs\<close>, \<^verbatim>\<open>show_pending_ui\<close> to
  \<^verbatim>\<open>bridge_user_input\<close> and \<^verbatim>\<open>complete_elicitation\<close>). A form asks one question; the confirmed answers are held until
  the last one is given. The lemmas of the last section say what an open question looks like at any time.
\<close>

section \<open>Showing a question\<close>

definition upd_question :: "string \<Rightarrow> nat \<Rightarrow> (pending_ui \<Rightarrow> pending_ui) \<Rightarrow> world \<Rightarrow> world" where
  "upd_question sid i g w =
     upd_session sid (\<lambda>s. if i < length (ses_questions s)
       then s\<lparr>ses_questions := (ses_questions s)[i := g (ses_questions s ! i)]\<rparr> else s) w"

definition question_at :: "string \<Rightarrow> nat \<Rightarrow> world \<Rightarrow> pending_ui option" where
  "question_at sid i w =
     (case hget (w_sessions w) sid of
        Some s \<Rightarrow> if i < length (ses_questions s) then Some (ses_questions s ! i) else None | None \<Rightarrow> None)"

definition show_pending_ui :: "surroundings \<Rightarrow> string \<Rightarrow> nat \<Rightarrow> string \<Rightarrow> form \<Rightarrow> string list \<Rightarrow> nat \<Rightarrow> world \<Rightarrow> world" where
  "show_pending_ui P sid i msg f confirmed index w =
     (case question_at sid i w of
        None \<Rightarrow> w
      | Some q \<Rightarrow>
          (case send_elicitation_form P sid (ui_tool_call q) msg f
                  (upd_question sid i (\<lambda>q. q\<lparr>ui_confirmed := confirmed, ui_index := index\<rparr>) w) of
             (Some n, w1) \<Rightarrow> upd_question sid i (\<lambda>q. q\<lparr>ui_req := Some n\<rparr>) w1
           | (None, w1) \<Rightarrow> w1))"

definition reissue_pending_ui :: "surroundings \<Rightarrow> string \<Rightarrow> nat \<Rightarrow> string \<Rightarrow> form \<Rightarrow> world \<Rightarrow> world" where
  "reissue_pending_ui P sid i msg f w =
     (case question_at sid i w of
        None \<Rightarrow> w | Some q \<Rightarrow> show_pending_ui P sid i msg f (ui_confirmed q) (ui_index q) w)"

definition ask_next_ui_question :: "surroundings \<Rightarrow> string \<Rightarrow> nat \<Rightarrow> ui_question list \<Rightarrow> nat \<Rightarrow> string list \<Rightarrow> world \<Rightarrow> world" where
  "ask_next_ui_question P sid i qs k confirmed w =
     (if k < length qs
      then show_pending_ui P sid i (ui_answer_message k qs) (ui_answer_form (e_serde (p_env P)) k (qs ! k)) confirmed k w
      else w)"

fun without_request :: "nat \<Rightarrow> pending_ui list \<Rightarrow> pending_ui list" where
  "without_request req [] = []"
| "without_request req (q # qs) = (if ui_req q = Some req then qs else q # without_request req qs)"

definition remove_pending_ui :: "string \<Rightarrow> nat \<Rightarrow> world \<Rightarrow> world" where
  "remove_pending_ui sid req w = upd_session sid (\<lambda>s. s\<lparr>ses_questions := without_request req (ses_questions s)\<rparr>) w"

section \<open>Questions from the host\<close>

definition ui_known :: "string \<Rightarrow> acp_session \<Rightarrow> bool" where
  "ui_known i s \<longleftrightarrow> list_ex (\<lambda>q. ui_id q = i) (ses_questions s) \<or> i \<in> set (ses_ui_seen s)"

definition see_ui :: "string \<Rightarrow> string \<Rightarrow> world \<Rightarrow> world" where
  "see_ui sid i w = upd_session sid (\<lambda>s. s\<lparr>ses_ui_seen := sput i (ses_ui_seen s)\<rparr>) w"

definition new_pending_ui :: "string \<Rightarrow> string \<Rightarrow> J \<Rightarrow> ui_question list \<Rightarrow> pending_ui" where
  "new_pending_ui i owner params qs =
     \<lparr>ui_req = None, ui_id = i, ui_owner = owner, ui_turn = str_or params ''turnId'' [], ui_questions = qs,
      ui_tool_call = str_or params ''toolCallId'' [], ui_index = 0, ui_confirmed = []\<rparr>"

text \<open>The question opens, its form is sent, and the request id is stored with the first question that has
  the id.\<close>

fun upd_ui :: "string \<Rightarrow> (pending_ui \<Rightarrow> pending_ui) \<Rightarrow> pending_ui list \<Rightarrow> pending_ui list" where
  "upd_ui i g [] = []"
| "upd_ui i g (q # qs) = (if ui_id q = i then g q # qs else q # upd_ui i g qs)"

definition open_ui :: "surroundings \<Rightarrow> string \<Rightarrow> pending_ui \<Rightarrow> world \<Rightarrow> world" where
  "open_ui P sid q w =
     (case hget (w_sessions w) sid of
        None \<Rightarrow> w
      | Some s \<Rightarrow>
          (let w1 = upd_session sid (\<lambda>s. s\<lparr>ses_questions := ses_questions s @ [q]\<rparr>) w;
               w2 = (if ses_ver s = 2 then send_state sid ''requires_action'' None w1 else w1) in
           case send_elicitation_form P sid (ui_tool_call q) (ui_answer_message 0 (ui_questions q))
                  (ui_answer_form (e_serde (p_env P)) 0 (hd (ui_questions q))) w2 of
             (Some n, w3) \<Rightarrow>
               upd_session sid (\<lambda>s. s\<lparr>ses_questions := upd_ui (ui_id q) (\<lambda>q. q\<lparr>ui_req := Some n\<rparr>) (ses_questions s)\<rparr>) w3
           | (None, w3) \<Rightarrow> w3))"

definition bridge_user_input :: "surroundings \<Rightarrow> string \<Rightarrow> string \<Rightarrow> J \<Rightarrow> world \<Rightarrow> bool \<times> world" where
  "bridge_user_input P sid owner params w =
     (let i = str_or params ''userInputId'' [] in
      case jget params ''questions'' of
        Some (JArr js) \<Rightarrow>
          (if i = [] \<or> js = [] then (False, w)
           else case hget (w_sessions w) sid of
             None \<Rightarrow> (False, w)
           | Some s \<Rightarrow>
               if ui_known i s then (True, w)
               else
                 (let qs = List.map_filter ui_question_of js; w1 = see_ui sid i w in
                  if qs = [] then (False, w1) else (True, open_ui P sid (new_pending_ui i owner params qs) w1)))
      | _ \<Rightarrow> (False, w))"

definition cancel_user_input :: "surroundings \<Rightarrow> string \<Rightarrow> string \<Rightarrow> world \<Rightarrow> world" where
  "cancel_user_input P owner i w =
     snd (host_command P ''userInput/cancel''
       (json_object [(''commandId'', esc (p_cmd P (w_calls w))), (''sessionId'', esc owner), (''userInputId'', esc i)]) w)"

definition user_input_requested :: "surroundings \<Rightarrow> J \<Rightarrow> world \<Rightarrow> world" where
  "user_input_requested P params w =
     (let msp_sid = str_or params ''sessionId'' []; i = str_or params ''userInputId'' [];
          route = owner_for_msp_session w msp_sid;
          owner = (case route of Some (sid, own, child) \<Rightarrow> own | None \<Rightarrow> msp_sid) in
      case (case route of
              Some (sid, own, child) \<Rightarrow> if p_form P then bridge_user_input P sid owner params w else (False, w)
            | None \<Rightarrow> (False, w)) of
        (True, w1) \<Rightarrow> w1
      | (False, w1) \<Rightarrow>
          if owner = [] \<or> i = [] then w1
          else case route of
                 None \<Rightarrow> w1
               | Some (sid, own, child) \<Rightarrow> cancel_user_input P owner i (see_ui sid i w1))"

fun take_ui :: "string \<Rightarrow> pending_ui list \<Rightarrow> pending_ui option \<times> pending_ui list" where
  "take_ui i [] = (None, [])"
| "take_ui i (q # qs) = (if ui_id q = i then (Some q, qs) else (case take_ui i qs of (r, rs) \<Rightarrow> (r, q # rs)))"

definition resumes_running :: "acp_session \<Rightarrow> bool" where
  "resumes_running s \<longleftrightarrow> ses_ver s = 2 \<and> ses_flights s \<noteq> []"

definition user_input_settled :: "J \<Rightarrow> world \<Rightarrow> world" where
  "user_input_settled params w =
     (let i = str_or params ''userInputId'' [] in
      case owner_for_msp_session w (str_or params ''sessionId'' []) of
        None \<Rightarrow> w
      | Some (sid, own, child) \<Rightarrow>
          if i = [] then w
          else
            (let w1 = see_ui sid i w in
             case hget (w_sessions w1) sid of
               None \<Rightarrow> w1
             | Some s \<Rightarrow>
                 (case take_ui i (ses_questions s) of
                    (None, qs) \<Rightarrow> w1
                  | (Some q, qs) \<Rightarrow>
                      (let w2 = send_cancel_request (ui_req q) (upd_session sid (\<lambda>s. s\<lparr>ses_questions := qs\<rparr>) w1) in
                       if resumes_running s \<and> qs = [] \<and> ses_pending s = None then send_state sid ''running'' None w2 else w2))))"

section \<open>Answers of the editor\<close>

fun question_index :: "nat \<Rightarrow> pending_ui list \<Rightarrow> nat option" where
  "question_index req [] = None"
| "question_index req (q # qs) = (if ui_req q = Some req then Some 0 else map_option Suc (question_index req qs))"

definition question_with :: "nat \<Rightarrow> world \<Rightarrow> (string \<times> nat \<times> pending_ui) option" where
  "question_with req w =
     find_map (\<lambda>(sid, s). map_option (\<lambda>i. (sid, i, ses_questions s ! i)) (question_index req (ses_questions s))) (w_sessions w)"

text \<open>A declined form: the answers already confirmed reach the model through the interrupt.\<close>

definition decline_ui :: "surroundings \<Rightarrow> string \<Rightarrow> nat \<Rightarrow> pending_ui \<Rightarrow> world \<Rightarrow> world" where
  "decline_ui P sid req q w =
     (let w1 = remove_pending_ui sid req w;
          head = [(''commandId'', esc (p_cmd P (w_calls w1))), (''sessionId'', esc (ui_owner q)), (''userInputId'', esc (ui_id q))] in
      if ui_confirmed q = [] then snd (host_command P ''userInput/cancel'' (json_object head) w1)
      else snd (host_command P ''userInput/interrupt'' (json_object (head @ [(''answers'', bracketed (ui_confirmed q))])) w1))"

definition ui_answered :: "string \<Rightarrow> nat \<Rightarrow> world \<Rightarrow> world" where
  "ui_answered sid req w =
     (let w1 = remove_pending_ui sid req w in
      case hget (w_sessions w1) sid of
        Some s \<Rightarrow> if resumes_running s then send_state sid ''running'' None w1 else w1
      | None \<Rightarrow> w1)"

text \<open>Sends the clarification or the answers; a refusal asks the same question again.\<close>

definition submit_ui :: "surroundings \<Rightarrow> string \<Rightarrow> nat \<Rightarrow> nat \<Rightarrow> (string \<Rightarrow> world \<Rightarrow> world) \<Rightarrow> string \<Rightarrow> string \<Rightarrow> string \<Rightarrow> world \<Rightarrow> world" where
  "submit_ui P sid req i again meth params refused w =
     (case host_command P meth params w of
        (Inr r, w1) \<Rightarrow> ui_answered sid req w1
      | (Inl e, w1) \<Rightarrow> again (refused @ err_message e) w1)"

definition clarification_problem :: "string option \<Rightarrow> string option" where
  "clarification_problem c =
     (case c of
        None \<Rightarrow> Some ''Enter a clarification before submitting.''
      | Some t \<Rightarrow>
          if trim t = [] then Some ''Enter a clarification before submitting.''
          else if 500 < length (chars t) then Some ''Clarifications must be 500 characters or fewer.''
          else None)"

definition empty_selection :: "ui_question \<Rightarrow> string" where
  "empty_selection q = object_of [(''questionId'', esc (uq_id q)), (''selectedLabels'', ''[]'')]"

definition confirmed_answer :: "ui_question \<Rightarrow> nat \<Rightarrow> field_value hmap \<Rightarrow> string option" where
  "confirmed_answer q k fs =
     (case ui_answer_json q k fs of
        Some a \<Rightarrow> Some a | None \<Rightarrow> if ui_question_required q then None else Some (empty_selection q))"

definition ui_params :: "surroundings \<Rightarrow> pending_ui \<Rightarrow> (string \<times> string) list \<Rightarrow> world \<Rightarrow> string" where
  "ui_params P q ms w =
     json_object ([(''commandId'', esc (p_cmd P (w_calls w))), (''sessionId'', esc (ui_owner q)), (''userInputId'', esc (ui_id q))] @ ms)"

definition clarify_ui :: "surroundings \<Rightarrow> string \<Rightarrow> nat \<Rightarrow> nat \<Rightarrow> pending_ui \<Rightarrow> (string \<Rightarrow> world \<Rightarrow> world) \<Rightarrow> field_value hmap \<Rightarrow> world \<Rightarrow> world" where
  "clarify_ui P sid req i q again fs w =
     (let c = form_text fs ''clarification'' in
      case clarification_problem c of
        Some problem \<Rightarrow> again problem w
      | None \<Rightarrow>
          submit_ui P sid req i again ''userInput/clarify''
            (ui_params P q [(''clarification'', object_of [(''format'', quoted ''text''), (''content'', esc (unwrap_or c []))])] w)
            ''Muse rejected the clarification: '' w)"

definition answer_ui :: "surroundings \<Rightarrow> string \<Rightarrow> nat \<Rightarrow> nat \<Rightarrow> pending_ui \<Rightarrow> (string \<Rightarrow> world \<Rightarrow> world) \<Rightarrow> field_value hmap \<Rightarrow> world \<Rightarrow> world" where
  "answer_ui P sid req i q again fs w =
     (let k = ui_index q; question = ui_questions q ! k in
      case ui_multiple_answer_error question k fs of
        Some problem \<Rightarrow> again problem w
      | None \<Rightarrow>
          (case confirmed_answer question k fs of
             None \<Rightarrow> again ''Answer this question to continue.'' w
           | Some a \<Rightarrow>
               (let confirmed = ui_confirmed q @ [a] in
                if k + 1 < length (ui_questions q)
                then ask_next_ui_question P sid i (ui_questions q) (k + 1) confirmed w
                else submit_ui P sid req i again ''userInput/answer'' (ui_params P q [(''answers'', bracketed confirmed)] w)
                       ''Muse rejected the answer: '' w)))"

definition complete_elicitation :: "surroundings \<Rightarrow> nat \<Rightarrow> client_answer \<Rightarrow> world \<Rightarrow> world" where
  "complete_elicitation P req ans w =
     (case question_with req w of
        None \<Rightarrow> w
      | Some (sid, i, q) \<Rightarrow>
          (case accepted_form ans of
             None \<Rightarrow> decline_ui P sid req q w
           | Some fs \<Rightarrow>
               if length (ui_questions q) \<le> ui_index q then w
               else
                 (let k = ui_index q; question = ui_questions q ! k;
                      again = (\<lambda>problem. reissue_pending_ui P sid i
                        (ui_answer_message k (ui_questions q) @ [CHR 0x0A, CHR 0x0A] @ problem)
                        (ui_answer_form (e_serde (p_env P)) k question)) in
                  case ui_explain_selected question k fs of
                    Inl problem \<Rightarrow> again problem w
                  | Inr True \<Rightarrow> clarify_ui P sid req i q again fs w
                  | Inr False \<Rightarrow> answer_ui P sid req i q again fs w)))"

end
