(* ===== verification/Permissions.thy ===== *)
theory Permissions
  imports Prompts
begin

text \<open>
  Permission prompts (\<^verbatim>\<open>src/main.rs\<close>): opening an approval for the editor, the queue behind the one that is
  shown, the editor's answers, and the events of the loop that reach the approval flow. The last section
  runs the tasks the functions leave; the recursion ends because every task uses up a queued approval, a
  queued review or itself.
\<close>

section \<open>Opening an approval\<close>

definition editor_tool :: "J \<Rightarrow> string option" where
  "editor_tool params =
     or_else (Option.bind (jget params ''subject'') (\<lambda>s. non_empty_str s ''toolName'')) (non_empty_str params ''toolName'')"

text \<open>An editor tool's approval with its arguments added, when they are known.\<close>

definition with_editor_approval_args :: "surroundings \<Rightarrow> string \<Rightarrow> J \<Rightarrow> world \<Rightarrow> J option \<times> world" where
  "with_editor_approval_args P acp_sid params w =
     (let add = (\<lambda>raw. case params of JObj ms \<Rightarrow> Some (JObj (ms @ [(''rawArgs'', JStr raw)])) | _ \<Rightarrow> None) in
      case (editor_tool params, non_empty_str params ''sessionId'', non_empty_str params ''approvalId'') of
        (Some tool, Some msp_sid, Some approval_id) \<Rightarrow>
          if \<not> starts_with tool ''mcp__editor__'' \<or> non_empty_str params ''rawArgs'' \<noteq> None then (None, w)
          else
            (case Option.bind (hget (w_sessions w) acp_sid) (\<lambda>s.
                Option.bind (List.find (\<lambda>r. rw_sid r = msp_sid \<and> rw_id r = approval_id) (ses_reviewing s)) rw_raw) of
               Some raw \<Rightarrow> (add raw, w)
             | None \<Rightarrow>
                 (case host_command P ''approval/listPending'' (json_object [(''sessionId'', esc msp_sid)]) w of
                    (Inl e, w1) \<Rightarrow> (None, w1)
                  | (Inr listed, w1) \<Rightarrow>
                      (case Option.bind (List.find (\<lambda>row. non_empty_str row ''approvalId'' = Some approval_id) (items_at listed ''approvals''))
                              (\<lambda>row. non_empty_str row ''rawArgs'') of
                         Some raw \<Rightarrow> (add raw, w1)
                       | None \<Rightarrow> (None, w1))))
      | _ \<Rightarrow> (None, w))"

definition retitle_editor_permission :: "string \<Rightarrow> string \<Rightarrow> string \<Rightarrow> J \<Rightarrow> world \<Rightarrow> world" where
  "retitle_editor_permission acp_sid msp_sid approval_id params w =
     (case (approval_title (unwrap_or (editor_tool params) []) (non_empty_str params ''rawArgs''),
            Option.bind (hget (w_sessions w) acp_sid) ses_pending) of
        (Some title, Some p) \<Rightarrow>
          if pp_sid p \<noteq> msp_sid \<or> pp_id p \<noteq> approval_id \<or> pp_title p = title then w
          else out_effect (Retitle acp_sid ((card_new (pp_tool_call p))\<lparr>c_title := Some title\<rparr>))
                 (upd_session acp_sid (\<lambda>s. s\<lparr>ses_pending := Some (p\<lparr>pp_title := title\<rparr>)\<rparr>) w)
      | _ \<Rightarrow> w)"

text \<open>What becomes of an approval that neither the policy nor the reviewer takes: a duplicate, queued behind
  the shown permission, or shown now. The second component is the request to withdraw.\<close>

datatype placement = Duplicate | Queued | Shown

definition queued_for :: "string \<Rightarrow> string \<Rightarrow> J \<Rightarrow> bool" where
  "queued_for msp_sid approval_id q \<longleftrightarrow> non_empty_str q ''approvalId'' = Some approval_id \<and> non_empty_str q ''sessionId'' = Some msp_sid"

definition queued_requirement :: "J \<Rightarrow> string" where
  "queued_requirement q = unwrap_or (map_option j_to_string (jget q ''currentRequirementId'')) ''null''"

definition remove_first :: "('a \<Rightarrow> bool) \<Rightarrow> 'a list \<Rightarrow> 'a list" where
  "remove_first f xs = takeWhile (\<lambda>x. \<not> f x) xs @ tl (dropWhile (\<lambda>x. \<not> f x) xs)"

definition place_approval :: "string \<Rightarrow> string \<Rightarrow> string \<Rightarrow> J \<Rightarrow> acp_session \<Rightarrow> placement \<times> nat option \<times> acp_session" where
  "place_approval msp_sid approval_id requirement_json params s =
     (let key = (msp_sid, approval_id, requirement_json);
          mine = (case ses_pending s of Some p \<Rightarrow> pp_sid p = msp_sid \<and> pp_id p = approval_id | None \<Rightarrow> False);
          same = (case ses_pending s of Some p \<Rightarrow> j_to_string (pp_requirement p) = requirement_json | None \<Rightarrow> False) in
      if key \<in> set (ses_seen s) \<or> (mine \<and> same) then (Duplicate, None, s)
      else
        (let stale = (if mine then Option.bind (ses_pending s) open_request else None);
             s1 = (if mine then s\<lparr>ses_pending := None\<rparr> else s);
             twin = List.find (queued_for msp_sid approval_id) (ses_queue s1) in
         case twin of
           Some q \<Rightarrow>
             if queued_requirement q = requirement_json then (Duplicate, stale, s1)
             else
               (let s2 = s1\<lparr>ses_queue := remove_first (queued_for msp_sid approval_id) (ses_queue s1)\<rparr> in
                if ses_pending s2 \<noteq> None then (Queued, stale, s2\<lparr>ses_queue := ses_queue s2 @ [params]\<rparr>)
                else (Shown, stale, s2\<lparr>ses_seen := key # ses_seen s2\<rparr>))
         | None \<Rightarrow>
             if ses_pending s1 \<noteq> None then (Queued, stale, s1\<lparr>ses_queue := ses_queue s1 @ [params]\<rparr>)
             else (Shown, stale, s1\<lparr>ses_seen := key # ses_seen s1\<rparr>)))"

definition permission_card :: "surroundings \<Rightarrow> J \<Rightarrow> string \<Rightarrow> card" where
  "permission_card P params card_id =
     (let (title, kind) = approval_title_kind (p_env P) params;
          content = (case cua_card_text params of Some t \<Rightarrow> [Text t] | None \<Rightarrow> []) @
            (case Option.bind (non_empty_str params ''reviewerReason'') cua_untrusted_text of
               Some reason \<Rightarrow> [Text (''Reviewer concern: '' @ reason)] | None \<Rightarrow> []);
          facts = List.map_filter (\<lambda>key. case jget params key of
              None \<Rightarrow> None
            | Some JNull \<Rightarrow> None
            | Some (JStr t) \<Rightarrow> if trim t = [] then None else Some (member key (j_to_string (JStr t)))
            | Some v \<Rightarrow> Some (member key (j_to_string v))) [''cuaCardFacts'', ''reviewerReason''] in
      (card_new card_id)\<lparr>c_title := Some title, c_kind := Some kind, c_status := Some ''pending'',
        c_raw_input := (case jget params ''subject'' of
            Some (JObj ms) \<Rightarrow> Some (json_value (e_serde (p_env P)) (j_to_string (JObj ms))) | _ \<Rightarrow> None),
        c_content := (if content = [] then None else Some content),
        c_meta := muse_meta (e_serde (p_env P)) (comma_join facts)\<rparr>)"

definition permission_card_id :: "J \<Rightarrow> string \<Rightarrow> string \<Rightarrow> world \<Rightarrow> string" where
  "permission_card_id params acp_sid approval_id w =
     (case or_else (non_empty_str params ''toolCallId'')
         (Option.bind (non_empty_str params ''itemId'') (\<lambda>item_id.
            Option.bind (hget (w_sessions w) acp_sid) (\<lambda>s. tool_call_id (ses_fold s) item_id))) of
        Some i \<Rightarrow> i | None \<Rightarrow> ''approval-'' @ approval_id)"

definition new_pending :: "surroundings \<Rightarrow> string \<Rightarrow> string option \<Rightarrow> string \<Rightarrow> string \<Rightarrow> J \<Rightarrow> nat \<Rightarrow> string \<Rightarrow> pending_perm" where
  "new_pending P owner_msp_sid child msp_sid approval_id params req tool_call =
     \<lparr>pp_req = Some req, pp_sid = msp_sid, pp_id = approval_id, pp_requirement = requirement_of params,
      pp_choices = snd (perm_options (e_lower (p_env P)) params), pp_owner = owner_msp_sid, pp_child = child, pp_feedback = None,
      pp_tool_call = tool_call, pp_title = fst (approval_title_kind (p_env P) params)\<rparr>"

definition show_permission :: "surroundings \<Rightarrow> string \<Rightarrow> string \<Rightarrow> string option \<Rightarrow> string \<Rightarrow> string \<Rightarrow> J \<Rightarrow> world \<Rightarrow> world" where
  "show_permission P acp_sid owner_msp_sid child msp_sid approval_id params w =
     (let (options, choices) = perm_options (e_lower (p_env P)) params;
          tool_call = permission_card_id params acp_sid approval_id w;
          title = fst (approval_title_kind (p_env P) params) in
      if choices = [] then fail_closed_owner_work P acp_sid owner_msp_sid child w
      else case hget (w_sessions w) acp_sid of
             None \<Rightarrow> w
           | Some s \<Rightarrow>
               (let w1 = (if ses_ver s = 2 then out_effect (SendState acp_sid ''requires_action'' None) w else w);
                    n = w_asks w1 in
                if \<not> p_writable P n then w1\<lparr>w_asks := n + 1\<rparr>
                else
                  upd_session acp_sid (\<lambda>s. s\<lparr>ses_pending := Some (new_pending P owner_msp_sid child msp_sid approval_id params n tool_call)\<rparr>)
                    (out_effect (AskPermission n acp_sid (ses_ver s) title (permission_card P params tool_call) options)
                      (w1\<lparr>w_asks := n + 1\<rparr>))))"

definition prefix_decision :: "string \<Rightarrow> nat \<Rightarrow> string \<Rightarrow> J \<Rightarrow> string \<Rightarrow> permission_decision" where
  "prefix_decision msp_sid ver approval_id requirement choice =
     \<lparr>d_msp = msp_sid, d_ver = ver, d_id = approval_id, d_req = requirement, d_choice = choice, d_feedback = None, d_notice = None\<rparr>"

text \<open>The policy in order: the command prefixes, the reviewer, the editor.\<close>

definition dispatch_approval :: "surroundings \<Rightarrow> string \<Rightarrow> string \<Rightarrow> string option \<Rightarrow> string \<Rightarrow> string \<Rightarrow> J \<Rightarrow> world \<Rightarrow> done_work" where
  "dispatch_approval P acp_sid owner_msp_sid child msp_sid approval_id params w =
     (let requirement = requirement_of params; key = (msp_sid, approval_id, j_to_string requirement) in
      case (command_prefix_choice P params, hget (w_sessions w) acp_sid) of
        (Some choice, None) \<Rightarrow> (w, [])
      | (Some choice, Some s) \<Rightarrow>
          if key \<in> set (ses_seen s) then (w, [])
          else (upd_session acp_sid (\<lambda>s. s\<lparr>ses_seen := key # ses_seen s\<rparr>) w,
                [DoDecide acp_sid msp_sid (prefix_decision msp_sid (ses_ver s) approval_id requirement choice)])
      | (None, found) \<Rightarrow>
          (case enqueue_review P acp_sid owner_msp_sid params w of
             Some r \<Rightarrow> r
           | None \<Rightarrow>
               (case found of
                  None \<Rightarrow> (show_permission P acp_sid owner_msp_sid child msp_sid approval_id params w, [])
                | Some s \<Rightarrow>
                    (case place_approval msp_sid approval_id (j_to_string requirement) params s of
                       (pl, stale, s') \<Rightarrow>
                         (let w1 = send_cancel_request stale (upd_session acp_sid (\<lambda>_. s') w) in
                          case pl of
                            Duplicate \<Rightarrow> (retitle_editor_permission acp_sid msp_sid approval_id params w1, [])
                          | Queued \<Rightarrow> (w1, [])
                          | Shown \<Rightarrow> (show_permission P acp_sid owner_msp_sid child msp_sid approval_id params w1, []))))))"

definition open_approval :: "surroundings \<Rightarrow> J \<Rightarrow> world \<Rightarrow> done_work" where
  "open_approval P params0 w =
     (let msp_sid = str_or params0 ''sessionId'' []; approval_id = str_or params0 ''approvalId'' [] in
      case owner_for_msp_session w msp_sid of
        None \<Rightarrow> (w, [])
      | Some (acp_sid, owner_msp_sid, child) \<Rightarrow>
          if approval_id = [] then (w, [])
          else
            (case with_editor_approval_args P acp_sid params0 w of
               (enriched, w1) \<Rightarrow>
                 (let params = unwrap_or enriched params0;
                      w2 = learn_resolved_approvals P acp_sid (clear_approval_reviewing acp_sid msp_sid approval_id w1) in
                  if (case hget (w_sessions w2) acp_sid of
                        Some s \<Rightarrow> (msp_sid, approval_id) \<in> set (ses_resolved s) | None \<Rightarrow> False)
                  then (w2, [])
                  else dispatch_approval P acp_sid owner_msp_sid child msp_sid approval_id params w2)))"

section \<open>The editor's answers\<close>

text \<open>An explicit selection of an offered choice, or the notice for the fallback deny.\<close>

definition selected_choice :: "perm_choice list \<Rightarrow> client_answer \<Rightarrow> string option + string" where
  "selected_choice choices ans =
     (case ans of
        ClientError \<Rightarrow> Inl (Some ''Permission denied: the permission request failed in the editor.'')
      | PermissionAnswer (Selected cid) \<Rightarrow>
          if list_ex (\<lambda>c. pc_id c = cid) choices then Inr cid
          else Inl (Some ''Permission denied: the editor returned no usable permission option.'')
      | PermissionAnswer Cancelled \<Rightarrow> Inl None
      | PermissionAnswer (OtherOutcome name) \<Rightarrow>
          if name = ''selected'' then Inl (Some ''Permission denied: the editor returned no usable permission option.'')
          else if name = ''cancelled'' then Inl None
          else Inl (Some ''Permission denied: the editor did not approve the permission request.'')
      | FormAnswer f \<Rightarrow> Inl (Some ''Permission denied: the editor did not approve the permission request.''))"

definition is_approving :: "(string \<Rightarrow> string) \<Rightarrow> perm_choice list \<Rightarrow> string \<Rightarrow> bool" where
  "is_approving lower choices cid \<longleftrightarrow>
     (case List.find (\<lambda>c. pc_id c = cid) choices of Some c \<Rightarrow> approves lower (pc_decision c) | None \<Rightarrow> False)"

definition offer_permission_feedback :: "surroundings \<Rightarrow> string \<Rightarrow> string \<Rightarrow> world \<Rightarrow> bool \<times> world" where
  "offer_permission_feedback P acp_sid choice_id w =
     (case hget (w_sessions w) acp_sid of
        None \<Rightarrow> (False, w)
      | Some s \<Rightarrow>
          (case ses_pending s of
             None \<Rightarrow> (False, w)
           | Some p \<Rightarrow>
               if pp_feedback p \<noteq> None then (False, w)
               else
                 (let w1 = (if ses_ver s = 2 then out_effect (SendState acp_sid ''requires_action'' None) w else w); n = w_asks w1 in
                  if \<not> p_writable P n then (False, w1\<lparr>w_asks := n + 1\<rparr>)
                  else
                    (True, upd_session acp_sid
                       (\<lambda>s. s\<lparr>ses_pending := Some (p\<lparr>pp_feedback := Some \<lparr>pg_req = Some n, pg_choice = choice_id\<rparr>\<rparr>)\<rparr>)
                       (out_effect (AskGuidance n acp_sid (ses_ver s)) (w1\<lparr>w_asks := n + 1\<rparr>))))))"

definition editor_decision :: "pending_perm \<Rightarrow> nat \<Rightarrow> string \<Rightarrow> string option \<Rightarrow> string option \<Rightarrow> permission_decision" where
  "editor_decision p ver choice feedback msg =
     \<lparr>d_msp = pp_owner p, d_ver = ver, d_id = pp_id p, d_req = pp_requirement p, d_choice = choice,
      d_feedback = feedback, d_notice = msg\<rparr>"

definition settle_permission :: "surroundings \<Rightarrow> string \<Rightarrow> acp_session \<Rightarrow> pending_perm \<Rightarrow> client_answer \<Rightarrow> world \<Rightarrow> done_work" where
  "settle_permission P acp_sid s p ans w =
     (let lower = e_lower (p_env P);
          closed = (\<lambda>w. upd_session acp_sid (\<lambda>s. s\<lparr>ses_pending := None\<rparr>) w);
          decide = (\<lambda>choice msg w. (closed w, [DoDecide acp_sid (pp_sid p) (editor_decision p (ses_ver s) choice None msg)])) in
      case selected_choice (pp_choices p) ans of
        Inr cid \<Rightarrow>
          if is_approving lower (pp_choices p) cid then decide cid None w
          else if p_form P \<and> list_ex (\<lambda>c. pc_id c = cid \<and> pc_feedback c) (pp_choices p) then
            (case offer_permission_feedback P acp_sid cid w of
               (True, w1) \<Rightarrow> (w1, []) | (False, w1) \<Rightarrow> decide cid None w1)
          else decide cid None w
      | Inl msg \<Rightarrow>
          (case fallback_deny (pp_choices p) of
             Some c \<Rightarrow> decide c msg w
           | None \<Rightarrow>
               (fail_closed_owner_work P acp_sid (pp_owner p) (pp_child p)
                  (closed (case msg of Some n \<Rightarrow> out_effect (SayText acp_sid (ses_ver s) n) w | None \<Rightarrow> w)), [])))"

definition pending_with :: "(pending_perm \<Rightarrow> bool) \<Rightarrow> world \<Rightarrow> (string \<times> acp_session \<times> pending_perm) option" where
  "pending_with f w =
     find_map (\<lambda>(k, s). case ses_pending s of Some p \<Rightarrow> if f p then Some (k, s, p) else None | None \<Rightarrow> None) (w_sessions w)"

definition complete_permission :: "surroundings \<Rightarrow> nat \<Rightarrow> client_answer \<Rightarrow> world \<Rightarrow> done_work" where
  "complete_permission P req ans w =
     (case pending_with (\<lambda>p. pp_req p = Some req) w of
        None \<Rightarrow> (w, [])
      | Some (acp_sid, s, p) \<Rightarrow>
          if pp_feedback p \<noteq> None then (w, []) else settle_permission P acp_sid s p ans w)"

definition complete_permission_feedback :: "nat \<Rightarrow> client_answer \<Rightarrow> world \<Rightarrow> done_work" where
  "complete_permission_feedback req ans w =
     (case pending_with (\<lambda>p. case pp_feedback p of Some f \<Rightarrow> pg_req f = Some req | None \<Rightarrow> False) w of
        None \<Rightarrow> (w, [])
      | Some (acp_sid, s, p) \<Rightarrow>
          (case pp_feedback p of
             None \<Rightarrow> (w, [])
           | Some f \<Rightarrow>
               (upd_session acp_sid (\<lambda>s. s\<lparr>ses_pending := None\<rparr>) w,
                [DoDecide acp_sid (pp_sid p) (editor_decision p (ses_ver s) (pg_choice f)
                   (nonempty (Option.bind (accepted_form ans) (\<lambda>fs. form_text fs ''feedback''))) None)])))"

section \<open>Host events of user sessions\<close>

definition approval_resolved :: "J \<Rightarrow> world \<Rightarrow> done_work" where
  "approval_resolved params w =
     (let msp_sid = str_or params ''sessionId'' []; approval_id = str_or params ''approvalId'' [] in
      case owner_for_msp_session w msp_sid of
        None \<Rightarrow> (w, [])
      | Some (acp_sid, owner, child) \<Rightarrow>
          (let w1 = clear_approval_reviewing acp_sid msp_sid approval_id w;
               w2 = (if approval_id = [] then w1
                     else drop_queued_review acp_sid msp_sid approval_id
                       (upd_session acp_sid (\<lambda>s. s\<lparr>ses_resolved := (msp_sid, approval_id) # ses_resolved s,
                          ses_queue := filter (\<lambda>q. \<not> queued_for msp_sid approval_id q) (ses_queue s)\<rparr>) w1)) in
           case invalidate_pending_approval acp_sid (Some (msp_sid, approval_id)) False w2 of
             (hit, w3) \<Rightarrow>
               (w3, (if hit then [DoPop acp_sid] else []) @ [DoResume acp_sid])))"

definition resume_running :: "string \<Rightarrow> world \<Rightarrow> world" where
  "resume_running acp_sid w =
     (case hget (w_sessions w) acp_sid of
        Some s \<Rightarrow> if ses_ver s = 2 \<and> ses_in_flight s \<noteq> [] then out_effect (SendState acp_sid ''running'' None) w else w
      | None \<Rightarrow> w)"

definition review_row :: "surroundings \<Rightarrow> J \<Rightarrow> reviewing" where
  "review_row P params =
     (let (title, kind) = approval_title_kind (p_env P) params in
      \<lparr>rw_sid = str_or params ''sessionId'' [], rw_id = str_or params ''approvalId'' [], rw_turn = str_at params ''turnId'',
       rw_title = title, rw_kind = kind, rw_raw = non_empty_str params ''rawArgs''\<rparr>)"

text \<open>The rows after an approval under native review is reported, and whether that is news.\<close>

definition note_reviewing :: "reviewing \<Rightarrow> reviewing list \<Rightarrow> bool \<times> reviewing list" where
  "note_reviewing row rows =
     (case List.find (\<lambda>r. rw_sid r = rw_sid row \<and> rw_id r = rw_id row) rows of
        None \<Rightarrow> (True, rows @ [row])
      | Some old \<Rightarrow>
          (rw_turn old \<noteq> rw_turn row \<or> rw_title old \<noteq> rw_title row \<or> rw_kind old \<noteq> rw_kind row,
           takeWhile (\<lambda>r. \<not> (rw_sid r = rw_sid row \<and> rw_id r = rw_id row)) rows @
           [row\<lparr>rw_raw := or_else (rw_raw row) (rw_raw old)\<rparr>] @
           tl (dropWhile (\<lambda>r. \<not> (rw_sid r = rw_sid row \<and> rw_id r = rw_id row)) rows)))"

definition actionable :: "acp_session \<Rightarrow> string \<Rightarrow> string \<Rightarrow> bool" where
  "actionable s msp_sid approval_id \<longleftrightarrow>
     (case ses_pending s of Some p \<Rightarrow> pp_sid p = msp_sid \<and> pp_id p = approval_id | None \<Rightarrow> False) \<or>
     list_ex (queued_for msp_sid approval_id) (ses_queue s)"

definition observe_approval_reviewing :: "surroundings \<Rightarrow> J \<Rightarrow> world \<Rightarrow> world" where
  "observe_approval_reviewing P params w =
     (let msp_sid = str_or params ''sessionId'' []; approval_id = str_or params ''approvalId'' [] in
      case owner_for_msp_session w msp_sid of
        None \<Rightarrow> w
      | Some (acp_sid, owner, child) \<Rightarrow>
          if approval_id = [] then w
          else
            (let w1 = learn_resolved_approvals P acp_sid w in
             case hget (w_sessions w1) acp_sid of
               None \<Rightarrow> w1
             | Some s \<Rightarrow>
                 if (msp_sid, approval_id) \<in> set (ses_resolved s) \<or> actionable s msp_sid approval_id then w1
                 else
                   (case note_reviewing (review_row P params) (ses_reviewing s) of
                      (changed, rows) \<Rightarrow>
                        (let w2 = upd_session acp_sid (\<lambda>s. s\<lparr>ses_reviewing := rows\<rparr>) w1 in
                         if changed then out_effect (ShowReviewing acp_sid rows) w2 else w2))))"

text \<open>The event of a user session, by its method. An event delivered before is dropped.\<close>

definition user_event :: "surroundings \<Rightarrow> string \<Rightarrow> J \<Rightarrow> world \<Rightarrow> done_work" where
  "user_event P meth params w =
     (if meth = ''approval/requested'' \<or> meth = ''approval/updated'' then open_approval P params w
      else if meth = ''approval/reviewing'' then (observe_approval_reviewing P params w, [])
      else if meth = ''approval/resolved'' then approval_resolved params w
      else if meth = ''turn/started'' then (turn_started params w, [])
      else if meth = ''turn/completed'' then (turn_completed P params w, [])
      else if meth = ''turn/unqueued'' then (turn_unqueued params w, [])
      else if meth = ''turn/retracted'' then (turn_retracted P params w, [])
      else if meth = ''turn/foregroundCompleted'' then (foreground_completed P params w, [])
      else if meth = ''turn/modelRetryScheduled'' then (model_retry_scheduled P params w, [])
      else if meth = ''recap/completed'' then (recap_completed params w, [])
      else if meth = ''userInput/requested'' then (user_input_requested P params w, [])
      else if meth = ''userInput/settled'' then (user_input_settled params w, [])
      else if meth = ''item/started'' \<or> meth = ''item/updated'' then (item_seen P params w, [])
      else if meth = ''item/delta'' then (item_delta P params w, [])
      else if meth = ''item/completed'' then (item_completed P params w, [])
      else if meth = ''session/tokenUsage'' then (token_usage params w, [])
      else if meth = ''session/reasoningEffortChanged'' then (effort_changed params w, [])
      else if meth \<in> {''monitor/inboxItemAdmitted'', ''monitor/inboxItemDrained'', ''monitor/inboxItemVoided''}
      then (monitor_inbox P meth params w, [])
      else (w, []))"

definition handle_user_event :: "surroundings \<Rightarrow> string \<Rightarrow> J \<Rightarrow> world \<Rightarrow> done_work" where
  "handle_user_event P meth params w =
     (case track_cursor meth params w of (True, w1) \<Rightarrow> user_event P meth params w1 | (False, w1) \<Rightarrow> (w1, []))"

definition handle_host_event :: "surroundings \<Rightarrow> host_tag \<Rightarrow> string \<Rightarrow> J \<Rightarrow> world \<Rightarrow> done_work" where
  "handle_host_event P tag meth params w =
     (if \<not> is_current tag (w_hosts w) then (w, [])
      else
        (let w1 = w\<lparr>w_hosts := learn_event_owner tag params (w_hosts w)\<rparr> in
         case handle_review_event P meth params w1 of
           Some r \<Rightarrow> r | None \<Rightarrow> handle_user_event P meth params w1))"

text \<open>A request of a host. A request for user input goes on as an event.\<close>

definition handle_host_request :: "surroundings \<Rightarrow> host_tag \<Rightarrow> string \<Rightarrow> J \<Rightarrow> world \<Rightarrow> done_work" where
  "handle_host_request P tag meth params w =
     (if \<not> is_current tag (w_hosts w) then (w, [])
      else
        (let w1 = w\<lparr>w_hosts := learn_event_owner tag params (w_hosts w)\<rparr> in
         case handle_review_event P meth params w1 of
           Some r \<Rightarrow> r
         | None \<Rightarrow>
             if meth = ''approval/request'' then open_approval P params w1
             else if meth = ''userInput/request'' then handle_user_event P ''userInput/requested'' params w1
             else (w1, [])))"

section \<open>The loop\<close>

text \<open>What the loop wakes up for, and the thread of a transcript read. A session is lost when a restarted host cannot attach it again, all are
  when no host comes back.\<close>

datatype loop_event =
    HostSays host_tag string J
  | HostAsks host_tag string J
  | ReviewerExit host_tag
  | Request "nat option" editor_request
  | EditorSays nat client_answer
  | GuidanceSays nat client_answer
  | FormSays nat client_answer
  | FeedbackSays nat client_answer
  | Elapse nat
  | DeadlineCheck
  | SetAutoReview string bool
  | ChildRead string nat string string
  | SessionReattached string J
  | SessionLost string string
  | AllLost string

fun handle_loop :: "surroundings \<Rightarrow> loop_event \<Rightarrow> world \<Rightarrow> done_work" where
  "handle_loop P (HostSays tag meth params) w = handle_host_event P tag meth params w"
| "handle_loop P (HostAsks tag meth params) w = handle_host_request P tag meth params w"
| "handle_loop P (ReviewerExit tag) w =
     (if tag_kind tag = ReviewerHost \<and> is_current tag (w_hosts w) then reviewer_closed w else (w, []))"
| "handle_loop P (Request req r) w = (handle_request P req r w, [])"
| "handle_loop P (EditorSays req ans) w = complete_permission P req ans w"
| "handle_loop P (GuidanceSays req ans) w = complete_permission_feedback req ans w"
| "handle_loop P (FormSays req ans) w = (complete_elicitation P req ans w, [])"
| "handle_loop P (FeedbackSays req ans) w = (complete_feedback P req ans w, [])"
| "handle_loop P (Elapse t) w = (w\<lparr>w_now := w_now w + t\<rparr>, [])"
| "handle_loop P DeadlineCheck w = expire_review_deadline w"
| "handle_loop P (SetAutoReview sid b) w = (upd_session sid (\<lambda>s. s\<lparr>ses_auto_review := b\<rparr>) w, [])"
| "handle_loop P (ChildRead sid ver child target) w = (read_child P sid ver child target w, [])"
| "handle_loop P (SessionReattached sid r) w = (reattached_turns P sid r w, [])"
| "handle_loop P (SessionLost sid msg) w = (abandon_session_work P sid msg w, [])"
| "handle_loop P (AllLost msg) w = (fail_all_with_message P msg w, [])"

section \<open>Running the tasks\<close>

fun do_task :: "surroundings \<Rightarrow> task \<Rightarrow> world \<Rightarrow> done_work" where
  "do_task P (DoOpen params) w = open_approval P params w"
| "do_task P (DoPop sid) w = pop_queued_approval sid w"
| "do_task P (DoDecide sid approval_sid d) w = send_permission_decision P sid approval_sid d w"
| "do_task P DoStart w = start_next_review P w"
| "do_task P (DoDeny job kind rationale) w = deny_review_job P job kind rationale w"
| "do_task P DoReset w = (reset_reviewer_host w, [])"
| "do_task P (DoResume sid) w = (resume_running sid w, [])"

end
