(* ===== verification/Frames.thy ===== *)
theory Frames
  imports Permissions "HOL-Library.Multiset"
begin

text \<open>
  What the operations of the loop leave alone. The approval flow depends on the permissions, queues and seen
  approvals of the sessions, the review state and the decisions sent; the ledger of prompts depends on what
  the sessions hold for the editor and the responses sent. An operation that changes neither is quiet.
\<close>

section \<open>Two views of a world\<close>

named_theorems calm
named_theorems still

type_synonym session_view = "pending_perm option \<times> J list \<times> (string \<times> string \<times> string) list"

definition sview :: "acp_session \<Rightarrow> session_view" where
  "sview s = (map_option (\<lambda>p. p\<lparr>pp_title := []\<rparr>) (ses_pending s), ses_queue s, ses_seen s)"

definition sviews :: "world \<Rightarrow> session_view hmap" where
  "sviews w = map (map_prod id sview) (w_sessions w)"

definition decides :: "world \<Rightarrow> (string \<times> string \<times> permission_decision) list" where
  "decides w = List.map_filter (\<lambda>e. case e of Decide a s d \<Rightarrow> Some (a, s, d) | _ \<Rightarrow> None) (w_out w)"

definition same_flow :: "world \<Rightarrow> world \<Rightarrow> bool" where
  "same_flow w w' \<longleftrightarrow> sviews w' = sviews w \<and> decides w' = decides w \<and> w_review w' = w_review w \<and> w_now w' = w_now w"

text \<open>What a session holds: its protocol version, the turns and requests of its flights, its recap, the prompt of its form.\<close>

type_synonym turn_view = "nat \<times> (string \<times> nat option) list \<times> pending_recap option \<times> (nat option \<times> nat) option"

definition fview :: "flight \<Rightarrow> string \<times> nat option" where
  "fview f = (if_turn f, if_req f)"

definition tview :: "acp_session \<Rightarrow> turn_view" where
  "tview s = (ses_ver s, map fview (ses_flights s), ses_recap s, map_option (\<lambda>f. (ff_prompt f, ff_ver f)) (ses_form s))"

definition tviews :: "world \<Rightarrow> turn_view hmap" where
  "tviews w = map (map_prod id tview) (w_sessions w)"

definition answers :: "world \<Rightarrow> nat list" where
  "answers w = List.map_filter (\<lambda>e. case e of Respond n r \<Rightarrow> Some n | _ \<Rightarrow> None) (w_out w)"

definition same_books :: "world \<Rightarrow> world \<Rightarrow> bool" where
  "same_books w w' \<longleftrightarrow> tviews w' = tviews w \<and> answers w' = answers w"

definition quiet :: "world \<Rightarrow> world \<Rightarrow> bool" where
  "quiet w w' \<longleftrightarrow> same_flow w w' \<and> same_books w w'"

lemma same_flowD:
  "same_flow w w' \<Longrightarrow> sviews w' = sviews w" "same_flow w w' \<Longrightarrow> decides w' = decides w"
  "same_flow w w' \<Longrightarrow> w_review w' = w_review w" "same_flow w w' \<Longrightarrow> w_now w' = w_now w"
  by (simp_all add: same_flow_def)

lemma quietD: "quiet w w' \<Longrightarrow> same_flow w w'" "quiet w w' \<Longrightarrow> same_books w w'"
  by (simp_all add: quiet_def)

lemma same_refl [calm]: "same_flow w w" "same_books w w" "quiet w w"
  by (simp_all add: same_flow_def same_books_def quiet_def)

lemma same_trans: "same_flow w1 w2 \<Longrightarrow> same_flow w2 w3 \<Longrightarrow> same_flow w1 w3"
  by (simp add: same_flow_def)

lemma books_trans: "same_books w1 w2 \<Longrightarrow> same_books w2 w3 \<Longrightarrow> same_books w1 w3"
  by (simp add: same_books_def)

lemma quiet_trans: "quiet w1 w2 \<Longrightarrow> quiet w2 w3 \<Longrightarrow> quiet w1 w3"
  unfolding quiet_def by (blast intro: same_trans books_trans)

section \<open>Association lists and small steps\<close>

lemma hget_map: "hget (map (map_prod id f) m) k = map_option f (hget m k)"
  by (induction m) auto

lemma hput_map: "map (map_prod id f) (hput k v m) = hput k (f v) (map (map_prod id f) m)"
  by (induction m) auto

lemma hput_same: "hget m k = Some v \<Longrightarrow> hput k v m = m"
  by (induction m) (auto split: if_splits)

lemma hput_keys: "hget m k = Some v \<Longrightarrow> map fst (hput k v' m) = map fst m"
  by (induction m) (auto split: if_splits)

lemma hget_sviews: "hget (sviews w) sid = map_option sview (hget (w_sessions w) sid)"
  by (simp add: sviews_def hget_map)

lemma hget_tviews: "hget (tviews w) sid = map_option tview (hget (w_sessions w) sid)"
  by (simp add: tviews_def hget_map)

lemma sviews_keys: "map fst (sviews w) = map fst (w_sessions w)"
  by (simp add: sviews_def)

lemma sviews_upd: "hget (w_sessions w) sid = Some s \<Longrightarrow> sviews (upd_session sid f w) = hput sid (sview (f s)) (sviews w)"
  by (simp add: upd_session_def sviews_def hput_map)

lemma tviews_upd: "hget (w_sessions w) sid = Some s \<Longrightarrow> tviews (upd_session sid f w) = hput sid (tview (f s)) (tviews w)"
  by (simp add: upd_session_def tviews_def hput_map)

lemma sviews_upd_none: "hget (w_sessions w) sid = None \<Longrightarrow> upd_session sid f w = w"
  by (simp add: upd_session_def)

lemma out_cong: "w_out w' = w_out w \<Longrightarrow> decides w' = decides w" "w_out w' = w_out w \<Longrightarrow> answers w' = answers w"
  by (simp_all only: decides_def answers_def)

lemma views_cong: "w_sessions w' = w_sessions w \<Longrightarrow> sviews w' = sviews w" "w_sessions w' = w_sessions w \<Longrightarrow> tviews w' = tviews w"
  by (simp_all only: sviews_def tviews_def)

lemma upd_session_frame [simp]:
  "decides (upd_session sid f w) = decides w" "answers (upd_session sid f w) = answers w"
  "w_review (upd_session sid f w) = w_review w"
  "w_hosts (upd_session sid f w) = w_hosts w" "w_now (upd_session sid f w) = w_now w"
  "w_calls (upd_session sid f w) = w_calls w" "w_out (upd_session sid f w) = w_out w" "w_asks (upd_session sid f w) = w_asks w"
  by (auto simp: upd_session_def split: option.split intro!: out_cong)

lemma upd_review_frame [simp]:
  "decides (upd_review f w) = decides w" "answers (upd_review f w) = answers w"
  "w_review (upd_review f w) = f (w_review w)" "sviews (upd_review f w) = sviews w" "tviews (upd_review f w) = tviews w"
  "w_sessions (upd_review f w) = w_sessions w" "w_hosts (upd_review f w) = w_hosts w" "w_now (upd_review f w) = w_now w"
  "w_calls (upd_review f w) = w_calls w" "w_out (upd_review f w) = w_out w"
  by (auto simp: upd_review_def intro!: out_cong views_cong)

lemma out_frame [simp]:
  "w_review (out_effect e w) = w_review w" "sviews (out_effect e w) = sviews w" "tviews (out_effect e w) = tviews w"
  "w_sessions (out_effect e w) = w_sessions w"
  "w_hosts (out_effect e w) = w_hosts w" "w_now (out_effect e w) = w_now w" "w_calls (out_effect e w) = w_calls w"
  "w_out (out_effect e w) = w_out w @ [e]" "w_asks (out_effect e w) = w_asks w"
  by (auto simp: out_effect_def intro!: views_cong)

lemma map_filter_snoc: "List.map_filter f (xs @ [x]) = List.map_filter f xs @ (case f x of Some y \<Rightarrow> [y] | None \<Rightarrow> [])"
  by (simp add: List.map_filter_def split: option.split)

lemma decides_out: "decides (out_effect e w) = decides w @ (case e of Decide a s d \<Rightarrow> [(a, s, d)] | _ \<Rightarrow> [])"
  by (cases e) (simp_all add: decides_def out_effect_def map_filter_snoc)

lemma answers_out: "answers (out_effect e w) = answers w @ (case e of Respond n r \<Rightarrow> [n] | _ \<Rightarrow> [])"
  by (cases e) (simp_all add: answers_def out_effect_def map_filter_snoc)

lemma field_frame [simp]:
  "decides (w\<lparr>w_hosts := h\<rparr>) = decides w" "sviews (w\<lparr>w_hosts := h\<rparr>) = sviews w"
  "decides (w\<lparr>w_calls := n\<rparr>) = decides w" "sviews (w\<lparr>w_calls := n\<rparr>) = sviews w"
  "decides (w\<lparr>w_asks := n\<rparr>) = decides w" "sviews (w\<lparr>w_asks := n\<rparr>) = sviews w"
  "decides (w\<lparr>w_now := n\<rparr>) = decides w" "sviews (w\<lparr>w_now := n\<rparr>) = sviews w"
  "decides (w\<lparr>w_messages := n\<rparr>) = decides w" "sviews (w\<lparr>w_messages := n\<rparr>) = sviews w"
  "decides (w\<lparr>w_report_ids := is\<rparr>) = decides w" "sviews (w\<lparr>w_report_ids := is\<rparr>) = sviews w"
  "decides (w\<lparr>w_hosts := h, w_calls := n\<rparr>) = decides w" "sviews (w\<lparr>w_hosts := h, w_calls := n\<rparr>) = sviews w"
  "answers (w\<lparr>w_hosts := h\<rparr>) = answers w" "tviews (w\<lparr>w_hosts := h\<rparr>) = tviews w"
  "answers (w\<lparr>w_calls := n\<rparr>) = answers w" "tviews (w\<lparr>w_calls := n\<rparr>) = tviews w"
  "answers (w\<lparr>w_asks := n\<rparr>) = answers w" "tviews (w\<lparr>w_asks := n\<rparr>) = tviews w"
  "answers (w\<lparr>w_now := n\<rparr>) = answers w" "tviews (w\<lparr>w_now := n\<rparr>) = tviews w"
  "answers (w\<lparr>w_messages := n\<rparr>) = answers w" "tviews (w\<lparr>w_messages := n\<rparr>) = tviews w"
  "answers (w\<lparr>w_report_ids := is\<rparr>) = answers w" "tviews (w\<lparr>w_report_ids := is\<rparr>) = tviews w"
  "answers (w\<lparr>w_hosts := h, w_calls := n\<rparr>) = answers w" "tviews (w\<lparr>w_hosts := h, w_calls := n\<rparr>) = tviews w"
  by (auto intro!: out_cong views_cong)

text \<open>Effects other than decisions and responses.\<close>

definition no_decide :: "effect \<Rightarrow> bool" where
  "no_decide e \<longleftrightarrow> (case e of Decide a s d \<Rightarrow> False | _ \<Rightarrow> True)"

definition plain_effect :: "effect \<Rightarrow> bool" where
  "plain_effect e \<longleftrightarrow> (case e of Decide a s d \<Rightarrow> False | Respond n r \<Rightarrow> False | _ \<Rightarrow> True)"

lemma plain_effect_simps [simp]:
  "plain_effect (Command k g m ps)" "plain_effect (AskPermission n a v t c os)" "plain_effect (AskGuidance n a v)"
  "plain_effect (AskForm n a tc m f)" "plain_effect (Withdraw n)" "plain_effect (SayText a v t)" "plain_effect (SendState a t st)"
  "plain_effect (ShowReviewing a rs)" "plain_effect (Retitle a c)" "plain_effect (StopReviewer n)" "plain_effect (FoldLine a x)"
  "plain_effect (Notify x)" "plain_effect (ReadChild a v child t)"
  by (simp_all add: plain_effect_def)

lemma no_decide_simps [simp]: "plain_effect e \<Longrightarrow> no_decide e" "no_decide (Respond n r)"
  by (simp_all add: plain_effect_def no_decide_def split: effect.splits)

lemma flow_out [calm]: "no_decide e \<Longrightarrow> same_flow w w' \<Longrightarrow> same_flow w (out_effect e w')"
  by (cases e) (simp_all add: same_flow_def decides_out no_decide_def)

lemma quiet_out [calm]: "plain_effect e \<Longrightarrow> quiet w w' \<Longrightarrow> quiet w (out_effect e w')"
  by (cases e) (simp_all add: quiet_def same_flow_def same_books_def decides_out answers_out plain_effect_def)

lemma books_out [calm]: "plain_effect e \<Longrightarrow> same_books w w' \<Longrightarrow> same_books w (out_effect e w')"
  by (cases e) (simp_all add: same_books_def answers_out plain_effect_def)

lemma books_decide [calm]: "same_books w w' \<Longrightarrow> same_books w (out_effect (Decide a s d) w')"
  by (simp add: same_books_def answers_out)

lemma books_review [calm]: "same_books w w' \<Longrightarrow> same_books w (upd_review f w')"
  by (simp add: same_books_def)

lemma same_fields [calm]:
  "same_flow w w' \<Longrightarrow> same_flow w (w'\<lparr>w_hosts := h\<rparr>)" "same_flow w w' \<Longrightarrow> same_flow w (w'\<lparr>w_asks := n\<rparr>)"
  "same_flow w w' \<Longrightarrow> same_flow w (w'\<lparr>w_messages := n\<rparr>)" "same_flow w w' \<Longrightarrow> same_flow w (w'\<lparr>w_report_ids := is\<rparr>)"
  "same_books w w' \<Longrightarrow> same_books w (w'\<lparr>w_hosts := h\<rparr>)" "same_books w w' \<Longrightarrow> same_books w (w'\<lparr>w_asks := n\<rparr>)"
  "same_books w w' \<Longrightarrow> same_books w (w'\<lparr>w_messages := n\<rparr>)" "same_books w w' \<Longrightarrow> same_books w (w'\<lparr>w_report_ids := is\<rparr>)"
  "same_books w w' \<Longrightarrow> same_books w (w'\<lparr>w_now := t\<rparr>)"
  "quiet w w' \<Longrightarrow> quiet w (w'\<lparr>w_hosts := h\<rparr>)" "quiet w w' \<Longrightarrow> quiet w (w'\<lparr>w_asks := n\<rparr>)"
  "quiet w w' \<Longrightarrow> quiet w (w'\<lparr>w_messages := n\<rparr>)" "quiet w w' \<Longrightarrow> quiet w (w'\<lparr>w_report_ids := is\<rparr>)"
  by (simp_all add: quiet_def same_flow_def same_books_def)

lemma same_upd:
  assumes "same_flow w w'" "\<And>s. hget (w_sessions w') sid = Some s \<Longrightarrow> sview (f s) = sview s"
  shows "same_flow w (upd_session sid f w')"
proof (cases "hget (w_sessions w') sid")
  case None
  then show ?thesis using assms(1) by (simp add: sviews_upd_none)
next
  case (Some s)
  then have "sviews (upd_session sid f w') = sviews w'"
    by (simp add: sviews_upd assms(2) hput_same hget_sviews)
  with assms(1) show ?thesis by (simp add: same_flow_def)
qed

lemma books_upd:
  assumes "same_books w w'" "\<And>s. hget (w_sessions w') sid = Some s \<Longrightarrow> tview (f s) = tview s"
  shows "same_books w (upd_session sid f w')"
proof (cases "hget (w_sessions w') sid")
  case None
  then show ?thesis using assms(1) by (simp add: sviews_upd_none)
next
  case (Some s)
  then have "tviews (upd_session sid f w') = tviews w'"
    by (simp add: tviews_upd assms(2) hput_same hget_tviews)
  with assms(1) show ?thesis by (simp add: same_books_def)
qed

lemma quiet_upd:
  assumes "quiet w w'" "\<And>s. hget (w_sessions w') sid = Some s \<Longrightarrow> sview (f s) = sview s \<and> tview (f s) = tview s"
  shows "quiet w (upd_session sid f w')"
  using assms by (auto simp: quiet_def intro: same_upd books_upd)

section \<open>Commands and notices\<close>

lemma fold_keeps:
  assumes "\<And>x w w'. Q w w' \<Longrightarrow> Q w (g x w')" "Q w w'"
  shows "Q w (fold g xs w')"
  using assms(2) by (induction xs arbitrary: w') (simp_all add: assms(1))

lemma foldl_keeps:
  assumes "\<And>x w w'. Q w w' \<Longrightarrow> Q w (g w' x)" "Q w w'"
  shows "Q w (foldl g w' xs)"
  using assms(2) by (induction xs arbitrary: w') (simp_all add: assms(1))

lemma quiet_command [calm, still]: "quiet w w' \<Longrightarrow> quiet w (snd (process_command P k g meth params w'))"
  by (simp add: process_command_def quiet_def same_flow_def same_books_def decides_out answers_out)

lemma quiet_routed [calm, still]: "quiet w w' \<Longrightarrow> quiet w (snd (routed_command P meth params ans w'))"
  by (simp add: routed_command_def quiet_def same_flow_def same_books_def decides_out answers_out split: prod.split sum.split)

lemma quiet_host [calm, still]: "quiet w w' \<Longrightarrow> quiet w (snd (host_command P meth params w'))"
  unfolding host_command_def by (rule quiet_routed)

lemma same_command: "same_flow w (snd (process_command P k g meth params w))"
  by (intro quietD calm)

lemma same_host_command: "same_flow w (snd (host_command P meth params w))"
  by (intro quietD calm)

lemma quiet_send [calm, still]:
  "quiet w w' \<Longrightarrow> quiet w (send_state sid st stop w')" "quiet w w' \<Longrightarrow> quiet w (send_agent_text sid ver t w')"
  "quiet w w' \<Longrightarrow> quiet w (send_cancel_request r w')"
  unfolding send_state_def send_agent_text_def send_cancel_request_def by (auto split: option.split intro!: calm)

lemma quiet_out_all: "list_all plain_effect es \<Longrightarrow> quiet w w' \<Longrightarrow> quiet w (out_all es w')"
  unfolding out_all_def by (induction es arbitrary: w') (simp_all add: calm)

lemma quiet_lines [calm, still]: "quiet w w' \<Longrightarrow> quiet w (out_all (map (FoldLine sid) ns) w')"
  by (rule quiet_out_all) (simp add: list_all_iff)

lemma quiet_message [calm, still]: "quiet w w' \<Longrightarrow> quiet w (send_user_message P sid content w')"
  unfolding send_user_message_def by (rule quiet_out_all) (simp_all add: list_all_iff calm)

lemma quiet_notice [calm, still]:
  "quiet w w' \<Longrightarrow> quiet w (send_one_shot_notice P sid ver severity title description fallback w')"
  "quiet w w' \<Longrightarrow> quiet w (send_file_report sid ver report unavailable w')"
  unfolding send_one_shot_notice_def send_file_report_def by (auto split: option.split intro!: calm)

lemma quiet_fold_lines [calm, still]: "quiet w w' \<Longrightarrow> quiet w (fold_lines sid h w')"
  unfolding fold_lines_def by (auto split: option.split intro!: calm quiet_upd simp: sview_def tview_def)

lemma quiet_ask [calm, still]: "quiet w w' \<Longrightarrow> quiet w (snd (send_elicitation_form P sid tc msg f w'))"
  unfolding send_elicitation_form_def Let_def by (auto intro!: calm)

text \<open>Updates of a session that neither view shows.\<close>

definition hidden_upd :: "(acp_session \<Rightarrow> acp_session) \<Rightarrow> bool" where
  "hidden_upd f \<longleftrightarrow> (\<forall>s. sview (f s) = sview s \<and> tview (f s) = tview s)"

lemma quiet_hidden [calm]: "hidden_upd f \<Longrightarrow> quiet w w' \<Longrightarrow> quiet w (upd_session sid f w')"
  by (rule quiet_upd) (simp_all add: hidden_upd_def)

lemma upd_flight_view [simp]: "(\<And>f. fview (g f) = fview f) \<Longrightarrow> map fview (upd_flight turn g fs) = map fview fs"
  by (induction fs) simp_all

lemma fview_upd [simp]:
  "fview (f\<lparr>if_queued := b\<rparr>) = fview f" "fview (f\<lparr>if_report := r\<rparr>) = fview f" "fview (f\<lparr>if_declined := d\<rparr>) = fview f"
  by (simp_all add: fview_def)

section \<open>Quiet operations of approvals\<close>

lemma quiet_walk [calm, still]: "quiet w w' \<Longrightarrow> quiet w (snd (snd (resolved_walk P sid pages c req res w')))"
proof (induction pages arbitrary: c req res w')
  case (Cons ans pages)
  show ?case unfolding resolved_walk.simps case_prod_beta
    by (auto simp: Let_def split: sum.split option.split J.split intro!: calm Cons)
qed simp

lemma quiet_learn [calm, still]: "quiet w w' \<Longrightarrow> quiet w (learn_resolved_approvals P sid w')"
  unfolding learn_resolved_approvals_def case_prod_beta Let_def
  by (auto split: option.split intro!: calm simp: hidden_upd_def sview_def tview_def)

lemma quiet_clear [calm, still]:
  "quiet w w' \<Longrightarrow> quiet w (clear_approval_reviewing sid a b w')" "quiet w w' \<Longrightarrow> quiet w (clear_turn_approval_reviewing sid a w')"
  unfolding clear_approval_reviewing_def clear_turn_approval_reviewing_def Let_def
  by (auto split: option.split intro!: calm simp: hidden_upd_def sview_def tview_def)

lemma quiet_cancel_turns [calm, still]: "quiet w w' \<Longrightarrow> quiet w (cancel_session_turns P sid w')"
  unfolding cancel_session_turns_def case_prod_beta by (auto split: option.split intro!: calm foldl_keeps [where Q = quiet])

lemma quiet_fail_closed [calm, still]: "quiet w w' \<Longrightarrow> quiet w (fail_closed_owner_work P sid owner child w')"
  unfolding fail_closed_owner_work_def by (auto split: option.split intro!: calm)

lemma quiet_say [calm, still]:
  "quiet w w' \<Longrightarrow> quiet w (say_notice sid d w')" "quiet w w' \<Longrightarrow> quiet w (report_approval_failure sid v i b w')"
  unfolding say_notice_def report_approval_failure_def by (auto split: option.split intro!: calm)

lemma quiet_retitle [calm, still]: "quiet w w' \<Longrightarrow> quiet w (retitle_editor_permission sid a b params w')"
  unfolding retitle_editor_permission_def
  by (auto split: option.split prod.split intro!: calm quiet_upd simp: bind_eq_Some_conv sview_def tview_def)

lemma quiet_args [calm, still]: "quiet w w' \<Longrightarrow> quiet w (snd (with_editor_approval_args P sid params w'))"
  unfolding with_editor_approval_args_def Let_def case_prod_beta
  by (auto split: option.split sum.split intro!: calm)

lemma quiet_observe [calm, still]: "quiet w w' \<Longrightarrow> quiet w (observe_approval_reviewing P params w')"
  unfolding observe_approval_reviewing_def Let_def
  by (auto split: option.split prod.split intro!: calm simp: hidden_upd_def sview_def tview_def)

lemma quiet_deny_reviewer [calm, still]: "quiet w w' \<Longrightarrow> quiet w (deny_reviewer_approval P sid params w')"
  unfolding deny_reviewer_approval_def by (auto split: option.split intro!: calm)

lemma quiet_resume [calm, still]: "quiet w w' \<Longrightarrow> quiet w (resume_running sid w')"
  unfolding resume_running_def by (auto split: option.split intro!: calm)

section \<open>Quiet operations of turns, questions and requests\<close>

lemma quiet_turn_started [calm, still]: "quiet w w' \<Longrightarrow> quiet w (turn_started params w')"
  unfolding turn_started_def Let_def by (auto split: option.split intro!: calm simp: hidden_upd_def sview_def tview_def)

lemma quiet_declined [calm, still]: "quiet w w' \<Longrightarrow> quiet w (retract_declined P sid turn w')"
  unfolding retract_declined_def Let_def by (auto split: option.split intro!: calm simp: hidden_upd_def sview_def tview_def)

lemma quiet_observe_file [calm, still]: "quiet w w' \<Longrightarrow> quiet w (observe_file_change sid item w')"
  unfolding observe_file_change_def by (auto split: option.split intro!: calm simp: hidden_upd_def sview_def tview_def)

lemma begin_view: "sview (snd (snd (begin_drill_down P child s))) = sview s" "tview (snd (snd (begin_drill_down P child s))) = tview s"
  by (simp_all add: begin_drill_down_def case_prod_beta Let_def sview_def tview_def)

lemma quiet_drill [calm, still]: "quiet w w' \<Longrightarrow> quiet w (drill_down_subagent_child P sid item w')"
  unfolding drill_down_subagent_child_def case_prod_beta Let_def
  by (auto split: option.split intro!: calm quiet_upd simp: begin_view)

lemma replay_view: "sview (snd (replay_child P ver child target read s)) = sview s" "tview (snd (replay_child P ver child target read s)) = tview s"
  by (simp_all add: replay_child_def case_prod_beta Let_def sview_def tview_def)

lemma quiet_read_child [calm, still]: "quiet w w' \<Longrightarrow> quiet w (read_child P sid ver child target w')"
  unfolding read_child_def case_prod_beta Let_def
  by (auto split: option.split intro!: calm simp: hidden_upd_def replay_view)

lemma quiet_patch [calm, still]: "quiet w w' \<Longrightarrow> quiet w (snd (read_patch P msp_sid ref pieces body w'))"
proof (induction pieces arbitrary: body w')
  case (Cons ans pieces)
  show ?case unfolding read_patch.simps case_prod_beta by (auto split: sum.split piece.split intro!: calm Cons)
qed simp

lemma quiet_tool_patch [calm, still]: "quiet w w' \<Longrightarrow> quiet w (snd (tool_patch_diff P msp_sid item w'))"
  unfolding tool_patch_diff_def case_prod_beta by (auto split: option.split sum.split intro!: calm)

lemma quiet_items [calm, still]:
  "quiet w w' \<Longrightarrow> quiet w (item_seen P params w')" "quiet w w' \<Longrightarrow> quiet w (item_delta P params w')"
  "quiet w w' \<Longrightarrow> quiet w (item_completed P params w')" "quiet w w' \<Longrightarrow> quiet w (token_usage params w')"
  unfolding item_seen_def item_delta_def item_completed_def token_usage_def case_prod_beta Let_def
  by (auto split: option.split intro!: calm simp: hidden_upd_def sview_def tview_def)

lemma quiet_running [calm, still]: "quiet w w' \<Longrightarrow> quiet w (running_turn_lines h params w')"
  unfolding running_turn_lines_def by (auto split: option.split intro!: calm)

lemma quiet_facts [calm, still]:
  "quiet w w' \<Longrightarrow> quiet w (foreground_completed P params w')" "quiet w w' \<Longrightarrow> quiet w (model_retry_scheduled P params w')"
  "quiet w w' \<Longrightarrow> quiet w (monitor_inbox P meth params w')" "quiet w w' \<Longrightarrow> quiet w (effort_changed params w')"
  unfolding foreground_completed_def model_retry_scheduled_def monitor_inbox_def effort_changed_def Let_def
  by (auto split: option.split intro!: calm simp: hidden_upd_def sview_def tview_def)

lemma follow_view: "sview (snd (follow_cursor meth cursor s)) = sview s" "tview (snd (follow_cursor meth cursor s)) = tview s"
  by (simp_all add: follow_cursor_def Let_def sview_def tview_def)

lemma quiet_track [calm, still]: "quiet w w' \<Longrightarrow> quiet w (snd (track_cursor meth params w'))"
  unfolding track_cursor_def Let_def by (auto split: option.split intro!: calm simp: hidden_upd_def follow_view)

lemma quiet_question [calm, still]: "quiet w w' \<Longrightarrow> quiet w (upd_question sid i g w')"
  unfolding upd_question_def by (auto intro!: calm simp: hidden_upd_def sview_def tview_def)

lemma quiet_show_ui [calm, still]:
  "quiet w w' \<Longrightarrow> quiet w (show_pending_ui P sid i msg f confirmed k w')"
  unfolding show_pending_ui_def case_prod_beta
  by (auto split: option.split intro!: calm simp: upd_question_def hidden_upd_def sview_def tview_def)

lemma quiet_ask_ui [calm, still]:
  "quiet w w' \<Longrightarrow> quiet w (reissue_pending_ui P sid i msg f w')"
  "quiet w w' \<Longrightarrow> quiet w (ask_next_ui_question P sid i qs k confirmed w')"
  "quiet w w' \<Longrightarrow> quiet w (remove_pending_ui sid req w')" "quiet w w' \<Longrightarrow> quiet w (see_ui sid x w')"
  unfolding reissue_pending_ui_def ask_next_ui_question_def remove_pending_ui_def see_ui_def
  by (auto split: option.split intro!: calm simp: hidden_upd_def sview_def tview_def)

lemma quiet_open_ui [calm, still]: "quiet w w' \<Longrightarrow> quiet w (open_ui P sid q w')"
  unfolding open_ui_def case_prod_beta Let_def
  by (auto split: option.split intro!: calm simp: hidden_upd_def sview_def tview_def)

lemma quiet_bridge [calm, still]: "quiet w w' \<Longrightarrow> quiet w (snd (bridge_user_input P sid owner params w'))"
  unfolding bridge_user_input_def Let_def by (auto split: option.split J.split intro!: calm)

lemma quiet_input [calm, still]:
  "quiet w w' \<Longrightarrow> quiet w (cancel_user_input P owner i w')" "quiet w w' \<Longrightarrow> quiet w (user_input_requested P params w')"
  "quiet w w' \<Longrightarrow> quiet w (user_input_settled params w')"
  unfolding cancel_user_input_def user_input_requested_def user_input_settled_def case_prod_beta Let_def
  by (auto split: option.split bool.split intro!: calm simp: hidden_upd_def sview_def tview_def)

lemma quiet_answers [calm, still]:
  "quiet w w' \<Longrightarrow> quiet w (decline_ui P sid req q w')" "quiet w w' \<Longrightarrow> quiet w (ui_answered sid req w')"
  unfolding decline_ui_def ui_answered_def Let_def by (auto split: option.split intro!: calm)

lemma quiet_submit_ui:
  assumes again: "\<And>x w w'. quiet w w' \<Longrightarrow> quiet w (again x w')" and "quiet w w'"
  shows "quiet w (submit_ui P sid req i again meth params refused w')"
  unfolding submit_ui_def case_prod_beta using assms(2) by (auto split: sum.split intro!: calm again)

lemma quiet_ui_steps:
  assumes again: "\<And>x w w'. quiet w w' \<Longrightarrow> quiet w (again x w')" and "quiet w w'"
  shows "quiet w (clarify_ui P sid req i q again fs w')" "quiet w (answer_ui P sid req i q again fs w')"
  unfolding clarify_ui_def answer_ui_def Let_def using assms(2)
  by (auto split: option.split intro!: calm again quiet_submit_ui)

lemma quiet_elicitation [calm, still]: "quiet w w' \<Longrightarrow> quiet w (complete_elicitation P req ans w')"
  unfolding complete_elicitation_def Let_def by (auto split: option.split sum.split bool.split intro!: calm quiet_ui_steps)

lemma quiet_turn_command [calm, still]: "quiet w w' \<Longrightarrow> quiet w (snd (turn_command P m meth params w'))"
  unfolding turn_command_def take_drive_def case_prod_beta by (auto split: sum.split drive_status.split intro!: calm)

lemma quiet_cua [calm, still]: "quiet w w' \<Longrightarrow> quiet w (snd (cua_calls P cs rs w'))"
proof (induction cs arbitrary: rs w')
  case (Cons x cs)
  show ?case by (cases x) (auto simp: case_prod_beta split: sum.split intro!: calm Cons)
qed simp

lemma quiet_replay [calm, still]: "quiet w w' \<Longrightarrow> quiet w (replay_calls P cs w')"
  unfolding replay_calls_def case_prod_beta by (auto intro!: fold_keeps [where Q = quiet] calm)

lemma quiet_read_prompt [calm, still]: "quiet w w' \<Longrightarrow> quiet w (snd (read_prompt P s bs w'))"
  unfolding read_prompt_def case_prod_beta by (auto intro!: calm)

lemma quiet_interrupts [calm, still]:
  "quiet w w' \<Longrightarrow> quiet w (stop_all_background_tasks P sid w')" "quiet w w' \<Longrightarrow> quiet w (interrupt_turns P sid stopped w')"
  "quiet w w' \<Longrightarrow> quiet w (cancel_pending P req w')"
  unfolding stop_all_background_tasks_def interrupt_turns_def cancel_pending_def case_prod_beta
  by (auto split: option.split intro!: calm foldl_keeps [where Q = quiet])

lemma quiet_interrupt_questions [calm, still]: "quiet w w' \<Longrightarrow> quiet w (snd (interrupt_questions P qs stopped w'))"
proof (induction qs arbitrary: stopped w')
  case (Cons q qs)
  show ?case by (auto simp: case_prod_beta split: sum.split intro!: calm Cons)
qed simp

lemma quiet_withdraw [calm, still]:
  "quiet w w' \<Longrightarrow> quiet w (withdraw_questions s w')" "quiet w w' \<Longrightarrow> quiet w (withdraw_permission s w')"
  unfolding withdraw_questions_def withdraw_permission_def
  by (auto split: option.split intro!: calm fold_keeps [where Q = quiet])

lemma quiet_leave [calm, still]: "quiet w w' \<Longrightarrow> quiet w (leave_session P m w')"
  unfolding leave_session_def by (auto intro!: calm)

section \<open>Each view on its own\<close>

lemmas flow_still [calm] = still [OF same_refl(3), THEN quietD(1), THEN [2] same_trans]
lemmas books_still [calm] = still [OF same_refl(3), THEN quietD(2), THEN [2] books_trans]

lemma same_hidden [calm]:
  "(\<And>s. sview (f s) = sview s) \<Longrightarrow> same_flow w w' \<Longrightarrow> same_flow w (upd_session sid f w')"
  "(\<And>s. tview (f s) = tview s) \<Longrightarrow> same_books w w' \<Longrightarrow> same_books w (upd_session sid f w')"
  by (simp_all add: same_upd books_upd)

lemma flow_respond [calm]:
  "same_flow w w' \<Longrightarrow> same_flow w (respond req r w')" "same_flow w w' \<Longrightarrow> same_flow w (send_prompt_stop req stop usage w')"
  "same_flow w w' \<Longrightarrow> same_flow w (send_error req code msg w')" "same_flow w w' \<Longrightarrow> same_flow w (send_host_error req e code msg w')"
  "same_flow w w' \<Longrightarrow> same_flow w (cancel_v2_prompt_before_insertion req w')"
  "same_flow w w' \<Longrightarrow> same_flow w (accept_v2_prompt P req sid content w')"
  unfolding accept_v2_prompt_def cancel_v2_prompt_before_insertion_def send_prompt_stop_def send_error_def send_host_error_def respond_def
  by (auto split: option.split intro!: calm)

text \<open>Operations that settle prompts leave the approval flow alone.\<close>

lemma flow_land [calm]: "same_flow w w' \<Longrightarrow> same_flow w (land_turn P sid turn terminal s w')"
  unfolding land_turn_def by (auto intro!: calm simp: sview_def clear_active_def)

lemma flow_settle_turn [calm]: "same_flow w w' \<Longrightarrow> same_flow w (settle_turn P sid turn e w')"
  unfolding settle_turn_def case_prod_beta Let_def by (auto split: option.split intro!: calm)

lemma flow_withdrawn [calm]: "same_flow w w' \<Longrightarrow> same_flow w (settle_withdrawn sid turn w')"
  unfolding settle_withdrawn_def case_prod_beta Let_def by (auto split: option.split intro!: calm simp: sview_def)

lemma flow_lost [calm]: "same_flow w w' \<Longrightarrow> same_flow w (settle_lost sid ver idle f w')"
  unfolding settle_lost_def Let_def by (auto intro!: calm)

lemma flow_reconcile [calm]: "same_flow w w' \<Longrightarrow> same_flow w (reconcile_in_flight P sid r w')"
  unfolding reconcile_in_flight_def Let_def
  by (auto split: option.split intro!: calm fold_keeps [where Q = same_flow] simp: sview_def)

lemma flow_reattached [calm]: "same_flow w w' \<Longrightarrow> same_flow w (reattached_turns P sid r w')"
  unfolding reattached_turns_def by (auto intro!: calm simp: sview_def)

lemma flow_fail_in_flight [calm]: "same_flow w w' \<Longrightarrow> same_flow w (fail_in_flight P sid msg w')"
  unfolding fail_in_flight_def Let_def
  by (auto split: option.split intro!: calm fold_keeps [where Q = same_flow] simp: sview_def)

lemma flow_recap [calm]:
  "same_flow w w' \<Longrightarrow> same_flow w (cancel_recap sid s w')" "same_flow w w' \<Longrightarrow> same_flow w (settle_state sid stop w')"
  unfolding cancel_recap_def settle_state_def by (auto split: option.split intro!: calm)

lemma flow_recap_end [calm]:
  "same_flow w w' \<Longrightarrow> same_flow w (settle_recap sid r t stop w')" "same_flow w w' \<Longrightarrow> same_flow w (fail_recap sid r msg w')"
  unfolding settle_recap_def fail_recap_def Let_def by (auto split: option.split intro!: calm)

lemma finish_recap_ends:
  "(\<exists>t stop. finish_recap sid r params w = settle_recap sid r t stop w) \<or> (\<exists>msg. finish_recap sid r params w = fail_recap sid r msg w)"
  unfolding finish_recap_def Let_def by (simp only: split: if_split) blast

lemma flow_recap_completed [calm]: "same_flow w w' \<Longrightarrow> same_flow w (recap_completed params w')"
proof -
  assume w: "same_flow w w'"
  have fin: "same_flow w (finish_recap sid r params w1)" if "same_flow w w1" for sid r w1
    using finish_recap_ends [of sid r params w1] flow_recap_end that by metis
  show ?thesis unfolding recap_completed_def Let_def using w by (auto split: option.split intro!: calm fin simp: sview_def)
qed

lemma flow_local [calm]:
  "same_flow w w' \<Longrightarrow> same_flow w (local_lifecycle P sid ver req content t w')"
  unfolding local_lifecycle_def Let_def by (auto split: option.split intro!: calm)

lemma flow_command_text [calm]:
  "same_flow w w' \<Longrightarrow> same_flow w (settle_command_with_text P sid ver req content t w')"
  unfolding settle_command_with_text_def by (auto intro!: calm)

lemma flow_start_recap [calm]: "same_flow w w' \<Longrightarrow> same_flow w (start_recap P sid ver req content arg w')"
  unfolding start_recap_def case_prod_beta Let_def
  by (simp only: split: option.split sum.split if_split) (intro allI impI conjI calm; simp add: sview_def)

lemma flow_submit [calm]: "same_flow w w' \<Longrightarrow> same_flow w (submit_feedback P sid ver req content c body fs att w')"
  unfolding submit_feedback_def case_prod_beta by (auto split: option.split sum.split intro!: calm)

lemma flow_ask_feedback [calm]: "same_flow w w' \<Longrightarrow> same_flow w (ask_feedback P sid msg f w')"
  unfolding ask_feedback_def case_prod_beta by (auto split: option.split intro!: calm simp: sview_def)

lemma flow_start_feedback [calm]: "same_flow w w' \<Longrightarrow> same_flow w (start_feedback P sid ver req content arg w')"
  unfolding start_feedback_def Let_def by (auto split: option.split intro!: calm simp: sview_def)

lemma flow_cancel_form [calm]:
  "same_flow w w' \<Longrightarrow> same_flow w (cancel_form sid ver f w')" "same_flow w w' \<Longrightarrow> same_flow w (settle_feedback_cancelled sid w')"
  unfolding settle_feedback_cancelled_def cancel_form_def Let_def by (auto split: option.split intro!: calm simp: sview_def)

lemma flow_complete_feedback [calm]: "same_flow w w' \<Longrightarrow> same_flow w (complete_feedback P req ans w')"
proof -
  assume w: "same_flow w w'"
  have closed: "same_flow w (upd_session sid (\<lambda>s. s\<lparr>ses_form := None\<rparr>) w')" for sid
    using w by (rule same_hidden(1) [rotated]) (simp add: sview_def)
  show ?thesis
    unfolding complete_feedback_def Let_def
    by (simp only: split: option.split prod.split)
      (intro allI impI conjI flow_command_text flow_submit flow_ask_feedback closed w)
qed

text \<open>The branches of an operation, one at a time.\<close>

lemma flow_branch:
  "(c \<Longrightarrow> same_flow w x) \<Longrightarrow> (\<not> c \<Longrightarrow> same_flow w y) \<Longrightarrow> same_flow w (if c then x else y)"
  "(a = None \<Longrightarrow> same_flow w x) \<Longrightarrow> (\<And>v. a = Some v \<Longrightarrow> same_flow w (f v)) \<Longrightarrow> same_flow w (case a of None \<Rightarrow> x | Some v \<Rightarrow> f v)"
  "(\<And>v. b = Inl v \<Longrightarrow> same_flow w (g v)) \<Longrightarrow> (\<And>v. b = Inr v \<Longrightarrow> same_flow w (h v)) \<Longrightarrow>
    same_flow w (case b of Inl v \<Rightarrow> g v | Inr v \<Rightarrow> h v)"
  "(\<And>u v. p = (u, v) \<Longrightarrow> same_flow w (k u v)) \<Longrightarrow> same_flow w (case p of (u, v) \<Rightarrow> k u v)"
  by (auto split: option.split sum.split prod.split)

text \<open>So do the requests that start, steer and stop turns.\<close>

lemma flow_cua_refused [calm]: "same_flow w w' \<Longrightarrow> same_flow w (cua_refused req meth e w')"
  unfolding cua_refused_def by (intro calm)

lemma flow_import [calm]: "same_flow w w' \<Longrightarrow> same_flow w (import_skills P sid ver req content source dry force w')"
  unfolding import_skills_def case_prod_beta by (intro calm flow_branch)

lemma flow_run_cua [calm]: "same_flow w w' \<Longrightarrow> same_flow w (run_cua P sid ver req content action w')"
  unfolding run_cua_def case_prod_beta by (intro calm flow_branch)

lemma flow_own_turn [calm]: "same_flow w w' \<Longrightarrow> same_flow w (own_turn P sid ver req content w')"
  unfolding own_turn_def by (intro calm flow_branch)

lemma flow_protocol [calm]: "same_flow w w' \<Longrightarrow> same_flow w (run_protocol_command P sid ver req content report c w')"
  unfolding run_protocol_command_def case_prod_beta Let_def by (intro calm flow_branch) (simp_all add: sview_def)

lemma flow_run_line [calm]: "same_flow w w' \<Longrightarrow> same_flow w (run_line P sid s req content report line w')"
  unfolding run_line_def Let_def by (auto split: sum.split command_line.split intro!: calm)

lemma flow_plan [calm]:
  "same_flow w w' \<Longrightarrow> same_flow w (bare_plan P sid req content w')" "same_flow w w' \<Longrightarrow> same_flow w (run_compact P sid s req content w')"
  unfolding bare_plan_def run_compact_def case_prod_beta by (intro calm flow_branch; simp add: sview_def)+

lemma flow_refused [calm]: "same_flow w w' \<Longrightarrow> same_flow w (turn_refused req e P w')"
  unfolding turn_refused_def by (intro calm flow_branch)

lemma flow_start_turn [calm]: "same_flow w w' \<Longrightarrow> same_flow w (start_turn P sid s req ps content report w')"
  unfolding start_turn_def case_prod_beta Let_def by (intro calm flow_branch) (simp_all add: sview_def)

lemma flow_run_prompt [calm]: "same_flow w w' \<Longrightarrow> same_flow w (run_prompt P sid s req bs ps content report w')"
  unfolding run_prompt_def by (intro calm flow_branch)

lemma flow_prompt [calm]: "same_flow w w' \<Longrightarrow> same_flow w (handle_prompt P req sid bs mt w')"
  unfolding handle_prompt_def case_prod_beta Let_def by (intro calm flow_branch) (simp_all add: sview_def)

lemma flow_steer [calm]:
  "same_flow w w' \<Longrightarrow> same_flow w (adopt_steered sid turn started s w')" "same_flow w w' \<Longrightarrow> same_flow w (ack_steering P req sid started content w')"
  "same_flow w w' \<Longrightarrow> same_flow w (steer P req sid s ps content w')"
proof -
  show 1: "same_flow w w' \<Longrightarrow> same_flow w (adopt_steered sid turn started s w')" for w' turn started s
    unfolding adopt_steered_def by (intro calm flow_branch) (simp_all add: sview_def)
  show 2: "same_flow w w' \<Longrightarrow> same_flow w (ack_steering P req sid started content w')" for w' started content
    unfolding ack_steering_def Let_def by (auto intro!: calm)
  show "same_flow w w' \<Longrightarrow> same_flow w (steer P req sid s ps content w')"
    unfolding steer_def case_prod_beta Let_def by (intro 1 2 calm flow_branch)
qed

lemma flow_steering [calm]: "same_flow w w' \<Longrightarrow> same_flow w (handle_steering P req params blocks w')"
  unfolding handle_steering_def case_prod_beta Let_def by (intro calm flow_branch)

lemma flow_stop_task [calm]: "same_flow w w' \<Longrightarrow> same_flow w (stop_async_task P req params w')"
  unfolding stop_async_task_def case_prod_beta Let_def by (intro calm flow_branch)

lemma flow_cancel_recap [calm]: "same_flow w w' \<Longrightarrow> same_flow w (cancel_pending_recap P sid w')"
  unfolding cancel_pending_recap_def Let_def by (auto split: option.split intro!: calm simp: sview_def)

end
