(* ===== verification/Permission_Run.thy ===== *)
theory Permission_Run
  imports Frames
begin

text \<open>
  Running the approval flow: the tasks that the functions leave have a measure that each of them lowers, so
  the run of an event ends.
\<close>

section \<open>What the helpers leave alone\<close>

lemma same_learn: "same_flow w (learn_resolved_approvals P sid w)"
  and same_clear: "same_flow w (clear_approval_reviewing sid a b w)" "same_flow w (clear_turn_approval_reviewing sid a w)"
  and same_withdraw: "same_flow w (send_cancel_request r w)"
  and same_fail_closed: "same_flow w (fail_closed_owner_work P sid owner child w)"
  and same_say: "same_flow w (say_notice sid d w)" "same_flow w (report_approval_failure sid v i failed w)"
  and same_retitle: "same_flow w (retitle_editor_permission sid a b params w)"
  and same_args: "same_flow w (snd (with_editor_approval_args P sid params w))"
  and same_observe: "same_flow w (observe_approval_reviewing P params w)"
  and same_deny_reviewer: "same_flow w (deny_reviewer_approval P sid params w)"
  and same_resume: "same_flow w (resume_running sid w)"
  by (intro quietD(1) calm)+

section \<open>The tasks end\<close>

definition queued :: "world \<Rightarrow> nat" where
  "queued w = (\<Sum>x\<leftarrow>sviews w. length (fst (snd (snd x))))"

abbreviation reviews :: "world \<Rightarrow> review_job list" where
  "reviews w \<equiv> rs_queue (w_review w)"

fun weight :: "task \<Rightarrow> nat" where
  "weight (DoOpen params) = 8"
| "weight (DoPop sid) = 2"
| "weight (DoDecide a s d) = 3"
| "weight DoStart = 1"
| "weight (DoDeny job k r) = 4"
| "weight DoReset = 1"
| "weight (DoResume sid) = 1"

text \<open>A queued approval weighs less than opening it, a queued review more than denying it.\<close>

definition world_load :: "world \<Rightarrow> nat" where
  "world_load w = 7 * queued w + 6 * length (reviews w)"

definition task_load :: "task list \<Rightarrow> nat" where
  "task_load ts = sum_list (map weight ts)"

lemma task_load_simps [simp]:
  "task_load [] = 0" "task_load (t # ts) = weight t + task_load ts" "task_load (ts @ us) = task_load ts + task_load us"
  by (simp_all add: task_load_def)

lemma load_same: "same_flow w w' \<Longrightarrow> world_load w' = world_load w"
  by (simp add: same_flow_def world_load_def queued_def)

lemma sum_hput:
  fixes g :: "'b \<Rightarrow> nat"
  shows "hget m k = Some v \<Longrightarrow> (\<Sum>x\<leftarrow>hput k v' m. g (snd x)) + g v = (\<Sum>x\<leftarrow>m. g (snd x)) + g v'"
  by (induction m) (auto split: if_splits)

lemma queued_upd:
  assumes "hget (w_sessions w) sid = Some s"
  shows "queued (upd_session sid f w) + length (ses_queue s) = queued w + length (ses_queue (f s))"
  using sum_hput [of "sviews w" sid "sview s" "\<lambda>v. length (fst (snd v))" "sview (f s)"] assms
  by (simp add: queued_def sviews_upd hget_sviews) (simp add: sview_def)

lemma load_upd:
  assumes "\<And>s. ses_queue (f s) = ses_queue s"
  shows "world_load (upd_session sid f w) = world_load w"
proof (cases "hget (w_sessions w) sid")
  case (Some s)
  from queued_upd [OF this, of f] show ?thesis by (simp add: assms world_load_def)
qed (simp add: sviews_upd_none)

lemma load_review: "world_load (upd_review f w) + 6 * length (reviews w) = world_load w + 6 * length (rs_queue (f (w_review w)))"
  by (simp add: world_load_def queued_def)

lemma load_frame [simp]:
  "world_load (out_effect e w) = world_load w" "world_load (w\<lparr>w_asks := n\<rparr>) = world_load w"
  "world_load (w\<lparr>w_hosts := h\<rparr>) = world_load w"
  by (simp_all add: world_load_def queued_def)

lemma load_pop:
  assumes "pop_queued_approval sid w = (w', ts)"
  shows "world_load w' + task_load ts < world_load w + 2"
proof -
  have "world_load w' + 7 = world_load w"
    if "hget (w_sessions w) sid = Some s" "ses_queue s = q # qs" "w' = upd_session sid (\<lambda>s. s\<lparr>ses_queue := qs\<rparr>) w" for s q qs
    using queued_upd [OF that(1), of "\<lambda>s. s\<lparr>ses_queue := qs\<rparr>"] that(2,3) by (simp add: world_load_def)
  then show ?thesis using assms unfolding pop_queued_approval_def
    by (fastforce split: option.splits list.splits)
qed

lemma load_decide:
  assumes "send_permission_decision P a s d w = (w', ts)"
  shows "world_load w' + task_load ts < world_load w + 3"
proof -
  obtain r w1 where c: "host_command P ''approval/decide'' (decide_params (p_cmd P (w_calls w)) d) (out_effect (Decide a s d) w) = (r, w1)"
    by fastforce
  have l: "world_load w1 = world_load w"
    using load_same [OF same_host_command [of "out_effect (Decide a s d) w" P "''approval/decide''" "decide_params (p_cmd P (w_calls w)) d"]] c
    by simp
  show ?thesis using assms c l load_same [OF same_say(1)] load_same [OF same_say(2)]
    by (auto simp: send_permission_decision_def Let_def split: sum.splits)
qed

lemma load_reset: "world_load (reset_reviewer_host w) = world_load w"
  by (simp add: reset_reviewer_host_def world_load_def queued_def Let_def split: option.split)

lemma load_turn:
  assumes "start_review_turn P job g sid w = (w', ts)"
  shows "world_load w' + task_load ts \<le> world_load w + 6"
proof -
  define r where "r = process_command P ReviewerHost g ''turn/start'' (turn_start_params (p_cmd P (w_calls w)) sid (rj_prompt job)) w"
  have "world_load (snd r) = world_load w" unfolding r_def by (rule load_same [OF same_command])
  then show ?thesis using assms unfolding start_review_turn_def r_def [symmetric]
    by (auto simp: world_load_def queued_def split: prod.splits sum.splits)
qed

lemma load_session:
  assumes "start_review_session P job g cwd w = (w', ts)"
  shows "world_load w' + task_load ts \<le> world_load w + 6"
proof -
  define r where "r = process_command P ReviewerHost g ''session/start''
         (json_object [(''commandId'', esc (p_cmd P (w_calls w))), (''workspaceRoot'', esc cwd), (''approvalMode'', quoted ''denyUnmatched'')]) w"
  have r: "world_load (snd r) = world_load w" unfolding r_def by (rule load_same [OF same_command])
  have "world_load (upd_review (\<lambda>st. st\<lparr>rs_session := x, rs_host_sessions := y st\<rparr>) (w1\<lparr>w_hosts := h\<rparr>)) = world_load w1" for x y w1 h
    by (simp add: world_load_def queued_def)
  with r show ?thesis using assms load_turn unfolding start_review_session_def r_def [symmetric]
    by (fastforce split: prod.splits sum.splits option.splits)
qed

lemma load_start:
  assumes "start_next_review P w = (w', ts)"
  shows "world_load w' + task_load ts < world_load w + 1"
proof (cases "rs_active (w_review w) = None \<and> reviews w \<noteq> []")
  case False
  then show ?thesis using assms by (auto simp: start_next_review_def split: option.splits list.splits)
next
  case True
  then obtain job jobs where q: "reviews w = job # jobs" "rs_active (w_review w) = None" by (cases "reviews w") auto
  define w1 where "w1 = upd_review (\<lambda>st. st\<lparr>rs_queue := jobs\<rparr>) w"
  define w2 where "w2 = (if SESSIONS_PER_HOST \<le> length (rs_host_sessions (w_review w)) then reset_reviewer_host w1 else w1)"
  have "world_load w1 + 6 = world_load w" using load_review [of "\<lambda>st. st\<lparr>rs_queue := jobs\<rparr>" w] q by (simp add: w1_def)
  then have l: "world_load w2 + 6 = world_load w" by (simp add: w2_def load_reset)
  show ?thesis using assms l load_turn load_session
    unfolding start_next_review_def q prod.case option.case list.case Let_def w1_def [symmetric] w2_def [symmetric]
    by (fastforce split: prod.splits sum.splits option.splits)
qed

lemma load_deny:
  assumes "deny_review_job P job kind rationale w = (w', ts)"
  shows "world_load w' + task_load ts < world_load w + 4"
  using assms load_same [OF same_fail_closed]
  by (auto simp: deny_review_job_def Let_def split: option.splits)

lemma load_show: "world_load (show_permission P a own ch m i params w) = world_load w"
proof -
  have "world_load (upd_session a (\<lambda>s. s\<lparr>ses_pending := p\<rparr>) w') = world_load w'" for p w'
    by (rule load_upd) simp
  then show ?thesis unfolding show_permission_def Let_def
    by (auto simp: load_same [OF same_fail_closed] split: prod.split option.split)
qed

lemma length_remove_first: "List.find f xs = Some x \<Longrightarrow> length (remove_first f xs) + 1 = length xs"
proof -
  assume "List.find f xs = Some x"
  then have "dropWhile (\<lambda>x. \<not> f x) xs \<noteq> []" by (induction xs) (auto split: if_splits)
  moreover have "length (takeWhile (\<lambda>x. \<not> f x) xs) + length (dropWhile (\<lambda>x. \<not> f x) xs) = length xs"
    by (metis length_append takeWhile_dropWhile_id)
  ultimately show ?thesis by (cases "dropWhile (\<lambda>x. \<not> f x) xs") (auto simp: remove_first_def)
qed

lemma place_queue:
  "place_approval m i r params s = (pl, stale, s') \<Longrightarrow> length (ses_queue s') \<le> length (ses_queue s) + (if pl = Queued then 1 else 0)"
  using length_remove_first [of "queued_for m i" "ses_queue s"]
  by (auto simp: place_approval_def Let_def split: if_splits option.splits)

lemma load_enqueue:
  assumes "enqueue_review P a own params w = Some (w', ts)"
  shows "world_load w' + task_load ts \<le> world_load w + 7"
proof -
  have "world_load (upd_review (\<lambda>st. st\<lparr>rs_queue := rs_queue st @ [job]\<rparr>) (upd_session a (\<lambda>s. s\<lparr>ses_seen := k # ses_seen s\<rparr>) w)) = world_load w + 6" for job k
    using load_review [of "\<lambda>st. st\<lparr>rs_queue := rs_queue st @ [job]\<rparr>" "upd_session a (\<lambda>s. s\<lparr>ses_seen := k # ses_seen s\<rparr>) w"]
      load_upd [of "\<lambda>s. s\<lparr>ses_seen := k # ses_seen s\<rparr>" a w] by simp
  with assms show ?thesis unfolding enqueue_review_def by (auto simp: Let_def split: option.splits if_splits)
qed

lemma load_dispatch:
  assumes "dispatch_approval P a own ch m i params w = (w', ts)"
  shows "world_load w' + task_load ts \<le> world_load w + 7"
proof -
  have seen: "world_load (upd_session a (\<lambda>s. s\<lparr>ses_seen := k # ses_seen s\<rparr>) w) = world_load w" for k by (rule load_upd) simp
  have put: "world_load (upd_session a (\<lambda>_. s') w) \<le> world_load w + (if pl = Queued then 7 else 0)"
    if "hget (w_sessions w) a = Some s" "place_approval m i r params s = (pl, stale, s')" for s r pl stale s'
    using queued_upd [OF that(1), of "\<lambda>_. s'"] place_queue [OF that(2)] by (auto simp: world_load_def)
  show ?thesis using assms unfolding dispatch_approval_def
    by (auto simp: Let_def seen load_show load_same [OF same_withdraw] load_same [OF same_retitle] dest!: load_enqueue put
        split: option.splits if_splits prod.splits placement.splits)
qed

lemma load_open:
  assumes "open_approval P params w = (w', ts)"
  shows "world_load w' + task_load ts < world_load w + 8"
proof -
  have l: "world_load (learn_resolved_approvals P a (clear_approval_reviewing a b c w1)) = world_load w"
    if "with_editor_approval_args P a params w = (e, w1)" for a b c e w1
    using load_same [OF same_args [of w P a params]] that by (simp add: load_same [OF same_learn] load_same [OF same_clear(1)])
  show ?thesis using assms unfolding open_approval_def
    by (auto simp: Let_def l dest!: load_dispatch split: option.splits if_splits prod.splits)
qed

lemma load_task: "do_task P t w = (w', ts) \<Longrightarrow> world_load w' + task_load ts < world_load w + weight t"
  by (cases t) (auto simp: load_reset load_same [OF same_resume]
      dest: load_open load_pop load_decide load_start load_deny)

function run_tasks :: "surroundings \<Rightarrow> task list \<Rightarrow> world \<Rightarrow> world" where
  "run_tasks P [] w = w"
| "run_tasks P (t # ts) w = run_tasks P (snd (do_task P t w) @ ts) (fst (do_task P t w))"
  by pat_completeness auto
termination
proof (relation "measure (\<lambda>(P, ts, w). world_load w + task_load ts)", goal_cases)
  case (2 P t ts w)
  obtain w' new where d: "do_task P t w = (w', new)" by fastforce
  from load_task [OF this] show ?case by (simp add: d)
qed simp

definition run_event :: "surroundings \<Rightarrow> loop_event \<Rightarrow> world \<Rightarrow> world" where
  "run_event P ev w = run_tasks P (snd (handle_loop P ev w)) (fst (handle_loop P ev w))"

definition run_events :: "surroundings \<Rightarrow> loop_event list \<Rightarrow> world \<Rightarrow> world" where
  "run_events P evs w = foldl (\<lambda>w ev. run_event P ev w) w evs"

end
