(* ===== verification/Ledger.thy ===== *)
theory Ledger
  imports Permission_Run
begin

text \<open>
  The ledger of prompts: every request of the editor is answered once or held by one session, as a flight, a
  recap or a form. In ACP v2 the prompt of a turn is answered when it is accepted, so flights and recaps hold
  nothing. The lemmas show for each operation what it adds to the ledger: a request adds its id, everything
  else adds nothing.
\<close>

section \<open>What is held\<close>

definition id_mset :: "nat option \<Rightarrow> nat multiset" where
  "id_mset r = (case r of Some n \<Rightarrow> {#n#} | None \<Rightarrow> {#})"

lemma id_mset_simps [simp]: "id_mset None = {#}" "id_mset (Some n) = {#n#}"
  by (simp_all add: id_mset_def)

definition reqs_mset :: "nat option list \<Rightarrow> nat multiset" where
  "reqs_mset rs = sum_list (map id_mset rs)"

lemma reqs_mset_simps [simp]:
  "reqs_mset [] = {#}" "reqs_mset (r # rs) = id_mset r + reqs_mset rs" "reqs_mset (rs @ qs) = reqs_mset rs + reqs_mset qs"
  by (simp_all add: reqs_mset_def)

definition held :: "nat \<Rightarrow> turn_view \<Rightarrow> nat multiset" where
  "held ver v = (case v of (_, reqs, rc, form) \<Rightarrow>
     (if ver = 2 then {#} else reqs_mset (map snd reqs) + (case rc of Some r \<Rightarrow> id_mset (rc_req r) | None \<Rightarrow> {#})) +
     (case form of Some (p, _) \<Rightarrow> id_mset p | None \<Rightarrow> {#}))"

definition helds :: "nat \<Rightarrow> turn_view hmap \<Rightarrow> nat multiset" where
  "helds ver m = sum_list (map (\<lambda>(k, v). held ver v) m)"

definition ledger :: "surroundings \<Rightarrow> world \<Rightarrow> nat multiset" where
  "ledger P w = mset (answers w) + helds (p_version P) (tviews w)"

text \<open>The version is the same everywhere: sessions, recaps and forms are opened with the negotiated one.\<close>

definition one_version :: "nat \<Rightarrow> turn_view \<Rightarrow> bool" where
  "one_version ver v \<longleftrightarrow> (case v of (n, _, rc, form) \<Rightarrow>
     n = ver \<and> (case rc of Some r \<Rightarrow> rc_ver r = ver | None \<Rightarrow> True) \<and> (case form of Some (_, k) \<Rightarrow> k = ver | None \<Rightarrow> True))"

definition versions :: "surroundings \<Rightarrow> world \<Rightarrow> bool" where
  "versions P w \<longleftrightarrow> list_all (\<lambda>(k, v). one_version (p_version P) v) (tviews w)"

definition books :: "surroundings \<Rightarrow> nat multiset \<Rightarrow> world \<Rightarrow> world \<Rightarrow> bool" where
  "books P N w w' \<longleftrightarrow> (versions P w \<longrightarrow> versions P w' \<and> ledger P w' = ledger P w + N)"

lemma held_simps [simp]:
  "held ver (tview s) = (if ver = 2 then {#} else reqs_mset (map if_req (ses_flights s)) +
     (case ses_recap s of Some r \<Rightarrow> id_mset (rc_req r) | None \<Rightarrow> {#})) +
     (case ses_form s of Some f \<Rightarrow> id_mset (ff_prompt f) | None \<Rightarrow> {#})"
  by (simp add: held_def tview_def fview_def comp_def split: option.split)

lemma one_version_simps [simp]:
  "one_version ver (tview s) \<longleftrightarrow> ses_ver s = ver \<and> (case ses_recap s of Some r \<Rightarrow> rc_ver r = ver | None \<Rightarrow> True) \<and>
     (case ses_form s of Some f \<Rightarrow> ff_ver f = ver | None \<Rightarrow> True)"
  by (simp add: one_version_def tview_def split: option.split)

lemma helds_put: "hget m k = Some v \<Longrightarrow> helds ver (hput k v' m) + held ver v = helds ver m + held ver v'"
  by (induction m) (auto simp: helds_def split: if_splits)

lemma versions_put:
  "hget m k = Some v \<Longrightarrow> list_all (\<lambda>(k, v). ok v) m \<Longrightarrow> ok v' \<Longrightarrow> list_all (\<lambda>(k, v). ok v) (hput k v' m)"
  by (induction m) (auto split: if_splits)

lemma versions_get: "versions P w \<Longrightarrow> hget (w_sessions w) sid = Some s \<Longrightarrow> one_version (p_version P) (tview s)"
proof -
  assume "versions P w" "hget (w_sessions w) sid = Some s"
  then have "hget (tviews w) sid = Some (tview s)" "list_all (\<lambda>(k, v). one_version (p_version P) v) (tviews w)"
    by (simp_all add: hget_tviews versions_def)
  then show ?thesis by (induction "tviews w" arbitrary: w) (auto dest!: map_of_SomeD simp: list_all_iff)
qed

section \<open>Composition\<close>

lemma books_refl: "books P {#} w w"
  by (simp add: books_def)

lemma books_then: "books P N w w' \<Longrightarrow> books P M w' w'' \<Longrightarrow> books P (N + M) w w''"
  by (auto simp: books_def)

lemma books_none: "books P N w w' \<Longrightarrow> books P {#} w' w'' \<Longrightarrow> books P N w w''"
  using books_then by fastforce

lemma books_first: "books P {#} w w' \<Longrightarrow> books P N w' w'' \<Longrightarrow> books P N w w''"
  using books_then by fastforce

lemma books_same: "same_books w w' \<Longrightarrow> books P {#} w w'"
  by (simp add: same_books_def books_def versions_def ledger_def)

lemma same_booksD: "same_books w w' \<Longrightarrow> tviews w' = tviews w" "same_books w w' \<Longrightarrow> answers w' = answers w"
  by (simp_all add: same_books_def)

text \<open>An operation on one session: what its view holds goes to the responses.\<close>

lemma books_session:
  assumes s: "hget (w_sessions w) sid = Some s"
    and a: "mset (answers w') = mset (answers w) + A" and t: "tviews w' = hput sid v (tviews w)"
    and h: "one_version (p_version P) (tview s) \<Longrightarrow> held (p_version P) v + A = held (p_version P) (tview s) + N"
    and ver: "one_version (p_version P) (tview s) \<Longrightarrow> one_version (p_version P) v"
  shows "books P N w w'"
  unfolding books_def
proof
  assume v: "versions P w"
  have one: "one_version (p_version P) (tview s)" by (rule versions_get [OF v s])
  have get: "hget (tviews w) sid = Some (tview s)" by (simp add: hget_tviews s)
  have "helds (p_version P) (tviews w') + held (p_version P) (tview s) + A = helds (p_version P) (tviews w) + held (p_version P) v + A"
    using helds_put [OF get, of "p_version P" v] by (simp only: t)
  also have "\<dots> = helds (p_version P) (tviews w) + (held (p_version P) (tview s) + N)"
    by (simp only: h [OF one] add.assoc)
  also have "\<dots> = helds (p_version P) (tviews w) + N + held (p_version P) (tview s)"
    by (simp only: ac_simps)
  finally have "helds (p_version P) (tviews w') + A + held (p_version P) (tview s) = helds (p_version P) (tviews w) + N + held (p_version P) (tview s)"
    by (simp only: ac_simps)
  then have "helds (p_version P) (tviews w') + A = helds (p_version P) (tviews w) + N" by (simp only: add_right_cancel)
  then have "ledger P w' = ledger P w + N" unfolding ledger_def a by (metis add.assoc add.commute)
  moreover have "versions P w'" using v ver [OF one] get unfolding versions_def t by (intro versions_put) simp_all
  ultimately show "versions P w' \<and> ledger P w' = ledger P w + N" by simp
qed

section \<open>What the small steps do\<close>

lemmas still_tviews [simp] = still [OF same_refl(3), THEN quietD(2), THEN same_booksD(1)]
lemmas still_answers [simp] = still [OF same_refl(3), THEN quietD(2), THEN same_booksD(2)]

lemma id_list: "mset (case req of Some n \<Rightarrow> [n] | None \<Rightarrow> []) = id_mset req"
  by (simp split: option.split)

lemma respond_frame [simp]:
  "tviews (respond req r w) = tviews w" "mset (answers (respond req r w)) = mset (answers w) + id_mset req"
  "w_sessions (respond req r w) = w_sessions w"
  by (simp_all add: respond_def answers_out split: option.split)

lemma answer_frame [simp]:
  "tviews (send_prompt_stop req stop usage w) = tviews w" "mset (answers (send_prompt_stop req stop usage w)) = mset (answers w) + id_mset req"
  "tviews (send_error req code msg w) = tviews w" "mset (answers (send_error req code msg w)) = mset (answers w) + id_mset req"
  "tviews (send_host_error req e code msg w) = tviews w" "mset (answers (send_host_error req e code msg w)) = mset (answers w) + id_mset req"
  "tviews (cancel_v2_prompt_before_insertion req w) = tviews w"
  "mset (answers (cancel_v2_prompt_before_insertion req w)) = mset (answers w) + id_mset req"
  "tviews (accept_v2_prompt P req sid content w) = tviews w" "mset (answers (accept_v2_prompt P req sid content w)) = mset (answers w) + id_mset req"
  by (simp_all add: send_prompt_stop_def send_error_def send_host_error_def cancel_v2_prompt_before_insertion_def accept_v2_prompt_def)

lemma books_respond:
  "books P (id_mset req) w (respond req r w)" "books P (id_mset req) w (send_error req code msg w)"
  "books P (id_mset req) w (send_host_error req e code msg w)" "books P (id_mset req) w (send_prompt_stop req stop usage w)"
  "books P (id_mset req) w (accept_v2_prompt P req sid content w)"
  by (simp_all add: books_def versions_def ledger_def)

section \<open>Ends of turns\<close>

lemma take_flight_reqs:
  "take_flight turn fs = (Some f, gs) \<Longrightarrow> reqs_mset (map if_req fs) = id_mset (if_req f) + reqs_mset (map if_req gs)"
  "take_flight turn fs = (None, gs) \<Longrightarrow> gs = fs"
  by (induction fs arbitrary: gs) (auto split: if_splits prod.splits)

lemma books_withdrawn: "books P {#} w (settle_withdrawn sid turn w)"
proof (cases "hget (w_sessions w) sid")
  case None
  then show ?thesis by (simp add: settle_withdrawn_def books_refl)
next
  case (Some s)
  show ?thesis
  proof (cases "take_flight turn (ses_flights s)")
    case (Pair r others)
    show ?thesis
    proof (cases r)
      case None
      then show ?thesis by (simp add: settle_withdrawn_def Some Pair books_refl)
    next
      case (Some f)
      show ?thesis
        by (rule books_session [OF \<open>hget (w_sessions w) sid = _\<close>, where v = "tview (s\<lparr>ses_flights := others\<rparr>)"
              and A = "if ses_ver s = 2 then {#} else id_mset (if_req f)"])
          (use take_flight_reqs(1) [OF Pair [unfolded Some]] in
            \<open>auto simp: settle_withdrawn_def \<open>hget (w_sessions w) sid = _\<close> Pair Some Let_def tviews_upd\<close>)
    qed
  qed
qed

lemma upd_active: "tview (clear_active turn s) = tview s"
  by (simp add: tview_def clear_active_def)

lemma tviews_hidden: "(\<And>s. tview (f s) = tview s) \<Longrightarrow> tviews (upd_session sid f w) = tviews w"
  by (rule same_booksD) (rule same_hidden(2) [OF _ same_refl(2)])

lemma take_flight_view:
  "map fview fs = map fview gs \<Longrightarrow> map fview (snd (take_flight turn fs)) = map fview (snd (take_flight turn gs))"
  by (induction fs arbitrary: gs) (auto simp: fview_def split: prod.splits)

lemma land_frame:
  assumes "hget (w_sessions w) sid = Some s"
  shows "tviews (land_turn P sid turn terminal s' w) = hput sid (tview (s\<lparr>ses_flights := snd (take_flight turn (ses_flights s))\<rparr>)) (tviews w)"
    "answers (land_turn P sid turn terminal s' w) = answers w"
proof -
  define w1 where "w1 = fold_lines sid (turn_ended (p_env P) sid (ses_ver s') turn terminal) (upd_session sid (clear_active turn) w)"
  have t: "tviews w1 = tviews w" "answers w1 = answers w" by (simp_all add: w1_def tviews_hidden upd_active)
  have "hget (tviews w1) sid = Some (tview s)" using assms by (simp add: t hget_tviews)
  then obtain s1 where s1: "hget (w_sessions w1) sid = Some s1" "tview s1 = tview s" by (auto simp: hget_tviews)
  have fl: "map fview (snd (take_flight turn (ses_flights s1))) = map fview (snd (take_flight turn (ses_flights s)))"
    using s1(2) by (intro take_flight_view) (simp add: tview_def)
  show "answers (land_turn P sid turn terminal s' w) = answers w" by (simp add: land_turn_def t(2) flip: w1_def)
  show "tviews (land_turn P sid turn terminal s' w) = hput sid (tview (s\<lparr>ses_flights := snd (take_flight turn (ses_flights s))\<rparr>)) (tviews w)"
    using s1 fl by (simp add: land_turn_def t(1) tviews_upd [OF s1(1)] flip: w1_def) (simp add: tview_def)
qed

lemma books_settle_turn: "books P {#} w (settle_turn P sid turn e w)"
proof (cases "hget (w_sessions w) sid")
  case None
  then show ?thesis by (simp add: settle_turn_def books_refl)
next
  case (Some s)
  obtain r others where take: "take_flight turn (ses_flights s) = (r, others)" by fastforce
  have reqs: "reqs_mset (map if_req (ses_flights s)) = (case r of Some f \<Rightarrow> id_mset (if_req f) | None \<Rightarrow> {#}) + reqs_mset (map if_req others)"
    using take by (auto split: option.split dest: take_flight_reqs)
  show ?thesis
  proof (rule books_session [OF Some, where v = "tview (s\<lparr>ses_flights := others\<rparr>)"
        and A = "if ses_ver s = 2 then {#} else (case r of Some f \<Rightarrow> id_mset (if_req f) | None \<Rightarrow> {#})"])
    show "tviews (settle_turn P sid turn e w) = hput sid (tview (s\<lparr>ses_flights := others\<rparr>)) (tviews w)"
      by (simp add: settle_turn_def Some take Let_def land_frame [OF Some] split: option.split)
    show "mset (answers (settle_turn P sid turn e w)) = mset (answers w) + (if ses_ver s = 2 then {#} else (case r of Some f \<Rightarrow> id_mset (if_req f) | None \<Rightarrow> {#}))"
      by (simp add: settle_turn_def Some take Let_def land_frame [OF Some] split: option.split)
  qed (use reqs in \<open>auto\<close>)
qed

text \<open>Operations of approvals on the way do not touch the books.\<close>

lemma books_invalidate [calm]: "same_books w w' \<Longrightarrow> same_books w (snd (invalidate_pending_approval a k b w'))"
  unfolding invalidate_pending_approval_def by (auto split: option.split intro!: calm simp: tview_def)

lemma books_drop [calm]: "same_books w w' \<Longrightarrow> same_books w (drop_guidance a w')"
  unfolding drop_guidance_def by (intro calm)

lemma books_over [calm]: "same_books w w' \<Longrightarrow> same_books w (user_turn_over params w')"
  unfolding user_turn_over_def Let_def by (auto split: option.split intro!: calm)

lemma books_calm: "same_books w w \<Longrightarrow> same_books w w' \<Longrightarrow> books P {#} w w'"
  by (rule books_same)

lemma books_turn_completed: "books P {#} w (turn_completed P params w)"
proof -
  have "books P {#} w (user_turn_over params w)" by (intro books_same calm)
  then show ?thesis unfolding turn_completed_def by (auto split: option.split intro: books_none [OF _ books_settle_turn])
qed

lemma books_turn_unqueued: "books P {#} w (turn_unqueued params w)"
proof -
  have "books P {#} w (drop_guidance sid w)" for sid by (intro books_same calm)
  then show ?thesis unfolding turn_unqueued_def by (auto split: option.split intro: books_refl books_none [OF _ books_withdrawn])
qed

lemma books_turn_retracted: "books P {#} w (turn_retracted P params w)"
proof -
  have "books P {#} w (fold_lines sid h (upd_session sid (clear_active turn) (drop_guidance sid w)))" for sid h turn
    by (intro books_same calm) (simp add: upd_active)
  moreover have "books P {#} w (retract_declined P sid turn w)" for sid turn by (intro books_same calm)
  ultimately show ?thesis unfolding turn_retracted_def Let_def
    by (auto split: option.split intro: books_refl books_none [OF _ books_withdrawn])
qed

section \<open>Lost hosts\<close>

text \<open>A fold that answers for each flight.\<close>

lemma fold_answers:
  assumes "\<And>f w. tviews (g f w) = tviews w" "\<And>f w. mset (answers (g f w)) = mset (answers w) + a f"
  shows "tviews (fold g fs w) = tviews w" "mset (answers (fold g fs w)) = mset (answers w) + sum_list (map a fs)"
  by (induction fs arbitrary: w) (simp_all add: assms)

lemma sum_ids: "sum_list (map (\<lambda>f. id_mset (if_req f)) fs) = reqs_mset (map if_req fs)"
  by (induction fs) simp_all

lemma settle_lost_frame [simp]:
  "tviews (settle_lost sid ver idle f w) = tviews w"
  "mset (answers (settle_lost sid ver idle f w)) = mset (answers w) + (if ver = 2 then {#} else id_mset (if_req f))"
  by (simp_all add: settle_lost_def Let_def)

lemma reqs_filter: "reqs_mset (map if_req fs) = reqs_mset (map if_req (filter p fs)) + reqs_mset (map if_req (filter (\<lambda>f. \<not> p f) fs))"
  by (induction fs) (simp_all add: ac_simps)

lemma fview_known: "fview (unqueue_known active f) = fview f" "if_req (unqueue_known active f) = if_req f"
  by (simp_all add: unqueue_known_def)

lemma books_reconcile: "books P {#} w (reconcile_in_flight P sid r w)"
proof (cases "hget (w_sessions w) sid")
  case None
  then show ?thesis by (simp add: reconcile_in_flight_def books_refl)
next
  case (Some s)
  define known where "known = (\<lambda>f::flight. if_turn f \<in> set (reattached_known r))"
  define kept where "kept = map (unqueue_known (reattached_active r)) (filter known (ses_flights s))"
  define lost where "lost = filter (\<lambda>f. \<not> known f) (ses_flights s)"
  define w1 where "w1 = fold_lines sid (lost_checks P sid lost) (upd_session sid (\<lambda>s. s\<lparr>ses_flights := kept\<rparr>) w)"
  have eq: "reconcile_in_flight P sid r w = fold (settle_lost sid (ses_ver s) (kept = [])) lost w1"
    by (simp only: reconcile_in_flight_def Some option.case Let_def known_def [symmetric] kept_def [symmetric] lost_def [symmetric] w1_def [symmetric])
  have w1: "tviews w1 = hput sid (tview (s\<lparr>ses_flights := kept\<rparr>)) (tviews w)" "answers w1 = answers w"
    by (simp_all add: w1_def tviews_upd [OF Some])
  note folded = fold_answers [where g = "settle_lost sid (ses_ver s) (kept = [])", OF settle_lost_frame]
  have "sum_list (map (\<lambda>f. if ses_ver s = 2 then {#} else id_mset (if_req f)) fs) = (if ses_ver s = 2 then {#} else reqs_mset (map if_req fs))" for fs
    by (induction fs) simp_all
  moreover have "reqs_mset (map if_req (ses_flights s)) = reqs_mset (map if_req kept) + reqs_mset (map if_req lost)"
    using reqs_filter [of "ses_flights s" known] by (simp add: kept_def lost_def comp_def fview_known)
  ultimately show ?thesis
    by (intro books_session [OF Some, where v = "tview (s\<lparr>ses_flights := kept\<rparr>)"
          and A = "if ses_ver s = 2 then {#} else reqs_mset (map if_req lost)"])
      (auto simp: eq folded w1)
qed

lemma books_reattached: "books P {#} w (reattached_turns P sid r w)"
  unfolding reattached_turns_def
  by (rule books_none [OF books_same books_reconcile]) (intro calm; simp add: tview_def)

lemma books_fail_in_flight: "books P {#} w (fail_in_flight P sid msg w)"
proof -
  define w1 where "w1 = fold_lines sid (failed_checks P sid) w"
  have w1: "same_books w w1" unfolding w1_def by (intro calm)
  have "books P {#} w1 (fail_in_flight P sid msg w)"
  proof (cases "hget (w_sessions w1) sid")
    case None
    then show ?thesis by (simp add: fail_in_flight_def Let_def books_refl flip: w1_def)
  next
    case (Some s)
    define w2 where "w2 = fold (\<lambda>f. send_file_report sid (ses_ver s) (if_report f) (Some ReportProviderError)) (ses_flights s) w1"
    have "quiet w1 w2" unfolding w2_def by (intro fold_keeps [where Q = quiet] calm)
    then have w2: "tviews w2 = tviews w1" "answers w2 = answers w1" by (auto dest!: quietD(2) simp: same_books_def)
    have "hget (tviews w2) sid = Some (tview s)" using Some by (simp add: w2 hget_tviews)
    then obtain s2 where s2: "hget (w_sessions w2) sid = Some s2" "tview s2 = tview s" by (auto simp: hget_tviews)
    then have put: "tviews (upd_session sid (\<lambda>s. s\<lparr>ses_flights := []\<rparr>) w2) = hput sid (tview (s\<lparr>ses_flights := []\<rparr>)) (tviews w1)"
      by (simp add: tviews_upd w2) (simp add: tview_def)
    have tv: "tviews (send_agent_text sid v msg w2) = tviews w2" for v by simp
    have put2: "tviews (upd_session sid (\<lambda>s. s\<lparr>ses_flights := []\<rparr>) (send_agent_text sid v msg w2)) = hput sid (tview (s\<lparr>ses_flights := []\<rparr>)) (tviews w1)" for v
      using s2 by (simp add: tviews_upd w2 send_agent_text_def) (simp add: tview_def)
    note folded = fold_answers [where g = "\<lambda>f. send_error (if_req f) (-32603) msg" and a = "\<lambda>f. id_mset (if_req f)", OF answer_frame(3,4)]
    show ?thesis
    proof (cases "ses_flights s = []")
      case True
      then show ?thesis by (simp add: fail_in_flight_def Let_def Some books_refl flip: w1_def)
    next
      case False
      then show ?thesis
        by (intro books_session [OF Some, where v = "tview (s\<lparr>ses_flights := []\<rparr>)"
              and A = "if ses_ver s = 2 then {#} else reqs_mset (map if_req (ses_flights s))"])
          (auto simp: fail_in_flight_def Let_def Some put put2 folded w2 sum_ids simp flip: w1_def w2_def)
    qed
  qed
  then show ?thesis by (rule books_first [OF books_same [OF w1]])
qed

text \<open>Before a session is abandoned its flights are settled; its recap is settled with it.\<close>

lemma cancel_recap_frame [simp]:
  "tviews (cancel_recap sid s w) = tviews w" "w_sessions (cancel_recap sid s w) = w_sessions w"
  "mset (answers (cancel_recap sid s w)) = mset (answers w) +
     (if ses_ver s = 2 then {#} else (case ses_recap s of Some r \<Rightarrow> id_mset (rc_req r) | None \<Rightarrow> {#}))"
  by (simp_all add: cancel_recap_def send_prompt_stop_def send_state_def answers_out split: option.split)

lemma books_abandon: "books P {#} w (abandon_session_work P sid msg w)"
proof -
  define w1 where "w1 = fail_in_flight P sid msg w"
  have "books P {#} w1 (abandon_session_work P sid msg w)"
  proof (cases "hget (w_sessions w1) sid")
    case None
    then show ?thesis by (simp add: abandon_session_work_def Let_def books_refl flip: w1_def)
  next
    case (Some s)
    define w2 where "w2 = cancel_recap sid s (withdraw_permission s (withdraw_questions s w1))"
    have t2: "tviews w2 = tviews w1" by (simp add: w2_def)
    then have "hget (tviews w2) sid = Some (tview s)" using Some by (simp add: hget_tviews)
    then obtain s2 where s2: "hget (w_sessions w2) sid = Some s2" "tview s2 = tview s" by (auto simp: hget_tviews)
    then have put: "tviews (upd_session sid (\<lambda>s. s\<lparr>ses_questions := [], ses_pending := None, ses_recap := None, ses_queue := [], ses_active_turn := None\<rparr>) w2)
        = hput sid (tview (s\<lparr>ses_recap := None\<rparr>)) (tviews w1)"
      by (simp add: tviews_upd t2) (simp add: tview_def)
    have a2: "mset (answers w2) = mset (answers w1) + (if ses_ver s = 2 then {#} else (case ses_recap s of Some r \<Rightarrow> id_mset (rc_req r) | None \<Rightarrow> {#}))"
      by (simp add: w2_def)
    show ?thesis
      by (intro books_session [OF Some, where v = "tview (s\<lparr>ses_recap := None\<rparr>)"
            and A = "if ses_ver s = 2 then {#} else (case ses_recap s of Some r \<Rightarrow> id_mset (rc_req r) | None \<Rightarrow> {#})"])
        (auto simp: abandon_session_work_def Let_def Some put a2 simp flip: w1_def w2_def)
  qed
  then show ?thesis unfolding w1_def by (rule books_first [OF books_fail_in_flight])
qed

lemma books_fail_all: "books P {#} w (fail_all_with_message P msg w)"
  unfolding fail_all_with_message_def case_prod_beta
  by (rule fold_keeps [where Q = "books P {#}"]) (auto intro: books_none [OF _ books_abandon] books_refl)

section \<open>Recaps and forms\<close>

lemma settle_state_frame [simp]: "tviews (settle_state sid stop w) = tviews w" "answers (settle_state sid stop w) = answers w"
  by (simp_all add: settle_state_def)

lemma recap_end_frame [simp]:
  "tviews (settle_recap sid r t stop w) = tviews w" "tviews (fail_recap sid r msg w) = tviews w"
  "mset (answers (settle_recap sid r t stop w)) = mset (answers w) + (if rc_ver r = 2 then {#} else id_mset (rc_req r))"
  "mset (answers (fail_recap sid r msg w)) = mset (answers w) + (if rc_ver r = 2 then {#} else id_mset (rc_req r))"
  by (simp_all add: settle_recap_def fail_recap_def Let_def split: option.split)

lemma finish_recap_frame [simp]:
  "tviews (finish_recap sid r params w) = tviews w"
  "mset (answers (finish_recap sid r params w)) = mset (answers w) + (if rc_ver r = 2 then {#} else id_mset (rc_req r))"
  using finish_recap_ends [of sid r params w] recap_end_frame by metis+

lemma books_recap_gone:
  assumes "hget (w_sessions w) sid = Some s" "ses_recap s = Some r" "tviews w' = hput sid (tview (s\<lparr>ses_recap := None\<rparr>)) (tviews w)"
    "mset (answers w') = mset (answers w) + (if rc_ver r = 2 then {#} else id_mset (rc_req r))"
  shows "books P {#} w w'"
  by (rule books_session [OF assms(1,4,3)]) (use assms(2) in auto)

lemma books_recap_completed: "books P {#} w (recap_completed params w)"
proof -
  have gone: "books P {#} w (finish_recap sid r params (upd_session sid (\<lambda>s. s\<lparr>ses_recap := None\<rparr>) w))"
    if "hget (w_sessions w) sid = Some s" "ses_recap s = Some r" for sid s r
    by (rule books_recap_gone [OF that]) (simp_all add: tviews_upd [OF that(1)])
  show ?thesis unfolding recap_completed_def Let_def by (auto split: option.split intro: books_refl gone simp: bind_eq_Some_conv)
qed

lemma books_cancel_recap: "books P {#} w (cancel_pending_recap P sid w)"
proof -
  have gone: "books P {#} w (settle_recap sid r None ''cancelled'' (snd (host_command P m ps (upd_session sid (\<lambda>s. s\<lparr>ses_recap := None\<rparr>) w))))"
    if "hget (w_sessions w) sid = Some s" "ses_recap s = Some r" for sid s r m ps
    by (rule books_recap_gone [OF that]) (simp_all add: tviews_upd [OF that(1)])
  show ?thesis unfolding cancel_pending_recap_def Let_def by (auto split: option.split intro: books_refl gone)
qed

text \<open>A prompt that a command of the adapter ends at once.\<close>

lemma books_cong: "tviews w' = tviews w \<Longrightarrow> mset (answers w') = mset (answers w) + N \<Longrightarrow> books P N w w'"
  by (simp add: books_def versions_def ledger_def)

lemma local_frame [simp]:
  "tviews (local_lifecycle P sid ver req content t w) = tviews w"
  "mset (answers (local_lifecycle P sid ver req content t w)) = mset (answers w) + id_mset req"
  by (simp_all add: local_lifecycle_def Let_def split: option.split)

lemma command_text_frame [simp]:
  "tviews (settle_command_with_text P sid ver req content t w) = tviews w"
  "mset (answers (settle_command_with_text P sid ver req content t w)) = mset (answers w) + id_mset req"
  by (simp_all add: settle_command_with_text_def)

lemma books_ask [calm]: "same_books w w' \<Longrightarrow> same_books w (ask_feedback P sid msg f w')"
  unfolding ask_feedback_def case_prod_beta by (auto split: option.split intro!: calm simp: tview_def comp_def option.map_comp)

lemmas ask_frame [simp] = same_booksD [OF books_ask [OF same_refl(2)]]

lemma submit_frame:
  assumes "hget (w_sessions w) sid \<noteq> None"
  shows "tviews (submit_feedback P sid ver req content c body fs att w) = tviews w"
    "mset (answers (submit_feedback P sid ver req content c body fs att w)) = mset (answers w) + id_mset req"
  using assms by (auto simp: submit_feedback_def case_prod_beta split: sum.split)

lemma put_there: "hget (w_sessions w) sid \<noteq> None \<Longrightarrow> hget (w_sessions (upd_session sid' f w)) sid \<noteq> None"
  by (auto simp: upd_session_def split: option.split)

text \<open>Giving a prompt to a session: its view holds the request from then on.\<close>

lemma books_start_feedback:
  assumes s: "hget (w_sessions w) sid \<noteq> None" and ver: "ver = p_version P"
  shows "books P (id_mset req) w (start_feedback P sid ver req content arg w)"
proof -
  obtain t where t: "hget (w_sessions w) sid = Some t" using s by auto
  define f where "f = \<lparr>ff_req = None, ff_prompt = req, ff_content = content, ff_ver = ver\<rparr>"
  define w1 where "w1 = upd_session sid (\<lambda>s. s\<lparr>ses_form := Some f\<rparr>) w"
  have open_form: "books P (id_mset req) w (ask_feedback P sid msg g w2)"
    if "ses_form t = None" "w2 = (if ver = 2 then send_state sid ''requires_action'' None w1 else w1)" for msg g w2
    by (rule books_session [OF t, where v = "tview (t\<lparr>ses_form := Some f\<rparr>)" and A = "{#}"])
      (use that ver in \<open>auto simp: w1_def tviews_upd [OF t] f_def\<close>)
  have "books P (id_mset req) w (submit_feedback P sid ver req content c body fs att w)" for c body fs att
    by (rule books_cong) (simp_all add: submit_frame [OF s])
  moreover have "books P (id_mset req) w (settle_command_with_text P sid ver req content x w)" for x
    by (rule books_cong) simp_all
  ultimately show ?thesis
    unfolding start_feedback_def Let_def t option.case f_def [symmetric] w1_def [symmetric]
    using open_form books_respond by (auto split: option.split)
qed

lemma books_form_gone:
  assumes "hget (w_sessions w) sid = Some s" "ses_form s = Some f" "tviews w' = hput sid (tview (s\<lparr>ses_form := None\<rparr>)) (tviews w)"
    "mset (answers w') = mset (answers w) + id_mset (ff_prompt f)"
  shows "books P {#} w w'"
  by (rule books_session [OF assms(1,4,3)]) (use assms(2) in auto)

lemma cancel_form_frame [simp]:
  "tviews (cancel_form sid ver f w) = tviews w" "mset (answers (cancel_form sid ver f w)) = mset (answers w) + id_mset (ff_prompt f)"
  by (simp_all add: cancel_form_def Let_def)

lemma books_form_cancelled: "books P {#} w (settle_feedback_cancelled sid w)"
proof -
  have "books P {#} w (cancel_form sid (ff_ver f) f (upd_session sid (\<lambda>s. s\<lparr>ses_form := None\<rparr>) w))"
    if "hget (w_sessions w) sid = Some s" "ses_form s = Some f" for s f
    by (rule books_form_gone [OF that]) (simp_all add: tviews_upd [OF that(1)])
  then show ?thesis unfolding settle_feedback_cancelled_def by (auto split: option.split intro: books_refl simp: bind_eq_Some_conv)
qed

lemma find_map_in: "find_map g xs = Some y \<Longrightarrow> \<exists>x \<in> set xs. g x = Some y"
  by (induction xs) (auto split: option.splits)

lemma hget_in: "distinct (map fst m) \<Longrightarrow> (k, v) \<in> set m \<Longrightarrow> hget m k = Some v"
  by (induction m) (auto simp: rev_image_eqI)

lemma form_found:
  assumes "form_with req w = Some (sid, f)" "distinct (map fst (w_sessions w))"
  obtains s where "hget (w_sessions w) sid = Some s" "ses_form s = Some f"
proof -
  obtain x where x: "x \<in> set (w_sessions w)"
    "(case x of (sid, s) \<Rightarrow> case ses_form s of Some f \<Rightarrow> if ff_req f = Some req then Some (sid, f) else None | None \<Rightarrow> None) = Some (sid, f)"
    using find_map_in [OF assms(1) [unfolded form_with_def]] by auto
  obtain k s where ks: "x = (k, s)" by (cases x)
  with x(2) have "k = sid" "ses_form s = Some f" by (auto split: option.splits if_splits)
  with x(1) ks show thesis by (intro that [of s] hget_in [OF assms(2)]) simp_all
qed

lemma books_complete_feedback:
  assumes dist: "distinct (map fst (w_sessions w))"
  shows "books P {#} w (complete_feedback P req ans w)"
proof (cases "form_with req w")
  case None
  then show ?thesis by (simp add: complete_feedback_def books_refl)
next
  case (Some x)
  then obtain sid f where f: "form_with req w = Some (sid, f)" by (cases x) auto
  obtain s where s: "hget (w_sessions w) sid = Some s" "ses_form s = Some f" by (rule form_found [OF f dist])
  define closed where "closed = upd_session sid (\<lambda>s. s\<lparr>ses_form := None\<rparr>) w"
  have closed: "tviews closed = hput sid (tview (s\<lparr>ses_form := None\<rparr>)) (tviews w)" "answers closed = answers w" "hget (w_sessions closed) sid \<noteq> None"
    using s by (simp_all add: closed_def tviews_upd put_there)
  have text_end: "books P {#} w (settle_command_with_text P sid v (ff_prompt f) content t closed)" for v content t
    by (rule books_form_gone [OF s]) (simp_all add: closed)
  have submit_end: "books P {#} w (submit_feedback P sid v (ff_prompt f) content c body fs att closed)" for v content c body fs att
    by (rule books_form_gone [OF s]) (simp_all add: submit_frame closed)
  have again: "books P {#} w (ask_feedback P sid msg g w)" for msg g by (intro books_same calm)
  show ?thesis unfolding complete_feedback_def f option.case prod.case Let_def closed_def [symmetric]
    by (simp only: split: option.split) (intro allI impI conjI text_end submit_end again)
qed

section \<open>Requests\<close>

lemma books_local: "same_books w w' \<Longrightarrow> books P (id_mset req) w (local_lifecycle P sid ver req content t w')"
  by (rule books_cong) (simp_all add: same_booksD)

lemma books_text: "same_books w w' \<Longrightarrow> books P (id_mset req) w (settle_command_with_text P sid ver req content t w')"
  by (rule books_cong) (simp_all add: same_booksD)

lemma books_answer:
  "same_books w w' \<Longrightarrow> books P (id_mset req) w (respond req r w')"
  "same_books w w' \<Longrightarrow> books P (id_mset req) w (send_error req code msg w')"
  "same_books w w' \<Longrightarrow> books P (id_mset req) w (send_host_error req e code msg w')"
  by (rule books_cong; simp add: same_booksD)+

lemma books_branch:
  "(c \<Longrightarrow> books P N w x) \<Longrightarrow> (\<not> c \<Longrightarrow> books P N w y) \<Longrightarrow> books P N w (if c then x else y)"
  "(a = None \<Longrightarrow> books P N w x) \<Longrightarrow> (\<And>v. a = Some v \<Longrightarrow> books P N w (f v)) \<Longrightarrow> books P N w (case a of None \<Rightarrow> x | Some v \<Rightarrow> f v)"
  "(\<And>v. b = Inl v \<Longrightarrow> books P N w (g v)) \<Longrightarrow> (\<And>v. b = Inr v \<Longrightarrow> books P N w (h v)) \<Longrightarrow>
    books P N w (case b of Inl v \<Rightarrow> g v | Inr v \<Rightarrow> h v)"
  "(\<And>u v. p = (u, v) \<Longrightarrow> books P N w (k u v)) \<Longrightarrow> books P N w (case p of (u, v) \<Rightarrow> k u v)"
  by (auto split: option.split sum.split prod.split)

lemma books_import:
  "hget (w_sessions w) sid \<noteq> None \<Longrightarrow> books P (id_mset req) w (import_skills P sid ver req content source dry force w)"
  unfolding import_skills_def case_prod_beta by (intro books_branch books_text books_answer calm) simp

lemma cua_call_same [calm]: "same_books w w' \<Longrightarrow> same_books w (snd (cua_calls P cs rs w'))"
  by (intro calm)

lemma books_cua: "hget (w_sessions w) sid \<noteq> None \<Longrightarrow> books P (id_mset req) w (run_cua P sid ver req content action w)"
  unfolding run_cua_def cua_refused_def case_prod_beta by (intro books_branch books_text books_answer calm) simp

lemma there: "same_books w w' \<Longrightarrow> hget (w_sessions w) sid = Some s \<Longrightarrow> \<exists>s'. hget (w_sessions w') sid = Some s' \<and> tview s' = tview s"
  using hget_tviews [of w' sid] hget_tviews [of w sid]
  by (cases "hget (w_sessions w') sid") (simp_all add: same_booksD)

text \<open>A turn of the host for the prompt: answered at once in ACP v2, a flight in ACP v1.\<close>

lemma own_turn_frame [simp]:
  "tviews (own_turn P sid ver req content w) = tviews w"
  "mset (answers (own_turn P sid ver req content w)) = mset (answers w) + (if ver = 2 then id_mset req else {#})"
  by (simp_all add: own_turn_def)

lemma books_own_turn:
  assumes s: "hget (w_sessions w) sid = Some s" and same: "same_books w w'" and ver: "ver = p_version P"
    and f: "\<And>s. tview (f s) = tview (s\<lparr>ses_flights := ses_flights s @ [new_flight turn req waits report]\<rparr>)"
  shows "books P (id_mset req) w (own_turn P sid ver req content (upd_session sid f w'))"
proof -
  obtain s' where s': "hget (w_sessions w') sid = Some s'" "tview s' = tview s" using there [OF same s] by auto
  have v: "tview (f s') = tview (s\<lparr>ses_flights := ses_flights s @ [new_flight turn req waits report]\<rparr>)"
    using s'(2) by (simp add: f) (simp add: tview_def)
  show ?thesis
    by (rule books_session [OF s, where v = "tview (f s')" and A = "if ver = 2 then id_mset req else {#}"])
      (use ver in \<open>auto simp: tviews_upd [OF s'(1)] same_booksD [OF same] v new_flight_def\<close>)
qed

lemma books_protocol:
  assumes s: "hget (w_sessions w) sid = Some s" and ver: "ver = p_version P"
  shows "books P (id_mset req) w (run_protocol_command P sid ver req content report c w)"
  unfolding run_protocol_command_def case_prod_beta Let_def
  by (intro books_branch books_local books_answer books_own_turn [OF s _ ver] calm) (use s in \<open>simp_all add: tview_def\<close>)

lemma books_start_recap:
  assumes s: "hget (w_sessions w) sid = Some s" and ver: "ver = p_version P"
  shows "books P (id_mset req) w (start_recap P sid ver req content arg w)"
proof -
  define r where "r cmd = \<lparr>rc_req = req, rc_retry = cmd, rc_ver = ver\<rparr>" for cmd
  have r: "rc_req (r cmd) = req" "rc_ver (r cmd) = ver" for cmd by (simp_all add: r_def)
  have given: "books P (id_mset req) w (if ver = 2 then send_state sid ''running'' None (accept_v2_prompt P req sid content w2)
      else send_user_message P sid content w2)"
    if same: "same_books w w1" and none: "ses_recap s = None" and w2: "w2 = upd_session sid (\<lambda>s. s\<lparr>ses_recap := Some (r cmd)\<rparr>) w1" for w1 w2 cmd
  proof -
    obtain s' where s': "hget (w_sessions w1) sid = Some s'" "tview s' = tview s" using there [OF same s] by auto
    have v: "tview (s'\<lparr>ses_recap := Some (r cmd)\<rparr>) = tview (s\<lparr>ses_recap := Some (r cmd)\<rparr>)" using s'(2) by (simp add: tview_def)
    show ?thesis
      by (rule books_session [OF s, where v = "tview (s\<lparr>ses_recap := Some (r cmd)\<rparr>)" and A = "if ver = 2 then id_mset req else {#}"])
        (use ver none in \<open>auto simp: w2 tviews_upd [OF s'(1)] same_booksD [OF same] v r\<close>)
  qed
  have given2: "ver = 2 \<Longrightarrow> books P (id_mset req) w (send_state sid ''running'' None (accept_v2_prompt P req sid content
        (upd_session sid (\<lambda>s. s\<lparr>ses_recap := Some (r cmd)\<rparr>) w1)))"
      and given1: "ver \<noteq> 2 \<Longrightarrow> books P (id_mset req) w (send_user_message P sid content (upd_session sid (\<lambda>s. s\<lparr>ses_recap := Some (r cmd)\<rparr>) w1))"
    if "same_books w w1" "ses_recap s = None" for w1 cmd
    using given [OF that refl, of cmd] by simp_all
  show ?thesis
    unfolding start_recap_def case_prod_beta Let_def s option.case r_def [symmetric]
    by (intro books_branch books_answer given2 given1 calm) simp_all
qed

lemma books_line:
  assumes s: "hget (w_sessions w) sid = Some s"
  shows "books P (id_mset req) w (run_line P sid t req content report line w)"
proof -
  have there: "hget (w_sessions w) sid \<noteq> None" using s by simp
  show ?thesis unfolding run_line_def Let_def
    by (auto split: sum.split command_line.split intro!: books_respond books_start_feedback books_start_recap books_import books_cua
        books_protocol there s)
qed

lemma books_plan: "books P (id_mset req) w (bare_plan P sid req content w)"
  unfolding bare_plan_def by (intro books_branch books_answer books_local calm) (simp add: tview_def)

lemma books_compact: "books P (id_mset req) w (run_compact P sid s req content w)"
  unfolding run_compact_def case_prod_beta by (intro books_branch books_answer books_local calm)

lemma books_start_turn:
  assumes s: "hget (w_sessions w) sid = Some s"
  shows "books P (id_mset req) w (start_turn P sid t req ps content report w)"
  unfolding start_turn_def turn_refused_def case_prod_beta Let_def
  by (intro books_branch books_answer books_own_turn [OF s] calm) (simp_all add: tview_def)

lemma books_run_prompt:
  assumes s: "hget (w_sessions w) sid = Some s"
  shows "books P (id_mset req) w (run_prompt P sid t req bs ps content report w)"
  unfolding run_prompt_def
  by (intro books_branch books_answer books_line [OF s] books_plan books_compact books_start_turn [OF s] calm)

lemma books_prompt: "books P (id_mset req) w (handle_prompt P req sid bs mt w)"
proof -
  have run: "books P (id_mset req) w (run_prompt P sid t req bs ps content report w')"
    if same: "same_books w w'" and s: "hget (w_sessions w) sid = Some s" for w' t s ps content report
  proof -
    obtain s' where "hget (w_sessions w') sid = Some s'" using there [OF same s] by auto
    then show ?thesis by (intro books_first [OF books_same [OF same]] books_run_prompt)
  qed
  show ?thesis unfolding handle_prompt_def case_prod_beta Let_def
    by (intro books_branch books_answer run calm) (simp_all add: tview_def)
qed

lemma tview_flights: "ses_ver s = 2 \<Longrightarrow> held 2 (tview (s\<lparr>ses_flights := fs\<rparr>)) = held 2 (tview s)"
  by simp

text \<open>A steered turn holds no request.\<close>

lemma books_adopt: "books P {#} w (adopt_steered sid turn started s w)"
proof -
  let ?f = "\<lambda>s. s\<lparr>ses_active_turn := Some turn, ses_flights := ses_flights s @ [new_flight turn None False None]\<rparr>"
  have new: "books P {#} w (upd_session sid ?f w)"
  proof (cases "hget (w_sessions w) sid")
    case None
    then show ?thesis by (simp add: sviews_upd_none books_refl)
  next
    case (Some t)
    show ?thesis
      by (rule books_session [OF Some, where v = "tview (?f t)" and A = "{#}"]) (auto simp: tviews_upd [OF Some] new_flight_def)
  qed
  have active: "same_books w (upd_session sid (\<lambda>s. s\<lparr>ses_active_turn := Some turn\<rparr>) w)"
    "same_books w (upd_session sid (\<lambda>s. if ses_active_turn s = None then s\<lparr>ses_active_turn := Some turn\<rparr> else s) w)"
    by (intro calm; simp add: tview_def)+
  show ?thesis unfolding adopt_steered_def by (intro books_branch new books_same active calm)
qed

lemma books_ack: "books P (id_mset req) w (ack_steering P req sid started content w)"
  by (rule books_cong) (simp_all add: ack_steering_def Let_def)

lemma books_steer: "books P (id_mset req) w (steer P req sid s ps content w)"
proof -
  have "books P (id_mset req) w (ack_steering P req sid started content (adopt_steered sid turn started s w'))"
    if "same_books w w'" for started turn w'
    using books_first [OF books_same [OF that] books_first [OF books_adopt books_ack]] .
  then show ?thesis unfolding steer_def case_prod_beta Let_def by (intro books_branch books_answer calm) (simp_all add: calm)
qed

lemma books_steering: "books P (id_mset req) w (handle_steering P req params blocks w)"
proof -
  have run: "books P (id_mset req) w (steer P req sid s ps content w')" if "same_books w w'" for sid s ps content w'
    by (rule books_first [OF books_same [OF that] books_steer])
  show ?thesis unfolding handle_steering_def case_prod_beta Let_def by (intro books_branch books_answer run calm)
qed

lemma books_stop_task: "books P (id_mset req) w (stop_async_task P req params w)"
  unfolding stop_async_task_def case_prod_beta Let_def by (intro books_branch books_answer calm)

lemma books_cancel: "books P {#} w (handle_cancel P sid w)"
proof -
  have 1: "books P {#} w (cancel_pending_recap P sid w')" if "same_books w w'" for w'
    by (rule books_first [OF books_same [OF that] books_cancel_recap])
  have 2: "books P {#} w (drop_guidance sid (interrupt_turns P sid stopped w'))" if "books P {#} w w'" for stopped w'
    by (rule books_none [OF that books_same]) (intro calm)
  have 3: "books P {#} w (settle_feedback_cancelled sid w')" if "books P {#} w w'" for w'
    by (rule books_none [OF that books_form_cancelled])
  show ?thesis unfolding handle_cancel_def Let_def case_prod_beta by (intro books_branch 3 2 1 books_refl calm)
qed

end
