(* ===== verification/Permission_Steps.thy ===== *)
theory Permission_Steps
  imports Permission_Run
begin

text \<open>
  The approval flow as an abstract step relation. A flow state has the views of the sessions, the reviews
  that wait and the one that runs, the decisions sent and the tasks left; \<open>K\<close> says which approvals have been received from hosts. The rules of \<open>astep\<close> say what
  one task may do to it; \<open>task_refines\<close> shows that every task of the model, and \<open>event_refines\<close> that every
  event of the loop, is a step or two of this relation. The properties are proved on the relation.
\<close>

section \<open>The relation\<close>

record flow =
  fl_views :: "session_view hmap"
  fl_queue :: "review_job list"
  fl_active :: "review_job option"
  fl_timed :: bool
  fl_done :: "(string \<times> string \<times> permission_decision) list"
  fl_tasks :: "task list"

definition flow_of :: "world \<Rightarrow> task list \<Rightarrow> flow" where
  "flow_of w ts = \<lparr>fl_views = sviews w, fl_queue = reviews w, fl_active = rs_active (w_review w),
     fl_timed = (rs_deadline (w_review w) \<noteq> None), fl_done = decides w, fl_tasks = ts\<rparr>"

definition choices_of :: "surroundings \<Rightarrow> J \<Rightarrow> perm_choice list" where
  "choices_of P params = snd (perm_options (e_lower (p_env P)) params)"

text \<open>The approval a host asked for with these parameters.\<close>

definition asked :: "J \<Rightarrow> string \<Rightarrow> string \<Rightarrow> J \<Rightarrow> bool" where
  "asked params sid i req \<longleftrightarrow>
     sid = str_or params ''sessionId'' [] \<and> i = str_or params ''approvalId'' [] \<and> req = requirement_of params"

abbreviation seen_key :: "string \<Rightarrow> string \<Rightarrow> J \<Rightarrow> string \<times> string \<times> string" where
  "seen_key sid i req \<equiv> (sid, i, j_to_string req)"

text \<open>\<open>K\<close> says which approvals have been received. The editor's arguments may be added to one as
  \<^verbatim>\<open>rawArgs\<close> before it is queued or shown; nothing that bears on the decision reads them.\<close>

definition was_sent :: "(J \<Rightarrow> bool) \<Rightarrow> J \<Rightarrow> bool" where
  "was_sent K params \<longleftrightarrow> (\<exists>sent. K sent \<and> (\<forall>k. k \<noteq> ''rawArgs'' \<longrightarrow> jget params k = jget sent k))"

definition silent :: "task \<Rightarrow> bool" where
  "silent t \<longleftrightarrow> (case t of DoDecide a s d \<Rightarrow> False | DoStart \<Rightarrow> False | DoDeny j k r \<Rightarrow> False | DoOpen p \<Rightarrow> False | _ \<Rightarrow> True)"

text \<open>One rule per way a task can change the flow. \<open>G\<close> holds of the decisions the event itself brings.\<close>

inductive astep :: "surroundings \<Rightarrow> (J \<Rightarrow> bool) \<Rightarrow> (string \<Rightarrow> string \<Rightarrow> permission_decision \<Rightarrow> bool) \<Rightarrow> flow \<Rightarrow> flow \<Rightarrow> bool"
  for P :: surroundings and K :: "J \<Rightarrow> bool" and G :: "string \<Rightarrow> string \<Rightarrow> permission_decision \<Rightarrow> bool" where
  Quiet: "list_all silent new \<Longrightarrow> silent t \<Longrightarrow> fl_tasks f = t # ts \<Longrightarrow> astep P K G f (f\<lparr>fl_tasks := new @ ts\<rparr>)"
| Open: "fl_tasks f = DoOpen params # ts \<Longrightarrow> astep P K G f (f\<lparr>fl_tasks := ts\<rparr>)"
| Pop: "hget (fl_views f) a = Some (None, params # q, seen) \<Longrightarrow> fl_tasks f = DoPop a # ts \<Longrightarrow>
    astep P K G f (f\<lparr>fl_views := hput a (None, q, seen) (fl_views f), fl_tasks := DoOpen params # ts\<rparr>)"
| Add: "list_all (\<lambda>t. silent t \<or> t = DoStart) new \<Longrightarrow> astep P K G f (f\<lparr>fl_tasks := new @ fl_tasks f\<rparr>)"
| Requeue: "hget (fl_views f) a = Some (p, q, seen) \<Longrightarrow> \<forall>x\<in>set q'. x \<in> set q \<or> was_sent K x \<Longrightarrow> p' = p \<or> p' = None \<Longrightarrow>
    astep P K G f (f\<lparr>fl_views := hput a (p', q', seen) (fl_views f)\<rparr>)"
| Mark: "hget (fl_views f) a = Some (p, q, seen) \<Longrightarrow> k \<notin> set seen \<Longrightarrow> set q' \<subseteq> set q \<Longrightarrow>
    astep P K G f (f\<lparr>fl_views := hput a (None, q', k # seen) (fl_views f)\<rparr>)"
| Show: "hget (fl_views f) a = Some (p, q, seen) \<Longrightarrow> seen_key sid i req \<notin> set seen \<Longrightarrow> set q' \<subseteq> set q \<Longrightarrow> was_sent K params \<Longrightarrow>
    asked params sid i req \<Longrightarrow>
    pp_sid pp = sid \<Longrightarrow> pp_id pp = i \<Longrightarrow> pp_requirement pp = req \<Longrightarrow> pp_choices pp = choices_of P params \<Longrightarrow> pp_feedback pp = None \<Longrightarrow>
    astep P K G f (f\<lparr>fl_views := hput a (Some pp, q', seen_key sid i req # seen) (fl_views f)\<rparr>)"
| Policy: "hget (fl_views f) a = Some (p, q, seen) \<Longrightarrow> seen_key sid i req \<notin> set seen \<Longrightarrow> was_sent K params \<Longrightarrow> asked params sid i req \<Longrightarrow>
    d_id d = i \<Longrightarrow> d_req d = req \<Longrightarrow> command_prefix_choice P params = Some (d_choice d) \<Longrightarrow>
    astep P K G f (f\<lparr>fl_views := hput a (p, q, seen_key sid i req # seen) (fl_views f), fl_tasks := DoDecide a sid d # fl_tasks f\<rparr>)"
| Enqueue: "hget (fl_views f) a = Some (p, q, seen) \<Longrightarrow> seen_key (rj_sid job) (rj_id job) (rj_req job) \<notin> set seen \<Longrightarrow> was_sent K params \<Longrightarrow>
    asked params (rj_sid job) (rj_id job) (rj_req job) \<Longrightarrow> rj_acp job = a \<Longrightarrow> rj_choices job = choices_of P params \<Longrightarrow>
    astep P K G f (f\<lparr>fl_views := hput a (p, q, seen_key (rj_sid job) (rj_id job) (rj_req job) # seen) (fl_views f),
      fl_queue := fl_queue f @ [job], fl_tasks := DoStart # fl_tasks f\<rparr>)"
| Unqueue: "astep P K G f (f\<lparr>fl_queue := filter keep (fl_queue f)\<rparr>)"
| StartIdle: "fl_tasks f = DoStart # ts \<Longrightarrow> fl_active f \<noteq> None \<or> fl_queue f = [] \<Longrightarrow> astep P K G f (f\<lparr>fl_tasks := ts\<rparr>)"
| Start: "fl_tasks f = DoStart # ts \<Longrightarrow> fl_active f = None \<Longrightarrow> fl_queue f = job # jobs \<Longrightarrow>
    astep P K G f (f\<lparr>fl_active := Some job, fl_queue := jobs, fl_timed := True, fl_tasks := ts\<rparr>)"
| StartFails: "fl_tasks f = DoStart # ts \<Longrightarrow> fl_active f = None \<Longrightarrow> fl_queue f = job # jobs \<Longrightarrow> list_all silent extra \<Longrightarrow>
    astep P K G f (f\<lparr>fl_queue := jobs, fl_tasks := DoDeny job k r # extra @ DoStart # ts\<rparr>)"
| Deny: "fl_tasks f = DoDeny job k r # ts \<Longrightarrow> deny_choice (rj_choices job) = Some choice \<Longrightarrow>
    astep P K G f (f\<lparr>fl_tasks := DoDecide (rj_acp job) (rj_sid job) (job_decision job choice fb n) # ts\<rparr>)"
| DenyClosed: "fl_tasks f = DoDeny job k r # ts \<Longrightarrow> astep P K G f (f\<lparr>fl_tasks := ts\<rparr>)"
| Send: "fl_tasks f = DoDecide a sid d # ts \<Longrightarrow> list_all silent new \<Longrightarrow>
    astep P K G f (f\<lparr>fl_done := fl_done f @ [(a, sid, d)], fl_tasks := new @ ts\<rparr>)"
| Guide: "hget (fl_views f) a = Some (Some p, q, seen) \<Longrightarrow> pp_feedback p = None \<Longrightarrow> \<not> is_approving (e_lower (p_env P)) (pp_choices p) (pg_choice g) \<Longrightarrow>
    astep P K G f (f\<lparr>fl_views := hput a (Some (p\<lparr>pp_feedback := Some g\<rparr>), q, seen) (fl_views f)\<rparr>)"
| Settle: "hget (fl_views f) a = Some (Some p, q, seen) \<Longrightarrow> d_id d = pp_id p \<Longrightarrow> d_req d = pp_requirement p \<Longrightarrow> G a (pp_sid p) d \<Longrightarrow>
    astep P K G f (f\<lparr>fl_views := hput a (None, q, seen) (fl_views f), fl_tasks := DoDecide a (pp_sid p) d # fl_tasks f\<rparr>)"
| Judge: "fl_active f = Some job \<Longrightarrow> G (rj_acp job) (rj_sid job) (job_decision job choice None None) \<Longrightarrow>
    astep P K G f (f\<lparr>fl_active := None, fl_timed := False,
      fl_tasks := DoDecide (rj_acp job) (rj_sid job) (job_decision job choice None None) # DoStart # fl_tasks f\<rparr>)"
| JudgeDeny: "fl_active f = Some job \<Longrightarrow> list_all silent extra \<Longrightarrow>
    astep P K G f (f\<lparr>fl_active := None, fl_timed := False, fl_tasks := DoDeny job k r # extra @ DoStart # fl_tasks f\<rparr>)"
| Discard: "fl_active f = Some job \<Longrightarrow> list_all silent extra \<Longrightarrow>
    astep P K G f (f\<lparr>fl_active := None, fl_timed := False, fl_tasks := extra @ DoStart # fl_tasks f\<rparr>)"
| Untime: "fl_active f = None \<Longrightarrow> astep P K G f (f\<lparr>fl_timed := False\<rparr>)"

section \<open>Tasks refine it\<close>

abbreviation asteps :: "surroundings \<Rightarrow> (J \<Rightarrow> bool) \<Rightarrow> (string \<Rightarrow> string \<Rightarrow> permission_decision \<Rightarrow> bool) \<Rightarrow> flow \<Rightarrow> flow \<Rightarrow> bool" where
  "asteps P K G \<equiv> (astep P K G)\<^sup>*\<^sup>*"

lemma flow_same: "same_flow w w' \<Longrightarrow> flow_of w' ts = flow_of w ts"
  by (simp add: flow_of_def same_flow_def)

lemma flow_of_simps [simp]:
  "fl_views (flow_of w ts) = sviews w" "fl_queue (flow_of w ts) = reviews w" "fl_active (flow_of w ts) = rs_active (w_review w)"
  "fl_timed (flow_of w ts) = (rs_deadline (w_review w) \<noteq> None)" "fl_done (flow_of w ts) = decides w" "fl_tasks (flow_of w ts) = ts"
  by (simp_all add: flow_of_def)

lemma silent_simps [simp]:
  "\<not> silent (DoOpen p)" "silent (DoPop a)" "silent DoReset" "silent (DoResume a)" "\<not> silent DoStart" "\<not> silent (DoDeny j k r)" "\<not> silent (DoDecide a s d)"
  by (simp_all add: silent_def)

lemma astep_eq: "astep P K G f f' \<Longrightarrow> f' = f'' \<Longrightarrow> asteps P K G f f''"
  by blast

lemma flow_Quiet:
  assumes "same_flow w w'" "list_all silent new" "silent t"
  shows "asteps P K G (flow_of w (t # ts)) (flow_of w' (new @ ts))"
  by (rule astep_eq [OF Quiet [of new t "flow_of w (t # ts)" ts]]) (use assms in \<open>simp_all add: flow_of_def same_flow_def\<close>)

lemma refine_pop:
  assumes "pop_queued_approval a w = (w', new)"
  shows "asteps P K G (flow_of w (DoPop a # ts)) (flow_of w' (new @ ts))"
proof -
  consider "w' = w" "new = []"
    | s q qs where "hget (w_sessions w) a = Some s" "ses_queue s = q # qs" "ses_pending s = None"
        "w' = upd_session a (\<lambda>s. s\<lparr>ses_queue := qs\<rparr>) w" "new = [DoOpen q]"
    using assms unfolding pop_queued_approval_def by (auto split: option.splits list.splits)
  then show ?thesis
  proof cases
    case 1
    then show ?thesis using flow_Quiet [OF same_refl(1), of "[]" "DoPop a"] by simp
  next
    case 2
    have "astep P K G (flow_of w (DoPop a # ts)) (flow_of w' (new @ ts))"
      using Pop [of "flow_of w (DoPop a # ts)" a q qs "ses_seen s" ts P K G] 2
      by (simp add: flow_of_def hget_sviews sview_def sviews_upd)
    then show ?thesis by blast
  qed
qed

lemma decide_result:
  assumes "send_permission_decision P a s d w = (w', new)"
  shows "sviews w' = sviews w" "w_review w' = w_review w" "decides w' = decides w @ [(a, s, d)]" "new = [DoPop a]"
proof -
  obtain r w1 where c: "host_command P ''approval/decide'' (decide_params (p_cmd P (w_calls w)) d) (out_effect (Decide a s d) w) = (r, w1)"
    by fastforce
  have 1: "same_flow (out_effect (Decide a s d) w) w1"
    using same_host_command [of "out_effect (Decide a s d) w" P "''approval/decide''" "decide_params (p_cmd P (w_calls w)) d"] c by simp
  have "same_flow w1 w' \<and> new = [DoPop a]"
    using assms c unfolding send_permission_decision_def
    by (auto simp: Let_def split: sum.splits intro!: same_say calm same_trans [OF _ same_say(1)] same_trans [OF same_say(1) same_say(2)])
  with 1 show "sviews w' = sviews w" "w_review w' = w_review w" "decides w' = decides w @ [(a, s, d)]" "new = [DoPop a]"
    by (simp_all add: same_flow_def decides_out)
qed

lemma refine_decide:
  assumes "send_permission_decision P a s d w = (w', new)"
  shows "asteps P K G (flow_of w (DoDecide a s d # ts)) (flow_of w' (new @ ts))"
  using decide_result [OF assms]
  by (intro astep_eq [OF Send [of "flow_of w (DoDecide a s d # ts)" a s d ts "[DoPop a]"]]) (simp_all add: flow_of_def)

lemma refine_deny:
  assumes "deny_review_job P job k r w = (w', new)"
  shows "asteps P K G (flow_of w (DoDeny job k r # ts)) (flow_of w' (new @ ts))"
proof (cases "deny_choice (rj_choices job)")
  case None
  then have "same_flow w w'" "new = []" using assms
    by (auto simp: deny_review_job_def intro: same_trans [OF flow_out [OF _ same_refl(1)] same_fail_closed])
  then show ?thesis
    by (intro astep_eq [OF DenyClosed [of "flow_of w (DoDeny job k r # ts)" job k r ts]]) (simp_all add: flow_of_def same_flow_def)
next
  case (Some choice)
  then obtain fb where "w' = w" "new = [DoDecide (rj_acp job) (rj_sid job) (job_decision job choice fb (Some (deny_notice k r)))]"
    using assms by (auto simp: deny_review_job_def Let_def)
  then show ?thesis
    by (intro astep_eq [OF Deny [where fb = fb and n = "Some (deny_notice k r)" and k = k and r = r and ts = ts, OF _ Some]]) (simp_all add: flow_of_def)
qed

lemma refine_reset: "asteps P K G (flow_of w (DoReset # ts)) (flow_of (reset_reviewer_host w) ts)"
proof -
  have "flow_of (reset_reviewer_host w) ts = flow_of w ts"
    by (auto simp: reset_reviewer_host_def flow_of_def Let_def decides_out split: option.split)
  then show ?thesis using flow_Quiet [OF same_refl(1), of "[]" DoReset P K G w ts] by simp
qed

text \<open>Starting a review: the turn runs, or the job is denied.\<close>

definition started :: "review_job \<Rightarrow> world \<Rightarrow> world \<Rightarrow> task list \<Rightarrow> bool" where
  "started job w w' new \<longleftrightarrow>
     sviews w' = sviews w \<and> decides w' = decides w \<and> reviews w' = reviews w \<and>
     (rs_active (w_review w') = Some job \<and> rs_deadline (w_review w') \<noteq> None \<and> new = [] \<or>
      rs_active (w_review w') = rs_active (w_review w) \<and> rs_deadline (w_review w') = rs_deadline (w_review w) \<and>
      (\<exists>k r extra. list_all silent extra \<and> new = DoDeny job k r # extra @ [DoStart]))"

lemma started_deny: "started job w w [DoDeny job k r, DoStart]" "started job w w [DoDeny job k r, DoReset, DoStart]"
  unfolding started_def
  by (intro conjI disjI2 exI [of _ k] exI [of _ r] exI [of _ "[]"], simp_all)

lemma started_hosts [simp]:
  "started job (w\<lparr>w_hosts := h\<rparr>) w' new \<longleftrightarrow> started job w w' new" "started job w (w'\<lparr>w_hosts := h\<rparr>) new \<longleftrightarrow> started job w w' new"
  by (simp_all add: started_def)

lemma started_same:
  assumes "sviews w1 = sviews w" "decides w1 = decides w" "reviews w1 = reviews w"
    "rs_active (w_review w1) = rs_active (w_review w)" "rs_deadline (w_review w1) = rs_deadline (w_review w)" "started job w1 w' new"
  shows "started job w w' new"
  using assms by (simp add: started_def)

lemma turn_started:
  assumes "start_review_turn P job g sid w = (w', new)"
  shows "started job w w' new"
proof -
  obtain r w1 where r: "process_command P ReviewerHost g ''turn/start'' (turn_start_params (p_cmd P (w_calls w)) sid (rj_prompt job)) w = (r, w1)"
    by fastforce
  then have s: "same_flow w w1" using same_command by (metis snd_conv)
  show ?thesis
  proof (cases r)
    case (Inl e)
    then have "w' = w1" "new = [DoDeny job PlainDeny (''reviewer turn failed: '' @ err_message e), DoReset, DoStart]"
      using assms r by (simp_all add: start_review_turn_def)
    then show ?thesis using started_deny(2) started_same [of w1 w] s by (auto simp: same_flow_def)
  next
    case (Inr x)
    then show ?thesis using assms r s by (auto simp: start_review_turn_def started_def same_flow_def)
  qed
qed

lemma session_started:
  assumes "start_review_session P job g cwd w = (w', new)"
  shows "started job w w' new"
proof -
  obtain r w1 where r: "process_command P ReviewerHost g ''session/start''
         (json_object [(''commandId'', esc (p_cmd P (w_calls w))), (''workspaceRoot'', esc cwd), (''approvalMode'', quoted ''denyUnmatched'')]) w = (r, w1)"
    by fastforce
  then have s: "same_flow w w1" using same_command by (metis snd_conv)
  have early: "started job w w1 [DoDeny job k t, DoStart]" for k t
    using started_same [of w1 w, OF _ _ _ _ _ started_deny(1)] s by (simp add: same_flow_def)
  have late: "started job w w' new"
    if "start_review_turn P job g sid (upd_review (\<lambda>st. st\<lparr>rs_session := x, rs_host_sessions := y st\<rparr>) (w1\<lparr>w_hosts := h\<rparr>)) = (w', new)" for sid x y h
    by (rule started_same [OF _ _ _ _ _ turn_started [OF that]]) (use s in \<open>simp_all add: same_flow_def\<close>)
  show ?thesis using assms early late unfolding start_review_session_def r
    by (auto split: sum.splits option.splits)
qed

lemma refine_start:
  assumes "start_next_review P w = (w', new)"
  shows "asteps P K G (flow_of w (DoStart # ts)) (flow_of w' (new @ ts))"
proof (cases "rs_active (w_review w) = None \<and> reviews w \<noteq> []")
  case False
  then have "w' = w" "new = []" using assms by (auto simp: start_next_review_def split: option.splits list.splits)
  then show ?thesis using False
    by (intro astep_eq [OF StartIdle [of "flow_of w (DoStart # ts)" ts]]) (auto simp: flow_of_def)
next
  case True
  then obtain job jobs where q: "reviews w = job # jobs" "rs_active (w_review w) = None" by (cases "reviews w") auto
  define w1 where "w1 = upd_review (\<lambda>st. st\<lparr>rs_queue := jobs\<rparr>) w"
  define w2 where "w2 = (if SESSIONS_PER_HOST \<le> length (rs_host_sessions (w_review w)) then reset_reviewer_host w1 else w1)"
  have w2: "sviews w2 = sviews w" "decides w2 = decides w" "reviews w2 = jobs" "rs_active (w_review w2) = None"
      "rs_deadline (w_review w2) = rs_deadline (w_review w)"
    using q by (auto simp: w2_def w1_def reset_reviewer_host_def Let_def decides_out split: option.split)
  have "started job w2 w' new" using assms started_deny(1)
    unfolding start_next_review_def q prod.case option.case list.case Let_def w1_def [symmetric] w2_def [symmetric]
    by (auto split: prod.splits sum.splits option.splits dest: turn_started session_started)
  then show ?thesis unfolding started_def
  proof (elim conjE disjE exE)
    assume a: "sviews w' = sviews w2" "decides w' = decides w2" "reviews w' = reviews w2"
      "rs_active (w_review w') = Some job" "rs_deadline (w_review w') \<noteq> None" "new = []"
    show ?thesis by (rule astep_eq [OF Start [of "flow_of w (DoStart # ts)" ts job jobs]])
        (use a w2 q in \<open>simp_all add: flow_of_def\<close>)
  next
    fix k r extra
    assume a: "sviews w' = sviews w2" "decides w' = decides w2" "reviews w' = reviews w2"
      "rs_active (w_review w') = rs_active (w_review w2)" "rs_deadline (w_review w') = rs_deadline (w_review w2)"
      "list_all silent extra" "new = DoDeny job k r # extra @ [DoStart]"
    show ?thesis by (rule astep_eq [OF StartFails [of "flow_of w (DoStart # ts)" ts job jobs extra P K G k r]])
        (use a w2 q in \<open>simp_all add: flow_of_def\<close>)
  qed
qed

section \<open>Opening an approval refines it\<close>

lemma asteps_one: "astep P K G f f' \<Longrightarrow> asteps P K G f f'"
  by blast

lemma asteps_then: "asteps P K G f f' \<Longrightarrow> asteps P K G f' f'' \<Longrightarrow> asteps P K G f f''"
  by (rule rtranclp_trans)

lemma flow_pop_task: "asteps P K G (flow_of w (DoOpen params # ts)) (flow_of w ts)"
  by (rule astep_eq [OF Open [of "flow_of w (DoOpen params # ts)" params ts]]) (simp_all add: flow_of_def)

lemma flow_Requeue:
  assumes "hget (w_sessions w) a = Some s" "\<forall>x\<in>set (ses_queue (f s)). x \<in> set (ses_queue s) \<or> was_sent K x" "ses_seen (f s) = ses_seen s" "ses_pending (f s) = ses_pending s \<or> ses_pending (f s) = None"
  shows "asteps P K G (flow_of w ts) (flow_of (upd_session a f w) ts)"
proof -
  have "hget (fl_views (flow_of w ts)) a = Some (fst (sview s), fst (snd (sview s)), snd (snd (sview s)))"
    by (simp add: hget_sviews assms(1))
  moreover have "fst (sview (f s)) = fst (sview s) \<or> fst (sview (f s)) = None" using assms(4) by (auto simp: sview_def)
  moreover have "\<forall>x\<in>set (fst (snd (sview (f s)))). x \<in> set (fst (snd (sview s))) \<or> was_sent K x" using assms(2) by (simp add: sview_def)
  moreover have "(fst (sview (f s)), fst (snd (sview (f s))), snd (snd (sview s))) = sview (f s)" using assms(3) by (simp add: sview_def)
  ultimately show ?thesis
    using Requeue [where f = "flow_of w ts" and a = a and p = "fst (sview s)" and q = "fst (snd (sview s))" and seen = "snd (snd (sview s))"
      and p' = "fst (sview (f s))" and P = P and K = K and G = G and q' = "fst (snd (sview (f s)))"]
    by (intro asteps_one) (simp add: flow_of_def sviews_upd [OF assms(1)])
qed

lemma flow_upd:
  assumes "\<And>s. set (ses_queue (f s)) \<subseteq> set (ses_queue s)" "\<And>s. ses_seen (f s) = ses_seen s"
    "\<And>s. ses_pending (f s) = ses_pending s \<or> ses_pending (f s) = None"
  shows "asteps P K G (flow_of w ts) (flow_of (upd_session a f w) ts)"
proof (cases "hget (w_sessions w) a")
  case (Some s)
  from flow_Requeue [where f = f, OF this _ assms(2) assms(3)] show ?thesis using assms(1) by blast
qed (simp add: sviews_upd_none)

lemma asked_review:
  assumes "str_at params ''approvalId'' = Some i"
  shows "asked params (unwrap_or (non_empty_str params ''sessionId'') []) i (requirement_of params)"
  using assms by (simp add: asked_def str_or_def non_empty_str_def unwrap_or_def nonempty_def split: option.split)

lemma refine_enqueue:
  assumes "enqueue_review P a own params w = Some (w', new)" "was_sent K params"
  shows "asteps P K G (flow_of w ts) (flow_of w' (new @ ts))"
proof -
  obtain i s where i: "str_at params ''approvalId'' = Some i" and s: "hget (w_sessions w) a = Some s"
    using assms by (auto simp: enqueue_review_def split: option.splits)
  let ?sid = "unwrap_or (non_empty_str params ''sessionId'') []" and ?req = "requirement_of params"
  let ?job = "new_review_job P a own ?sid i s params"
  have job: "rj_acp ?job = a" "rj_sid ?job = ?sid" "rj_id ?job = i" "rj_req ?job = ?req" "rj_choices ?job = choices_of P params"
    by (simp_all add: new_review_job_def choices_of_def)
  consider "w' = w" "new = []"
    | "seen_key ?sid i ?req \<notin> set (ses_seen s)" "new = [DoStart]"
        "w' = upd_review (\<lambda>st. st\<lparr>rs_queue := rs_queue st @ [?job]\<rparr>) (upd_session a (\<lambda>s. s\<lparr>ses_seen := seen_key ?sid i ?req # ses_seen s\<rparr>) w)"
    using assms i s unfolding enqueue_review_def by (simp add: Let_def split: if_splits)
  then show ?thesis
  proof cases
    case 1
    then show ?thesis by simp
  next
    case 2
    have ask: "asked params (rj_sid ?job) (rj_id ?job) (rj_req ?job)" using asked_review [OF i] job by simp
    have view: "hget (fl_views (flow_of w ts)) a = Some (fst (sview s), fst (snd (sview s)), ses_seen s)"
      using s by (simp add: hget_sviews sview_def)
    show ?thesis
      by (rule asteps_one, rule back_subst [of "astep P K G (flow_of w ts)", OF Enqueue [OF view _ assms(2) ask]])
        (use 2 s job in \<open>simp_all add: flow_of_def sviews_upd sview_def\<close>)
  qed
qed

lemma show_result:
  assumes s: "hget (w_sessions w) a = Some s"
  obtains "same_flow w (show_permission P a own ch m i params w)"
  | p where "sviews (show_permission P a own ch m i params w) = hput a (Some p, ses_queue s, ses_seen s) (sviews w)"
      "decides (show_permission P a own ch m i params w) = decides w" "w_review (show_permission P a own ch m i params w) = w_review w"
      "pp_sid p = m" "pp_id p = i" "pp_requirement p = requirement_of params" "pp_choices p = choices_of P params" "pp_feedback p = None"
proof -
  let ?w' = "show_permission P a own ch m i params w"
  define w1 where "w1 = (if ses_ver s = 2 then out_effect (SendState a ''requires_action'' None) w else w)"
  have w1: "same_flow w w1" "hget (w_sessions w1) a = Some s" using s by (auto simp: w1_def intro!: calm)
  have eq: "?w' = (if choices_of P params = [] then fail_closed_owner_work P a own ch w
      else if \<not> p_writable P (w_asks w1) then w1\<lparr>w_asks := w_asks w1 + 1\<rparr>
      else upd_session a (\<lambda>s. s\<lparr>ses_pending := Some (new_pending P own ch m i params (w_asks w1) (permission_card_id params a i w))\<rparr>)
        (out_effect (AskPermission (w_asks w1) a (ses_ver s) (fst (approval_title_kind (p_env P) params))
           (permission_card P params (permission_card_id params a i w)) (fst (perm_options (e_lower (p_env P)) params))) (w1\<lparr>w_asks := w_asks w1 + 1\<rparr>)))"
    unfolding show_permission_def w1_def choices_of_def using s by (simp add: Let_def case_prod_beta)
  have np: "pp_sid (new_pending P own ch m i params n t) = m" "pp_id (new_pending P own ch m i params n t) = i"
      "pp_requirement (new_pending P own ch m i params n t) = requirement_of params"
      "pp_choices (new_pending P own ch m i params n t) = choices_of P params" "pp_feedback (new_pending P own ch m i params n t) = None" for n t
    by (simp_all add: new_pending_def choices_of_def)
  consider "?w' = fail_closed_owner_work P a own ch w" | "?w' = w1\<lparr>w_asks := w_asks w1 + 1\<rparr>"
    | p e where "?w' = upd_session a (\<lambda>s. s\<lparr>ses_pending := Some p\<rparr>) (out_effect e (w1\<lparr>w_asks := w_asks w1 + 1\<rparr>))" "plain_effect e"
        "pp_sid p = m" "pp_id p = i" "pp_requirement p = requirement_of params" "pp_choices p = choices_of P params" "pp_feedback p = None"
    using eq np plain_effect_simps(2) by presburger
  then show thesis
  proof cases
    case 1
    then show ?thesis using that(1) same_fail_closed by metis
  next
    case 2
    then show ?thesis using that(1) w1(1) by (simp add: same_flow_def)
  next
    case (3 p e)
    have "sviews ?w' = hput a (Some (p\<lparr>pp_title := []\<rparr>), ses_queue s, ses_seen s) (sviews w)"
      using w1 3(1) by (simp add: sviews_upd sview_def same_flow_def)
    moreover have "decides ?w' = decides w" "w_review ?w' = w_review w"
      using w1(1) 3(1,2) by (simp_all add: same_flow_def decides_out plain_effect_def split: effect.splits)
    ultimately show ?thesis using that(2) [of "p\<lparr>pp_title := []\<rparr>"] 3 by simp
  qed
qed

lemma remove_first_subset: "x \<in> set (remove_first f xs) \<Longrightarrow> x \<in> set xs"
  unfolding remove_first_def by (metis Un_iff in_mono list.set_sel(2) set_append set_dropWhileD set_takeWhileD tl_Nil)

lemma place_result:
  assumes "place_approval m i r params s = (pl, stale, s')"
  shows "ses_pending s' = ses_pending s \<or> ses_pending s' = None"
    "pl \<noteq> Shown \<Longrightarrow> ses_seen s' = ses_seen s"
    "x \<in> set (ses_queue s') \<Longrightarrow> x \<in> set (ses_queue s) \<or> x = params \<and> pl \<noteq> Shown"
    "pl = Shown \<Longrightarrow> ses_seen s' = (m, i, r) # ses_seen s \<and> (m, i, r) \<notin> set (ses_seen s) \<and> ses_pending s' = None"
  using assms by (auto simp: place_approval_def Let_def dest: remove_first_subset split: if_splits option.splits)

lemma refine_editor:
  assumes s: "hget (w_sessions w) a = Some s" and K: "was_sent K params" and ask: "asked params m i req"
    and pl: "place_approval m i (j_to_string req) params s = (Shown, stale, s')"
  shows "asteps P K G (flow_of w ts) (flow_of (show_permission P a own ch m i params (send_cancel_request stale (upd_session a (\<lambda>_. s') w))) ts)"
proof -
  let ?w1 = "send_cancel_request stale (upd_session a (\<lambda>_. s') w)"
  note p = place_result(4) [OF pl refl]
  have sub: "set (ses_queue s') \<subseteq> set (fst (snd (sview s)))" using place_result(3) [OF pl] by (auto simp: sview_def)
  have w1: "hget (w_sessions ?w1) a = Some s'" using s by (simp add: send_cancel_request_def upd_session_def split: option.split)
  have v1: "sviews ?w1 = hput a (None, ses_queue s', seen_key m i req # ses_seen s) (sviews w)"
    using same_flowD(1) [OF same_withdraw] p by (simp add: sviews_upd [OF s] sview_def)
  have f1: "decides ?w1 = decides w" "w_review ?w1 = w_review w"
    using same_flowD [OF same_withdraw [of "upd_session a (\<lambda>_. s') w" stale]] by simp_all
  have view: "hget (fl_views (flow_of w ts)) a = Some (fst (sview s), fst (snd (sview s)), ses_seen s)"
    using s by (simp add: hget_sviews sview_def)
  have req: "req = requirement_of params" using ask by (simp add: asked_def)
  show ?thesis
  proof (rule show_result [OF w1, of P own ch m i params])
    assume "same_flow ?w1 (show_permission P a own ch m i params ?w1)"
    then show ?thesis using Mark [OF view, of "seen_key m i req" "ses_queue s'" P K G] sub p v1 f1
      by (intro asteps_one) (simp add: flow_of_def same_flow_def)
  next
    fix pp
    assume r: "sviews (show_permission P a own ch m i params ?w1) = hput a (Some pp, ses_queue s', ses_seen s') (sviews ?w1)"
      "decides (show_permission P a own ch m i params ?w1) = decides ?w1" "w_review (show_permission P a own ch m i params ?w1) = w_review ?w1"
      "pp_sid pp = m" "pp_id pp = i" "pp_requirement pp = requirement_of params" "pp_choices pp = choices_of P params" "pp_feedback pp = None"
    have "hput a v (hput a u x) = hput a v x" for u v :: session_view and x by (induction x) auto
    then show ?thesis using Show [OF view _ sub K ask, of pp P G] r p v1 f1 req
      by (intro asteps_one) (simp add: flow_of_def)
  qed
qed

lemma flow_policy:
  assumes s: "hget (w_sessions w) a = Some s" and K: "was_sent K params" and ask: "asked params m i req" and "seen_key m i req \<notin> set (ses_seen s)"
    and "command_prefix_choice P params = Some choice"
  shows "asteps P K G (flow_of w ts) (flow_of (upd_session a (\<lambda>s. s\<lparr>ses_seen := seen_key m i req # ses_seen s\<rparr>) w)
    (DoDecide a m (prefix_decision m v i req choice) # ts))"
proof -
  have view: "hget (fl_views (flow_of w ts)) a = Some (fst (sview s), fst (snd (sview s)), ses_seen s)"
    using s by (simp add: hget_sviews sview_def)
  show ?thesis
    by (rule asteps_one, rule back_subst [of "astep P K G (flow_of w ts)",
        OF Policy [OF view assms(4) K ask, where d = "prefix_decision m v i req choice"]])
      (use assms in \<open>simp_all add: flow_of_def sviews_upd sview_def prefix_decision_def\<close>)
qed

lemma refine_dispatch:
  assumes "dispatch_approval P a own ch m i params w = (w', new)" "hget (w_sessions w) a \<noteq> None" "was_sent K params" "asked params m i (requirement_of params)"
  shows "asteps P K G (flow_of w ts) (flow_of w' (new @ ts))"
proof -
  obtain s where s: "hget (w_sessions w) a = Some s" using assms(2) by auto
  show ?thesis
  proof (cases "command_prefix_choice P params")
    case (Some choice)
    then show ?thesis using assms(1) s flow_policy [OF s assms(3,4) _ Some]
      by (auto simp: dispatch_approval_def Let_def split: if_splits)
  next
    case None
    note none = None
    show ?thesis
    proof (cases "enqueue_review P a own params w")
      case (Some r)
      then have "r = (w', new)" using assms(1) none s by (simp add: dispatch_approval_def Let_def)
      then show ?thesis using refine_enqueue [OF _ assms(3)] Some by blast
    next
      case None
      obtain pl stale s' where pl: "place_approval m i (j_to_string (requirement_of params)) params s = (pl, stale, s')"
        by (metis prod_cases3)
      let ?w1 = "send_cancel_request stale (upd_session a (\<lambda>_. s') w)"
      have r: "new = []" "w' = (case pl of Duplicate \<Rightarrow> retitle_editor_permission a m i params ?w1 | Queued \<Rightarrow> ?w1
          | Shown \<Rightarrow> show_permission P a own ch m i params ?w1)"
        using assms(1) none None s pl by (auto simp: dispatch_approval_def Let_def split: placement.splits)
      have queue: "\<forall>x\<in>set (ses_queue s'). x \<in> set (ses_queue s) \<or> was_sent K x" using place_result(3) [OF pl] assms(3) by blast
      have quiet: "asteps P K G (flow_of w ts) (flow_of ?w1 ts)" if "pl \<noteq> Shown"
        using flow_Requeue [OF s, of "\<lambda>_. s'" K P G ts] place_result(1,2) [OF pl] queue that flow_same [OF same_withdraw] by simp
      show ?thesis
      proof (cases pl)
        case Shown
        then show ?thesis using r refine_editor [OF s assms(3,4) pl [unfolded Shown]] by simp
      qed (use r quiet flow_same [OF same_retitle] in simp_all)
    qed
  qed
qed

lemma owner_known: "owner_for_msp_session w m = Some (a, own, ch) \<Longrightarrow> hget (w_sessions w) a \<noteq> None"
proof -
  assume o: "owner_for_msp_session w m = Some (a, own, ch)"
  have keys: "a \<in> fst ` set (w_sessions w)"
  proof (cases "List.find (\<lambda>(k, s). ses_msp_sid s = m) (w_sessions w)")
    case (Some x)
    then have "x \<in> set (w_sessions w)" by (metis find_Some_iff nth_mem)
    then show ?thesis using o Some by (force simp: owner_for_msp_session_def split: prod.splits)
  next
    case None
    then have f: "find_map (child_owner m) (w_sessions w) = Some (a, own, ch)" using o by (simp add: owner_for_msp_session_def)
    have inner: "\<exists>x \<in> set xs. g x = Some y" if "find_map g xs = Some y" for g :: "'x \<Rightarrow> 'y option" and xs y
      using that by (induction xs) (auto split: option.splits)
    obtain x where x: "x \<in> set (w_sessions w)" "child_owner m x = Some (a, own, ch)" using inner [OF f] by blast
    then have "fst x = a" unfolding child_owner_def by (auto split: prod.splits if_splits option.splits dest!: inner)
    then show ?thesis using x(1) by auto
  qed
  then show ?thesis by (simp add: map_of_eq_None_iff)
qed

lemma args_keep:
  assumes "with_editor_approval_args P a params w = (Some e, w1)" "k \<noteq> ''rawArgs''"
  shows "jget e k = jget params k"
proof -
  have "\<exists>ms raw. params = JObj ms \<and> e = JObj (ms @ [(''rawArgs'', JStr raw)])"
    using assms(1) unfolding with_editor_approval_args_def Let_def
    by (auto split: option.splits if_splits prod.splits sum.splits J.splits)
  then show ?thesis using assms(2) by (auto simp: map_add_def map_of_append split: option.split)
qed

lemma if_or: "(if c then x else if d then y else z) = r \<Longrightarrow> x = r \<or> y = r \<or> z = r"
  by (auto split: if_splits)

lemma refine_open:
  assumes "open_approval P params0 w = (w', new)" "was_sent K params0"
  shows "asteps P K G (flow_of w ts) (flow_of w' (new @ ts))"
proof -
  let ?m = "str_or params0 ''sessionId'' []" and ?i = "str_or params0 ''approvalId'' []"
  show ?thesis
  proof (cases "owner_for_msp_session w ?m")
    case None
    then show ?thesis using assms by (simp add: open_approval_def)
  next
    case (Some route)
    obtain a own ch where route: "owner_for_msp_session w ?m = Some (a, own, ch)" using Some by (cases route) auto
    obtain e w1 where e: "with_editor_approval_args P a params0 w = (e, w1)" by fastforce
    define params where "params = unwrap_or e params0"
    define w2 where "w2 = learn_resolved_approvals P a (clear_approval_reviewing a ?m ?i w1)"
    have "same_flow w w1" using same_args [of w P a params0] e by simp
    then have same: "same_flow w w2" unfolding w2_def by (rule same_trans [OF _ same_trans [OF same_clear(1) same_learn]])
    have keep: "jget params k = jget params0 k" if "k \<noteq> ''rawArgs''" for k
      using args_keep [of P a params0 w] e that by (cases e) (simp_all add: params_def)
    have K: "was_sent K params" using assms(2) keep by (auto simp: was_sent_def)
    have ask: "asked params ?m ?i (requirement_of params)"
      by (simp add: asked_def str_or_def str_at_def keep)
    have "fst ` set (w_sessions w2) = fst ` set (w_sessions w)" using same sviews_keys by (metis list.set_map same_flowD(1))
    then have known: "hget (w_sessions w2) a \<noteq> None" using owner_known [OF route] by (simp add: map_of_eq_None_iff)
    consider "w' = w" "new = []" | "w' = w2" "new = []" | "dispatch_approval P a own ch ?m ?i params w2 = (w', new)"
    proof -
      have "(w, []) = (w', new) \<or> (w2, []) = (w', new) \<or> dispatch_approval P a own ch ?m ?i params w2 = (w', new)"
        using assms(1) unfolding open_approval_def Let_def route e option.case prod.case params_def [symmetric] w2_def [symmetric]
        by (rule if_or)
      then show thesis using that by fast
    qed
    then show ?thesis
    proof cases
      case 3
      show ?thesis using refine_dispatch [OF 3 known K ask] flow_same [OF same] by simp
    qed (simp_all add: flow_same [OF same])
  qed
qed

definition openable :: "(J \<Rightarrow> bool) \<Rightarrow> task \<Rightarrow> bool" where
  "openable K t \<longleftrightarrow> (case t of DoOpen params \<Rightarrow> was_sent K params | _ \<Rightarrow> True)"

theorem task_refines:
  assumes "openable K t"
  shows "asteps P K G (flow_of w (t # ts)) (flow_of (fst (do_task P t w)) (snd (do_task P t w) @ ts))"
proof (cases t)
  case (DoOpen params)
  obtain w' new where o: "open_approval P params w = (w', new)" by fastforce
  show ?thesis using asteps_then [OF flow_pop_task refine_open [OF o]] DoOpen o assms by (simp add: openable_def)
next
  case (DoPop a)
  then show ?thesis using refine_pop [of a w "fst (do_task P t w)" "snd (do_task P t w)"] by simp
next
  case (DoDecide a s d)
  then show ?thesis using refine_decide [of P a s d w "fst (do_task P t w)" "snd (do_task P t w)"] by simp
next
  case DoStart
  then show ?thesis using refine_start [of P w "fst (do_task P t w)" "snd (do_task P t w)"] by simp
next
  case (DoDeny job k r)
  then show ?thesis using refine_deny [of P job k r w "fst (do_task P t w)" "snd (do_task P t w)"] by simp
next
  case DoReset
  then show ?thesis using refine_reset by simp
next
  case (DoResume a)
  then show ?thesis using flow_Quiet [OF same_resume, of "[]" "DoResume a"] by simp
qed

section \<open>Events refine it\<close>

text \<open>What the event itself gives a decision to rest on: the choice the editor selected for the shown
  permission (or the host's reject choice when it selected none), the rejection a guidance form belongs
  to, or the verdict of the running review.\<close>

definition shown_for :: "world \<Rightarrow> string \<Rightarrow> string \<Rightarrow> permission_decision \<Rightarrow> pending_perm \<Rightarrow> bool" where
  "shown_for w a sid d p \<longleftrightarrow>
     Option.bind (hget (w_sessions w) a) ses_pending = Some p \<and> sid = pp_sid p \<and> d_id d = pp_id p \<and> d_req d = pp_requirement p"

text \<open>The running review is about this approval and its text holds the verdict to allow.\<close>

definition verdict_for :: "world \<Rightarrow> string \<Rightarrow> string \<Rightarrow> permission_decision \<Rightarrow> review_job \<Rightarrow> bool" where
  "verdict_for w a sid d job \<longleftrightarrow>
     rs_active (w_review w) = Some job \<and> a = rj_acp job \<and> sid = rj_sid job \<and> d_id d = rj_id job \<and> d_req d = rj_req job \<and>
     (\<exists>asm. parse_assessment (rs_text (w_review w)) = Some asm \<and> effective_outcome asm = Allow)"

definition event_grounds :: "surroundings \<Rightarrow> world \<Rightarrow> loop_event \<Rightarrow> string \<Rightarrow> string \<Rightarrow> permission_decision \<Rightarrow> bool" where
  "event_grounds P w ev a sid d \<longleftrightarrow>
     (case ev of
        EditorSays req ans \<Rightarrow>
          (\<exists>p. shown_for w a sid d p \<and> pp_req p = Some req \<and>
             (ans = PermissionAnswer (Selected (d_choice d)) \<and> list_ex (\<lambda>c. pc_id c = d_choice d) (pp_choices p) \<or>
              fallback_deny (pp_choices p) = Some (d_choice d)))
      | GuidanceSays req ans \<Rightarrow> (\<exists>p f. shown_for w a sid d p \<and> pp_feedback p = Some f \<and> pg_req f = Some req \<and> d_choice d = pg_choice f)
      | HostSays tag meth params \<Rightarrow>
          (\<exists>job. verdict_for w a sid d job \<and> approve_once_choice (e_lower (p_env P)) (rj_choices job) = Some (d_choice d))
      | HostAsks tag meth params \<Rightarrow>
          (\<exists>job. verdict_for w a sid d job \<and> approve_once_choice (e_lower (p_env P)) (rj_choices job) = Some (d_choice d))
      | _ \<Rightarrow> False)"

lemma flow_review:
  assumes "rs_queue (f (w_review w)) = rs_queue (w_review w)" "rs_active (f (w_review w)) = rs_active (w_review w)"
    "rs_deadline (f (w_review w)) = rs_deadline (w_review w)"
  shows "flow_of (upd_review f w) ts = flow_of w ts"
  using assms by (simp add: flow_of_def)

lemma refine_finish:
  assumes "finish_review P job t (upd_review take_review w) = (w', new)" "rs_active (w_review w) = Some job"
    "\<And>asm choice. parse_assessment t = Some asm \<Longrightarrow> effective_outcome asm = Allow \<Longrightarrow>
       approve_once_choice (e_lower (p_env P)) (rj_choices job) = Some choice \<Longrightarrow>
       G (rj_acp job) (rj_sid job) (job_decision job choice None None)"
  shows "asteps P K G (flow_of w []) (flow_of w' new)"
proof -
  let ?w1 = "upd_review take_review w"
  have act: "fl_active (flow_of w []) = Some job" using assms(2) by simp
  have f1: "sviews ?w1 = sviews w" "decides ?w1 = decides w" "reviews ?w1 = reviews w" "rs_active (w_review ?w1) = None" "rs_deadline (w_review ?w1) = None"
    by (simp_all add: take_review_def)
  have discard: "asteps P K G (flow_of w []) (flow_of ?w1 [DoStart])"
    by (rule astep_eq [OF Discard [OF act, of "[]"]]) (use f1 in \<open>simp_all add: flow_of_def\<close>)
  have deny: "asteps P K G (flow_of w []) (flow_of ?w1 (DoDeny job k r # extra @ [DoStart]))" if "list_all silent extra" for k r extra
    by (rule astep_eq [OF JudgeDeny [OF act that]]) (use f1 in \<open>simp_all add: flow_of_def\<close>)
  have judge: "asteps P K G (flow_of w []) (flow_of ?w1 [DoDecide (rj_acp job) (rj_sid job) (job_decision job choice None None), DoStart])"
    if "G (rj_acp job) (rj_sid job) (job_decision job choice None None)" for choice
    by (rule astep_eq [OF Judge [where G = G and choice = choice and job = job, OF act that]]) (use f1 in \<open>simp_all add: flow_of_def\<close>)
  show ?thesis using assms(1,3) discard deny [of "[]"] deny [of "[DoReset]"] judge unfolding finish_review_def
    by (auto simp: allow_choice_def split: if_splits option.splits outcome.splits)
qed

lemma refine_over:
  assumes "review_turn_over P terminal params w = (w', new)"
    "\<And>job asm choice. rs_active (w_review w) = Some job \<Longrightarrow> parse_assessment (rs_text (w_review w)) = Some asm \<Longrightarrow>
       effective_outcome asm = Allow \<Longrightarrow> approve_once_choice (e_lower (p_env P)) (rj_choices job) = Some choice \<Longrightarrow>
       G (rj_acp job) (rj_sid job) (job_decision job choice None None)"
  shows "asteps P K G (flow_of w []) (flow_of w' new)"
proof (cases "rs_active (w_review w)")
  case None
  then have "w' = upd_review take_review w" "new = []" using assms(1) by (simp_all add: review_turn_over_def Let_def)
  then show ?thesis using None
    by (intro astep_eq [OF Untime [of "flow_of w []"]]) (simp_all add: flow_of_def take_review_def)
next
  case (Some job)
  show ?thesis
  proof (cases "terminal = ''completed''")
    case True
    then show ?thesis using assms Some by (intro refine_finish [of P job "rs_text (w_review w)"]) (simp_all add: review_turn_over_def Let_def)
  next
    case False
    let ?w1 = "upd_review take_review w"
    have act: "fl_active (flow_of w []) = Some job" using Some by simp
    have "w' = ?w1" "new = (if review_job_resolved ?w1 job then [] else [DoDeny job PlainDeny (failed_turn_rationale terminal params)]) @ [DoReset, DoStart]"
      using assms(1) False Some by (auto simp: review_turn_over_def fail_review_turn_def Let_def)
    moreover have "asteps P K G (flow_of w []) (flow_of ?w1 [DoReset, DoStart])"
      by (rule astep_eq [OF Discard [OF act, of "[DoReset]"]]) (simp_all add: flow_of_def take_review_def)
    moreover have "asteps P K G (flow_of w []) (flow_of ?w1 (DoDeny job k r # [DoReset, DoStart]))" for k r
      by (rule astep_eq [OF JudgeDeny [OF act, of "[DoReset]"]]) (simp_all add: flow_of_def take_review_def)
    ultimately show ?thesis by simp
  qed
qed

lemma retry_same:
  assumes "retry_review_for_verdict P sid i w = (b, w')"
  shows "flow_of w' ts = flow_of w ts" "rs_active (w_review w') = rs_active (w_review w)" "rs_text (w_review w') = rs_text (w_review w)"
proof -
  have cmd: "same_flow w w1" if "process_command P k g m ps w = (r, w1)" for k g m ps r w1
    using same_command [of w P k g m ps] that by simp
  consider "w' = w" | k g m ps r where "process_command P k g m ps w = (r, w')"
    | k g m ps r w1 f where "process_command P k g m ps w = (r, w1)" "w' = upd_review f w1"
        "\<And>st. rs_queue (f st) = rs_queue st \<and> rs_active (f st) = rs_active st \<and> rs_deadline (f st) = rs_deadline st \<and> rs_text (f st) = rs_text st"
    using assms unfolding retry_review_for_verdict_def
    by (auto split: option.splits prod.splits sum.splits)
  then have "flow_of w' ts = flow_of w ts \<and> rs_active (w_review w') = rs_active (w_review w) \<and> rs_text (w_review w') = rs_text (w_review w)"
  proof cases
    case 2
    then show ?thesis using cmd [OF 2] by (simp add: flow_of_def same_flow_def)
  next
    case 3
    then show ?thesis using cmd [OF 3(1)] by (simp add: flow_of_def same_flow_def)
  qed simp
  then show "flow_of w' ts = flow_of w ts" "rs_active (w_review w') = rs_active (w_review w)" "rs_text (w_review w') = rs_text (w_review w)"
    by simp_all
qed

lemma refine_turn:
  assumes "review_turn_completed P params w = (w', new)"
    "\<And>job asm choice. rs_active (w_review w) = Some job \<Longrightarrow> parse_assessment (rs_text (w_review w)) = Some asm \<Longrightarrow>
       effective_outcome asm = Allow \<Longrightarrow> approve_once_choice (e_lower (p_env P)) (rj_choices job) = Some choice \<Longrightarrow>
       G (rj_acp job) (rj_sid job) (job_decision job choice None None)"
  shows "asteps P K G (flow_of w []) (flow_of w' new)"
proof -
  define w1 where "w1 = upd_review (\<lambda>st. st\<lparr>rs_retries := rs_retries st + 1, rs_turn := []\<rparr>) w"
  have w1: "flow_of w1 ts = flow_of w ts" for ts unfolding w1_def by (rule flow_review) simp_all
  have w1r: "rs_active (w_review w1) = rs_active (w_review w)" "rs_text (w_review w1) = rs_text (w_review w)" by (simp_all add: w1_def)
  have retry: "asteps P K G (flow_of w []) (flow_of w' new)"
    if r: "retry_review_for_verdict P sid i w1 = (b, w2)"
      and c: "(if b then (w2, []) else review_turn_over P terminal params w2) = (w', new)" for sid i b w2 terminal
  proof (cases b)
    case True
    then have "w' = w2" "new = []" using c by auto
    then show ?thesis using retry_same(1) [OF r, of "[]"] w1 [of "[]"] by (metis rtranclp.rtrancl_refl)
  next
    case False
    then have "review_turn_over P terminal params w2 = (w', new)" using c by simp
    from refine_over [OF this, of G] show ?thesis using assms(2) retry_same [OF r] w1 w1r by simp
  qed
  have over: "asteps P K G (flow_of w []) (flow_of w' new)" if "review_turn_over P terminal params w = (w', new)" for terminal
    using refine_over [OF that] assms(2) by blast
  show ?thesis using assms(1) over retry unfolding review_turn_completed_def Let_def w1_def [symmetric]
    by (auto split: if_splits option.splits prod.splits bool.splits)
qed

end
