(* ===== verification/Permission_Events.thy ===== *)
theory Permission_Events
  imports Permission_Steps
begin

text \<open>
  The events of the loop as steps of the approval flow: each event handler refines the relation of
  \<open>Permission_Steps\<close>, and so does an event with all the tasks that follow from it.
\<close>

section \<open>The reviewer's session\<close>

lemma if_chain:
  "(if a then x1 else if b then x2 else if c then x3 else if d then x4 else if e then x5 else if f then x6 else x7) = r \<Longrightarrow>
     x1 = r \<or> x2 = r \<or> x3 = r \<or> x4 = r \<or> x5 = r \<or> x6 = r \<or> x7 = r"
  by (auto split: if_splits)

lemma flow_hosts [simp]: "flow_of (w\<lparr>w_hosts := h\<rparr>) ts = flow_of w ts"
  by (simp add: flow_of_def)

lemma refine_foreground:
  assumes "review_foreground_completed P params w = (w', new)"
    "\<And>job asm choice. rs_active (w_review w) = Some job \<Longrightarrow> parse_assessment (rs_text (w_review w)) = Some asm \<Longrightarrow>
       effective_outcome asm = Allow \<Longrightarrow> approve_once_choice (e_lower (p_env P)) (rj_choices job) = Some choice \<Longrightarrow>
       G (rj_acp job) (rj_sid job) (job_decision job choice None None)"
  shows "asteps P K G (flow_of w []) (flow_of w' new)"
proof -
  consider "w' = w" "new = []"
    | job where "rs_active (w_review w) = Some job" "finish_review P job (rs_text (w_review w)) (upd_review take_review w) = (w', new)"
    using assms(1) unfolding review_foreground_completed_def Let_def by (auto split: if_splits option.splits)
  then show ?thesis
  proof cases
    case (2 job)
    show ?thesis by (rule refine_finish [OF 2(2,1)]) (rule assms(2) [OF 2(1)])
  qed simp
qed

lemma refine_item:
  "flow_of (upd_review (review_item_seen params) w) ts = flow_of w ts"
  "flow_of (upd_review (review_item_delta params) w) ts = flow_of w ts"
  "flow_of (upd_review (review_item_completed params) w) ts = flow_of w ts"
  by (rule flow_review; simp add: review_item_seen_def review_item_delta_def review_item_completed_def Let_def split: option.split)+

lemma refine_review:
  assumes "handle_review_event P meth params w = Some (w', new)"
    "\<And>job asm choice. rs_active (w_review w) = Some job \<Longrightarrow> parse_assessment (rs_text (w_review w)) = Some asm \<Longrightarrow>
       effective_outcome asm = Allow \<Longrightarrow> approve_once_choice (e_lower (p_env P)) (rj_choices job) = Some choice \<Longrightarrow>
       G (rj_acp job) (rj_sid job) (job_decision job choice None None)"
  shows "asteps P K G (flow_of w []) (flow_of w' new)"
proof -
  consider "flow_of w' new = flow_of w []" | "review_turn_completed P params w = (w', new)" | "review_foreground_completed P params w = (w', new)"
  proof -
    let ?ups = "[(upd_review (review_item_seen params) w, []), (upd_review (review_item_delta params) w, []),
      (upd_review (review_item_completed params) w, []), (w, [])]"
    have "(w', new) \<in> set ?ups \<or> review_turn_completed P params w = (w', new) \<or> review_foreground_completed P params w = (w', new) \<or>
        (\<exists>sid. (deny_reviewer_approval P sid params w, []) = (w', new))"
    proof -
      obtain sid where sid: "str_at params ''sessionId'' = Some sid" using assms(1) by (auto simp: handle_review_event_def split: option.splits)
      show ?thesis
      proof (cases "rs_session (w_review w) = Some sid")
        case False
        then show ?thesis using assms(1) sid by (auto simp: handle_review_event_def split: if_splits)
      next
        case True
        from assms(1) show ?thesis
          unfolding handle_review_event_def sid option.case True simp_thms if_False option.inject
          by (fastforce dest!: if_chain)
      qed
    qed
    then show thesis using that by (auto simp: refine_item flow_same [OF same_deny_reviewer])
  qed
  then show ?thesis
  proof cases
    case 2
    then show ?thesis by (rule refine_turn) (rule assms(2))
  next
    case 3
    then show ?thesis by (rule refine_foreground) (rule assms(2))
  qed simp
qed

lemma refine_expire:
  assumes "expire_review_deadline w = (w', new)"
  shows "asteps P K G (flow_of w []) (flow_of w' new)"
proof -
  define w1 where "w1 = upd_review (\<lambda>st. st\<lparr>rs_deadline := None, rs_active := None\<rparr>) w"
  have w1: "flow_of w1 ts = (flow_of w [])\<lparr>fl_active := None, fl_timed := False, fl_tasks := ts\<rparr>" for ts
    by (simp add: flow_of_def w1_def)
  have discard: "asteps P K G (flow_of w []) (flow_of w1 [DoReset, DoStart])" if "rs_active (w_review w) = Some job" for job
    by (rule astep_eq [OF Discard [of _ job "[DoReset]"]]) (use that in \<open>simp_all add: w1\<close>)
  have deny: "asteps P K G (flow_of w []) (flow_of w1 [DoDeny job PlainDeny r, DoReset, DoStart])"
    if "rs_active (w_review w) = Some job" for job r
    by (rule astep_eq [OF JudgeDeny [of _ job "[DoReset]" P K G PlainDeny r]]) (use that in \<open>simp_all add: w1\<close>)
  show ?thesis
  proof (cases "rs_deadline (w_review w) = None \<or> rs_active (w_review w) = None")
    case True
    then show ?thesis using assms by (auto simp: expire_review_deadline_def Let_def split: option.splits)
  next
    case False
    then obtain dl job where d: "rs_deadline (w_review w) = Some dl" "rs_active (w_review w) = Some job" by auto
    have "(if dl \<le> w_now w then (w1, (if review_job_resolved w job then []
              else [DoDeny job PlainDeny (''reviewer timed out after '' @ short_duration (rs_timeout (w_review w)))]) @ [DoReset, DoStart])
           else (w, [])) = (w', new)"
      using assms unfolding expire_review_deadline_def Let_def d prod.case option.case w1_def [symmetric] .
    then show ?thesis using discard [OF d(2)] deny [OF d(2)] by (auto split: if_splits)
  qed
qed

lemma refine_closed:
  assumes "reviewer_closed w = (w', new)"
  shows "asteps P K G (flow_of w []) (flow_of w' new)"
proof (cases "rs_active (w_review w)")
  case None
  then show ?thesis using assms
    by (intro astep_eq [OF Untime [of "flow_of w []"]]) (auto simp: flow_of_def reviewer_closed_def Let_def)
next
  case (Some job)
  then show ?thesis using assms
    by (intro astep_eq [OF JudgeDeny [of "flow_of w []" job "[]" P K G ReviewerFailed "''the reviewer host exited before deciding''"]])
      (auto simp: flow_of_def reviewer_closed_def Let_def)
qed

section \<open>Events of user sessions\<close>

lemma refine_invalidate:
  assumes "invalidate_pending_approval a k b w = (hit, w')"
  shows "asteps P K G (flow_of w ts) (flow_of w' ts)"
proof -
  have "asteps P K G (flow_of w ts) (flow_of (send_cancel_request r (upd_session a (\<lambda>s. s\<lparr>ses_pending := None\<rparr>) w)) ts)" for r
    unfolding flow_same [OF same_withdraw] by (rule flow_upd) simp_all
  then show ?thesis using assms unfolding invalidate_pending_approval_def by (auto split: option.splits if_splits)
qed

lemma refine_guidance: "asteps P K G (flow_of w ts) (flow_of (drop_guidance a w) ts)"
  unfolding drop_guidance_def by (metis prod.collapse refine_invalidate)

lemma refine_unqueue: "asteps P K G (flow_of w ts) (flow_of (drop_queued_review a m i w) ts)"
  by (rule astep_eq [OF Unqueue]) (simp add: flow_of_def drop_queued_review_def)

lemma refine_add:
  assumes "list_all (\<lambda>t. silent t \<or> t = DoStart) new"
  shows "asteps P K G (flow_of w []) (flow_of w new)"
  by (rule astep_eq [OF Add [OF assms]]) (simp add: flow_of_def)

lemma refine_resolved:
  assumes "approval_resolved params w = (w', new)"
  shows "asteps P K G (flow_of w []) (flow_of w' new)"
proof -
  let ?m = "str_or params ''sessionId'' []" and ?i = "str_or params ''approvalId'' []"
  show ?thesis
  proof (cases "owner_for_msp_session w ?m")
    case None
    then show ?thesis using assms by (simp add: approval_resolved_def)
  next
    case (Some route)
    obtain a own ch where route: "owner_for_msp_session w ?m = Some (a, own, ch)" using Some by (cases route) auto
    define w1 where "w1 = clear_approval_reviewing a ?m ?i w"
    define w2 where "w2 = (if ?i = [] then w1
       else drop_queued_review a ?m ?i (upd_session a (\<lambda>s. s\<lparr>ses_resolved := (?m, ?i) # ses_resolved s,
                          ses_queue := filter (\<lambda>q. \<not> queued_for ?m ?i q) (ses_queue s)\<rparr>) w1))"
    obtain hit w3 where inv: "invalidate_pending_approval a (Some (?m, ?i)) False w2 = (hit, w3)" by fastforce
    have res: "w' = w3" "new = (if hit then [DoPop a] else []) @ [DoResume a]"
      using assms unfolding approval_resolved_def Let_def route option.case prod.case w1_def [symmetric] w2_def [symmetric] inv
      by simp_all
    have "asteps P K G (flow_of w []) (flow_of w1 [])" unfolding w1_def flow_same [OF same_clear(1)] by simp
    moreover have "asteps P K G (flow_of w1 []) (flow_of w2 [])"
      unfolding w2_def by (auto intro!: asteps_then [OF flow_upd refine_unqueue])
    moreover have "asteps P K G (flow_of w2 []) (flow_of w3 [])" by (rule refine_invalidate [OF inv])
    moreover have "asteps P K G (flow_of w3 []) (flow_of w' new)" unfolding res by (rule refine_add) simp
    ultimately show ?thesis by (meson rtranclp_trans)
  qed
qed

text \<open>A world that differs in withdrawn permissions and emptied queues only, whatever the tasks.\<close>

definition subsides :: "world \<Rightarrow> world \<Rightarrow> bool" where
  "subsides w w' \<longleftrightarrow> (\<forall>P K G ts. asteps P K G (flow_of w ts) (flow_of w' ts))"

lemma subsides_flow: "same_flow w' w'' \<Longrightarrow> subsides w w' \<Longrightarrow> subsides w w''"
  by (simp add: subsides_def flow_same)

lemma subsides_refl: "subsides w w"
  by (simp add: subsides_def)

lemma subsides_trans: "subsides w1 w2 \<Longrightarrow> subsides w2 w3 \<Longrightarrow> subsides w1 w3"
  unfolding subsides_def by (meson rtranclp_trans)

lemma subsides_drop: "subsides w w' \<Longrightarrow> subsides w (drop_guidance a w')"
  by (erule subsides_trans) (unfold subsides_def, intro allI refine_guidance)

lemma subsides_upd:
  assumes "\<And>s. set (ses_queue (f s)) \<subseteq> set (ses_queue s)" "\<And>s. ses_seen (f s) = ses_seen s"
    "\<And>s. ses_pending (f s) = ses_pending s \<or> ses_pending (f s) = None" "subsides w w'"
  shows "subsides w (upd_session a f w')"
  using assms(4) by (rule subsides_trans) (simp add: subsides_def flow_upd assms(1,2,3))

lemma subsides_same: "same_flow w w' \<Longrightarrow> subsides w w'"
  by (rule subsides_flow [OF _ subsides_refl])

lemma subsides_over: "subsides w (user_turn_over params w)"
proof -
  have clear: "subsides w (clear_turn_approval_reviewing a turn w)" for a turn by (rule subsides_same) (rule same_clear)
  show ?thesis unfolding user_turn_over_def Let_def by (auto split: option.split intro!: subsides_drop subsides_refl clear)
qed

lemma subsides_completed: "subsides w (turn_completed P params w)"
  unfolding turn_completed_def
  by (auto split: option.split intro: subsides_over subsides_flow [OF flow_settle_turn [OF same_refl(1)] subsides_over])

lemma subsides_unqueued: "subsides w (turn_unqueued params w)"
  unfolding turn_unqueued_def
  by (auto split: option.split intro: subsides_refl subsides_flow [OF flow_withdrawn [OF same_refl(1)] subsides_drop [OF subsides_refl]])

lemma subsides_retracted: "subsides w (turn_retracted P params w)"
proof -
  have "same_flow w1 (settle_withdrawn sid turn (fold_lines sid h (upd_session sid (clear_active turn) w1)))" for sid turn h w1
    by (intro calm) (simp_all add: sview_def clear_active_def)
  then have accepted: "subsides w (settle_withdrawn sid turn (fold_lines sid h (upd_session sid (clear_active turn) (drop_guidance sid w))))"
    for sid turn h by (rule subsides_flow) (rule subsides_drop [OF subsides_refl])
  have declined: "subsides w (retract_declined P sid turn w)" for sid turn by (intro subsides_same calm)
  show ?thesis unfolding turn_retracted_def Let_def by (auto split: option.split intro!: subsides_refl accepted declined)
qed

lemma subsides_abandon: "subsides w (abandon_session_work P sid msg w)"
proof -
  have gone: "subsides w (fold_lines sid h (upd_session sid
      (\<lambda>s. s\<lparr>ses_questions := [], ses_pending := None, ses_recap := None, ses_queue := [], ses_active_turn := None\<rparr>) w1))"
    if "same_flow w w1" for h w1
    by (rule subsides_flow [OF quietD(1) [OF quiet_fold_lines [OF same_refl(3)]]]) (intro subsides_upd subsides_same that; simp)
  have fail: "same_flow w (fail_in_flight P sid msg w)" by (intro calm)
  show ?thesis unfolding abandon_session_work_def Let_def
    by (auto split: option.split intro!: gone subsides_same [OF fail] calm)
qed

lemma subsides_fail_all: "subsides w (fail_all_with_message P msg w)"
  unfolding fail_all_with_message_def case_prod_beta
  by (rule fold_keeps [where Q = subsides]) (auto intro: subsides_trans [OF _ subsides_abandon] subsides_refl)

lemma subsides_cancel: "subsides w (handle_cancel P sid w)"
proof -
  have "same_flow w (interrupt_turns P sid stopped (cancel_pending_recap P sid (snd (interrupt_questions P qs [] (stop_all_background_tasks P sid w)))))"
    for stopped qs by (intro calm)
  then have "subsides w (settle_feedback_cancelled sid (drop_guidance sid (interrupt_turns P sid stopped (cancel_pending_recap P sid
      (snd (interrupt_questions P qs [] (stop_all_background_tasks P sid w)))))))" for stopped qs
    by (intro subsides_flow [OF flow_cancel_form(2) [OF same_refl(1)]] subsides_drop subsides_same)
  then show ?thesis unfolding handle_cancel_def Let_def case_prod_beta by (auto intro: subsides_refl)
qed

lemma subsides_request: "subsides w (handle_request P req r w)"
proof (cases r)
  case (CancelRequest sid)
  then show ?thesis by (simp add: subsides_cancel)
qed (simp_all add: subsides_same calm)

definition refines :: "surroundings \<Rightarrow> (J \<Rightarrow> bool) \<Rightarrow> (string \<Rightarrow> string \<Rightarrow> permission_decision \<Rightarrow> bool) \<Rightarrow> world \<Rightarrow> done_work \<Rightarrow> bool" where
  "refines P K G w r \<longleftrightarrow> asteps P K G (flow_of w []) (flow_of (fst r) (snd r))"

lemma refines_if: "(c \<Longrightarrow> refines P K G w x) \<Longrightarrow> (\<not> c \<Longrightarrow> refines P K G w y) \<Longrightarrow> refines P K G w (if c then x else y)"
  by simp

lemma refines_subsides: "subsides w w' \<Longrightarrow> refines P K G w (w', [])"
  by (simp add: refines_def subsides_def)

lemma refines_same: "same_flow w w' \<Longrightarrow> refines P K G w (w', [])"
  by (rule refines_subsides) (rule subsides_same)

text \<open>The methods that bring an approval, as an event and as a request of the host.\<close>

definition approval_event :: "string \<Rightarrow> bool" where
  "approval_event meth \<longleftrightarrow> meth = ''approval/requested'' \<or> meth = ''approval/updated''"

lemma refine_user_event:
  assumes "approval_event meth \<Longrightarrow> K params"
  shows "refines P K G w (user_event P meth params w)"
proof -
  have 1: "refines P K G w (open_approval P params w)" if "meth = ''approval/requested'' \<or> meth = ''approval/updated''"
  proof -
    have "was_sent K params" using assms that by (auto simp: was_sent_def approval_event_def)
    then show ?thesis
      unfolding refines_def using refine_open [where ts = "[]" and w = w] by (cases "open_approval P params w") simp
  qed
  have 2: "refines P K G w (approval_resolved params w)"
    unfolding refines_def using refine_resolved [where w = w] by (cases "approval_resolved params w") simp
  show ?thesis unfolding user_event_def
    by (intro refines_if 1 2 refines_subsides [OF subsides_completed] refines_subsides [OF subsides_unqueued]
      refines_subsides [OF subsides_retracted] refines_same calm)
qed

lemma refine_user:
  assumes "approval_event meth \<Longrightarrow> K params"
  shows "refines P K G w (handle_user_event P meth params w)"
proof -
  have t: "same_flow w (snd (track_cursor meth params w))" by (intro calm)
  have "refines P K G w (user_event P meth params (snd (track_cursor meth params w)))"
    using refine_user_event [of meth K params P G "snd (track_cursor meth params w)"] assms by (simp add: refines_def flow_same [OF t])
  then show ?thesis unfolding handle_user_event_def case_prod_beta
    by (auto split: bool.split intro: refines_same [OF t])
qed

section \<open>The editor's answers\<close>

lemma hget_member: "distinct (map fst m) \<Longrightarrow> (k, v) \<in> set m \<Longrightarrow> hget m k = Some v"
  by (induction m) (auto simp: rev_image_eqI)

lemma find_map_member: "find_map g xs = Some y \<Longrightarrow> \<exists>x \<in> set xs. g x = Some y"
  by (induction xs) (auto split: option.splits)

lemma pending_found:
  assumes "pending_with f w = Some (a, s, p)" "distinct (map fst (w_sessions w))"
  shows "hget (w_sessions w) a = Some s" "ses_pending s = Some p" "f p"
proof -
  obtain x where x: "x \<in> set (w_sessions w)"
    "(case x of (k, s) \<Rightarrow> case ses_pending s of Some p \<Rightarrow> if f p then Some (k, s, p) else None | None \<Rightarrow> None) = Some (a, s, p)"
    using find_map_member [OF assms(1) [unfolded pending_with_def]] by auto
  then have "x = (a, s)" "ses_pending s = Some p" "f p" by (auto split: prod.splits option.splits if_splits)
  with x(1) assms(2) show "hget (w_sessions w) a = Some s" "ses_pending s = Some p" "f p" by (simp_all add: hget_member)
qed

text \<open>Settling a shown permission, and opening the guidance form for it.\<close>

lemma refine_settled:
  assumes s: "hget (w_sessions w) a = Some s" "ses_pending s = Some p" and d: "d_id d = pp_id p" "d_req d = pp_requirement p"
    and G: "G a (pp_sid p) d" and w0: "flow_of w0 [] = flow_of w []" "hget (w_sessions w0) a = Some s"
  shows "asteps P K G (flow_of w []) (flow_of (upd_session a (\<lambda>s. s\<lparr>ses_pending := None\<rparr>) w0) [DoDecide a (pp_sid p) d])"
proof -
  have view: "hget (fl_views (flow_of w [])) a = Some (Some (p\<lparr>pp_title := []\<rparr>), ses_queue s, ses_seen s)"
    using s by (simp add: hget_sviews sview_def)
  have "astep P K G (flow_of w []) ((flow_of w0 [])\<lparr>fl_views := hput a (None, ses_queue s, ses_seen s) (fl_views (flow_of w0 [])),
      fl_tasks := [DoDecide a (pp_sid p) d]\<rparr>)"
    using Settle [OF view, of d G P] d G w0 by simp
  then show ?thesis using w0(2) by (intro astep_eq) (auto simp: flow_of_def sviews_upd sview_def)
qed

lemma offer_result:
  assumes s: "hget (w_sessions w) a = Some s" "ses_pending s = Some p" "pp_feedback p = None"
    and r: "offer_permission_feedback P a cid w = (ok, w1)"
  shows "\<not> ok \<Longrightarrow> same_flow w w1 \<and> w_sessions w1 = w_sessions w"
    "ok \<Longrightarrow> \<not> is_approving (e_lower (p_env P)) (pp_choices p) cid \<Longrightarrow> asteps P K G (flow_of w []) (flow_of w1 [])"
proof -
  define w0 where "w0 = (if ses_ver s = 2 then out_effect (SendState a ''requires_action'' None) w else w)"
  have w0: "same_flow w w0" "w_sessions w0 = w_sessions w" by (auto simp: w0_def intro!: calm)
  have eq: "(ok, w1) = (if \<not> p_writable P (w_asks w0) then (False, w0\<lparr>w_asks := w_asks w0 + 1\<rparr>)
      else (True, upd_session a (\<lambda>s. s\<lparr>ses_pending := Some (p\<lparr>pp_feedback := Some \<lparr>pg_req = Some (w_asks w0), pg_choice = cid\<rparr>\<rparr>)\<rparr>)
         (out_effect (AskGuidance (w_asks w0) a (ses_ver s)) (w0\<lparr>w_asks := w_asks w0 + 1\<rparr>))))"
    using r [symmetric] unfolding offer_permission_feedback_def Let_def s option.case w0_def [symmetric] by simp
  show "\<not> ok \<Longrightarrow> same_flow w w1 \<and> w_sessions w1 = w_sessions w"
    using eq w0 by (auto simp: same_flow_def split: if_splits)
  assume ok: ok and no: "\<not> is_approving (e_lower (p_env P)) (pp_choices p) cid"
  define g where "g = \<lparr>pg_req = Some (w_asks w0), pg_choice = cid\<rparr>"
  have w1: "w1 = upd_session a (\<lambda>s. s\<lparr>ses_pending := Some (p\<lparr>pp_feedback := Some g\<rparr>)\<rparr>)
      (out_effect (AskGuidance (w_asks w0) a (ses_ver s)) (w0\<lparr>w_asks := w_asks w0 + 1\<rparr>))"
    using eq ok by (simp add: g_def split: if_splits)
  have view: "hget (fl_views (flow_of w [])) a = Some (Some (p\<lparr>pp_title := []\<rparr>), ses_queue s, ses_seen s)"
    using s by (simp add: hget_sviews sview_def)
  have swap: "p\<lparr>pp_feedback := Some g, pp_title := []\<rparr> = p\<lparr>pp_title := [], pp_feedback := Some g\<rparr>" by (cases p) simp
  have "flow_of w1 [] = (flow_of w [])\<lparr>fl_views := hput a (Some (p\<lparr>pp_title := [], pp_feedback := Some g\<rparr>), ses_queue s, ses_seen s) (sviews w)\<rparr>"
    using w0 s by (simp add: w1 flow_of_def sviews_upd sview_def decides_out same_flow_def) (simp only: swap)
  then show "asteps P K G (flow_of w []) (flow_of w1 [])"
    using Guide [OF view, where g = g and P = P and G = G] s(3) no by (intro astep_eq) (auto simp: g_def)
qed

lemma refine_permission:
  assumes r: "complete_permission P req ans w = (w', new)" and dist: "distinct (map fst (w_sessions w))"
    and G: "\<And>a sid d p. shown_for w a sid d p \<Longrightarrow> pp_req p = Some req \<Longrightarrow>
        ans = PermissionAnswer (Selected (d_choice d)) \<and> list_ex (\<lambda>c. pc_id c = d_choice d) (pp_choices p) \<or>
        fallback_deny (pp_choices p) = Some (d_choice d) \<Longrightarrow> G a sid d"
  shows "asteps P K G (flow_of w []) (flow_of w' new)"
proof (cases "pending_with (\<lambda>p. pp_req p = Some req) w")
  case None
  then show ?thesis using r by (simp add: complete_permission_def)
next
  case (Some x)
  then obtain a s p where pw: "pending_with (\<lambda>p. pp_req p = Some req) w = Some (a, s, p)" by (cases x) auto
  note s = pending_found [OF pw dist]
  let ?closed = "\<lambda>w. upd_session a (\<lambda>s. s\<lparr>ses_pending := None\<rparr>) w"
  let ?dec = "\<lambda>choice msg. DoDecide a (pp_sid p) (editor_decision p (ses_ver s) choice None msg)"
  have decide: "asteps P K G (flow_of w []) (flow_of (?closed w0) [?dec choice msg])"
    if "flow_of w0 [] = flow_of w []" "w_sessions w0 = w_sessions w"
      "ans = PermissionAnswer (Selected choice) \<and> list_ex (\<lambda>c. pc_id c = choice) (pp_choices p) \<or> fallback_deny (pp_choices p) = Some choice"
    for w0 choice msg
    by (rule refine_settled [OF s(1,2)])
      (use s that in \<open>auto simp: editor_decision_def shown_for_def intro!: G [where p = p]\<close>)
  have close: "asteps P K G (flow_of w []) (flow_of (fail_closed_owner_work P a own ch (?closed w0)) [])"
    if "flow_of w0 [] = flow_of w []" for own ch w0
    using flow_upd [of "\<lambda>s. s\<lparr>ses_pending := None\<rparr>" P K G w0 "[]" a] that by (simp add: flow_same [OF same_fail_closed])
  have note2: "flow_of (out_effect (SayText b v n) w) [] = flow_of w []" for b v n by (intro flow_same calm) simp_all
  have note1: "flow_of (case msg of Some n \<Rightarrow> out_effect (SayText b v n) w | None \<Rightarrow> w) [] = flow_of w []" for msg b v
    by (auto split: option.split intro!: flow_same calm)
  show ?thesis
  proof (cases "pp_feedback p")
    case None
    then have st: "settle_permission P a s p ans w = (w', new)" using r by (simp add: complete_permission_def pw)
    show ?thesis
    proof (cases "selected_choice (pp_choices p) ans")
      case (Inl msg)
      then show ?thesis using st decide [of w] close note1 note2 unfolding settle_permission_def by (auto simp: Let_def split: option.splits)
    next
      case (Inr cid)
      then have ans: "ans = PermissionAnswer (Selected cid)" "list_ex (\<lambda>c. pc_id c = cid) (pp_choices p)"
        by (auto simp: selected_choice_def split: client_answer.splits permission_answer.splits if_splits)
      obtain ok w1 where offer: "offer_permission_feedback P a cid w = (ok, w1)" by fastforce
      note o = offer_result [OF s(1,2) None offer]
      from st Inr have "(w', new) = (?closed w, [?dec cid None]) \<or>
         \<not> is_approving (e_lower (p_env P)) (pp_choices p) cid \<and> (w', new) = (if ok then (w1, []) else (?closed w1, [?dec cid None]))"
        unfolding settle_permission_def by (auto simp: Let_def offer split: if_splits bool.splits)
      then show ?thesis using decide [of w cid None] decide [of w1 cid None] ans o flow_same by (auto split: if_splits)
    qed
  qed (use r in \<open>simp add: complete_permission_def pw\<close>)
qed

lemma refine_feedback:
  assumes r: "complete_permission_feedback req ans w = (w', new)" and dist: "distinct (map fst (w_sessions w))"
    and G: "\<And>a sid d p f. shown_for w a sid d p \<Longrightarrow> pp_feedback p = Some f \<Longrightarrow> pg_req f = Some req \<Longrightarrow> d_choice d = pg_choice f \<Longrightarrow> G a sid d"
  shows "asteps P K G (flow_of w []) (flow_of w' new)"
proof (cases "pending_with (\<lambda>p. case pp_feedback p of Some f \<Rightarrow> pg_req f = Some req | None \<Rightarrow> False) w")
  case None
  then show ?thesis using r by (simp add: complete_permission_feedback_def)
next
  case (Some x)
  then obtain a s p where pw: "pending_with (\<lambda>p. case pp_feedback p of Some f \<Rightarrow> pg_req f = Some req | None \<Rightarrow> False) w = Some (a, s, p)"
    by (cases x) auto
  note s = pending_found [OF pw dist]
  obtain f where f: "pp_feedback p = Some f" "pg_req f = Some req" using s(3) by (auto split: option.splits)
  define d where "d = editor_decision p (ses_ver s) (pg_choice f) (nonempty (Option.bind (accepted_form ans) (\<lambda>fs. form_text fs ''feedback''))) None"
  have d: "d_id d = pp_id p" "d_req d = pp_requirement p" "d_choice d = pg_choice f" by (simp_all add: d_def editor_decision_def)
  have "w' = upd_session a (\<lambda>s. s\<lparr>ses_pending := None\<rparr>) w" "new = [DoDecide a (pp_sid p) d]"
    using r by (simp_all add: complete_permission_feedback_def pw f(1) d_def)
  then show ?thesis
    using refine_settled [of w a s p d G w P] G [of a "pp_sid p" d p f] s d f by (simp add: shown_for_def)
qed

section \<open>The loop\<close>

text \<open>The approval an event of the loop brings from a host.\<close>

definition brings :: "loop_event \<Rightarrow> J \<Rightarrow> bool" where
  "brings ev params \<longleftrightarrow>
     (case ev of HostSays tag meth ps \<Rightarrow> approval_event meth \<and> params = ps
      | HostAsks tag meth ps \<Rightarrow> meth = ''approval/request'' \<and> params = ps
      | _ \<Rightarrow> False)"

lemma event_refines:
  assumes r: "handle_loop P ev w = (w', new)" and dist: "distinct (map fst (w_sessions w))" and K: "\<And>params. brings ev params \<Longrightarrow> K params"
  shows "asteps P K (event_grounds P w ev) (flow_of w []) (flow_of w' new)"
proof -
  define verdict where "verdict = (\<lambda>a sid d. \<exists>job. verdict_for w a sid d job \<and>
      approve_once_choice (e_lower (p_env P)) (rj_choices job) = Some (d_choice d))"
  have host: "asteps P K verdict (flow_of w []) (flow_of w' new)"
    if "(case handle_review_event P meth params w1 of Some r \<Rightarrow> r | None \<Rightarrow> other) = (w', new)"
      "w1 = w\<lparr>w_hosts := h\<rparr>" "other = (w', new) \<Longrightarrow> asteps P K verdict (flow_of w1 []) (flow_of w' new)" for meth params w1 h other
  proof (cases "handle_review_event P meth params w1")
    case None
    then show ?thesis using that by simp
  next
    case (Some x)
    have "handle_review_event P meth params w1 = Some (w', new)" using that(1) Some unfolding Some by simp
    then have "asteps P K verdict (flow_of w1 []) (flow_of w' new)"
    proof (rule refine_review)
      fix job asm choice
      assume "rs_active (w_review w1) = Some job" "parse_assessment (rs_text (w_review w1)) = Some asm" "effective_outcome asm = Allow"
        "approve_once_choice (e_lower (p_env P)) (rj_choices job) = Some choice"
      then show "verdict (rj_acp job) (rj_sid job) (job_decision job choice None None)"
        by (auto simp: verdict_def verdict_for_def job_decision_def that(2))
    qed
    then show ?thesis by (simp add: that(2))
  qed
  show ?thesis
  proof (cases ev)
    case (HostSays tag meth params)
    define w1 where "w1 = w\<lparr>w_hosts := learn_event_owner tag params (w_hosts w)\<rparr>"
    have g: "event_grounds P w ev = verdict" by (intro ext) (simp add: event_grounds_def HostSays verdict_def)
    show ?thesis
    proof (cases "is_current tag (w_hosts w)")
      case True
      have eq: "handle_loop P ev w = (case handle_review_event P meth params w1 of Some r \<Rightarrow> r | None \<Rightarrow> handle_user_event P meth params w1)"
        by (simp only: HostSays handle_loop.simps handle_host_event_def True Let_def w1_def not_True_eq_False if_False)
      have user: "asteps P K verdict (flow_of w1 []) (flow_of w' new)" if "handle_user_event P meth params w1 = (w', new)"
        using refine_user [of meth K params P verdict w1] that K [of params] by (simp add: refines_def HostSays brings_def)
      show ?thesis unfolding g by (rule host [OF trans [OF sym [OF eq] r] w1_def user])
    qed (use r HostSays in \<open>simp add: handle_host_event_def\<close>)
  next
    case (HostAsks tag meth params)
    define w1 where "w1 = w\<lparr>w_hosts := learn_event_owner tag params (w_hosts w)\<rparr>"
    have g: "event_grounds P w ev = verdict" by (intro ext) (simp add: event_grounds_def HostAsks verdict_def)
    define other where "other = (if meth = ''approval/request'' then open_approval P params w1
        else if meth = ''userInput/request'' then handle_user_event P ''userInput/requested'' params w1 else (w1, []))"
    have op: "refines P K verdict w1 (open_approval P params w1)" if "meth = ''approval/request''"
    proof -
      have "was_sent K params" using K [of params] that by (auto simp: was_sent_def HostAsks brings_def)
      then show ?thesis unfolding refines_def using refine_open [where ts = "[]" and w = w1] by (cases "open_approval P params w1") simp
    qed
    have question: "refines P K verdict w1 (handle_user_event P ''userInput/requested'' params w1)"
      by (rule refine_user) (simp add: approval_event_def)
    have "refines P K verdict w1 other" unfolding other_def by (intro refines_if op question refines_same calm)
    then have other: "asteps P K verdict (flow_of w1 []) (flow_of w' new)" if "other = (w', new)" using that by (simp add: refines_def)
    show ?thesis
    proof (cases "is_current tag (w_hosts w)")
      case True
      have eq: "handle_loop P ev w = (case handle_review_event P meth params w1 of Some r \<Rightarrow> r
          | None \<Rightarrow> other)"
        by (simp only: HostAsks handle_loop.simps handle_host_request_def True Let_def w1_def other_def not_True_eq_False if_False)
      show ?thesis unfolding g by (rule host [OF trans [OF sym [OF eq] r] w1_def other])
    qed (use r HostAsks in \<open>simp add: handle_host_request_def\<close>)
  next
    case (ReviewerExit tag)
    then show ?thesis using r by (auto split: if_splits intro: refine_closed)
  next
    case (EditorSays req ans)
    then have "complete_permission P req ans w = (w', new)" using r by simp
    then show ?thesis by (rule refine_permission [OF _ dist]) (simp only: event_grounds_def EditorSays loop_event.case, blast)
  next
    case (GuidanceSays req ans)
    then have "complete_permission_feedback req ans w = (w', new)" using r by simp
    then show ?thesis by (rule refine_feedback [OF _ dist]) (simp only: event_grounds_def GuidanceSays loop_event.case, blast)
  next
    case (Elapse t)
    then show ?thesis using r by (auto simp: flow_of_def)
  next
    case DeadlineCheck
    then show ?thesis using r by (auto intro: refine_expire)
  next
    case (SetAutoReview sid b)
    then show ?thesis using r by (auto intro!: flow_upd)
  next
    case (Request req rq)
    then show ?thesis using r subsides_request [of w P req rq] by (auto simp: subsides_def)
  next
    case (FormSays req ans)
    then show ?thesis using r flow_same [OF quietD(1) [OF quiet_elicitation [OF same_refl(3)]]] by auto
  next
    case (FeedbackSays req ans)
    then show ?thesis using r flow_same [OF flow_complete_feedback [OF same_refl(1)]] by auto
  next
    case (ChildRead sid ver child target)
    then show ?thesis using r flow_same [OF quietD(1) [OF quiet_read_child [OF same_refl(3)]]] by auto
  next
    case (SessionReattached sid x)
    then show ?thesis using r flow_same [OF flow_reattached [OF same_refl(1)]] by auto
  next
    case (SessionLost sid msg)
    then show ?thesis using r subsides_abandon [of w P sid msg] by (auto simp: subsides_def)
  next
    case (AllLost msg)
    then show ?thesis using r subsides_fail_all [of w P msg] by (auto simp: subsides_def)
  qed
qed

text \<open>Approvals wait only if they were received; the tasks open no others.\<close>

definition heard :: "(J \<Rightarrow> bool) \<Rightarrow> flow \<Rightarrow> bool" where
  "heard K f \<longleftrightarrow> list_all (\<lambda>(a, v). list_all (was_sent K) (fst (snd v))) (fl_views f) \<and> list_all (openable K) (fl_tasks f)"

lemma openable_silent: "silent t \<Longrightarrow> openable K t" "list_all silent ts \<Longrightarrow> list_all (openable K) ts"
    "list_all (\<lambda>t. silent t \<or> t = DoStart) ts \<Longrightarrow> list_all (openable K) ts"
proof -
  show 1: "silent t \<Longrightarrow> openable K t" for t by (cases t) (simp_all add: openable_def)
  have 2: "openable K DoStart" by (simp add: openable_def)
  show "list_all silent ts \<Longrightarrow> list_all (openable K) ts" by (auto simp: list_all_iff 1)
  show "list_all (\<lambda>t. silent t \<or> t = DoStart) ts \<Longrightarrow> list_all (openable K) ts" by (auto simp: list_all_iff 2 intro: 1)
qed

lemma heard_put:
  "list_all (\<lambda>(a, v). list_all (was_sent K) (fst (snd v))) m \<Longrightarrow> list_all (was_sent K) (fst (snd v')) \<Longrightarrow>
     list_all (\<lambda>(a, v). list_all (was_sent K) (fst (snd v))) (hput a v' m)"
  by (induction m) auto

lemma heard_get:
  "list_all (\<lambda>(a, v). list_all (was_sent K) (fst (snd v))) m \<Longrightarrow> hget m a = Some (p, q, seen) \<Longrightarrow> list_all (was_sent K) q"
  by (induction m) (auto split: if_splits)

lemma heard_queue: "heard K f \<Longrightarrow> hget (fl_views f) a = Some (p, q, seen) \<Longrightarrow> list_all (was_sent K) q"
  by (auto simp: heard_def intro: heard_get)

lemma heard_task [simp]:
  "openable K (DoOpen params) = was_sent K params" "openable K (DoPop a)" "openable K DoStart" "openable K (DoDeny j k r)"
  "openable K (DoDecide a s d)"
  by (simp_all add: openable_def)

lemma heard_step: "astep P K G f f' \<Longrightarrow> heard K f \<Longrightarrow> heard K f'"
proof (induction rule: astep.induct)
  case (Requeue f a p q seen q' p')
  then have "list_all (was_sent K) q'" using heard_queue [OF Requeue(4,1)] by (auto simp: list_all_iff)
  with Requeue(4) show ?case by (simp add: heard_def heard_put)
next
  case (Mark f a p q seen k q')
  then have "list_all (was_sent K) q'" using heard_queue [OF Mark(4,1)] by (auto simp: list_all_iff)
  with Mark(4) show ?case by (simp add: heard_def heard_put)
next
  case (Show f a p q seen sid i req q' params pp)
  then have "list_all (was_sent K) q'" using heard_queue [OF Show(11,1)] by (auto simp: list_all_iff)
  with Show(11) show ?case by (simp add: heard_def heard_put)
next
  case (Pop f a params q seen ts)
  then show ?case using heard_queue [OF Pop(3,1)] by (simp add: heard_def heard_put)
next
  case (Policy f a p q seen sid i req params d)
  then show ?case using heard_queue [OF Policy(8,1)] by (simp add: heard_def heard_put)
next
  case (Enqueue f a p q seen job params)
  then show ?case using heard_queue [OF Enqueue(7,1)] by (simp add: heard_def heard_put)
next
  case (Guide f a p q seen g)
  then show ?case using heard_queue [OF Guide(4,1)] by (simp add: heard_def heard_put)
next
  case (Settle f a p q seen d)
  then show ?case using heard_queue [OF Settle(5,1)] by (simp add: heard_def heard_put)
qed (simp_all add: heard_def openable_silent)

lemma heard_steps: "asteps P K G f f' \<Longrightarrow> heard K f \<Longrightarrow> heard K f'"
  by (induction rule: rtranclp_induct) (auto intro: heard_step)

lemma tasks_refine: "heard K (flow_of w ts) \<Longrightarrow> asteps P K G (flow_of w ts) (flow_of (run_tasks P ts w) [])"
proof (induction P ts w rule: run_tasks.induct)
  case (2 P t ts w)
  have t: "asteps P K G (flow_of w (t # ts)) (flow_of (fst (do_task P t w)) (snd (do_task P t w) @ ts))"
    by (rule task_refines) (use 2(2) in \<open>simp add: heard_def\<close>)
  show ?case unfolding run_tasks.simps by (rule asteps_then [OF t 2(1) [OF heard_steps [OF t 2(2)]]])
qed simp

lemma heard_any: "heard (\<lambda>params. True) f"
  by (auto simp: heard_def list_all_iff was_sent_def openable_def split: task.split)

theorem event_run_refines:
  assumes "distinct (map fst (w_sessions w))" "heard K (flow_of w [])" "\<And>params. brings ev params \<Longrightarrow> K params"
  shows "asteps P K (event_grounds P w ev) (flow_of w []) (flow_of (run_event P ev w) [])"
proof -
  have first: "asteps P K (event_grounds P w ev) (flow_of w []) (flow_of (fst (handle_loop P ev w)) (snd (handle_loop P ev w)))"
    by (rule event_refines [OF _ assms(1,3)]) simp_all
  show ?thesis unfolding run_event_def by (rule asteps_then [OF first tasks_refine [OF heard_steps [OF first assms(2)]]])
qed

end
