(* ===== verification/Permission_Props.thy ===== *)
theory Permission_Props
  imports Permission_Events
begin

text \<open>
  Properties of the approval flow, proved as invariants of its step relation and carried to runs of the
  loop: an approval is decided at most once, every decision has its grounds in a request the
  run has brought, and a review that waits is never forgotten.
\<close>

section \<open>Who owns an approval\<close>

type_synonym approval_key = "string \<times> string \<times> string \<times> string"

definition job_key :: "review_job \<Rightarrow> approval_key" where
  "job_key job = (rj_acp job, seen_key (rj_sid job) (rj_id job) (rj_req job))"

definition decision_key :: "string \<times> string \<times> permission_decision \<Rightarrow> approval_key" where
  "decision_key x = (case x of (a, sid, d) \<Rightarrow> (a, seen_key sid (d_id d) (d_req d)))"

definition pending_key :: "string \<Rightarrow> pending_perm option \<Rightarrow> approval_key multiset" where
  "pending_key a p = (case p of None \<Rightarrow> {#} | Some p \<Rightarrow> {#(a, seen_key (pp_sid p) (pp_id p) (pp_requirement p))#})"

fun view_keys :: "session_view hmap \<Rightarrow> approval_key multiset" where
  "view_keys [] = {#}"
| "view_keys ((a, v) # m) = pending_key a (fst v) + view_keys m"

fun task_key :: "task \<Rightarrow> approval_key multiset" where
  "task_key (DoDecide a sid d) = {#decision_key (a, sid, d)#}"
| "task_key (DoDeny job k r) = {#job_key job#}"
| "task_key t = {#}"

definition task_keys :: "task list \<Rightarrow> approval_key multiset" where
  "task_keys ts = sum_list (map task_key ts)"

definition owned :: "flow \<Rightarrow> approval_key multiset" where
  "owned f = view_keys (fl_views f) + image_mset job_key (mset (fl_queue f)) +
     (case fl_active f of Some job \<Rightarrow> {#job_key job#} | None \<Rightarrow> {#}) +
     task_keys (fl_tasks f) + image_mset decision_key (mset (fl_done f))"

definition seen_keys :: "flow \<Rightarrow> approval_key set" where
  "seen_keys f = {(a, k). \<exists>v. hget (fl_views f) a = Some v \<and> k \<in> set (snd (snd v))}"

definition once_inv :: "flow \<Rightarrow> bool" where
  "once_inv f \<longleftrightarrow> set_mset (owned f) \<subseteq> seen_keys f \<and> (\<forall>k. count (owned f) k \<le> 1)"

lemma task_keys_simps [simp]:
  "task_keys [] = {#}" "task_keys (t # ts) = task_key t + task_keys ts" "task_keys (ts @ us) = task_keys ts + task_keys us"
  by (simp_all add: task_keys_def)

lemma silent_key: "silent t \<Longrightarrow> task_key t = {#}"
  by (cases t) simp_all

lemma silent_keys: "list_all (\<lambda>t. silent t \<or> t = DoStart) ts \<Longrightarrow> task_keys ts = {#}" "list_all silent ts \<Longrightarrow> task_keys ts = {#}"
  by (induction ts) (auto simp: silent_key)

lemma view_keys_put:
  "hget m a = Some v \<Longrightarrow> view_keys (hput a v' m) + pending_key a (fst v) = view_keys m + pending_key a (fst v')"
  by (induction m) (auto split: if_splits)

lemma view_keys_put_None: "hget m a = Some v \<Longrightarrow> view_keys (hput a (None, q) m) + pending_key a (fst v) = view_keys m"
  using view_keys_put [of m a v "(None, q)"] by (simp add: pending_key_def)

lemma hget_put: "hget m a = Some v \<Longrightarrow> hget (hput a v' m) b = (if b = a then Some v' else hget m b)"
  by (induction m) auto

text \<open>A step keeps the invariant when it hands keys on without gaining one, or gains one nobody had seen.\<close>

lemma once_keep:
  assumes "once_inv f" "owned f' \<subseteq># owned f" "seen_keys f \<subseteq> seen_keys f'"
  shows "once_inv f'"
  using assms unfolding once_inv_def by (meson dual_order.trans mset_subset_eq_count set_mset_mono)

lemma once_gain:
  assumes "once_inv f" "owned f' \<subseteq># add_mset k (owned f)" "k \<notin> seen_keys f" "insert k (seen_keys f) \<subseteq> seen_keys f'"
  shows "once_inv f'"
proof -
  have "k \<notin># owned f" using assms(1,3) by (auto simp: once_inv_def)
  moreover have "count (owned f) x \<le> 1" for x using assms(1) by (simp only: once_inv_def)
  ultimately have "count (add_mset k (owned f)) x \<le> 1" for x by (cases "x = k") (simp_all add: not_in_iff)
  moreover have "count (owned f') x \<le> count (add_mset k (owned f)) x" for x by (rule mset_subset_eq_count [OF assms(2)])
  moreover have "set_mset (owned f') \<subseteq> insert k (set_mset (owned f))" using set_mset_mono [OF assms(2)] by simp
  ultimately show ?thesis using assms(1,4) unfolding once_inv_def by (meson dual_order.trans insert_mono order.trans)
qed

lemma seen_grows:
  assumes "hget (fl_views f) a = Some (p, q, seen)" "fl_views f' = hput a (p', q', seen') (fl_views f)" "set seen \<subseteq> set seen'"
  shows "seen_keys f \<subseteq> seen_keys f'"
  using assms(1,2) subsetD [OF assms(3)] by (auto simp: seen_keys_def hget_put)

lemma seen_gains:
  assumes "hget (fl_views f) a = Some (p, q, seen)" "fl_views f' = hput a (p', q', k # seen) (fl_views f)"
  shows "insert (a, k) (seen_keys f) \<subseteq> seen_keys f'"
  using assms by (auto simp: seen_keys_def hget_put)

lemma seen_same: "fl_views f' = fl_views f \<Longrightarrow> seen_keys f \<subseteq> seen_keys f'"
  by (simp add: seen_keys_def)

lemma unseen: "hget (fl_views f) a = Some (p, q, seen) \<Longrightarrow> k \<notin> set seen \<Longrightarrow> (a, k) \<notin> seen_keys f"
  by (simp add: seen_keys_def)

lemma put_less: "hget m a = Some (p, q, seen) \<Longrightarrow> p' = p \<or> p' = None \<Longrightarrow> view_keys (hput a (p', r) m) \<subseteq># view_keys m"
  using view_keys_put [of m a "(p, q, seen)" "(p', r)"] by (auto simp: pending_key_def dest: mset_subset_eq_exists_conv [THEN iffD2, OF exI, OF sym])

lemma once_step: "astep P K G f f' \<Longrightarrow> once_inv f \<Longrightarrow> once_inv f'"
proof (induction rule: astep.induct)
  case (Requeue f a p q seen q' p')
  then show ?case by (intro once_keep [OF Requeue(4) _ seen_grows [OF Requeue(1), where p' = p' and q' = q' and seen' = seen]]) (simp_all add: owned_def put_less)
next
  case (Mark f a p q seen k q')
  then show ?case by (intro once_keep [OF Mark(4) _ seen_grows [OF Mark(1), where p' = None and q' = q' and seen' = "k # seen"]]) (auto simp: owned_def put_less)
next
  case (Show f a p q seen sid i req q' params pp)
  have "view_keys (hput a (Some pp, q', seen_key sid i req # seen) (fl_views f)) + pending_key a p =
      add_mset (a, seen_key sid i req) (view_keys (fl_views f))"
    using view_keys_put [OF Show(1), of "(Some pp, q', seen_key sid i req # seen)"] Show by (simp add: pending_key_def)
  then have "view_keys (hput a (Some pp, q', seen_key sid i req # seen) (fl_views f)) \<subseteq># add_mset (a, seen_key sid i req) (view_keys (fl_views f))"
    by (metis mset_subset_eq_add_left)
  then have sub: "view_keys (hput a (Some pp, q', seen_key sid i req # seen) (fl_views f)) + R \<subseteq>#
      add_mset (a, seen_key sid i req) (view_keys (fl_views f) + R)" for R
    using subset_mset.add_right_mono [of _ "add_mset (a, seen_key sid i req) (view_keys (fl_views f))" R] by simp
  have "owned (f\<lparr>fl_views := hput a (Some pp, q', seen_key sid i req # seen) (fl_views f)\<rparr>) \<subseteq># add_mset (a, seen_key sid i req) (owned f)"
    unfolding owned_def add.assoc using sub by simp
  then show ?case
    by (rule once_gain [OF Show(11) _ unseen [OF Show(1,2)] seen_gains [OF Show(1), where p' = "Some pp" and q' = q']]) simp
next
  case (Policy f a p q seen sid i req params d)
  then show ?case
    by (intro once_gain [OF Policy(8) _ unseen [OF Policy(1,2)] seen_gains [OF Policy(1)]]) (simp_all add: owned_def decision_key_def put_less)
next
  case (Enqueue f a p q seen job params)
  then show ?case
    by (intro once_gain [OF Enqueue(7) _ unseen [OF Enqueue(1,2)] seen_gains [OF Enqueue(1)]]) (simp_all add: owned_def job_key_def put_less)
next
  case (Guide f a p q seen g)
  have "view_keys (hput a (Some (p\<lparr>pp_feedback := Some g\<rparr>), q, seen) (fl_views f)) = view_keys (fl_views f)"
    using view_keys_put [OF Guide(1), of "(Some (p\<lparr>pp_feedback := Some g\<rparr>), q, seen)"] by (simp add: pending_key_def)
  then show ?case by (intro once_keep [OF Guide(4) _ seen_grows [OF Guide(1), where p' = "Some (p\<lparr>pp_feedback := Some g\<rparr>)" and q' = q and seen' = seen]]) (simp_all add: owned_def)
next
  case (Settle f a p q seen d)
  have "view_keys (hput a (None, q, seen) (fl_views f)) + {#decision_key (a, pp_sid p, d)#} = view_keys (fl_views f)"
    using view_keys_put_None [OF Settle(1), of "(q, seen)"] Settle by (simp add: pending_key_def decision_key_def)
  then have "owned (f\<lparr>fl_views := hput a (None, q, seen) (fl_views f), fl_tasks := DoDecide a (pp_sid p) d # fl_tasks f\<rparr>) = owned f"
    by (simp add: owned_def)
  then show ?case by (intro once_keep [OF Settle(5) _ seen_grows [OF Settle(1), where p' = None and q' = q and seen' = seen]]) simp_all
next
  case (Pop f a params q seen ts)
  then show ?case by (intro once_keep [OF Pop(3) _ seen_grows [OF Pop(1), where p' = None and q' = q and seen' = seen]]) (simp_all add: owned_def put_less)
next
  case (Unqueue f keep)
  show ?case by (rule once_keep [OF Unqueue]) (simp_all add: owned_def seen_same multiset_filter_subset image_mset_subseteq_mono)
qed (erule once_keep, auto simp: owned_def job_key_def decision_key_def job_decision_def silent_key silent_keys seen_same)+

section \<open>Every decision has its grounds\<close>

text \<open>A permission and a review job stand for an approval \<open>K\<close> that a host asked for, with the choices it
  offered; a guidance form belongs to a choice that does not approve.\<close>

lemma was_sent_asked:
  assumes "was_sent K params"
  obtains sent where "K sent" "\<And>sid i req. asked params sid i req \<longleftrightarrow> asked sent sid i req" "choices_of P params = choices_of P sent"
    "command_prefix_choice P params = command_prefix_choice P sent"
proof -
  obtain sent where sent: "K sent" "\<And>k. k \<noteq> ''rawArgs'' \<Longrightarrow> jget params k = jget sent k" using assms by (auto simp: was_sent_def)
  have opts: "perm_options l params = perm_options l sent" for l by (simp add: perm_options_def sent(2))
  have stage: "single_stage params = single_stage sent" 
  proof -
    have "jget params ''subject'' = jget sent ''subject''" "jget params ''currentRequirementId'' = jget sent ''currentRequirementId''"
      "non_empty_str params ''approvalId'' = non_empty_str sent ''approvalId''" by (simp_all add: non_empty_str_def str_at_def sent(2))
    then show ?thesis by (simp only: single_stage_def)
  qed
  have once: "offered_once params = offered_once sent" by (intro ext) (simp add: offered_once_def items_at_def sent(2))
  have tool: "non_empty_str params ''toolName'' = non_empty_str sent ''toolName''" by (simp add: non_empty_str_def str_at_def sent(2))
  have "command_prefix_choice P params = command_prefix_choice P sent" by (simp only: command_prefix_choice_def tool stage opts once)
  then show thesis
    by (intro that [OF sent(1)]) (simp_all add: asked_def str_or_def str_at_def requirement_of_def choices_of_def opts sent(2))
qed

definition true_perm :: "surroundings \<Rightarrow> (J \<Rightarrow> bool) \<Rightarrow> pending_perm \<Rightarrow> bool" where
  "true_perm P K p \<longleftrightarrow>
     (\<exists>params. K params \<and> asked params (pp_sid p) (pp_id p) (pp_requirement p) \<and> pp_choices p = choices_of P params) \<and>
     (case pp_feedback p of Some g \<Rightarrow> \<not> is_approving (e_lower (p_env P)) (pp_choices p) (pg_choice g) | None \<Rightarrow> True)"

definition true_job :: "surroundings \<Rightarrow> (J \<Rightarrow> bool) \<Rightarrow> review_job \<Rightarrow> bool" where
  "true_job P K job \<longleftrightarrow> (\<exists>params. K params \<and> asked params (rj_sid job) (rj_id job) (rj_req job) \<and> rj_choices job = choices_of P params)"

definition standing :: "surroundings \<Rightarrow> (J \<Rightarrow> bool) \<Rightarrow> string \<Rightarrow> permission_decision \<Rightarrow> bool" where
  "standing P K sid d \<longleftrightarrow>
     (\<exists>params. K params \<and> asked params sid (d_id d) (d_req d) \<and>
        (fallback_deny (choices_of P params) = Some (d_choice d) \<or> command_prefix_choice P params = Some (d_choice d)))"

fun true_task :: "surroundings \<Rightarrow> (J \<Rightarrow> bool) \<Rightarrow> (string \<Rightarrow> string \<Rightarrow> permission_decision \<Rightarrow> bool) \<Rightarrow> task \<Rightarrow> bool" where
  "true_task P K G (DoDecide a sid d) = (standing P K sid d \<or> G a sid d)"
| "true_task P K G (DoDeny job k r) = true_job P K job"
| "true_task P K G t = True"

definition true_view :: "surroundings \<Rightarrow> (J \<Rightarrow> bool) \<Rightarrow> session_view \<Rightarrow> bool" where
  "true_view P K v \<longleftrightarrow> (case fst v of Some p \<Rightarrow> true_perm P K p | None \<Rightarrow> True)"

definition true_flow :: "surroundings \<Rightarrow> (J \<Rightarrow> bool) \<Rightarrow> (string \<Rightarrow> string \<Rightarrow> permission_decision \<Rightarrow> bool) \<Rightarrow> (string \<times> string \<times> permission_decision) list \<Rightarrow> flow \<Rightarrow> bool" where
  "true_flow P K G old f \<longleftrightarrow>
     list_all (\<lambda>(a, v). true_view P K v) (fl_views f) \<and>
     list_all (true_job P K) (fl_queue f) \<and> (\<forall>job. fl_active f = Some job \<longrightarrow> true_job P K job) \<and>
     list_all (true_task P K G) (fl_tasks f) \<and>
     (\<exists>new. fl_done f = old @ new \<and> list_all (\<lambda>(a, sid, d). standing P K sid d \<or> G a sid d) new)"

lemma true_silent: "silent t \<Longrightarrow> true_task P K G t" "list_all silent ts \<Longrightarrow> list_all (true_task P K G) ts"
    "list_all (\<lambda>t. silent t \<or> t = DoStart) ts \<Longrightarrow> list_all (true_task P K G) ts"
proof -
  show 1: "silent t \<Longrightarrow> true_task P K G t" for t by (cases t) simp_all
  show "list_all silent ts \<Longrightarrow> list_all (true_task P K G) ts" by (auto simp: list_all_iff 1)
  show "list_all (\<lambda>t. silent t \<or> t = DoStart) ts \<Longrightarrow> list_all (true_task P K G) ts" by (auto simp: list_all_iff intro: 1)
qed

lemma true_put: "list_all (\<lambda>(a, v). true_view P K v) m \<Longrightarrow> true_view P K v' \<Longrightarrow> list_all (\<lambda>(a, v). true_view P K v) (hput a v' m)"
  by (induction m) auto

lemma true_get: "list_all (\<lambda>(a, v). true_view P K v) m \<Longrightarrow> hget m a = Some v \<Longrightarrow> true_view P K v"
  by (induction m) (auto split: if_splits)

lemma true_none [simp]: "true_view P K (None, r)"
  by (simp add: true_view_def)

lemma true_step: "astep P K G f f' \<Longrightarrow> true_flow P K G old f \<Longrightarrow> true_flow P K G old f'"
proof (induction rule: astep.induct)
  case (Requeue f a p q seen q' p')
  then have "true_view P K (p', q', seen)" using true_get [of P K "fl_views f" a "(p, q, seen)"] by (auto simp: true_flow_def true_view_def)
  with Requeue show ?case by (simp add: true_flow_def true_put)
next
  case (Mark f a p q seen k q')
  then show ?case by (simp add: true_flow_def true_put)
next
  case (Show f a p q seen sid i req q' params pp)
  obtain sent where "K sent" "asked sent sid i req" "choices_of P params = choices_of P sent"
    using was_sent_asked [OF Show(4)] Show(5) by metis
  then have "true_view P K (Some pp, q', seen_key sid i req # seen)" using Show by (auto simp: true_view_def true_perm_def)
  with Show(11) show ?case by (simp add: true_flow_def true_put)
next
  case (Policy f a p q seen sid i req params d)
  then have "true_view P K (p, q, seen_key sid i req # seen)" using true_get [of P K "fl_views f" a "(p, q, seen)"] by (auto simp: true_flow_def true_view_def)
  moreover have "standing P K sid d"
    using was_sent_asked [OF Policy(3)] Policy(4-7) unfolding standing_def by metis
  ultimately show ?case using Policy(8) by (simp add: true_flow_def true_put)
next
  case (Enqueue f a p q seen job params)
  then have "true_view P K (p, q, seen_key (rj_sid job) (rj_id job) (rj_req job) # seen)"
    using true_get [of P K "fl_views f" a "(p, q, seen)"] by (auto simp: true_flow_def true_view_def)
  moreover have "true_job P K job" using was_sent_asked [OF Enqueue(3)] Enqueue(4,6) unfolding true_job_def by metis
  ultimately show ?case using Enqueue(7) by (simp add: true_flow_def true_put)
next
  case (Guide f a p q seen g)
  then have "true_view P K (Some (p\<lparr>pp_feedback := Some g\<rparr>), q, seen)"
    using true_get [of P K "fl_views f" a "(Some p, q, seen)"] by (auto simp: true_flow_def true_view_def true_perm_def)
  with Guide(4) show ?case by (simp add: true_flow_def true_put)
next
  case (Settle f a p q seen d)
  then show ?case by (simp add: true_flow_def true_put)
next
  case (Pop f a params q seen ts)
  then show ?case by (simp add: true_flow_def true_put)
next
  case (Deny f job k r ts choice fb n)
  then have "standing P K (rj_sid job) (job_decision job choice fb n)"
    by (auto simp: true_flow_def standing_def true_job_def job_decision_def deny_choice_def)
  with Deny show ?case by (simp add: true_flow_def)
qed (auto simp: true_flow_def list_all_iff dest: true_silent)

section \<open>No review is forgotten\<close>

definition awake :: "flow \<Rightarrow> bool" where
  "awake f \<longleftrightarrow> (fl_active f = None \<and> fl_queue f \<noteq> [] \<longrightarrow> DoStart \<in> set (fl_tasks f)) \<and> (fl_timed f \<longleftrightarrow> fl_active f \<noteq> None)"

lemma awake_step: "astep P K G f f' \<Longrightarrow> awake f \<Longrightarrow> awake f'"
proof (induction rule: astep.induct)
  case (Quiet new t f ts)
  then show ?case by (auto simp: awake_def)
next
  case (Unqueue f keep)
  then show ?case by (cases "fl_queue f") (auto simp: awake_def)
qed (auto simp: awake_def)

section \<open>Runs of the loop\<close>

text \<open>Sessions whose approvals are all still ahead, and nothing under review.\<close>

definition fresh_world :: "world \<Rightarrow> bool" where
  "fresh_world w \<longleftrightarrow>
     distinct (map fst (w_sessions w)) \<and> list_all (\<lambda>(a, s). ses_pending s = None) (w_sessions w) \<and>
     reviews w = [] \<and> rs_active (w_review w) = None \<and> rs_deadline (w_review w) = None \<and> decides w = []"

definition no_grounds :: "string \<Rightarrow> string \<Rightarrow> permission_decision \<Rightarrow> bool" where
  "no_grounds a sid d \<longleftrightarrow> False"

definition flow_good :: "surroundings \<Rightarrow> (J \<Rightarrow> bool) \<Rightarrow> world \<Rightarrow> bool" where
  "flow_good P K w \<longleftrightarrow>
     distinct (map fst (w_sessions w)) \<and> once_inv (flow_of w []) \<and> awake (flow_of w []) \<and>
     true_flow P K no_grounds (decides w) (flow_of w []) \<and> heard K (flow_of w [])"

lemma keys_step: "astep P K G f f' \<Longrightarrow> map fst (fl_views f') = map fst (fl_views f)"
  by (induction rule: astep.induct) (simp_all add: hput_keys)

lemma done_step: "astep P K G f f' \<Longrightarrow> prefix (fl_done f) (fl_done f')"
  by (induction rule: astep.induct) simp_all

lemma asteps_inv:
  assumes "asteps P K G f f'" "I f" "\<And>f f'. astep P K G f f' \<Longrightarrow> I f \<Longrightarrow> I f'"
  shows "I f'"
  using assms by (induction rule: rtranclp_induct) blast+

lemma fresh_good:
  assumes "fresh_world w" "heard K (flow_of w [])" shows "flow_good P K w"
proof -
  have "view_keys (map (map_prod id sview) ss) = {#} \<and> list_all (\<lambda>(a, v). true_view P K v) (map (map_prod id sview) ss)"
    if "list_all (\<lambda>(a, s). ses_pending s = None) ss" for ss
    using that by (induction ss) (auto simp: sview_def pending_key_def)
  then show ?thesis using assms
    by (auto simp: fresh_world_def flow_good_def once_inv_def owned_def awake_def true_flow_def sviews_def)
qed

lemma run_event_good:
  assumes "flow_good P K w" "\<And>params. brings ev params \<Longrightarrow> K params"
  shows "flow_good P K (run_event P ev w)" "true_flow P K (event_grounds P w ev) (decides w) (flow_of (run_event P ev w) [])"
proof -
  let ?w' = "run_event P ev w"
  have good: "distinct (map fst (w_sessions w))" "once_inv (flow_of w [])" "awake (flow_of w [])"
      "true_flow P K no_grounds (decides w) (flow_of w [])" "heard K (flow_of w [])"
    using assms(1) by (simp_all add: flow_good_def)
  have steps: "asteps P K (event_grounds P w ev) (flow_of w []) (flow_of ?w' [])" by (rule event_run_refines [OF good(1,5) assms(2)])
  have start: "true_flow P K (event_grounds P w ev) (decides w) (flow_of w [])" using good(4) by (simp add: true_flow_def)
  show grounds: "true_flow P K (event_grounds P w ev) (decides w) (flow_of ?w' [])"
    by (rule asteps_inv [where I = "true_flow P K (event_grounds P w ev) (decides w)", OF steps start true_step])
  have "map fst (fl_views (flow_of ?w' [])) = map fst (fl_views (flow_of w []))"
    by (rule asteps_inv [where I = "\<lambda>f. map fst (fl_views f) = map fst (fl_views (flow_of w []))", OF steps refl]) (simp add: keys_step)
  then have "distinct (map fst (w_sessions ?w'))" using good(1) by (simp add: sviews_keys)
  moreover have "once_inv (flow_of ?w' [])" by (rule asteps_inv [where I = once_inv, OF steps good(2) once_step])
  moreover have "awake (flow_of ?w' [])" by (rule asteps_inv [where I = awake, OF steps good(3) awake_step])
  moreover have "true_flow P K no_grounds (decides ?w') (flow_of ?w' [])" using grounds by (simp add: true_flow_def)
  moreover have "heard K (flow_of ?w' [])" by (rule heard_steps [OF steps good(5)])
  ultimately show "flow_good P K ?w'" by (simp add: flow_good_def)
qed

lemma run_events_good:
  "flow_good P K w \<Longrightarrow> (\<And>ev params. ev \<in> set evs \<Longrightarrow> brings ev params \<Longrightarrow> K params) \<Longrightarrow> flow_good P K (run_events P evs w)"
  unfolding run_events_def
proof (induction evs arbitrary: w)
  case (Cons ev evs)
  have "flow_good P K (run_event P ev w)" by (rule run_event_good(1) [OF Cons(2)]) (use Cons(3) in auto)
  then show ?case unfolding foldl.simps by (rule Cons(1)) (use Cons(3) in auto)
qed simp

lemma fresh_run_good: "fresh_world w \<Longrightarrow> flow_good P (\<lambda>params. True) (run_events P evs w)"
  by (intro run_events_good fresh_good heard_any) simp_all

lemma asteps_done: "asteps P K G f f' \<Longrightarrow> prefix (fl_done f) (fl_done f')"
proof (induction rule: rtranclp_induct)
  case (step f' f'')
  then show ?case using done_step [OF step(2)] by (metis prefix_order.order_trans)
qed simp

section \<open>Properties\<close>

text \<open>An adapter with one session, whose policy approves every command that begins with \<^verbatim>\<open>ls\<close>, and a host that
  asks for such a command.\<close>

definition demo_surroundings :: surroundings where
  "demo_surroundings =
     \<lparr>p_env = \<lparr>e_serde = (\<lambda>t. None), e_limit = None, e_lower = (\<lambda>t. t), e_upper = (\<lambda>c. utf8_encode c), e_rand = (\<lambda>n. [])\<rparr>,
      p_debug = concat, p_prefixes = Some [[''ls'']], p_answer = (\<lambda>n. Inr (JObj [])), p_pages = (\<lambda>n. []), p_launch = (\<lambda>n. None),
      p_cmd = (\<lambda>n. []), p_writable = (\<lambda>n. True), p_form = True, p_vars = [], p_version = 1,
      p_notices = True, p_cua = False, p_reports = True,
      p_grants = \<lparr>gr_feedback = True, gr_rename = True, gr_roots = True, gr_cua = False, gr_cua_host = False, gr_leave = True\<rparr>,
      p_files = \<lparr>pe_answer = (\<lambda>log m ps. Inr JNull), pe_mint = (\<lambda>p n. p), pe_lower = id, pe_canon = Inr, pe_dir = (\<lambda>p. True),
        pe_len = (\<lambda>p. None), pe_read = (\<lambda>p. Inl []), pe_unscoped = None\<rparr>,
      p_mint = (\<lambda>n p k. p), p_message = (\<lambda>n. ''m1''), p_clock = (\<lambda>n. \<lparr>ck_now = n, ck_hours = (\<lambda>t. [])\<rparr>),
      p_login = \<lparr>lf_server = [], lf_version = [], lf_cli = []\<rparr>, p_editor_card = (\<lambda>n item. None), p_mode_switch = (\<lambda>n. None),
      p_negotiated = demo_config\<rparr>"

definition demo_session :: acp_session where
  "demo_session =
     \<lparr>ses_msp_sid = ''m'', ses_ver = 1, ses_cwd = ''/'', ses_roots = [], ses_roots_pending = False, ses_flights = [],
      ses_active_turn = None, ses_pending = None, ses_reviewing = [], ses_seen = [], ses_resolved = [], ses_unread = False, ses_queue = [],
      ses_questions = [], ses_ui_seen = [], ses_form = None, ses_recap = None, ses_mode = [], ses_auto_review = False, ses_context = [], ses_evidence = [],
      ses_session_mode = [], ses_effort = [], ses_effort_source = None, ses_usage = [], ses_usage_seen = [], ses_view_cursor = [],
      ses_view_seen = [], ses_twins = [], ses_skills = None, ses_fold = session_fold_new, ses_child_folds = []\<rparr>"

definition demo_review :: review_state where
  "demo_review =
     \<lparr>rs_session = None, rs_host_sessions = [], rs_active = None, rs_queue = [], rs_text = [], rs_text_item = [], rs_other = [],
      rs_retries = 0, rs_turn = [], rs_deadline = None, rs_timeout = 0\<rparr>"

definition demo_world :: world where
  "demo_world =
     \<lparr>w_sessions = [(''s'', demo_session)], w_review = demo_review,
      w_hosts = \<lparr>h_main = 0, h_read_only = None, h_reviewer = None, h_owners = [], h_launched = 1, h_log = []\<rparr>,
      w_calls = 0, w_asks = 0, w_messages = 0, w_report_ids = [], w_now = 0, w_out = []\<rparr>"

definition demo_requirement :: J where
  "demo_requirement = JObj [(''approvalId'', JStr ''a''), (''sourceIndex'', JNum ''0'')]"

definition demo_request :: J where
  "demo_request = JObj [(''sessionId'', JStr ''m''), (''approvalId'', JStr ''a''), (''toolName'', JStr ''bash''),
     (''currentRequirementId'', demo_requirement),
     (''availableChoices'', JArr [JObj [(''choiceId'', JStr ''ok''), (''decision'', JStr ''approved''), (''scope'', JStr ''once'')]]),
     (''subject'', JObj [(''kind'', JStr ''shell''), (''stages'', JArr [JObj [(''requirementId'', demo_requirement), (''position'', JNum ''1''),
        (''totalStages'', JNum ''1''), (''argvComplete'', JBool True), (''argv'', JArr [JStr ''ls'']),
        (''resolution'', JObj [(''kind'', JStr ''unresolved'')])]])])]"

definition demo_asks :: loop_event where
  "demo_asks = HostSays \<lparr>tag_kind = MainHost, tag_generation = 0\<rparr> ''approval/requested'' demo_request"

lemma demo_choices: "choices_of demo_surroundings demo_request = [\<lparr>pc_id = ''ok'', pc_decision = ''approved'', pc_scope = ''once'', pc_feedback = False\<rparr>]"
  by (simp add: choices_of_def perm_options_def demo_request_def perm_option_def text_at_def unwrap_or_def List.map_filter_def nonempty_def Let_def)

lemma demo_prefix: "command_prefix_choice demo_surroundings demo_request = Some ''ok''"
proof -
  have stage: "Option.bind (single_stage demo_request) stage_argv = Some [''ls'']"
    by (simp add: demo_request_def demo_requirement_def non_empty_str_def nonempty_def str_at_def single_stage_def text_is_def stage_argv_def)
  have once: "approve_once_choice (e_lower (p_env demo_surroundings)) (choices_of demo_surroundings demo_request) = Some ''ok''"
    unfolding demo_choices by (simp add: approve_once_choice_def approves_def demo_surroundings_def eq_ignore_ascii_case_def)
  have "offered_once demo_request ''ok''"
    by (simp add: offered_once_def demo_request_def items_at_def non_empty_str_def nonempty_def str_at_def)
  with stage once show ?thesis
    by (auto simp: command_prefix_choice_def demo_request_def non_empty_str_def nonempty_def str_at_def choices_of_def
        demo_surroundings_def command_prefixes_def bind_eq_Some_conv)
qed

lemma demo_decided:
  "decides (run_event demo_surroundings demo_asks demo_world) =
     [(''s'', ''m'', prefix_decision ''m'' 1 ''a'' demo_requirement ''ok'')]"
  "w_review (run_event demo_surroundings demo_asks demo_world) = demo_review"
proof -
  let ?P = demo_surroundings
  define w1 where "w1 = demo_world\<lparr>w_hosts := learn_event_owner \<lparr>tag_kind = MainHost, tag_generation = 0\<rparr> demo_request (w_hosts demo_world)\<rparr>"
  define w2 where "w2 = upd_session ''s'' (\<lambda>s. s\<lparr>ses_seen := (''m'', ''a'', j_to_string demo_requirement) # ses_seen s\<rparr>) w1"
  have w1: "w_sessions w1 = [(''s'', demo_session)]" "w_review w1 = demo_review" "w_out w1 = []" by (simp_all add: w1_def demo_world_def)
  have w1h: "h_owners (w_hosts w1) = [(''m'', MainHost)]"
    by (simp add: w1_def demo_world_def demo_request_def str_at_def learn_event_owner_def learn_owner_def)
  have get: "str_or demo_request ''sessionId'' [] = ''m''" "str_or demo_request ''approvalId'' [] = ''a''" "requirement_of demo_request = demo_requirement"
    by (simp_all add: str_or_def str_at_def unwrap_or_def demo_request_def requirement_of_def)
  have "with_editor_approval_args ?P ''s'' demo_request w1 = (None, w1)"
    by (simp add: with_editor_approval_args_def editor_tool_def demo_request_def non_empty_str_def nonempty_def str_at_def starts_with_def)
  moreover have "learn_resolved_approvals ?P ''s'' (clear_approval_reviewing ''s'' ''m'' ''a'' w1) = w1"
    by (simp add: learn_resolved_approvals_def clear_approval_reviewing_def w1 demo_session_def upd_session_def)
  ultimately have "open_approval ?P demo_request w1 = (w2, [DoDecide ''s'' ''m'' (prefix_decision ''m'' 1 ''a'' demo_requirement ''ok'')])"
    using demo_prefix
    by (simp add: open_approval_def get unwrap_or_def dispatch_approval_def Let_def w1 w2_def owner_for_msp_session_def)
      (simp add: demo_session_def unwrap_or_def w1)
  moreover have "handle_review_event ?P ''approval/requested'' demo_request w1 = None"
    by (simp add: handle_review_event_def w1 w1h demo_review_def demo_request_def str_at_def known_owner_def)
  moreover have tracked: "track_cursor meth demo_request w1 = (True, w1)" for meth
    by (simp add: track_cursor_def demo_request_def str_or_def str_at_def unwrap_or_def Let_def split: option.split)
  ultimately have "handle_loop ?P demo_asks demo_world = (w2, [DoDecide ''s'' ''m'' (prefix_decision ''m'' 1 ''a'' demo_requirement ''ok'')])"
    by (simp add: demo_asks_def handle_host_event_def is_current_def w1_def [symmetric] Let_def handle_user_event_def user_event_def tracked)
      (simp add: demo_world_def)
  moreover obtain w3 new where d: "send_permission_decision ?P ''s'' ''m'' (prefix_decision ''m'' 1 ''a'' demo_requirement ''ok'') w2 = (w3, new)"
    by fastforce
  moreover note r = decide_result [OF d]
  have "sviews w2 = [(''s'', None, [], [(''m'', ''a'', j_to_string demo_requirement)])]" "decides w2 = []"
    by (simp_all add: w2_def w1 demo_session_def upd_session_def sviews_def sview_def decides_def List.map_filter_def)
  moreover have "pop_queued_approval ''s'' w3 = (w3, [])"
    using r(1) calculation hget_sviews [of w3 "''s''"]
    by (auto simp: pop_queued_approval_def sview_def split: option.splits list.splits)
  moreover have "w_review w2 = demo_review" by (simp add: w2_def w1)
  ultimately show "decides (run_event demo_surroundings demo_asks demo_world) = [(''s'', ''m'', prefix_decision ''m'' 1 ''a'' demo_requirement ''ok'')]"
    "w_review (run_event demo_surroundings demo_asks demo_world) = demo_review"
    using r by (simp_all add: run_event_def)
qed

lemma demo_fresh: "fresh_world demo_world"
  by (simp add: fresh_world_def demo_world_def demo_session_def demo_review_def decides_def List.map_filter_def)

text \<open>C1: an approval of a session is decided at most once, whatever the hosts, the editor, the reviewer and
  the clock do and in whatever order: no two decisions of a run carry the same session, approval and
  requirement.\<close>

theorem approval_decided_once:
  assumes "fresh_world w"
  shows "distinct (map decision_key (decides (run_events P evs w)))"
proof -
  have "count (owned (flow_of (run_events P evs w) [])) k \<le> 1" for k
    using fresh_run_good [OF assms] by (simp only: flow_good_def once_inv_def)
  then have "count (mset (map decision_key (decides (run_events P evs w)))) k \<le> 1" for k
    by (rule order.trans [OF mset_subset_eq_count, rotated]) (simp add: owned_def)
  then have "\<forall>k. count (mset (map decision_key (decides (run_events P evs w)))) k = (if k \<in> set (map decision_key (decides (run_events P evs w))) then 1 else 0)"
    by (metis count_greater_eq_one_iff count_mset_0_iff le_antisym set_mset_mset)
  then show ?thesis by (rule distinct_count_atmost_1 [THEN iffD2])
qed

theorem approval_decided_once_witness:
  "distinct (map decision_key (decides (run_events demo_surroundings [demo_asks, demo_asks, DeadlineCheck] demo_world))) \<and>
     decides (run_events demo_surroundings [demo_asks] demo_world) = [(''s'', ''m'', prefix_decision ''m'' 1 ''a'' demo_requirement ''ok'')]"
  using approval_decided_once [OF demo_fresh, of demo_surroundings "[demo_asks, demo_asks, DeadlineCheck]"] demo_decided(1)
  by (simp add: run_events_def)

text \<open>What a decision may rest on, in the world before the event: the reject choice the host offers, the
  command-prefix policy, the choice the editor selected in answer to the request that shows this approval,
  a rejection the editor completed with the guidance form, or the verdict of the running review.\<close>

definition decision_grounds :: "surroundings \<Rightarrow> (J \<Rightarrow> bool) \<Rightarrow> world \<Rightarrow> loop_event \<Rightarrow> string \<times> string \<times> permission_decision \<Rightarrow> bool" where
  "decision_grounds P K w ev x \<longleftrightarrow>
     (case x of (a, sid, d) \<Rightarrow>
        \<exists>params. K params \<and> asked params sid (d_id d) (d_req d) \<and>
          (let choices = choices_of P params; choice = d_choice d in
           fallback_deny choices = Some choice \<or>
           command_prefix_choice P params = Some choice \<or>
           (case ev of
              EditorSays req ans \<Rightarrow>
                ans = PermissionAnswer (Selected choice) \<and> list_ex (\<lambda>c. pc_id c = choice) choices \<and>
                (\<exists>p. shown_for w a sid d p \<and> pp_req p = Some req)
            | GuidanceSays req ans \<Rightarrow>
                \<not> is_approving (e_lower (p_env P)) choices choice \<and>
                (\<exists>p f. shown_for w a sid d p \<and> pp_feedback p = Some f \<and> pg_req f = Some req)
            | HostSays tag meth ps \<Rightarrow> approve_once_choice (e_lower (p_env P)) choices = Some choice \<and> (\<exists>job. verdict_for w a sid d job)
            | HostAsks tag meth ps \<Rightarrow> approve_once_choice (e_lower (p_env P)) choices = Some choice \<and> (\<exists>job. verdict_for w a sid d job)
            | _ \<Rightarrow> False)))"

text \<open>The approvals the hosts asked for in these events.\<close>

definition asked_in :: "loop_event list \<Rightarrow> J \<Rightarrow> bool" where
  "asked_in evs params \<longleftrightarrow> list_ex (\<lambda>ev. brings ev params) evs"

lemma strip_choices: "true_perm P K (p\<lparr>pp_title := t\<rparr>) = true_perm P K p"
  by (simp add: true_perm_def split: option.split)

lemma shown_true:
  assumes "flow_good P K w" "shown_for w a sid d p"
  shows "true_perm P K p"
proof -
  obtain s where s: "hget (w_sessions w) a = Some s" "ses_pending s = Some p" using assms(2) by (auto simp: shown_for_def bind_eq_Some_conv)
  then have "hget (fl_views (flow_of w [])) a = Some (sview s)" by (simp add: hget_sviews)
  moreover have "list_all (\<lambda>(a, v). true_view P K v) (fl_views (flow_of w []))" using assms(1) by (simp add: flow_good_def true_flow_def)
  ultimately have "true_view P K (sview s)" by (metis true_get)
  then show ?thesis using s(2) by (simp add: true_view_def sview_def strip_choices)
qed

lemma verdict_true:
  assumes "flow_good P K w" "verdict_for w a sid d job"
  shows "\<exists>params. K params \<and> asked params sid (d_id d) (d_req d) \<and> rj_choices job = choices_of P params"
proof -
  have "true_job P K job" using assms by (simp add: flow_good_def true_flow_def verdict_for_def)
  then show ?thesis using assms(2) by (auto simp: true_job_def verdict_for_def)
qed

lemma grounds_meet:
  assumes good: "flow_good P K w" and g: "standing P K sid d \<or> event_grounds P w ev a sid d"
  shows "decision_grounds P K w ev (a, sid, d)"
proof (cases "standing P K sid d")
  case True
  then show ?thesis unfolding decision_grounds_def standing_def prod.case Let_def by meson
next
  case False
  then have g: "event_grounds P w ev a sid d" using g by blast
  show ?thesis
  proof (cases ev)
    case (EditorSays req ans)
    then obtain p where p: "shown_for w a sid d p" "pp_req p = Some req"
      "ans = PermissionAnswer (Selected (d_choice d)) \<and> list_ex (\<lambda>c. pc_id c = d_choice d) (pp_choices p) \<or> fallback_deny (pp_choices p) = Some (d_choice d)"
      using g by (auto simp only: event_grounds_def loop_event.case)
    then show ?thesis using shown_true [OF good p(1)] EditorSays
      unfolding decision_grounds_def true_perm_def shown_for_def by (auto simp: Let_def)
  next
    case (GuidanceSays req ans)
    then obtain p f where p: "shown_for w a sid d p" "pp_feedback p = Some f" "pg_req f = Some req" "d_choice d = pg_choice f"
      using g by (auto simp only: event_grounds_def loop_event.case)
    then show ?thesis using shown_true [OF good p(1)] GuidanceSays
      unfolding decision_grounds_def true_perm_def shown_for_def by (auto simp: Let_def)
  next
    case (HostSays tag meth ps)
    then obtain job where "verdict_for w a sid d job" "approve_once_choice (e_lower (p_env P)) (rj_choices job) = Some (d_choice d)"
      using g by (auto simp only: event_grounds_def loop_event.case)
    then show ?thesis using verdict_true [OF good] HostSays unfolding decision_grounds_def by (fastforce simp: Let_def)
  next
    case (HostAsks tag meth ps)
    then obtain job where "verdict_for w a sid d job" "approve_once_choice (e_lower (p_env P)) (rj_choices job) = Some (d_choice d)"
      using g by (auto simp only: event_grounds_def loop_event.case)
    then show ?thesis using verdict_true [OF good] HostAsks unfolding decision_grounds_def by (fastforce simp: Let_def)
  qed (use g in \<open>simp_all add: event_grounds_def\<close>)
qed

text \<open>C3: every decision the adapter sends after an event has its grounds in a message of this run: some
  event so far brought, from a host, the request for exactly this approval (session, approval and requirement), and
  among the choices of that very request the one sent is the reject choice, or the one the command-prefix
  policy takes for it, or the one the editor selected in answer to this approval's permission request, or a choice that
  does not approve, sent with the guidance form of this approval, or the choice that approves once, when the running
  review of this approval has ended in the verdict to allow. Earlier decisions stay as they are. The run starts with
  no approval shown, queued or under review.\<close>

theorem decisions_have_grounds:
  assumes "fresh_world w" "list_all (\<lambda>(a, s). ses_queue s = []) (w_sessions w)" "w1 = run_events P evs w"
  shows "prefix (decides w1) (decides (run_event P ev w1)) \<and>
    list_all (decision_grounds P (asked_in (evs @ [ev])) w1 ev) (drop (length (decides w1)) (decides (run_event P ev w1)))"
proof -
  let ?K = "asked_in (evs @ [ev])"
  have "heard ?K (flow_of w [])"
    using assms(2) by (auto simp: heard_def sviews_def sview_def list_all_iff)
  then have good: "flow_good P ?K w1"
    unfolding assms(3) by (rule run_events_good [OF fresh_good [OF assms(1)]]) (auto simp: asked_in_def list_ex_iff)
  from run_event_good(2) [OF this, of ev] obtain new where
    new: "decides (run_event P ev w1) = decides w1 @ new" "list_all (\<lambda>(a, sid, d). standing P ?K sid d \<or> event_grounds P w1 ev a sid d) new"
    by (auto simp: true_flow_def asked_in_def)
  have "list_all (decision_grounds P ?K w1 ev) new"
    using new(2) grounds_meet [OF good] by (auto simp: list_all_iff)
  then show ?thesis using new(1) by simp
qed

theorem decisions_have_grounds_witness:
  "decision_grounds demo_surroundings (asked_in [demo_asks]) demo_world demo_asks (''s'', ''m'', prefix_decision ''m'' 1 ''a'' demo_requirement ''ok'')"
  using decisions_have_grounds [OF demo_fresh _ refl, of demo_surroundings "[]" demo_asks] demo_decided(1)
  by (simp add: run_events_def) (simp add: demo_world_def demo_session_def decides_def List.map_filter_def)

text \<open>C4: no review waits for ever in the queue: after every event a queued review waits behind a running
  one, and a review is running exactly while its deadline is set.\<close>

theorem reviews_never_stall:
  assumes "fresh_world w" "w1 = run_events P evs w"
  shows "(rs_deadline (w_review w1) = None \<longleftrightarrow> rs_active (w_review w1) = None) \<and>
    (rs_active (w_review w1) = None \<longrightarrow> rs_queue (w_review w1) = [])"
  using fresh_run_good [OF assms(1), of P evs] assms(2) by (auto simp: flow_good_def awake_def)

theorem reviews_never_stall_witness:
  "rs_deadline (w_review (run_events demo_surroundings [demo_asks] demo_world)) = None \<and>
     rs_queue (w_review (run_events demo_surroundings [demo_asks] demo_world)) = []"
  using reviews_never_stall [OF demo_fresh refl, of demo_surroundings "[demo_asks]"] demo_decided(2)
  by (simp add: run_events_def demo_review_def)

text \<open>C5: a review that runs past its deadline is denied at the next check: unless the host has resolved the
  approval itself, its reject choice is sent for this very approval.\<close>

theorem late_review_is_denied:
  assumes "rs_active (w_review w) = Some job" "rs_deadline (w_review w) = Some dl" "dl \<le> w_now w"
    "\<not> review_job_resolved w job" "deny_choice (rj_choices job) = Some choice"
  shows "\<exists>d. (rj_acp job, rj_sid job, d) \<in> set (drop (length (decides w)) (decides (run_event P DeadlineCheck w))) \<and>
    d_id d = rj_id job \<and> d_req d = rj_req job \<and> d_choice d = choice"
proof -
  let ?r = "''reviewer timed out after '' @ short_duration (rs_timeout (w_review w))"
  define w1 where "w1 = upd_review (\<lambda>st. st\<lparr>rs_deadline := None, rs_active := None\<rparr>) w"
  have "expire_review_deadline w = (w1, [DoDeny job PlainDeny ?r, DoReset, DoStart])"
    using assms by (simp add: expire_review_deadline_def Let_def w1_def)
  moreover obtain fb where "deny_review_job P job PlainDeny ?r w1 =
      (w1, [DoDecide (rj_acp job) (rj_sid job) (job_decision job choice fb (Some (deny_notice PlainDeny ?r)))])"
    using assms(5) by (simp add: deny_review_job_def Let_def)
  moreover define d where "d = job_decision job choice fb (Some (deny_notice PlainDeny ?r))"
  moreover obtain w2 new where s: "send_permission_decision P (rj_acp job) (rj_sid job) d w1 = (w2, new)" by fastforce
  ultimately have run: "run_event P DeadlineCheck w = run_tasks P (new @ [DoReset, DoStart]) w2" by (simp add: run_event_def)
  have "asteps P (\<lambda>params. True) no_grounds (flow_of w2 (new @ [DoReset, DoStart])) (flow_of (run_event P DeadlineCheck w) [])"
    unfolding run by (rule tasks_refine [OF heard_any])
  then have "prefix (fl_done (flow_of w2 (new @ [DoReset, DoStart]))) (fl_done (flow_of (run_event P DeadlineCheck w) []))"
    by (rule asteps_done)
  then obtain later where "decides (run_event P DeadlineCheck w) = decides w2 @ later" unfolding flow_of_simps prefix_def by blast
  moreover have "decides w2 = decides w @ [(rj_acp job, rj_sid job, d)]" using decide_result(3) [OF s] by (simp add: w1_def)
  ultimately have "(rj_acp job, rj_sid job, d) \<in> set (drop (length (decides w)) (decides (run_event P DeadlineCheck w)))" by simp
  moreover have "d_id d = rj_id job" "d_req d = rj_req job" "d_choice d = choice" by (simp_all add: d_def job_decision_def)
  ultimately show ?thesis by blast
qed

definition demo_job :: review_job where
  "demo_job =
     \<lparr>rj_acp = ''s'', rj_owner = ''m'', rj_sid = ''m'', rj_ver = 1, rj_id = ''a'', rj_req = JNull,
      rj_choices = [\<lparr>pc_id = ''no'', pc_decision = ''denied'', pc_scope = ''once'', pc_feedback = False\<rparr>], rj_child = None, rj_prompt = []\<rparr>"

definition late_world :: world where
  "late_world = upd_review (\<lambda>st. st\<lparr>rs_active := Some demo_job, rs_deadline := Some 5\<rparr>) (demo_world\<lparr>w_now := 7\<rparr>)"

theorem late_review_is_denied_witness:
  "\<exists>d. (''s'', ''m'', d) \<in> set (decides (run_event demo_surroundings DeadlineCheck late_world)) \<and>
     d_id d = ''a'' \<and> d_req d = JNull \<and> d_choice d = ''no''"
proof -
  have "deny_choice (rj_choices demo_job) = Some ''no''"
    by (simp add: demo_job_def deny_choice_def fallback_deny_def to_ascii_lowercase_def Let_def) code_simp
  from late_review_is_denied [OF _ _ _ _ this, where w = late_world and dl = 5 and P = demo_surroundings] show ?thesis
    by (simp add: late_world_def demo_world_def demo_session_def review_job_resolved_def demo_job_def decides_def List.map_filter_def)
qed

text \<open>the transcript the reviewer sees of a session stays short: at most 40 lines and 16000 bytes of it are
  remembered, and they are its last lines.\<close>

theorem review_memory_bounded:
  "length (remember_review_line buf line) \<le> 40 \<and> sum_list (map length (remember_review_line buf line)) \<le> 16000 \<and>
   suffix (remember_review_line buf line) (buf @ [line])"
proof -
  have bytes: "length (remember_bytes ls) \<le> length ls \<and> sum_list (map length (remember_bytes ls)) \<le> 16000 \<and> suffix (remember_bytes ls) ls" for ls
    by (induction ls rule: remember_bytes.induct) (auto simp: suffix_Cons)
  have "length (remember_lines ls) \<le> 40 \<and> suffix (remember_lines ls) ls" for ls
    by (simp add: remember_lines_def suffix_drop)
  with bytes [of "remember_lines (buf @ [line])"] show ?thesis
    unfolding remember_review_line_def by (meson order.trans suffix_order.trans)
qed

text \<open>The other side of the bound: one line longer than 16000 bytes empties the memory.\<close>

theorem long_line_forgets: "16000 < length line \<Longrightarrow> remember_review_line buf line = []"
proof -
  assume long: "16000 < length line"
  have "remember_bytes (ls @ [line]) = []" for ls using long by (induction ls) auto
  moreover have "\<exists>ls. remember_lines (buf @ [line]) = ls @ [line]" by (simp add: remember_lines_def)
  ultimately show ?thesis unfolding remember_review_line_def by metis
qed

end
