(* ===== verification/Ledger_Run.thy ===== *)
theory Ledger_Run
  imports Ledger Permission_Props
begin

text \<open>
  The ledger over the loop: approvals and reviews leave it alone, a request adds its id, and so a run adds
  exactly the ids of the requests it received.
\<close>

section \<open>Approvals and reviews\<close>

definition tidy :: "world \<Rightarrow> done_work \<Rightarrow> bool" where
  "tidy w r \<longleftrightarrow> same_books w (fst r)"

lemma tidy_pair: "same_books w w' \<Longrightarrow> tidy w (w', ts)"
  by (simp add: tidy_def)

lemma tidy_then: "same_books w w' \<Longrightarrow> tidy w' r \<Longrightarrow> tidy w r"
  unfolding tidy_def by (rule books_trans)

lemma tidy_branch:
  "(c \<Longrightarrow> tidy w x) \<Longrightarrow> (\<not> c \<Longrightarrow> tidy w y) \<Longrightarrow> tidy w (if c then x else y)"
  "(a = None \<Longrightarrow> tidy w x) \<Longrightarrow> (\<And>v. a = Some v \<Longrightarrow> tidy w (f v)) \<Longrightarrow> tidy w (case a of None \<Rightarrow> x | Some v \<Rightarrow> f v)"
  "(\<And>v. b = Inl v \<Longrightarrow> tidy w (g v)) \<Longrightarrow> (\<And>v. b = Inr v \<Longrightarrow> tidy w (h v)) \<Longrightarrow> tidy w (case b of Inl v \<Rightarrow> g v | Inr v \<Rightarrow> h v)"
  "(\<And>u v. p = (u, v) \<Longrightarrow> tidy w (k u v)) \<Longrightarrow> tidy w (case p of (u, v) \<Rightarrow> k u v)"
  "(xs = [] \<Longrightarrow> tidy w x) \<Longrightarrow> (\<And>z zs. xs = z # zs \<Longrightarrow> tidy w (l z zs)) \<Longrightarrow> tidy w (case xs of [] \<Rightarrow> x | z # zs \<Rightarrow> l z zs)"
  by (auto split: option.split sum.split prod.split list.split)

lemma same_branch:
  "(c \<Longrightarrow> same_books w x) \<Longrightarrow> (\<not> c \<Longrightarrow> same_books w y) \<Longrightarrow> same_books w (if c then x else y)"
  "(a = None \<Longrightarrow> same_books w x) \<Longrightarrow> (\<And>v. a = Some v \<Longrightarrow> same_books w (f v)) \<Longrightarrow>
    same_books w (case a of None \<Rightarrow> x | Some v \<Rightarrow> f v)"
  by (auto split: option.split)

lemma tidy_pop: "tidy w (pop_queued_approval sid w)"
  unfolding pop_queued_approval_def
  by (auto split: option.split list.split intro!: tidy_pair calm simp: tview_def)

lemma tidy_decide: "tidy w (send_permission_decision P a s d w)"
  unfolding send_permission_decision_def case_prod_beta Let_def
  by (intro tidy_branch tidy_pair same_branch calm plain_effect_simps)

lemma books_reset [calm]: "same_books w w' \<Longrightarrow> same_books w (reset_reviewer_host w')"
  unfolding reset_reviewer_host_def Let_def by (auto split: option.split intro!: calm)

lemma tidy_review_turn: "tidy w (start_review_turn P job g session w)"
  unfolding start_review_turn_def case_prod_beta by (intro tidy_branch tidy_pair calm)

lemma tidy_review_session: "tidy w (start_review_session P job g cwd w)"
  unfolding start_review_session_def case_prod_beta
  by (intro tidy_branch tidy_pair tidy_then [OF _ tidy_review_turn] calm)

lemma tidy_start: "tidy w (start_next_review P w)"
proof -
  have turn: "tidy w (start_review_turn P job g sid (w'\<lparr>w_hosts := h\<rparr>))" if "same_books w w'" for job g sid w' h
    by (intro tidy_then [OF _ tidy_review_turn] calm that)
  have session: "tidy w (start_review_session P job g cwd (w'\<lparr>w_hosts := h\<rparr>))" if "same_books w w'" for job g cwd w' h
    by (intro tidy_then [OF _ tidy_review_session] calm that)
  show ?thesis unfolding start_next_review_def case_prod_beta Let_def
    by (auto split: option.split list.split sum.split intro!: turn session tidy_pair calm)
qed

lemma tidy_deny: "tidy w (deny_review_job P job k r w)"
  unfolding deny_review_job_def Let_def by (intro tidy_branch tidy_pair calm plain_effect_simps)

lemma books_show [calm]: "same_books w w' \<Longrightarrow> same_books w (show_permission P a own ch m i params w')"
  unfolding show_permission_def case_prod_beta Let_def
  by (intro same_branch calm plain_effect_simps) (simp_all add: tview_def)

lemma tidy_enqueue: "enqueue_review P a own params w = Some r \<Longrightarrow> tidy w r"
  unfolding enqueue_review_def Let_def
  by (auto split: option.splits if_splits intro!: tidy_pair calm simp: tview_def)

lemma place_view:
  assumes "place_approval m i r params s = (pl, stale, s')"
  shows "tview s' = tview s"
  using assms unfolding place_approval_def Let_def by (auto simp: tview_def split: if_splits option.splits)

lemma tidy_dispatch: "tidy w (dispatch_approval P a own ch m i params w)"
proof -
  have placed: "same_books w (send_cancel_request stale (upd_session a (\<lambda>_. s') w))"
    if "hget (w_sessions w) a = Some s" "place_approval m i req params s = (pl, stale, s')" for s s' req pl stale
  proof -
    have "same_books w (upd_session a (\<lambda>_. s') w)" by (rule books_upd [OF same_refl(2)]) (use that in \<open>simp add: place_view\<close>)
    then show ?thesis by (rule books_trans) (intro quietD(2) quiet_send same_refl)
  qed
  have seen: "same_books w (upd_session a (\<lambda>s. s\<lparr>ses_seen := k # ses_seen s\<rparr>) w)" for k by (intro calm) (simp add: tview_def)
  have shown: "tidy w (case pl of Duplicate \<Rightarrow> (retitle_editor_permission a m i params w', [])
      | Queued \<Rightarrow> (w', []) | Shown \<Rightarrow> (show_permission P a own ch m i params w', []))" if "same_books w w'" for pl w'
    using that by (cases pl) (auto intro!: tidy_pair calm)
  show ?thesis unfolding dispatch_approval_def Let_def prod.case
    by (intro tidy_branch shown placed tidy_pair seen calm; (erule tidy_enqueue | simp))
qed

lemma tidy_open: "tidy w (open_approval P params w)"
proof -
  have go: "tidy w (dispatch_approval P a own ch m i ps (learn_resolved_approvals P a (clear_approval_reviewing a m i (snd (with_editor_approval_args P a params w)))))"
    for a own ch m i ps by (intro tidy_then [OF _ tidy_dispatch] calm)
  show ?thesis unfolding open_approval_def case_prod_beta Let_def
    by (auto split: option.split intro!: go tidy_pair calm)
qed

lemma tidy_resolved: "tidy w (approval_resolved params w)"
  unfolding approval_resolved_def case_prod_beta Let_def drop_queued_review_def
  by (intro tidy_branch tidy_pair same_branch calm) (simp_all add: tview_def)

lemma books_closed: "same_books w w' \<Longrightarrow> same_books w (upd_session a (\<lambda>s. s\<lparr>ses_pending := p\<rparr>) w')"
  by (intro calm) (simp add: tview_def)

lemma books_offer [calm]: "same_books w w' \<Longrightarrow> same_books w (snd (offer_permission_feedback P a c w'))"
  unfolding offer_permission_feedback_def Let_def by (auto split: option.split intro!: calm books_closed)

lemma tidy_settle: "tidy w (settle_permission P a s p ans w)"
  unfolding settle_permission_def case_prod_beta Let_def
  by (auto split: sum.split option.split bool.split intro!: tidy_pair calm books_closed)

lemma tidy_permission: "tidy w (complete_permission P req ans w)" "tidy w (complete_permission_feedback req ans w)"
  unfolding complete_permission_def complete_permission_feedback_def
  by (auto split: option.split intro!: tidy_settle tidy_pair calm books_closed)

lemma tidy_over: "tidy w (review_turn_over P terminal params w)"
  unfolding review_turn_over_def finish_review_def fail_review_turn_def Let_def
  by (auto split: option.split intro!: tidy_pair calm)

lemma books_retry [calm]: "same_books w w' \<Longrightarrow> same_books w (snd (retry_review_for_verdict P sid i w'))"
  unfolding retry_review_for_verdict_def case_prod_beta by (auto split: option.split sum.split intro!: calm)

lemma tidy_review_completed: "tidy w (review_turn_completed P params w)" "tidy w (review_foreground_completed P params w)"
proof -
  have over: "tidy w (review_turn_over P terminal params w')" if "same_books w w'" for terminal w'
    by (rule tidy_then [OF that tidy_over])
  show "tidy w (review_turn_completed P params w)"
    unfolding review_turn_completed_def case_prod_beta Let_def
    by (auto split: option.split bool.split intro!: tidy_pair calm over)
  show "tidy w (review_foreground_completed P params w)"
    unfolding review_foreground_completed_def finish_review_def Let_def by (auto split: option.split intro!: tidy_pair calm)
qed

lemma tidy_review_event: "handle_review_event P meth params w = Some r \<Longrightarrow> tidy w r"
  unfolding handle_review_event_def
  by (auto split: option.splits if_split_asm intro!: tidy_pair tidy_review_completed calm simp del: insert_iff)

lemma tidy_deadline: "tidy w (expire_review_deadline w)" "tidy w (reviewer_closed w)"
  unfolding expire_review_deadline_def reviewer_closed_def Let_def by (auto split: option.split intro!: tidy_pair calm)

lemma tidy_task: "tidy w (do_task P t w)"
  by (cases t) (auto intro!: tidy_open tidy_pop tidy_decide tidy_start tidy_deny tidy_pair calm)

section \<open>Events\<close>

text \<open>The id of the request that an event brings; a cancellation is a notification.\<close>

fun request_id :: "loop_event \<Rightarrow> nat option" where
  "request_id (Request req (PromptRequest sid bs mt)) = req"
| "request_id (Request req (SteerRequest params blocks)) = req"
| "request_id (Request req (StopTask params)) = req"
| "request_id ev = None"

definition adds :: "surroundings \<Rightarrow> nat multiset \<Rightarrow> world \<Rightarrow> done_work \<Rightarrow> bool" where
  "adds P N w r \<longleftrightarrow> books P N w (fst r)"

lemma adds_tidy: "tidy w r \<Longrightarrow> adds P {#} w r"
  by (simp add: adds_def tidy_def books_same)

lemma adds_pair: "books P N w w' \<Longrightarrow> adds P N w (w', ts)"
  by (simp add: adds_def)

lemma adds_calm: "same_books w w' \<Longrightarrow> adds P {#} w (w', ts)"
  by (simp add: adds_def books_same)

lemma adds_then: "same_books w w' \<Longrightarrow> adds P N w' r \<Longrightarrow> adds P N w r"
  unfolding adds_def by (rule books_first [OF books_same])

lemma adds_if: "(c \<Longrightarrow> adds P N w x) \<Longrightarrow> (\<not> c \<Longrightarrow> adds P N w y) \<Longrightarrow> adds P N w (if c then x else y)"
  by simp

lemma adds_user_event: "adds P {#} w (user_event P meth params w)"
  unfolding user_event_def
  by (intro adds_if adds_tidy [OF tidy_open] adds_tidy [OF tidy_resolved] adds_pair [OF books_turn_completed]
      adds_pair [OF books_turn_unqueued] adds_pair [OF books_turn_retracted] adds_pair [OF books_recap_completed] adds_calm calm)

lemma adds_user: "adds P {#} w (handle_user_event P meth params w)"
proof -
  have t: "same_books w (snd (track_cursor meth params w))" by (intro calm)
  show ?thesis unfolding handle_user_event_def case_prod_beta
    by (auto split: bool.split intro: adds_then [OF t adds_user_event] adds_calm [OF t])
qed

lemma adds_host_event: "adds P {#} w (handle_host_event P tag meth params w)"
proof -
  define w1 where "w1 = w\<lparr>w_hosts := learn_event_owner tag params (w_hosts w)\<rparr>"
  have w1: "same_books w w1" unfolding w1_def by (intro calm)
  have "adds P {#} w1 (case handle_review_event P meth params w1 of Some r \<Rightarrow> r | None \<Rightarrow> handle_user_event P meth params w1)"
    by (auto split: option.split intro: adds_user adds_tidy tidy_review_event)
  then show ?thesis unfolding handle_host_event_def Let_def w1_def [symmetric]
    by (intro adds_if adds_calm calm) (rule adds_then [OF w1])
qed

lemma adds_host_request: "adds P {#} w (handle_host_request P tag meth params w)"
proof -
  define w1 where "w1 = w\<lparr>w_hosts := learn_event_owner tag params (w_hosts w)\<rparr>"
  have w1: "same_books w w1" unfolding w1_def by (intro calm)
  have other: "adds P {#} w1 (if meth = a then open_approval P params w1 else if meth = b then handle_user_event P c params w1 else (w1, []))"
    for a b c by (intro adds_if adds_user adds_tidy [OF tidy_open] adds_calm calm)
  have "adds P {#} w1 (case handle_review_event P meth params w1 of Some r \<Rightarrow> r | None \<Rightarrow>
      if meth = a then open_approval P params w1 else if meth = b then handle_user_event P c params w1 else (w1, []))" for a b c
    by (cases "handle_review_event P meth params w1") (simp_all only: option.case other adds_tidy [OF tidy_review_event])
  then show ?thesis unfolding handle_host_request_def Let_def w1_def [symmetric]
    by (intro adds_if adds_calm calm) (rule adds_then [OF w1])
qed

lemma adds_event:
  assumes dist: "distinct (map fst (w_sessions w))"
  shows "adds P (id_mset (request_id ev)) w (handle_loop P ev w)"
proof (cases ev)
  case (Request req r)
  then show ?thesis
    by (cases r) (simp_all add: adds_pair books_prompt books_steering books_stop_task books_cancel adds_calm calm)
next
  case (ReviewerExit tag)
  then show ?thesis by (auto intro: adds_tidy tidy_deadline adds_calm calm)
next
  case (SessionReattached sid r)
  then show ?thesis by (simp add: adds_pair books_reattached)
next
  case (SetAutoReview sid b)
  then show ?thesis by (auto intro!: adds_calm calm simp: tview_def)
qed (simp_all add: adds_host_event adds_host_request adds_tidy tidy_permission tidy_deadline adds_pair books_complete_feedback dist
    books_abandon books_fail_all adds_calm calm)

lemma books_tasks: "same_books w (run_tasks P ts w)"
proof (induction P ts w rule: run_tasks.induct)
  case (2 P t ts w)
  then show ?case using tidy_task [of w P t] unfolding run_tasks.simps tidy_def by (rule books_trans [rotated])
qed (simp add: calm)

theorem books_event:
  "distinct (map fst (w_sessions w)) \<Longrightarrow> books P (id_mset (request_id ev)) w (run_event P ev w)"
  unfolding run_event_def using adds_event [unfolded adds_def] by (rule books_none [OF _ books_same [OF books_tasks]])

lemma event_keys:
  assumes "distinct (map fst (w_sessions w))"
  shows "map fst (w_sessions (run_event P ev w)) = map fst (w_sessions w)"
proof -
  have "map fst (fl_views (flow_of (run_event P ev w) [])) = map fst (fl_views (flow_of w []))"
    by (rule asteps_inv [where I = "\<lambda>f. map fst (fl_views f) = map fst (fl_views (flow_of w []))", OF event_run_refines [OF assms heard_any] refl])
      (auto dest: keys_step)
  then show ?thesis by (simp add: sviews_keys)
qed

lemma run_books:
  assumes "distinct (map fst (w_sessions w))"
  shows "books P ((\<Sum>e\<leftarrow>evs. id_mset (request_id e))) w (run_events P evs w)"
  using assms
proof (induction evs arbitrary: w)
  case (Cons ev evs)
  have "books P (id_mset (request_id ev) + (\<Sum>e\<leftarrow>evs. id_mset (request_id e))) w (run_events P evs (run_event P ev w))"
    using books_then [OF books_event [OF Cons.prems] Cons.IH] Cons.prems by (simp add: event_keys)
  then show ?case by (simp add: run_events_def)
qed (simp add: run_events_def books_refl)

end
