(* ===== verification/Turn_Props.thy ===== *)
theory Turn_Props
  imports Ledger_Run
begin

text \<open>
  Properties of prompts and turns: the ledger over runs of the loop, closing a session and losing the hosts.
\<close>

section \<open>The ledger of a run\<close>

definition held_ids :: "surroundings \<Rightarrow> world \<Rightarrow> nat multiset" where
  "held_ids P w = helds (p_version P) (tviews w)"

definition received :: "loop_event list \<Rightarrow> nat multiset" where
  "received evs = mset (List.map_filter request_id evs)"

text \<open>Sessions in the negotiated version, nothing answered and nothing held.\<close>

definition clear_desk :: "surroundings \<Rightarrow> world \<Rightarrow> bool" where
  "clear_desk P w \<longleftrightarrow> distinct (map fst (w_sessions w)) \<and> versions P w \<and> ledger P w = {#}"

lemma received_sum: "(\<Sum>e\<leftarrow>evs. id_mset (request_id e)) = received evs"
  by (induction evs) (auto simp: received_def List.map_filter_def split: option.splits)

lemma ledger_of_run:
  assumes "clear_desk P w"
  shows "mset (answers (run_events P evs w)) + held_ids P (run_events P evs w) = received evs"
  using run_books [of w P evs] assms by (simp add: clear_desk_def books_def received_sum ledger_def held_ids_def)

text \<open>C2: over any run of the loop, whatever hosts, editor and reviewer do and in whatever order, every request of
  the editor has been answered exactly once or is held in exactly one place, as a prompt in flight, a recap
  or an open form; nothing else is ever answered.\<close>

theorem prompts_answered_once:
  assumes "clear_desk P w"
  shows "mset (answers (run_events P evs w)) + held_ids P (run_events P evs w) = mset (List.map_filter request_id evs)"
  using ledger_of_run [OF assms] by (simp add: received_def)

lemma demo_clear: "clear_desk demo_surroundings demo_world"
  by (simp add: clear_desk_def versions_def ledger_def helds_def tviews_def demo_world_def demo_session_def answers_def
      List.map_filter_def demo_surroundings_def)

theorem prompts_answered_once_witness:
  "mset (answers (run_events demo_surroundings [Request (Some 7) (PromptRequest ''s'' [] [])] demo_world)) +
     held_ids demo_surroundings (run_events demo_surroundings [Request (Some 7) (PromptRequest ''s'' [] [])] demo_world) = {#7#}"
  using prompts_answered_once [OF demo_clear, of "[Request (Some 7) (PromptRequest ''s'' [] [])]"]
  by (simp add: List.map_filter_def)

section \<open>Closing a session\<close>

lemma helds_del: "distinct (map fst m) \<Longrightarrow> hget m k = Some v \<Longrightarrow> helds ver (hdel k m) + held ver v = helds ver m"
proof (induction m)
  case (Cons x m)
  have gone: "hdel k m = m" if "k \<notin> fst ` set m" using that by (rule AList.delete_id)
  show ?case using Cons gone by (cases x) (auto simp: helds_def ac_simps split: if_splits)
qed simp

lemma hdel_map: "map (map_prod id f) (hdel k m) = hdel k (map (map_prod id f) m)"
  by (induction m) auto

lemma tviews_del: "tviews (w\<lparr>w_sessions := hdel sid (w_sessions w)\<rparr>) = hdel sid (tviews w)"
  by (simp add: tviews_def hdel_map)

lemma cancel_flight_frame:
  "tviews (cancel_flight sid ver f w) = tviews w"
  "mset (answers (cancel_flight sid ver f w)) = mset (answers w) + (if ver = 2 then {#} else id_mset (if_req f))"
  by (simp_all add: cancel_flight_def)

lemma drop_frame:
  assumes s: "hget (w_sessions w) sid = Some s"
  shows "tviews (snd (drop_acp_session sid w)) = hdel sid (tviews w)"
    "mset (answers (snd (drop_acp_session sid w))) = mset (answers w) + held (ses_ver s) (tview s)"
    "fst (drop_acp_session sid w)"
proof -
  note folded = fold_answers [where g = "cancel_flight sid (ses_ver s)", OF cancel_flight_frame]
  have sum: "sum_list (map (\<lambda>f. if ses_ver s = 2 then {#} else id_mset (if_req f)) fs) = (if ses_ver s = 2 then {#} else reqs_mset (map if_req fs))" for fs
    by (induction fs) simp_all
  have form: "tviews ((case form of Some f \<Rightarrow> cancel_form sid v f | None \<Rightarrow> id) w') = tviews w'"
    "mset (answers ((case form of Some f \<Rightarrow> cancel_form sid v f | None \<Rightarrow> id) w')) = mset (answers w') + (case form of Some f \<Rightarrow> id_mset (ff_prompt f) | None \<Rightarrow> {#})"
    for form v w' by (simp_all split: option.split)
  have del: "answers (w\<lparr>w_sessions := hdel sid (w_sessions w)\<rparr>) = answers w" by (simp add: answers_def)
  show "tviews (snd (drop_acp_session sid w)) = hdel sid (tviews w)"
    "mset (answers (snd (drop_acp_session sid w))) = mset (answers w) + held (ses_ver s) (tview s)" "fst (drop_acp_session sid w)"
    by (simp_all add: drop_acp_session_def s form folded sum tviews_del del split: option.split)
qed

text \<open>C6: closing a session answers everything it held, and then the request itself; no session of that name is
  left. Closing a session that is not open only answers the request.\<close>

theorem close_settles_everything:
  assumes "versions P w" "distinct (map fst (w_sessions w))"
  shows "mset (answers (close_session P req sid w)) =
      mset (answers w) + (case hget (w_sessions w) sid of Some s \<Rightarrow> if sid = [] then {#} else held (p_version P) (tview s) | None \<Rightarrow> {#}) +
      (case req of Some n \<Rightarrow> {#n#} | None \<Rightarrow> {#}) \<and>
    (sid = [] \<or> hget (tviews (close_session P req sid w)) sid = None)"
proof (cases "sid = []")
  case True
  then show ?thesis by (simp add: close_session_def id_mset_def split: option.split)
next
  case False
  define w1 where "w1 = cancel_session_turns P sid w"
  have w1: "tviews w1 = tviews w" "answers w1 = answers w" by (simp_all add: w1_def)
  show ?thesis
  proof (cases "hget (w_sessions w) sid")
    case None
    then have "hget (w_sessions w1) sid = None" using hget_tviews [of w1 sid] hget_tviews [of w sid] by (simp add: w1(1))
    then have "drop_acp_session sid w1 = (False, w1)" by (simp add: drop_acp_session_def)
    then show ?thesis using None False by (simp add: close_session_def w1 hget_tviews id_mset_def flip: w1_def)
  next
    case (Some s)
    have "same_books w w1" by (simp add: same_books_def w1)
    then obtain s1 where s1: "hget (w_sessions w1) sid = Some s1" "tview s1 = tview s" using there Some by blast
    have ver: "ses_ver s1 = p_version P"
      using versions_get [OF assms(1) Some] s1(2) by (simp add: tview_def one_version_def)
    obtain w2 where d: "drop_acp_session sid w1 = (True, w2)" using drop_frame(3) [OF s1(1)] by (cases "drop_acp_session sid w1") auto
    have w2: "tviews w2 = hdel sid (tviews w)" "mset (answers w2) = mset (answers w) + held (p_version P) (tview s)"
      using drop_frame(1,2) [OF s1(1)] by (simp_all only: d snd_conv w1 ver s1(2))
    have "close_session P req sid w = leave_session P (ses_msp_sid s) (respond req ClosedSession w2)"
      using False by (simp add: close_session_def Some d flip: w1_def)
    then show ?thesis using False w2 Some by (simp add: id_mset_def del: held_simps)
  qed
qed

text \<open>A session with a prompt in flight.\<close>

definition busy_world :: world where
  "busy_world = demo_world\<lparr>w_sessions := [(''s'', demo_session\<lparr>ses_flights := [new_flight ''t'' (Some 9) False None]\<rparr>)]\<rparr>"

theorem close_settles_everything_witness:
  "mset (answers (close_session demo_surroundings (Some 4) ''s'' busy_world)) = {#9, 4#}"
proof -
  have v: "versions demo_surroundings busy_world" "distinct (map fst (w_sessions busy_world))"
    by (simp_all add: versions_def tviews_def busy_world_def demo_session_def demo_surroundings_def)
  have "answers busy_world = []" by (simp add: answers_def busy_world_def demo_world_def List.map_filter_def)
  then show ?thesis using close_settles_everything [OF v, of "Some 4" "''s''"]
    by (simp add: busy_world_def demo_session_def demo_surroundings_def new_flight_def)
qed

section \<open>Losing the hosts\<close>

definition at_rest :: "acp_session \<Rightarrow> bool" where
  "at_rest s \<longleftrightarrow> ses_flights s = [] \<and> ses_active_turn s = None \<and> ses_pending s = None \<and> ses_queue s = [] \<and>
     ses_questions s = [] \<and> ses_recap s = None"

text \<open>Operations that change one session, seen from the others.\<close>

definition only :: "string \<Rightarrow> world \<Rightarrow> world \<Rightarrow> bool" where
  "only sid w w' \<longleftrightarrow> (\<forall>k. k \<noteq> sid \<longrightarrow> hget (w_sessions w') k = hget (w_sessions w) k)"

lemma out_all_sessions [simp]: "w_sessions (out_all es w) = w_sessions w"
  unfolding out_all_def by (induction es arbitrary: w) simp_all

lemma fold_sessions: "(\<And>x w. w_sessions (g x w) = w_sessions w) \<Longrightarrow> w_sessions (fold g xs w) = w_sessions w"
  by (induction xs arbitrary: w) simp_all

lemma calm_sessions [simp]:
  "w_sessions (send_state sid st stop w) = w_sessions w" "w_sessions (send_agent_text sid ver t w) = w_sessions w"
  "w_sessions (send_error req code msg w) = w_sessions w" "w_sessions (send_cancel_request r w) = w_sessions w"
  "w_sessions (send_file_report sid ver report u w) = w_sessions w"
  by (simp_all add: send_state_def send_agent_text_def send_error_def respond_def send_cancel_request_def send_file_report_def split: option.split)

lemma withdraw_sessions [simp]: "w_sessions (withdraw_questions s w) = w_sessions w" "w_sessions (withdraw_permission s w) = w_sessions w"
  by (simp_all add: withdraw_questions_def withdraw_permission_def fold_sessions split: option.split)

lemma hget_upd: "hget (w_sessions (upd_session sid f w)) k = (if k = sid then map_option f (hget (w_sessions w) sid) else hget (w_sessions w) k)"
  by (auto simp: upd_session_def hget_put split: option.split)

lemma hget_fold_lines:
  "hget (w_sessions (fold_lines sid h w)) k =
    (if k = sid then map_option (\<lambda>s. s\<lparr>ses_fold := fst (h (ses_fold s))\<rparr>) (hget (w_sessions w) sid) else hget (w_sessions w) k)"
  by (auto simp: fold_lines_def hget_upd split: option.split)

lemma fail_in_flight_at:
  "hget (w_sessions (fail_in_flight P sid msg w)) k =
    (if k = sid then map_option (\<lambda>s. s\<lparr>ses_fold := fst (failed_checks P sid (ses_fold s)), ses_flights := []\<rparr>) (hget (w_sessions w) sid)
     else hget (w_sessions w) k)"
  by (auto simp: fail_in_flight_def Let_def hget_upd hget_fold_lines fold_sessions split: option.split)

lemma abandon_at:
  "k \<noteq> sid \<Longrightarrow> hget (w_sessions (abandon_session_work P sid msg w)) k = hget (w_sessions w) k"
  "hget (w_sessions (abandon_session_work P sid msg w)) sid = None \<longleftrightarrow> hget (w_sessions w) sid = None"
  "hget (w_sessions (abandon_session_work P sid msg w)) sid = Some s \<Longrightarrow> at_rest s"
  "map_option ses_form (hget (w_sessions (abandon_session_work P sid msg w)) sid) = map_option ses_form (hget (w_sessions w) sid)"
  by (auto simp: abandon_session_work_def Let_def hget_upd hget_fold_lines fail_in_flight_at at_rest_def split: option.splits)

lemma fail_all_at:
  "hget (w_sessions (fold (\<lambda>(sid, s). abandon_session_work P sid msg) xs w)) k = Some s \<Longrightarrow>
    (k \<in> fst ` set xs \<longrightarrow> at_rest s) \<and> (k \<notin> fst ` set xs \<longrightarrow> hget (w_sessions w) k = Some s)"
  "map_option ses_form (hget (w_sessions (fold (\<lambda>(sid, s). abandon_session_work P sid msg) xs w)) k) =
    map_option ses_form (hget (w_sessions w) k)"
proof (induction xs arbitrary: w)
  case (Cons x xs)
  obtain sid t where x: "x = (sid, t)" by (cases x)
  {
    case 1
    then show ?case using Cons.IH(1) [of "abandon_session_work P sid msg w"] abandon_at(1) [of k sid P msg w] abandon_at(3) [of P sid msg w]
      by (cases "k = sid") (auto simp: x)
  next
    case 2
    then show ?case using Cons.IH(2) [of "abandon_session_work P sid msg w"] abandon_at(1) [of k sid P msg w]
      by (cases "k = sid") (auto simp: x abandon_at(4))
  }
qed simp_all

text \<open>What the open feedback forms hold: the prompts that asked for them.\<close>

definition form_prompts :: "world \<Rightarrow> nat multiset" where
  "form_prompts w = (\<Sum>s\<leftarrow>map snd (w_sessions w). case ses_form s of Some f \<Rightarrow> id_mset (ff_prompt f) | None \<Rightarrow> {#})"

lemma same_values:
  assumes "map fst m' = map fst m" "distinct (map fst m)" "\<And>k. map_option g (hget m' k) = map_option g (hget m k)"
  shows "map (\<lambda>x. g (snd x)) m' = map (\<lambda>x. g (snd x)) m"
proof (rule nth_equalityI)
  show len: "length (map (\<lambda>x. g (snd x)) m') = length (map (\<lambda>x. g (snd x)) m)" using arg_cong [OF assms(1), of length] by simp
  fix i assume "i < length (map (\<lambda>x. g (snd x)) m')"
  then have i: "i < length m'" "i < length m" using len by simp_all
  have k: "fst (m' ! i) = fst (m ! i)" using arg_cong [OF assms(1), of "\<lambda>ks. ks ! i"] i by simp
  have "hget m (fst (m ! i)) = Some (snd (m ! i))" "hget m' (fst (m' ! i)) = Some (snd (m' ! i))"
    using assms(1,2) i by (simp_all add: map_of_eq_Some_iff)
  with assms(3) [of "fst (m ! i)"] i k show "map (\<lambda>x. g (snd x)) m' ! i = map (\<lambda>x. g (snd x)) m ! i" by simp
qed

lemma helds_at_rest:
  "list_all (\<lambda>(k, s). at_rest s) ss \<Longrightarrow>
    helds ver (map (map_prod id tview) ss) = (\<Sum>s\<leftarrow>map snd ss. case ses_form s of Some f \<Rightarrow> id_mset (ff_prompt f) | None \<Rightarrow> {#})"
  by (induction ss) (auto simp: helds_def at_rest_def)

text \<open>C7: when no host comes back, every session stays open and nothing of the hosts' waits on it any more: no
  prompt in flight, no turn, no recap, no permission, shown or queued, no question. Only a feedback form of the
  adapter's own stays open, as it was, and it alone still holds its prompt: everything else that was owed
  an answer has been given one, exactly one.\<close>

theorem lost_hosts_leave_nothing_waiting:
  assumes "versions P w" "distinct (map fst (w_sessions w))" "w' = fail_all_with_message P msg w"
  shows "map fst (w_sessions w') = map fst (w_sessions w) \<and>
    list_all (\<lambda>(k, s). at_rest s) (w_sessions w') \<and>
    map (\<lambda>x. ses_form (snd x)) (w_sessions w') = map (\<lambda>x. ses_form (snd x)) (w_sessions w) \<and>
    mset (answers w') + form_prompts w = ledger P w"
proof -
  have "asteps P (\<lambda>params. True) no_grounds (flow_of w []) (flow_of w' [])"
    using subsides_fail_all [of w P msg] by (simp add: subsides_def assms(3))
  then have "map fst (fl_views (flow_of w' [])) = map fst (fl_views (flow_of w []))"
    by (rule asteps_inv [where I = "\<lambda>f. map fst (fl_views f) = map fst (fl_views (flow_of w []))"]) (auto dest: keys_step)
  then have keys: "map fst (w_sessions w') = map fst (w_sessions w)" by (simp add: sviews_keys)
  have rest: "list_all (\<lambda>(k, s). at_rest s) (w_sessions w')"
  proof (clarsimp simp: list_all_iff)
    fix k s assume m: "(k, s) \<in> set (w_sessions w')"
    then have "hget (w_sessions w') k = Some s" using keys assms(2) by (simp add: hget_member)
    moreover have "k \<in> fst ` set (w_sessions w)" using m keys by (metis fst_conv image_eqI list.set_map)
    ultimately show "at_rest s" using fail_all_at(1) unfolding assms(3) fail_all_with_message_def by metis
  qed
  have forms: "map (\<lambda>x. ses_form (snd x)) (w_sessions w') = map (\<lambda>x. ses_form (snd x)) (w_sessions w)"
    by (rule same_values [OF keys assms(2)]) (simp add: assms(3) fail_all_with_message_def fail_all_at(2))
  have "form_prompts w = form_prompts w'"
    using arg_cong [OF forms, of "\<lambda>fs. \<Sum>f\<leftarrow>fs. case f of Some f \<Rightarrow> id_mset (ff_prompt f) | None \<Rightarrow> {#}"]
    by (simp add: form_prompts_def comp_def)
  then have "mset (answers w') + form_prompts w = ledger P w'"
    using helds_at_rest [OF rest] by (simp add: ledger_def tviews_def form_prompts_def)
  moreover have "ledger P w' = ledger P w" using books_fail_all [of P w msg] assms(1) by (simp add: books_def assms(3))
  ultimately show ?thesis using keys rest forms by simp
qed

theorem lost_hosts_leave_nothing_waiting_witness:
  "answers (fail_all_with_message demo_surroundings ''gone'' busy_world) = [9]"
proof -
  have v: "versions demo_surroundings busy_world" "distinct (map fst (w_sessions busy_world))"
    by (simp_all add: versions_def tviews_def busy_world_def demo_session_def demo_surroundings_def)
  have "ledger demo_surroundings busy_world = {#9#}" "form_prompts busy_world = {#}"
    by (simp_all add: ledger_def helds_def tviews_def busy_world_def demo_session_def demo_surroundings_def answers_def demo_world_def
        List.map_filter_def new_flight_def form_prompts_def)
  then show ?thesis using lost_hosts_leave_nothing_waiting [OF v refl, of "''gone''"] by simp
qed

end
