(* ===== verification/Question_Props.thy ===== *)
theory Question_Props
  imports Turn_Props
begin

text \<open>
  Properties of questions of the host (the form on display is that of the next question), of events delivered
  twice and of stored patches read in pieces.
\<close>

section \<open>Open questions\<close>

text \<open>The form on display for an open question: it asks the question after the confirmed ones, its answer will
  come under the request id stored with it, and its text begins with that question's.\<close>

definition on_display :: "surroundings \<Rightarrow> effect set \<Rightarrow> string \<Rightarrow> pending_ui \<Rightarrow> bool" where
  "on_display P out sid q \<longleftrightarrow>
     ui_index q = length (ui_confirmed q) \<and> ui_index q < length (ui_questions q) \<and>
     (\<exists>n msg. ui_req q = Some n \<and> prefix (ui_answer_message (ui_index q) (ui_questions q)) msg \<and>
        AskForm n sid (ui_tool_call q) msg (ui_answer_form (e_serde (p_env P)) (ui_index q) (ui_questions q ! ui_index q)) \<in> out)"

definition forms_on_display :: "surroundings \<Rightarrow> world \<Rightarrow> bool" where
  "forms_on_display P w \<longleftrightarrow>
     (\<forall>sid s. hget (w_sessions w) sid = Some s \<longrightarrow> (\<forall>q \<in> set (ses_questions s). on_display P (set (w_out w)) sid q))"

named_theorems displayed

lemma on_display_mono: "on_display P out sid q \<Longrightarrow> out \<subseteq> out' \<Longrightarrow> on_display P out' sid q"
  unfolding on_display_def by blast

lemma display_same:
  "w_sessions w' = w_sessions w \<Longrightarrow> set (w_out w) \<subseteq> set (w_out w') \<Longrightarrow> forms_on_display P w \<Longrightarrow> forms_on_display P w'"
  unfolding forms_on_display_def by (metis on_display_mono)

lemma upd_out [simp]: "w_out (upd_session sid f w) = w_out w"
  by (simp add: upd_session_def split: option.split)

lemma display_less:
  "(\<And>s. set (ses_questions (f s)) \<subseteq> set (ses_questions s)) \<Longrightarrow> forms_on_display P w \<Longrightarrow> forms_on_display P (upd_session sid f w)"
  unfolding forms_on_display_def hget_upd upd_out by (fastforce split: if_splits)

lemma host_same: "w_sessions (snd (host_command P meth params w)) = w_sessions w" "set (w_out w) \<subseteq> set (w_out (snd (host_command P meth params w)))"
  by (auto simp: host_command_def routed_command_def split: prod.split sum.split)

lemma display_host [displayed]: "forms_on_display P w \<Longrightarrow> forms_on_display P (snd (host_command P meth params w))"
  by (rule display_same [OF host_same])

lemma display_send [displayed]:
  "forms_on_display P w \<Longrightarrow> forms_on_display P (send_state sid st stop w)"
  "forms_on_display P w \<Longrightarrow> forms_on_display P (send_cancel_request r w)"
  by (erule display_same [rotated 2]; auto simp: send_state_def send_cancel_request_def split: option.split)+

lemma without_less: "set (without_request req qs) \<subseteq> set qs"
  by (induction qs) auto

lemma take_ui_less: "take_ui i qs = (r, rs) \<Longrightarrow> set rs \<subseteq> set qs"
  by (induction qs arbitrary: rs) (auto split: if_splits prod.splits)

lemma display_remove [displayed]: "forms_on_display P w \<Longrightarrow> forms_on_display P (remove_pending_ui sid req w)"
  unfolding remove_pending_ui_def by (rule display_less) (auto dest: subsetD [OF without_less])

lemma display_see [displayed]: "forms_on_display P w \<Longrightarrow> forms_on_display P (see_ui sid i w)"
  unfolding see_ui_def by (rule display_less) simp

lemma question_displayed: "forms_on_display P w \<Longrightarrow> question_at sid i w = Some q \<Longrightarrow> on_display P (set (w_out w)) sid q"
  by (auto simp: question_at_def forms_on_display_def split: option.splits if_splits)

lemma hget_upd_question:
  "hget (w_sessions (upd_question sid i g w)) k =
    (if k = sid then map_option (\<lambda>s. if i < length (ses_questions s)
       then s\<lparr>ses_questions := (ses_questions s)[i := g (ses_questions s ! i)]\<rparr> else s) (hget (w_sessions w) sid)
     else hget (w_sessions w) k)"
  by (simp add: upd_question_def hget_upd)

text \<open>Showing the question after the confirmed ones, to an editor that can be written to.\<close>

lemma display_show:
  assumes w: "forms_on_display P w" and k: "length confirmed = k"
    and q: "question_at sid i w = Some q" "k < length (ui_questions q)" "prefix (ui_answer_message k (ui_questions q)) msg"
    and f: "f = ui_answer_form (e_serde (p_env P)) k (ui_questions q ! k)" and can: "\<forall>n. p_writable P n"
  shows "forms_on_display P (show_pending_ui P sid i msg f confirmed k w)"
proof -
  obtain s where s: "hget (w_sessions w) sid = Some s" "i < length (ses_questions s)" "ses_questions s ! i = q"
    using q(1) by (auto simp: question_at_def split: option.splits if_splits)
  define W where "W = show_pending_ui P sid i msg f confirmed k w"
  define q' where "q' = q\<lparr>ui_confirmed := confirmed, ui_index := k, ui_req := Some (w_asks w)\<rparr>"
  have asks: "w_asks (upd_question sid i g w) = w_asks w" for g by (simp add: upd_question_def upd_session_def split: option.split)
  have W: "W = upd_question sid i (\<lambda>q. q\<lparr>ui_req := Some (w_asks w)\<rparr>) (out_effect (AskForm (w_asks w) sid (ui_tool_call q) msg f)
      ((upd_question sid i (\<lambda>q. q\<lparr>ui_confirmed := confirmed, ui_index := k\<rparr>) w)\<lparr>w_asks := w_asks w + 1\<rparr>))"
    using can by (simp add: W_def show_pending_ui_def q(1) send_elicitation_form_def Let_def asks)
  have at: "hget (w_sessions W) k' = (if k' = sid then Some (s\<lparr>ses_questions := (ses_questions s)[i := q']\<rparr>) else hget (w_sessions w) k')" for k'
    using s by (simp add: W hget_upd_question q'_def)
  have out: "set (w_out W) = insert (AskForm (w_asks w) sid (ui_tool_call q) msg f) (set (w_out w))"
    by (simp add: W upd_question_def)
  have new: "on_display P (set (w_out W)) sid q'"
    using k q f unfolding on_display_def by (auto simp: q'_def out)
  have old: "on_display P (set (w_out W)) k' x" if "hget (w_sessions w) k' = Some t" "x \<in> set (ses_questions t)" for k' t x
    using w that out unfolding forms_on_display_def by (metis on_display_mono subset_insertI)
  show ?thesis unfolding W_def [symmetric] forms_on_display_def at
    using new old s(1) by (auto dest!: subsetD [OF set_update_subset_insert] split: if_splits)
qed

lemma display_again:
  assumes w: "forms_on_display P w" and can: "\<forall>n. p_writable P n"
    and q: "\<And>q. question_at sid i w = Some q \<Longrightarrow> ui_index q = k \<and> ui_questions q = qs"
    and m: "prefix (ui_answer_message k qs) msg" "f = ui_answer_form (e_serde (p_env P)) k (qs ! k)"
  shows "forms_on_display P (reissue_pending_ui P sid i msg f w)"
proof (cases "question_at sid i w")
  case None
  then show ?thesis using w by (simp add: reissue_pending_ui_def)
next
  case (Some x)
  have d: "ui_index x = length (ui_confirmed x)" "ui_index x < length (ui_questions x)"
    using question_displayed [OF w Some] by (simp_all add: on_display_def)
  have "forms_on_display P (show_pending_ui P sid i msg f (ui_confirmed x) (ui_index x) w)"
    by (rule display_show [OF w _ Some _ _ _ can]) (use d q [OF Some] m in simp_all)
  then show ?thesis by (simp add: reissue_pending_ui_def Some)
qed

lemma display_answered [displayed]:
  "forms_on_display P w \<Longrightarrow> forms_on_display P (ui_answered sid req w)" "forms_on_display P w \<Longrightarrow> forms_on_display P (decline_ui P sid req q w)"
  unfolding ui_answered_def decline_ui_def Let_def by (auto split: option.split intro: displayed)

lemma host_question: "question_at sid i (snd (host_command P meth params w)) = question_at sid i w"
  by (simp add: question_at_def host_same(1))

lemma display_submit:
  assumes "\<And>x w'. forms_on_display P w' \<Longrightarrow> question_at sid i w' = question_at sid i w \<Longrightarrow> forms_on_display P (again x w')"
    "forms_on_display P w"
  shows "forms_on_display P (submit_ui P sid req i again meth params refused w)"
proof -
  have "forms_on_display P (snd (host_command P meth params w))" using assms(2) by (rule displayed)
  then show ?thesis unfolding submit_ui_def case_prod_beta
    by (auto split: sum.split intro: assms(1) displayed simp: host_question)
qed

lemma question_index_nth: "question_index req qs = Some i \<Longrightarrow> i < length qs"
  by (induction qs arbitrary: i) (auto split: if_splits)

lemma question_with_at:
  assumes "question_with req w = Some (sid, i, q)" "distinct (map fst (w_sessions w))"
  shows "question_at sid i w = Some q"
proof -
  obtain x where x: "x \<in> set (w_sessions w)"
    "(case x of (sid, s) \<Rightarrow> map_option (\<lambda>i. (sid, i, ses_questions s ! i)) (question_index req (ses_questions s))) = Some (sid, i, q)"
    using find_map_member [OF assms(1) [unfolded question_with_def]] by auto
  obtain k s where ks: "x = (k, s)" by (cases x)
  with x(2) have k: "k = sid" and i: "question_index req (ses_questions s) = Some i" and q: "q = ses_questions s ! i" by auto
  have "hget (w_sessions w) sid = Some s" using x(1) ks k assms(2) by (simp add: hget_member)
  then show ?thesis by (simp add: question_at_def question_index_nth [OF i] q)
qed

lemma display_elicitation:
  assumes w: "forms_on_display P w" and dist: "distinct (map fst (w_sessions w))" and can: "\<forall>n. p_writable P n"
  shows "forms_on_display P (complete_elicitation P req ans w)"
proof (cases "question_with req w")
  case None
  then show ?thesis using w by (simp add: complete_elicitation_def)
next
  case (Some x)
  then obtain sid i q where q: "question_with req w = Some (sid, i, q)" by (cases x) auto
  have at: "question_at sid i w = Some q" by (rule question_with_at [OF q dist])
  have d: "ui_index q = length (ui_confirmed q)" "ui_index q < length (ui_questions q)"
    using question_displayed [OF w at] by (simp_all add: on_display_def)
  define again where "again problem = reissue_pending_ui P sid i (ui_answer_message (ui_index q) (ui_questions q) @ [CHR 0x0A, CHR 0x0A] @ problem)
      (ui_answer_form (e_serde (p_env P)) (ui_index q) (ui_questions q ! ui_index q))" for problem
  have ag: "forms_on_display P (again problem w')" if "forms_on_display P w'" "question_at sid i w' = question_at sid i w" for problem w'
    unfolding again_def by (rule display_again [OF that(1) can]) (use that(2) at in simp_all)
  have again_w: "forms_on_display P (again problem w)" for problem by (rule ag [OF w refl])
  have clarify: "forms_on_display P (clarify_ui P sid req i q again fs w)" for fs
    unfolding clarify_ui_def Let_def by (auto split: option.split intro: again_w ag display_submit w)
  have next_ok: "forms_on_display P (ask_next_ui_question P sid i (ui_questions q) (Suc (ui_index q)) (ui_confirmed q @ [a]) w)" for a
    unfolding ask_next_ui_question_def using w d by (auto intro!: display_show [OF _ _ at _ _ _ can])
  have answer: "forms_on_display P (answer_ui P sid req i q again fs w)" for fs
    unfolding answer_ui_def Let_def by (auto split: option.split intro: again_w ag display_submit w next_ok)
  show ?thesis unfolding complete_elicitation_def q option.case prod.case Let_def again_def [symmetric]
    by (auto split: option.split sum.split bool.split intro: again_w clarify answer displayed w)
qed

text \<open>A question that opens is not known to the session yet, so the request id goes to it.\<close>

lemma upd_ui_last: "\<not> list_ex (\<lambda>x. ui_id x = ui_id q) qs \<Longrightarrow> upd_ui (ui_id q) g (qs @ [q]) = qs @ [g q]"
  by (induction qs) auto

lemma display_open:
  assumes w: "forms_on_display P w" and can: "\<forall>n. p_writable P n"
    and q: "ui_index q = 0" "ui_confirmed q = []" "ui_questions q \<noteq> []"
    and s: "hget (w_sessions w) sid = Some s" and new: "\<not> list_ex (\<lambda>x. ui_id x = ui_id q) (ses_questions s)"
  shows "forms_on_display P (open_ui P sid q w)"
proof -
  define w1 where "w1 = upd_session sid (\<lambda>s. s\<lparr>ses_questions := ses_questions s @ [q]\<rparr>) w"
  define w2 where "w2 = (if ses_ver s = 2 then send_state sid ''requires_action'' None w1 else w1)"
  define msg where "msg = ui_answer_message 0 (ui_questions q)"
  define f where "f = ui_answer_form (e_serde (p_env P)) 0 (ui_questions q ! 0)"
  have w2: "w_sessions w2 = w_sessions w1" "set (w_out w) \<subseteq> set (w_out w2)"
    by (auto simp: w2_def w1_def send_state_def)
  have W: "open_ui P sid q w = upd_session sid (\<lambda>s. s\<lparr>ses_questions := upd_ui (ui_id q) (\<lambda>q. q\<lparr>ui_req := Some (w_asks w2)\<rparr>) (ses_questions s)\<rparr>)
      (out_effect (AskForm (w_asks w2) sid (ui_tool_call q) msg f) (w2\<lparr>w_asks := w_asks w2 + 1\<rparr>))"
    using can q(3) by (simp add: open_ui_def s Let_def send_elicitation_form_def msg_def f_def hd_conv_nth flip: w1_def w2_def)
  define q' where "q' = q\<lparr>ui_req := Some (w_asks w2)\<rparr>"
  have at: "hget (w_sessions (open_ui P sid q w)) k =
      (if k = sid then Some (s\<lparr>ses_questions := ses_questions s @ [q']\<rparr>) else hget (w_sessions w) k)" for k
    unfolding W hget_upd by (simp add: w2(1) w1_def hget_upd s upd_ui_last [OF new] q'_def)
  have out: "set (w_out (open_ui P sid q w)) = insert (AskForm (w_asks w2) sid (ui_tool_call q) msg f) (set (w_out w2))"
    by (simp add: W)
  have "on_display P (set (w_out (open_ui P sid q w))) sid q'"
    using q unfolding on_display_def by (auto simp: q'_def out msg_def f_def)
  moreover have "on_display P (set (w_out (open_ui P sid q w))) k x" if "hget (w_sessions w) k = Some t" "x \<in> set (ses_questions t)" for k t x
    using w that out w2(2) unfolding forms_on_display_def by (metis on_display_mono subset_insertI2)
  ultimately show ?thesis unfolding forms_on_display_def at using s by (auto split: if_splits)
qed

lemma display_bridge:
  assumes w: "forms_on_display P w" and can: "\<forall>n. p_writable P n"
  shows "forms_on_display P (snd (bridge_user_input P sid owner params w))"
proof -
  let ?i = "str_or params ''userInputId'' []"
  have opened: "forms_on_display P (open_ui P sid (new_pending_ui ?i owner params qs) (see_ui sid ?i w))"
    if "hget (w_sessions w) sid = Some s" "\<not> ui_known ?i s" "qs \<noteq> []" for s qs
    by (rule display_open [OF _ can, where s = "s\<lparr>ses_ui_seen := sput ?i (ses_ui_seen s)\<rparr>"])
      (use that w in \<open>auto simp: new_pending_ui_def ui_known_def see_ui_def hget_upd intro: display_less\<close>)
  show ?thesis unfolding bridge_user_input_def Let_def
    by (auto split: option.split J.split intro!: opened w displayed)
qed

lemma display_requested: "forms_on_display P w \<Longrightarrow> \<forall>n. p_writable P n \<Longrightarrow> forms_on_display P (user_input_requested P params w)"
  unfolding user_input_requested_def cancel_user_input_def Let_def case_prod_beta bool.case_eq_if
  by (auto split: option.split intro!: displayed display_bridge)

lemma display_settled: "forms_on_display P w \<Longrightarrow> forms_on_display P (user_input_settled params w)"
proof -
  assume w: "forms_on_display P w"
  have see: "forms_on_display P (see_ui sid i w)" for sid i by (rule display_see [OF w])
  have less: "forms_on_display P (upd_session sid (\<lambda>s. s\<lparr>ses_questions := qs\<rparr>) (see_ui sid i w))"
    if "hget (w_sessions (see_ui sid i w)) sid = Some s" "take_ui j (ses_questions s) = (r, qs)" for sid i j s r qs
    using see [of sid i] that(1) take_ui_less [OF that(2)]
    unfolding forms_on_display_def hget_upd upd_out by (fastforce split: if_splits)
  show ?thesis unfolding user_input_settled_def Let_def
    by (auto split: option.split prod.split intro!: w see less displayed)
qed

text \<open>C8: every open question has its form before the editor: the last form sent for it, whose request id is the
  one its answer is expected under, asks exactly the question after those already confirmed (the first when
  none is), with that question's number and text. Requests and settlements of the host keep this, and so
  does every reply of the editor: an answer, which asks the next question, a clarification, a refusal or an
  unusable answer, which ask the same one again, a declined form. The editor can be written to.\<close>

theorem forms_ask_in_order:
  assumes "forms_on_display P w" "distinct (map fst (w_sessions w))" "\<forall>n. p_writable P n"
  shows "forms_on_display P (user_input_requested P params w) \<and> forms_on_display P (user_input_settled params w) \<and>
    forms_on_display P (complete_elicitation P req ans w)"
  using assms by (simp add: display_requested display_settled display_elicitation)

text \<open>A session on the first of two questions.\<close>

definition asked_question :: "string \<Rightarrow> ui_question" where
  "asked_question i = \<lparr>uq_id = i, uq_labels = [''A''], uq_display = [''A''], uq_descriptions = [None], uq_previews = [None],
     uq_title = ''Which?'', uq_message = ''Which?'', uq_multiple = False, uq_min = 1, uq_max = None, uq_explain = ''_explain''\<rparr>"

definition asked_ui :: pending_ui where
  "asked_ui = \<lparr>ui_req = Some 0, ui_id = ''u'', ui_owner = ''m'', ui_turn = [], ui_questions = [asked_question ''p'', asked_question ''q''],
     ui_tool_call = [], ui_index = 0, ui_confirmed = []\<rparr>"

definition asked_world :: world where
  "asked_world = demo_world\<lparr>w_sessions := [(''s'', demo_session\<lparr>ses_questions := [asked_ui]\<rparr>)], w_asks := 1,
     w_out := [AskForm 0 ''s'' [] (ui_answer_message 0 (ui_questions asked_ui)) (ui_answer_form (\<lambda>t. None) 0 (asked_question ''p''))]\<rparr>"

theorem forms_ask_in_order_witness:
  "\<exists>q. question_at ''s'' 0 (complete_elicitation demo_surroundings 0 (FormAnswer (Accept [(field_key 0, FText ''A'')])) asked_world) = Some q \<and>
     ui_index q = 1 \<and>
     forms_on_display demo_surroundings (complete_elicitation demo_surroundings 0 (FormAnswer (Accept [(field_key 0, FText ''A'')])) asked_world)"
proof -
  let ?ans = "FormAnswer (Accept [(field_key 0, FText ''A'')])"
  have e: "e_serde (p_env demo_surroundings) = (\<lambda>t. None)" "\<forall>n. p_writable demo_surroundings n" by (simp_all add: demo_surroundings_def)
  have "forms_on_display demo_surroundings asked_world"
    by (simp add: forms_on_display_def on_display_def asked_world_def asked_ui_def e(1))
  moreover have "distinct (map fst (w_sessions asked_world))" by (simp add: asked_world_def)
  ultimately have shown: "forms_on_display demo_surroundings (complete_elicitation demo_surroundings 0 ?ans asked_world)"
    using forms_ask_in_order [of demo_surroundings asked_world] e(2) by blast
  have found: "question_with 0 asked_world = Some (''s'', 0, asked_ui)"
    by (simp add: question_with_def asked_world_def asked_ui_def)
  have at: "question_at ''s'' 0 asked_world = Some asked_ui" by (simp add: question_at_def asked_world_def)
  obtain a where a: "confirmed_answer (asked_question ''p'') 0 [(field_key 0, FText ''A'')] = Some a"
    by (simp add: confirmed_answer_def ui_answer_json_def asked_question_def)
  have k: "ui_index asked_ui = 0" "ui_questions asked_ui = [asked_question ''p'', asked_question ''q'']" "ui_confirmed asked_ui = []"
    by (simp_all add: asked_ui_def)
  have "ui_explain_selected (asked_question ''p'') 0 [(field_key 0, FText ''A'')] = Inr False"
    "ui_multiple_answer_error (asked_question ''p'') 0 [(field_key 0, FText ''A'')] = None"
    by (simp_all add: ui_explain_selected_def ui_multiple_answer_error_def asked_question_def)
  then have "complete_elicitation demo_surroundings 0 ?ans asked_world =
      ask_next_ui_question demo_surroundings ''s'' 0 (ui_questions asked_ui) 1 [a] asked_world"
    by (simp add: complete_elicitation_def found accepted_form_def answer_ui_def a k)
  then have "question_at ''s'' 0 (complete_elicitation demo_surroundings 0 ?ans asked_world) =
      Some (asked_ui\<lparr>ui_confirmed := [a], ui_index := 1, ui_req := Some 1\<rparr>)"
    by (simp add: ask_next_ui_question_def k show_pending_ui_def at send_elicitation_form_def Let_def e(2))
      (simp add: question_at_def hget_upd_question asked_world_def upd_question_def upd_session_def)
  then show ?thesis using shown by simp
qed

section \<open>Choices shown and answers sent\<close>

lemma shown_values: "map ch_value (option_choices serde q) = uq_display q"
  by (rule nth_equalityI) (simp_all add: option_choices_def ui_titled_choice_def)

text \<open>C9: the choices of a question's form have different values, the offer to explain instead among them,
  and picking one of the host's options of a single choice is answered with the label the host gave it,
  however many options share that label.\<close>

theorem choice_answers_the_label:
  assumes "ui_question_of j = Some q" "i < length (uq_labels q)" "\<not> uq_multiple q"
    "hget fs (field_key k) = Some (FText (ch_value (option_choices serde q ! i)))"
  shows "distinct (map ch_value (option_choices serde q @ [explain_choice serde q])) \<and>
    ui_explain_selected q k fs = Inr False \<and>
    ui_answer_json q k fs = Some (object_of [(''questionId'', esc (uq_id q)), (''selectedLabel'', esc (uq_labels q ! i))])"
proof -
  note labels = question_labels [OF assms(1)]
  have i: "i < length (uq_display q)" using assms(2) labels(2) by simp
  have picked: "ch_value (option_choices serde q ! i) = uq_display q ! i"
    using i by (simp add: option_choices_def ui_titled_choice_def)
  have "uq_display q ! i \<noteq> uq_explain q" using labels(3) nth_mem [OF i] by auto
  then have "ui_explain_selected q k fs = Inr False"
    using assms(3,4) by (simp add: ui_explain_selected_def picked)
  moreover have "ui_answer_json q k fs = Some (object_of [(''questionId'', esc (uq_id q)), (''selectedLabel'', esc (uq_labels q ! i))])"
    using assms(4) labels(4) [OF assms(2)] by (simp add: ui_answer_json_def picked)
  moreover have "distinct (map ch_value (option_choices serde q @ [explain_choice serde q]))"
    using labels(1,3) by (simp add: shown_values explain_choice_def ui_titled_choice_def)
  ultimately show ?thesis by blast
qed

definition demo_question :: J where
  "demo_question = JObj [(''id'', JStr ''q''), (''question'', JStr ''Which?''),
     (''options'', JArr [JObj [(''label'', JStr ''A'')], JObj [(''label'', JStr ''A'')]])]"

lemma show_two: "show_nat (Suc (Suc 0)) = ''2''"
  by (subst show_nat.simps) (simp add: char_of_def bit_0)

lemma demo_asked:
  "ui_question_of demo_question = Some \<lparr>uq_id = ''q'', uq_labels = [''A'', ''A''], uq_display = [''A'', ''A (2)''],
     uq_descriptions = [None, None], uq_previews = [None, None], uq_title = ''Which?'', uq_message = ''Which?'',
     uq_multiple = False, uq_min = 1, uq_max = None, uq_explain = ''_explain''\<rparr>"
  by (simp add: ui_question_of_def demo_question_def options_of_def no_options_def add_option_def first_free_def display_name_def
      explain_name_def UI_EXPLAIN_VALUE_def str_or_def str_at_def unwrap_or_def items_at_def non_empty_str_def nonempty_def
      u64_at_def show_two Let_def upt_rec)

theorem choice_answers_the_label_witness:
  "\<exists>q. ui_question_of demo_question = Some q \<and>
     ui_answer_json q 0 [(field_key 0, FText ''A (2)'')] = Some (object_of [(''questionId'', esc ''q''), (''selectedLabel'', esc ''A'')])"
  using choice_answers_the_label [OF demo_asked, of 1 "[(field_key 0, FText ''A (2)'')]" 0 "\<lambda>t. None"] demo_asked
  by (simp add: option_choices_def ui_titled_choice_def)

section \<open>Events delivered twice\<close>

text \<open>What a session keeps from one event to the next: the host's name for it, every cursor it was told, and no new
  twins.\<close>

definition recalls :: "acp_session \<Rightarrow> acp_session \<Rightarrow> bool" where
  "recalls s s' \<longleftrightarrow> ses_msp_sid s' = ses_msp_sid s \<and> set (ses_view_seen s) \<subseteq> set (ses_view_seen s') \<and> set (ses_twins s') \<subseteq> set (ses_twins s)"

definition recalled :: "world \<Rightarrow> world \<Rightarrow> bool" where
  "recalled w w' \<longleftrightarrow> list_all2 (\<lambda>(k, s) (k', s'). k' = k \<and> recalls s s') (w_sessions w) (w_sessions w')"

named_theorems recall

lemma recalls_refl [simp]: "recalls s s"
  by (simp add: recalls_def)

lemma recalls_trans: "recalls s s' \<Longrightarrow> recalls s' s'' \<Longrightarrow> recalls s s''"
  by (auto simp: recalls_def)

lemma recalled_refl: "recalled w w"
  by (auto simp: recalled_def intro: list.rel_refl)

lemma recalled_trans: "recalled w w' \<Longrightarrow> recalled w' w'' \<Longrightarrow> recalled w w''"
  unfolding recalled_def by (erule (1) list_all2_trans [rotated]) (auto intro: recalls_trans)

lemma recalled_same: "w_sessions w' = w_sessions w \<Longrightarrow> recalled w w'"
  using recalled_refl by (simp add: recalled_def)

lemma recalled_upd:
  assumes "\<And>s. recalls s (f s)"
  shows "recalled w (upd_session sid f w)"
proof (cases "hget (w_sessions w) sid")
  case (Some s)
  have "list_all2 (\<lambda>(k, s) (k', s'). k' = k \<and> recalls s s') m (hput sid (f s) m)" if "hget m sid = Some s" for m
    using that assms by (induction m) (auto intro: list.rel_refl)
  then show ?thesis using Some by (simp add: recalled_def upd_session_def)
qed (simp add: upd_session_def recalled_refl)

lemma recall_upd [recall]: "(\<And>s. recalls s (f s)) \<Longrightarrow> recalled w w' \<Longrightarrow> recalled w (upd_session sid f w')"
  using recalled_upd recalled_trans by blast

lemma recall_out [recall]: "recalled w w' \<Longrightarrow> recalled w (out_effect e w')" "recalled w w' \<Longrightarrow> recalled w (out_all es w')"
  by (simp_all add: recalled_def)

lemma recall_lines [recall]: "recalled w w' \<Longrightarrow> recalled w (fold_lines sid h w')"
  unfolding fold_lines_def by (auto split: option.split intro!: recall simp: recalls_def)

lemma recall_drill [recall]: "recalled w w' \<Longrightarrow> recalled w (drill_down_subagent_child P sid item w')"
  unfolding drill_down_subagent_child_def Let_def
  by (auto split: option.split prod.split intro!: recall simp: recalls_def begin_drill_down_def case_prod_beta Let_def)

lemma routed_sessions: "w_sessions (snd (routed_command P meth params ans w)) = w_sessions w"
  by (simp add: routed_command_def split: prod.split sum.split)

lemma recall_patch [recall]: "recalled w w' \<Longrightarrow> recalled w (snd (read_patch P m ref pieces body w'))"
proof (induction pieces arbitrary: body w')
  case (Cons ans pieces)
  have "recalled w (snd (routed_command P meth params ans w'))" for meth params
    using Cons.prems by (simp add: recalled_def routed_sessions)
  then show ?case unfolding read_patch.simps case_prod_beta by (auto split: sum.split piece.split intro: Cons.IH)
qed simp

lemma recall_tool_patch [recall]: "recalled w w' \<Longrightarrow> recalled w (snd (tool_patch_diff P m item w'))"
  unfolding tool_patch_diff_def case_prod_beta by (auto split: option.split sum.split intro!: recall)

lemma recall_observe [recall]: "recalled w w' \<Longrightarrow> recalled w (observe_file_change sid item w')"
  unfolding observe_file_change_def by (auto split: option.split intro!: recall simp: recalls_def)




























section \<open>Stored patches\<close>











end
