(* ===== verification/Settings.thy ===== *)
theory Settings
  imports Fold_Text Json_Roundtrip
begin

text \<open>
  The installers of the editor settings (\<^verbatim>\<open>src/zed.rs\<close>): the command line, a scanner of JSON with comments and
  trailing commas, and the edits that add or remove one agent entry and leave the rest of the file alone. A
  position in a file is the text from there on. Inside a string literal the scanner steps by bytes where the
  code steps by characters: no byte of a longer character is a quote or a backslash.
\<close>

section \<open>Scanner\<close>

fun line_end :: "string \<Rightarrow> string" where
  "line_end [] = []"
| "line_end (c # s) = (if c = CHR 0x0A then c # s else line_end s)"

fun block_end :: "string \<Rightarrow> string" where
  "block_end (x # y # s) = (if x = CHR ''*'' \<and> y = CHR ''/'' then s else block_end (y # s))"
| "block_end s = []"

text \<open>The text after a comment that starts here.\<close>

fun comment_end :: "string \<Rightarrow> string option" where
  "comment_end (x # y # s) =
     (if x \<noteq> CHR ''/'' then None else if y = CHR ''/'' then Some (line_end s)
      else if y = CHR ''*'' then Some (block_end s) else None)"
| "comment_end s = None"

lemma line_end_suffix: "suffix (line_end s) s"
  by (induction s) (auto intro: suffix_ConsI)

lemma block_end_suffix: "suffix (block_end s) s"
  by (induction s rule: block_end.induct) (auto intro: suffix_ConsI)

lemma comment_end_suffix: "comment_end s = Some r \<Longrightarrow> suffix r s \<and> length r < length s"
proof (induction s rule: comment_end.induct)
  case (1 x y s)
  have "suffix (line_end s) (x # y # s)" "suffix (block_end s) (x # y # s)"
    using line_end_suffix [of s] block_end_suffix [of s] by (auto intro: suffix_ConsI)
  moreover have "length (line_end s) \<le> length s" "length (block_end s) \<le> length s"
    using line_end_suffix block_end_suffix by (auto dest: suffix_length_le)
  ultimately show ?case using 1 by (auto split: if_splits)
qed simp_all

function skip_trivia :: "string \<Rightarrow> string" where
  "skip_trivia [] = []"
| "skip_trivia (c # s) =
     (if is_ws c then skip_trivia s else case comment_end (c # s) of Some r \<Rightarrow> skip_trivia r | None \<Rightarrow> c # s)"
  by pat_completeness auto
termination
  by (relation "measure length") (auto dest: comment_end_suffix)

definition is_trivia_only :: "string \<Rightarrow> bool" where
  "is_trivia_only s \<longleftrightarrow> skip_trivia s = []"

definition from_hex :: "string \<Rightarrow> nat option" where
  "from_hex s =
     (let ds = (if starts_with s ''+'' then tl s else s) in
      if list_all (\<lambda>c. hex_value c \<noteq> None) ds then Some (foldl (\<lambda>a c. 16 * a + the (hex_value c)) 0 ds) else None)"

text \<open>A code unit that is no character reads as the replacement character.\<close>

definition unit_char :: "nat \<Rightarrow> string" where
  "unit_char n = utf8_encode (if is_scalar n then n else 0xFFFD)"

fun jsonc_chars :: "string \<Rightarrow> string \<Rightarrow> (string \<times> string) option" where
  "jsonc_chars out [] = None"
| "jsonc_chars out (c # s) =
     (if c = CHR 0x22 then Some (out, s)
      else if c \<noteq> CHR 0x5C then jsonc_chars (out @ [c]) s
      else
        (case s of
           [] \<Rightarrow> None
         | e # r \<Rightarrow>
             if e = CHR ''u'' then
               (case r of
                  h1 # h2 # h3 # h4 # r' \<Rightarrow>
                    (case from_hex [h1, h2, h3, h4] of None \<Rightarrow> None | Some n \<Rightarrow> jsonc_chars (out @ unit_char n) r')
                | _ \<Rightarrow> None)
             else (case simple_escape e of Some v \<Rightarrow> jsonc_chars (out @ utf8_encode v) r | None \<Rightarrow> None)))"

definition parse_jsonc_string :: "string \<Rightarrow> (string \<times> string) option" where
  "parse_jsonc_string s = (case s of c # r \<Rightarrow> if c = CHR 0x22 then jsonc_chars [] r else None | [] \<Rightarrow> None)"

lemma jsonc_chars_suffix: "jsonc_chars out s = Some (x, r) \<Longrightarrow> suffix r s \<and> length r < length s"
proof (induction out s rule: jsonc_chars.induct)
  case (2 out c s)
  show ?case
  proof (cases "c = CHR 0x22 \<or> c \<noteq> CHR 0x5C")
    case True
    then show ?thesis using 2 by (auto split: if_splits intro: suffix_ConsI)
  next
    case False
    then obtain e t where s: "s = e # t" using 2(4) by (cases s) auto
    show ?thesis
    proof (cases "e = CHR ''u''")
      case True
      obtain h1 h2 h3 h4 u n where u: "t = h1 # h2 # h3 # h4 # u" "from_hex [h1, h2, h3, h4] = Some n"
        "jsonc_chars (out @ unit_char n) u = Some (x, r)"
        using 2(4) False s True by (auto split: list.splits option.splits)
      then have "suffix r u \<and> length r < length u" using 2(2) False s True by auto
      then show ?thesis unfolding s u(1) by (auto intro!: suffix_ConsI)
    next
      case other: False
      obtain v where v: "simple_escape e = Some v" "jsonc_chars (out @ utf8_encode v) t = Some (x, r)"
        using 2(4) False s other by (auto split: option.splits)
      then have "suffix r t \<and> length r < length t" using 2(3) False s other by auto
      then show ?thesis using s by (auto intro: suffix_ConsI)
    qed
  qed
qed simp

lemma jsonc_string_suffix: "parse_jsonc_string s = Some (x, r) \<Longrightarrow> suffix r s \<and> length r < length s"
  by (auto simp: parse_jsonc_string_def split: list.splits if_splits dest!: jsonc_chars_suffix intro: suffix_ConsI)

lemma skip_trivia_suffix: "suffix (skip_trivia s) s"
proof (induction s rule: skip_trivia.induct)
  case (2 c s)
  show ?case
  proof (cases "is_ws c")
    case True
    then show ?thesis using 2 by (auto intro: suffix_ConsI)
  next
    case False
    then show ?thesis using 2(2) comment_end_suffix [of "c # s"]
      by (auto split: option.splits intro: suffix_order.trans)
  qed
qed simp

lemma skip_trivia_le: "length (skip_trivia s) \<le> length s"
  by (rule suffix_length_le [OF skip_trivia_suffix])

text \<open>The text after the brackets of an object or an array; \<open>depth\<close> counts those of its own kind.\<close>

function close_of :: "char \<Rightarrow> char \<Rightarrow> nat \<Rightarrow> string \<Rightarrow> string option" where
  "close_of lb rb depth [] = None"
| "close_of lb rb depth (c # s) =
     (if c = CHR 0x22 then (case parse_jsonc_string (c # s) of Some (x, r) \<Rightarrow> close_of lb rb depth r | None \<Rightarrow> None)
      else if comment_end (c # s) \<noteq> None then close_of lb rb depth (skip_trivia (c # s))
      else if c = lb then close_of lb rb (depth + 1) s
      else if c = rb then (if depth - 1 = 0 then Some s else close_of lb rb (depth - 1) s)
      else close_of lb rb depth s)"
  by pat_completeness auto

lemma skip_comment_less: "comment_end (c # s) \<noteq> None \<Longrightarrow> length (skip_trivia (c # s)) < length (c # s)"
proof -
  assume "comment_end (c # s) \<noteq> None"
  then obtain r where r: "comment_end (c # s) = Some r" by auto
  have "c = CHR ''/''" using r by (cases s) (auto split: if_splits)
  then have "skip_trivia (c # s) = skip_trivia r" using r by (simp add: is_ws_def)
  then show ?thesis using skip_trivia_le [of r] comment_end_suffix [OF r] by simp
qed

termination close_of
  by (relation "measure (\<lambda>(lb, rb, depth, s). length s)") (use skip_comment_less in \<open>auto dest: jsonc_string_suffix\<close>)

declare close_of.simps(2) [simp del]

definition scan_jsonc_value_end :: "string \<Rightarrow> string option" where
  "scan_jsonc_value_end s =
     (case s of
        [] \<Rightarrow> None
      | c # r \<Rightarrow>
          if c = CHR 0x22 then map_option snd (parse_jsonc_string s)
          else if c = CHR ''{'' then close_of c (CHR ''}'') 0 s
          else if c = CHR ''['' then close_of c (CHR '']'') 0 s
          else
            (let scalar = takeWhile (\<lambda>c. c \<notin> {CHR '','', CHR ''}'', CHR '']''}) s;
                 n = length (dropWhile is_ws (rev scalar)) in
             if n = 0 then None else Some (drop n s)))"

lemma close_of_suffix: "close_of lb rb depth s = Some r \<Longrightarrow> suffix r s \<and> length r < length s"
proof (induction lb rb depth s rule: close_of.induct)
  case (2 lb rb depth c s)
  show ?case
  proof (cases "c = CHR 0x22")
    case True
    then obtain x t where t: "parse_jsonc_string (c # s) = Some (x, t)" "close_of lb rb depth t = Some r"
      using 2(6) by (auto simp: close_of.simps(2) split: option.splits)
    then show ?thesis using 2(1) [OF True t(1)] jsonc_string_suffix [OF t(1)] by (auto intro: suffix_order.trans)
  next
    case q: False
    show ?thesis
    proof (cases "comment_end (c # s) = None")
      case False
      then have "close_of lb rb depth (skip_trivia (c # s)) = Some r" using 2(6) q by (simp add: close_of.simps(2))
      then have "suffix r (skip_trivia (c # s)) \<and> length r < length (skip_trivia (c # s))" using 2(2) q False by simp
      then show ?thesis using skip_trivia_suffix [of "c # s"] skip_trivia_le [of "c # s"] by (auto intro: suffix_order.trans)
    next
      case True
      then show ?thesis using 2(3-6) q by (auto simp: close_of.simps(2) split: if_splits intro: suffix_ConsI)
    qed
  qed
qed simp

lemma value_end_suffix: "scan_jsonc_value_end s = Some r \<Longrightarrow> suffix r s \<and> length r < length s"
proof (cases s)
  case (Cons c t)
  assume *: "scan_jsonc_value_end s = Some r"
  show ?thesis
  proof (cases "c = CHR 0x22 \<or> c = CHR ''{'' \<or> c = CHR ''[''")
    case True
    then show ?thesis using * Cons unfolding scan_jsonc_value_end_def
      by (elim disjE) (auto split: if_splits dest!: jsonc_string_suffix close_of_suffix)
  next
    case False
    then show ?thesis using * Cons unfolding scan_jsonc_value_end_def Let_def
      by (auto simp: suffix_drop simp del: drop_Suc_Cons split: if_splits)
  qed
qed (simp add: scan_jsonc_value_end_def)


section \<open>Objects\<close>

text \<open>An entry of an object: its key, and the text from the key, from the value, after the value and from the
  comma that follows.\<close>

record jsonc_entry =
  je_key :: string
  je_at :: string
  je_value :: string
  je_after :: string
  je_comma :: "string option"

record jsonc_object =
  jo_close :: string
  jo_entries :: "jsonc_entry list"

definition starts_char :: "char \<Rightarrow> string \<Rightarrow> bool" where
  "starts_char c s \<longleftrightarrow> s \<noteq> [] \<and> hd s = c"

definition comma_here :: "string \<Rightarrow> string option" where
  "comma_here s = (if starts_char (CHR '','') s then Some s else None)"

text \<open>One entry and the text after it.\<close>

definition read_entry :: "string \<Rightarrow> (jsonc_entry \<times> string) option" where
  "read_entry p =
     (case parse_jsonc_string p of
        None \<Rightarrow> None
      | Some (key, key_end) \<Rightarrow>
          (let colon = skip_trivia key_end; val = skip_trivia (tl colon) in
           if \<not> starts_char (CHR '':'') colon then None
           else case scan_jsonc_value_end val of
             None \<Rightarrow> None
           | Some val_end \<Rightarrow>
               (let next_at = skip_trivia val_end; comma = comma_here next_at in
                Some (\<lparr>je_key = key, je_at = p, je_value = val, je_after = val_end, je_comma = comma\<rparr>,
                  skip_trivia (case comma of Some s \<Rightarrow> tl s | None \<Rightarrow> next_at)))))"

lemma skip_tl_suffix: "suffix (skip_trivia (tl s)) s"
  using skip_trivia_suffix [of "tl s"] by (cases s) (auto intro: suffix_ConsI)

text \<open>The text after an entry and its comma.\<close>

definition entry_end :: "jsonc_entry \<Rightarrow> string" where
  "entry_end e = (case je_comma e of Some s \<Rightarrow> tl s | None \<Rightarrow> je_after e)"

definition entry_ok :: "string \<Rightarrow> jsonc_entry \<Rightarrow> bool" where
  "entry_ok s e \<longleftrightarrow> suffix (je_at e) s \<and> suffix (je_value e) (je_at e) \<and> suffix (je_after e) (je_value e) \<and>
     length (je_after e) < length (je_value e) \<and>
     (case je_comma e of Some r \<Rightarrow> suffix r (je_after e) \<and> starts_char (CHR '','') r | None \<Rightarrow> True)"

lemma read_entry_ok:
  assumes "read_entry p = Some (e, r)"
  shows "entry_ok p e" "suffix r (je_after e)" "length r < length p" "je_at e = p" "suffix r (entry_end e)"
proof -
  obtain key key_end val_end where k: "parse_jsonc_string p = Some (key, key_end)"
    "scan_jsonc_value_end (skip_trivia (tl (skip_trivia key_end))) = Some val_end"
    and e: "e = \<lparr>je_key = key, je_at = p, je_value = skip_trivia (tl (skip_trivia key_end)), je_after = val_end,
      je_comma = comma_here (skip_trivia val_end)\<rparr>"
    and r: "r = skip_trivia (case comma_here (skip_trivia val_end) of Some s \<Rightarrow> tl s | None \<Rightarrow> skip_trivia val_end)"
    using assms by (auto simp: read_entry_def Let_def split: option.splits if_splits)
  have val: "suffix (skip_trivia (tl (skip_trivia key_end))) p"
    using jsonc_string_suffix [OF k(1)] skip_tl_suffix [of "skip_trivia key_end"] skip_trivia_suffix [of key_end]
    by (blast intro: suffix_order.trans)
  have after: "suffix val_end (skip_trivia (tl (skip_trivia key_end)))" "length val_end < length (skip_trivia (tl (skip_trivia key_end)))"
    using value_end_suffix [OF k(2)] by simp_all
  have comma: "suffix (skip_trivia val_end) val_end" by (rule skip_trivia_suffix)
  show "entry_ok p e" using val after comma by (simp add: entry_ok_def e comma_here_def)
  show rest: "suffix r (je_after e)"
    using comma skip_tl_suffix [of "skip_trivia val_end"] skip_trivia_suffix [of "skip_trivia val_end"]
    by (auto simp: r e comma_here_def intro: suffix_order.trans split: option.split)
  show "length r < length p"
    using suffix_length_le [OF rest] after(2) suffix_length_le [OF val] by (simp add: e)
  show "je_at e = p" by (simp add: e)
  show "suffix r (entry_end e)"
    using skip_trivia_suffix [of "tl (skip_trivia val_end)"] skip_trivia_suffix [of "skip_trivia val_end"] comma
    by (auto simp: r e entry_end_def comma_here_def intro: suffix_order.trans split: option.split)
qed

function entries_from :: "string \<Rightarrow> jsonc_entry list \<Rightarrow> jsonc_object option" where
  "entries_from p es =
     (case read_entry p of
        None \<Rightarrow> None
      | Some (e, r) \<Rightarrow>
          if starts_char (CHR ''}'') r then Some \<lparr>jo_close = r, jo_entries = es @ [e]\<rparr>
          else if starts_char (CHR 0x22) r then entries_from r (es @ [e])
          else None)"
  by pat_completeness auto
termination
  by (relation "measure (\<lambda>(p, es). length p)") (auto dest: read_entry_ok(3))

declare entries_from.simps [simp del]

definition parse_jsonc_object :: "string \<Rightarrow> jsonc_object option" where
  "parse_jsonc_object s =
     (let p = skip_trivia (tl s) in
      if \<not> starts_char (CHR ''{'') s then None
      else if starts_char (CHR ''}'') p then Some \<lparr>jo_close = p, jo_entries = []\<rparr>
      else entries_from p [])"

lemma entries_step:
  "read_entry p = Some (e, r) \<Longrightarrow> entries_from p es =
    (if starts_char (CHR ''}'') r then Some \<lparr>jo_close = r, jo_entries = es @ [e]\<rparr>
     else if starts_char (CHR 0x22) r then entries_from r (es @ [e]) else None)"
  by (subst entries_from.simps) simp

lemma entries_read: "entries_from p es = Some obj \<Longrightarrow> \<exists>e r. read_entry p = Some (e, r)"
  by (subst (asm) entries_from.simps) (auto split: option.splits)

lemma entries_nonempty: "entries_from p es = Some obj \<Longrightarrow> jo_entries obj \<noteq> []"
proof (induction p es rule: entries_from.induct)
  case (1 p es)
  obtain e r where e: "read_entry p = Some (e, r)" using entries_read [OF 1(2)] by blast
  show ?case using 1(1) [OF e refl] 1(2) by (auto simp: entries_step [OF e] split: if_splits)
qed

lemma entries_ok:
  assumes "entries_from p es = Some obj" "suffix p s" "\<forall>e \<in> set es. entry_ok s e"
  shows "(\<forall>e \<in> set (jo_entries obj). entry_ok s e) \<and> suffix (jo_close obj) s \<and> starts_char (CHR ''}'') (jo_close obj)"
  using assms
proof (induction p es rule: entries_from.induct)
  case (1 p es)
  obtain e r where e: "read_entry p = Some (e, r)" using entries_read [OF 1(2)] by blast
  note ok = read_entry_ok [OF e]
  have es: "entry_ok s e" using ok(1) 1(3) ok(4) by (auto simp: entry_ok_def)
  have r: "suffix r s"
    using ok(2) es by (auto simp: entry_ok_def intro: suffix_order.trans)
  show ?case using 1(1) [OF e refl] 1(2,4) es r by (auto simp: entries_step [OF e] split: if_splits)
qed

text \<open>The entries follow each other.\<close>

abbreviation in_order :: "jsonc_entry list \<Rightarrow> bool" where
  "in_order es \<equiv> (\<forall>i. Suc i < length es \<longrightarrow> suffix (je_at (es ! Suc i)) (entry_end (es ! i)))"

lemma entries_in_order:
  assumes "entries_from p es = Some obj" "in_order es" "es = [] \<or> suffix p (entry_end (last es))"
  shows "in_order (jo_entries obj)"
  using assms
proof (induction p es rule: entries_from.induct)
  case (1 p es)
  obtain e r where e: "read_entry p = Some (e, r)" using entries_read [OF 1(2)] by blast
  note ok = read_entry_ok [OF e]
  have "in_order (es @ [e])"
  proof (intro allI impI)
    fix i assume i: "Suc i < length (es @ [e])"
    show "suffix (je_at ((es @ [e]) ! Suc i)) (entry_end ((es @ [e]) ! i))"
    proof (cases "Suc i < length es")
      case False
      then have "es \<noteq> []" "i = length es - 1" using i by auto
      then show ?thesis using 1(4) ok(4) by (auto simp: nth_append last_conv_nth)
    qed (use 1(3) in \<open>simp add: nth_append\<close>)
  qed
  then show ?case using 1(1) [OF e refl] 1(2) ok(5) by (auto simp: entries_step [OF e] split: if_splits)
qed

lemma object_in_order: "parse_jsonc_object s = Some obj \<Longrightarrow> in_order (jo_entries obj)"
  using entries_in_order [of "skip_trivia (tl s)" "[]" obj] by (auto simp: parse_jsonc_object_def Let_def split: if_splits)

lemma object_spans:
  assumes "parse_jsonc_object s = Some obj"
  shows "\<forall>e \<in> set (jo_entries obj). entry_ok s e" "suffix (jo_close obj) s" "starts_char (CHR ''}'') (jo_close obj)"
proof -
  have p: "suffix (skip_trivia (tl s)) s" by (rule skip_tl_suffix)
  have "(\<forall>e \<in> set (jo_entries obj). entry_ok s e) \<and> suffix (jo_close obj) s \<and> starts_char (CHR ''}'') (jo_close obj)"
    using assms entries_ok [of "skip_trivia (tl s)" "[]" obj s] p
    by (auto simp: parse_jsonc_object_def Let_def split: if_splits)
  then show "\<forall>e \<in> set (jo_entries obj). entry_ok s e" "suffix (jo_close obj) s" "starts_char (CHR ''}'') (jo_close obj)"
    by blast+
qed

section \<open>Validity\<close>

text \<open>Comments go, but for the line breaks of a block; an unfinished string literal is kept as it is.\<close>

fun comment_lines :: "string \<Rightarrow> string" where
  "comment_lines (x # y # s) =
     (if x = CHR ''*'' \<and> y = CHR ''/'' then [] else (if x = CHR 0x0A then [x] else []) @ comment_lines (y # s))"
| "comment_lines s = []"

function strip_comments :: "string \<Rightarrow> string" where
  "strip_comments [] = []"
| "strip_comments (c # s) =
     (if c = CHR 0x22 then
        (case parse_jsonc_string (c # s) of
           Some (x, r) \<Rightarrow> take (length (c # s) - length r) (c # s) @ strip_comments r
         | None \<Rightarrow> c # s)
      else
        (case comment_end (c # s) of
           Some r \<Rightarrow> (if starts_char (CHR ''*'') s then comment_lines (tl s) else []) @ strip_comments r
         | None \<Rightarrow> c # strip_comments s))"
  by pat_completeness auto
termination
  by (relation "measure length") (auto dest: jsonc_string_suffix comment_end_suffix)

definition closes_next :: "string \<Rightarrow> bool" where
  "closes_next s \<longleftrightarrow> (case dropWhile is_ws s of c # r \<Rightarrow> c = CHR ''}'' \<or> c = CHR '']'' | [] \<Rightarrow> False)"

function strip_trailing_commas :: "string \<Rightarrow> string" where
  "strip_trailing_commas [] = []"
| "strip_trailing_commas (c # s) =
     (if c = CHR 0x22 then
        (case parse_jsonc_string (c # s) of
           Some (x, r) \<Rightarrow> take (length (c # s) - length r) (c # s) @ strip_trailing_commas r
         | None \<Rightarrow> c # s)
      else (if c = CHR '','' \<and> closes_next s then [] else [c]) @ strip_trailing_commas s)"
  by pat_completeness auto
termination
  by (relation "measure length") (auto dest: jsonc_string_suffix)

declare strip_comments.simps(2) [simp del]
declare strip_trailing_commas.simps(2) [simp del]

definition check_valid_jsonc_object :: "string \<Rightarrow> bool" where
  "check_valid_jsonc_object t \<longleftrightarrow>
     (case parse_json (trim (strip_trailing_commas (strip_comments t))) of Inr (JObj ms) \<Rightarrow> True | _ \<Rightarrow> False)"

section \<open>The entry\<close>

datatype client = Zed | IntelliJ
datatype edit_outcome = Added | Updated

definition env_lines :: "string \<Rightarrow> (string \<times> string) list \<Rightarrow> string" where
  "env_lines fi vars = concat (map (\<lambda>i. fi @ ''  '' @ esc (fst (vars ! i)) @ '': '' @ esc (snd (vars ! i)) @
     (if i + 1 < length vars then '','' else []) @ [CHR 0x0A]) [0..<length vars])"

definition render_agent_value :: "client \<Rightarrow> string \<Rightarrow> (string \<times> string) list \<Rightarrow> string \<Rightarrow> string \<Rightarrow> string" where
  "render_agent_value client command vars fi ci =
     ''{'' @ [CHR 0x0A] @
     (if client = Zed then fi @ quoted ''type'' @ '': '' @ quoted ''custom'' @ '','' @ [CHR 0x0A] else []) @
     fi @ quoted ''command'' @ '': '' @ esc command @ '','' @ [CHR 0x0A] @
     fi @ quoted ''args'' @ '': [],'' @ [CHR 0x0A] @
     (if vars = [] then fi @ quoted ''env'' @ '': {}'' @ [CHR 0x0A]
      else fi @ quoted ''env'' @ '': {'' @ [CHR 0x0A] @ env_lines fi vars @ fi @ ''}'' @ [CHR 0x0A]) @
     ci @ ''}''"

definition render_agent_entry :: "client \<Rightarrow> string \<Rightarrow> string \<Rightarrow> (string \<times> string) list \<Rightarrow> string \<Rightarrow> string" where
  "render_agent_entry client name command vars ki =
     ki @ esc name @ '': '' @ render_agent_value client command vars (ki @ ''  '') ki"


section \<open>Edits\<close>

text \<open>The text of a file before a position in it.\<close>

definition before :: "string \<Rightarrow> string \<Rightarrow> string" where
  "before s r = take (length s - length r) s"

lemma before_append: "suffix r s \<Longrightarrow> before s r @ r = s"
  by (auto simp: before_def suffix_def)

definition line_indent :: "string \<Rightarrow> string \<Rightarrow> string" where
  "line_indent s r = takeWhile (\<lambda>c. c = CHR '' '' \<or> c = CHR 0x09) (rev (takeWhile (\<lambda>c. c \<noteq> CHR 0x0A) (rev (before s r))))"

definition INVALID_FILE :: string where
  "INVALID_FILE = ''existing settings file is not valid JSON/JSONC; fix it manually or pass --settings <path>''"

definition ROOT_NOT_OBJECT :: string where
  "ROOT_NOT_OBJECT = ''settings file root is not a JSON object; refusing to edit''"

definition SECTION_NOT_OBJECT :: string where
  "SECTION_NOT_OBJECT = quoted ''agent_servers'' @ '' exists but is not an object; remove or fix it manually''"

definition PRODUCED_INVALID :: string where
  "PRODUCED_INVALID = ''internal error: produced invalid settings; file left untouched''"

definition checked :: "string \<times> 'a \<Rightarrow> string + string \<times> 'a" where
  "checked r = (if check_valid_jsonc_object (fst r) then Inr r else Inl PRODUCED_INVALID)"

definition find_entry :: "string \<Rightarrow> jsonc_object \<Rightarrow> jsonc_entry option" where
  "find_entry key obj = List.find (\<lambda>e. je_key e = key) (jo_entries obj)"

text \<open>Where a new entry goes after the last one, and the comma it needs.\<close>

definition after_last :: "jsonc_entry \<Rightarrow> string \<times> string" where
  "after_last e = (case je_comma e of Some c \<Rightarrow> (tl c, []) | None \<Rightarrow> (je_after e, '',''))"

definition fresh_settings :: "client \<Rightarrow> string \<Rightarrow> string \<Rightarrow> (string \<times> string) list \<Rightarrow> string" where
  "fresh_settings client name command vars =
     ''{'' @ [CHR 0x0A] @ ''  '' @ quoted ''agent_servers'' @ '': {'' @ [CHR 0x0A] @
     render_agent_entry client name command vars ''    '' @ [CHR 0x0A] @ ''  }'' @ [CHR 0x0A] @ ''}'' @ [CHR 0x0A]"

definition add_section :: "client \<Rightarrow> string \<Rightarrow> string \<Rightarrow> (string \<times> string) list \<Rightarrow> string \<Rightarrow> jsonc_object \<Rightarrow> string" where
  "add_section client name command vars original root =
     (let ind = (if jo_entries root = [] then ''  '' else line_indent original (je_at (last (jo_entries root))));
          block = [CHR 0x0A] @ ind @ quoted ''agent_servers'' @ '': {'' @ [CHR 0x0A] @
            render_agent_entry client name command vars (ind @ ''  '') @ [CHR 0x0A] @ ind @ ''}'' in
      case (if jo_entries root = [] then (jo_close root, []) else after_last (last (jo_entries root))) of
        (ins, comma) \<Rightarrow> before original ins @ comma @ block @ (if jo_entries root = [] then [CHR 0x0A] else []) @ ins)"

definition update_entry :: "client \<Rightarrow> string \<Rightarrow> (string \<times> string) list \<Rightarrow> string \<Rightarrow> jsonc_entry \<Rightarrow> string" where
  "update_entry client command vars original e =
     (let ki = line_indent original (je_at e) in
      before original (je_value e) @ render_agent_value client command vars (ki @ ''  '') ki @ je_after e)"

definition add_entry ::
  "client \<Rightarrow> string \<Rightarrow> string \<Rightarrow> (string \<times> string) list \<Rightarrow> string \<Rightarrow> jsonc_entry \<Rightarrow> jsonc_object \<Rightarrow> string" where
  "add_entry client name command vars original servers sub =
     (let ind = line_indent original (je_at servers);
          entry = render_agent_entry client name command vars (ind @ ''  '') in
      if jo_entries sub \<noteq> [] then
        (case after_last (last (jo_entries sub)) of
           (ins, comma) \<Rightarrow> before original ins @ comma @ [CHR 0x0A] @ entry @ ins)
      else if list_all is_ws (before (tl (je_value servers)) (jo_close sub)) then
        before original (je_value servers) @ ''{'' @ [CHR 0x0A] @ entry @ [CHR 0x0A] @ ind @ ''}'' @ tl (jo_close sub)
      else before original (jo_close sub) @ [CHR 0x0A] @ entry @ [CHR 0x0A] @ ind @ ''}'' @ tl (jo_close sub))"

definition install_settings_edit ::
  "string \<Rightarrow> string \<Rightarrow> string \<Rightarrow> (string \<times> string) list \<Rightarrow> client \<Rightarrow> string + string \<times> edit_outcome" where
  "install_settings_edit original name command vars client =
     (if is_trivia_only original then
        (let fresh = fresh_settings client name command vars in
         if check_valid_jsonc_object fresh then Inr (fresh, Added) else Inl ''internal error: generated invalid settings'')
      else if \<not> check_valid_jsonc_object original then Inl INVALID_FILE
      else case parse_jsonc_object (skip_trivia original) of
        None \<Rightarrow> Inl ROOT_NOT_OBJECT
      | Some root \<Rightarrow>
          (case find_entry ''agent_servers'' root of
             None \<Rightarrow> checked (add_section client name command vars original root, Added)
           | Some servers \<Rightarrow>
               (case parse_jsonc_object (je_value servers) of
                  None \<Rightarrow> Inl SECTION_NOT_OBJECT
                | Some sub \<Rightarrow>
                    (case find_entry name sub of
                       Some e \<Rightarrow> checked (update_entry client command vars original e, Updated)
                     | None \<Rightarrow> checked (add_entry client name command vars original servers sub, Added)))))"

text \<open>The span of an entry with one adjacent comma, and a file without it.\<close>

fun entry_index :: "string \<Rightarrow> jsonc_entry list \<Rightarrow> nat option" where
  "entry_index key [] = None"
| "entry_index key (e # es) = (if je_key e = key then Some 0 else map_option Suc (entry_index key es))"

definition entry_removal_span :: "jsonc_object \<Rightarrow> nat \<Rightarrow> string \<times> string" where
  "entry_removal_span obj i =
     (let e = jo_entries obj ! i; prev = jo_entries obj ! (i - 1) in
      case je_comma e of
        Some c \<Rightarrow> (je_at e, tl c)
      | None \<Rightarrow> if 0 < i then (unwrap_or (je_comma prev) (je_after prev), je_after e) else (je_at e, je_after e))"

definition remove_entry_at :: "string \<Rightarrow> jsonc_object \<Rightarrow> nat \<Rightarrow> string" where
  "remove_entry_at s obj i = (case entry_removal_span obj i of (from_here, to_here) \<Rightarrow> before s from_here @ to_here)"

definition drop_empty_section :: "string \<Rightarrow> string" where
  "drop_empty_section s =
     (case parse_jsonc_object (skip_trivia s) of
        None \<Rightarrow> s
      | Some root \<Rightarrow>
          (case entry_index ''agent_servers'' (jo_entries root) of
             None \<Rightarrow> s
           | Some i \<Rightarrow>
               (case parse_jsonc_object (je_value (jo_entries root ! i)) of
                  Some sub \<Rightarrow> if jo_entries sub = [] then remove_entry_at s root i else s
                | None \<Rightarrow> s)))"

definition normalize_empty :: "string \<Rightarrow> string" where
  "normalize_empty s = (if of_chars (filter (\<lambda>c. \<not> is_whitespace c) (chars s)) = ''{}'' then ''{}'' @ [CHR 0x0A] else s)"

definition uninstall_settings_edit :: "string \<Rightarrow> string \<Rightarrow> string + string \<times> bool" where
  "uninstall_settings_edit original name =
     (if is_trivia_only original then Inr (original, False)
      else if \<not> check_valid_jsonc_object original then Inl INVALID_FILE
      else case parse_jsonc_object (skip_trivia original) of
        None \<Rightarrow> Inl ROOT_NOT_OBJECT
      | Some root \<Rightarrow>
          (case find_entry ''agent_servers'' root of
             None \<Rightarrow> Inr (original, False)
           | Some servers \<Rightarrow>
               (case parse_jsonc_object (je_value servers) of
                  None \<Rightarrow> Inl SECTION_NOT_OBJECT
                | Some sub \<Rightarrow>
                    (case entry_index name (jo_entries sub) of
                       None \<Rightarrow> Inr (original, False)
                     | Some i \<Rightarrow> checked (normalize_empty (drop_empty_section (remove_entry_at original sub i)), True)))))"

section \<open>What an edit leaves alone\<close>

text \<open>\<open>edited s t old z\<close>: \<open>t\<close> is \<open>s\<close> with one stretch replaced, which was \<open>old\<close> and stood before \<open>z\<close>.\<close>

definition edited :: "string \<Rightarrow> string \<Rightarrow> string \<Rightarrow> string \<Rightarrow> bool" where
  "edited s t old z \<longleftrightarrow> (\<exists>a new. s = a @ old @ z \<and> t = a @ new @ z)"

lemma edited_at: "suffix (old @ z) s \<Longrightarrow> edited s (before s (old @ z) @ new @ z) old z"
  using before_append [of "old @ z" s] unfolding edited_def by metis

lemma inserted: "suffix z s \<Longrightarrow> edited s (before s z @ new @ z) [] z"
  using edited_at [of "[]" z s new] by simp

lemma starts_charD: "starts_char c s \<Longrightarrow> s = [c] @ tl s"
  by (cases s) (auto simp: starts_char_def)

lemma tl_suffix: "starts_char c r \<Longrightarrow> suffix r s \<Longrightarrow> suffix (tl r) s"
  by (cases r) (auto simp: starts_char_def intro: suffix_ConsD)

lemma entry_suffixes:
  assumes "entry_ok s e" "suffix s t"
  shows "suffix (je_at e) t" "suffix (je_value e) t" "suffix (je_after e) t" "je_comma e = Some c \<Longrightarrow> suffix c t \<and> suffix (tl c) t"
proof -
  show at: "suffix (je_at e) t" and val: "suffix (je_value e) t" and after: "suffix (je_after e) t"
    using assms by (auto simp: entry_ok_def intro: suffix_order.trans)
  show "suffix c t \<and> suffix (tl c) t" if "je_comma e = Some c"
    using assms that after by (auto simp: entry_ok_def intro: suffix_order.trans tl_suffix)
qed

lemma after_last_suffix: "entry_ok s e \<Longrightarrow> suffix s t \<Longrightarrow> after_last e = (ins, comma) \<Longrightarrow> suffix ins t"
  using entry_suffixes [of s e t] by (auto simp: after_last_def split: option.splits)

lemma find_entry_ok:
  assumes "parse_jsonc_object s = Some obj" "find_entry key obj = Some e"
  shows "entry_ok s e" "je_key e = key" "e \<in> set (jo_entries obj)"
  using assms object_spans(1) [OF assms(1)] by (auto simp: find_entry_def find_Some_iff)

lemma section_edited:
  assumes "parse_jsonc_object (skip_trivia s) = Some root"
  shows "\<exists>z. edited s (add_section client name command vars s root) [] z"
proof -
  note spans = object_spans [OF assms] and start = skip_trivia_suffix [of s]
  obtain ins comma where i: "(if jo_entries root = [] then (jo_close root, []) else after_last (last (jo_entries root))) = (ins, comma)"
    by fastforce
  have "suffix ins s"
  proof (cases "jo_entries root = []")
    case True
    then show ?thesis using i spans(2) start by (auto intro: suffix_order.trans)
  next
    case False
    then show ?thesis using i after_last_suffix [OF _ start, of "last (jo_entries root)"] spans(1) by simp
  qed
  then show ?thesis using inserted unfolding add_section_def Let_def i prod.case by (metis append.assoc)
qed

lemma entry_updated:
  assumes "entry_ok p e" "suffix p s"
  shows "\<exists>old. je_value e = old @ je_after e \<and> edited s (update_entry client command vars s e) old (je_after e)"
proof -
  obtain old where old: "je_value e = old @ je_after e" using assms(1) by (auto simp: entry_ok_def suffix_def)
  have "suffix (old @ je_after e) s" using entry_suffixes(2) [OF assms] by (simp add: old)
  then have "edited s (update_entry client command vars s e) old (je_after e)"
    using edited_at [of old "je_after e" s] by (simp add: update_entry_def Let_def old)
  with old show ?thesis by blast
qed

definition blank_object :: "string \<Rightarrow> bool" where
  "blank_object old \<longleftrightarrow> old = [] \<or> (\<exists>ws. list_all is_ws ws \<and> old = ''{'' @ ws @ ''}'')"

lemma entry_added:
  assumes "parse_jsonc_object (je_value servers) = Some sub" "entry_ok p servers" "suffix p s"
  shows "\<exists>old z. blank_object old \<and> edited s (add_entry client name command vars s servers sub) old z"
proof -
  note spans = object_spans [OF assms(1)] and val = entry_suffixes(2) [OF assms(2,3)]
  have close: "suffix (jo_close sub) s" using spans(2) val by (rule suffix_order.trans)
  have brace: "jo_close sub = ''}'' @ tl (jo_close sub)" by (rule starts_charD [OF spans(3)])
  have "starts_char (CHR ''{'') (je_value servers)" using assms(1) by (simp add: parse_jsonc_object_def Let_def split: if_splits)
  then have start: "je_value servers = ''{'' @ tl (je_value servers)" by (rule starts_charD)
  show ?thesis
  proof (cases "jo_entries sub = []")
    case False
    obtain ins comma where i: "after_last (last (jo_entries sub)) = (ins, comma)" by fastforce
    have "suffix ins s" using after_last_suffix [OF _ val i] spans(1) False by simp
    then have "edited s (before s ins @ (comma @ [CHR 0x0A] @ render_agent_entry client name command vars
        (line_indent s (je_at servers) @ ''  '')) @ ins) [] ins" by (rule inserted)
    then show ?thesis using False i by (auto simp: add_entry_def Let_def blank_object_def)
  next
    case True
    let ?ws = "before (tl (je_value servers)) (jo_close sub)"
    have "entries_from (skip_trivia (tl (je_value servers))) [] \<noteq> Some sub" using entries_nonempty True by blast
    then have "suffix (jo_close sub) (tl (je_value servers))"
      using assms(1) skip_trivia_suffix [of "tl (je_value servers)"] by (auto simp: parse_jsonc_object_def Let_def split: if_splits)
    then have "?ws @ ''}'' @ tl (jo_close sub) = tl (je_value servers)" unfolding brace [symmetric] by (rule before_append)
    then have whole: "(''{'' @ ?ws @ ''}'') @ tl (jo_close sub) = je_value servers" using start by (metis append.assoc)
    show ?thesis
    proof (cases "list_all is_ws ?ws")
      case ws: True
      have "blank_object (''{'' @ ?ws @ ''}'')" using ws by (auto simp: blank_object_def)
      moreover have "suffix ((''{'' @ ?ws @ ''}'') @ tl (jo_close sub)) s" unfolding whole by (rule val)
      then have "edited s (before s ((''{'' @ ?ws @ ''}'') @ tl (jo_close sub)) @ (''{'' @ [CHR 0x0A] @ render_agent_entry client name command vars
          (line_indent s (je_at servers) @ ''  '') @ [CHR 0x0A] @ line_indent s (je_at servers) @ ''}'') @ tl (jo_close sub)) (''{'' @ ?ws @ ''}'') (tl (jo_close sub))"
        by (rule edited_at)
      then have "edited s (add_entry client name command vars s servers sub) (''{'' @ ?ws @ ''}'') (tl (jo_close sub))"
        unfolding whole using True ws by (simp add: add_entry_def Let_def)
      ultimately show ?thesis by blast
    next
      case False
      have eq: "add_entry client name command vars s servers sub =
          before s (jo_close sub) @ ([CHR 0x0A] @ render_agent_entry client name command vars (line_indent s (je_at servers) @ ''  '') @
            [CHR 0x0A] @ line_indent s (je_at servers)) @ (''}'' @ tl (jo_close sub))"
        using True False by (simp add: add_entry_def Let_def)
      have "edited s (add_entry client name command vars s servers sub) [] (jo_close sub)"
        unfolding eq brace [symmetric] by (rule inserted [OF close])
      then show ?thesis by (auto simp: blank_object_def)
    qed
  qed
qed


lemma removed_subseq: "suffix from_here s \<Longrightarrow> suffix to_here from_here \<Longrightarrow> subseq (before s from_here @ to_here) s"
proof -
  assume f: "suffix from_here s" and t: "suffix to_here from_here"
  have "subseq (before s from_here @ to_here) (before s from_here @ from_here)"
    by (rule list_emb_append_mono [OF subseq_order.refl suffix_imp_subseq [OF t]])
  then show ?thesis by (simp add: before_append [OF f])
qed

lemma entry_index_nth: "entry_index key es = Some i \<Longrightarrow> i < length es \<and> je_key (es ! i) = key"
  by (induction es arbitrary: i) (auto split: if_splits)

lemma entry_removed:
  assumes "parse_jsonc_object p = Some obj" "suffix p s" "i < length (jo_entries obj)"
  shows "subseq (remove_entry_at s obj i) s"
proof -
  let ?e = "jo_entries obj ! i" and ?prev = "jo_entries obj ! (i - 1)"
  have ok: "entry_ok p ?e" using object_spans(1) [OF assms(1)] assms(3) by simp
  note here = entry_suffixes [OF ok assms(2)]
  have order: "suffix (je_after ?e) (je_at ?e)" using ok by (auto simp: entry_ok_def intro: suffix_order.trans)
  show ?thesis
  proof (cases "je_comma ?e")
    case (Some c)
    have "suffix c (je_after ?e)" "starts_char (CHR '','') c" using ok Some by (auto simp: entry_ok_def)
    then have "suffix (tl c) (je_at ?e)" using order tl_suffix by (blast intro: suffix_order.trans)
    then show ?thesis using removed_subseq [OF here(1)] Some by (simp add: remove_entry_at_def entry_removal_span_def Let_def)
  next
    case None
    show ?thesis
    proof (cases i)
      case 0
      then show ?thesis using removed_subseq [OF here(1) order] None
        by (simp add: remove_entry_at_def entry_removal_span_def Let_def)
    next
      case (Suc j)
      have prev: "entry_ok p ?prev" using object_spans(1) [OF assms(1)] assms(3) by simp
      let ?from = "unwrap_or (je_comma ?prev) (je_after ?prev)"
      have "suffix (je_at ?e) (entry_end ?prev)" using object_in_order [OF assms(1)] assms(3) Suc by simp
      moreover have "suffix (entry_end ?prev) ?from \<and> suffix ?from s"
        using entry_suffixes [OF prev assms(2)] prev
        by (cases "je_comma ?prev") (auto simp: entry_end_def unwrap_or_def entry_ok_def intro: tl_suffix [OF _ suffix_order.refl])
      ultimately show ?thesis using removed_subseq [of ?from s "je_after ?e"] order None Suc
        by (auto simp: remove_entry_at_def entry_removal_span_def Let_def intro: suffix_order.trans)
    qed
  qed
qed

lemma section_dropped: "subseq (drop_empty_section s) s"
  using entry_removed [OF _ skip_trivia_suffix]
  by (auto simp: drop_empty_section_def split: option.split dest: entry_index_nth)

end
