(* ===== verification/Spaced.thy ===== *)
theory Spaced
  imports Json_Sound Fold_Text
begin

text \<open>
  JSON text with white space between its tokens, as the installers write it: what the parser makes of it.
\<close>

text \<open>\<open>reads d t v\<close>: the parser takes the text \<open>t\<close> for the value \<open>v\<close>, whatever follows, with \<open>d\<close> levels left.\<close>

definition reads :: "nat \<Rightarrow> string \<Rightarrow> J \<Rightarrow> bool" where
  "reads d t v \<longleftrightarrow> (\<forall>p r. rest p = t @ r \<longrightarrow> stops r \<longrightarrow> pdepth p + d \<le> MAX_DEPTH \<longrightarrow>
     parses (\<lambda>n. parse_value n p) v (adv (length t) p))"

text \<open>The same for the members of an object, from after the opening brace or a comma to the closing brace.\<close>

definition reads_members :: "nat \<Rightarrow> string \<Rightarrow> (string \<times> J) list \<Rightarrow> bool" where
  "reads_members d t ps \<longleftrightarrow> (\<exists>u. dropWhile is_ws t = CHR 0x22 # u) \<and>
     (\<forall>p r xs. rest p = t @ r \<longrightarrow> pdepth p + d \<le> MAX_DEPTH \<longrightarrow>
       parses (\<lambda>n. parse_object n p xs) (JObj (xs @ ps)) (adv (length t) p))"

lemma readsD: "reads d t v \<Longrightarrow> rest p = t @ r \<Longrightarrow> stops r \<Longrightarrow> pdepth p + d \<le> MAX_DEPTH \<Longrightarrow>
    parses (\<lambda>n. parse_value n p) v (adv (length t) p)"
  by (simp add: reads_def)

lemma reads_printed: "jwf v \<Longrightarrow> reads (jdepth v) (j_to_string v) v"
  using parsable_all [of v] by (simp add: parsable_def reads_def)

lemma skip_spaces:
  assumes "rest p = ws @ c # r" "list_all is_ws ws" "\<not> is_ws c"
  shows "skip_ws p = adv (length ws) p" "rest (adv (length ws) p) = c # r"
proof -
  have "takeWhile is_ws (rest p) = ws" using assms by (simp add: takeWhile_all_then)
  then show "skip_ws p = adv (length ws) p" by (simp add: skip_ws_def advance_while_eq)
  show "rest (adv (length ws) p) = c # r" using assms(1) by simp
qed

lemma skip_into: "rest p = ws @ r \<Longrightarrow> list_all is_ws ws \<Longrightarrow> skip_ws (adv (length ws) p) = skip_ws p"
proof -
  assume p: "rest p = ws @ r" and ws: "list_all is_ws ws"
  have "takeWhile is_ws (rest p) = ws @ takeWhile is_ws r"
    unfolding p using ws by (simp add: takeWhile_append2 list_all_iff)
  then show ?thesis using p by (simp add: skip_ws_def advance_while_eq adv_adv)
qed

lemma reads_spaced: "reads d t v \<Longrightarrow> list_all is_ws ws \<Longrightarrow> reads d (ws @ t) v"
  unfolding reads_def
proof (intro allI impI)
  fix p r
  assume all: "\<forall>p r. rest p = t @ r \<longrightarrow> stops r \<longrightarrow> pdepth p + d \<le> MAX_DEPTH \<longrightarrow>
      parses (\<lambda>n. parse_value n p) v (adv (length t) p)"
    and ws: "list_all is_ws ws" and p: "rest p = (ws @ t) @ r" "stops r" "pdepth p + d \<le> MAX_DEPTH"
  have "parses (\<lambda>n. parse_value n (adv (length ws) p)) v (adv (length t) (adv (length ws) p))"
    using all [rule_format, of "adv (length ws) p" r] p by simp
  then obtain n where n: "\<forall>m \<ge> n. parse_value m (adv (length ws) p) = Inr (v, adv (length (ws @ t)) p)"
    by (auto simp: parses_def adv_adv)
  have skip: "skip_ws (adv (length ws) p) = skip_ws p" using p(1) ws by (intro skip_into) auto
  have "parse_value (Suc m) p = parse_value (Suc m) (adv (length ws) p)" for m
    by (simp only: parse_value.simps(2) skip)
  then show "parses (\<lambda>n. parse_value n p) v (adv (length (ws @ t)) p)"
    using n by (intro parses_SucI [of n]) simp
qed

lemma stops_spaced: "list_all is_ws ws \<Longrightarrow> stops r \<Longrightarrow> stops (ws @ r)"
  by (cases ws) (auto simp: stops_def is_ws_def is_digit_def)

text \<open>One member: where the parser stands after its value, before what follows.\<close>

lemma member_read:
  assumes "utf8 k" "reads d vt v" "list_all is_ws w1" "list_all is_ws w2" "stops (c # r)" "\<not> is_ws c"
    "rest p = (w1 @ esc k @ '':'' @ vt @ w2) @ c # r" "pdepth p + d \<le> MAX_DEPTH"
  shows "\<exists>q0 kp. skip_ws p = q0 \<and> peek q0 = Some (CHR 0x22) \<and> parse_string q0 = Inr (k, kp) \<and>
    skip_ws kp = kp \<and> peek kp = Some (CHR '':'') \<and>
    (\<exists>q. parses (\<lambda>n. parse_value n (adv 1 kp)) v q \<and> skip_ws q = adv (length (w1 @ esc k @ '':'' @ vt @ w2)) p \<and>
      peek (skip_ws q) = Some c)"
proof -
  let ?start = "adv (length w1) p"
  let ?kp = "adv (length (esc k)) ?start"
  let ?q = "adv (length vt) (adv 1 ?kp)"
  obtain e where e: "esc k = CHR 0x22 # e" by (simp add: esc_def)
  have p: "rest p = w1 @ CHR 0x22 # (e @ '':'' @ vt @ w2 @ c # r)" using assms(7) e by simp
  note skip = skip_spaces [OF p assms(3) no_ws(5)]
  have q0: "rest ?start = esc k @ CHR '':'' # vt @ w2 @ c # r" using skip(2) e by simp
  have str: "parse_string ?start = Inr (k, ?kp)" by (rule parse_string_esc [OF assms(1) q0])
  have kp: "rest ?kp = CHR '':'' # vt @ w2 @ c # r" by (rule rest_drop [OF q0])
  note colon = at_byte [OF kp no_ws(4)]
  have val: "rest (adv 1 ?kp) = vt @ w2 @ c # r" by (rule rest_step [OF kp])
  have "parses (\<lambda>n. parse_value n (adv 1 ?kp)) v ?q"
    by (rule readsD [OF assms(2) val stops_spaced [OF assms(4,5)]]) (use assms(8) in simp)
  moreover have q: "rest ?q = w2 @ c # r" by (rule rest_drop [OF val])
  note after = skip_spaces [OF q assms(4,6)]
  have "skip_ws ?q = adv (length (w1 @ esc k @ '':'' @ vt @ w2)) p" using after(1) by (simp add: adv_adv add_ac)
  moreover have "peek (skip_ws ?q) = Some c" using after by (simp add: peek_hd)
  ultimately show ?thesis using skip str colon peek_hd [OF skip(2)] by metis
qed

lemma members_last:
  assumes "utf8 k" "reads d vt v" "list_all is_ws w1" "list_all is_ws w2"
  shows "reads_members d (w1 @ esc k @ '':'' @ vt @ w2 @ ''}'') [(k, v)]"
  unfolding reads_members_def
proof (intro conjI allI impI)
  show "\<exists>u. dropWhile is_ws (w1 @ esc k @ '':'' @ vt @ w2 @ ''}'') = CHR 0x22 # u"
    using assms(3) by (simp add: dropWhile_append2 list_all_iff esc_def is_ws_def)
next
  fix p r xs
  assume p: "rest p = (w1 @ esc k @ '':'' @ vt @ w2 @ ''}'') @ r" "pdepth p + d \<le> MAX_DEPTH"
  then have at: "rest p = (w1 @ esc k @ '':'' @ vt @ w2) @ CHR ''}'' # r" by simp
  obtain q0 kp q where m: "skip_ws p = q0" "peek q0 = Some (CHR 0x22)" "parse_string q0 = Inr (k, kp)" "skip_ws kp = kp"
    "peek kp = Some (CHR '':'')" "parses (\<lambda>n. parse_value n (adv 1 kp)) v q"
    "skip_ws q = adv (length (w1 @ esc k @ '':'' @ vt @ w2)) p" "peek (skip_ws q) = Some (CHR ''}'')"
    using member_read [OF assms stops_comma(3) no_ws(3) at p(2)] by blast
  obtain n where n: "\<forall>m \<ge> n. parse_value m (adv 1 kp) = Inr (v, q)" using m(6) by (auto simp: parses_def)
  have "adv 1 (skip_ws q) = adv (length (w1 @ esc k @ '':'' @ vt @ w2 @ ''}'')) p" unfolding m(7) by (simp add: adv_adv)
  then show "parses (\<lambda>n. parse_object n p xs) (JObj (xs @ [(k, v)])) (adv (length (w1 @ esc k @ '':'' @ vt @ w2 @ ''}'')) p)"
    by (intro parses_SucI [of n]) (use m n in \<open>simp add: parse_object.simps pbind_def Let_def\<close>)
qed

lemma members_more:
  assumes "utf8 k" "reads d vt v" "list_all is_ws w1" "list_all is_ws w2" "reads_members d t ps"
  shows "reads_members d (w1 @ esc k @ '':'' @ vt @ w2 @ '','' @ t) ((k, v) # ps)"
  unfolding reads_members_def
proof (intro conjI allI impI)
  show "\<exists>u. dropWhile is_ws (w1 @ esc k @ '':'' @ vt @ w2 @ '','' @ t) = CHR 0x22 # u"
    using assms(3) by (simp add: dropWhile_append2 list_all_iff esc_def is_ws_def)
next
  fix p r xs
  assume p: "rest p = (w1 @ esc k @ '':'' @ vt @ w2 @ '','' @ t) @ r" "pdepth p + d \<le> MAX_DEPTH"
  then have at: "rest p = (w1 @ esc k @ '':'' @ vt @ w2) @ CHR '','' # t @ r" by simp
  obtain q0 kp q where m: "skip_ws p = q0" "peek q0 = Some (CHR 0x22)" "parse_string q0 = Inr (k, kp)" "skip_ws kp = kp"
    "peek kp = Some (CHR '':'')" "parses (\<lambda>n. parse_value n (adv 1 kp)) v q"
    "skip_ws q = adv (length (w1 @ esc k @ '':'' @ vt @ w2)) p" "peek (skip_ws q) = Some (CHR '','')"
    using member_read [OF assms(1-4) stops_comma(1) no_ws(1) at p(2)] by blast
  let ?s = "adv 1 (skip_ws q)"
  have s: "?s = adv (length (w1 @ esc k @ '':'' @ vt @ w2 @ '','')) p" unfolding m(7) by (simp add: adv_adv)
  have rest_s: "rest ?s = t @ r" unfolding s using p(1) by simp
  obtain u where u: "dropWhile is_ws t = CHR 0x22 # u" using assms(5) by (auto simp: reads_members_def)
  then have t: "rest ?s = takeWhile is_ws t @ CHR 0x22 # (u @ r)" unfolding rest_s by (metis append.assoc append_Cons takeWhile_dropWhile_id)
  have "list_all is_ws (takeWhile is_ws t)" by (auto simp: list_all_iff dest: set_takeWhileD)
  note skip = skip_spaces [OF t this no_ws(5)]
  have next_key: "peek (skip_ws ?s) = Some (CHR 0x22)" "skip_ws (skip_ws ?s) = skip_ws ?s"
    using skip at_byte [OF skip(2) no_ws(5)] by simp_all
  have "pdepth ?s + d \<le> MAX_DEPTH" unfolding s using p(2) by simp
  then have "parses (\<lambda>n. parse_object n ?s (xs @ [(k, v)])) (JObj ((xs @ [(k, v)]) @ ps)) (adv (length t) ?s)"
    using assms(5) rest_s unfolding reads_members_def by blast
  then obtain l where l: "\<forall>m \<ge> l. parse_object m ?s (xs @ [(k, v)]) = Inr (JObj (xs @ (k, v) # ps), adv (length t) ?s)"
    by (auto simp: parses_def)
  have same: "parse_object (Suc m) (skip_ws ?s) ys = parse_object (Suc m) ?s ys" for m ys
    by (simp only: parse_object.simps(2) next_key(2))
  have l': "parse_object m (skip_ws ?s) (xs @ [(k, v)]) = Inr (JObj (xs @ (k, v) # ps), adv (length t) ?s)" if "Suc l \<le> m" for m
    using same [of "m - 1"] l that by (cases m) auto
  obtain n where n: "\<forall>m \<ge> n. parse_value m (adv 1 kp) = Inr (v, q)" using m(6) by (auto simp: parses_def)
  have "adv (length t) ?s = adv (length (w1 @ esc k @ '':'' @ vt @ w2 @ '','' @ t)) p" unfolding s by (simp add: adv_adv)
  then show "parses (\<lambda>n. parse_object n p xs) (JObj (xs @ (k, v) # ps)) (adv (length (w1 @ esc k @ '':'' @ vt @ w2 @ '','' @ t)) p)"
    by (intro parses_SucI [of "max n (Suc l)"]) (use m n l' next_key in \<open>simp add: parse_object.simps pbind_def Let_def\<close>)
qed

lemma reads_object: "reads_members d t ps \<Longrightarrow> reads (Suc d) (''{'' @ t) (JObj ps)"
  unfolding reads_def
proof (intro allI impI)
  fix p r
  assume m: "reads_members d t ps" and p: "rest p = (''{'' @ t) @ r" "pdepth p + Suc d \<le> MAX_DEPTH"
  let ?p = "p\<lparr>pdepth := pdepth p + 1\<rparr>"
  have at: "rest p = CHR ''{'' # t @ r" using p(1) by simp
  have "rest (adv 1 ?p) = t @ r" by (rule rest_step [of _ "CHR ''{''"]) (simp add: at)
  moreover have "pdepth (adv 1 ?p) + d \<le> MAX_DEPTH" using p(2) by simp
  ultimately have "parses (\<lambda>n. parse_object n (adv 1 ?p) []) (JObj ([] @ ps)) (adv (length t) (adv 1 ?p))"
    using m unfolding reads_members_def by blast
  then have "parses (\<lambda>n. parse_object n (adv 1 ?p) []) (JObj ps) (adv (length (''{'' @ t)) ?p)" by (simp add: One_nat_def)
  then show "parses (\<lambda>n. parse_value n p) (JObj ps) (adv (length (''{'' @ t)) p)"
    by (intro parses_nest [OF at]) (use p(2) in auto)
qed

lemma parse_json_reads: "reads d t v \<Longrightarrow> d \<le> MAX_DEPTH \<Longrightarrow> parse_json t = Inr v"
proof -
  assume v: "reads d t v" and d: "d \<le> MAX_DEPTH"
  let ?p = "parser_new t"
  have "rest ?p = t @ []" "stops []" by (simp_all add: rest_def parser_new_def stops_def)
  moreover have "pdepth ?p + d \<le> MAX_DEPTH" using d by (simp add: parser_new_def)
  ultimately have "parses (\<lambda>n. parse_value n ?p) v (adv (length t) ?p)" using v unfolding reads_def by blast
  then obtain n where "parse_value n ?p = Inr (v, adv (length t) ?p)" by (auto simp: parses_def)
  from parse_value_canonical [OF this] have "parse_value (json_fuel (length t)) ?p = Inr (v, adv (length t) ?p)" by simp
  moreover have "skip_ws (adv (length t) ?p) = adv (length t) ?p"
    by (rule skip_ws_id) (simp add: rest_def parser_new_def adv_def)
  ultimately show ?thesis by (simp add: parse_json_def Let_def) (simp add: parser_new_def adv_def)
qed

lemma quoted_printed:
  assumes "list_all (\<lambda>c. 0x20 \<le> ord c \<and> ord c < 0x7F \<and> c \<noteq> CHR 0x22 \<and> c \<noteq> CHR 0x5C) t"
  shows "esc t = quoted t"
proof -
  have one: "esc_char (ord c) = [c]" if "c \<in> set t" for c
  proof -
    have c: "0x20 \<le> ord c" "ord c < 0x7F" "ord c \<noteq> 0x22" "ord c \<noteq> 0x5C"
      using assms that by (auto simp: list_all_iff char_ord_eq)
    then have "esc_char (ord c) = utf8_encode (ord c)" by (intro esc_plain) simp
    then show ?thesis using c(2) by (simp add: utf8_encode_def)
  qed
  have maps: "map esc_char (map (ord :: char \<Rightarrow> nat) t) = map (\<lambda>c. [c]) t" unfolding map_map by (rule map_cong [OF refl]) (simp add: one)
  have flat: "concat (map (\<lambda>c. [c]) u) = u" for u :: string by (induction u) auto
  have ascii: "list_all (\<lambda>c. ord c < 128) t"
    using assms by (rule list.pred_mono_strong) simp
  show ?thesis unfolding esc_def quoted_def chars_ascii [OF ascii] by (simp only: maps flat append_Cons append_Nil)
qed

lemma reads_deeper: "reads d t v \<Longrightarrow> d \<le> e \<Longrightarrow> reads e t v"
  by (simp add: reads_def)

lemma members_deeper: "reads_members d t ps \<Longrightarrow> d \<le> e \<Longrightarrow> reads_members e t ps"
  by (simp add: reads_members_def)

end
