(* ===== verification/Installer.thy ===== *)
theory Installer
  imports Settings Stores Spaced Client_Wire
begin

text \<open>
  The installer's command line and its two commands (\<^verbatim>\<open>src/zed.rs\<close>, \<^verbatim>\<open>parse_args\<close> to \<^verbatim>\<open>dispatch\<close>), on a POSIX
  system. What the file system answers is an argument; the steps a command takes on it are its result.
\<close>

section \<open>Command line\<close>

record installer_opts =
  io_name :: string
  io_settings :: "string option"
  io_command :: string
  io_env :: "(string \<times> string) list"
  io_dry_run :: bool
  io_no_backup :: bool

definition DEFAULT_AGENT_NAME :: string where
  "DEFAULT_AGENT_NAME = ''muse-acp''"

definition DEFAULT_COMMAND :: string where
  "DEFAULT_COMMAND = ''muse-acp''"

definition installer_opts_new :: installer_opts where
  "installer_opts_new =
     \<lparr>io_name = DEFAULT_AGENT_NAME, io_settings = None, io_command = DEFAULT_COMMAND, io_env = [], io_dry_run = False, io_no_backup = False\<rparr>"

text \<open>The value of a flag, in the argument itself or in the next one, and the arguments after it.\<close>

definition take_value :: "string \<Rightarrow> string \<Rightarrow> string list \<Rightarrow> string + string \<times> string list" where
  "take_value flag arg args =
     (case strip_prefix arg (flag @ ''='') of
        Some v \<Rightarrow> if v = [] then Inl (flag @ '' requires a value'') else Inr (v, args)
      | None \<Rightarrow> (case args of [] \<Rightarrow> Inl (flag @ '' requires a value'') | v # more_args \<Rightarrow> Inr (v, more_args)))"

definition is_flag :: "string \<Rightarrow> string \<Rightarrow> bool" where
  "is_flag flag arg \<longleftrightarrow> arg = flag \<or> starts_with arg (flag @ ''='')"

definition add_env :: "string \<Rightarrow> installer_opts \<Rightarrow> string + installer_opts" where
  "add_env kv opts =
     (case split_once kv ''='' of
        None \<Rightarrow> Inl ''--env requires KEY=VALUE''
      | Some (k, v) \<Rightarrow> if k = [] then Inl ''--env requires a non-empty key'' else Inr (opts\<lparr>io_env := io_env opts @ [(k, v)]\<rparr>))"

text \<open>One argument: the options with it, and the arguments after it.\<close>

definition installer_arg :: "bool \<Rightarrow> string \<Rightarrow> string list \<Rightarrow> installer_opts \<Rightarrow> string + installer_opts \<times> string list" where
  "installer_arg is_install a args opts =
     (if a = ''-h'' \<or> a = ''--help'' then Inl (if is_install then ''__help_install'' else ''__help_uninstall'')
      else if is_flag ''--name'' a then
        (case take_value ''--name'' a args of
           Inl e \<Rightarrow> Inl e
         | Inr (v, r) \<Rightarrow> if trim v = [] then Inl ''--name must not be empty'' else Inr (opts\<lparr>io_name := v\<rparr>, r))
      else if is_flag ''--settings'' a then
        (case take_value ''--settings'' a args of Inl e \<Rightarrow> Inl e | Inr (v, r) \<Rightarrow> Inr (opts\<lparr>io_settings := Some v\<rparr>, r))
      else if is_flag ''--command'' a then
        (if \<not> is_install then Inl ''--command is only valid for install''
         else case take_value ''--command'' a args of
           Inl e \<Rightarrow> Inl e
         | Inr (v, r) \<Rightarrow> if trim v = [] then Inl ''--command must not be empty'' else Inr (opts\<lparr>io_command := v\<rparr>, r))
      else if is_flag ''--env'' a then
        (if \<not> is_install then Inl ''--env is only valid for install''
         else case take_value ''--env'' a args of
           Inl e \<Rightarrow> Inl e
         | Inr (v, r) \<Rightarrow> (case add_env v opts of Inl e \<Rightarrow> Inl e | Inr opts' \<Rightarrow> Inr (opts', r)))
      else if a = ''--dry-run'' then Inr (opts\<lparr>io_dry_run := True\<rparr>, args)
      else if a = ''--no-backup'' then Inr (opts\<lparr>io_no_backup := True\<rparr>, args)
      else Inl (''unexpected argument: '' @ a))"

lemma take_value_length: "take_value flag a args = Inr (v, r) \<Longrightarrow> length r \<le> length args"
  by (auto simp: take_value_def split: option.splits list.splits if_splits)

lemma installer_arg_length: "installer_arg is_install a args opts = Inr (opts', r) \<Longrightarrow> length r \<le> length args"
  unfolding installer_arg_def by (auto split: if_splits sum.splits dest: take_value_length)

function installer_args :: "bool \<Rightarrow> string list \<Rightarrow> installer_opts \<Rightarrow> string + installer_opts" where
  "installer_args is_install [] opts = Inr opts"
| "installer_args is_install (a # args) opts =
     (case installer_arg is_install a args opts of
        Inl e \<Rightarrow> Inl e
      | Inr (opts', r) \<Rightarrow> installer_args is_install r opts')"
  by pat_completeness auto
termination
  by (relation "measure (\<lambda>(b, args, opts). length args)") (auto dest: installer_arg_length)

definition parse_installer_opts :: "string list \<Rightarrow> bool \<Rightarrow> string + installer_opts" where
  "parse_installer_opts args is_install = installer_args is_install args installer_opts_new"

datatype cli = Serve | Install client installer_opts | Uninstall client installer_opts | HelpText | VersionText

definition parse_args :: "string list \<Rightarrow> string + cli" where
  "parse_args args =
     (case args of
        [] \<Rightarrow> Inr Serve
      | a # more_args \<Rightarrow>
          if a \<in> {''-h'', ''--help'', ''help''} then Inr HelpText
          else if a \<in> {''login'', ''logout''} then
            Inl (''unexpected argument: '' @ (case more_args of [] \<Rightarrow> a | x # xs \<Rightarrow> x))
          else if a \<in> {''-V'', ''--version''} then
            (case more_args of [] \<Rightarrow> Inr VersionText | x # xs \<Rightarrow> Inl (''unexpected argument: '' @ x))
          else if a \<in> {''install'', ''uninstall'', ''install-intellij'', ''uninstall-intellij''} then
            (let is_install = (a = ''install'' \<or> a = ''install-intellij'');
                 client = (if ends_with a ''-intellij'' then IntelliJ else Zed) in
             case parse_installer_opts more_args is_install of
               Inr opts \<Rightarrow> Inr (if is_install then Install client opts else Uninstall client opts)
             | Inl e \<Rightarrow> if e = ''__help_install'' \<or> e = ''__help_uninstall'' then Inr HelpText else Inl e)
          else Inl (''unexpected argument: '' @ a))"

section \<open>Commands\<close>

text \<open>What the file system and the environment answer: home directories, the running executable, whether a path
  names a file, the settings file, whether its directory can be made and the file replaced.\<close>

datatype file_read = Contents string | Missing | Unreadable

record installer_env =
  ie_vars :: "string \<Rightarrow> string option"
  ie_exe :: "string + string"
  ie_is_file :: "string \<Rightarrow> bool"
  ie_read :: "string \<Rightarrow> file_read"
  ie_mkdir :: "string \<Rightarrow> bool"
  ie_replace :: "string \<Rightarrow> bool"

datatype file_step = CopyBackup string | MakeParent string | Replace string string | Rollback string string

definition home_dir :: "installer_env \<Rightarrow> string option" where
  "home_dir E = or_else (nonempty (ie_vars E ''HOME'')) (nonempty (ie_vars E ''USERPROFILE''))"

definition default_settings_path :: "installer_env \<Rightarrow> client \<Rightarrow> string option" where
  "default_settings_path E client =
     map_option (\<lambda>home. path_join False home (if client = Zed then ''.config/zed/settings.json'' else ''.jetbrains/acp.json'')) (home_dir E)"

definition intellij_command :: "installer_env \<Rightarrow> string \<Rightarrow> string option" where
  "intellij_command E command =
     (case (if command = DEFAULT_COMMAND then (case ie_exe E of Inr p \<Rightarrow> Some p | Inl e \<Rightarrow> None)
            else if starts_with command ''/'' then Some command else None) of
        Some p \<Rightarrow> if ie_is_file E p then Some p else None
      | None \<Rightarrow> None)"

text \<open>A zed command is kept as given; only Windows replaces the default one.\<close>

definition client_command :: "installer_env \<Rightarrow> client \<Rightarrow> string \<Rightarrow> string option" where
  "client_command E client command = (if client = Zed then Some command else intellij_command E command)"

definition settings_path :: "installer_env \<Rightarrow> client \<Rightarrow> installer_opts \<Rightarrow> string option" where
  "settings_path E client opts = (case io_settings opts of Some p \<Rightarrow> Some p | None \<Rightarrow> default_settings_path E client)"

definition has_parent :: "string \<Rightarrow> bool" where
  "has_parent path \<longleftrightarrow> CHR ''/'' \<in> set (dropWhile (\<lambda>c. c = CHR ''/'') (rev path))"

text \<open>Replaces the file; when that fails, the old text is written back.\<close>

definition replace_file :: "installer_env \<Rightarrow> string \<Rightarrow> string \<Rightarrow> string \<Rightarrow> nat \<times> file_step list" where
  "replace_file E path original updated =
     (if ie_replace E path then (0, [Replace path updated])
      else (1, Replace path updated # (if original = [] then [] else [Rollback path original])))"

definition cmd_install :: "installer_env \<Rightarrow> client \<Rightarrow> installer_opts \<Rightarrow> nat \<times> file_step list" where
  "cmd_install E client opts =
     (case (settings_path E client opts, client_command E client (io_command opts)) of
        (Some path, Some command) \<Rightarrow>
          (case (case ie_read E path of Contents t \<Rightarrow> Some t | Missing \<Rightarrow> Some [] | Unreadable \<Rightarrow> None) of
             None \<Rightarrow> (1, [])
           | Some original \<Rightarrow>
               (case install_settings_edit original (io_name opts) command (io_env opts) client of
                  Inl e \<Rightarrow> (1, [])
                | Inr (updated, outcome) \<Rightarrow>
                    if io_dry_run opts then (0, [])
                    else
                      (let backup = (if original \<noteq> [] \<and> \<not> io_no_backup opts then [CopyBackup path] else []);
                           parent = (if has_parent path then [MakeParent path] else []) in
                       if parent \<noteq> [] \<and> \<not> ie_mkdir E path then (1, backup @ parent)
                       else (case replace_file E path original updated of (code, steps) \<Rightarrow> (code, backup @ parent @ steps)))))
      | _ \<Rightarrow> (1, []))"

definition cmd_uninstall :: "installer_env \<Rightarrow> client \<Rightarrow> installer_opts \<Rightarrow> nat \<times> file_step list" where
  "cmd_uninstall E client opts =
     (case settings_path E client opts of
        None \<Rightarrow> (1, [])
      | Some path \<Rightarrow>
          (case ie_read E path of
             Missing \<Rightarrow> (0, [])
           | Unreadable \<Rightarrow> (1, [])
           | Contents original \<Rightarrow>
               (case uninstall_settings_edit original (io_name opts) of
                  Inl e \<Rightarrow> (1, [])
                | Inr (updated, removed) \<Rightarrow>
                    if \<not> removed \<or> io_dry_run opts then (0, [])
                    else (case replace_file E path original updated of
                      (code, steps) \<Rightarrow> (code, (if io_no_backup opts then [] else [CopyBackup path]) @ steps)))))"

text \<open>The exit code of the installer, none when the adapter serves.\<close>

definition installer_dispatch :: "installer_env \<Rightarrow> string list \<Rightarrow> nat option \<times> file_step list" where
  "installer_dispatch E args =
     (case parse_args args of
        Inr Serve \<Rightarrow> (None, [])
      | Inr (Install client opts) \<Rightarrow> (case cmd_install E client opts of (code, steps) \<Rightarrow> (Some code, steps))
      | Inr (Uninstall client opts) \<Rightarrow> (case cmd_uninstall E client opts of (code, steps) \<Rightarrow> (Some code, steps))
      | Inr HelpText \<Rightarrow> (Some 0, [])
      | Inr VersionText \<Rightarrow> (Some 0, [])
      | Inl e \<Rightarrow> (Some 2, []))"

section \<open>Properties of the edits\<close>

text \<open>C14: the text an installation writes is valid again, and it differs from the settings file in one stretch
  only: what is replaced there is the value of the agent's own entry, or nothing but blanks in an empty section. A file
  that holds no value at all is the exception: the whole of it is replaced by fresh settings, its comments
  with it.\<close>

theorem install_keeps_the_rest:
  assumes "install_settings_edit s name command vars client = Inr (t, outcome)"
  shows "check_valid_jsonc_object t \<and>
    (if is_trivia_only s then outcome = Added \<and> t = fresh_settings client name command vars
     else \<exists>old z. edited s t old z \<and>
      (case outcome of
         Added \<Rightarrow> blank_object old
       | Updated \<Rightarrow> \<exists>root servers sub e. parse_jsonc_object (skip_trivia s) = Some root \<and>
           find_entry ''agent_servers'' root = Some servers \<and> parse_jsonc_object (je_value servers) = Some sub \<and>
           find_entry name sub = Some e \<and> je_value e = old @ z \<and> je_after e = z))"
proof (cases "is_trivia_only s")
  case True
  then show ?thesis using assms by (auto simp: install_settings_edit_def Let_def split: if_splits)
next
  case False
  note assms = assms False
  let ?goal = "\<exists>old z. edited s t old z \<and>
      (case outcome of
         Added \<Rightarrow> blank_object old
       | Updated \<Rightarrow> \<exists>root servers sub e. parse_jsonc_object (skip_trivia s) = Some root \<and>
           find_entry ''agent_servers'' root = Some servers \<and> parse_jsonc_object (je_value servers) = Some sub \<and>
           find_entry name sub = Some e \<and> je_value e = old @ z \<and> je_after e = z)"
  obtain root where root: "parse_jsonc_object (skip_trivia s) = Some root"
    using assms by (auto simp: install_settings_edit_def split: if_splits option.splits)
  have "check_valid_jsonc_object t \<and> ?goal"
  proof (cases "find_entry ''agent_servers'' root")
    case None
    then have "checked (add_section client name command vars s root, Added) = Inr (t, outcome)"
      using assms root by (auto simp: install_settings_edit_def split: if_splits)
    then have "check_valid_jsonc_object t" "outcome = Added" "t = add_section client name command vars s root"
      by (auto simp: checked_def split: if_splits)
    then show ?thesis using section_edited [OF root, of client name command vars] by (auto simp: blank_object_def)
  next
    case (Some servers)
    note servers = find_entry_ok [OF root Some] and start = skip_trivia_suffix [of s]
    obtain sub where sub: "parse_jsonc_object (je_value servers) = Some sub"
      using assms root Some by (auto simp: install_settings_edit_def split: if_splits option.splits)
    show ?thesis
    proof (cases "find_entry name sub")
      case None
      then have "checked (add_entry client name command vars s servers sub, Added) = Inr (t, outcome)"
        using assms root Some sub by (auto simp: install_settings_edit_def split: if_splits)
      then have "check_valid_jsonc_object t" "outcome = Added" "t = add_entry client name command vars s servers sub"
        by (auto simp: checked_def split: if_splits)
      then show ?thesis using entry_added [OF sub servers(1) start, of client name command vars] by auto
    next
      case e: (Some e)
      then have "checked (update_entry client command vars s e, Updated) = Inr (t, outcome)"
        using assms root Some sub by (auto simp: install_settings_edit_def split: if_splits)
      then have t: "check_valid_jsonc_object t" "outcome = Updated" "t = update_entry client command vars s e"
        by (auto simp: checked_def split: if_splits)
      obtain old where old: "je_value e = old @ je_after e" "edited s t old (je_after e)"
        using entry_updated [OF find_entry_ok(1) [OF sub e] entry_suffixes(2) [OF servers(1) start], of client command vars] t(3) by auto
      then show ?thesis using t(1) root Some sub e unfolding t(2) edit_outcome.case by blast
    qed
  qed
  then show ?thesis using False by (simp only: if_False)
qed

text \<open>removing an agent only takes text away, or leaves the empty object; without an entry of the agent the file
  stays as it is.\<close>

theorem uninstall_only_removes:
  assumes "uninstall_settings_edit s name = Inr (t, removed)"
  shows "(if removed then (subseq t s \<or> t = ''{}'' @ [CHR 0x0A]) \<and> check_valid_jsonc_object t else t = s)"
proof (cases removed)
  case False
  then show ?thesis using assms
    by (auto simp: uninstall_settings_edit_def checked_def split: if_splits option.splits)
next
  case True
  then obtain root servers sub i where r: "parse_jsonc_object (skip_trivia s) = Some root" "find_entry ''agent_servers'' root = Some servers"
    "parse_jsonc_object (je_value servers) = Some sub" "entry_index name (jo_entries sub) = Some i"
    "checked (normalize_empty (drop_empty_section (remove_entry_at s sub i)), True) = Inr (t, removed)"
    using assms by (auto simp: uninstall_settings_edit_def split: if_splits option.splits)
  have t: "check_valid_jsonc_object t" "t = normalize_empty (drop_empty_section (remove_entry_at s sub i))"
    using r(5) by (auto simp: checked_def split: if_splits)
  have "subseq (remove_entry_at s sub i) s"
    using entry_removed [OF r(3) entry_suffixes(2) [OF find_entry_ok(1) [OF r(1,2)] skip_trivia_suffix]] entry_index_nth [OF r(4)] by simp
  then have "subseq (drop_empty_section (remove_entry_at s sub i)) s" using section_dropped subseq_order.trans by blast
  then show ?thesis using t True by (auto simp: normalize_empty_def)
qed


section \<open>Install and uninstall\<close>

text \<open>Text that the scanner of brackets steps over, inside at least one bracket.\<close>

definition passed :: "string \<Rightarrow> bool" where
  "passed t \<longleftrightarrow> (\<forall>d r. 0 < d \<longrightarrow> close_of (CHR ''{'') (CHR ''}'') d (t @ r) = close_of (CHR ''{'') (CHR ''}'') d r)"

lemma passed_append: "passed a \<Longrightarrow> passed b \<Longrightarrow> passed (a @ b)"
  by (simp add: passed_def)

lemma passed_Nil: "passed []"
  by (simp add: passed_def)

lemma no_comment: "c \<noteq> CHR ''/'' \<Longrightarrow> comment_end (c # s) = None"
  by (cases s) auto

lemma passed_char: "c \<notin> {CHR 0x22, CHR ''/'', CHR ''{'', CHR ''}''} \<Longrightarrow> passed [c]"
  by (auto simp: passed_def close_of.simps(2) no_comment)

lemma passed_plain: "list_all (\<lambda>c. c \<notin> {CHR 0x22, CHR ''/'', CHR ''{'', CHR ''}''}) t \<Longrightarrow> passed t"
proof (induction t)
  case (Cons c t)
  then show ?case using passed_append [of "[c]" t] passed_char [of c] by simp
qed (rule passed_Nil)

lemma passed_object: "passed t \<Longrightarrow> passed (''{'' @ t @ ''}'')"
  by (simp add: passed_def close_of.simps(2) no_comment)

lemma object_end: "passed t \<Longrightarrow> scan_jsonc_value_end (''{'' @ t @ ''}'' @ r) = Some r"
  by (simp add: scan_jsonc_value_end_def close_of.simps(2) no_comment passed_def)

lemma passed_string: "(\<And>r. parse_jsonc_string (t @ r) = Some (x, r)) \<Longrightarrow> starts_char (CHR 0x22) t \<Longrightarrow> passed t"
proof -
  assume str: "\<And>r. parse_jsonc_string (t @ r) = Some (x, r)" and "starts_char (CHR 0x22) t"
  then obtain u where u: "t = CHR 0x22 # u" by (cases t) (auto simp: starts_char_def)
  show ?thesis using str by (simp add: passed_def u close_of.simps(2))
qed

lemma jsonc_plain: "list_all (\<lambda>c. c \<noteq> CHR 0x22 \<and> c \<noteq> CHR 0x5C) t \<Longrightarrow> jsonc_chars out (t @ r) = jsonc_chars (out @ t) r"
  by (induction t arbitrary: out) auto

lemma hex_escape:
  assumes "c < 0x20"
  shows "\<exists>h1 h2 h3 h4. pad0 4 (show_hex c) = [h1, h2, h3, h4] \<and> from_hex [h1, h2, h3, h4] = Some c"
proof -
  have ten: "c div 16 < 10" "c div 16 < 16" "c mod 16 < 16" using assms by simp_all
  have "hex_value (CHR ''0'') = Some 0" by (simp add: hex_value_def is_digit_def)
  moreover have "16 * (c div 16) + c mod 16 = c" by simp
  ultimately have "from_hex [CHR ''0'', CHR ''0'', hex_digit (c div 16), hex_digit (c mod 16)] = Some c"
    using hex_value_digit [OF ten(2)] hex_value_digit [OF ten(3)] by (simp add: from_hex_def starts_with_def)
  then show ?thesis using assms by (simp add: show_hex_byte)
qed

lemma jsonc_escaped: "is_scalar c \<Longrightarrow> jsonc_chars out (esc_char c @ r) = jsonc_chars (out @ utf8_encode c) r"
proof (cases "c \<in> {0x22, 0x5C, 0x0A, 0x0D, 0x09, 0x08, 0x0C}")
  case True
  then obtain e where "esc_char c = [CHR 0x5C, e]" "simple_escape e = Some c" "e \<noteq> CHR ''u''"
    by (auto simp: esc_char_def simple_escape_def)
  then show ?thesis by simp
next
  case False
  assume c: "is_scalar c"
  show ?thesis
  proof (cases "c < 0x20")
    case True
    obtain h1 h2 h3 h4 where h: "pad0 4 (show_hex c) = [h1, h2, h3, h4]" "from_hex [h1, h2, h3, h4] = Some c"
      using hex_escape [OF True] by blast
    then show ?thesis using False True c by (simp add: esc_char_def unit_char_def)
  next
    case big: False
    then have plain: "esc_char c = utf8_encode c" using False by (simp add: esc_plain)
    have "list_all (\<lambda>b. b \<noteq> CHR 0x22 \<and> b \<noteq> CHR 0x5C) (utf8_encode c)"
    proof (cases "c < 0x80")
      case True
      then show ?thesis using False by (auto simp: utf8_encode_def char_of_eq_iff take_bit_eq_mod)
    next
      case False
      then show ?thesis using encode_bytes [OF c] by (auto simp: list_all_iff)
    qed
    then show ?thesis unfolding plain by (rule jsonc_plain)
  qed
qed

lemma jsonc_concat: "list_all is_scalar cs \<Longrightarrow> jsonc_chars out (concat (map esc_char cs) @ r) = jsonc_chars (out @ of_chars cs) r"
  by (induction cs arbitrary: out) (auto simp: jsonc_escaped of_chars_def)

lemma jsonc_esc: "utf8 x \<Longrightarrow> parse_jsonc_string (esc x @ r) = Some (x, r)"
  by (simp add: parse_jsonc_string_def esc_def jsonc_concat chars_scalar of_chars_chars)


lemma jsonc_quoted: "list_all (\<lambda>c. c \<noteq> CHR 0x22 \<and> c \<noteq> CHR 0x5C) t \<Longrightarrow> parse_jsonc_string (quoted t @ r) = Some (t, r)"
  by (simp add: parse_jsonc_string_def quoted_def jsonc_plain)

lemma passed_esc: "utf8 x \<Longrightarrow> passed (esc x)"
  by (rule passed_string [OF jsonc_esc]) (simp_all add: starts_char_def esc_def)

lemma passed_quoted: "list_all (\<lambda>c. c \<noteq> CHR 0x22 \<and> c \<noteq> CHR 0x5C) t \<Longrightarrow> passed (quoted t)"
  by (rule passed_string [OF jsonc_quoted]) (simp_all add: starts_char_def quoted_def)

lemma passed_concat: "\<forall>t \<in> set ts. passed t \<Longrightarrow> passed (concat ts)"
  by (induction ts) (auto simp: passed_Nil passed_append)

abbreviation all_utf8 :: "(string \<times> string) list \<Rightarrow> bool" where
  "all_utf8 vars \<equiv> list_all (\<lambda>(k, v). utf8 k \<and> utf8 v) vars"

lemma passed_env:
  assumes "all_utf8 vars" "passed fi"
  shows "passed (env_lines fi vars)"
proof -
  have "utf8 (fst (vars ! i)) \<and> utf8 (snd (vars ! i))" if "i < length vars" for i
    using assms(1) that by (simp add: list_all_length case_prod_beta)
  moreover have "passed ''  ''" "passed '': ''" "passed [CHR 0x0A]" "passed '',''" "passed []"
    by (simp_all add: passed_plain)
  ultimately show ?thesis using assms(2) unfolding env_lines_def
    by (intro passed_concat) (auto intro!: passed_append passed_esc simp del: append_Cons)
qed

lemma render_body:
  assumes "utf8 command" "all_utf8 vars" "passed fi" "passed ci"
  shows "\<exists>body. render_agent_value client command vars fi ci = ''{'' @ body @ ''}'' \<and> passed body"
proof -
  have strings: "passed (quoted ''type'')" "passed (quoted ''custom'')" "passed (quoted ''command'')" "passed (quoted ''args'')" "passed (quoted ''env'')"
    by (simp_all add: passed_quoted)
  have texts: "passed [CHR 0x0A]" "passed '': ''" "passed '',''" "passed '': [],''"
    by (simp_all add: passed_plain)
  have vars_text: "passed (if vars = [] then fi @ quoted ''env'' @ '': {}'' @ [CHR 0x0A]
      else fi @ quoted ''env'' @ '': {'' @ [CHR 0x0A] @ env_lines fi vars @ fi @ ''}'' @ [CHR 0x0A])" (is "passed ?v")
  proof -
    have lines: "passed ([CHR 0x0A] @ env_lines fi vars @ fi)"
      using texts(1) passed_env [OF assms(2,3)] assms(3) by (blast intro: passed_append)
    have "passed ('': '' @ (''{'' @ [] @ ''}''))" "passed ('': '' @ (''{'' @ ([CHR 0x0A] @ env_lines fi vars @ fi) @ ''}''))"
      by (rule passed_append [OF texts(2) passed_object [OF passed_Nil]], rule passed_append [OF texts(2) passed_object [OF lines]])
    then have "passed (fi @ quoted ''env'' @ ('': '' @ (''{'' @ [] @ ''}'')) @ [CHR 0x0A])"
      "passed (fi @ quoted ''env'' @ ('': '' @ (''{'' @ ([CHR 0x0A] @ env_lines fi vars @ fi) @ ''}'')) @ [CHR 0x0A])"
      using strings texts assms(3) by (blast intro: passed_append)+
    then show ?thesis by simp
  qed
  let ?body = "[CHR 0x0A] @ (if client = Zed then fi @ quoted ''type'' @ '': '' @ quoted ''custom'' @ '','' @ [CHR 0x0A] else []) @
     (fi @ quoted ''command'' @ '': '' @ esc command @ '','' @ [CHR 0x0A]) @ (fi @ quoted ''args'' @ '': [],'' @ [CHR 0x0A]) @ ?v @ ci"
  have "passed (if client = Zed then fi @ quoted ''type'' @ '': '' @ quoted ''custom'' @ '','' @ [CHR 0x0A] else [])"
    using strings texts assms(3) passed_Nil passed_append by (auto simp del: append_Cons)
  moreover have "passed (fi @ quoted ''command'' @ '': '' @ esc command @ '','' @ [CHR 0x0A])"
    using strings texts assms(3) passed_esc [OF assms(1)] by (blast intro: passed_append)
  moreover have "passed (fi @ quoted ''args'' @ '': [],'' @ [CHR 0x0A])"
    using strings texts assms(3) by (blast intro: passed_append)
  ultimately have "passed ?body" using texts vars_text assms(4) by (blast intro: passed_append)
  moreover have "render_agent_value client command vars fi ci = ''{'' @ ?body @ ''}''"
    by (simp add: render_agent_value_def)
  ultimately show ?thesis by blast
qed


section \<open>The text an installation writes\<close>

text \<open>Text that stripping comments and trailing commas leaves alone, whatever follows it.\<close>

definition kept :: "string \<Rightarrow> bool" where
  "kept t \<longleftrightarrow> (\<forall>r. strip_comments (t @ r) = t @ strip_comments r \<and> strip_trailing_commas (t @ r) = t @ strip_trailing_commas r)"

lemma kept_append: "kept a \<Longrightarrow> kept b \<Longrightarrow> kept (a @ b)"
  by (simp add: kept_def)

lemma kept_char: "c \<notin> {CHR 0x22, CHR ''/'', CHR '',''} \<Longrightarrow> kept [c]"
  by (auto simp: kept_def strip_comments.simps(2) strip_trailing_commas.simps(2) no_comment)

lemma kept_plain: "list_all (\<lambda>c. c \<notin> {CHR 0x22, CHR ''/'', CHR '',''}) t \<Longrightarrow> kept t"
proof (induction t)
  case (Cons c t)
  then show ?case using kept_append [of "[c]" t] kept_char [of c] by simp
qed (simp add: kept_def)

lemma kept_esc: "utf8 x \<Longrightarrow> kept (esc x)"
proof -
  assume x: "utf8 x"
  obtain u where u: "esc x = CHR 0x22 # u" by (simp add: esc_def)
  have "parse_jsonc_string (CHR 0x22 # u @ r) = Some (x, r)" for r using jsonc_esc [OF x, of r] u by simp
  then show ?thesis by (simp add: kept_def u strip_comments.simps(2) strip_trailing_commas.simps(2))
qed

lemma kept_comma: "dropWhile is_ws t = CHR 0x22 # u \<Longrightarrow> kept t \<Longrightarrow> kept ('','' @ t)"
proof -
  assume u: "dropWhile is_ws t = CHR 0x22 # u" and t: "kept t"
  have "dropWhile is_ws (t @ r) = CHR 0x22 # u @ r" for r
  proof -
    have "t = takeWhile is_ws t @ CHR 0x22 # u" unfolding u [symmetric] by simp
    then have "t @ r = takeWhile is_ws t @ CHR 0x22 # (u @ r)" by (metis append.assoc append_Cons)
    moreover have "\<forall>c \<in> set (takeWhile is_ws t). is_ws c" by (auto dest: set_takeWhileD)
    ultimately show ?thesis by (simp only: dropWhile_append2) (simp add: is_ws_def)
  qed
  then show ?thesis using t
    by (simp add: kept_def closes_next_def strip_comments.simps(2) strip_trailing_commas.simps(2) no_comment)
qed

text \<open>Text of a value, or of members up to the closing brace, that is clean JSON.\<close>

definition written :: "nat \<Rightarrow> string \<Rightarrow> J \<Rightarrow> bool" where
  "written d t v \<longleftrightarrow> reads d t v \<and> kept t \<and> utf8 t"

definition members_written :: "nat \<Rightarrow> string \<Rightarrow> (string \<times> J) list \<Rightarrow> bool" where
  "members_written d t ps \<longleftrightarrow> reads_members d t ps \<and> kept t \<and> utf8 t"

lemma utf8_spaces: "list_all is_ws w \<Longrightarrow> utf8 w"
  by (rule utf8_ascii) (auto simp: list_all_iff is_ws_def)

lemma kept_spaces: "list_all is_ws w \<Longrightarrow> kept w"
  by (rule kept_plain) (auto simp: list_all_iff is_ws_def)

lemma kept_signs: "kept '':''" "kept ''{''" "kept ''}''" "kept ''[]''" "kept ''{}''"
  by (simp_all add: kept_plain)

lemma utf8_signs: "utf8 '':''" "utf8 ''{''" "utf8 ''}''" "utf8 '',''" "utf8 ''[]''" "utf8 ''{}''"
  by (simp_all add: utf8_ascii)

lemma utf8_glue: "utf8 a \<Longrightarrow> utf8 b \<Longrightarrow> utf8 (a @ b)"
  by simp

lemma written_last:
  assumes "utf8 k" "written d vt v" "list_all is_ws w1" "list_all is_ws w2"
  shows "members_written d (w1 @ esc k @ '':'' @ vt @ w2 @ ''}'') [(k, v)]"
  using assms members_last [of k d vt v w1 w2] unfolding members_written_def written_def
  by (blast intro: kept_append utf8_glue kept_esc kept_signs kept_spaces utf8_spaces utf8_signs utf8_esc)

lemma written_more:
  assumes "utf8 k" "written d vt v" "list_all is_ws w1" "list_all is_ws w2" "members_written d t ps"
  shows "members_written d (w1 @ esc k @ '':'' @ vt @ w2 @ '','' @ t) ((k, v) # ps)"
proof -
  obtain u where "dropWhile is_ws t = CHR 0x22 # u" using assms(5) by (auto simp: members_written_def reads_members_def)
  then have "kept ('','' @ t)" using kept_comma assms(5) unfolding members_written_def by blast
  then show ?thesis using assms members_more [of k d vt v w1 w2 t ps] unfolding members_written_def written_def
    by (blast intro: kept_append utf8_glue kept_esc kept_signs kept_spaces utf8_spaces utf8_signs utf8_esc)
qed

lemma written_object: "members_written d t ps \<Longrightarrow> written (Suc d) (''{'' @ t) (JObj ps)"
  using reads_object unfolding members_written_def written_def by (blast intro: kept_append utf8_glue kept_signs utf8_signs)

lemma written_spaced: "written d t v \<Longrightarrow> list_all is_ws ws \<Longrightarrow> written d (ws @ t) v"
  using reads_spaced unfolding written_def by (blast intro: kept_append utf8_glue kept_spaces utf8_spaces)

lemma written_string: "utf8 x \<Longrightarrow> written d (esc x) (JStr x)"
  using reads_deeper [OF reads_printed [of "JStr x"], of d] by (simp add: written_def kept_esc utf8_esc)

lemma written_empty: "written (Suc d) ''[]'' (JArr [])" "written (Suc d) ''{}'' (JObj [])"
  using reads_deeper [OF reads_printed [of "JArr []"], of "Suc d"] reads_deeper [OF reads_printed [of "JObj []"], of "Suc d"]
  by (simp_all add: written_def kept_plain utf8_ascii)

lemma written_deeper: "written d t v \<Longrightarrow> d \<le> e \<Longrightarrow> written e t v"
  using reads_deeper by (auto simp: written_def)

lemma written_valid:
  assumes "written d (''{'' @ t) (JObj ps)" "d \<le> MAX_DEPTH" "t \<noteq> []" "last t = CHR ''}''"
  shows "check_valid_jsonc_object ((''{'' @ t) @ [CHR 0x0A])"
proof -
  have "kept ((''{'' @ t) @ [CHR 0x0A])"
    by (rule kept_append) (use assms(1) kept_spaces [of "[CHR 0x0A]"] in \<open>simp_all add: written_def is_ws_def\<close>)
  then have "strip_comments ((''{'' @ t) @ [CHR 0x0A]) = (''{'' @ t) @ [CHR 0x0A]"
    "strip_trailing_commas ((''{'' @ t) @ [CHR 0x0A]) = (''{'' @ t) @ [CHR 0x0A]"
    unfolding kept_def using append_Nil2 strip_comments.simps(1) strip_trailing_commas.simps(1) by metis+
  moreover have "trim ((''{'' @ t) @ [CHR 0x0A]) = ''{'' @ t"
    using assms(1,3,4) trim_edges [of "''{'' @ t"] by (simp add: written_def edge_def is_whitespace_def)
  moreover have "parse_json (''{'' @ t) = Inr (JObj ps)"
    using parse_json_reads assms(1,2) unfolding written_def by blast
  ultimately show ?thesis by (simp only: check_valid_jsonc_object_def sum.case J.case)
qed

lemma empty_valid: "check_valid_jsonc_object (''{}'' @ [CHR 0x0A])"
  using written_valid [of 1 "''}''"] written_empty(2) [of 0] by (simp add: MAX_DEPTH_def)

lemma ws_chars: "is_ws (CHR '' '')" "is_ws (CHR 0x0A)"
  by (simp_all add: is_ws_def)

lemma env_lines_Cons:
  "env_lines fi ((k, v) # vars) =
    fi @ ''  '' @ esc k @ '': '' @ esc v @ (if vars = [] then [] else '','') @ [CHR 0x0A] @ env_lines fi vars"
proof -
  have "[0..<length ((k, v) # vars)] = 0 # map Suc [0..<length vars]" by (simp add: map_Suc_upt upt_conv_Cons del: upt_Suc)
  then show ?thesis unfolding env_lines_def by (simp add: comp_def)
qed

lemma env_written:
  assumes "vars \<noteq> []" "all_utf8 vars" "list_all is_ws fi" "list_all is_ws w"
  shows "members_written d (w @ env_lines fi vars @ fi @ ''}'') (map (\<lambda>(k, v). (k, JStr v)) vars)"
  using assms
proof (induction vars arbitrary: w)
  case (Cons kv vars)
  obtain k v where kv: "kv = (k, v)" by (cases kv)
  have u: "utf8 k" "utf8 v" using Cons.prems(2) by (auto simp: kv)
  have ws: "list_all is_ws (w @ fi @ ''  '')" "list_all is_ws '' ''" "list_all is_ws ([CHR 0x0A] @ fi)" "list_all is_ws [CHR 0x0A]" "list_all is_ws []"
    using Cons.prems(3,4) by (simp_all add: ws_chars)
  have val: "written d ('' '' @ esc v) (JStr v)" by (rule written_spaced [OF written_string [OF u(2)] ws(2)])
  show ?case
  proof (cases "vars = []")
    case True
    have "members_written d ((w @ fi @ ''  '') @ esc k @ '':'' @ ('' '' @ esc v) @ ([CHR 0x0A] @ fi) @ ''}'') [(k, JStr v)]"
      by (rule written_last [OF u(1) val ws(1,3)])
    then show ?thesis unfolding kv env_lines_Cons using True by (simp add: env_lines_def)
  next
    case False
    have "members_written d ([CHR 0x0A] @ env_lines fi vars @ fi @ ''}'') (map (\<lambda>(k, v). (k, JStr v)) vars)"
      by (rule Cons.IH [OF False _ Cons.prems(3) ws(4)]) (use Cons.prems(2) in simp)
    from written_more [OF u(1) val ws(1,5) this] show ?thesis unfolding kv env_lines_Cons using False by simp
  qed
qed simp

lemma render_written:
  assumes "utf8 command" "all_utf8 vars" "list_all is_ws fi" "list_all is_ws ci"
  shows "\<exists>ms. written 2 (render_agent_value client command vars fi ci) (JObj ms)"
proof -
  have keys: "esc ''type'' = quoted ''type''" "esc ''custom'' = quoted ''custom''" "esc ''command'' = quoted ''command''"
    "esc ''args'' = quoted ''args''" "esc ''env'' = quoted ''env''"
    by (rule quoted_printed; simp)+
  have ku: "utf8 ''type''" "utf8 ''custom''" "utf8 ''command''" "utf8 ''args''" "utf8 ''env''"
    by (simp_all add: utf8_ascii)
  have ws: "list_all is_ws ([CHR 0x0A] @ fi)" "list_all is_ws '' ''" "list_all is_ws ([CHR 0x0A] @ ci)" "list_all is_ws [CHR 0x0A]" "list_all is_ws []"
    using assms(3,4) by (simp_all add: ws_chars)
  let ?env = "if vars = [] then ''{}'' else ''{'' @ [CHR 0x0A] @ env_lines fi vars @ fi @ ''}''"
  have "written 1 ?env (JObj (map (\<lambda>(k, v). (k, JStr v)) vars))"
    using written_empty(2) [of 0] written_object [OF env_written [OF _ assms(2,3) ws(4), of 0]] by (cases "vars = []") simp_all
  then have env: "written 1 ('' '' @ ?env) (JObj (map (\<lambda>(k, v). (k, JStr v)) vars))" by (rule written_spaced [OF _ ws(2)])
  note e = written_last [OF ku(5) env ws(1,3)]
  have args: "written 1 ('' '' @ ''[]'') (JArr [])" using written_spaced [OF written_empty(1) [of 0] ws(2)] by simp
  note a = written_more [OF ku(4) args ws(1,5) e]
  note c = written_more [OF ku(3) written_spaced [OF written_string [OF assms(1)] ws(2)] ws(1,5) a]
  show ?thesis
  proof (cases "client = Zed")
    case True
    note t = written_object [OF written_more [OF ku(1) written_spaced [OF written_string [OF ku(2)] ws(2)] ws(1,5) c]]
    have "\<exists>ms. written 2 (''{'' @ ([CHR 0x0A] @ fi) @ quoted ''type'' @ '':'' @ ('' '' @ quoted ''custom'') @ [] @ '','' @
        (([CHR 0x0A] @ fi) @ quoted ''command'' @ '':'' @ ('' '' @ esc command) @ [] @ '','' @
          (([CHR 0x0A] @ fi) @ quoted ''args'' @ '':'' @ ('' '' @ ''[]'') @ [] @ '','' @
            (([CHR 0x0A] @ fi) @ quoted ''env'' @ '':'' @ ('' '' @ ?env) @ ([CHR 0x0A] @ ci) @ ''}'')))) (JObj ms)"
      using t unfolding keys by (auto simp: numeral_2_eq_2)
    then show ?thesis using True unfolding render_agent_value_def by (cases "vars = []") simp_all
  next
    case False
    note t = written_object [OF c]
    have "\<exists>ms. written 2 (''{'' @ ([CHR 0x0A] @ fi) @ quoted ''command'' @ '':'' @ ('' '' @ esc command) @ [] @ '','' @
          (([CHR 0x0A] @ fi) @ quoted ''args'' @ '':'' @ ('' '' @ ''[]'') @ [] @ '','' @
            (([CHR 0x0A] @ fi) @ quoted ''env'' @ '':'' @ ('' '' @ ?env) @ ([CHR 0x0A] @ ci) @ ''}''))) (JObj ms)"
      using t unfolding keys by (auto simp: numeral_2_eq_2)
    then show ?thesis using False unfolding render_agent_value_def by (cases "vars = []") simp_all
  qed
qed

lemma fresh_valid:
  assumes "utf8 name" "utf8 command" "all_utf8 vars"
  shows "check_valid_jsonc_object (fresh_settings client name command vars)"
proof -
  have key: "esc ''agent_servers'' = quoted ''agent_servers''" by (rule quoted_printed) simp
  have ku: "utf8 ''agent_servers''" by (simp add: utf8_ascii)
  have ws: "list_all is_ws ''      ''" "list_all is_ws ''    ''" "list_all is_ws ([CHR 0x0A] @ ''    '')" "list_all is_ws ([CHR 0x0A] @ ''  '')"
    "list_all is_ws '' ''" "list_all is_ws [CHR 0x0A]"
    by (simp_all add: is_ws_def)
  obtain ms where v: "written 2 (render_agent_value client command vars ''      '' ''    '') (JObj ms)"
    using render_written [OF assms(2,3) ws(1,2)] by blast
  note n = written_object [OF written_last [OF assms(1) written_spaced [OF v ws(5)] ws(3,4)]]
  note s = written_last [OF ku written_spaced [OF n ws(5)] ws(4,6)]
  have "check_valid_jsonc_object ((''{'' @ (([CHR 0x0A] @ ''  '') @ esc ''agent_servers'' @ '':'' @
      ('' '' @ ''{'' @ ([CHR 0x0A] @ ''    '') @ esc name @ '':'' @ ('' '' @ render_agent_value client command vars ''      '' ''    '') @ ([CHR 0x0A] @ ''  '') @ ''}'') @
      [CHR 0x0A] @ ''}'')) @ [CHR 0x0A])"
    by (rule written_valid [OF written_object [OF s]]) (simp_all add: MAX_DEPTH_def)
  then show ?thesis by (simp add: key fresh_settings_def render_agent_entry_def)
qed

text \<open>An entry ends where its object does.\<close>

lemma entry_read:
  assumes "utf8 key" "passed body" "list_all is_ws ws" "starts_char (CHR ''}'') r"
  shows "read_entry (esc key @ '': '' @ (''{'' @ body @ ''}'') @ ws @ r) = Some
    (\<lparr>je_key = key, je_at = esc key @ '': '' @ (''{'' @ body @ ''}'') @ ws @ r, je_value = ''{'' @ body @ ''}'' @ ws @ r,
      je_after = ws @ r, je_comma = None\<rparr>, r)"
proof -
  have brace: "skip_trivia r = r" "comma_here r = None"
    using assms(4) by (cases r; auto simp: starts_char_def comma_here_def is_ws_def no_comment)+
  have "skip_trivia (ws @ r) = r" using assms(3) brace(1) by (induction ws) auto
  then show ?thesis using brace jsonc_esc [OF assms(1)] object_end [OF assms(2), of "ws @ r"]
    by (simp add: read_entry_def Let_def starts_char_def is_ws_def no_comment)
qed

lemma skip_spaces_then: "list_all is_ws ws \<Longrightarrow> starts_char c t \<Longrightarrow> \<not> is_ws c \<Longrightarrow> c \<noteq> CHR ''/'' \<Longrightarrow> skip_trivia (ws @ t) = t"
proof (induction ws)
  case Nil
  then show ?case by (cases t) (auto simp: starts_char_def no_comment)
qed simp

lemma before_append_id: "before (a @ r) r = a"
  by (simp add: before_def)

lemma esc_starts: "starts_char (CHR 0x22) (esc x @ r)"
  by (simp add: starts_char_def esc_def)

text \<open>An object with one entry that is an object.\<close>

lemma one_entry:
  assumes "utf8 key" "passed body" "list_all is_ws w" "list_all is_ws ws" "starts_char (CHR ''}'') r"
  shows "parse_jsonc_object (''{'' @ w @ esc key @ '': '' @ (''{'' @ body @ ''}'') @ ws @ r) = Some
    \<lparr>jo_close = r, jo_entries = [\<lparr>je_key = key, je_at = esc key @ '': '' @ (''{'' @ body @ ''}'') @ ws @ r,
      je_value = ''{'' @ body @ ''}'' @ ws @ r, je_after = ws @ r, je_comma = None\<rparr>]\<rparr>"
proof -
  let ?p = "esc key @ '': '' @ (''{'' @ body @ ''}'') @ ws @ r"
  have p: "skip_trivia (w @ ?p) = ?p" by (rule skip_spaces_then [OF assms(3) esc_starts]) (simp_all add: is_ws_def)
  have "\<not> starts_char (CHR ''}'') ?p" by (simp add: starts_char_def esc_def)
  moreover have "starts_char (CHR ''{'') (''{'' @ w @ ?p)" "tl (''{'' @ w @ ?p) = w @ ?p" by (simp_all add: starts_char_def)
  ultimately have "parse_jsonc_object (''{'' @ w @ ?p) = entries_from ?p []"
    unfolding parse_jsonc_object_def Let_def by (simp only: p if_False if_True not_True_eq_False)
  then show ?thesis using entries_step [OF entry_read [OF assms(1,2,4,5)], of "[]"] assms(5) by simp
qed

lemma no_entries: "list_all is_ws ws \<Longrightarrow> parse_jsonc_object (''{'' @ ws @ ''}'' @ r) = Some \<lparr>jo_close = ''}'' @ r, jo_entries = []\<rparr>"
  using skip_spaces_then [of ws "CHR ''}''" "''}'' @ r"] by (simp add: parse_jsonc_object_def starts_char_def is_ws_def)

lemma not_trivia: "\<not> is_trivia_only (''{'' @ s)" "skip_trivia (''{'' @ s) = ''{'' @ s"
  by (simp_all add: is_trivia_only_def is_ws_def no_comment)

lemma fresh_uninstalled:
  assumes "utf8 name" "utf8 command" "all_utf8 vars"
  shows "uninstall_settings_edit (fresh_settings client name command vars) name = Inr (''{}'' @ [CHR 0x0A], True)"
proof -
  have key: "esc ''agent_servers'' = quoted ''agent_servers''" by (rule quoted_printed) simp
  have ku: "utf8 ''agent_servers''" by (simp add: utf8_ascii)
  let ?nl = "[CHR 0x0A]"
  have ws: "list_all is_ws (?nl @ ''  '')" "list_all is_ws (?nl @ ''    '')" "list_all is_ws ?nl" "list_all is_ws ((?nl @ ''    '') @ ?nl @ ''  '')"
    by (simp_all add: ws_chars)
  have indents: "passed ''      ''" "passed ''    ''" by (simp_all add: passed_plain)
  obtain body where body: "render_agent_value client command vars ''      '' ''    '' = ''{'' @ body @ ''}''" "passed body"
    using render_body [OF assms(2,3) indents] by blast
  let ?last = "?nl @ ''}'' @ ?nl" and ?head = "''{'' @ (?nl @ ''  '') @ esc ''agent_servers'' @ '': ''"
  let ?inner = "(?nl @ ''    '') @ (esc name @ '': '' @ (''{'' @ body @ ''}'')) @ (?nl @ ''  '')"
  have fresh: "fresh_settings client name command vars = ?head @ (''{'' @ ?inner @ ''}'') @ ?last"
    by (simp add: fresh_settings_def render_agent_entry_def body(1) key)
  have inner: "passed ?inner"
    by (intro passed_append passed_object passed_esc body(2) assms(1)) (simp_all add: passed_plain)
  have close: "starts_char (CHR ''}'') (''}'' @ ?nl)" "starts_char (CHR ''}'') (''}'' @ ?last)" by (simp_all add: starts_char_def)
  let ?s = "fresh_settings client name command vars"
  define servers where "servers = \<lparr>je_key = ''agent_servers'', je_at = esc ''agent_servers'' @ '': '' @ (''{'' @ ?inner @ ''}'') @ ?last,
      je_value = ''{'' @ ?inner @ ''}'' @ ?last, je_after = ?last, je_comma = None\<rparr>"
  define entry where "entry = \<lparr>je_key = name, je_at = esc name @ '': '' @ (''{'' @ body @ ''}'') @ (?nl @ ''  '') @ (''}'' @ ?last),
      je_value = ''{'' @ body @ ''}'' @ (?nl @ ''  '') @ (''}'' @ ?last), je_after = (?nl @ ''  '') @ (''}'' @ ?last), je_comma = None\<rparr>"
  define sub where "sub = \<lparr>jo_close = ''}'' @ ?last, jo_entries = [entry]\<rparr>"
  have root: "parse_jsonc_object ?s = Some \<lparr>jo_close = ''}'' @ ?nl, jo_entries = [servers]\<rparr>"
    using one_entry [OF ku inner ws(1,3) close(1)] unfolding fresh servers_def by (simp only: append.assoc)
  have agents: "parse_jsonc_object (je_value servers) = Some sub"
    using one_entry [OF assms(1) body(2) ws(2,1) close(2)] unfolding servers_def sub_def entry_def by (simp only: append.assoc jsonc_entry.simps)
  define left where "left = ?head @ (''{'' @ ((?nl @ ''    '') @ ?nl @ ''  '') @ ''}'') @ ?last"
  have split: "?s = (?head @ ''{'' @ (?nl @ ''    '')) @ je_at entry" unfolding fresh entry_def by simp
  have "before ?s (je_at entry) = ?head @ ''{'' @ (?nl @ ''    '')" unfolding split by (rule before_append_id)
  then have removed: "remove_entry_at ?s sub 0 = left"
    by (simp add: remove_entry_at_def entry_removal_span_def sub_def left_def) (simp add: entry_def)
  define servers' where "servers' = \<lparr>je_key = ''agent_servers'', je_at = esc ''agent_servers'' @ '': '' @ (''{'' @ ((?nl @ ''    '') @ ?nl @ ''  '') @ ''}'') @ ?last,
      je_value = ''{'' @ ((?nl @ ''    '') @ ?nl @ ''  '') @ ''}'' @ ?last, je_after = ?last, je_comma = None\<rparr>"
  have "passed ((?nl @ ''    '') @ ?nl @ ''  '')" by (simp add: passed_plain)
  from one_entry [OF ku this ws(1,3) close(1)]
  have root': "parse_jsonc_object left = Some \<lparr>jo_close = ''}'' @ ?nl, jo_entries = [servers']\<rparr>"
    unfolding left_def servers'_def by (simp only: append.assoc)
  have agents': "parse_jsonc_object (je_value servers') = Some \<lparr>jo_close = ''}'' @ ?last, jo_entries = []\<rparr>"
    using no_entries [OF ws(4), of ?last] unfolding servers'_def by simp
  have left: "left = (''{'' @ (?nl @ ''  '')) @ je_at servers'" unfolding left_def servers'_def by simp
  have "before left (je_at servers') = ''{'' @ (?nl @ ''  '')" unfolding left by (rule before_append_id)
  moreover have still: "skip_trivia left = left" unfolding left_def append.assoc by (rule not_trivia)
  moreover have "je_key servers' = ''agent_servers''" "je_comma servers' = None" "je_after servers' = ?last" by (simp_all add: servers'_def)
  ultimately have dropped: "drop_empty_section left = (''{'' @ (?nl @ ''  '')) @ ?last"
    using root' agents' by (simp add: drop_empty_section_def remove_entry_at_def entry_removal_span_def)
  have empty: "normalize_empty ((''{'' @ (?nl @ ''  '')) @ ?last) = ''{}'' @ ?nl"
    by (simp add: normalize_empty_def chars_ascii is_whitespace_def of_chars_def utf8_encode_def char_of_def bit_0)
  have "\<not> is_trivia_only ?s" "skip_trivia ?s = ?s" unfolding fresh append.assoc by (rule not_trivia)+
  moreover have "find_entry ''agent_servers'' \<lparr>jo_close = ''}'' @ ?nl, jo_entries = [servers]\<rparr> = Some servers"
    by (simp add: find_entry_def servers_def)
  moreover have "entry_index name (jo_entries sub) = Some 0" by (simp add: sub_def entry_def)
  moreover have "check_valid_jsonc_object (''{}'' @ ?nl)" by (rule empty_valid)
  ultimately show ?thesis
    using fresh_valid [OF assms, of client] root agents removed dropped empty unfolding uninstall_settings_edit_def checked_def
    by (simp only: if_True if_False not_True_eq_False option.case fst_conv)
qed

text \<open>C15: an installation into a file of blanks and comments works, and removing the agent again leaves the empty
  object.\<close>

theorem uninstall_undoes_install:
  assumes "is_trivia_only s" "utf8 name" "utf8 command" "all_utf8 vars"
  shows "\<exists>t. install_settings_edit s name command vars client = Inr (t, Added) \<and>
    uninstall_settings_edit t name = Inr (''{}'' @ [CHR 0x0A], True)"
proof -
  have "install_settings_edit s name command vars client = Inr (fresh_settings client name command vars, Added)"
    using assms(1) fresh_valid [OF assms(2-4)] by (simp add: install_settings_edit_def)
  then show ?thesis using fresh_uninstalled [OF assms(2-4)] by blast
qed


theorem uninstall_undoes_install_witness:
  "\<exists>t. install_settings_edit (''// none'' @ [CHR 0x0A]) ''a'' ''b'' [(''K'', ''v'')] Zed = Inr (t, Added) \<and>
    uninstall_settings_edit t ''a'' = Inr (''{}'' @ [CHR 0x0A], True)"
proof -
  have "is_trivia_only (''// none'' @ [CHR 0x0A])" by (simp add: is_trivia_only_def is_ws_def)
  then show ?thesis by (rule uninstall_undoes_install) (simp_all add: utf8_ascii)
qed

theorem uninstall_only_removes_witness:
  "uninstall_settings_edit (fresh_settings Zed ''a'' ''b'' []) ''a'' = Inr (''{}'' @ [CHR 0x0A], True) \<and>
    check_valid_jsonc_object (''{}'' @ [CHR 0x0A])"
proof -
  have "uninstall_settings_edit (fresh_settings Zed ''a'' ''b'' []) ''a'' = Inr (''{}'' @ [CHR 0x0A], True)"
    by (rule fresh_uninstalled) (simp_all add: utf8_ascii)
  with uninstall_only_removes [OF this] show ?thesis by simp
qed

lemma install_into_empty:
  assumes "utf8 name" "utf8 command" "all_utf8 vars"
  shows "install_settings_edit (''{}'' @ [CHR 0x0A]) name command vars client = Inr (fresh_settings client name command vars, Added)"
proof -
  let ?s = "''{}'' @ [CHR 0x0A]" and ?root = "\<lparr>jo_close = ''}'' @ [CHR 0x0A], jo_entries = []\<rparr>"
  have root: "parse_jsonc_object (skip_trivia ?s) = Some ?root"
    using no_entries [of "[]" "[CHR 0x0A]"] not_trivia(2) [of "''}'' @ [CHR 0x0A]"] by simp
  have none: "find_entry ''agent_servers'' ?root = None" by (simp add: find_entry_def)
  have "add_section client name command vars ?s ?root = fresh_settings client name command vars"
    by (simp add: add_section_def fresh_settings_def before_def)
  moreover have "\<not> is_trivia_only ?s" using not_trivia(1) [of "''}'' @ [CHR 0x0A]"] by simp
  ultimately show ?thesis
    unfolding install_settings_edit_def checked_def root option.case none using empty_valid fresh_valid [OF assms] by simp
qed

theorem install_keeps_the_rest_witness:
  "\<exists>old z. edited (''{}'' @ [CHR 0x0A]) (fresh_settings Zed ''a'' ''b'' []) old z \<and> blank_object old"
proof -
  have blank: "\<not> is_trivia_only (''{}'' @ [CHR 0x0A])" using not_trivia(1) [of "''}'' @ [CHR 0x0A]"] by simp
  have "install_settings_edit (''{}'' @ [CHR 0x0A]) ''a'' ''b'' [] Zed = Inr (fresh_settings Zed ''a'' ''b'' [], Added)"
    by (rule install_into_empty) (simp_all add: utf8_ascii)
  from install_keeps_the_rest [OF this] blank show ?thesis unfolding edit_outcome.case by (simp only: if_False)
qed

section \<open>What the commands do to the file\<close>

lemma install_valid: "install_settings_edit s name command vars client = Inr (t, outcome) \<Longrightarrow> check_valid_jsonc_object t"
  by (auto simp: install_settings_edit_def checked_def Let_def split: if_splits option.splits)

lemma uninstall_valid: "uninstall_settings_edit s name = Inr (t, True) \<Longrightarrow> check_valid_jsonc_object t"
  by (auto simp: uninstall_settings_edit_def checked_def split: if_splits option.splits)

text \<open>C13: a command that replaces a settings file was not a dry run, names the file of the options, writes valid
  settings, keeps a copy of a file that holds anything unless told not to, and when the file cannot be replaced
  writes the old text back and fails.\<close>

theorem settings_written_safely:
  assumes "parse_args args = Inr c" "c \<in> {Install client opts, Uninstall client opts}"
    "installer_dispatch E args = (code, steps)" "Replace path t \<in> set steps"
  shows "settings_path E client opts = Some path \<and> \<not> io_dry_run opts \<and> check_valid_jsonc_object t \<and>
    (io_no_backup opts \<or> ie_read E path = Missing \<or> ie_read E path = Contents [] \<or> hd steps = CopyBackup path) \<and>
    (if ie_replace E path then code = Some 0 \<and> last steps = Replace path t
     else code = Some 1 \<and> (\<forall>old. ie_read E path = Contents old \<longrightarrow> old \<noteq> [] \<longrightarrow> last steps = Rollback path old))"
  using assms(2)
proof (elim insertE emptyE)
  assume "c = Install client opts"
  then have "(case cmd_install E client opts of (n, st) \<Rightarrow> (Some n, st)) = (code, steps)"
    using assms(1,3) by (simp add: installer_dispatch_def)
  then show ?thesis using assms(4)
    by (auto simp: cmd_install_def replace_file_def Let_def split: option.splits sum.splits prod.splits file_read.splits if_splits
        dest: install_valid)
next
  assume "c = Uninstall client opts"
  then have "(case cmd_uninstall E client opts of (n, st) \<Rightarrow> (Some n, st)) = (code, steps)"
    using assms(1,3) by (simp add: installer_dispatch_def)
  then show ?thesis using assms(4)
    by (auto simp: cmd_uninstall_def replace_file_def split: option.splits sum.splits prod.splits file_read.splits if_splits
        dest: uninstall_valid)
qed

text \<open>A comment after a value without a comma is taken for a part of the value.\<close>

lemma comment_in_value: "scan_jsonc_value_end (''1 // one'' @ [CHR 0x0A] @ ''}'') = Some ([CHR 0x0A] @ ''}'')"
  by (simp add: scan_jsonc_value_end_def is_ws_def)

definition sample_env :: installer_env where
  "sample_env = \<lparr>ie_vars = (\<lambda>n. if n = ''HOME'' then Some ''/h'' else None), ie_exe = Inl [], ie_is_file = (\<lambda>p. False),
     ie_read = (\<lambda>p. Contents (''{}'' @ [CHR 0x0A])), ie_mkdir = (\<lambda>p. True), ie_replace = (\<lambda>p. True)\<rparr>"

theorem settings_written_safely_witness:
  "\<exists>t. installer_dispatch sample_env [''install''] = (Some 0, [CopyBackup ''/h/.config/zed/settings.json'',
      MakeParent ''/h/.config/zed/settings.json'', Replace ''/h/.config/zed/settings.json'' t]) \<and> check_valid_jsonc_object t"
proof -
  let ?p = "''/h/.config/zed/settings.json''" and ?t = "fresh_settings Zed ''muse-acp'' ''muse-acp'' []"
  have args: "parse_args [''install''] = Inr (Install Zed installer_opts_new)"
    by (simp add: parse_args_def parse_installer_opts_def ends_with_def suffix_to_prefix)
  have path: "settings_path sample_env Zed installer_opts_new = Some ?p"
    by (simp add: settings_path_def installer_opts_new_def default_settings_path_def home_dir_def sample_env_def nonempty_def or_else_def path_join_def Let_def)
  have "install_settings_edit (''{}'' @ [CHR 0x0A]) ''muse-acp'' ''muse-acp'' [] Zed = Inr (?t, Added)"
    by (rule install_into_empty) (simp_all add: utf8_ascii)
  then have "cmd_install sample_env Zed installer_opts_new = (0, [CopyBackup ?p, MakeParent ?p, Replace ?p ?t])"
    unfolding cmd_install_def path
    by (simp add: client_command_def sample_env_def installer_opts_new_def DEFAULT_AGENT_NAME_def DEFAULT_COMMAND_def has_parent_def replace_file_def)
  then have "installer_dispatch sample_env [''install''] = (Some 0, [CopyBackup ?p, MakeParent ?p, Replace ?p ?t])"
    by (simp add: installer_dispatch_def args)
  moreover from settings_written_safely [OF args _ this, of Zed installer_opts_new ?p ?t]
  have "check_valid_jsonc_object ?t" by simp
  ultimately show ?thesis by blast
qed

end
