(* ===== verification/History.thy ===== *)
theory History
  imports World Sha256 Spaced
begin

text \<open>
  The stored history of a session: reading it page by page up to the head of a view (\<^verbatim>\<open>collect_history\<close> of
  \<^verbatim>\<open>src/main.rs\<close>), and the turn at which an editor wants a session forked (\<^verbatim>\<open>resolve_fork_cut_point\<close>). The host
  is a function from the number of the command, its method and its parameters to the answer. The loop over pages
  has fuel, one unit per page; the number of different cursors the host hands out is enough.
\<close>

type_synonym history_host = "nat \<Rightarrow> string \<Rightarrow> string \<Rightarrow> J + J"

section \<open>Reading a history\<close>

text \<open>The items read so far, the index of each item id, and the cursors seen.\<close>

record paging =
  pg_items :: "J list"
  pg_positions :: "nat hmap"
  pg_seen :: hset

definition place_item :: "string \<Rightarrow> J \<Rightarrow> paging \<Rightarrow> paging" where
  "place_item item_id item p =
     (case hget (pg_positions p) item_id of
        Some i \<Rightarrow> p\<lparr>pg_items := (pg_items p)[i := item]\<rparr>
      | None \<Rightarrow> p\<lparr>pg_positions := hput item_id (length (pg_items p)) (pg_positions p), pg_items := pg_items p @ [item]\<rparr>)"

definition is_item_event :: "J \<Rightarrow> bool" where
  "is_item_event event \<longleftrightarrow> str_at event ''method'' \<in> Some ` {''item/started'', ''item/updated'', ''item/completed''}"

text \<open>One event of a page, with its cursor.\<close>

definition take_event :: "string \<Rightarrow> J \<Rightarrow> paging \<Rightarrow> string + paging \<times> string" where
  "take_event sid event p =
     (case jget event ''params'' of
        None \<Rightarrow> Inl ''history event missing params''
      | Some params \<Rightarrow>
          if str_at params ''sessionId'' \<noteq> Some sid then Inl ''history event belongs to another session''
          else case non_empty_str params ''viewCursor'' of
            None \<Rightarrow> Inl ''history event missing cursor''
          | Some cursor \<Rightarrow>
              (let p' = p\<lparr>pg_seen := sput cursor (pg_seen p)\<rparr> in
               if cursor \<notin> set (pg_seen p) \<and> is_item_event event then
                 (case jget params ''item'' of
                    None \<Rightarrow> Inl ''history event missing item''
                  | Some item \<Rightarrow>
                      (case str_at item ''itemId'' of
                         None \<Rightarrow> Inl ''history item missing id''
                       | Some item_id \<Rightarrow> Inr (place_item item_id item p', cursor)))
               else Inr (p', cursor)))"

text \<open>The events of a page, up to the head; the flag says that it was reached.\<close>

fun take_events :: "string \<Rightarrow> string \<Rightarrow> J list \<Rightarrow> paging \<Rightarrow> string + paging \<times> bool" where
  "take_events sid head [] p = Inr (p, False)"
| "take_events sid head (event # evs) p =
     (case take_event sid event p of
        Inl e \<Rightarrow> Inl e
      | Inr (p', cursor) \<Rightarrow> if cursor = head then Inr (p', True) else take_events sid head evs p')"

definition page_params :: "string \<Rightarrow> string \<Rightarrow> string" where
  "page_params sid cursor =
     ''{'' @ quoted ''sessionId'' @ '':'' @ esc sid @ '','' @ quoted ''direction'' @ '':'' @ quoted ''forward'' @ '','' @
     quoted ''limit'' @ '':100'' @ (if cursor = [] then [] else '','' @ quoted ''cursor'' @ '':'' @ esc cursor) @ ''}''"

fun collect_pages ::
  "history_host \<Rightarrow> string \<Rightarrow> string \<Rightarrow> nat \<Rightarrow> nat \<Rightarrow> hset \<Rightarrow> string \<Rightarrow> paging \<Rightarrow> (string + J list \<times> hset) option" where
  "collect_pages host sid head n 0 requested cursor p = None"
| "collect_pages host sid head n (Suc fuel) requested cursor p =
     (if cursor \<in> set requested then Some (Inl ''history paging made no progress'')
      else case host n ''view/page'' (page_params sid cursor) of
        Inl e \<Rightarrow> Some (Inl (''history page failed: '' @ err_message e))
      | Inr page \<Rightarrow>
          (case jget page ''events'' of
             Some (JArr evs) \<Rightarrow>
               (case take_events sid head evs p of
                  Inl e \<Rightarrow> Some (Inl e)
                | Inr (p', True) \<Rightarrow> Some (Inr (pg_items p', pg_seen p'))
                | Inr (p', False) \<Rightarrow>
                    if evs = [] then Some (Inl ''history paging stopped before the returned head'')
                    else case str_at page ''nextCursor'' of
                      None \<Rightarrow> Some (Inl ''history paging ended before the returned head'')
                    | Some c \<Rightarrow> collect_pages host sid head (Suc n) fuel (sput cursor requested) c p')
           | _ \<Rightarrow> Some (Inl ''history page returned no events'')))"

text \<open>The snapshot of a history, when it is one the adapter reads.\<close>

definition state_items :: "J \<Rightarrow> J list option" where
  "state_items snap =
     (case Option.bind (jget snap ''state'') (\<lambda>st. jget st ''items'') of Some (JArr items) \<Rightarrow> Some items | _ \<Rightarrow> None)"

definition usable_snapshot :: "J \<Rightarrow> J option" where
  "usable_snapshot history =
     Option.bind (jget history ''snapshot'') (\<lambda>snap.
       if u64_at snap ''schemaVersion'' = Some 1 \<and> state_items snap \<noteq> None then Some snap else None)"

definition item_positions :: "J list \<Rightarrow> nat hmap" where
  "item_positions items =
     fold (\<lambda>i m. case str_at (items ! i) ''itemId'' of Some item_id \<Rightarrow> hput item_id i m | None \<Rightarrow> m) [0..<length items] []"

text \<open>What is known before the first page: the items of the snapshot, and its cursor.\<close>

definition known_items :: "J \<Rightarrow> J list" where
  "known_items history = unwrap_or (Option.bind (usable_snapshot history) state_items) []"

definition known_cursor :: "J \<Rightarrow> string" where
  "known_cursor history = unwrap_or (Option.bind (usable_snapshot history) (\<lambda>s. str_at s ''viewCursor'')) []"

definition collect_history :: "history_host \<Rightarrow> nat \<Rightarrow> nat \<Rightarrow> string \<Rightarrow> J \<Rightarrow> (string + J list \<times> hset) option" where
  "collect_history host n fuel sid result =
     (case jget result ''history'' of
        None \<Rightarrow> Some (Inl ''history envelope missing'')
      | Some history \<Rightarrow>
          (case jget history ''items'' of
             Some (JArr items) \<Rightarrow> Some (Inr (items, []))
           | _ \<Rightarrow>
               (case non_empty_str result ''viewCursor'' of
                  None \<Rightarrow> Some (Inl ''history view head missing'')
                | Some head \<Rightarrow>
                    (let items = known_items history; cursor = known_cursor history in
                     if cursor = head then Some (Inr (items, []))
                     else collect_pages host sid head n fuel [] cursor
                       \<lparr>pg_items = items, pg_positions = item_positions items, pg_seen = []\<rparr>))))"

section \<open>Fork points\<close>












section \<open>The history as a log\<close>



definition cursor_of :: "J \<Rightarrow> string" where
  "cursor_of event = unwrap_or (Option.bind (jget event ''params'') (\<lambda>p. str_at p ''viewCursor'')) []"














text \<open>A host that serves a log in pages: the answer to cursor number \<open>i\<close> has the events after it, some at a time.\<close>

definition cursor_no :: "J list \<Rightarrow> nat \<Rightarrow> string" where
  "cursor_no log i = (if i = 0 then [] else cursor_of (log ! (i - 1)))"








section \<open>Properties\<close>


text \<open>Reading ends on any host that hands out only so many different cursors.\<close>

lemma pages_end:
  assumes "\<And>n cursor page c. host n ''view/page'' (page_params sid cursor) = Inr page \<Longrightarrow> str_at page ''nextCursor'' = Some c \<Longrightarrow> c \<in> C"
    "finite C" "cursor \<in> C" "card (C - set requested) < fuel"
  shows "collect_pages host sid head n fuel requested cursor p \<noteq> None"
  using assms(3,4)
proof (induction fuel arbitrary: n requested cursor p)
  case (Suc fuel)
  show ?case
  proof (cases "cursor \<in> set requested")
    case False
    have less: "card (C - set (sput cursor requested)) < fuel"
    proof -
      have "C - set (sput cursor requested) = (C - set requested) - {cursor}" by (auto simp: sput_def)
      moreover have "cursor \<in> C - set requested" using False Suc.prems(1) by simp
      moreover have "0 < card (C - set requested)" using calculation(2) assms(2) by (auto simp: card_gt_0_iff)
      ultimately show ?thesis using assms(2) Suc.prems(2) by (simp add: card_Diff_singleton)
    qed
    show ?thesis using False Suc.IH [OF assms(1) less]
      by (auto split: sum.split option.split J.split prod.split bool.split simp: Let_def)
  qed simp
qed simp

text \<open>Whatever a host answers, if its cursors are among those of a list, reading a history ends.\<close>

theorem history_paging_ends:
  assumes "\<And>n cursor page c. host n ''view/page'' (page_params sid cursor) = Inr page \<Longrightarrow> str_at page ''nextCursor'' = Some c \<Longrightarrow> c \<in> set cs"
    "length cs + 1 < fuel"
  shows "collect_history host n fuel sid result \<noteq> None"
proof -
  have "collect_pages host sid head n fuel [] cursor p \<noteq> None" for head cursor p
  proof (rule pages_end [where C = "insert cursor (set cs)"])
    have "card (insert cursor (set cs)) \<le> length cs + 1" using card_insert_le_m1 card_length [of cs] by (metis Suc_eq_plus1 card_insert_le_m1 diff_Suc_1 le_SucI card_insert_if finite_set Suc_le_mono)
    then show "card (insert cursor (set cs) - set []) < fuel" using assms(2) by simp
  qed (use assms(1) in auto)
  then show ?thesis by (simp add: collect_history_def Let_def split: option.split J.split)
qed





section \<open>Examples\<close>

definition demo_log_event :: "string \<Rightarrow> string \<Rightarrow> J" where
  "demo_log_event cursor t = JObj [(''method'', JStr ''item/completed''), (''params'', JObj [(''sessionId'', JStr ''s''),
     (''viewCursor'', JStr cursor), (''item'', JObj [(''itemId'', JStr ''i''), (''text'', JStr t)])])]"

definition demo_log :: "J list" where
  "demo_log = [demo_log_event ''c1'' ''a'', demo_log_event ''c2'' ''b'']"

definition demo_log_host :: history_host where
  "demo_log_host n meth params =
     (let i = (if params = page_params ''s'' [] then 0 else if params = page_params ''s'' ''c1'' then 1 else 2) in
      Inr (JObj [(''events'', JArr (take 1 (drop i demo_log))), (''nextCursor'', JStr (cursor_no demo_log (min (i + 1) 2)))]))"



theorem history_paging_ends_witness:
  "collect_history demo_log_host 0 4 ''s'' (JObj [(''history'', JObj []), (''viewCursor'', JStr ''c9'')]) \<noteq> None"
proof -
  have cursors: "cursor_no demo_log 1 = ''c1''" "cursor_no demo_log (Suc (Suc 0)) = ''c2''"
    by (simp_all add: cursor_no_def demo_log_def demo_log_event_def cursor_of_def str_at_def)
  have "c \<in> set [''c1'', ''c2'']"
    if "demo_log_host n ''view/page'' params = Inr page" "str_at page ''nextCursor'' = Some c" for n params page c
    using that cursors by (auto simp: demo_log_host_def Let_def str_at_def split: if_splits)
  then show ?thesis by (rule history_paging_ends [where cs = "[''c1'', ''c2'']"]) simp_all
qed


end
