(* ===== verification/Recovery.thy ===== *)
theory Recovery
  imports Host
begin

text \<open>
  When a lost host is started again (\<^verbatim>\<open>RestartBudget\<close> of \<^verbatim>\<open>src/main.rs\<close>) and which hosts are accepted at all
  (\<^verbatim>\<open>src/compat.rs\<close>). Times are milliseconds of a clock that never goes back.
\<close>

section \<open>Restart budget\<close>

definition RESTART_MAX :: nat where
  "RESTART_MAX = 5"

definition RESTART_WINDOW :: nat where
  "RESTART_WINDOW = 600 * 1000"

type_synonym restart_budget = "nat list"

text \<open>The delay before a restart at this time, if there may be one, and the restarts remembered.\<close>

definition admit :: "nat \<Rightarrow> restart_budget \<Rightarrow> nat option \<times> restart_budget" where
  "admit moment recent =
     (let young = dropWhile (\<lambda>at. RESTART_WINDOW \<le> moment - at) recent in
      if RESTART_MAX \<le> length young then (None, young)
      else (Some (case length young of 0 \<Rightarrow> 0 | Suc n \<Rightarrow> 250 * 2 ^ n), young @ [moment]))"







text \<open>A restart is refused only when five of the last ten minutes are remembered, and an exit long after the
  others is followed by a restart at once.\<close>

lemma refused_only_when_spent: "fst (admit moment recent) = None \<Longrightarrow> RESTART_MAX \<le> length recent"
  using length_dropWhile_le [of "\<lambda>at. RESTART_WINDOW \<le> moment - at" recent] by (auto simp: admit_def Let_def split: if_splits)

lemma late_exit_restarts_now: "list_all (\<lambda>at. at + RESTART_WINDOW \<le> moment) recent \<Longrightarrow> fst (admit moment recent) = Some 0"
proof -
  assume "list_all (\<lambda>at. at + RESTART_WINDOW \<le> moment) recent"
  then have "\<forall>at \<in> set recent. RESTART_WINDOW \<le> moment - at" by (auto simp: list_all_iff)
  then have none: "dropWhile (\<lambda>at. RESTART_WINDOW \<le> moment - at) recent = []" by (rule dropWhile_eq_Nil_conv [THEN iffD2])
  show ?thesis unfolding admit_def none Let_def by (simp add: RESTART_MAX_def)
qed

section \<open>Compatibility of a host\<close>

definition SUPPORTED_SCHEMA_VERSION :: nat where
  "SUPPORTED_SCHEMA_VERSION = 1"

definition TESTED_FINGERPRINT :: string where
  "TESTED_FINGERPRINT = ''sha256:03312c213efd14277a0e0a102f70adeae497a469ca4edf7242f479953ed758b7''"

definition HOST_121_FINGERPRINT :: string where
  "HOST_121_FINGERPRINT = ''sha256:c7ff6c5d1e89cd42f803aea1f05b8e72082f2099685802473eb726903484713b''"

definition HOST_130_FINGERPRINT :: string where
  "HOST_130_FINGERPRINT = ''sha256:ab69549a7ebb423fce94068762da0b5ff3cdec1f8fc263dcc17248eda117f852''"

definition HOST_130_R3401_1_FINGERPRINT :: string where
  "HOST_130_R3401_1_FINGERPRINT = ''sha256:7469c9e352e67def4a59df7e439984d7194fa351e1c8b7abb34060fd977ced81''"

definition HOST_141_FINGERPRINT :: string where
  "HOST_141_FINGERPRINT = ''sha256:e0e163db6ccf00dbe68402ce55d6319b3edc33c421f31e9583b587b2de8a118f''"

definition HOST_142_FINGERPRINT :: string where
  "HOST_142_FINGERPRINT = ''sha256:61afea3112e0906e9dc3a536144278a74cb4b36fc6e20901a91d4432ba3568e2''"

definition HOST_143_FINGERPRINT :: string where
  "HOST_143_FINGERPRINT = ''sha256:4cb671082574037fc1070a136db7c0c8dc24e65e78cf3d209a10944ff9f9845f''"

definition HOST_144_FINGERPRINT :: string where
  "HOST_144_FINGERPRINT = ''sha256:7c94f153c41659cb3f1bd3c3e04438be254644cb2a97d65d48edc7449b74858a''"

definition HOST_146_FINGERPRINT :: string where
  "HOST_146_FINGERPRINT = ''sha256:eae467ab60cb9a5d5af4de616830f065e59375c987fd59269c8cc33ed2a1137f''"

definition HOST_147_FINGERPRINT :: string where
  "HOST_147_FINGERPRINT = ''sha256:6de32db08bbbe0deb478d2bfcaba001e9fb490986bc80db3aceb4d996abf7df9''"

definition HOST_148_FINGERPRINT :: string where
  "HOST_148_FINGERPRINT = ''sha256:4e3200c3c9dc0cd7919d11022630d43f9bc1c5cdda375381e90b0183b5665069''"

definition HOST_149_FINGERPRINT :: string where
  "HOST_149_FINGERPRINT = ''sha256:5d3b43e5ccdb7dc4f5a32c380f5f2cde0f10e3059b93610afb2e73f73b1d914c''"

definition HOST_1411_FINGERPRINT :: string where
  "HOST_1411_FINGERPRINT = ''sha256:f282ad16e21520d0cda68cb190149b86e2b062eef1dd282749360c05aa3d1082''"

definition HOST_1412_FINGERPRINT :: string where
  "HOST_1412_FINGERPRINT = ''sha256:cfdb6d2525601b9bac76584ccb0610ab3a5539b5e4f51141f079b99b39fcb4e0''"

definition HOST_1413_FINGERPRINT :: string where
  "HOST_1413_FINGERPRINT = ''sha256:7fddaf646dbc317e5fcac0785e135eb04df14fbb0db1863089dfd6da21730e5b''"

definition HOST_1414_FINGERPRINT :: string where
  "HOST_1414_FINGERPRINT = ''sha256:c94c3d1f2f51e6424074b9ec43eac3eedcf532d3dcd77351ec1383a87d3049c6''"

definition TRANSCRIPT_FIXTURE_FINGERPRINT :: string where
  "TRANSCRIPT_FIXTURE_FINGERPRINT = ''sha256:c8d1a2a1866814e220fd396d382a9a75861412feee884b5021b2ee359bd3dc59''"

definition SDK_MANIFEST_FINGERPRINT :: string where
  "SDK_MANIFEST_FINGERPRINT = HOST_1414_FINGERPRINT"

datatype compat_status = Tested | Degraded | Incompatible | Fixture | UnknownHost

fun compat_name :: "compat_status \<Rightarrow> string" where
  "compat_name Tested = ''tested''"
| "compat_name Degraded = ''degraded''"
| "compat_name Incompatible = ''incompatible''"
| "compat_name Fixture = ''fixture''"
| "compat_name UnknownHost = ''unknown''"

record compatibility =
  co_version :: "nat option"
  co_fingerprint :: string
  co_status :: compat_status
  co_detail :: string

definition compat_table :: "(string \<times> compat_status \<times> string) list" where
  "compat_table =
    [(TESTED_FINGERPRINT, Tested, ''validated against live host 1.0.2''),
     (HOST_121_FINGERPRINT, Tested, ''validated against live host 1.2.1''),
     (HOST_130_FINGERPRINT, Tested, ''validated against live host 1.3.0''),
     (HOST_130_R3401_1_FINGERPRINT, Tested, ''validated against live host 1.3.0-R3401.1''),
     (HOST_141_FINGERPRINT, Tested, ''validated against live host 1.4.1''),
     (HOST_142_FINGERPRINT, Tested, ''validated against live host 1.4.2''),
     (HOST_143_FINGERPRINT, Tested, ''validated against live host 1.4.3''),
     (HOST_144_FINGERPRINT, Tested, ''validated against live host 1.4.4''),
     (HOST_146_FINGERPRINT, Tested, ''validated against live host 1.4.6''),
     (HOST_147_FINGERPRINT, Tested, ''validated against live host 1.4.7''),
     (HOST_148_FINGERPRINT, Tested, ''validated against live host 1.4.8; the previously vendored SDK 838d36a surface''),
     (HOST_149_FINGERPRINT, Degraded, ''Muse 1.4.9/1.4.10 surface; byte-identical to the installed 1.4.10 export, pending a pinned CI build''),
     (HOST_1411_FINGERPRINT, Tested, ''validated against live host 1.4.11-R6667.1; the previously vendored SDK 22a8a56 surface''),
     (HOST_1412_FINGERPRINT, Tested, ''validated against live host 1.4.12-R6909.1; the previously vendored SDK 09d67ec surface''),
     (HOST_1413_FINGERPRINT, Tested, ''validated against live host 1.4.13-R6996.1; the previously vendored SDK 3dce908 surface''),
     (HOST_1414_FINGERPRINT, Tested, ''validated against live host 1.4.14-R7309.1; the vendored SDK a45cb67 surface''),
     (TRANSCRIPT_FIXTURE_FINGERPRINT, Fixture, ''transcript fixture fingerprint; never a live-host result'')]"

definition table_entry :: "string \<Rightarrow> (compat_status \<times> string) option" where
  "table_entry fp = map_of compat_table fp"

definition classify_host :: "nat option \<Rightarrow> string \<Rightarrow> compatibility" where
  "classify_host version reported =
     (let fp = (if reported = [] then ''absent'' else reported) in
      case unwrap_or (table_entry fp) (UnknownHost, ''no compatibility decision recorded'') of
        (status, detail) \<Rightarrow>
          (case version of
             Some v \<Rightarrow>
               if v = SUPPORTED_SCHEMA_VERSION then \<lparr>co_version = version, co_fingerprint = fp, co_status = status, co_detail = detail\<rparr>
               else \<lparr>co_version = version, co_fingerprint = fp, co_status = Incompatible,
                 co_detail = ''unsupported MSP envelope schema version (fatal)''\<rparr>
           | None \<Rightarrow>
               if status = Tested then \<lparr>co_version = None, co_fingerprint = fp, co_status = Degraded,
                 co_detail = ''fingerprint known but schema version absent''\<rparr>
               else \<lparr>co_version = None, co_fingerprint = fp, co_status = status,
                 co_detail = (if status = UnknownHost then ''schema version absent and fingerprint unknown'' else detail)\<rparr>))"

definition is_fatal :: "compatibility \<Rightarrow> bool" where
  "is_fatal c \<longleftrightarrow> co_status c = Incompatible"

definition log_line :: "string \<Rightarrow> string \<Rightarrow> compatibility \<Rightarrow> string" where
  "log_line adapter host c =
     ''schema-compat adapter='' @ adapter @ '' host='' @ host @ '' schema_version='' @
     (case co_version c of Some v \<Rightarrow> show_nat v | None \<Rightarrow> ''absent'') @ '' fingerprint='' @ co_fingerprint c @
     '' status='' @ compat_name (co_status c) @ '' detail='' @ co_detail c"

text \<open>The adapter's check of a handshake, before it is closed.\<close>

definition compatibility_of :: "handshake \<Rightarrow> compatibility" where
  "compatibility_of h = classify_host (schema_version h) (unwrap_or (fingerprint h) ''?'')"

definition compatibility_check :: "handshake \<Rightarrow> string + unit" where
  "compatibility_check h =
     (let c = compatibility_of h in
      if is_fatal c then
        Inl (''incompatible host schema: version='' @ (case co_version c of Some v \<Rightarrow> show_nat v | None \<Rightarrow> ''absent'') @
          '' fingerprint='' @ co_fingerprint c @ ''; upgrade muse-acp'')
      else Inr ())"

lemma table_never_fatal: "table_entry fp = Some (status, detail) \<Longrightarrow> status \<noteq> Incompatible"
proof -
  assume "table_entry fp = Some (status, detail)"
  then have "(fp, status, detail) \<in> set compat_table" unfolding table_entry_def by (rule map_of_SomeD)
  moreover have "list_all (\<lambda>(f, st, d). st \<noteq> Incompatible) compat_table" by (simp add: compat_table_def)
  ultimately show ?thesis by (auto simp: list_all_iff)
qed

text \<open>A host is refused exactly for an envelope version other than the supported one; a fingerprint alone never
  refuses it.\<close>

lemma fatal_for_version_only: "is_fatal (classify_host version fp) \<longleftrightarrow> version \<notin> {None, Some SUPPORTED_SCHEMA_VERSION}"
proof -
  let ?fp = "if fp = [] then ''absent'' else fp"
  obtain status detail where e: "unwrap_or (table_entry ?fp) (UnknownHost, ''no compatibility decision recorded'') = (status, detail)"
    by fastforce
  then have "status \<noteq> Incompatible" using table_never_fatal by (auto split: option.splits)
  then show ?thesis unfolding classify_host_def Let_def e by (auto simp: is_fatal_def split: option.splits)
qed

lemma refused_for_version_only:
  "compatibility_check h = Inr () \<longleftrightarrow> schema_version h \<in> {None, Some SUPPORTED_SCHEMA_VERSION}"
  by (simp add: compatibility_check_def compatibility_of_def fatal_for_version_only Let_def)

text \<open>A host counts as tested only with the supported version and a fingerprint of the table.\<close>

lemma tested_hosts: "co_status (classify_host version fp) = Tested \<Longrightarrow>
    version = Some SUPPORTED_SCHEMA_VERSION \<and> (\<exists>detail. table_entry (if fp = [] then ''absent'' else fp) = Some (Tested, detail))"
  by (auto simp: classify_host_def Let_def split: option.splits prod.splits if_splits)

end
