(* ===== verification/Spec2Isabelle.thy ===== *)
theory Spec2Isabelle
  imports Stores Sha256 Fold_Rows Fold_Versions Client_Props Host Reviewer_Props Approval_Card Command_Props
    Prompt_Props File_Report Turn_Usage Turn_Texts Turn_Props Question_Props
    Installer History Recovery
begin

text \<open>
  A verification development for \<^bold>\<open>muse-acp\<close>, the adapter that lets an ACP editor drive a Muse host.

  \<^bold>\<open>The program.\<close> The adapter runs one or more \<^verbatim>\<open>muse serve\<close> processes and speaks MSP with each of them:
  JSON-RPC messages, one per line, over the child's pipes (\<^verbatim>\<open>crates/muse-msp-client/src\<close>: \<^verbatim>\<open>json.rs\<close> the codec,
  \<^verbatim>\<open>client.rs\<close> the connection, \<^verbatim>\<open>handshake.rs\<close>, \<^verbatim>\<open>config.rs\<close>, \<^verbatim>\<open>exit.rs\<close>, \<^verbatim>\<open>error.rs\<close>, \<^verbatim>\<open>process.rs\<close> the life
  of a host). Host notifications reach the event loop of \<^verbatim>\<open>src/main.rs\<close>, which hands the items of a
  session to its \<^emph>\<open>fold\<close> (\<^verbatim>\<open>src/fold.rs\<close>); the fold keeps what the editor has been told and answers each
  event with the ACP notifications built by \<^verbatim>\<open>src/out.rs\<close> in the negotiated protocol version. Approvals
  the user delegates go to a second, read-only host whose reply \<^verbatim>\<open>src/reviewer.rs\<close> reads as a verdict.
  Small stores (\<^verbatim>\<open>src/modes.rs\<close>, \<^verbatim>\<open>src/efforts.rs\<close>) remember a session's mode and reasoning tier across
  restarts; \<^verbatim>\<open>src/diff.rs\<close>, \<^verbatim>\<open>src/sha256.rs\<close> and \<^verbatim>\<open>src/json.rs\<close> are helpers.

  \<^bold>\<open>Shared layer.\<close> \<^verbatim>\<open>Prelude\<close> has hash maps and sets as association lists (the program never depends on
  their iteration order except where it sorts), string and option helpers and the decimal printer with
  its inverse. \<^verbatim>\<open>Utf8\<close> models Rust strings: byte strings that are valid UTF-8, their characters and the
  laws of cutting and joining them. \<^verbatim>\<open>Handler\<close> is the vocabulary of event handlers, state
  transformers that also send a list of notifications, with a locale for relations that every composition of handlers keeps; the
  fold's invariants are instances of it.

  \<^bold>\<open>JSON.\<close> \<^verbatim>\<open>Json\<close> is the client's value type, parser and printer, function by function. The recursive
  descent carries fuel, the number of bytes plus one; \<^verbatim>\<open>Json_Correct\<close> shows that it is always enough, so parsing is
  total. \<^verbatim>\<open>Json_Roundtrip\<close> shows that the printed text of a well-formed value parses back to it, and
  \<^verbatim>\<open>Json_Sound\<close> that whatever the parser accepts is well-formed and nests at most 64 levels.
  \<^verbatim>\<open>Codec\<close> has base64 and minted ids, \<^verbatim>\<open>Sha256\<close> the digest on 32-bit words with its equivalence to the
  standard's definition.

  \<^bold>\<open>Stores.\<close> \<^verbatim>\<open>Stores\<close> models both stores over a record of environment variables and files. A locale
  states what a keyed store promises; its interpretations on the two models give the refinements of a
  finite map.

  \<^bold>\<open>Notifications.\<close> \<^verbatim>\<open>Diff\<close> models patch texts; \<^verbatim>\<open>Out\<close> models cards, chunks, plans and the other updates
  for both protocol versions.

  \<^bold>\<open>The fold.\<close> \<^verbatim>\<open>Fold_Text\<close> (truncation, one-line texts, titles, paths, time stamps), \<^verbatim>\<open>Fold_State\<close> (the record
  of \<^verbatim>\<open>SessionFold\<close> and the observation of workflows and subagents), \<^verbatim>\<open>Fold_Cards\<close> (the card of every item
  kind), \<^verbatim>\<open>Fold_Tasks\<close> (async tasks, subagents, terminals, monitors), \<^verbatim>\<open>Fold_Items\<close> (snapshots, deltas,
  completions, rows that wait for an anchor, replay) and \<^verbatim>\<open>Fold_Machine\<close> (the event type and the step of a
  session) translate \<^verbatim>\<open>fold.rs\<close>. \<^verbatim>\<open>Fold_Refine\<close> and \<^verbatim>\<open>Fold_Handlers\<close> prove for each handler the relations of the
  abstract contract; \<^verbatim>\<open>Fold_Session\<close> lifts them to every sequence of host events (a task is announced
  once, its states alternate, a settled item stays settled);
  \<^verbatim>\<open>Fold_Rows\<close> shows that no completed item is lost; \<^verbatim>\<open>Fold_Versions\<close> that a session speaks one protocol
  version.

  \<^bold>\<open>The connection.\<close> \<^verbatim>\<open>Client_Wire\<close> models frames, the bounded line reader and the routing of messages;
  \<^verbatim>\<open>Client\<close> models the threads of a connection. Each method of \<^verbatim>\<open>client.rs\<close> is a program of atomic operations
  (one per locked section or channel operation) and \<^verbatim>\<open>cstep\<close> interleaves callers, the writer, the reader
  and closing threads arbitrarily. \<^verbatim>\<open>Client_Inv\<close> has the inductive invariants and \<^verbatim>\<open>Client_Props\<close> the
  properties of every reachable state: an answer reaches the request with its id, nobody waits for a
  dead connection. \<^verbatim>\<open>Host\<close> models the handshake, launch arguments, exit classification, typed errors and
  the bounded tail of the host's standard error.

  \<^bold>\<open>Reviews.\<close> \<^verbatim>\<open>Reviewer\<close> models the prompt, the reading of a verdict and the approval choices;
  \<^verbatim>\<open>Reviewer_Props\<close> shows what an approval rests on and that evidence cannot forge a section of the prompt.

  \<^bold>\<open>Approvals.\<close> \<^verbatim>\<open>Approval_Card\<close> models what a permission prompt shows and proves that text from outside stays
  quoted in it. \<^verbatim>\<open>Hosts\<close> models the processes the adapter runs (\<^verbatim>\<open>hosts.rs\<close>): launches, generations, the owner of
  a session and the routing of commands. \<^verbatim>\<open>World\<close> has the state of the event loop of \<^verbatim>\<open>main.rs\<close> (the sessions with their open
  work, the review engine, the processes, what has been sent) and the surroundings it runs in. \<^verbatim>\<open>Approvals\<close> (the
  auto-review engine, the command-prefix policy, the decisions) and \<^verbatim>\<open>Permissions\<close> (opening, queueing, showing and
  settling approvals, the events of the loop) translate the approvals; the functions call each other in a circle, so each returns the
  calls it ends with as tasks, and \<^verbatim>\<open>Permission_Run\<close> runs the tasks, with the proof that they end (a queued
  approval weighs 7, a queued review 6, and every task uses up more than it leaves). \<^verbatim>\<open>Permission_Steps\<close> is the
  abstract flow of approvals as a step relation with the refinement of every task, \<^verbatim>\<open>Permission_Events\<close> the
  refinement of every event; the relation also follows which approvals hosts have asked for, from the event that brings one
  through the queue of its session to the permission or the review. \<^verbatim>\<open>Permission_Props\<close> proves the invariants of the flow: an
  approval is decided once, every decision has its grounds in a request of the run, no review is forgotten. \<^verbatim>\<open>Frames\<close> says what an operation leaves alone: relations between two
  worlds with a rule for every way of composing operations.

  \<^bold>\<open>Turns and questions.\<close> \<^verbatim>\<open>Turns\<close> models how a prompt ends: its turn completes or fails, is withdrawn or
  retracted, is lost with a host or a reattached session, or its session is closed; recaps and feedback forms
  are prompts that wait for something else. It also has the items of a turn, the transcripts of child sessions and the
  cursors that drop an event told twice; \<^verbatim>\<open>Tool_Patch\<close> reads a stored patch in pieces. \<^verbatim>\<open>Forms\<close> and \<^verbatim>\<open>Questions\<close>
  model the questions of the host, asked one form at a time. \<^verbatim>\<open>Prompts\<close> models the requests of the editor:
  a prompt with the commands the adapter runs itself, steering, cancelling, reclaiming a queued prompt, stopping a task. \<^verbatim>\<open>Ledger\<close>
  keeps the account of prompts: the ids answered so far and the ids still owed an answer, as multisets, with the
  account of every operation; \<^verbatim>\<open>Ledger_Run\<close> lifts it to runs of the loop. \<^verbatim>\<open>Turn_Props\<close> shows that every request is
  answered once or still waits, that closing a session leaves nothing waiting and losing the hosts nothing but feedback
  forms; \<^verbatim>\<open>Question_Props\<close> shows that the form on display asks the next question, that a choice is answered with the
  host's own label, that events told twice take effect once and which patches are read back whole. Runs do not close sessions: an approval
  of a session that is opened again would be a new one, but its ids need not differ from the old one's.

  \<^bold>\<open>Contents of a prompt.\<close> \<^verbatim>\<open>Commands\<close> models the slash commands the adapter answers itself, each parser and the order in
  which the prompt handler tries them; \<^verbatim>\<open>Command_Props\<close> shows that a command line is claimed by exactly one
  of them. \<^verbatim>\<open>Prompt_Parts\<close> models how a prompt becomes host input: skills, images, video uploads in chunks
  and local files, with the calls to the host as an explicit log; \<^verbatim>\<open>Prompt_Props\<close> shows that an upload is
  delivered whole (unless there is nothing but line breaks to deliver), that reads stay inside the session's roots and that the echo is complete. \<^verbatim>\<open>File_Report\<close>
  models the file-change report of a turn, \<^verbatim>\<open>Turn_Usage\<close> the token counters of its legs, \<^verbatim>\<open>Turn_Texts\<close> the
  errors and texts a turn ends with.

  \<^bold>\<open>Settings installers.\<close> \<^verbatim>\<open>Settings\<close> models the scanner of JSON with comments and the edits of a settings
  file in \<^verbatim>\<open>zed.rs\<close>, with positions as the text from there on, and shows what each edit leaves alone; \<^verbatim>\<open>Spaced\<close>
  shows how the parser reads JSON written with white space. \<^verbatim>\<open>Installer\<close> has the command line and the two
  commands: an installation keeps the rest of a file that holds a value, removing only takes text away and undoes an installation,
  and a file is replaced only by valid settings after a copy.

  \<^bold>\<open>Histories and recovery.\<close> \<^verbatim>\<open>History\<close> models how the stored history of a session is read page by page
  (\<^verbatim>\<open>collect_history\<close>) and where a fork is cut (\<^verbatim>\<open>resolve_fork_cut_point\<close>); it proves the reading equal to replaying the
  host's log up to the head of the view. One unit of fuel is a page; reading ends with one more than the cursors a host
  hands out. \<^verbatim>\<open>Recovery\<close> models the budget of automatic restarts (\<^verbatim>\<open>RestartBudget\<close>) with its bound on
  every window, and the classification of hosts in \<^verbatim>\<open>compat.rs\<close>: only an unknown envelope version refuses one.

  \<^bold>\<open>Parameters.\<close> Code outside the repository is an argument: random bytes and clocks, Unicode case tables,
  the debug format of strings, the conversion of JSON text by \<^verbatim>\<open>serde_json\<close>, what a host answers to a command,
  whether a process starts, whether a frame can be written. Locks are modelled by atomicity, the
  values behind them by explicit state.

  \<^bold>\<open>Not modelled.\<close> Child processes and pipes themselves, the editor bridge and its MCP server
  (\<^verbatim>\<open>bridge.rs\<close>, \<^verbatim>\<open>editor.rs\<close>, \<^verbatim>\<open>mcp.rs\<close>); of the requests of the editor, creating, loading, forking, listing and
  deleting sessions, configuration options, modes, authentication and the remaining extension methods; of the notifications of a
  host, those about usage totals, titles, todo lists, skills, models and status; the restart of a host itself (its budget and what it
  leaves of the sessions are modelled) and the refill of a gap in a view; shutdown, and the schema
  objects of \<^verbatim>\<open>out.rs\<close> for options and forms. These either move data between JSON schemas of the two protocols or drive the
  operating system. Logging is left out everywhere.
\<close>

end
